(* ===== verification/Go_Prelude.thy ===== *)
theory Go_Prelude
  imports Main "HOL-Library.Word" "HOL-Library.Sublist"
begin

section \<open>Prelude: the Go notions the components share\<close>

text \<open>
  The types and generic lemmas every component theory uses.

  \<^item> A Go \<open>byte\<close>, \<open>uint8\<close>, \<dots>, \<open>uint64\<close> is a word of that width; an \<open>int64\<close> is a
    64-bit word that is read with \<^const>\<open>sint\<close>. A Go \<open>string\<close> is a list of HOL characters,
    which are bytes, as Go strings are.
  \<^item> An error value is a \<open>goerr\<close>: a message (\<open>errors.New\<close>, \<open>fmt.Errorf\<close> without \<open>%w\<close>), a
    message that wraps another error (\<open>fmt.Errorf\<close> with \<open>%w\<close>), or a run-time panic. Sentinel
    errors are told apart by their message; the messages in the source are pairwise distinct.
  \<^item> A function that returns \<open>(T, error)\<close> or may panic has the type \<open>T res\<close>: \<open>Inl\<close> is
    the error or the panic, \<open>Inr\<close> the value.
\<close>

type_synonym byte = "8 word"
type_synonym bytes = "8 word list"
type_synonym uint8 = "8 word"
type_synonym uint16 = "16 word"
type_synonym uint32 = "32 word"
type_synonym uint64 = "64 word"
type_synonym int64 = "64 word"

datatype goerr = ErrNew string | ErrWrap string goerr | GoPanic string

type_synonym 'a res = "goerr + 'a"

text \<open>\<open>errors.Is\<close>: the target is the error itself or one it wraps.\<close>

fun errors_is :: "goerr \<Rightarrow> goerr \<Rightarrow> bool" where
  "errors_is (ErrWrap m e) t \<longleftrightarrow> ErrWrap m e = t \<or> errors_is e t"
| "errors_is e t \<longleftrightarrow> e = t"

text \<open>\<open>err.Error()\<close>: every wrapping format of the source is \<open>msg: %w\<close>.\<close>

fun err_text :: "goerr \<Rightarrow> string" where
  "err_text (ErrNew m) = m"
| "err_text (ErrWrap m e) = m @ '': '' @ err_text e"
| "err_text (GoPanic m) = m"

definition is_panic :: "'a res \<Rightarrow> bool" where
  "is_panic r = (case r of Inl (GoPanic _) \<Rightarrow> True | _ \<Rightarrow> False)"

definition index_panic :: goerr where
  "index_panic = GoPanic ''index out of range''"

definition slice_panic :: goerr where
  "slice_panic = GoPanic ''slice bounds out of range''"

text \<open>The builtin \<open>copy(dst, src)\<close>: the contents of \<open>dst\<close> afterwards.\<close>

definition gocopy :: "'a list \<Rightarrow> 'a list \<Rightarrow> 'a list" where
  "gocopy dst src = take (length dst) src @ drop (length src) dst"

text \<open>
  The signed reading of \<open>int(x)\<close> for a 64-bit unsigned \<open>x\<close>, and its inverse
  \<open>uint64(n)\<close> for an \<open>int\<close>.
\<close>

definition int_of_uint64 :: "uint64 \<Rightarrow> int" where
  "int_of_uint64 x = sint x"

definition uint64_of_int :: "int \<Rightarrow> uint64" where
  "uint64_of_int n = word_of_int n"

subsection \<open>Collections of rules\<close>

named_theorems codec_simps \<open>equations that evaluate encoders and decoders\<close>
named_theorems model_defs \<open>the definitions of the small operations of a component\<close>

subsection \<open>Lists and copying\<close>

lemma length_gocopy [simp]: "length (gocopy dst src) = length dst"
  by (simp add: gocopy_def)

lemma take_gocopy: "length src \<le> length dst \<Longrightarrow> take (length src) (gocopy dst src) = src"
  by (simp add: gocopy_def)

lemma drop_gocopy: "length src \<le> length dst \<Longrightarrow> drop (length src) (gocopy dst src) = drop (length src) dst"
  by (simp add: gocopy_def)

lemma gocopy_full: "length dst \<le> length src \<Longrightarrow> gocopy dst src = take (length dst) src"
  by (simp add: gocopy_def)

lemma drop_eq_nth_Cons: "i < length xs \<Longrightarrow> drop i xs = xs ! i # drop (Suc i) xs"
  by (simp add: Cons_nth_drop_Suc)

lemma concat_all_Nil: "(\<And>x. x \<in> set xs \<Longrightarrow> x = []) \<Longrightarrow> concat xs = []"
  by (induction xs) auto

lemma take_concat_Cons:
  "take n (concat (x # xs)) = take n x @ take (n - length x) (concat xs)"
  by simp

lemma sint_of_small: "unat (x :: uint64) < 2 ^ 63 \<Longrightarrow> sint x = int (unat x)"
proof -
  assume "unat x < 2 ^ 63"
  then have "int (unat x) < 2 ^ 63" by (metis of_nat_less_iff of_nat_numeral of_nat_power)
  then have "uint x < 2 ^ 63" by simp
  moreover have "- (2 ^ 63) \<le> uint x" by (rule order_trans [of _ 0]) simp_all
  ultimately have "signed_take_bit 63 (uint x) = uint x"
    by (simp add: signed_take_bit_int_eq_self)
  then show ?thesis by (simp add: sint_uint)
qed

lemma sint_int64_range: "- (2 ^ 63) \<le> sint (x :: int64) \<and> sint x < 2 ^ 63"
  using sint_ge [of x] sint_lt [of x] by simp

lemma sint_add_no_wrap:
  assumes "- (2 ^ 63) \<le> sint a + sint b" "sint a + sint b < 2 ^ 63"
  shows "sint (a + b :: int64) = sint a + sint b"
proof -
  have "signed_take_bit 63 (sint a + sint b) = sint a + sint b"
    using assms by (rule signed_take_bit_int_eq_self)
  then show ?thesis by (simp add: sint_word_add)
qed

lemma sint_diff_no_wrap:
  assumes "- (2 ^ 63) \<le> sint a - sint b" "sint a - sint b < 2 ^ 63"
  shows "sint (a - b :: int64) = sint a - sint b"
proof -
  have "signed_take_bit 63 (sint a - sint b) = sint a - sint b"
    using assms by (rule signed_take_bit_int_eq_self)
  then show ?thesis by (simp add: sint_word_diff)
qed

lemma sint_minus_no_wrap:
  assumes "0 \<le> sint (a :: int64)"
  shows "sint (- a) = - sint a"
proof -
  have "signed_take_bit 63 (- sint a) = - sint a"
    using assms sint_int64_range [of a] by (intro signed_take_bit_int_eq_self) auto
  then show ?thesis by (simp add: sint_word_minus)
qed

end
