(* ===== verification/Codec.thy ===== *)
theory Codec
  imports Go_Prelude
begin

section \<open>The contract of a self-delimiting encoding\<close>

text \<open>
  Several parts of the program pack a value into bytes in such a way that the reader finds
  the end of the value by itself: the varints, the length-prefixed blocks and the fixed-width
  GenCode metadata. A client of such an encoding (the container, the record format) relies on
  one law only: decoding an encoded value that is followed by anything else gives the value
  back and the number of bytes that were used. This theory states the law as the locale
  \<open>self_delimiting\<close> and proves once what clients need: encodings are injective and prefix
  free, a reader that looks at a bounded number of bytes still finds the value, and a
  concatenation of encodings decodes to the list of values.
\<close>

text \<open>Decode a given number of values one after the other, as a reader of a stream does.\<close>

fun decode_list :: "(bytes \<Rightarrow> ('a \<times> nat) res) \<Rightarrow> nat \<Rightarrow> bytes \<Rightarrow> ('a list \<times> bytes) res" where
  "decode_list dec 0 bs = Inr ([], bs)"
| "decode_list dec (Suc k) bs =
     (case dec bs of
        Inl e \<Rightarrow> Inl e
      | Inr (x, n) \<Rightarrow>
          (case decode_list dec k (drop n bs) of
             Inl e \<Rightarrow> Inl e
           | Inr (xs, rest) \<Rightarrow> Inr (x # xs, rest)))"

locale self_delimiting =
  fixes valid :: "'a \<Rightarrow> bool"
    and enc :: "'a \<Rightarrow> bytes"
    and dec :: "bytes \<Rightarrow> ('a \<times> nat) res"
  assumes dec_enc: "valid x \<Longrightarrow> dec (enc x @ rest) = Inr (x, length (enc x))"
begin

lemma dec_enc_exact: "valid x \<Longrightarrow> dec (enc x) = Inr (x, length (enc x))"
  using dec_enc [of x "[]"] by simp

lemma enc_prefix_free:
  assumes "valid x" "valid y" "enc x @ r = enc y @ s"
  shows "x = y \<and> r = s"
proof -
  have "dec (enc x @ r) = dec (enc y @ s)" using assms(3) by simp
  then have "x = y" using assms(1,2) by (simp add: dec_enc)
  then show ?thesis using assms(3) by simp
qed

lemma enc_inj: "inj_on enc {x. valid x}"
  using enc_prefix_free [where r = "[]" and s = "[]"] by (auto intro: inj_onI)

lemma dec_bounded_read:
  assumes "valid x" "length (enc x) \<le> k"
  shows "dec (take k (enc x @ rest)) = Inr (x, length (enc x))"
proof -
  have "take k (enc x @ rest) = enc x @ take (k - length (enc x)) rest"
    using assms(2) by simp
  then show ?thesis using dec_enc [OF assms(1)] by simp
qed

lemma decode_list_concat:
  "(\<And>x. x \<in> set xs \<Longrightarrow> valid x) \<Longrightarrow>
     decode_list dec (length xs) (concat (map enc xs) @ rest) = Inr (xs, rest)"
proof (induction xs)
  case Nil
  then show ?case by simp
next
  case (Cons x xs)
  then have "dec (enc x @ concat (map enc xs) @ rest) = Inr (x, length (enc x))"
    by (intro dec_enc) simp
  with Cons show ?case by simp
qed

end

end
