(* ===== verification/Varint.thy ===== *)
theory Varint
  imports Codec
begin

unbundle bit_operations_syntax

section \<open>Variable-length integers: formats/varint\<close>

text \<open>
  \<open>formats/varint/varint.go\<close> and \<open>helpers.go\<close>. The packing functions call
  \<open>binary.PutUvarint\<close> on a buffer of fixed size and the unpacking functions
  \<open>binary.Uvarint\<close>; both are loops of Go's standard library and are modelled first, the
  write with its index check, so that "the buffer is large enough" is a theorem here
  and not an assumption.
\<close>

subsection \<open>encoding/binary\<close>

definition MaxVarintLen64 :: nat where
  "MaxVarintLen64 = 10"

function PutUvarint :: "bytes \<Rightarrow> nat \<Rightarrow> uint64 \<Rightarrow> (bytes \<times> nat) res" where
  "PutUvarint buf i x =
     (if length buf \<le> i then Inl index_panic
      else if 0x80 \<le> x then PutUvarint (buf[i := ucast x OR 0x80]) (Suc i) (drop_bit 7 x)
      else Inr (buf[i := ucast x], Suc i))"
  by pat_completeness auto
termination
  by (relation "measure (\<lambda>(buf, i, x). length buf - i)") auto

declare PutUvarint.simps [simp del]

fun Uvarint_loop :: "nat \<Rightarrow> nat \<Rightarrow> uint64 \<Rightarrow> bytes \<Rightarrow> uint64 \<times> int" where
  "Uvarint_loop i s x [] = (0, 0)"
| "Uvarint_loop i s x (b # bs) =
     (if i = MaxVarintLen64 then (0, - (int i + 1))
      else if b < 0x80 then
        (if i = MaxVarintLen64 - 1 \<and> 1 < b then (0, - (int i + 1))
         else (x OR push_bit s (ucast b), int i + 1))
      else Uvarint_loop (Suc i) (s + 7) (x OR push_bit s (ucast (b AND 0x7f))) bs)"

definition Uvarint :: "bytes \<Rightarrow> uint64 \<times> int" where
  "Uvarint buf = Uvarint_loop 0 0 0 buf"

subsection \<open>varint.go\<close>

definition ErrBufTooSmall :: goerr where
  "ErrBufTooSmall = ErrNew ''varint: buf too small''"

definition err_gt_uint8 :: goerr where
  "err_gt_uint8 = ErrNew ''varint: encoded integer greater than 255 (uint8)''"

definition err_gt_uint16 :: goerr where
  "err_gt_uint16 = ErrNew ''varint: encoded integer greater than 65535 (uint16)''"

definition err_gt_uint32 :: goerr where
  "err_gt_uint32 = ErrNew ''varint: encoded integer greater than 4294967295 (uint32)''"

definition err_gt_uint64 :: goerr where
  "err_gt_uint64 = ErrNew ''varint: encoded integer greater than 18446744073709551615 (uint64)''"

definition Pack8 :: "uint8 \<Rightarrow> bytes" where
  "Pack8 n = (if n < 128 then [n] else [n, 0x01])"

definition pack_into :: "nat \<Rightarrow> uint64 \<Rightarrow> bytes res" where
  "pack_into sz n =
     (case PutUvarint (replicate sz 0) 0 n of
        Inl e \<Rightarrow> Inl e
      | Inr (buf, w) \<Rightarrow> Inr (take w buf))"

definition Pack16 :: "uint16 \<Rightarrow> bytes res" where
  "Pack16 n = pack_into 3 (ucast n)"

definition Pack32 :: "uint32 \<Rightarrow> bytes res" where
  "Pack32 n = pack_into 5 (ucast n)"

definition Pack64 :: "uint64 \<Rightarrow> bytes res" where
  "Pack64 n = pack_into 10 n"

definition Unpack8 :: "bytes \<Rightarrow> (uint8 \<times> nat) res" where
  "Unpack8 blob =
     (if length blob < 1 then Inl ErrBufTooSmall
      else if blob ! 0 < 128 then Inr (blob ! 0, 1)
      else if length blob < 2 then Inl ErrBufTooSmall
      else if blob ! 1 \<noteq> 0x01 then Inl err_gt_uint8
      else Inr (blob ! 0, 1))"

definition Unpack16 :: "bytes \<Rightarrow> (uint16 \<times> nat) res" where
  "Unpack16 blob =
     (let (n, r) = Uvarint blob in
      if r = 0 then Inl ErrBufTooSmall
      else if r < 0 then Inl err_gt_uint64
      else if 65535 < n then Inl err_gt_uint16
      else Inr (ucast n, nat r))"

definition Unpack32 :: "bytes \<Rightarrow> (uint32 \<times> nat) res" where
  "Unpack32 blob =
     (let (n, r) = Uvarint blob in
      if r = 0 then Inl ErrBufTooSmall
      else if r < 0 then Inl err_gt_uint64
      else if 4294967295 < n then Inl err_gt_uint32
      else Inr (ucast n, nat r))"

definition Unpack64 :: "bytes \<Rightarrow> (uint64 \<times> nat) res" where
  "Unpack64 blob =
     (let (n, r) = Uvarint blob in
      if r = 0 then Inl ErrBufTooSmall
      else if r < 0 then Inl err_gt_uint64
      else Inr (n, nat r))"

subsection \<open>helpers.go\<close>

definition err_block_length :: goerr where
  "err_block_length = ErrNew ''varint: not enough data for given block length''"

definition PrependLength :: "bytes \<Rightarrow> bytes res" where
  "PrependLength data =
     (case Pack64 (of_nat (length data)) of
        Inl e \<Rightarrow> Inl e
      | Inr packed \<Rightarrow> Inr (packed @ data))"

text \<open>
  \<open>length\<close> and \<open>totalLength\<close> are \<open>int\<close>s of 64 bits: the conversion \<open>int(l)\<close> reads the
  word as signed and the addition wraps. Slicing \<open>data[n:totalLength]\<close> panics when
  \<open>totalLength\<close> is smaller than \<open>n\<close>, which the check above it does not exclude.
\<close>

definition GetNextBlock :: "bytes \<Rightarrow> (bytes \<times> nat) res" where
  "GetNextBlock data =
     (case Unpack64 data of
        Inl e \<Rightarrow> Inl e
      | Inr (l, n) \<Rightarrow>
          (let totalLength = sint (l + of_nat n) in
           if int (length data) < totalLength then Inl err_block_length
           else if totalLength < int n then Inl slice_panic
           else Inr (drop n (take (nat totalLength) data), nat totalLength)))"

definition EncodedSize :: "uint64 \<Rightarrow> nat" where
  "EncodedSize n =
     (if n < 2 ^ 7 then 1
      else if n < 2 ^ 14 then 2
      else if n < 2 ^ 21 then 3
      else if n < 2 ^ 28 then 4
      else if n < 2 ^ 35 then 5
      else if n < 2 ^ 42 then 6
      else if n < 2 ^ 49 then 7
      else if n < 2 ^ 56 then 8
      else if n < 2 ^ 63 then 9
      else 10)"

subsection \<open>The reference encoding\<close>

text \<open>
  The base-128 digits of a number, least significant first, each but the last with its top
  bit set: what the write loop leaves in the buffer.
\<close>

function uvarint_bytes :: "uint64 \<Rightarrow> bytes" where
  "uvarint_bytes x =
     (if 0x80 \<le> x then (ucast x OR 0x80) # uvarint_bytes (drop_bit 7 x) else [ucast x])"
  by pat_completeness auto
termination
proof (relation "measure unat")
  fix x :: uint64
  assume "0x80 \<le> x"
  then have "128 \<le> unat x" by (simp add: word_le_nat_alt)
  then have "unat x div 2 ^ 7 < unat x" by simp
  then show "(drop_bit 7 x, x) \<in> measure unat" by (simp add: drop_bit_eq_div unat_div_distrib)
qed simp

declare uvarint_bytes.simps [simp del]

lemma uvarint_bytes_small: "x < 0x80 \<Longrightarrow> uvarint_bytes x = [ucast x]"
  by (subst uvarint_bytes.simps) (simp add: not_le [symmetric])

lemma uvarint_bytes_large:
  "0x80 \<le> x \<Longrightarrow> uvarint_bytes x = (ucast x OR 0x80) # uvarint_bytes (drop_bit 7 x)"
  by (subst uvarint_bytes.simps) simp

lemma uvarint_bytes_nonempty [simp]: "uvarint_bytes x \<noteq> []"
  by (subst uvarint_bytes.simps) simp

subsection \<open>The write loop\<close>

lemma PutUvarint_bytes:
  "i + length (uvarint_bytes x) \<le> length buf \<Longrightarrow>
     PutUvarint buf i x =
       Inr (take i buf @ uvarint_bytes x @ drop (i + length (uvarint_bytes x)) buf,
            i + length (uvarint_bytes x))"
proof (induction buf i x rule: PutUvarint.induct)
  case (1 buf i x)
  have i: "i < length buf"
    using "1.prems" uvarint_bytes_nonempty [of x] by (cases "uvarint_bytes x") auto
  show ?case
  proof (cases "0x80 \<le> x")
    case True
    let ?buf = "buf[i := ucast x OR 0x80]"
    have "PutUvarint ?buf (Suc i) (drop_bit 7 x) =
        Inr (take (Suc i) ?buf @ uvarint_bytes (drop_bit 7 x) @
             drop (Suc i + length (uvarint_bytes (drop_bit 7 x))) ?buf,
             Suc i + length (uvarint_bytes (drop_bit 7 x)))"
      using "1.IH" i True "1.prems" by (simp add: uvarint_bytes_large)
    moreover have "take (Suc i) ?buf = take i buf @ [ucast x OR 0x80]"
      using i by (simp add: take_Suc_conv_app_nth)
    ultimately show ?thesis
      using i True by (subst PutUvarint.simps) (simp add: uvarint_bytes_large)
  next
    case False
    then have "x < 0x80" by simp
    then show ?thesis
      using i by (subst PutUvarint.simps) (simp add: uvarint_bytes_small upd_conv_take_nth_drop not_le [symmetric])
  qed
qed

lemma unat_drop_bit_7: "unat (drop_bit 7 (x :: uint64)) = unat x div 128"
  by (simp add: drop_bit_eq_div unat_div_distrib)

text \<open>The number of digits: \<open>k\<close> digits of seven bits hold exactly the numbers below \<open>2 ^ (7 * k)\<close>.\<close>

lemma length_uvarint_bytes_le:
  "0 < k \<Longrightarrow> length (uvarint_bytes x) \<le> k \<longleftrightarrow> unat x < 2 ^ (7 * k)"
proof (induction x arbitrary: k rule: uvarint_bytes.induct)
  case (1 x)
  show ?case
  proof (cases "0x80 \<le> x")
    case True
    then have x: "128 \<le> unat x" by (simp add: word_le_nat_alt)
    obtain j where k: "k = Suc j" using "1.prems" by (cases k) auto
    show ?thesis
    proof (cases "j = 0")
      case True
      with k x \<open>0x80 \<le> x\<close> show ?thesis by (simp add: uvarint_bytes_large)
    next
      case False
      then have "length (uvarint_bytes (drop_bit 7 x)) \<le> j \<longleftrightarrow> unat x div 128 < 2 ^ (7 * j)"
        using "1.IH" [OF \<open>0x80 \<le> x\<close>, of j] by (simp add: unat_drop_bit_7)
      also have "\<dots> \<longleftrightarrow> unat x < 2 ^ (7 * j) * 128"
        by (simp add: div_less_iff_less_mult)
      finally show ?thesis
        using \<open>0x80 \<le> x\<close> k by (simp add: uvarint_bytes_large power_add mult.commute)
    qed
  next
    case False
    then have "x < 0x80" by simp
    then have "unat x < 2 ^ 7" by (simp add: word_less_nat_alt)
    also have "(2::nat) ^ 7 \<le> 2 ^ (7 * k)" using "1.prems" by (intro power_increasing) auto
    finally show ?thesis
      using "1.prems" \<open>x < 0x80\<close> by (simp add: uvarint_bytes_small)
  qed
qed

lemma length_uvarint_bytes_bound: "length (uvarint_bytes x) \<le> 10"
proof -
  have "unat x < 2 ^ 64" using unsigned_less [of x] by simp
  then have "unat x < 2 ^ (7 * 10)" by (rule less_le_trans) simp
  then show ?thesis by (subst length_uvarint_bytes_le) auto
qed

subsection \<open>The read loop\<close>

lemma bit_0x80_int: "bit (0x80 :: int) k \<longleftrightarrow> k = 7"
proof -
  have "(0x80 :: int) = 2 ^ 7" by simp
  then show ?thesis by (simp only: bit_exp_iff) auto
qed

lemma bit_0x7f_int: "bit (0x7f :: int) k \<longleftrightarrow> k < 7"
proof -
  have "(0x7f :: int) = mask 7" by (simp add: mask_numeral)
  then show ?thesis by (simp only: bit_mask_iff) auto
qed

lemmas digit_bits = bit_simps bit_0x80_int bit_0x7f_int

lemma low7: "(ucast ((ucast n OR 0x80 :: byte) AND 0x7f) :: uint64) = n AND 0x7f"
  by (rule bit_word_eqI) (auto simp: digit_bits)

lemma digit_split: "push_bit s (n AND 0x7f) OR push_bit (s + 7) (drop_bit 7 n) = push_bit s (n :: uint64)"
proof (rule bit_word_eqI)
  fix k :: nat
  assume "k < LENGTH(64)"
  moreover have "s + 7 \<le> k \<Longrightarrow> 7 + (k - (s + 7)) = k - s" by simp
  ultimately show "bit (push_bit s (n AND 0x7f) OR push_bit (s + 7) (drop_bit 7 n)) k = bit (push_bit s n) k"
    by (cases "s + 7 \<le> k") (auto simp: digit_bits)
qed

lemma small_digit: "n < 0x80 \<Longrightarrow> unat (ucast (n::uint64) :: byte) = unat n"
  by (simp add: word_less_nat_alt unsigned_ucast_eq take_bit_nat_eq_self)

lemma ucast_small: "n < 0x80 \<Longrightarrow> ucast (ucast n :: byte) = (n::uint64)"
  by (simp add: word_unat_eq_iff word_less_nat_alt unsigned_ucast_eq unsigned_take_bit_eq take_bit_nat_eq_self)

lemma ucast_smallb: "n < 0x80 \<Longrightarrow> (ucast (n::uint64) :: byte) < 0x80"
  by (simp add: word_less_nat_alt small_digit)

lemma byte_or_0x80: "\<not> (b OR 0x80 :: byte) < 0x80"
proof -
  have "(b OR 0x80) AND 0x80 = (0x80 :: byte)" by (rule bit_word_eqI) (auto simp: digit_bits)
  then have "0x80 \<le> b OR 0x80" using word_and_le2 [of "b OR 0x80" "0x80"] by simp
  then show ?thesis by simp
qed

lemma Uvarint_loop_bytes:
  "i \<le> 9 \<Longrightarrow> s = 7 * i \<Longrightarrow> unat n < 2 ^ (64 - 7 * i) \<Longrightarrow>
     Uvarint_loop i s x (uvarint_bytes n @ rest) =
       (x OR push_bit s n, int (i + length (uvarint_bytes n)))"
proof (induction n arbitrary: i s x rule: uvarint_bytes.induct)
  case (1 n)
  show ?case
  proof (cases "0x80 \<le> n")
    case True
    then have n: "128 \<le> unat n" by (simp add: word_le_nat_alt)
    have i: "i \<le> 8"
    proof (rule ccontr)
      assume "\<not> i \<le> 8"
      with "1.prems"(1) have "i = 9" by simp
      with "1.prems"(3) n show False by simp
    qed
    then have exp: "64 - 7 * i = 7 + (64 - 7 * Suc i)" by simp
    have "unat n div 128 < 2 ^ (64 - 7 * Suc i)"
      using "1.prems"(3) by (simp only: exp power_add) (simp add: div_less_iff_less_mult mult.commute)
    then have "Uvarint_loop (Suc i) (s + 7) (x OR push_bit s (n AND 0x7f))
          (uvarint_bytes (drop_bit 7 n) @ rest) =
        ((x OR push_bit s (n AND 0x7f)) OR push_bit (s + 7) (drop_bit 7 n),
          int (Suc i + length (uvarint_bytes (drop_bit 7 n))))"
      using i "1.prems"(2) by (intro "1.IH" [OF True]) (simp_all add: unat_drop_bit_7)
    then show ?thesis
      using i True
      by (simp add: uvarint_bytes_large byte_or_0x80 low7 MaxVarintLen64_def or.assoc digit_split
          del: push_bit_and)
  next
    case False
    then have n: "n < 0x80" by simp
    have "\<not> (i = 9 \<and> 1 < (ucast n :: byte))"
      using "1.prems"(3) n by (auto simp: word_less_nat_alt small_digit)
    then show ?thesis
      using n "1.prems"(1)
      by (simp add: uvarint_bytes_small ucast_smallb ucast_small MaxVarintLen64_def)
  qed
qed

lemma Uvarint_bytes [codec_simps]:
  "Uvarint (uvarint_bytes n @ rest) = (n, int (length (uvarint_bytes n)))"
  using Uvarint_loop_bytes [of 0 0 n 0 rest] unsigned_less [of n] by (simp add: Uvarint_def)

text \<open>What the read loop can answer: nothing read, an overflow, or at most ten bytes read.\<close>

lemma Uvarint_loop_range:
  "i \<le> 10 \<Longrightarrow> Uvarint_loop i s x bs = (n, r) \<Longrightarrow>
     r \<le> 0 \<or> (int i < r \<and> r \<le> int (i + length bs) \<and> r \<le> 10)"
proof (induction i s x bs rule: Uvarint_loop.induct)
  case (1 i s x)
  then show ?case by simp
next
  case (2 i s x b bs)
  show ?case
  proof (cases "i = MaxVarintLen64 \<or> b < 0x80")
    case True
    with "2.prems" show ?thesis by (auto simp: MaxVarintLen64_def split: if_splits)
  next
    case False
    with "2.prems" have "Suc i \<le> 10" by (simp add: MaxVarintLen64_def)
    with False "2.IH" "2.prems" show ?thesis by fastforce
  qed
qed

lemma Uvarint_range:
  "Uvarint bs = (n, r) \<Longrightarrow> 0 < r \<Longrightarrow> 1 \<le> r \<and> r \<le> int (length bs) \<and> r \<le> 10"
  using Uvarint_loop_range [of 0 0 0 bs n r] by (simp add: Uvarint_def)

subsection \<open>The packing functions\<close>

lemma pack_into_bytes:
  "length (uvarint_bytes n) \<le> sz \<Longrightarrow> pack_into sz n = Inr (uvarint_bytes n)"
  by (simp add: pack_into_def PutUvarint_bytes)

lemma Pack64_bytes [codec_simps]: "Pack64 n = Inr (uvarint_bytes n)"
  by (simp add: Pack64_def pack_into_bytes length_uvarint_bytes_bound)

lemma unat_ucast_up32: "unat (ucast (n :: uint32) :: uint64) < 2 ^ 32"
proof -
  have "unat n < 2 ^ LENGTH(32)" by (rule unsigned_less)
  then show ?thesis by (simp add: unsigned_ucast_eq take_bit_nat_eq_self)
qed

lemma unat_ucast_up16: "unat (ucast (n :: uint16) :: uint64) < 2 ^ 16"
proof -
  have "unat n < 2 ^ LENGTH(16)" by (rule unsigned_less)
  then show ?thesis by (simp add: unsigned_ucast_eq take_bit_nat_eq_self)
qed

lemma length_uvarint_bytes_ucast32: "length (uvarint_bytes (ucast (n :: uint32))) \<le> 5"
proof -
  have "unat (ucast n :: uint64) < 2 ^ 32" by (rule unat_ucast_up32)
  then have "unat (ucast n :: uint64) < 2 ^ (7 * 5)" by (rule less_le_trans) simp
  then show ?thesis by (subst length_uvarint_bytes_le) auto
qed

lemma length_uvarint_bytes_ucast16: "length (uvarint_bytes (ucast (n :: uint16))) \<le> 3"
proof -
  have "unat (ucast n :: uint64) < 2 ^ 16" by (rule unat_ucast_up16)
  then have "unat (ucast n :: uint64) < 2 ^ (7 * 3)" by (rule less_le_trans) simp
  then show ?thesis by (subst length_uvarint_bytes_le) auto
qed

lemma Pack32_bytes [codec_simps]: "Pack32 n = Inr (uvarint_bytes (ucast n))"
  by (simp add: Pack32_def pack_into_bytes length_uvarint_bytes_ucast32)

lemma Pack16_bytes [codec_simps]: "Pack16 n = Inr (uvarint_bytes (ucast n))"
  by (simp add: Pack16_def pack_into_bytes length_uvarint_bytes_ucast16)

lemma PrependLength_bytes [codec_simps]:
  "PrependLength data = Inr (uvarint_bytes (of_nat (length data)) @ data)"
  by (simp add: PrependLength_def Pack64_bytes)

subsection \<open>The encodings satisfy the contract\<close>

lemma Unpack64_bytes [codec_simps]:
  "Unpack64 (uvarint_bytes n @ rest) = Inr (n, length (uvarint_bytes n))"
  by (simp add: Unpack64_def Uvarint_bytes)

lemma ucast_up_down32: "ucast (ucast n :: uint64) = (n :: uint32)"
  by (rule bit_word_eqI) (auto simp: bit_simps)

lemma ucast_up_down16: "ucast (ucast n :: uint64) = (n :: uint16)"
  by (rule bit_word_eqI) (auto simp: bit_simps)

lemma Unpack32_bytes [codec_simps]:
  "Unpack32 (uvarint_bytes (ucast n) @ rest) = Inr (n, length (uvarint_bytes (ucast n)))"
proof -
  have "unat (ucast n :: uint64) \<le> 4294967295" using unat_ucast_up32 [of n] by simp
  then have "\<not> 4294967295 < (ucast n :: uint64)" by (simp add: word_less_nat_alt)
  then show ?thesis by (simp add: Unpack32_def Uvarint_bytes ucast_up_down32)
qed

lemma Unpack16_bytes [codec_simps]:
  "Unpack16 (uvarint_bytes (ucast n) @ rest) = Inr (n, length (uvarint_bytes (ucast n)))"
proof -
  have "unat (ucast n :: uint64) \<le> 65535" using unat_ucast_up16 [of n] by simp
  then have "\<not> 65535 < (ucast n :: uint64)" by (simp add: word_less_nat_alt)
  then show ?thesis by (simp add: Unpack16_def Uvarint_bytes ucast_up_down16)
qed

text \<open>A block whose length, prefix included, fits the 64-bit \<open>int\<close> of the reader.\<close>

definition block_fits :: "bytes \<Rightarrow> bool" where
  "block_fits data \<longleftrightarrow> length data + 10 < 2 ^ 63"

lemma GetNextBlock_bytes:
  assumes "block_fits data"
  shows "GetNextBlock (uvarint_bytes (of_nat (length data)) @ data @ rest) =
    Inr (data, length (uvarint_bytes (of_nat (length data))) + length data)"
proof -
  let ?l = "of_nat (length data) :: uint64" and ?n = "length (uvarint_bytes (of_nat (length data)))"
  have n: "?n \<le> 10" by (rule length_uvarint_bytes_bound)
  have fits: "length data + ?n < 2 ^ 63" using assms n by (simp add: block_fits_def)
  have "unat (?l + of_nat ?n) = length data + ?n"
    using fits by (simp add: unat_of_nat take_bit_nat_eq_self flip: of_nat_add)
  then have "sint (?l + of_nat ?n) = int (length data + ?n)"
    using fits sint_of_small [of "?l + of_nat ?n"] by simp
  then show ?thesis by (simp add: GetNextBlock_def Unpack64_bytes nat_add_distrib)
qed

interpretation varint64: self_delimiting "\<lambda>_. True" "\<lambda>n. projr (Pack64 n)" Unpack64
  by unfold_locales (simp add: codec_simps)

interpretation varint32: self_delimiting "\<lambda>_. True" "\<lambda>n. projr (Pack32 n)" Unpack32
  by unfold_locales (simp add: codec_simps)

interpretation varint16: self_delimiting "\<lambda>_. True" "\<lambda>n. projr (Pack16 n)" Unpack16
  by unfold_locales (simp add: codec_simps)

interpretation block: self_delimiting block_fits "\<lambda>data. projr (PrependLength data)" GetNextBlock
  by unfold_locales (simp add: PrependLength_bytes GetNextBlock_bytes)

subsection \<open>Properties\<close>

lemma less_exp_iff_length:
  "0 < k \<Longrightarrow> k \<le> 9 \<Longrightarrow> n < (2 :: uint64) ^ (7 * k) \<longleftrightarrow> length (uvarint_bytes n) \<le> k"
proof -
  assume k: "0 < k" "k \<le> 9"
  have "(2 :: nat) ^ (7 * k) < 2 ^ 64" using k by (intro power_strict_increasing) auto
  then have "unat (of_nat (2 ^ (7 * k)) :: uint64) = 2 ^ (7 * k)"
    by (simp only: unat_of_nat) (simp add: take_bit_nat_eq_self)
  then have "unat ((2 :: uint64) ^ (7 * k)) = 2 ^ (7 * k)" by simp
  then show ?thesis using k by (simp add: word_less_nat_alt length_uvarint_bytes_le)
qed

lemma EncodedSize_length: "EncodedSize n = length (uvarint_bytes n)"
proof -
  have pos: "0 < length (uvarint_bytes n)" by simp
  note step = less_exp_iff_length [of 1 n] less_exp_iff_length [of 2 n] less_exp_iff_length [of 3 n]
    less_exp_iff_length [of 4 n] less_exp_iff_length [of 5 n] less_exp_iff_length [of 6 n]
    less_exp_iff_length [of 7 n] less_exp_iff_length [of 8 n] less_exp_iff_length [of 9 n]
  show ?thesis
    unfolding EncodedSize_def using step pos length_uvarint_bytes_bound [of n]
    by (simp split: if_split del: length_greater_0_conv)
qed

text \<open>
  C37. For every 64-bit number, \<open>Pack64\<close> stays within its buffer of ten bytes (it never
  panics), the length of what it returns is what \<open>EncodedSize\<close> announces, and
  \<open>Unpack64\<close> reads the number back, with the number of bytes used, whatever follows it;
  likewise for the 32-bit and the 16-bit functions with their smaller buffers.
\<close>

theorem varint_roundtrip:
  "(\<exists>bs. Pack64 n = Inr bs \<and> length bs = EncodedSize n \<and> Unpack64 (bs @ rest) = Inr (n, length bs)) \<and>
   (\<exists>bs. Pack32 m = Inr bs \<and> Unpack32 (bs @ rest) = Inr (m, length bs)) \<and>
   (\<exists>bs. Pack16 k = Inr bs \<and> Unpack16 (bs @ rest) = Inr (k, length bs))"
  by (simp add: codec_simps EncodedSize_length)

text \<open>
  \<open>Unpack8\<close> reads back the number that \<open>Pack8\<close> wrote, but it always reports one
  used byte, although \<open>Pack8\<close> writes two bytes for the numbers from 128 on.
\<close>

theorem Unpack8_reports_one_byte:
  "Unpack8 (Pack8 n @ rest) = Inr (n, 1) \<and> length (Pack8 n) = (if n < 128 then 1 else 2)"
  by (simp add: Unpack8_def Pack8_def)

lemma Unpack64_range:
  assumes "Unpack64 bs = Inr (n, k)"
  shows "1 \<le> k \<and> k \<le> length bs \<and> k \<le> 10"
proof -
  obtain m r where u: "Uvarint bs = (m, r)" by force
  with assms have "0 < r" "k = nat r" by (auto simp: Unpack64_def split: if_splits)
  with Uvarint_range [OF u] show ?thesis by auto
qed

lemma sint_of_large: "2 ^ 63 \<le> unat (x :: uint64) \<Longrightarrow> sint x = int (unat x) - 2 ^ 64"
proof -
  assume "2 ^ 63 \<le> unat x"
  then have lo: "2 ^ 63 \<le> uint x" by (simp add: word_le_nat_alt flip: uint_nat zle_int)
  have hi: "uint x < 2 ^ 64" using uint_lt2p [of x] by simp
  have "(uint x + 2 ^ 63) mod 2 ^ 64 = uint x + 2 ^ 63 - 2 ^ 64"
    using lo hi by (subst mod_pos_geq) (simp_all add: mod_pos_pos_trivial)
  then show ?thesis by (simp add: sint_uint signed_take_bit_eq_take_bit_shift take_bit_eq_mod)
qed

lemma unat_add_of_nat:
  "unat ((l :: uint64) + of_nat n) = (unat l + n) mod 2 ^ 64"
  by (simp add: unat_word_ariths unat_of_nat take_bit_eq_mod mod_add_right_eq)

lemma block_total_small:
  "unat (l :: uint64) + n < 2 ^ 63 \<Longrightarrow> sint (l + of_nat n) = int (unat l + n)"
  using sint_of_small [of "l + of_nat n"] by (simp add: unat_add_of_nat)

lemma block_total_large:
  assumes "2 ^ 63 \<le> unat (l :: uint64) + n" "1 \<le> n" "n \<le> 10"
  shows "sint (l + of_nat n) < int n"
proof (cases "unat l + n < 2 ^ 64")
  case True
  then have u: "unat (l + of_nat n) = unat l + n" by (simp add: unat_add_of_nat)
  have "sint (l + of_nat n) = int (unat l + n) - 2 ^ 64"
    using assms(1) u sint_of_large [of "l + of_nat n"] by simp
  moreover have "int (unat l + n) < 2 ^ 64" using True by (metis of_nat_less_iff of_nat_numeral of_nat_power)
  ultimately show ?thesis by linarith
next
  case False
  have l: "unat l < 2 ^ 64" using unsigned_less [of l, where 'a = nat] by simp
  have "unat (l + of_nat n) = unat l + n - 2 ^ 64"
    using False l assms(3) by (simp add: unat_add_of_nat mod_if)
  then have "unat (l + of_nat n) < n" using l False by simp
  moreover from this have "sint (l + of_nat n) = int (unat (l + of_nat n))"
    using assms(3) by (intro sint_of_small) simp
  ultimately show ?thesis by (simp only: of_nat_less_iff)
qed

text \<open>
  \<open>GetNextBlock\<close> on every input: an error of the length prefix is passed on; a prefix
  whose value plus its own size reaches \<open>2 ^ 63\<close> makes the slicing panic; a longer block than
  the data gives the error; otherwise exactly the announced bytes after the prefix are
  returned, with the position behind them.
\<close>

theorem GetNextBlock_cases:
  "GetNextBlock data =
     (case Unpack64 data of
        Inl e \<Rightarrow> Inl e
      | Inr (l, n) \<Rightarrow>
          if 2 ^ 63 \<le> unat l + n then Inl slice_panic
          else if length data < unat l + n then Inl err_block_length
          else Inr (take (unat l) (drop n data), unat l + n))"
proof (cases "Unpack64 data")
  case (Inl e)
  then show ?thesis by (simp add: GetNextBlock_def)
next
  case (Inr p)
  obtain l n where p: "p = (l, n)" by force
  have n: "1 \<le> n" "n \<le> length data" "n \<le> 10" using Unpack64_range Inr p by blast+
  show ?thesis
  proof (cases "2 ^ 63 \<le> unat l + n")
    case True
    then have "sint (l + of_nat n) < int n" using block_total_large n by blast
    with True n show ?thesis by (simp add: GetNextBlock_def Inr p)
  next
    case False
    obtain u where u: "unat l = u" by blast
    have "sint (l + of_nat n) = int (u + n)" using False u block_total_small [of l n] by simp
    with False show ?thesis
      by (simp add: GetNextBlock_def Inr p u drop_take nat_add_distrib Let_def)
  qed
qed

text \<open>
  A block written with \<open>PrependLength\<close> is read back by \<open>GetNextBlock\<close>, whatever
  follows it, and so is any sequence of blocks, for data whose length fits the reader's
  64-bit \<open>int\<close>.
\<close>

theorem block_roundtrip:
  assumes "\<And>d. d \<in> set ds \<Longrightarrow> block_fits d"
  shows "decode_list GetNextBlock (length ds) (concat (map (\<lambda>d. projr (PrependLength d)) ds) @ rest)
    = Inr (ds, rest)"
  using assms by (rule block.decode_list_concat)

theorem block_roundtrip_witness:
  "decode_list GetNextBlock 2 (concat (map (\<lambda>d. projr (PrependLength d)) [[1, 2], [3]]) @ [7])
    = Inr ([[1, 2], [3]], [7])"
proof -
  have "block_fits d" if "d \<in> set [[1, 2], [3]]" for d
    using that by (auto simp: block_fits_def)
  from block_roundtrip [where ds = "[[1, 2], [3]]" and rest = "[7]", OF this]
  show ?thesis by (simp add: numeral_2_eq_2)
qed

end
