(* ===== verification/Container.thy ===== *)
theory Container
  imports Varint
begin

section \<open>The byte container: container\<close>

text \<open>
  \<open>container/container.go\<close> and \<open>serialization.go\<close>. A container is a list of byte
  slices, its compartments, of which those before the offset have been consumed. The Go
  methods that change the receiver return the changed container here. A slice of a
  compartment is never written to, so slices are values; a \<open>nil\<close> slice is the empty list.
\<close>

record container =
  compartments :: "bytes list"
  coffset :: nat
  cerr :: "goerr option"

definition New :: "bytes list \<Rightarrow> container" where
  "New data = \<lparr>compartments = data, coffset = 0, cerr = None\<rparr>"

definition NewContainer :: "bytes list \<Rightarrow> container" where
  "NewContainer data = \<lparr>compartments = data, coffset = 0, cerr = None\<rparr>"

definition renewCompartments :: "container \<Rightarrow> container" where
  "renewCompartments c =
     (let baseLength = length (compartments c) - coffset c + 5;
          newCompartments = replicate baseLength [] in
      c\<lparr>compartments := take 5 newCompartments @
           gocopy (drop 5 newCompartments) (drop (coffset c) (compartments c)),
        coffset := 4\<rparr>)"

definition clean :: "container \<Rightarrow> container" where
  "clean c = (if 100 < coffset c then renewCompartments c else c)"

definition carbonCopy :: "container \<Rightarrow> container" where
  "carbonCopy c =
     \<lparr>compartments = gocopy (replicate (length (compartments c)) []) (compartments c),
      coffset = coffset c, cerr = cerr c\<rparr>"

definition checkOffset :: "container \<Rightarrow> container" where
  "checkOffset c =
     (if length (compartments c) \<le> coffset c
      then c\<lparr>coffset := length (compartments c) div 2\<rparr> else c)"

definition Prepend :: "container \<Rightarrow> bytes \<Rightarrow> container" where
  "Prepend c data =
     (let c1 = (if coffset c < 1 then renewCompartments c else c);
          off = coffset c1 - 1 in
      c1\<lparr>coffset := off, compartments := (compartments c1)[off := data]\<rparr>)"

definition Append :: "container \<Rightarrow> bytes \<Rightarrow> container" where
  "Append c data = c\<lparr>compartments := compartments c @ [data]\<rparr>"

definition PrependNumber :: "container \<Rightarrow> uint64 \<Rightarrow> container res" where
  "PrependNumber c n = map_sum id (Prepend c) (Pack64 n)"

definition AppendNumber :: "container \<Rightarrow> uint64 \<Rightarrow> container res" where
  "AppendNumber c n = map_sum id (Append c) (Pack64 n)"

definition PrependInt :: "container \<Rightarrow> int \<Rightarrow> container res" where
  "PrependInt c n = map_sum id (Prepend c) (Pack64 (uint64_of_int n))"

definition AppendInt :: "container \<Rightarrow> int \<Rightarrow> container res" where
  "AppendInt c n = map_sum id (Append c) (Pack64 (uint64_of_int n))"

definition AppendAsBlock :: "container \<Rightarrow> bytes \<Rightarrow> container res" where
  "AppendAsBlock c data =
     (case AppendNumber c (of_nat (length data)) of
        Inl e \<Rightarrow> Inl e
      | Inr c1 \<Rightarrow> Inr (Append c1 data))"

definition PrependAsBlock :: "container \<Rightarrow> bytes \<Rightarrow> container res" where
  "PrependAsBlock c data = PrependNumber (Prepend c data) (of_nat (length data))"

fun HoldsData_loop :: "bytes list \<Rightarrow> bool" where
  "HoldsData_loop [] = False"
| "HoldsData_loop (b # bs) = (if 0 < length b then True else HoldsData_loop bs)"

definition HoldsData :: "container \<Rightarrow> bool" where
  "HoldsData c = HoldsData_loop (drop (coffset c) (compartments c))"

fun Length_loop :: "nat \<Rightarrow> bytes list \<Rightarrow> nat" where
  "Length_loop n [] = n"
| "Length_loop n (b # bs) = Length_loop (n + length b) bs"

definition Length :: "container \<Rightarrow> nat" where
  "Length c = Length_loop 0 (drop (coffset c) (compartments c))"

definition AppendContainer :: "container \<Rightarrow> container \<Rightarrow> container" where
  "AppendContainer c data = c\<lparr>compartments := compartments c @ compartments data\<rparr>"

definition AppendContainerAsBlock :: "container \<Rightarrow> container \<Rightarrow> container res" where
  "AppendContainerAsBlock c data =
     (case AppendNumber c (of_nat (Length data)) of
        Inl e \<Rightarrow> Inl e
      | Inr c1 \<Rightarrow> Inr (c1\<lparr>compartments := compartments c1 @ compartments data\<rparr>))"

definition Replace :: "container \<Rightarrow> bytes \<Rightarrow> container" where
  "Replace c data = c\<lparr>compartments := [data]\<rparr>"

text \<open>
  The copying loops write into a fresh or a given slice. \<open>written\<close> is the part in front of the
  current \<open>copyBuf\<close>/\<open>copySlice\<close>/\<open>slice\<close>, the second argument the rest of the slice.
  Re-slicing \<open>copyBuf[len(b):]\<close> panics if \<open>b\<close> is longer; \<open>CompileData\<close> sizes its buffer so
  that this cannot happen, which \<open>CompileData_total\<close> below shows.
\<close>

fun CompileData_loop :: "bytes \<Rightarrow> bytes \<Rightarrow> bytes list \<Rightarrow> bytes res" where
  "CompileData_loop written copyBuf [] = Inr (written @ copyBuf)"
| "CompileData_loop written copyBuf (b # bs) =
     (let copied = gocopy copyBuf b in
      if length copied < length b then Inl slice_panic
      else CompileData_loop (written @ take (length b) copied) (drop (length b) copied) bs)"

definition CompileData :: "container \<Rightarrow> (bytes \<times> container) res" where
  "CompileData c =
     (if length (compartments c) \<noteq> 1 then
        (case CompileData_loop [] (replicate (Length c) 0) (drop (coffset c) (compartments c)) of
           Inl e \<Rightarrow> Inl e
         | Inr newBuf \<Rightarrow> Inr (newBuf, c\<lparr>compartments := [newBuf], coffset := 0\<rparr>))
      else Inr (compartments c ! 0, c))"

fun Peek_loop :: "bytes \<Rightarrow> bytes \<Rightarrow> nat \<Rightarrow> bytes list \<Rightarrow> bytes" where
  "Peek_loop written copySlice n [] = take n (written @ copySlice)"
| "Peek_loop written copySlice n (b # bs) =
     (let copied = gocopy copySlice b in
      if length copied \<le> length b then take (n + length copied) (written @ copied)
      else Peek_loop (written @ take (length b) copied) (drop (length b) copied) (n + length b) bs)"

definition Peek :: "container \<Rightarrow> int \<Rightarrow> bytes res" where
  "Peek c n =
     (if n \<le> 0 then Inr []
      else if length (compartments c) \<le> coffset c then Inl index_panic
      else if n \<le> int (length (compartments c ! coffset c))
        then Inr (take (nat n) (compartments c ! coffset c))
      else Inr (Peek_loop [] (replicate (nat n) 0) 0 (drop (coffset c) (compartments c))))"

fun PeekContainer_loop :: "bytes list \<Rightarrow> int \<Rightarrow> bytes list \<Rightarrow> bytes list \<times> int" where
  "PeekContainer_loop acc n [] = (acc, n)"
| "PeekContainer_loop acc n (b # bs) =
     (if int (length b) \<le> n then PeekContainer_loop (acc @ [b]) (n - int (length b)) bs
      else PeekContainer_loop (acc @ [take (nat n) b]) 0 bs)"

definition PeekContainer :: "container \<Rightarrow> int \<Rightarrow> container option" where
  "PeekContainer c n =
     (if n < 0 then None
      else if n = 0 then Some (New [])
      else
        (let (comps, rest) = PeekContainer_loop [] n (drop (coffset c) (compartments c)) in
         if 0 < rest then None else Some (New comps)))"

function skip_loop :: "nat \<Rightarrow> container \<Rightarrow> int \<Rightarrow> container" where
  "skip_loop i c n =
     (if i < length (compartments c) then
        (let b = compartments c ! i in
         if int (length b) \<le> n then
           (let n1 = n - int (length b);
                c1 = c\<lparr>coffset := i + 1, compartments := (compartments c)[i := []]\<rparr> in
            if n1 = 0 then checkOffset c1 else skip_loop (i + 1) c1 n1)
         else checkOffset (c\<lparr>compartments := (compartments c)[i := drop (nat n) b]\<rparr>))
      else checkOffset c)"
  by pat_completeness auto
termination
  by (relation "measure (\<lambda>(i, c, n). length (compartments c) - i)") auto

declare skip_loop.simps [simp del]

definition skip :: "container \<Rightarrow> int \<Rightarrow> container" where
  "skip c n = skip_loop (coffset c) c n"

definition err_not_enough :: goerr where
  "err_not_enough = ErrNew ''container: not enough data to return''"

text \<open>
  A method that returns \<open>(T, error)\<close> and changes the receiver gives the result and the
  container afterwards, on its error branches too.
\<close>

definition Get :: "container \<Rightarrow> int \<Rightarrow> bytes res \<times> container" where
  "Get c n =
     (case Peek c n of
        Inl e \<Rightarrow> (Inl e, c)
      | Inr buf \<Rightarrow>
          if int (length buf) < n then (Inl err_not_enough, c)
          else (Inr buf, skip c (int (length buf))))"

definition GetAll :: "container \<Rightarrow> bytes res \<times> container" where
  "GetAll c =
     (case Peek c (int (Length c)) of
        Inl e \<Rightarrow> (Inl e, c)
      | Inr buf \<Rightarrow> (Inr buf, skip c (int (length buf))))"

definition GetAsContainer :: "container \<Rightarrow> int \<Rightarrow> container res \<times> container" where
  "GetAsContainer c n =
     (case PeekContainer c n of
        None \<Rightarrow> (Inl err_not_enough, c)
      | Some newC \<Rightarrow> (Inr newC, skip c n))"

definition GetMax :: "container \<Rightarrow> int \<Rightarrow> bytes res \<times> container" where
  "GetMax c n =
     (case Peek c n of
        Inl e \<Rightarrow> (Inl e, c)
      | Inr buf \<Rightarrow> (Inr buf, skip c (int (length buf))))"

text \<open>\<open>WriteToSlice\<close> returns the container, the contents of the slice, and the two results.\<close>

function WriteToSlice_loop ::
  "nat \<Rightarrow> container \<Rightarrow> bytes \<Rightarrow> bytes \<Rightarrow> nat \<Rightarrow> container \<times> bytes \<times> nat \<times> bool" where
  "WriteToSlice_loop i c written slc n =
     (if i < length (compartments c) then
        (let b = compartments c ! i; copied = gocopy slc b in
         if length slc < length b then
           (checkOffset (c\<lparr>compartments := (compartments c)[i := drop (length slc) b]\<rparr>),
            written @ copied, n + length slc, False)
         else
           WriteToSlice_loop (i + 1)
             (c\<lparr>compartments := (compartments c)[i := []], coffset := i + 1\<rparr>)
             (written @ take (length b) copied) (drop (length b) copied) (n + length b))
      else (checkOffset c, written @ slc, n, True))"
  by pat_completeness auto
termination
  by (relation "measure (\<lambda>(i, c, written, slc, n). length (compartments c) - i)") auto

declare WriteToSlice_loop.simps [simp del]

definition WriteToSlice :: "container \<Rightarrow> bytes \<Rightarrow> container \<times> bytes \<times> nat \<times> bool" where
  "WriteToSlice c slc = WriteToSlice_loop (coffset c) c [] slc 0"

subsection \<open>Block handling\<close>

definition PrependLengthC :: "container \<Rightarrow> container res" where
  "PrependLengthC c = map_sum id (Prepend c) (Pack64 (of_nat (Length c)))"

text \<open>
  The four \<open>GetNextN\<close> methods are the same code at four widths: peek as many bytes as the
  longest varint of that width has, unpack, skip what was used.
\<close>

definition get_next_number ::
  "int \<Rightarrow> (bytes \<Rightarrow> ('n \<times> nat) res) \<Rightarrow> container \<Rightarrow> 'n res \<times> container" where
  "get_next_number maxLen unpack c =
     (case Peek c maxLen of
        Inl e \<Rightarrow> (Inl e, c)
      | Inr buf \<Rightarrow>
          (case unpack buf of
             Inl e \<Rightarrow> (Inl e, c)
           | Inr (num, n) \<Rightarrow> (Inr num, skip c (int n))))"

definition GetNextN8 :: "container \<Rightarrow> uint8 res \<times> container" where
  "GetNextN8 c = get_next_number 2 Unpack8 c"

definition GetNextN16 :: "container \<Rightarrow> uint16 res \<times> container" where
  "GetNextN16 c = get_next_number 3 Unpack16 c"

definition GetNextN32 :: "container \<Rightarrow> uint32 res \<times> container" where
  "GetNextN32 c = get_next_number 5 Unpack32 c"

definition GetNextN64 :: "container \<Rightarrow> uint64 res \<times> container" where
  "GetNextN64 c = get_next_number 10 Unpack64 c"

definition GetNextBlockC :: "container \<Rightarrow> bytes res \<times> container" where
  "GetNextBlockC c =
     (case GetNextN64 c of
        (Inl e, c1) \<Rightarrow> (Inl e, c1)
      | (Inr blockSize, c1) \<Rightarrow> Get c1 (int_of_uint64 blockSize))"

definition GetNextBlockAsContainer :: "container \<Rightarrow> container res \<times> container" where
  "GetNextBlockAsContainer c =
     (case GetNextN64 c of
        (Inl e, c1) \<Rightarrow> (Inl e, c1)
      | (Inr blockSize, c1) \<Rightarrow> GetAsContainer c1 (int_of_uint64 blockSize))"

text \<open>\<open>UnmarshalJSON\<close>, with the JSON decoder of byte arrays as a parameter.\<close>

definition UnmarshalJSON :: "(bytes \<Rightarrow> bytes res) \<Rightarrow> container \<Rightarrow> bytes \<Rightarrow> container res" where
  "UnmarshalJSON json_unmarshal c data =
     (case json_unmarshal data of
        Inl e \<Rightarrow> Inl e
      | Inr raw \<Rightarrow> Inr (c\<lparr>compartments := [raw]\<rparr>))"

subsection \<open>Abstraction and invariant\<close>

text \<open>
  A container stands for the bytes from the offset on. Its representation invariant: the
  offset points into the compartments (or the container has none and the offset is zero),
  and every compartment before the offset is empty, so that methods which copy all
  compartments of another container copy its contents.
\<close>

definition cdata :: "container \<Rightarrow> bytes" where
  "cdata c = concat (drop (coffset c) (compartments c))"

definition consumed_empty :: "container \<Rightarrow> bool" where
  "consumed_empty c \<longleftrightarrow> (\<forall>b \<in> set (take (coffset c) (compartments c)). b = [])"

definition cinv :: "container \<Rightarrow> bool" where
  "cinv c \<longleftrightarrow>
     (coffset c < length (compartments c) \<or> compartments c = [] \<and> coffset c = 0) \<and>
     consumed_empty c"

lemma cinvD: "cinv c \<Longrightarrow> coffset c \<le> length (compartments c)"
  by (auto simp: cinv_def)

lemma concat_compartments: "consumed_empty c \<Longrightarrow> concat (compartments c) = cdata c"
proof -
  assume "consumed_empty c"
  then have "concat (take (coffset c) (compartments c)) = []"
    by (auto simp: consumed_empty_def)
  moreover have "concat (compartments c) =
      concat (take (coffset c) (compartments c)) @ concat (drop (coffset c) (compartments c))"
    by (simp flip: concat_append)
  ultimately show ?thesis by (simp add: cdata_def)
qed

lemma checkOffset_ok:
  assumes "consumed_empty c"
  shows "cdata (checkOffset c) = cdata c \<and> cinv (checkOffset c)"
proof (cases "coffset c < length (compartments c)")
  case True
  with assms show ?thesis by (simp add: checkOffset_def cinv_def)
next
  case False
  then have nil: "\<forall>b \<in> set (compartments c). b = []"
    using assms by (simp add: consumed_empty_def)
  then have "concat (drop k (compartments c)) = []" for k
    by (auto dest: in_set_dropD)
  moreover have "length (compartments c) div 2 < length (compartments c) \<or> compartments c = []"
    by (cases "compartments c") auto
  ultimately show ?thesis using False nil
    by (auto simp: checkOffset_def cdata_def cinv_def consumed_empty_def dest: in_set_takeD)
qed

lemma cinv_New [simp]: "cinv (New bs)"
  by (cases bs) (auto simp: cinv_def New_def consumed_empty_def)

lemma compartments_New [simp]: "compartments (New bs) = bs"
  by (simp add: New_def)

lemma cdata_New [simp]: "cdata (New bs) = concat bs"
  by (simp add: cdata_def New_def)

subsection \<open>Adding data\<close>

lemma cdata_Append: "cinv c \<Longrightarrow> cdata (Append c d) = cdata c @ d"
  by (auto simp: cdata_def Append_def cinv_def)

lemma cinv_Append: "cinv c \<Longrightarrow> cinv (Append c d)"
  by (auto simp: Append_def cinv_def consumed_empty_def)

lemma renewCompartments_eq:
  "cinv c \<Longrightarrow> renewCompartments c =
     c\<lparr>compartments := replicate 5 [] @ drop (coffset c) (compartments c), coffset := 4\<rparr>"
  by (simp add: renewCompartments_def Let_def gocopy_def)

lemma Prepend_ok:
  assumes "cinv c"
  shows "cdata (Prepend c d) = d @ cdata c \<and> cinv (Prepend c d)"
proof (cases "coffset c < 1")
  case True
  then have "coffset c = 0" by simp
  then have "Prepend c d = c\<lparr>compartments := [[], [], [], d, []] @ compartments c, coffset := 3\<rparr>"
    using assms by (simp add: Prepend_def Let_def renewCompartments_eq numeral_eq_Suc)
  then show ?thesis
    using \<open>coffset c = 0\<close> by (simp add: cdata_def cinv_def consumed_empty_def numeral_eq_Suc)
next
  case False
  then obtain k where k: "coffset c = Suc k" by (cases "coffset c") auto
  with assms have len: "Suc k < length (compartments c)" by (auto simp: cinv_def)
  then have "drop k ((compartments c)[k := d]) = d # drop (Suc k) (compartments c)"
    by (simp add: drop_eq_nth_Cons)
  with k have "cdata (Prepend c d) = d @ cdata c" by (simp add: cdata_def Prepend_def)
  moreover have "cinv (Prepend c d)"
    using assms k len by (auto simp: cinv_def consumed_empty_def Prepend_def take_Suc_conv_app_nth)
  ultimately show ?thesis by blast
qed

lemma AppendNumber_ok:
  "cinv c \<Longrightarrow> \<exists>c'. AppendNumber c n = Inr c' \<and> cdata c' = cdata c @ uvarint_bytes n \<and> cinv c'"
  by (simp add: AppendNumber_def Pack64_bytes cdata_Append cinv_Append)

lemma AppendAsBlock_ok:
  "cinv c \<Longrightarrow> \<exists>c'. AppendAsBlock c d = Inr c' \<and>
     cdata c' = cdata c @ uvarint_bytes (of_nat (length d)) @ d \<and> cinv c'"
  by (simp add: AppendAsBlock_def AppendNumber_def Pack64_bytes cdata_Append cinv_Append)

lemma PrependAsBlock_ok:
  "cinv c \<Longrightarrow> \<exists>c'. PrependAsBlock c d = Inr c' \<and>
     cdata c' = uvarint_bytes (of_nat (length d)) @ d @ cdata c \<and> cinv c'"
  by (simp add: PrependAsBlock_def PrependNumber_def Pack64_bytes Prepend_ok)

lemma AppendContainer_ok:
  assumes "cinv c" "cinv d"
  shows "cdata (AppendContainer c d) = cdata c @ cdata d \<and> cinv (AppendContainer c d)"
proof
  show "cdata (AppendContainer c d) = cdata c @ cdata d"
    using assms concat_compartments [of d]
    by (simp add: cdata_def AppendContainer_def cinvD) (simp add: cinv_def)
  show "cinv (AppendContainer c d)"
    using assms by (auto simp: AppendContainer_def cinv_def consumed_empty_def)
qed

subsection \<open>Looking at the data\<close>

lemma Length_loop_eq: "Length_loop n bs = n + length (concat bs)"
  by (induction bs arbitrary: n) auto

lemma Length_eq: "Length c = length (cdata c)"
  by (simp add: Length_def Length_loop_eq cdata_def)

lemma HoldsData_loop_iff: "HoldsData_loop bs \<longleftrightarrow> concat bs \<noteq> []"
  by (induction bs) auto

lemma HoldsData_iff: "HoldsData c \<longleftrightarrow> cdata c \<noteq> []"
  by (simp add: HoldsData_def HoldsData_loop_iff cdata_def)

lemma Peek_loop_eq:
  "n = length written \<Longrightarrow> Peek_loop written cs n bs = written @ take (length cs) (concat bs)"
proof (induction written cs n bs rule: Peek_loop.induct)
  case (1 written cs n)
  then show ?case by simp
next
  case (2 written cs n b bs)
  show ?case
  proof (cases "length cs \<le> length b")
    case True
    with "2.prems" show ?thesis by (simp add: gocopy_full)
  next
    case False
    with "2" show ?thesis by (simp add: take_gocopy)
  qed
qed

lemma Peek_eq:
  assumes "coffset c < length (compartments c)"
  shows "Peek c n = Inr (take (nat n) (cdata c))"
proof -
  have "cdata c = compartments c ! coffset c @ concat (drop (Suc (coffset c)) (compartments c))"
    using assms by (simp add: cdata_def drop_eq_nth_Cons)
  then show ?thesis
    using assms by (simp add: Peek_def Peek_loop_eq) (simp add: cdata_def)
qed

lemma CompileData_loop_eq:
  "length buf = length (concat bs) \<Longrightarrow> CompileData_loop written buf bs = Inr (written @ concat bs)"
  by (induction written buf bs rule: CompileData_loop.induct)
    (simp_all add: take_gocopy drop_gocopy Let_def)

lemma CompileData_total:
  assumes "cinv c"
  shows "\<exists>c'. CompileData c = Inr (cdata c, c') \<and> cdata c' = cdata c \<and> cinv c'"
proof (cases "length (compartments c) = 1")
  case True
  with assms have "coffset c = 0" by (auto simp: cinv_def)
  with True assms show ?thesis
    by (auto simp: CompileData_def cdata_def length_Suc_conv)
next
  case False
  let ?c = "c\<lparr>compartments := [cdata c], coffset := 0\<rparr>"
  have "CompileData c = Inr (cdata c, ?c)"
    using False CompileData_loop_eq [of "replicate (Length c) 0" "drop (coffset c) (compartments c)" "[]"]
    by (simp add: CompileData_def Length_eq flip: cdata_def)
  moreover have "cdata ?c = cdata c" by (simp add: cdata_def [of ?c])
  moreover have "cinv ?c" by (simp add: cinv_def consumed_empty_def)
  ultimately show ?thesis by blast
qed

lemma PeekContainer_loop_eq:
  "0 \<le> n \<Longrightarrow> PeekContainer_loop acc n bs = (cs, r) \<Longrightarrow>
     concat cs = concat acc @ take (nat n) (concat bs) \<and> r = max 0 (n - int (length (concat bs)))"
proof (induction acc n bs arbitrary: cs r rule: PeekContainer_loop.induct)
  case (1 acc n)
  then show ?case by simp
next
  case (2 acc n b bs)
  show ?case
  proof (cases "int (length b) \<le> n")
    case True
    with "2.IH"(1) [OF True, of cs r] "2.prems" show ?thesis by (auto simp: nat_diff_distrib)
  next
    case False
    with "2.IH"(2) [OF False, of cs r] "2.prems" show ?thesis by auto
  qed
qed

lemma PeekContainer_ok:
  "PeekContainer c n =
     (if 0 \<le> n \<and> n \<le> int (length (cdata c)) then PeekContainer c n else None) \<and>
   (0 \<le> n \<and> n \<le> int (length (cdata c)) \<longrightarrow>
     (\<exists>d. PeekContainer c n = Some d \<and> cdata d = take (nat n) (cdata c) \<and> cinv d))"
proof -
  obtain cs r where loop: "PeekContainer_loop [] n (drop (coffset c) (compartments c)) = (cs, r)"
    by force
  then have "0 \<le> n \<Longrightarrow> concat cs = take (nat n) (cdata c) \<and> r = max 0 (n - int (length (cdata c)))"
    using PeekContainer_loop_eq [OF _ loop] by (simp add: cdata_def)
  then show ?thesis using loop by (auto simp: PeekContainer_def)
qed

subsection \<open>Consuming data\<close>

lemma skip_loop_ok:
  "coffset c = i \<Longrightarrow> consumed_empty c \<Longrightarrow> 0 \<le> n \<Longrightarrow>
     cdata (skip_loop i c n) = drop (nat n) (cdata c) \<and> cinv (skip_loop i c n)"
proof (induction i c n rule: skip_loop.induct)
  case (1 i c n)
  show ?case
  proof (cases "i < length (compartments c)")
    case False
    with "1.prems" have "cdata c = []" by (simp add: cdata_def)
    with False "1.prems" show ?thesis
      by (subst (1 2) skip_loop.simps) (simp add: checkOffset_ok)
  next
    case True
    let ?b = "compartments c ! i"
    have data: "cdata c = ?b @ concat (drop (Suc i) (compartments c))"
      using True "1.prems" by (simp add: cdata_def drop_eq_nth_Cons)
    show ?thesis
    proof (cases "int (length ?b) \<le> n")
      case full: True
      let ?c = "c\<lparr>coffset := i + 1, compartments := (compartments c)[i := []]\<rparr>"
      have c: "consumed_empty ?c"
        using "1.prems" True by (auto simp: consumed_empty_def take_Suc_conv_app_nth)
      have cd: "cdata ?c = concat (drop (Suc i) (compartments c))" by (simp add: cdata_def)
      show ?thesis
      proof (cases "n = int (length ?b)")
        case True
        then show ?thesis
          using \<open>i < length (compartments c)\<close> data cd checkOffset_ok [OF c]
          by (subst (1 2) skip_loop.simps) (simp add: Let_def)
      next
        case False
        then have "cdata (skip_loop (i + 1) ?c (n - int (length ?b))) =
            drop (nat (n - int (length ?b))) (cdata ?c) \<and>
            cinv (skip_loop (i + 1) ?c (n - int (length ?b)))"
          using "1.IH" [OF True refl full refl refl] full c by simp
        then show ?thesis
          using True full False data cd
          by (subst (1 2) skip_loop.simps) (simp add: Let_def nat_diff_distrib)
      qed
    next
      case part: False
      let ?c = "c\<lparr>compartments := (compartments c)[i := drop (nat n) ?b]\<rparr>"
      have c: "consumed_empty ?c" using "1.prems" by (simp add: consumed_empty_def)
      have "cdata ?c = drop (nat n) (cdata c)"
        using True "1.prems" part data by (simp add: cdata_def drop_eq_nth_Cons)
      then show ?thesis
        using True part checkOffset_ok [OF c]
        by (subst (1 2) skip_loop.simps) (simp add: Let_def)
    qed
  qed
qed

lemma skip_ok: "cinv c \<Longrightarrow> 0 \<le> n \<Longrightarrow> cdata (skip c n) = drop (nat n) (cdata c) \<and> cinv (skip c n)"
  using skip_loop_ok [of c "coffset c" n] by (simp add: skip_def) (simp add: cinv_def)

lemma WriteToSlice_loop_ok:
  "coffset c = i \<Longrightarrow> consumed_empty c \<Longrightarrow>
     (case WriteToSlice_loop i c written slc n of (c', out, m, emptied) \<Rightarrow>
        out = written @ gocopy slc (cdata c) \<and> m = n + min (length slc) (length (cdata c)) \<and>
        cdata c' = drop (length slc) (cdata c) \<and> cinv c' \<and>
        (emptied \<longleftrightarrow> length (cdata c) \<le> length slc))"
proof (induction i c written slc n rule: WriteToSlice_loop.induct)
  case (1 i c written slc n)
  show ?case
  proof (cases "i < length (compartments c)")
    case False
    with "1.prems" have "cdata c = []" by (simp add: cdata_def)
    with False "1.prems" show ?thesis
      by (subst WriteToSlice_loop.simps) (simp add: checkOffset_ok gocopy_def)
  next
    case True
    let ?b = "compartments c ! i"
    have data: "cdata c = ?b @ concat (drop (Suc i) (compartments c))"
      using True "1.prems" by (simp add: cdata_def drop_eq_nth_Cons)
    show ?thesis
    proof (cases "length slc < length ?b")
      case part: True
      let ?c = "c\<lparr>compartments := (compartments c)[i := drop (length slc) ?b]\<rparr>"
      have c: "consumed_empty ?c" using "1.prems" by (simp add: consumed_empty_def)
      have "cdata ?c = drop (length slc) (cdata c)"
        using True "1.prems" part data by (simp add: cdata_def drop_eq_nth_Cons)
      then show ?thesis
        using True part checkOffset_ok [OF c] data
        by (subst WriteToSlice_loop.simps) (simp add: Let_def gocopy_def min_def)
    next
      case full: False
      let ?c = "c\<lparr>compartments := (compartments c)[i := []], coffset := i + 1\<rparr>"
      have c: "consumed_empty ?c"
        using "1.prems" True by (auto simp: consumed_empty_def take_Suc_conv_app_nth)
      have cd: "cdata ?c = concat (drop (Suc i) (compartments c))" by (simp add: cdata_def)
      show ?thesis
        using "1.IH" [OF True refl refl full] True full c data cd
        by (subst WriteToSlice_loop.simps)
          (auto simp: Let_def gocopy_def drop_drop add.commute split: prod.splits)
    qed
  qed
qed

lemma Get_ok:
  assumes "cinv c" "compartments c \<noteq> []"
  shows "Get c n =
    (if n \<le> int (length (cdata c)) then (Inr (take (nat n) (cdata c)), skip c (int (nat n)))
     else (Inl err_not_enough, c))"
proof -
  have "coffset c < length (compartments c)" using assms by (auto simp: cinv_def)
  moreover have "n \<le> int (length (cdata c)) \<Longrightarrow> length (take (nat n) (cdata c)) = nat n" by simp
  ultimately show ?thesis by (simp add: Get_def Peek_eq)
qed

lemma PeekContainer_None: "n < 0 \<or> int (length (cdata c)) < n \<Longrightarrow> PeekContainer c n = None"
  using PeekContainer_ok [of c n] by (auto split: if_splits)

lemma PeekContainer_Some:
  "0 \<le> n \<Longrightarrow> n \<le> int (length (cdata c)) \<Longrightarrow>
     \<exists>d. PeekContainer c n = Some d \<and> cdata d = take (nat n) (cdata c) \<and> cinv d"
  using PeekContainer_ok [of c n] by blast

subsection \<open>The contract clients rely on\<close>

text \<open>
  A client writes with \<open>append\<close> and reads with \<open>peek\<close> and \<open>skip\<close>; what it relies on is
  that these act on one stream of bytes as a queue does. A reader of numbers or blocks needs,
  besides, an encoding of bounded size that delimits itself.
\<close>

locale byte_stream =
  fixes inv :: "'c \<Rightarrow> bool"
    and contents :: "'c \<Rightarrow> bytes"
    and append :: "'c \<Rightarrow> bytes \<Rightarrow> 'c"
    and peek :: "'c \<Rightarrow> int \<Rightarrow> bytes res"
    and skp :: "'c \<Rightarrow> int \<Rightarrow> 'c"
  assumes contents_append: "inv c \<Longrightarrow> contents (append c d) = contents c @ d"
    and inv_append: "inv c \<Longrightarrow> inv (append c d)"
    and peek_contents: "inv c \<Longrightarrow> contents c \<noteq> [] \<Longrightarrow> peek c n = Inr (take (nat n) (contents c))"
    and contents_skip: "inv c \<Longrightarrow> 0 \<le> n \<Longrightarrow> contents (skp c n) = drop (nat n) (contents c)"
    and inv_skip: "inv c \<Longrightarrow> 0 \<le> n \<Longrightarrow> inv (skp c n)"
begin

lemma inv_fold_append: "inv c \<Longrightarrow> inv (foldl append c ds)"
  by (induction ds arbitrary: c) (auto intro: inv_append)

lemma contents_fold_append: "inv c \<Longrightarrow> contents (foldl append c ds) = contents c @ concat ds"
  by (induction ds arbitrary: c) (auto simp: contents_append inv_append)

lemma first_in_first_out:
  assumes "inv c" "contents c = []" "d \<noteq> []"
  shows "peek (foldl append c (d # ds)) (int (length d)) = Inr d \<and>
    contents (skp (foldl append c (d # ds)) (int (length d))) = concat ds"
proof -
  have i: "inv (foldl append c (d # ds))" using assms(1) by (rule inv_fold_append)
  have c: "contents (foldl append c (d # ds)) = d @ concat ds"
    using contents_fold_append [OF assms(1), of "d # ds"] assms(2) by simp
  show ?thesis using peek_contents [OF i] contents_skip [OF i] c assms(3) by simp
qed

end

locale number_stream = byte_stream inv contents append peek skp + self_delimiting valid enc dec
  for inv :: "'c \<Rightarrow> bool" and contents append peek skp
    and valid :: "'n \<Rightarrow> bool" and enc dec +
  fixes maxLen :: int
  assumes enc_bound: "valid x \<Longrightarrow> int (length (enc x)) \<le> maxLen"
    and enc_nonempty: "valid x \<Longrightarrow> enc x \<noteq> []"
begin

lemma read_number:
  assumes "inv c" "valid x" "contents c = enc x @ rest"
  shows "\<exists>buf. peek c maxLen = Inr buf \<and> dec buf = Inr (x, length (enc x)) \<and>
    contents (skp c (int (length (enc x)))) = rest \<and> inv (skp c (int (length (enc x))))"
proof -
  have "peek c maxLen = Inr (take (nat maxLen) (enc x @ rest))"
    using assms enc_nonempty [OF assms(2)] by (simp add: peek_contents)
  moreover have "length (enc x) \<le> nat maxLen" using enc_bound [OF assms(2)] by simp
  then have "dec (take (nat maxLen) (enc x @ rest)) = Inr (x, length (enc x))"
    by (rule dec_bounded_read [OF assms(2)])
  ultimately show ?thesis
    using assms contents_skip [OF assms(1)] inv_skip [OF assms(1)] by simp
qed

end

lemma Peek_contents: "cinv c \<Longrightarrow> cdata c \<noteq> [] \<Longrightarrow> Peek c n = Inr (take (nat n) (cdata c))"
  by (rule Peek_eq) (auto simp: cinv_def cdata_def)

interpretation cstream: byte_stream cinv cdata Append Peek skip
  by unfold_locales (auto simp: cdata_Append cinv_Append Peek_contents skip_ok)

interpretation cstream64: number_stream cinv cdata Append Peek skip
  "\<lambda>_. True" "\<lambda>n. projr (Pack64 n)" Unpack64 10
  by unfold_locales (simp_all add: codec_simps length_uvarint_bytes_bound)

interpretation cstream32: number_stream cinv cdata Append Peek skip
  "\<lambda>_. True" "\<lambda>n. projr (Pack32 n)" Unpack32 5
  by unfold_locales (simp_all add: codec_simps length_uvarint_bytes_ucast32)

interpretation cstream16: number_stream cinv cdata Append Peek skip
  "\<lambda>_. True" "\<lambda>n. projr (Pack16 n)" Unpack16 3
  by unfold_locales (simp_all add: codec_simps length_uvarint_bytes_ucast16)

subsection \<open>Properties\<close>

lemma Get_empty: "compartments c = [] \<Longrightarrow> 0 < n \<Longrightarrow> Get c n = (Inl index_panic, c)"
  by (simp add: Get_def Peek_def)

lemma Get_nonpositive: "n \<le> 0 \<Longrightarrow> Get c n = (Inr [], skip c 0)"
  by (simp add: Get_def Peek_def)

lemma GetNextN64_ok:
  assumes "cinv c" "cdata c = uvarint_bytes n @ rest"
  shows "\<exists>c'. GetNextN64 c = (Inr n, c') \<and> cdata c' = rest \<and> cinv c'"
  using cstream64.read_number [of c n rest] assms
  by (auto simp: GetNextN64_def get_next_number_def Pack64_bytes)

lemma GetNextBlockC_ok:
  assumes "cinv c" "block_fits d" "cdata c = uvarint_bytes (of_nat (length d)) @ d @ rest"
  shows "\<exists>c'. GetNextBlockC c = (Inr d, c') \<and> cdata c' = rest \<and> cinv c'"
proof -
  obtain c1 where c1: "GetNextN64 c = (Inr (of_nat (length d)), c1)" "cdata c1 = d @ rest" "cinv c1"
    using GetNextN64_ok [OF assms(1,3)] by auto
  have "unat (of_nat (length d) :: uint64) = length d"
    using assms(2) by (simp add: block_fits_def unat_of_nat take_bit_nat_eq_self)
  then have n: "int_of_uint64 (of_nat (length d)) = int (length d)"
    using assms(2) sint_of_small [of "of_nat (length d)"] by (simp add: int_of_uint64_def block_fits_def)
  show ?thesis
  proof (cases "d = []")
    case True
    with c1 n skip_ok [of c1 0] show ?thesis by (simp add: GetNextBlockC_def Get_nonpositive)
  next
    case False
    then have "compartments c1 \<noteq> []" using c1 by (auto simp: cdata_def)
    then have "Get c1 (int (length d)) = (Inr d, skip c1 (int (length d)))"
      using Get_ok [OF c1(3)] c1(2) by simp
    with c1 n skip_ok [of c1 "int (length d)"] show ?thesis by (simp add: GetNextBlockC_def)
  qed
qed

text \<open>
  C35. The container is a byte string that grows at both ends: in every state that satisfies
  the representation invariant, each operation that adds or inspects data acts on the
  contents as the corresponding list operation and keeps the invariant; \<open>CompileData\<close> never
  runs over its buffer.
\<close>

theorem container_writes_refine:
  assumes "cinv c" "cinv d"
  shows "cdata (Append c x) = cdata c @ x \<and> cinv (Append c x) \<and>
    cdata (Prepend c x) = x @ cdata c \<and> cinv (Prepend c x) \<and>
    cdata (AppendContainer c d) = cdata c @ cdata d \<and> cinv (AppendContainer c d) \<and>
    (\<exists>c'. CompileData c = Inr (cdata c, c') \<and> cdata c' = cdata c \<and> cinv c') \<and>
    Length c = length (cdata c) \<and> (HoldsData c \<longleftrightarrow> cdata c \<noteq> [])"
  using assms
  by (simp add: cdata_Append cinv_Append Prepend_ok AppendContainer_ok CompileData_total
      Length_eq HoldsData_iff)

theorem container_writes_refine_witness:
  "cdata (Prepend (New [[1], [2]]) [0]) = [0, 1, 2]"
  using container_writes_refine [of "New [[1], [2]]" "New []" "[0]"] by simp



text \<open>
  Blocks round trip through a container: a block put in front with \<open>PrependAsBlock\<close>, or
  appended with \<open>AppendAsBlock\<close> to a container whose contents have been read, is what the
  next \<open>GetNextBlock\<close> returns, and the contents behind it are left.
\<close>

theorem container_block_roundtrip:
  assumes "cinv c" "block_fits d"
  shows "(\<exists>c1 c2. PrependAsBlock c d = Inr c1 \<and> GetNextBlockC c1 = (Inr d, c2) \<and>
      cdata c2 = cdata c \<and> cinv c2) \<and>
    (cdata c = [] \<longrightarrow>
      (\<exists>c1 c2. AppendAsBlock c d = Inr c1 \<and> GetNextBlockC c1 = (Inr d, c2) \<and>
        cdata c2 = [] \<and> cinv c2))"
proof -
  obtain c1 where c1: "PrependAsBlock c d = Inr c1" "cinv c1"
      "cdata c1 = uvarint_bytes (of_nat (length d)) @ d @ cdata c"
    using PrependAsBlock_ok [OF assms(1)] by blast
  obtain c2 where c2: "AppendAsBlock c d = Inr c2" "cinv c2"
      "cdata c2 = cdata c @ uvarint_bytes (of_nat (length d)) @ d"
    using AppendAsBlock_ok [OF assms(1)] by blast
  from c1 c2 GetNextBlockC_ok [OF c1(2) assms(2) c1(3)] GetNextBlockC_ok [OF c2(2) assms(2), of "[]"]
  show ?thesis by auto
qed

theorem container_block_roundtrip_witness:
  "\<exists>c1 c2. PrependAsBlock (New [[9]]) [1, 2] = Inr c1 \<and> GetNextBlockC c1 = (Inr [1, 2], c2) \<and> cdata c2 = [9]"
  using container_block_roundtrip [of "New [[9]]" "[1, 2]"] by (simp add: block_fits_def) blast

text \<open>
  Where the container departs from that contract: \<open>Get\<close> of a positive number of bytes
  from a container without compartments panics instead of returning its error, and
  \<open>Replace\<close> keeps the old offset, so that after any \<open>Prepend\<close> the new data is not held.
\<close>

theorem container_departures:
  "Get (New []) 1 = (Inl index_panic, New []) \<and>
   cdata (Replace (Prepend c x) y) = (if coffset (Prepend c x) = 0 then y else []) \<and>
   cdata (Replace (Prepend (New []) x) y) = []"
  by (simp add: Get_empty New_def Replace_def cdata_def Prepend_def renewCompartments_def Let_def)

end
