(* ===== verification/Dsd.thy ===== *)
theory Dsd
  imports Varint Go_Strings
begin

section \<open>Dynamic structured data: formats/dsd\<close>

text \<open>
  \<open>formats/dsd/dsd.go\<close>, \<open>format.go\<close>, \<open>compression.go\<close> and \<open>http.go\<close>. A value is written as
  a format identifier (a varint) followed by the bytes of one of several serialisers. The
  serialisers and the compressor belong to packages outside the repository or to reflection in
  the standard library: they are the fields of the record \<open>dsd_lib\<close>, a parameter of every
  operation. The type \<open>'v\<close> is the type of the Go values behind \<open>interface{}\<close>;
  \<open>as_bytes\<close> and the two GenCode fields are the type assertions \<open>t.([]byte)\<close> and
  \<open>t.(GenCodeCompatible)\<close>, \<open>None\<close> where the assertion fails. Error texts are kept up to the
  excerpt of the data that Go appends to them.
\<close>

record 'v dsd_lib =
  json_Marshal :: "'v \<Rightarrow> bytes res"
  json_MarshalIndent :: "'v \<Rightarrow> string \<Rightarrow> bytes res"
  json_Unmarshal :: "bytes \<Rightarrow> 'v \<Rightarrow> 'v res"
  yaml_Marshal :: "'v \<Rightarrow> bytes res"
  yaml_Unmarshal :: "bytes \<Rightarrow> 'v \<Rightarrow> 'v res"
  cbor_Marshal :: "'v \<Rightarrow> bytes res"
  cbor_Unmarshal :: "bytes \<Rightarrow> 'v \<Rightarrow> 'v res"
  msgpack_Marshal :: "'v \<Rightarrow> bytes res"
  msgpack_Unmarshal :: "bytes \<Rightarrow> 'v \<Rightarrow> 'v res"
  as_bytes :: "'v \<Rightarrow> bytes option"
  as_gencode_Marshal :: "'v \<Rightarrow> (bytes res) option"
  as_gencode_Unmarshal :: "'v \<Rightarrow> (bytes \<Rightarrow> ('v \<times> nat) res) option"
  gzip_compress :: "bytes \<Rightarrow> bytes res"
  gzip_decompress :: "bytes \<Rightarrow> bytes res"

subsection \<open>format.go\<close>

definition ErrIncompatibleFormat :: goerr where
  "ErrIncompatibleFormat = ErrNew ''dsd: format is incompatible with operation''"

definition ErrIsRaw :: goerr where
  "ErrIsRaw = ErrNew ''dsd: given data is in raw format''"

definition ErrUnexpectedEOF :: goerr where
  "ErrUnexpectedEOF = ErrNew ''unexpected EOF''"

abbreviation AUTO :: uint8 where "AUTO \<equiv> 0"
abbreviation RAW :: uint8 where "RAW \<equiv> 1"
abbreviation CBOR :: uint8 where "CBOR \<equiv> 67"
abbreviation GenCode :: uint8 where "GenCode \<equiv> 71"
abbreviation JSON :: uint8 where "JSON \<equiv> 74"
abbreviation MsgPack :: uint8 where "MsgPack \<equiv> 77"
abbreviation YAML :: uint8 where "YAML \<equiv> 89"
abbreviation GZIP :: uint8 where "GZIP \<equiv> 90"

definition DefaultSerializationFormat :: uint8 where
  "DefaultSerializationFormat = JSON"

definition DefaultCompressionFormat :: uint8 where
  "DefaultCompressionFormat = GZIP"

definition ValidateSerializationFormat :: "uint8 \<Rightarrow> uint8 \<times> bool" where
  "ValidateSerializationFormat format =
     (if format = AUTO then (DefaultSerializationFormat, True)
      else if format = RAW then (format, True)
      else if format = CBOR then (format, True)
      else if format = GenCode then (format, True)
      else if format = JSON then (format, True)
      else if format = YAML then (format, True)
      else if format = MsgPack then (format, True)
      else (0, False))"

definition ValidateCompressionFormat :: "uint8 \<Rightarrow> uint8 \<times> bool" where
  "ValidateCompressionFormat format =
     (if format = AUTO then (DefaultCompressionFormat, True)
      else if format = GZIP then (format, True)
      else (0, False))"

subsection \<open>dsd.go\<close>

definition unpack_with :: "string \<Rightarrow> 'a res \<Rightarrow> 'a res" where
  "unpack_with what r = (case r of Inl err \<Rightarrow> Inl (ErrWrap what err) | Inr v \<Rightarrow> Inr v)"

definition LoadAsFormat :: "'v dsd_lib \<Rightarrow> bytes \<Rightarrow> uint8 \<Rightarrow> 'v \<Rightarrow> 'v res" where
  "LoadAsFormat lib data format t =
     (if format = RAW then Inl ErrIsRaw
      else if format = JSON then
        unpack_with ''dsd: failed to unpack json'' (json_Unmarshal lib data t)
      else if format = YAML then
        unpack_with ''dsd: failed to unpack yaml'' (yaml_Unmarshal lib data t)
      else if format = CBOR then
        unpack_with ''dsd: failed to unpack cbor'' (cbor_Unmarshal lib data t)
      else if format = MsgPack then
        unpack_with ''dsd: failed to unpack msgpack'' (msgpack_Unmarshal lib data t)
      else if format = GenCode then
        (case as_gencode_Unmarshal lib t of
           None \<Rightarrow> Inl (ErrNew ''dsd: gencode is not supported by the given data structure'')
         | Some unmarshal \<Rightarrow>
             unpack_with ''dsd: failed to unpack gencode'' (map_sum id fst (unmarshal data)))
      else Inl ErrIncompatibleFormat)"

definition loadFormat :: "bytes \<Rightarrow> (uint8 \<times> nat) res" where
  "loadFormat data =
     (case Unpack8 data of
        Inl e \<Rightarrow> Inl e
      | Inr (format, read) \<Rightarrow>
          if length data \<le> read then Inl ErrUnexpectedEOF else Inr (format, read))"

text \<open>\<open>DecompressAndLoad\<close> and \<open>Load\<close> return the format next to the error.\<close>

definition DecompressAndLoad :: "'v dsd_lib \<Rightarrow> bytes \<Rightarrow> uint8 \<Rightarrow> 'v \<Rightarrow> uint8 \<times> 'v res" where
  "DecompressAndLoad lib data compression t =
     (case ValidateCompressionFormat compression of
        (_, False) \<Rightarrow> (0, Inl ErrIncompatibleFormat)
      | (_, True) \<Rightarrow>
          if compression = GZIP then
            (case gzip_decompress lib data of
               Inl e \<Rightarrow> (0, Inl e)
             | Inr plain \<Rightarrow>
                 (case loadFormat plain of
                    Inl e \<Rightarrow> (0, Inl e)
                  | Inr (format, read) \<Rightarrow>
                      (format, LoadAsFormat lib (drop read plain) format t)))
          else (0, Inl ErrIncompatibleFormat))"

definition Load :: "'v dsd_lib \<Rightarrow> bytes \<Rightarrow> 'v \<Rightarrow> uint8 \<times> 'v res" where
  "Load lib data t =
     (case loadFormat data of
        Inl e \<Rightarrow> (0, Inl e)
      | Inr (format, read) \<Rightarrow>
          if snd (ValidateSerializationFormat format)
          then (format, LoadAsFormat lib (drop read data) format t)
          else DecompressAndLoad lib (drop read data) format t)"

definition dumpWithoutIdentifier :: "'v dsd_lib \<Rightarrow> 'v \<Rightarrow> uint8 \<Rightarrow> string \<Rightarrow> bytes res" where
  "dumpWithoutIdentifier lib t format0 indent =
     (case ValidateSerializationFormat format0 of
        (_, False) \<Rightarrow> Inl ErrIncompatibleFormat
      | (format, True) \<Rightarrow>
          if format = RAW then
            (case as_bytes lib t of None \<Rightarrow> Inl ErrIncompatibleFormat | Some data \<Rightarrow> Inr data)
          else if format = JSON then
            (if indent \<noteq> [] then json_MarshalIndent lib t indent else json_Marshal lib t)
          else if format = YAML then yaml_Marshal lib t
          else if format = CBOR then cbor_Marshal lib t
          else if format = MsgPack then msgpack_Marshal lib t
          else if format = GenCode then
            (case as_gencode_Marshal lib t of
               None \<Rightarrow> Inl (ErrNew ''dsd: gencode is not supported by the given data structure'')
             | Some packed \<Rightarrow> unpack_with ''dsd: failed to pack gencode struct'' packed)
          else Inl ErrIncompatibleFormat)"

definition DumpIndent :: "'v dsd_lib \<Rightarrow> 'v \<Rightarrow> uint8 \<Rightarrow> string \<Rightarrow> bytes res" where
  "DumpIndent lib t format indent =
     (case dumpWithoutIdentifier lib t format indent of
        Inl e \<Rightarrow> Inl e
      | Inr data \<Rightarrow> Inr (Pack8 format @ data))"

definition Dump :: "'v dsd_lib \<Rightarrow> 'v \<Rightarrow> uint8 \<Rightarrow> bytes res" where
  "Dump lib t format = DumpIndent lib t format []"

subsection \<open>compression.go\<close>

definition DumpAndCompress :: "'v dsd_lib \<Rightarrow> 'v \<Rightarrow> uint8 \<Rightarrow> uint8 \<Rightarrow> bytes res" where
  "DumpAndCompress lib t format compression0 =
     (case ValidateCompressionFormat compression0 of
        (_, False) \<Rightarrow> Inl ErrIncompatibleFormat
      | (compression, True) \<Rightarrow>
          (case Dump lib t format of
             Inl e \<Rightarrow> Inl e
           | Inr data \<Rightarrow>
               if compression = GZIP then
                 (case gzip_compress lib data of
                    Inl e \<Rightarrow> Inl e
                  | Inr packed \<Rightarrow> Inr (Pack8 compression @ packed))
               else Inl ErrIncompatibleFormat))"

subsection \<open>http.go\<close>

definition FormatToMimeType :: "uint8 \<Rightarrow> string option" where
  "FormatToMimeType format =
     (if format = CBOR then Some ''application/cbor''
      else if format = JSON then Some ''application/json''
      else if format = MsgPack then Some ''application/msgpack''
      else if format = YAML then Some ''application/yaml''
      else None)"

definition MimeTypeToFormat :: "string \<Rightarrow> uint8 option" where
  "MimeTypeToFormat mimeType =
     (if mimeType = ''cbor'' then Some CBOR
      else if mimeType = ''json'' then Some JSON
      else if mimeType = ''msgpack'' then Some MsgPack
      else if mimeType = ''yaml'' then Some YAML
      else if mimeType = ''yml'' then Some YAML
      else None)"

definition clean_mime :: "string \<Rightarrow> string" where
  "clean_mime mimeType0 =
     (let mimeType1 = fst (Cut CHR '';'' (TrimSpace mimeType0));
          mimeType2 = (if CHR ''/'' \<in> set mimeType1 then fst (snd (Cut CHR ''/'' mimeType1)) else mimeType1)
      in ToLower mimeType2)"

fun accept_loop :: "bool \<Rightarrow> string list \<Rightarrow> uint8" where
  "accept_loop foundWildcard [] = (if foundWildcard then DefaultSerializationFormat else AUTO)"
| "accept_loop foundWildcard (m # ms) =
     (case MimeTypeToFormat (clean_mime m) of
        Some format \<Rightarrow> format
      | None \<Rightarrow> accept_loop (foundWildcard \<or> clean_mime m = ''*'') ms)"

definition FormatFromAccept :: "string \<Rightarrow> uint8" where
  "FormatFromAccept accept =
     (if accept = [] then DefaultSerializationFormat
      else accept_loop False (Split CHR '','' accept))"

definition MimeLoad :: "'v dsd_lib \<Rightarrow> bytes \<Rightarrow> string \<Rightarrow> 'v \<Rightarrow> uint8 \<times> 'v res" where
  "MimeLoad lib data accept t =
     (let format = FormatFromAccept accept in
      if format = 0 then (0, Inl ErrIncompatibleFormat)
      else (format, LoadAsFormat lib data format t))"

text \<open>
  \<open>MimeDump\<close> has the named results \<open>data\<close>, \<open>mimeType\<close>, \<open>format\<close> and \<open>err\<close>; \<open>mimeType\<close> is
  never assigned, so it is returned as the zero value.
\<close>

definition MimeDump :: "'v dsd_lib \<Rightarrow> 'v \<Rightarrow> string \<Rightarrow> (bytes res) \<times> string \<times> uint8" where
  "MimeDump lib t accept =
     (let format = FormatFromAccept accept in
      if format = AUTO then (Inl ErrIncompatibleFormat, [], 0)
      else (dumpWithoutIdentifier lib t format [], [], format))"

record http_message =
  http_header :: "string \<Rightarrow> string option"
  http_body :: bytes

definition header_get :: "http_message \<Rightarrow> string \<Rightarrow> string" where
  "header_get r k = (case http_header r k of None \<Rightarrow> [] | Some v \<Rightarrow> v)"

definition header_set :: "http_message \<Rightarrow> string \<Rightarrow> string \<Rightarrow> http_message" where
  "header_set r k v = r\<lparr>http_header := (http_header r)(k \<mapsto> v)\<rparr>"

definition loadFromHTTP :: "'v dsd_lib \<Rightarrow> bytes res \<Rightarrow> string \<Rightarrow> 'v \<Rightarrow> uint8 \<times> 'v res" where
  "loadFromHTTP lib body mimeType t =
     (case body of
        Inl e \<Rightarrow> (0, Inl (ErrWrap ''dsd: failed to read http body'' e))
      | Inr data \<Rightarrow> MimeLoad lib data mimeType t)"

definition RequestHTTPResponseFormat :: "http_message \<Rightarrow> uint8 \<Rightarrow> (string res) \<times> http_message" where
  "RequestHTTPResponseFormat r format =
     (case FormatToMimeType format of
        None \<Rightarrow> (Inl ErrIncompatibleFormat, r)
      | Some mimeType \<Rightarrow> (Inr mimeType, header_set r ''Accept'' mimeType))"

definition DumpToHTTPRequest ::
  "'v dsd_lib \<Rightarrow> http_message \<Rightarrow> 'v \<Rightarrow> uint8 \<Rightarrow> goerr option \<times> http_message" where
  "DumpToHTTPRequest lib r t format =
     (case RequestHTTPResponseFormat r format of
        (Inl e, r1) \<Rightarrow> (Some e, r1)
      | (Inr mimeType, r1) \<Rightarrow>
          (case dumpWithoutIdentifier lib t format [] of
             Inl e \<Rightarrow> (Some (ErrWrap ''dsd: failed to serialize'' e), r1)
           | Inr data \<Rightarrow>
               (None, (header_set r1 ''Content-Type'' mimeType)\<lparr>http_body := data\<rparr>)))"

text \<open>The response writer is the message it has written so far; writing to it succeeds.\<close>

definition DumpToHTTPResponse ::
  "'v dsd_lib \<Rightarrow> http_message \<Rightarrow> http_message \<Rightarrow> 'v \<Rightarrow> goerr option \<times> http_message" where
  "DumpToHTTPResponse lib w r t =
     (case MimeDump lib t (header_get r ''Accept'') of
        (Inl e, _, _) \<Rightarrow> (Some (ErrWrap ''dsd: failed to serialize'' e), w)
      | (Inr data, mimeType, _) \<Rightarrow>
          (let w1 = header_set w ''Content-Type'' mimeType in
           (None, w1\<lparr>http_body := http_body w1 @ data\<rparr>)))"

subsection \<open>What the code relies on in the serialisers\<close>

text \<open>
  The documented behaviour of the serialisers and of the compressor: what they wrote, they
  read back, into a variable of the same Go type, and they never write nothing.
\<close>

definition codec_law :: "('v \<Rightarrow> bytes res) \<Rightarrow> (bytes \<Rightarrow> 'v \<Rightarrow> 'v res) \<Rightarrow> bool" where
  "codec_law marshal unmarshal \<longleftrightarrow>
     (\<forall>v t bs. marshal v = Inr bs \<longrightarrow> bs \<noteq> [] \<and> unmarshal bs t = Inr v)"

definition gencode_law :: "'v dsd_lib \<Rightarrow> bool" where
  "gencode_law lib \<longleftrightarrow>
     (\<forall>v t bs. as_gencode_Marshal lib v = Some (Inr bs) \<longrightarrow>
        bs \<noteq> [] \<and> (\<exists>u n. as_gencode_Unmarshal lib t = Some u \<and> u bs = Inr (v, n)))"

definition gzip_law :: "'v dsd_lib \<Rightarrow> bool" where
  "gzip_law lib \<longleftrightarrow>
     (\<forall>d p. gzip_compress lib d = Inr p \<longrightarrow> p \<noteq> [] \<and> gzip_decompress lib p = Inr d)"

definition text_codec_laws :: "'v dsd_lib \<Rightarrow> bool" where
  "text_codec_laws lib \<longleftrightarrow>
     codec_law (json_Marshal lib) (json_Unmarshal lib) \<and>
     codec_law (yaml_Marshal lib) (yaml_Unmarshal lib) \<and>
     codec_law (cbor_Marshal lib) (cbor_Unmarshal lib) \<and>
     codec_law (msgpack_Marshal lib) (msgpack_Unmarshal lib)"

definition lib_laws :: "'v dsd_lib \<Rightarrow> bool" where
  "lib_laws lib \<longleftrightarrow> text_codec_laws lib \<and> gencode_law lib \<and> gzip_law lib"

subsection \<open>Lemmas\<close>

lemma Unpack8_Pack8: "Unpack8 (Pack8 n @ rest) = Inr (n, 1)"
  by (simp add: Unpack8_def Pack8_def)

lemma loadFormat_small:
  "format < 128 \<Longrightarrow> data \<noteq> [] \<Longrightarrow> loadFormat (Pack8 format @ data) = Inr (format, 1)"
  by (cases data) (simp_all add: loadFormat_def Unpack8_Pack8, simp add: Pack8_def)

lemma unpack_with_Inr [simp]: "unpack_with what r = Inr v \<longleftrightarrow> r = Inr v"
  by (cases r) (auto simp: unpack_with_def)

lemma map_sum_fst_Inr [simp]: "map_sum id fst r = Inr v \<longleftrightarrow> (\<exists>n. r = Inr (v, n))"
  by (cases r) auto

lemma codec_lawD: "codec_law m u \<Longrightarrow> m v = Inr bs \<Longrightarrow> bs \<noteq> [] \<and> u bs t = Inr v"
  by (simp add: codec_law_def)

lemma load_dumped:
  assumes laws: "text_codec_laws lib" "format = GenCode \<Longrightarrow> gencode_law lib"
    and format: "format \<in> {CBOR, GenCode, JSON, MsgPack, YAML}"
    and dump: "dumpWithoutIdentifier lib v format [] = Inr bs"
  shows "bs \<noteq> [] \<and> LoadAsFormat lib bs format t = Inr v"
proof -
  note defs = dumpWithoutIdentifier_def ValidateSerializationFormat_def LoadAsFormat_def
  note law = laws(1) [unfolded text_codec_laws_def]
  consider "format = CBOR" | "format = GenCode" | "format = JSON" | "format = MsgPack" | "format = YAML"
    using format by blast
  then show ?thesis
  proof cases
    case 1
    with dump law codec_lawD [of "cbor_Marshal lib" "cbor_Unmarshal lib" v bs t] show ?thesis by (simp add: defs)
  next
    case 2
    then have "as_gencode_Marshal lib v = Some (Inr bs)"
      using dump by (simp add: defs split: option.splits)
    with laws(2) [OF 2] obtain u n where "bs \<noteq> []" "as_gencode_Unmarshal lib t = Some u" "u bs = Inr (v, n)"
      unfolding gencode_law_def by meson
    with 2 show ?thesis by (simp add: defs)
  next
    case 3
    with dump law codec_lawD [of "json_Marshal lib" "json_Unmarshal lib" v bs t] show ?thesis by (simp add: defs)
  next
    case 4
    with dump law codec_lawD [of "msgpack_Marshal lib" "msgpack_Unmarshal lib" v bs t] show ?thesis by (simp add: defs)
  next
    case 5
    with dump law codec_lawD [of "yaml_Marshal lib" "yaml_Unmarshal lib" v bs t] show ?thesis by (simp add: defs)
  qed
qed

lemma serial_format_small:
  "format \<in> {CBOR, GenCode, JSON, MsgPack, YAML} \<Longrightarrow>
     format < 128 \<and> snd (ValidateSerializationFormat format)"
  by (auto simp: ValidateSerializationFormat_def)

lemma Load_Dump:
  assumes "text_codec_laws lib" "format = GenCode \<Longrightarrow> gencode_law lib"
    and "format \<in> {CBOR, GenCode, JSON, MsgPack, YAML}"
    and "Dump lib v format = Inr bs"
  shows "bs \<noteq> [] \<and> loadFormat bs = Inr (format, 1) \<and> Load lib bs t = (format, Inr v) \<and>
    LoadAsFormat lib (drop 1 bs) format t = Inr v"
proof -
  obtain data where data: "dumpWithoutIdentifier lib v format [] = Inr data"
    and bs: "bs = Pack8 format @ data"
    using assms(4) by (auto simp: Dump_def DumpIndent_def split: sum.splits)
  have f: "format < 128" "snd (ValidateSerializationFormat format)"
    using serial_format_small assms(3) by blast+
  have l: "data \<noteq> []" "LoadAsFormat lib data format t = Inr v"
    using load_dumped [OF assms(1-3) data] by auto
  from f(1) have "drop 1 bs = data" by (simp add: bs Pack8_def)
  with f l loadFormat_small [OF f(1) l(1)] show ?thesis by (simp add: Load_def bs)
qed

lemma accept_loop_find:
  "accept_loop w ms =
     (case List.find (\<lambda>m. MimeTypeToFormat (clean_mime m) \<noteq> None) ms of
        Some m \<Rightarrow> the (MimeTypeToFormat (clean_mime m))
      | None \<Rightarrow> if w \<or> (\<exists>m \<in> set ms. clean_mime m = ''*'') then DefaultSerializationFormat else AUTO)"
  by (induction w ms rule: accept_loop.induct) (auto split: option.splits)

lemma FormatFromAccept_mime:
  "FormatToMimeType format = Some m \<Longrightarrow> FormatFromAccept m = format"
proof -
  assume "FormatToMimeType format = Some m"
  then consider "format = CBOR" "m = ''application/cbor''" | "format = JSON" "m = ''application/json''"
    | "format = MsgPack" "m = ''application/msgpack''" | "format = YAML" "m = ''application/yaml''"
    by (auto simp: FormatToMimeType_def split: if_splits)
  then show ?thesis
  proof cases
    case 1
    have "FormatFromAccept ''application/cbor'' = CBOR" by code_simp
    with 1 show ?thesis by simp
  next
    case 2
    have "FormatFromAccept ''application/json'' = JSON" by code_simp
    with 2 show ?thesis by simp
  next
    case 3
    have "FormatFromAccept ''application/msgpack'' = MsgPack" by code_simp
    with 3 show ?thesis by simp
  next
    case 4
    have "FormatFromAccept ''application/yaml'' = YAML" by code_simp
    with 4 show ?thesis by simp
  qed
qed

subsection \<open>Properties\<close>

text \<open>
  C38. For every serialisation format that names its serialiser, what \<open>Dump\<close> writes \<open>Load\<close>
  reads back, with the format, and so it does through \<open>DumpAndCompress\<close>, for any serialisers
  and compressor that read back what they wrote.
\<close>

theorem dsd_roundtrip:
  assumes "lib_laws lib" "format \<in> {CBOR, GenCode, JSON, MsgPack, YAML}"
  shows "(Dump lib v format = Inr bs \<longrightarrow> Load lib bs t = (format, Inr v)) \<and>
    (DumpAndCompress lib v format compression = Inr bs \<longrightarrow> Load lib bs t = (format, Inr v))"
proof (intro conjI impI)
  assume "Dump lib v format = Inr bs"
  then show "Load lib bs t = (format, Inr v)"
    using Load_Dump [of lib format v bs t] assms by (auto simp: lib_laws_def)
next
  assume d: "DumpAndCompress lib v format compression = Inr bs"
  then obtain data packed where data: "Dump lib v format = Inr data"
    and packed: "gzip_compress lib data = Inr packed" and bs: "bs = Pack8 GZIP @ packed"
    by (auto simp: DumpAndCompress_def ValidateCompressionFormat_def DefaultCompressionFormat_def
        split: sum.splits if_splits)
  have inner: "loadFormat data = Inr (format, 1)" "LoadAsFormat lib (drop 1 data) format t = Inr v"
    using Load_Dump [OF _ _ assms(2) data, of t] assms(1) by (auto simp: lib_laws_def)
  have gz: "packed \<noteq> []" "gzip_decompress lib packed = Inr data"
    using assms(1) packed by (auto simp: lib_laws_def gzip_law_def)
  have "loadFormat bs = Inr (GZIP, 1)" using loadFormat_small [OF _ gz(1), of GZIP] bs by simp
  moreover have "drop 1 bs = packed" by (simp add: bs Pack8_def)
  ultimately show "Load lib bs t = (format, Inr v)"
    using inner gz
    by (simp add: Load_def ValidateSerializationFormat_def DecompressAndLoad_def
        ValidateCompressionFormat_def)
qed

text \<open>
  The serialisers of the witnesses: values are byte strings, JSON prefixes them with a
  byte, GenCode with another, and the compressor with a third.
\<close>

definition tagged :: "byte \<Rightarrow> bytes \<Rightarrow> bytes res" where
  "tagged b v = Inr (b # v)"

definition untag :: "byte \<Rightarrow> bytes \<Rightarrow> bytes \<Rightarrow> bytes res" where
  "untag b d t = (case d of [] \<Rightarrow> Inl ErrUnexpectedEOF | x # xs \<Rightarrow> if x = b then Inr xs else Inl ErrUnexpectedEOF)"

definition sample_lib :: "bytes dsd_lib" where
  "sample_lib = \<lparr>json_Marshal = tagged 1, json_MarshalIndent = (\<lambda>v _. tagged 1 v),
     json_Unmarshal = untag 1, yaml_Marshal = tagged 2, yaml_Unmarshal = untag 2,
     cbor_Marshal = tagged 3, cbor_Unmarshal = untag 3, msgpack_Marshal = tagged 4,
     msgpack_Unmarshal = untag 4, as_bytes = Some, as_gencode_Marshal = (\<lambda>v. Some (tagged 5 v)),
     as_gencode_Unmarshal = (\<lambda>t. Some (\<lambda>d. map_sum id (\<lambda>v. (v, length d)) (untag 5 d t))),
     gzip_compress = tagged 6, gzip_decompress = (\<lambda>d. untag 6 d [])\<rparr>"

lemma sample_lib_laws: "lib_laws sample_lib"
  by (auto simp: lib_laws_def text_codec_laws_def codec_law_def gencode_law_def gzip_law_def
      sample_lib_def tagged_def untag_def)

theorem dsd_roundtrip_witness:
  "Load sample_lib [90, 6, 74, 1, 8, 9] [] = (JSON, Inr [8, 9])"
  using dsd_roundtrip [OF sample_lib_laws, of JSON "[8, 9]" "[90, 6, 74, 1, 8, 9]" "[]" AUTO]
  by (simp add: DumpAndCompress_def ValidateCompressionFormat_def DefaultCompressionFormat_def
      Dump_def DumpIndent_def dumpWithoutIdentifier_def ValidateSerializationFormat_def Pack8_def
      sample_lib_def tagged_def)

text \<open>
  \<open>Dump\<close> with the format AUTO writes JSON data behind the identifier AUTO, and \<open>Load\<close>
  refuses it: the identifier is a valid serialisation format, but no serialiser is chosen for
  it.
\<close>

theorem Dump_AUTO_not_loadable:
  assumes "json_Marshal lib v = Inr d" "d \<noteq> []"
  shows "Dump lib v AUTO = Inr (AUTO # d) \<and> Load lib (AUTO # d) t = (AUTO, Inl ErrIncompatibleFormat)"
proof -
  have "Dump lib v AUTO = Inr (AUTO # d)"
    using assms by (simp add: Dump_def DumpIndent_def dumpWithoutIdentifier_def
        ValidateSerializationFormat_def DefaultSerializationFormat_def Pack8_def)
  moreover have "loadFormat (AUTO # d) = Inr (AUTO, 1)"
    using loadFormat_small [of AUTO d] assms(2) by (simp add: Pack8_def)
  ultimately show ?thesis by (simp add: Load_def ValidateSerializationFormat_def LoadAsFormat_def)
qed

theorem Dump_AUTO_not_loadable_witness:
  "Load sample_lib [0, 1, 8] [] = (AUTO, Inl ErrIncompatibleFormat)"
  using Dump_AUTO_not_loadable [of sample_lib "[8]" "[1, 8]" "[]"]
  by (simp add: sample_lib_def tagged_def)

text \<open>
  \<open>FormatFromAccept\<close> does what its comment says: the empty header gives the default
  format; otherwise the first supported type of the list decides; if none is supported, a
  wildcard anywhere gives the default format and its absence AUTO.
\<close>

theorem FormatFromAccept_spec:
  "FormatFromAccept accept =
     (if accept = [] then JSON
      else case List.find (\<lambda>m. MimeTypeToFormat (clean_mime m) \<noteq> None) (Split CHR '','' accept) of
        Some m \<Rightarrow> the (MimeTypeToFormat (clean_mime m))
      | None \<Rightarrow>
          if \<exists>m \<in> set (Split CHR '','' accept). clean_mime m = ''*'' then JSON else AUTO)"
  by (auto simp: FormatFromAccept_def accept_loop_find DefaultSerializationFormat_def split: option.split)

text \<open>
  A value dumped to an HTTP request is loaded back from it by way of its content type;
  the response of \<open>DumpToHTTPResponse\<close> carries the serialised value but an empty content
  type, since \<open>MimeDump\<close> never sets its result.
\<close>

theorem http_roundtrip:
  assumes "text_codec_laws lib"
  shows "(DumpToHTTPRequest lib r v format = (None, r') \<longrightarrow>
      loadFromHTTP lib (Inr (http_body r')) (header_get r' ''Content-Type'') t = (format, Inr v)) \<and>
    (DumpToHTTPResponse lib w r v = (None, w') \<longrightarrow> header_get w' ''Content-Type'' = [])"
proof (intro conjI impI)
  assume "DumpToHTTPRequest lib r v format = (None, r')"
  then obtain m data where m: "FormatToMimeType format = Some m"
    and data: "dumpWithoutIdentifier lib v format [] = Inr data"
    and r': "http_body r' = data" "header_get r' ''Content-Type'' = m"
    by (auto simp: DumpToHTTPRequest_def RequestHTTPResponseFormat_def header_set_def header_get_def
        split: option.splits sum.splits)
  have f: "format \<in> {CBOR, GenCode, JSON, MsgPack, YAML}" "format \<noteq> GenCode" "format \<noteq> 0"
    using m by (auto simp: FormatToMimeType_def split: if_splits)
  have "LoadAsFormat lib data format t = Inr v"
    using load_dumped [OF assms _ f(1) data] f(2) by blast
  then show "loadFromHTTP lib (Inr (http_body r')) (header_get r' ''Content-Type'') t = (format, Inr v)"
    using f(3) r' by (simp add: loadFromHTTP_def MimeLoad_def FormatFromAccept_mime [OF m])
next
  assume "DumpToHTTPResponse lib w r v = (None, w')"
  then show "header_get w' ''Content-Type'' = []"
    by (auto simp: DumpToHTTPResponse_def MimeDump_def header_set_def header_get_def Let_def
        split: prod.splits sum.splits if_splits)
qed

theorem http_roundtrip_witness:
  "loadFromHTTP sample_lib (Inr [2, 7]) ''application/yaml'' [] = (YAML, Inr [7])"
proof -
  have laws: "text_codec_laws sample_lib" using sample_lib_laws by (simp add: lib_laws_def)
  let ?r = "\<lparr>http_header = Map.empty, http_body = []\<rparr>"
  show ?thesis
    using http_roundtrip [OF laws, of ?r "[7]" YAML "snd (DumpToHTTPRequest sample_lib ?r [7] YAML)" "[]"]
    by (simp add: DumpToHTTPRequest_def RequestHTTPResponseFormat_def FormatToMimeType_def
        dumpWithoutIdentifier_def ValidateSerializationFormat_def sample_lib_def tagged_def
        header_set_def header_get_def)
qed

end
