(* ===== verification/Db_Record.thy ===== *)
theory Db_Record
  imports Container Dsd
begin

section \<open>Database records: database/record\<close>

text \<open>
  \<open>database/record/meta.go\<close>, \<open>meta-gencode.go\<close>, \<open>key.go\<close>, \<open>base.go\<close> and \<open>wrapper.go\<close>.
  The four times of the metadata are \<open>int64\<close>s, read as signed numbers of seconds; the clock
  \<open>time.Now().Unix()\<close> is the argument \<open>now\<close> of the operations that read it. A \<open>*Meta\<close> that
  may be \<open>nil\<close> is an option.
\<close>

subsection \<open>meta.go\<close>

record meta =
  Created :: int64
  Modified :: int64
  Expires :: int64
  Deleted :: int64
  secret :: bool
  cronjewel :: bool

definition zero_meta :: meta where
  "zero_meta = \<lparr>Created = 0, Modified = 0, Expires = 0, Deleted = 0, secret = False, cronjewel = False\<rparr>"

definition SetAbsoluteExpiry :: "int64 \<Rightarrow> meta \<Rightarrow> meta" where
  "SetAbsoluteExpiry seconds m = m\<lparr>Expires := seconds, Deleted := 0\<rparr>"

definition SetRelativateExpiry :: "int64 \<Rightarrow> meta \<Rightarrow> meta" where
  "SetRelativateExpiry seconds m = (if 0 \<le> sint seconds then m\<lparr>Deleted := - seconds\<rparr> else m)"

definition GetAbsoluteExpiry :: "meta \<Rightarrow> int64" where
  "GetAbsoluteExpiry m = Expires m"

definition GetRelativeExpiry :: "int64 \<Rightarrow> meta \<Rightarrow> int64" where
  "GetRelativeExpiry now m =
     (if Expires m = 0 then - 1
      else let abs = Expires m - now in if sint abs < 0 then 0 else abs)"

definition MakeCrownJewel :: "meta \<Rightarrow> meta" where
  "MakeCrownJewel m = m\<lparr>cronjewel := True\<rparr>"

definition MakeSecret :: "meta \<Rightarrow> meta" where
  "MakeSecret m = m\<lparr>secret := True\<rparr>"

definition Update :: "int64 \<Rightarrow> meta \<Rightarrow> meta" where
  "Update now m =
     (let m1 = m\<lparr>Modified := now\<rparr>;
          m2 = (if Created m1 = 0 then m1\<lparr>Created := now\<rparr> else m1) in
      if sint (Deleted m2) < 0 then m2\<lparr>Expires := now - Deleted m2\<rparr> else m2)"

definition Reset :: "meta \<Rightarrow> meta" where
  "Reset m = m\<lparr>Created := 0, Modified := 0, Expires := 0, Deleted := 0\<rparr>"

definition Delete_meta :: "int64 \<Rightarrow> meta \<Rightarrow> meta" where
  "Delete_meta now m = m\<lparr>Deleted := now\<rparr>"

definition IsDeleted :: "meta \<Rightarrow> bool" where
  "IsDeleted m \<longleftrightarrow> 0 < sint (Deleted m)"

definition CheckValidity :: "int64 \<Rightarrow> meta option \<Rightarrow> bool" where
  "CheckValidity now mo =
     (case mo of
        None \<Rightarrow> False
      | Some m \<Rightarrow>
          if 0 < sint (Deleted m) then False
          else if 0 < sint (Expires m) \<and> sint (Expires m) < sint now then False
          else True)"

definition CheckPermission :: "bool \<Rightarrow> bool \<Rightarrow> meta option \<Rightarrow> bool" where
  "CheckPermission local internal mo =
     (case mo of
        None \<Rightarrow> False
      | Some m \<Rightarrow>
          if \<not> local \<and> cronjewel m then False
          else if \<not> internal \<and> secret m then False
          else True)"

definition Duplicate :: "meta \<Rightarrow> meta" where
  "Duplicate m = \<lparr>Created = Created m, Modified = Modified m, Expires = Expires m,
     Deleted = Deleted m, secret = secret m, cronjewel = cronjewel m\<rparr>"

subsection \<open>meta-gencode.go\<close>

definition GenCodeSize :: nat where
  "GenCodeSize = 34"

text \<open>\<open>byte(x >> 8k)\<close> for \<open>k = 0..7\<close>; the shift of an \<open>int64\<close> is arithmetic.\<close>

definition put_int64 :: "int64 \<Rightarrow> bytes" where
  "put_int64 x = map (\<lambda>k. ucast (signed_drop_bit (8 * k) x)) [0..<8]"

definition get_int64 :: "bytes \<Rightarrow> int64" where
  "get_int64 buf = foldl (\<lambda>acc k. acc OR push_bit (8 * k) (ucast (buf ! k))) 0 [0..<8]"

text \<open>The given buffer only provides storage: all 34 bytes of the result are written.\<close>

definition GenCodeMarshal :: "meta \<Rightarrow> bytes res" where
  "GenCodeMarshal m =
     Inr (put_int64 (Created m) @ put_int64 (Modified m) @ put_int64 (Expires m) @
          put_int64 (Deleted m) @ [if secret m then 1 else 0] @ [if cronjewel m then 1 else 0])"

definition GenCodeUnmarshal :: "bytes \<Rightarrow> (meta \<times> nat) res" where
  "GenCodeUnmarshal buf =
     (if length buf < GenCodeSize
      then Inl (ErrNew (''insufficient data: got '' @ print_nat (length buf) @ '' out of 34 bytes''))
      else Inr (\<lparr>Created = get_int64 buf, Modified = get_int64 (drop 8 buf),
                 Expires = get_int64 (drop 16 buf), Deleted = get_int64 (drop 24 buf),
                 secret = (buf ! 32 = 1), cronjewel = (buf ! 33 = 1)\<rparr>, 34))"

subsection \<open>key.go and base.go\<close>

definition ParseKey :: "string \<Rightarrow> string \<times> string" where
  "ParseKey key =
     (let splitted = SplitN2 CHR '':'' key in
      if length splitted < 2 then (splitted ! 0, [])
      else (splitted ! 0, Join '':'' (drop 1 splitted)))"

record base =
  dbName :: string
  dbKey :: string
  bmeta :: "meta option"

definition KeyIsSet :: "base \<Rightarrow> bool" where
  "KeyIsSet b \<longleftrightarrow> dbName b \<noteq> []"

definition Key :: "base \<Rightarrow> string" where
  "Key b = dbName b @ '':'' @ dbKey b"

definition SetKey :: "string \<Rightarrow> base \<Rightarrow> base" where
  "SetKey key b =
     (if \<not> KeyIsSet b then b\<lparr>dbName := fst (ParseKey key), dbKey := snd (ParseKey key)\<rparr> else b)"

definition ResetKey :: "base \<Rightarrow> base" where
  "ResetKey b = b\<lparr>dbName := [], dbKey := []\<rparr>"

definition CreateMeta :: "base \<Rightarrow> base" where
  "CreateMeta b = b\<lparr>bmeta := Some zero_meta\<rparr>"

definition UpdateMeta :: "int64 \<Rightarrow> base \<Rightarrow> base" where
  "UpdateMeta now b =
     (let b1 = (if bmeta b = None then CreateMeta b else b) in
      b1\<lparr>bmeta := map_option (Update now) (bmeta b1)\<rparr>)"

definition SetMeta :: "meta option \<Rightarrow> base \<Rightarrow> base" where
  "SetMeta m b = b\<lparr>bmeta := m\<rparr>"

definition err_missing_meta :: goerr where
  "err_missing_meta = ErrNew ''missing meta''"

text \<open>The serialisers of \<open>*Meta\<close>: GenCode is the code above, the others are the library's.\<close>

definition meta_lib :: "meta dsd_lib \<Rightarrow> meta dsd_lib" where
  "meta_lib lib = lib\<lparr>as_bytes := (\<lambda>_. None),
     as_gencode_Marshal := (\<lambda>m. Some (GenCodeMarshal m)),
     as_gencode_Unmarshal := (\<lambda>_. Some GenCodeUnmarshal)\<rparr>"

definition Base_Marshal :: "'v dsd_lib \<Rightarrow> base \<Rightarrow> 'v \<Rightarrow> uint8 \<Rightarrow> bytes res" where
  "Base_Marshal lib b self format =
     (case bmeta b of
        None \<Rightarrow> Inl err_missing_meta
      | Some m \<Rightarrow>
          if 0 < sint (Deleted m) then Inr []
          else Dump lib self format)"

text \<open>
  Version, metadata block and data section, compiled from a container: the common part of
  \<open>Base.MarshalRecord\<close> and \<open>Wrapper.MarshalRecord\<close>, which differ in the data section.
\<close>

definition marshal_record_with :: "meta dsd_lib \<Rightarrow> meta option \<Rightarrow> bytes res \<Rightarrow> bytes res" where
  "marshal_record_with mlib mo dataSection =
     (case mo of
        None \<Rightarrow> Inl err_missing_meta
      | Some m \<Rightarrow>
          (case Dump (meta_lib mlib) m GenCode of
             Inl e \<Rightarrow> Inl e
           | Inr metaSection \<Rightarrow>
               (case AppendAsBlock (New [[1]]) metaSection of
                  Inl e \<Rightarrow> Inl e
                | Inr c \<Rightarrow>
                    (case dataSection of
                       Inl e \<Rightarrow> Inl e
                     | Inr data \<Rightarrow> map_sum id fst (CompileData (Append c data))))))"

definition Base_MarshalRecord :: "meta dsd_lib \<Rightarrow> 'v dsd_lib \<Rightarrow> base \<Rightarrow> 'v \<Rightarrow> bytes res" where
  "Base_MarshalRecord mlib lib b self = marshal_record_with mlib (bmeta b) (Base_Marshal lib b self JSON)"

subsection \<open>wrapper.go\<close>

record wrapper =
  wbase :: base
  Format :: uint8
  Data :: bytes

definition NewWrapper :: "string \<Rightarrow> meta option \<Rightarrow> uint8 \<Rightarrow> bytes \<Rightarrow> wrapper" where
  "NewWrapper key m format data =
     \<lparr>wbase = \<lparr>dbName = fst (ParseKey key), dbKey = snd (ParseKey key), bmeta = m\<rparr>,
      Format = format, Data = data\<rparr>"

definition NewRawWrapper :: "meta dsd_lib \<Rightarrow> string \<Rightarrow> string \<Rightarrow> bytes \<Rightarrow> wrapper res" where
  "NewRawWrapper mlib db key data =
     (case Unpack8 data of
        Inl e \<Rightarrow> Inl e
      | Inr (version, offset1) \<Rightarrow>
          if version \<noteq> 1
          then Inl (ErrNew (''incompatible record version: '' @ print_nat (unat version)))
          else
            (case GetNextBlock (drop offset1 data) of
               Inl e \<Rightarrow> Inl (ErrWrap ''could not get meta section'' e)
             | Inr (metaSection, n1) \<Rightarrow>
                 (case Load (meta_lib mlib) metaSection zero_meta of
                    (_, Inl e) \<Rightarrow> Inl (ErrWrap ''could not unmarshal meta section'' e)
                  | (_, Inr newMeta) \<Rightarrow>
                      (let b = \<lparr>dbName = db, dbKey = key, bmeta = Some newMeta\<rparr>;
                           offset2 = offset1 + n1 in
                       if \<not> IsDeleted newMeta then
                         (case Unpack8 (drop offset2 data) of
                            Inl e \<Rightarrow> Inl (ErrWrap ''could not get dsd format'' e)
                          | Inr (format, n2) \<Rightarrow>
                              Inr \<lparr>wbase = b, Format = format, Data = drop (offset2 + n2) data\<rparr>)
                       else Inr \<lparr>wbase = b, Format = RAW, Data = drop offset2 data\<rparr>))))"

definition Wrapper_Marshal :: "wrapper \<Rightarrow> uint8 \<Rightarrow> bytes res" where
  "Wrapper_Marshal w format =
     (case bmeta (wbase w) of
        None \<Rightarrow> Inl err_missing_meta
      | Some m \<Rightarrow>
          if 0 < sint (Deleted m) then Inr []
          else if format \<noteq> AUTO \<and> format \<noteq> Format w
            then Inl (ErrNew ''could not dump model, wrapped object format mismatch'')
          else Inr (Format w # Data w))"

definition Wrapper_MarshalRecord :: "meta dsd_lib \<Rightarrow> wrapper \<Rightarrow> bytes res" where
  "Wrapper_MarshalRecord mlib w =
     marshal_record_with mlib (bmeta (wbase w)) (Wrapper_Marshal w AUTO)"

text \<open>
  \<open>Unwrap\<close> loads the data into the record \<open>r\<close>, given as its base and its value, and then
  takes over key and metadata.
\<close>

definition Unwrap :: "'v dsd_lib \<Rightarrow> wrapper \<Rightarrow> base \<times> 'v \<Rightarrow> (base \<times> 'v) res" where
  "Unwrap lib wrapped r =
     (case LoadAsFormat lib (Data wrapped) (Format wrapped) (snd r) of
        Inl e \<Rightarrow> Inl (ErrWrap ''failed to unwrap'' e)
      | Inr v \<Rightarrow> Inr (SetMeta (bmeta (wbase wrapped)) (SetKey (Key (wbase wrapped)) (fst r)), v))"

subsection \<open>The GenCode metadata is a self-delimiting encoding\<close>

lemma length_put_int64 [simp]: "length (put_int64 x) = 8"
  by (simp add: put_int64_def)

lemma bit_byte_of_int64:
  "k < 8 \<Longrightarrow> bit (ucast (signed_drop_bit (8 * k) (x :: int64)) :: byte) j \<longleftrightarrow> j < 8 \<and> bit x (8 * k + j)"
  by (auto simp: bit_simps)

lemma bit_collect_bytes:
  assumes "\<And>k. k \<in> set ks \<Longrightarrow> k < 8"
  shows "bit (foldl (\<lambda>acc k. acc OR push_bit (8 * k) (ucast (put_int64 x ! k))) acc0 ks :: int64) n \<longleftrightarrow>
    bit acc0 n \<or> (n < 64 \<and> (\<exists>k \<in> set ks. k = n div 8) \<and> bit x n)"
  using assms
proof (induction ks arbitrary: acc0)
  case Nil
  then show ?case by simp
next
  case (Cons k ks)
  have k: "k < 8" using Cons.prems by simp
  then have "put_int64 x ! k = ucast (signed_drop_bit (8 * k) x)"
    by (simp add: put_int64_def del: upt_Suc)
  then have "bit (push_bit (8 * k) (ucast (put_int64 x ! k)) :: int64) n \<longleftrightarrow>
      8 * k \<le> n \<and> n < 64 \<and> n - 8 * k < 8 \<and> bit x (8 * k + (n - 8 * k))"
    using bit_byte_of_int64 [OF k, of x "n - 8 * k"]
    by (simp only: bit_push_bit_iff bit_unsigned_iff) auto
  also have "\<dots> \<longleftrightarrow> n < 64 \<and> k = n div 8 \<and> bit x n"
    by (cases "8 * k \<le> n") auto
  finally show ?case using Cons by (auto simp: bit_or_iff)
qed

lemma get_put_int64: "get_int64 (put_int64 x @ rest) = x"
proof -
  have nth: "(put_int64 x @ rest) ! k = put_int64 x ! k" if "k < 8" for k
    using that by (simp add: nth_append)
  have "get_int64 (put_int64 x @ rest) =
      foldl (\<lambda>acc k. acc OR push_bit (8 * k) (ucast (put_int64 x ! k))) 0 [0..<8]"
    unfolding get_int64_def by (rule foldl_cong) (auto simp: nth)
  also have "\<dots> = x"
  proof (rule bit_word_eqI)
    fix n :: nat
    assume "n < LENGTH(64)"
    then have "\<exists>k \<in> set [0..<8]. k = n div 8" by auto
    with \<open>n < LENGTH(64)\<close> bit_collect_bytes [of "[0..<8]" x 0 n]
    show "bit (foldl (\<lambda>acc k. acc OR push_bit (8 * k) (ucast (put_int64 x ! k))) (0 :: int64) [0..<8]) n
        = bit x n"
      by (simp del: upt_Suc bit_push_bit_iff)
  qed
  finally show ?thesis .
qed

lemma GenCodeUnmarshal_Marshal:
  "\<exists>bs. GenCodeMarshal m = Inr bs \<and> length bs = 34 \<and> GenCodeUnmarshal (bs @ rest) = Inr (m, 34)"
proof -
  let ?flags = "[if secret m then 1 else 0, if cronjewel m then 1 else 0 :: byte]"
  have d: "drop 8 (put_int64 x @ ys) = ys" for x ys by simp
  have d16: "drop 16 xs = drop 8 (drop 8 xs)" and d24: "drop 24 xs = drop 8 (drop 8 (drop 8 xs))"
    for xs :: bytes by simp_all
  have n: "(put_int64 a @ put_int64 b @ put_int64 c @ put_int64 e @ ys) ! (32 + k) = ys ! k" for a b c e ys k
    by (simp add: nth_append)
  show ?thesis
    unfolding GenCodeMarshal_def GenCodeUnmarshal_def GenCodeSize_def d16 d24
    using n [of "Created m" "Modified m" "Expires m" "Deleted m" "?flags @ rest" 0]
      n [of "Created m" "Modified m" "Expires m" "Deleted m" "?flags @ rest" 1]
    by (simp add: d get_put_int64 del: drop_append)
qed

interpretation gencode: self_delimiting "\<lambda>_. True" "\<lambda>m. projr (GenCodeMarshal m)" GenCodeUnmarshal
proof
  fix m :: meta and rest
  show "GenCodeUnmarshal (projr (GenCodeMarshal m) @ rest) = Inr (m, length (projr (GenCodeMarshal m)))"
    using GenCodeUnmarshal_Marshal [of m rest] by auto
qed

lemma Dump_meta:
  "\<exists>bs. GenCodeMarshal m = Inr bs \<and> length bs = 34 \<and> Dump (meta_lib lib) m GenCode = Inr (GenCode # bs) \<and>
     Load (meta_lib lib) (GenCode # bs) t = (GenCode, Inr m)"
proof -
  obtain bs where bs: "GenCodeMarshal m = Inr bs" "length bs = 34" "GenCodeUnmarshal bs = Inr (m, 34)"
    using GenCodeUnmarshal_Marshal [of m "[]"] by auto
  then have "loadFormat (GenCode # bs) = Inr (GenCode, 1)"
    using loadFormat_small [of GenCode bs] by (cases bs) (simp_all add: Pack8_def)
  with bs show ?thesis
    by (simp add: Dump_def DumpIndent_def dumpWithoutIdentifier_def ValidateSerializationFormat_def
        meta_lib_def unpack_with_def Pack8_def Load_def LoadAsFormat_def)
qed

subsection \<open>The record format\<close>

lemma marshal_record_eq:
  assumes "GenCodeMarshal m = Inr mb"
  shows "marshal_record_with mlib (Some m) (Inr data) =
    Inr (1 # uvarint_bytes (of_nat (length (GenCode # mb))) @ (GenCode # mb) @ data)"
proof -
  have dump: "Dump (meta_lib mlib) m GenCode = Inr (GenCode # mb)"
    using Dump_meta [of m mlib zero_meta] assms by auto
  obtain c where c: "AppendAsBlock (New [[1]]) (GenCode # mb) = Inr c" "cinv c"
      "cdata c = [1] @ uvarint_bytes (of_nat (length (GenCode # mb))) @ GenCode # mb"
    using AppendAsBlock_ok [of "New [[1]]" "GenCode # mb"] by auto
  have "\<exists>c'. CompileData (Append c data) = Inr (cdata c @ data, c')"
    using CompileData_total [OF cinv_Append [OF c(2)]] c(2) by (auto simp: cdata_Append)
  with c dump show ?thesis by (auto simp: marshal_record_with_def)
qed

lemma NewRawWrapper_eq:
  assumes "GenCodeMarshal m = Inr mb"
  shows "NewRawWrapper mlib db key
      (1 # uvarint_bytes (of_nat (length (GenCode # mb))) @ (GenCode # mb) @ data) =
    (let b = \<lparr>dbName = db, dbKey = key, bmeta = Some m\<rparr> in
     if IsDeleted m then Inr \<lparr>wbase = b, Format = RAW, Data = data\<rparr>
     else case Unpack8 data of
        Inl e \<Rightarrow> Inl (ErrWrap ''could not get dsd format'' e)
      | Inr (format, n) \<Rightarrow> Inr \<lparr>wbase = b, Format = format, Data = drop n data\<rparr>)"
proof -
  let ?sec = "GenCode # mb" and ?pre = "uvarint_bytes (of_nat (length (GenCode # mb)))"
  have len: "length mb = 34" and load: "Load (meta_lib mlib) ?sec zero_meta = (GenCode, Inr m)"
    using Dump_meta [of m mlib zero_meta] assms by auto
  then have "block_fits ?sec" by (simp add: block_fits_def)
  then have blk: "GetNextBlock (?pre @ ?sec @ data) = Inr (?sec, length ?pre + length ?sec)"
    by (rule GetNextBlock_bytes)
  have un: "Unpack8 (1 # ?pre @ ?sec @ data) = Inr (1, 1)"
    using Unpack8_Pack8 [of 1 "?pre @ ?sec @ data"] by (simp add: Pack8_def)
  have dr: "drop (1 + (length ?pre + length ?sec) + n) (1 # ?pre @ ?sec @ data) = drop n data" for n
    by simp
  show ?thesis
    using dr [of 0] dr
    by (simp only: NewRawWrapper_def un blk load sum.case prod.case Let_def drop_Suc_Cons drop_0 One_nat_def)
      (auto split: sum.splits)
qed

text \<open>
  The 34 bytes of \<open>GenCodeMarshal\<close> hold the metadata exactly: \<open>GenCodeUnmarshal\<close> reads
  them back whatever follows, and refuses anything shorter.
\<close>

theorem gencode_meta_roundtrip:
  "(\<exists>bs. GenCodeMarshal m = Inr bs \<and> length bs = GenCodeSize \<and>
      GenCodeUnmarshal (bs @ rest) = Inr (m, GenCodeSize)) \<and>
   (isl (GenCodeUnmarshal buf) \<longleftrightarrow> length buf < GenCodeSize)"
  using GenCodeUnmarshal_Marshal [of m rest] by (auto simp: GenCodeSize_def GenCodeUnmarshal_def)

text \<open>
  C1. A wrapped record that is not deleted survives storage: \<open>NewRawWrapper\<close> on the bytes of
  \<open>MarshalRecord\<close> rebuilds the same wrapper, metadata, format and data included, for every
  format identifier below 128 (all that exist). Of a deleted record the metadata survives
  and the data is dropped.
\<close>

theorem wrapper_record_roundtrip:
  assumes "bmeta (wbase w) = Some m" "Format w < 128"
  shows "\<exists>bs. Wrapper_MarshalRecord mlib w = Inr bs \<and>
    NewRawWrapper mlib (dbName (wbase w)) (dbKey (wbase w)) bs =
      Inr (if IsDeleted m then w\<lparr>Format := RAW, Data := []\<rparr> else w)"
proof -
  obtain mb where mb: "GenCodeMarshal m = Inr mb" using Dump_meta by blast
  have b: "\<lparr>dbName = dbName (wbase w), dbKey = dbKey (wbase w), bmeta = Some m\<rparr> = wbase w"
    using assms(1) by simp
  show ?thesis
  proof (cases "IsDeleted m")
    case True
    then have "Wrapper_Marshal w AUTO = Inr []"
      using assms(1) by (simp add: Wrapper_Marshal_def IsDeleted_def)
    then show ?thesis
      using True marshal_record_eq [OF mb, of mlib "[]"] NewRawWrapper_eq [OF mb, of mlib _ _ "[]"] b assms(1)
      by (simp add: Wrapper_MarshalRecord_def)
  next
    case False
    then have "Wrapper_Marshal w AUTO = Inr (Format w # Data w)"
      using assms(1) by (simp add: Wrapper_Marshal_def IsDeleted_def)
    moreover have "Unpack8 (Format w # Data w) = Inr (Format w, 1)"
      using assms(2) by (simp add: Unpack8_def)
    ultimately show ?thesis
      using False marshal_record_eq [OF mb, of mlib "Format w # Data w"]
        NewRawWrapper_eq [OF mb, of mlib _ _ "Format w # Data w"] b assms(1)
      by (simp add: Wrapper_MarshalRecord_def)
  qed
qed

definition sample_meta :: meta where
  "sample_meta = \<lparr>Created = 5, Modified = 6, Expires = 0, Deleted = 0, secret = True, cronjewel = False\<rparr>"

definition sample_wrapper :: wrapper where
  "sample_wrapper = \<lparr>wbase = \<lparr>dbName = ''core'', dbKey = ''a/b'', bmeta = Some sample_meta\<rparr>,
     Format = JSON, Data = [123, 125]\<rparr>"

text \<open>Serialisers of metadata that are never called: only the GenCode fields are in use.\<close>

definition no_lib :: "meta dsd_lib" where
  "no_lib =
     (let fail = (\<lambda>_. Inl ErrIncompatibleFormat); fail2 = (\<lambda>_ _. Inl ErrIncompatibleFormat) in
      \<lparr>json_Marshal = fail, json_MarshalIndent = (\<lambda>_ _. Inl ErrIncompatibleFormat), json_Unmarshal = fail2,
       yaml_Marshal = fail, yaml_Unmarshal = fail2, cbor_Marshal = fail, cbor_Unmarshal = fail2,
       msgpack_Marshal = fail, msgpack_Unmarshal = fail2, as_bytes = (\<lambda>_. None),
       as_gencode_Marshal = (\<lambda>_. None), as_gencode_Unmarshal = (\<lambda>_. None),
       gzip_compress = (\<lambda>_. Inl ErrIncompatibleFormat), gzip_decompress = (\<lambda>_. Inl ErrIncompatibleFormat)\<rparr>)"

theorem wrapper_record_roundtrip_witness:
  "\<exists>bs. Wrapper_MarshalRecord no_lib sample_wrapper = Inr bs \<and>
    NewRawWrapper no_lib ''core'' ''a/b'' bs = Inr sample_wrapper"
  using wrapper_record_roundtrip [of sample_wrapper sample_meta no_lib]
  by (simp add: sample_wrapper_def sample_meta_def IsDeleted_def)

subsection \<open>Keys\<close>

lemma ParseKey_append: "CHR '':'' \<notin> set n \<Longrightarrow> ParseKey (n @ '':'' @ k) = (n, k)"
  by (simp add: ParseKey_def SplitN2_def Let_def takeWhile_append dropWhile_append)

lemma ParseKey_no_colon: "CHR '':'' \<notin> set n \<Longrightarrow> ParseKey n = (n, [])"
proof -
  assume "CHR '':'' \<notin> set n"
  then have "takeWhile (\<lambda>c. c \<noteq> CHR '':'') n = n" "dropWhile (\<lambda>c. c \<noteq> CHR '':'') n = []"
    by (auto simp: takeWhile_eq_all_conv)
  then show ?thesis by (simp add: ParseKey_def SplitN2_def)
qed

lemma ParseKey_name_no_colon: "CHR '':'' \<notin> set (fst (ParseKey key))"
  by (auto simp: ParseKey_def SplitN2_def Let_def dest: set_takeWhileD)

lemma ParseKey_Key:
  "CHR '':'' \<in> set key \<Longrightarrow> fst (ParseKey key) @ '':'' @ snd (ParseKey key) = key"
proof -
  assume "CHR '':'' \<in> set key"
  then have "dropWhile (\<lambda>c. c \<noteq> CHR '':'') key \<noteq> []" by (auto simp: dropWhile_eq_Nil_conv)
  then obtain c r where r: "dropWhile (\<lambda>c. c \<noteq> CHR '':'') key = c # r" by (meson neq_Nil_conv)
  then have "key = takeWhile (\<lambda>c. c \<noteq> CHR '':'') key @ c # r" "c = CHR '':''"
    by (auto simp only: dropWhile_eq_Cons_conv not_not)
  with r show ?thesis by (simp add: ParseKey_def SplitN2_def Let_def)
qed

text \<open>
  Database keys: a key with a colon is the concatenation of what \<open>ParseKey\<close> splits it
  into, at its first colon; a base whose key is set keeps it through every later
  \<open>SetKey\<close>, and on a fresh base \<open>SetKey\<close> makes \<open>Key\<close> return the key that was set.
\<close>

theorem key_roundtrip:
  assumes "CHR '':'' \<in> set key"
  shows "CHR '':'' \<notin> set (fst (ParseKey key)) \<and>
    fst (ParseKey key) @ '':'' @ snd (ParseKey key) = key \<and>
    (KeyIsSet b \<longrightarrow> SetKey key b = b) \<and>
    (\<not> KeyIsSet b \<longrightarrow> Key (SetKey key b) = key)"
  using ParseKey_Key [OF assms] by (simp add: ParseKey_name_no_colon SetKey_def Key_def)

theorem key_roundtrip_witness:
  "Key (SetKey ''core:a:b'' \<lparr>dbName = [], dbKey = [], bmeta = None\<rparr>) = ''core:a:b''"
  using key_roundtrip [of "''core:a:b''" "\<lparr>dbName = [], dbKey = [], bmeta = None\<rparr>"]
  by (simp add: KeyIsSet_def)

text \<open>
  C2. A struct record that is stored and then unwrapped into a fresh struct comes back with
  its value, its key and its metadata, for a JSON serialiser that reads back what it
  wrote.
\<close>

theorem struct_record_roundtrip:
  assumes "codec_law (json_Marshal lib) (json_Unmarshal lib)" "json_Marshal lib v = Inr d"
    and "bmeta b = Some m" "\<not> IsDeleted m" "CHR '':'' \<notin> set (dbName b)"
  shows "\<exists>bs w. Base_MarshalRecord mlib lib b v = Inr bs \<and>
    NewRawWrapper mlib (dbName b) (dbKey b) bs = Inr w \<and>
    Unwrap lib w (\<lparr>dbName = [], dbKey = [], bmeta = None\<rparr>, t) = Inr (b, v)"
proof -
  obtain mb where mb: "GenCodeMarshal m = Inr mb" using Dump_meta by blast
  have "Dump lib v JSON = Inr (JSON # d)"
    using assms(2) by (simp add: Dump_def DumpIndent_def dumpWithoutIdentifier_def
        ValidateSerializationFormat_def Pack8_def)
  then have "Base_Marshal lib b v JSON = Inr (JSON # d)"
    using assms(3,4) by (simp add: Base_Marshal_def IsDeleted_def)
  moreover have "Unpack8 (JSON # d) = Inr (JSON, 1)" by (simp add: Unpack8_def)
  ultimately have "Base_MarshalRecord mlib lib b v =
      Inr (1 # uvarint_bytes (of_nat (length (GenCode # mb))) @ (GenCode # mb) @ JSON # d)"
    and "NewRawWrapper mlib (dbName b) (dbKey b)
        (1 # uvarint_bytes (of_nat (length (GenCode # mb))) @ (GenCode # mb) @ JSON # d) =
      Inr \<lparr>wbase = b, Format = JSON, Data = d\<rparr>"
    using marshal_record_eq [OF mb, of mlib "JSON # d"] NewRawWrapper_eq [OF mb, of mlib _ _ "JSON # d"] assms(3,4)
    by (simp_all add: Base_MarshalRecord_def)
  moreover have "Unwrap lib \<lparr>wbase = b, Format = JSON, Data = d\<rparr> (\<lparr>dbName = [], dbKey = [], bmeta = None\<rparr>, t)
      = Inr (b, v)"
    using codec_lawD [OF assms(1,2), of t] ParseKey_append [OF assms(5), of "dbKey b"]
    by (simp add: Unwrap_def LoadAsFormat_def unpack_with_def SetKey_def KeyIsSet_def Key_def SetMeta_def)
  ultimately show ?thesis by blast
qed

theorem struct_record_roundtrip_witness:
  "\<exists>bs w. Base_MarshalRecord no_lib sample_lib (wbase sample_wrapper) [7] = Inr bs \<and>
    NewRawWrapper no_lib ''core'' ''a/b'' bs = Inr w \<and>
    Unwrap sample_lib w (\<lparr>dbName = [], dbKey = [], bmeta = None\<rparr>, []) = Inr (wbase sample_wrapper, [7])"
  using struct_record_roundtrip [of sample_lib "[7]" "[1, 7]" "wbase sample_wrapper" sample_meta no_lib "[]"]
    sample_lib_laws
  by (simp add: lib_laws_def text_codec_laws_def sample_wrapper_def sample_meta_def IsDeleted_def)
    (simp add: sample_lib_def tagged_def)

subsection \<open>Expiry\<close>

text \<open>
  A relative expiry counts from the last update: after \<open>SetRelativateExpiry\<close> with a
  positive number of seconds and \<open>Update\<close> at time \<open>now\<close>, the record is valid exactly until
  that many seconds later, and that is the remaining time \<open>GetRelativeExpiry\<close> reports;
  deleting it ends its validity at once. Stated for clocks and durations whose sum an
  \<open>int64\<close> holds.
\<close>

theorem relative_expiry:
  assumes "0 < sint now" "0 < sint ttl" "sint now + sint ttl < 2 ^ 63"
  shows "(let m' = Update now (SetRelativateExpiry ttl m) in
    (CheckValidity t (Some m') \<longleftrightarrow> sint t \<le> sint now + sint ttl) \<and>
    GetRelativeExpiry now m' = ttl \<and>
    \<not> CheckValidity t (Some (Delete_meta now m')))"
proof -
  let ?m = "Update now (SetRelativateExpiry ttl m)"
  have neg: "sint (- ttl) = - sint ttl" using assms(2) by (simp add: sint_minus_no_wrap)
  have e: "Expires ?m = now + ttl" and d: "sint (Deleted ?m) = - sint ttl"
    using assms(2) neg by (auto simp: Update_def SetRelativateExpiry_def Let_def)
  have s: "sint (now + ttl) = sint now + sint ttl"
    using assms by (intro sint_add_no_wrap) auto
  then have nz: "now + ttl \<noteq> 0" using assms by auto
  show ?thesis
    unfolding Let_def using e d s nz assms
    by (auto simp: CheckValidity_def GetRelativeExpiry_def Delete_meta_def)
qed

theorem relative_expiry_witness:
  "CheckValidity 160 (Some (Update 100 (SetRelativateExpiry 60 zero_meta))) \<and>
   \<not> CheckValidity 161 (Some (Update 100 (SetRelativateExpiry 60 zero_meta)))"
  using relative_expiry [of 100 60 zero_meta 160] relative_expiry [of 100 60 zero_meta 161]
  by (simp add: Let_def)

text \<open>
  Protection flags are never lost: no metadata operation clears the secret or the crown
  jewel flag, and an actor that is neither local nor internal is refused every record
  that carries one of them.
\<close>

theorem protection_flags_kept:
  assumes "m' \<in> {SetAbsoluteExpiry s m, SetRelativateExpiry s m, MakeCrownJewel m, MakeSecret m,
    Update now m, Reset m, Delete_meta now m, Duplicate m}"
  shows "(secret m \<longrightarrow> secret m') \<and> (cronjewel m \<longrightarrow> cronjewel m') \<and>
    (secret m \<or> cronjewel m \<longrightarrow> \<not> CheckPermission False False (Some m'))"
proof -
  have "(secret m \<longrightarrow> secret m') \<and> (cronjewel m \<longrightarrow> cronjewel m')"
    using assms
    by (auto simp: SetAbsoluteExpiry_def SetRelativateExpiry_def MakeCrownJewel_def MakeSecret_def
        Update_def Reset_def Delete_meta_def Duplicate_def Let_def)
  then show ?thesis by (auto simp: CheckPermission_def)
qed

theorem protection_flags_kept_witness:
  "\<not> CheckPermission False False (Some (Update 9 sample_meta))"
  using protection_flags_kept [of "Update 9 sample_meta" 0 sample_meta 9] by (simp add: sample_meta_def)

end
