(* ===== verification/Storage.thy ===== *)
theory Storage
  imports Db_Record "HOL-Library.AList"
begin

section \<open>Storages: database/storage\<close>

text \<open>
  \<open>database/storage/interface.go\<close>, \<open>storages.go\<close>, \<open>injectbase.go\<close> and the storages
  \<open>hashmap\<close> and \<open>sinkhole\<close>. Records are shared between the caller, the caches and the in-memory
  storage, and their metadata are changed in place; so a \<open>record.Record\<close> is a reference \<open>ref\<close>
  into a heap of record objects. A storage of type \<open>'s\<close> is used through its interface, the record
  \<open>storage_api\<close>; the optional interfaces \<open>MetaHandler\<close> and \<open>Batcher\<close> are optional members. A
  query is known to a storage by its three tests, the record \<open>query_api\<close>.
\<close>

subsection \<open>Records in memory\<close>

type_synonym ref = nat

record 'd dbrec =
  rbase :: base
  rdata :: 'd

type_synonym 'd heap = "ref \<Rightarrow> 'd dbrec"

definition rMeta :: "'d heap \<Rightarrow> ref \<Rightarrow> meta option" where
  "rMeta h r = bmeta (rbase (h r))"

definition rDatabaseName :: "'d heap \<Rightarrow> ref \<Rightarrow> string" where
  "rDatabaseName h r = dbName (rbase (h r))"

definition rDatabaseKey :: "'d heap \<Rightarrow> ref \<Rightarrow> string" where
  "rDatabaseKey h r = dbKey (rbase (h r))"

definition rKey :: "'d heap \<Rightarrow> ref \<Rightarrow> string" where
  "rKey h r = Key (rbase (h r))"

definition set_meta :: "(meta option \<Rightarrow> meta option) \<Rightarrow> ref \<Rightarrow> 'd heap \<Rightarrow> 'd heap" where
  "set_meta f r h = h(r := (h r)\<lparr>rbase := (rbase (h r))\<lparr>bmeta := f (bmeta (rbase (h r)))\<rparr>\<rparr>)"

definition nil_panic :: goerr where
  "nil_panic = GoPanic ''invalid memory address or nil pointer dereference''"

lemma set_meta_simps [simp]:
  "rdata (set_meta f r h x) = rdata (h x)" "rKey (set_meta f r h) x = rKey h x"
  "rDatabaseKey (set_meta f r h) x = rDatabaseKey h x"
  "rDatabaseName (set_meta f r h) x = rDatabaseName h x"
  "rMeta (set_meta f r h) x = (if x = r then f (rMeta h r) else rMeta h x)"
  by (auto simp: set_meta_def rKey_def rDatabaseKey_def rDatabaseName_def rMeta_def Key_def)

subsection \<open>The storage interface\<close>

record 'd query_api =
  qCheck :: "goerr option"
  qDatabaseName :: string
  qMatchesKey :: "string \<Rightarrow> bool"
  qMatchesRecord :: "'d dbrec \<Rightarrow> bool"

text \<open>\<open>q.Matches(r)\<close>: the key and the condition.\<close>

definition qMatches :: "'d query_api \<Rightarrow> 'd dbrec \<Rightarrow> bool" where
  "qMatches q r \<longleftrightarrow> qMatchesKey q (dbKey (rbase r)) \<and> qMatchesRecord q r"

record ('d, 's) storage_api =
  sGet :: "string \<Rightarrow> 'd heap \<Rightarrow> 's \<Rightarrow> ('d heap \<times> ref) res"
  sGetMeta :: "(string \<Rightarrow> 'd heap \<Rightarrow> 's \<Rightarrow> meta option res) option"
  sPut :: "ref \<Rightarrow> 'd heap \<Rightarrow> 's \<Rightarrow> ('s \<times> ref option) res"
  sDelete :: "string \<Rightarrow> 's \<Rightarrow> 's res"
  sBatchPut :: "(bool \<Rightarrow> ref \<Rightarrow> 'd heap \<Rightarrow> 's \<Rightarrow> 's res) option"
  sQuery :: "'d query_api \<Rightarrow> bool \<Rightarrow> bool \<Rightarrow> int64 \<Rightarrow> 'd heap \<Rightarrow> 's \<Rightarrow> ref list res"
  sReadOnly :: bool
  sInjected :: bool
  sMaintainRecordStates :: "int64 \<Rightarrow> int64 \<Rightarrow> bool \<Rightarrow> string list \<Rightarrow> 'd heap \<Rightarrow> 's \<Rightarrow> ('d heap \<times> 's) res"

definition storage_ErrNotFound :: goerr where
  "storage_ErrNotFound = ErrNew ''storage entry not found''"

definition storage_ErrNotImplemented :: goerr where
  "storage_ErrNotImplemented = ErrNew ''not implemented''"

subsection \<open>hashmap\<close>

text \<open>The map of the storage; a batch is a sequence of \<open>batchPutOrDelete\<close> calls.\<close>

type_synonym hashmap = "(string \<times> ref) list"

definition hm_Get :: "string \<Rightarrow> 'd heap \<Rightarrow> hashmap \<Rightarrow> ('d heap \<times> ref) res" where
  "hm_Get key h db = (case map_of db key of None \<Rightarrow> Inl storage_ErrNotFound | Some r \<Rightarrow> Inr (h, r))"

definition hm_GetMeta :: "string \<Rightarrow> 'd heap \<Rightarrow> hashmap \<Rightarrow> meta option res" where
  "hm_GetMeta key h db = (case hm_Get key h db of Inl e \<Rightarrow> Inl e | Inr (h', r) \<Rightarrow> Inr (rMeta h' r))"

definition hm_Put :: "ref \<Rightarrow> 'd heap \<Rightarrow> hashmap \<Rightarrow> (hashmap \<times> ref option) res" where
  "hm_Put r h db = Inr (AList.update (rDatabaseKey h r) r db, Some r)"

definition hm_batchPutOrDelete :: "bool \<Rightarrow> ref \<Rightarrow> 'd heap \<Rightarrow> hashmap \<Rightarrow> hashmap res" where
  "hm_batchPutOrDelete shadowDelete r h db =
     (if shadowDelete then Inr (AList.update (rDatabaseKey h r) r db)
      else case rMeta h r of
             None \<Rightarrow> Inl nil_panic
           | Some m \<Rightarrow> if IsDeleted m then Inr (AList.delete (rDatabaseKey h r) db)
                       else Inr (AList.update (rDatabaseKey h r) r db))"

definition hm_Delete :: "string \<Rightarrow> hashmap \<Rightarrow> hashmap res" where
  "hm_Delete key db = Inr (AList.delete key db)"

text \<open>The records a query sends to its iterator, when the consumer reads them all.\<close>

definition hm_visible :: "'d query_api \<Rightarrow> bool \<Rightarrow> bool \<Rightarrow> int64 \<Rightarrow> 'd heap \<Rightarrow> string \<times> ref \<Rightarrow> bool" where
  "hm_visible q local internal now h kr \<longleftrightarrow>
     \<not> (\<not> qMatchesKey q (fst kr) \<or> \<not> qMatchesRecord q (h (snd kr)) \<or>
        \<not> CheckValidity now (rMeta h (snd kr)) \<or> \<not> CheckPermission local internal (rMeta h (snd kr)))"

definition hm_Query ::
  "'d query_api \<Rightarrow> bool \<Rightarrow> bool \<Rightarrow> int64 \<Rightarrow> 'd heap \<Rightarrow> hashmap \<Rightarrow> ref list res" where
  "hm_Query q local internal now h db =
     (case qCheck q of
        Some e \<Rightarrow> Inl (ErrWrap ''invalid query'' e)
      | None \<Rightarrow> Inr (map snd (filter (hm_visible q local internal now h) db)))"

text \<open>\<open>MaintainRecordStates\<close>: the body of the loop for one key, and the loop over the keys that
  were visited before the context was cancelled; without cancellation, all keys in some
  order.\<close>

definition hm_maintain_one ::
  "int64 \<Rightarrow> int64 \<Rightarrow> bool \<Rightarrow> string \<Rightarrow> 'd heap \<Rightarrow> hashmap \<Rightarrow> ('d heap \<times> hashmap) res" where
  "hm_maintain_one now purgeThreshold shadowDelete key h db =
     (case map_of db key of
        None \<Rightarrow> Inr (h, db)
      | Some r \<Rightarrow>
          (case rMeta h r of
             None \<Rightarrow> Inl nil_panic
           | Some m \<Rightarrow>
               if Deleted m = 0 \<and> 0 < sint (Expires m) \<and> sint (Expires m) < sint now
               then if shadowDelete
                    then Inr (set_meta (\<lambda>_. Some (m\<lparr>Deleted := Expires m\<rparr>)) r h, db)
                    else Inr (h, AList.delete key db)
               else if 0 < sint (Deleted m) \<and> (\<not> shadowDelete \<or> sint (Deleted m) < sint purgeThreshold)
               then Inr (h, AList.delete key db)
               else Inr (h, db)))"

fun hm_maintain_loop ::
  "int64 \<Rightarrow> int64 \<Rightarrow> bool \<Rightarrow> string list \<Rightarrow> 'd heap \<Rightarrow> hashmap \<Rightarrow> ('d heap \<times> hashmap) res" where
  "hm_maintain_loop now purgeThreshold shadowDelete [] h db = Inr (h, db)"
| "hm_maintain_loop now purgeThreshold shadowDelete (key # keys) h db =
     (case hm_maintain_one now purgeThreshold shadowDelete key h db of
        Inl e \<Rightarrow> Inl e
      | Inr (h', db') \<Rightarrow> hm_maintain_loop now purgeThreshold shadowDelete keys h' db')"

definition hashmap_api :: "('d, hashmap) storage_api" where
  "hashmap_api = \<lparr>sGet = hm_Get, sGetMeta = Some hm_GetMeta, sPut = hm_Put, sDelete = hm_Delete,
     sBatchPut = Some hm_batchPutOrDelete, sQuery = hm_Query, sReadOnly = False, sInjected = False,
     sMaintainRecordStates = hm_maintain_loop\<rparr>"

subsection \<open>sinkhole and InjectBase\<close>

definition sinkhole_api :: "('d, unit) storage_api" where
  "sinkhole_api = \<lparr>sGet = (\<lambda>key h s. Inl storage_ErrNotFound),
     sGetMeta = Some (\<lambda>key h s. Inl storage_ErrNotFound), sPut = (\<lambda>r h s. Inr (s, Some r)),
     sDelete = (\<lambda>key s. Inr s), sBatchPut = Some (\<lambda>shadowDelete r h s. Inr s),
     sQuery = (\<lambda>q local internal now h s. Inl (ErrNew ''query not implemented by sinkhole'')),
     sReadOnly = False, sInjected = False,
     sMaintainRecordStates = (\<lambda>now purge shadowDelete keys h s. Inr (h, s))\<rparr>"

definition InjectBase_api :: "('d, unit) storage_api" where
  "InjectBase_api = \<lparr>sGet = (\<lambda>key h s. Inl storage_ErrNotImplemented), sGetMeta = None,
     sPut = (\<lambda>r h s. Inl storage_ErrNotImplemented),
     sDelete = (\<lambda>key s. Inl storage_ErrNotImplemented), sBatchPut = None,
     sQuery = (\<lambda>q local internal now h s. Inl storage_ErrNotImplemented),
     sReadOnly = True, sInjected = True,
     sMaintainRecordStates = (\<lambda>now purge shadowDelete keys h s. Inr (h, s))\<rparr>"

subsection \<open>storages.go\<close>

type_synonym ('d, 's) factory = "string \<Rightarrow> string \<Rightarrow> (('d, 's) storage_api \<times> 's) res"

definition storage_Register ::
  "string \<Rightarrow> 'f \<Rightarrow> (string \<rightharpoonup> 'f) \<Rightarrow> (string \<rightharpoonup> 'f) res" where
  "storage_Register name factory storages =
     (case storages name of
        Some _ \<Rightarrow> Inl (ErrNew ''factory for this type already exists'')
      | None \<Rightarrow> Inr (storages(name \<mapsto> factory)))"

definition StartDatabase ::
  "string \<Rightarrow> string \<Rightarrow> string \<Rightarrow> (string \<rightharpoonup> ('d, 's) factory) \<Rightarrow> (('d, 's) storage_api \<times> 's) res" where
  "StartDatabase name storageType location storages =
     (case storages storageType of
        None \<Rightarrow> Inl (ErrNew (''storage type '' @ storageType @ '' not registered''))
      | Some factory \<Rightarrow> factory name location)"

definition NewHashMap :: "('d, hashmap) factory" where
  "NewHashMap name location = Inr (hashmap_api, [])"

definition NewSinkhole :: "('d, unit) factory" where
  "NewSinkhole name location = Inr (sinkhole_api, ())"

subsection \<open>The contract\<close>

text \<open>
  What the controller relies on: reads return what the storage holds, and a successful write
  changes what it holds for the record's key only, if at all. \<open>view\<close> is the contents of a storage
  as a map from keys to references. A retaining storage also keeps what is put.
\<close>

locale storage_contract =
  fixes api :: "('d, 's) storage_api" and view :: "'s \<Rightarrow> string \<Rightarrow> ref option"
  assumes get_view: "sGet api key h s = Inr (h', r) \<Longrightarrow> h' = h \<and> view s key = Some r"
    and get_missing: "view s key = None \<Longrightarrow> sGet api key h s = Inl storage_ErrNotFound \<or> sReadOnly api"
    and meta_view: "sGetMeta api = Some gm \<Longrightarrow> gm key h s = Inr m \<Longrightarrow>
          \<exists>r. view s key = Some r \<and> m = rMeta h r"
    and put_frame: "sPut api r h s = Inr (s', ro) \<Longrightarrow> key \<noteq> rDatabaseKey h r \<Longrightarrow> view s' key = view s key"
    and put_key: "sPut api r h s = Inr (s', ro) \<Longrightarrow>
          ro = Some r \<and> (view s' (rDatabaseKey h r) = Some r \<or> view s' (rDatabaseKey h r) = None)"
    and delete_view: "sDelete api key s = Inr s' \<Longrightarrow> view s' = (view s)(key := None)"

locale retaining_storage = storage_contract api view
  for api :: "('d, 's) storage_api" and view :: "'s \<Rightarrow> string \<Rightarrow> ref option" +
  assumes get_total: "view s key = Some r \<Longrightarrow> sGet api key h s = Inr (h, r)"
    and meta_total: "sGetMeta api = Some gm \<Longrightarrow> view s key = Some r \<Longrightarrow> gm key h s = Inr (rMeta h r)"
    and meta_missing: "sGetMeta api = Some gm \<Longrightarrow> view s key = None \<Longrightarrow> gm key h s = Inl storage_ErrNotFound"
    and put_total: "\<exists>s'. sPut api r h s = Inr (s', Some r) \<and> view s' = (view s)(rDatabaseKey h r \<mapsto> r)"
    and delete_total: "\<exists>s'. sDelete api key s = Inr s'"
    and writable: "\<not> sReadOnly api"

lemma map_of_delete: "map_of (AList.delete k al) = (map_of al)(k := None)"
  by (simp add: AList.delete_conv')

interpretation hashmap: retaining_storage hashmap_api map_of
  by unfold_locales
    (auto simp: hashmap_api_def hm_Get_def hm_GetMeta_def hm_Put_def hm_Delete_def AList.update_conv'
       map_of_delete split: option.splits)

interpretation sinkhole: storage_contract sinkhole_api "\<lambda>_ _. None"
  by unfold_locales (auto simp: sinkhole_api_def)

interpretation injectBase: storage_contract InjectBase_api "\<lambda>_ _. None"
  by unfold_locales (auto simp: InjectBase_api_def)

subsection \<open>Maintenance of the hashmap\<close>

lemma CheckValidity_Some:
  "CheckValidity now (Some m) \<longleftrightarrow>
     \<not> 0 < sint (Deleted m) \<and> \<not> (0 < sint (Expires m) \<and> sint (Expires m) < sint now)"
  by (simp add: CheckValidity_def)

text \<open>What one round may do: nothing, mark the record as deleted, or drop the key; the last two
  only to a record that is not valid and has no relative expiry.\<close>

lemma hm_maintain_one_cases:
  assumes "hm_maintain_one now thr sd key h db = Inr (h', db')"
  obtains (same) "h' = h" "db' = db"
      "\<And>r m. map_of db key = Some r \<Longrightarrow> rMeta h r = Some m \<Longrightarrow>
         CheckValidity now (Some m) \<or> sint (Deleted m) < 0 \<or> sd \<and> 0 < sint (Deleted m)"
    | (mark) r m where "map_of db key = Some r" "rMeta h r = Some m" "\<not> CheckValidity now (Some m)"
        "0 \<le> sint (Deleted m)" "sd" "0 < sint (Expires m)"
        "h' = set_meta (\<lambda>_. Some (m\<lparr>Deleted := Expires m\<rparr>)) r h" "db' = db"
    | (drop) r m where "map_of db key = Some r" "rMeta h r = Some m" "\<not> CheckValidity now (Some m)"
        "0 \<le> sint (Deleted m)" "h' = h" "db' = AList.delete key db"
proof (cases "map_of db key")
  case None then show thesis using assms same by (simp add: hm_maintain_one_def)
next
  case (Some r)
  then obtain m where m: "rMeta h r = Some m" using assms by (auto simp: hm_maintain_one_def split: option.splits)
  have z: "sint (Deleted m) = 0 \<Longrightarrow> Deleted m = 0" by (simp add: signed_eq_0_iff)
  consider (e) "Deleted m = 0 \<and> 0 < sint (Expires m) \<and> sint (Expires m) < sint now"
    | (d) "\<not> (Deleted m = 0 \<and> 0 < sint (Expires m) \<and> sint (Expires m) < sint now)"
        "0 < sint (Deleted m) \<and> (\<not> sd \<or> sint (Deleted m) < sint thr)"
    | (n) "\<not> (Deleted m = 0 \<and> 0 < sint (Expires m) \<and> sint (Expires m) < sint now)"
        "\<not> (0 < sint (Deleted m) \<and> (\<not> sd \<or> sint (Deleted m) < sint thr))" by blast
  then show thesis
  proof cases
    case e
    then have nv: "\<not> CheckValidity now (Some m)" "0 \<le> sint (Deleted m)" "0 < sint (Expires m)"
      by (auto simp: CheckValidity_Some)
    show thesis
    proof (cases sd)
      case True
      with assms e Some m have "h' = set_meta (\<lambda>_. Some (m\<lparr>Deleted := Expires m\<rparr>)) r h" "db' = db"
        by (simp_all add: hm_maintain_one_def)
      then show thesis using mark[OF Some m nv(1,2) True nv(3)] by blast
    next
      case False
      with assms e Some m have "h' = h" "db' = AList.delete key db" by (simp_all add: hm_maintain_one_def)
      then show thesis using drop[OF Some m nv(1,2)] by blast
    qed
  next
    case d
    then have nv: "\<not> CheckValidity now (Some m)" "0 \<le> sint (Deleted m)" by (auto simp: CheckValidity_Some)
    have "h' = h" "db' = AList.delete key db" using d assms Some m by (auto simp: hm_maintain_one_def)
    then show thesis using drop[OF Some m nv] by blast
  next
    case n
    have "CheckValidity now (Some m) \<or> sint (Deleted m) < 0 \<or> sd \<and> 0 < sint (Deleted m)"
      using n z unfolding CheckValidity_Some by (cases "sint (Deleted m) = 0") auto
    moreover have "h' = h" "db' = db" using n assms Some m by (auto simp: hm_maintain_one_def)
    ultimately show thesis using same Some m by (metis option.inject)
  qed
qed

lemma hm_maintain_sub:
  "hm_maintain_loop now thr sd keys h db = Inr (h', db') \<Longrightarrow> map_of db' key = Some r \<Longrightarrow> map_of db key = Some r"
proof (induction keys arbitrary: h db)
  case (Cons k keys)
  then obtain h1 db1 where s: "hm_maintain_one now thr sd k h db = Inr (h1, db1)"
    and l: "hm_maintain_loop now thr sd keys h1 db1 = Inr (h', db')"
    by (auto split: sum.splits)
  show ?case using s Cons.IH[OF l Cons.prems(2)]
    by (cases rule: hm_maintain_one_cases) (auto simp: map_of_delete split: if_splits)
qed simp

text \<open>A record that is valid or has a relative expiry stays as it is.\<close>

definition untouched :: "int64 \<Rightarrow> meta option \<Rightarrow> bool" where
  "untouched now mo \<longleftrightarrow> (\<exists>m. mo = Some m \<and> (CheckValidity now (Some m) \<or> sint (Deleted m) < 0))"

lemma hm_maintain_keeps:
  "hm_maintain_loop now thr sd keys h db = Inr (h', db') \<Longrightarrow> map_of db key = Some r \<Longrightarrow>
   untouched now (rMeta h r) \<Longrightarrow> map_of db' key = Some r \<and> h' r = h r"
proof (induction keys arbitrary: h db)
  case (Cons k keys)
  then obtain h1 db1 where s: "hm_maintain_one now thr sd k h db = Inr (h1, db1)"
    and l: "hm_maintain_loop now thr sd keys h1 db1 = Inr (h', db')"
    by (auto split: sum.splits)
  have "map_of db1 key = Some r \<and> h1 r = h r"
    using s Cons.prems(2,3)
    by (cases rule: hm_maintain_one_cases) (auto simp: untouched_def map_of_delete set_meta_def)
  then show ?case using Cons.IH[OF l] Cons.prems(3) by (simp add: rMeta_def)
qed simp

text \<open>The states of records that a complete pass leaves behind.\<close>

definition left_over :: "int64 \<Rightarrow> bool \<Rightarrow> meta option \<Rightarrow> bool" where
  "left_over now sd mo \<longleftrightarrow>
     (\<exists>m. mo = Some m \<and>
        (CheckValidity now (Some m) \<or> sint (Deleted m) < 0 \<or> sd \<and> 0 < sint (Deleted m)))"

lemma hm_maintain_one_left_over:
  assumes "hm_maintain_one now thr sd k h db = Inr (h1, db1)"
  shows "left_over now sd (rMeta h r) \<Longrightarrow> left_over now sd (rMeta h1 r)"
    and "map_of db1 k = Some r \<Longrightarrow> left_over now sd (rMeta h1 r)"
proof -
  show "left_over now sd (rMeta h1 r)" if "left_over now sd (rMeta h r)"
    using assms that by (cases rule: hm_maintain_one_cases) (auto simp: left_over_def)
  show "left_over now sd (rMeta h1 r)" if k: "map_of db1 k = Some r"
    using assms
  proof (cases rule: hm_maintain_one_cases)
    case same
    moreover obtain m where "rMeta h r = Some m"
      using assms k same by (auto simp: hm_maintain_one_def split: option.splits)
    ultimately show ?thesis using k by (auto simp: left_over_def)
  next
    case (mark q m) then show ?thesis using k by (auto simp: left_over_def)
  next
    case (drop q m) then show ?thesis using k by (simp add: map_of_delete)
  qed
qed

lemma hm_maintain_complete:
  "hm_maintain_loop now thr sd keys h db = Inr (h', db') \<Longrightarrow>
   left_over now sd (rMeta h r) \<or> key \<in> set keys \<and> map_of db' key = Some r \<Longrightarrow> left_over now sd (rMeta h' r)"
proof (induction keys arbitrary: h db)
  case (Cons k keys)
  then obtain h1 db1 where s: "hm_maintain_one now thr sd k h db = Inr (h1, db1)"
    and l: "hm_maintain_loop now thr sd keys h1 db1 = Inr (h', db')"
    by (auto split: sum.splits)
  have "left_over now sd (rMeta h1 r) \<or> key \<in> set keys \<and> map_of db' key = Some r"
    using Cons.prems(2) hm_maintain_one_left_over[OF s] hm_maintain_sub[OF l] by auto
  then show ?case using Cons.IH[OF l] by blast
qed simp

subsection \<open>Properties\<close>

text \<open>Maintenance of the in-memory storage never touches a valid record, however far it
  gets. A complete pass leaves only valid records, records kept as shadow-deleted, and records
  with a relative expiry (a negative \<open>Deleted\<close>): those it keeps for ever, even long after they
  have expired.\<close>

theorem hashmap_maintenance:
  assumes "hm_maintain_loop now purgeThreshold shadowDelete keys h db = Inr (h', db')"
  shows "(map_of db key = Some r \<and> rMeta h r = Some m \<and> (CheckValidity now (Some m) \<or> sint (Deleted m) < 0) \<longrightarrow>
       map_of db' key = Some r \<and> h' r = h r) \<and>
    (key \<in> set keys \<and> map_of db' key = Some r \<longrightarrow> left_over now shadowDelete (rMeta h' r))"
  using hm_maintain_keeps[OF assms, of key r] hm_maintain_complete[OF assms, of r key]
  by (auto simp: untouched_def)

text \<open>Two records, one that expired long ago and one with a relative expiry that did as well.\<close>

definition sample_heap :: "unit heap" where
  "sample_heap r = \<lparr>rbase = \<lparr>dbName = ''db'', dbKey = (if r = 0 then ''a'' else ''b''),
     bmeta = Some \<lparr>Created = 1, Modified = 1, Expires = 10,
                  Deleted = (if r = 0 then 0 else - 9), secret = False, cronjewel = False\<rparr>\<rparr>, rdata = ()\<rparr>"

lemma sample_maintenance:
  "hm_maintain_loop 1000 1000 False [''a'', ''b''] sample_heap [(''a'', 0), (''b'', 1)] =
     Inr (sample_heap, [(''b'', 1)])"
  by (simp add: hm_maintain_one_def sample_heap_def rMeta_def)

theorem hashmap_maintenance_witness:
  "map_of [(''b'', 1::nat)] ''b'' = Some 1 \<and> \<not> CheckValidity 1000 (rMeta sample_heap 1)"
  using hashmap_maintenance[OF sample_maintenance, of "''b''" 1 "the (rMeta sample_heap 1)"]
  by (simp add: sample_heap_def rMeta_def CheckValidity_def)

end
