(* ===== verification/Database.thy ===== *)
theory Database
  imports Storage
begin

section \<open>The database: controllers and registry\<close>

text \<open>
  \<open>database/controller.go\<close>, \<open>controllers.go\<close>, \<open>registry.go\<close>, \<open>hook.go\<close>, \<open>subscription.go\<close> and
  \<open>database.go\<close>. Hooks are code of the client and are members of the record \<open>hook\<close>; a pointer to
  a query, by which a hook or a subscription is found again, is a number. The channel \<open>Feed\<close> of a
  subscription is the list of its buffered records. Calls are modelled one after the other; a
  time is a number of seconds. The file of the registry is not modelled, only whether writing
  it failed (\<open>saveErr\<close>).
\<close>

definition ErrNotFound :: goerr where
  "ErrNotFound = ErrNew ''database entry not found''"

definition ErrPermissionDenied :: goerr where
  "ErrPermissionDenied = ErrNew ''access to database record denied''"

definition ErrReadOnly :: goerr where
  "ErrReadOnly = ErrNew ''database is read only''"

definition ErrShuttingDown :: goerr where
  "ErrShuttingDown = ErrNew ''database system is shutting down''"

definition ErrNotImplemented :: goerr where
  "ErrNotImplemented = ErrNew ''not implemented by this storage''"

lemmas db_errors = ErrNotFound_def ErrPermissionDenied_def ErrReadOnly_def ErrShuttingDown_def
  ErrNotImplemented_def storage_ErrNotFound_def storage_ErrNotImplemented_def nil_panic_def

subsection \<open>Hooks, subscriptions and controllers\<close>

record 'd hook =
  hookPtr :: nat
  hookQuery :: "'d query_api"
  hookQueryPtr :: nat
  UsesPreGet :: bool
  PreGet :: "string \<Rightarrow> goerr option"
  UsesPostGet :: bool
  PostGet :: "ref \<Rightarrow> 'd heap \<Rightarrow> 'd heap \<times> ref res"
  UsesPrePut :: bool
  PrePut :: "ref \<Rightarrow> 'd heap \<Rightarrow> 'd heap \<times> ref res"

record 'd subscription =
  subPtr :: nat
  subQuery :: "'d query_api"
  subQueryPtr :: nat
  subLocal :: bool
  subInternal :: bool
  Feed :: "ref list"
  feedClosed :: bool

record ('d, 's) controller =
  cName :: string
  cApi :: "('d, 's) storage_api"
  cStorage :: 's
  shadowDelete :: bool
  hooks :: "'d hook list"
  subscriptions :: "'d subscription list"

definition newController :: "string \<Rightarrow> ('d, 's) storage_api \<Rightarrow> 's \<Rightarrow> bool \<Rightarrow> ('d, 's) controller" where
  "newController name api s sd =
     \<lparr>cName = name, cApi = api, cStorage = s, shadowDelete = sd, hooks = [], subscriptions = []\<rparr>"

definition ReadOnly :: "('d, 's) controller \<Rightarrow> bool" where
  "ReadOnly c = sReadOnly (cApi c)"

fun runPreGetHooks :: "'d hook list \<Rightarrow> string \<Rightarrow> goerr option" where
  "runPreGetHooks [] key = None"
| "runPreGetHooks (hk # hks) key =
     (if \<not> UsesPreGet hk then runPreGetHooks hks key
      else if \<not> qMatchesKey (hookQuery hk) key then runPreGetHooks hks key
      else case PreGet hk key of Some e \<Rightarrow> Some e | None \<Rightarrow> runPreGetHooks hks key)"

fun runPostGetHooks :: "'d hook list \<Rightarrow> ref \<Rightarrow> 'd heap \<Rightarrow> 'd heap \<times> ref res" where
  "runPostGetHooks [] r h = (h, Inr r)"
| "runPostGetHooks (hk # hks) r h =
     (if \<not> UsesPostGet hk then runPostGetHooks hks r h
      else if \<not> qMatches (hookQuery hk) (h r) then runPostGetHooks hks r h
      else case PostGet hk r h of
             (h', Inl e) \<Rightarrow> (h', Inl e)
           | (h', Inr r') \<Rightarrow> runPostGetHooks hks r' h')"

fun runPrePutHooks :: "'d hook list \<Rightarrow> ref \<Rightarrow> 'd heap \<Rightarrow> 'd heap \<times> ref res" where
  "runPrePutHooks [] r h = (h, Inr r)"
| "runPrePutHooks (hk # hks) r h =
     (if \<not> UsesPrePut hk then runPrePutHooks hks r h
      else if \<not> qMatches (hookQuery hk) (h r) then runPrePutHooks hks r h
      else case PrePut hk r h of
             (h', Inl e) \<Rightarrow> (h', Inl e)
           | (h', Inr r') \<Rightarrow> runPrePutHooks hks r' h')"

text \<open>The buffer of a feed holds 1000 records; a record that does not fit is skipped. Sending on a
  closed feed is a panic.\<close>

definition sub_wants :: "ref \<Rightarrow> 'd heap \<Rightarrow> 'd subscription \<Rightarrow> bool" where
  "sub_wants r h sub \<longleftrightarrow>
     CheckPermission (subLocal sub) (subInternal sub) (rMeta h r) \<and> qMatches (subQuery sub) (h r)"

fun notify_loop :: "ref \<Rightarrow> 'd heap \<Rightarrow> 'd subscription list \<Rightarrow> 'd subscription list \<times> goerr option" where
  "notify_loop r h [] = ([], None)"
| "notify_loop r h (sub # subs) =
     (if sub_wants r h sub
      then if feedClosed sub then (sub # subs, Some (GoPanic ''send on closed channel''))
           else let sub' = (if length (Feed sub) < 1000 then sub\<lparr>Feed := Feed sub @ [r]\<rparr> else sub)
                in case notify_loop r h subs of (subs', p) \<Rightarrow> (sub' # subs', p)
      else case notify_loop r h subs of (subs', p) \<Rightarrow> (sub # subs', p))"

definition notifySubscribers ::
  "ref \<Rightarrow> 'd heap \<Rightarrow> ('d, 's) controller \<Rightarrow> ('d, 's) controller \<times> goerr option" where
  "notifySubscribers r h c =
     (case notify_loop r h (subscriptions c) of (subs', p) \<Rightarrow> (c\<lparr>subscriptions := subs'\<rparr>, p))"

definition replace_not_found :: "goerr \<Rightarrow> goerr" where
  "replace_not_found e = (if errors_is e storage_ErrNotFound then ErrNotFound else e)"

definition Controller_Get ::
  "bool \<Rightarrow> int64 \<Rightarrow> string \<Rightarrow> ('d, 's) controller \<Rightarrow> 'd heap \<Rightarrow> 'd heap \<times> ref res" where
  "Controller_Get down now key c h =
     (if down then (h, Inl ErrShuttingDown)
      else case runPreGetHooks (hooks c) key of
             Some e \<Rightarrow> (h, Inl e)
           | None \<Rightarrow>
               (case sGet (cApi c) key h (cStorage c) of
                  Inl e \<Rightarrow> (h, Inl (replace_not_found e))
                | Inr (h1, r) \<Rightarrow>
                    (case runPostGetHooks (hooks c) r h1 of
                       (h2, Inl e) \<Rightarrow> (h2, Inl e)
                     | (h2, Inr r2) \<Rightarrow>
                         if \<not> CheckValidity now (rMeta h2 r2) then (h2, Inl ErrNotFound)
                         else (h2, Inr r2))))"

definition Controller_GetMeta ::
  "bool \<Rightarrow> int64 \<Rightarrow> string \<Rightarrow> ('d, 's) controller \<Rightarrow> 'd heap \<Rightarrow> 'd heap \<times> meta option res" where
  "Controller_GetMeta down now key c h =
     (if down then (h, Inl ErrShuttingDown)
      else let (h1, res) =
             (case sGetMeta (cApi c) of
                Some gm \<Rightarrow> (h, gm key h (cStorage c))
              | None \<Rightarrow>
                  (case sGet (cApi c) key h (cStorage c) of
                     Inl e \<Rightarrow> (h, Inl e)
                   | Inr (h1, r) \<Rightarrow> (h1, Inr (rMeta h1 r))))
           in case res of
                Inl e \<Rightarrow> (h1, Inl (replace_not_found e))
              | Inr m \<Rightarrow> if \<not> CheckValidity now m then (h1, Inl ErrNotFound) else (h1, Inr m))"

definition Controller_Put ::
  "bool \<Rightarrow> ref \<Rightarrow> ('d, 's) controller \<Rightarrow> 'd heap \<Rightarrow> 'd heap \<times> ('d, 's) controller \<times> goerr option" where
  "Controller_Put down r c h =
     (if down then (h, c, Some ErrShuttingDown)
      else if ReadOnly c then (h, c, Some ErrReadOnly)
      else case runPrePutHooks (hooks c) r h of
             (h1, Inl e) \<Rightarrow> (h1, c, Some e)
           | (h1, Inr r1) \<Rightarrow>
               (let put = (case sPut (cApi c) r1 h1 (cStorage c) of
                             Inl e \<Rightarrow> (h1, c, Some e)
                           | Inr (s', None) \<Rightarrow>
                               (h1, c\<lparr>cStorage := s'\<rparr>,
                                Some (ErrNew ''storage returned nil record after successful put operation''))
                           | Inr (s', Some r2) \<Rightarrow> (h1, notifySubscribers r2 h1 (c\<lparr>cStorage := s'\<rparr>)))
                in if shadowDelete c then put
                   else case rMeta h1 r1 of
                          None \<Rightarrow> (h1, c, Some nil_panic)
                        | Some m \<Rightarrow>
                            if IsDeleted m
                            then case sDelete (cApi c) (rDatabaseKey h1 r1) (cStorage c) of
                                   Inl e \<Rightarrow> (h1, c, Some e)
                                 | Inr s' \<Rightarrow> (h1, notifySubscribers r1 h1 (c\<lparr>cStorage := s'\<rparr>))
                            else put))"

definition PushUpdate ::
  "bool \<Rightarrow> ref \<Rightarrow> 'd heap \<Rightarrow> ('d, 's) controller \<Rightarrow> ('d, 's) controller \<times> goerr option" where
  "PushUpdate down r h c = (if down then (c, None) else notifySubscribers r h c)"

definition addSubscription ::
  "bool \<Rightarrow> 'd subscription \<Rightarrow> ('d, 's) controller \<Rightarrow> ('d, 's) controller" where
  "addSubscription down sub c = (if down then c else c\<lparr>subscriptions := subscriptions c @ [sub]\<rparr>)"

fun remove_first :: "('a \<Rightarrow> bool) \<Rightarrow> 'a list \<Rightarrow> 'a list" where
  "remove_first p [] = []"
| "remove_first p (x # xs) = (if p x then xs else x # remove_first p xs)"

definition Hook_Cancel :: "'d hook \<Rightarrow> ('d, 's) controller \<Rightarrow> ('d, 's) controller" where
  "Hook_Cancel hk0 c = c\<lparr>hooks := remove_first (\<lambda>hk. hookQueryPtr hk = hookQueryPtr hk0) (hooks c)\<rparr>"

text \<open>\<open>Subscription.Cancel\<close> of \<open>s\<close> on the controller: the first subscription with the query of \<open>s\<close>
  is removed, and the feed of \<open>s\<close> itself is closed; closing it again is a panic.\<close>

definition Subscription_Cancel ::
  "'d subscription \<Rightarrow> ('d, 's) controller \<Rightarrow> ('d, 's) controller \<times> goerr option" where
  "Subscription_Cancel s c =
     (if \<exists>sub \<in> set (subscriptions c). subQueryPtr sub = subQueryPtr s
      then (c\<lparr>subscriptions := map (\<lambda>sub. if subPtr sub = subPtr s then sub\<lparr>feedClosed := True\<rparr> else sub)
               (remove_first (\<lambda>sub. subQueryPtr sub = subQueryPtr s) (subscriptions c))\<rparr>,
            if feedClosed s then Some (GoPanic ''close of closed channel'') else None)
      else (c, None))"

definition Controller_Query ::
  "bool \<Rightarrow> int64 \<Rightarrow> 'd query_api \<Rightarrow> bool \<Rightarrow> bool \<Rightarrow> ('d, 's) controller \<Rightarrow> 'd heap \<Rightarrow> ref list res" where
  "Controller_Query down now q local internal c h =
     (if down then Inl ErrShuttingDown else sQuery (cApi c) q local internal now h (cStorage c))"

definition Controller_MaintainRecordStates ::
  "bool \<Rightarrow> int64 \<Rightarrow> int64 \<Rightarrow> string list \<Rightarrow> ('d, 's) controller \<Rightarrow> 'd heap \<Rightarrow>
   'd heap \<times> ('d, 's) controller \<times> goerr option" where
  "Controller_MaintainRecordStates down now purgeDeletedBefore keys c h =
     (if down then (h, c, Some ErrShuttingDown)
      else case sMaintainRecordStates (cApi c) now purgeDeletedBefore (shadowDelete c) keys h (cStorage c) of
             Inl e \<Rightarrow> (h, c, Some e)
           | Inr (h', s') \<Rightarrow> (h', c\<lparr>cStorage := s'\<rparr>, None))"

subsection \<open>Registry\<close>

record Database =
  Name :: string
  Description :: string
  StorageType :: string
  ShadowDelete :: bool
  Registered :: int64
  LastUpdated :: int64
  LastLoaded :: int64

definition StorageTypeInjected :: string where
  "StorageTypeInjected = ''injected''"

record ('d, 's) dbsys =
  initialized :: bool
  shuttingDown :: bool
  now :: int64
  heap :: "'d heap"
  registry :: "string \<rightharpoonup> Database"
  registryPersistence :: bool
  writeRegistrySoon :: bool
  storages :: "string \<rightharpoonup> ('d, 's) factory"
  controllers :: "string \<rightharpoonup> ('d, 's) controller"

text \<open>The regular expression \<open>^[A-Za-z0-9_-]{3,}$\<close>.\<close>

definition name_char :: "char \<Rightarrow> bool" where
  "name_char c \<longleftrightarrow>
     (let k = of_char c :: nat
      in 65 \<le> k \<and> k \<le> 90 \<or> 97 \<le> k \<and> k \<le> 122 \<or> 48 \<le> k \<and> k \<le> 57 \<or> c = CHR ''_'' \<or> c = CHR ''-'')"

definition nameConstraint :: "string \<Rightarrow> bool" where
  "nameConstraint name \<longleftrightarrow> list_all name_char name \<and> 3 \<le> length name"

definition Db_Register ::
  "goerr option \<Rightarrow> Database \<Rightarrow> ('d, 's) dbsys \<Rightarrow> ('d, 's) dbsys \<times> Database option res" where
  "Db_Register saveErr db w =
     (if \<not> initialized w then (w, Inl (ErrNew ''database not initialized''))
      else case registry w (Name db) of
        Some old \<Rightarrow>
          (let upd = old\<lparr>Description := Description db, ShadowDelete := ShadowDelete db\<rparr>;
               save = (Description old \<noteq> Description db \<or> ShadowDelete old \<noteq> ShadowDelete db);
               upd' = (if save \<and> registryPersistence w then upd\<lparr>LastUpdated := now w\<rparr> else upd);
               w' = w\<lparr>registry := (registry w)(Name db \<mapsto> upd')\<rparr>
           in if save \<and> registryPersistence w \<and> saveErr \<noteq> None then (w', Inl (the saveErr))
              else (w', Inr (Some upd')))
      | None \<Rightarrow>
          if \<not> nameConstraint (Name db)
          then (w, Inl (ErrNew ''database name must only contain alphanumeric and `_-` characters and must be at least 3 characters long''))
          else let w' = w\<lparr>registry := (registry w)(Name db \<mapsto>
                          db\<lparr>Registered := now w, LastUpdated := now w, LastLoaded := 0\<rparr>)\<rparr>
               in if registryPersistence w \<and> saveErr \<noteq> None then (w', Inl (the saveErr))
                  else (w', Inr None))"

definition getDatabase :: "string \<Rightarrow> ('d, 's) dbsys \<Rightarrow> ('d, 's) dbsys \<times> Database res" where
  "getDatabase name w =
     (case registry w name of
        None \<Rightarrow> (w, Inl (ErrNew (''database '' @ name @ '' not registered'')))
      | Some db \<Rightarrow>
          (let db' = db\<lparr>LastLoaded := now w\<rparr>
           in (w\<lparr>writeRegistrySoon := writeRegistrySoon w \<or> sint (LastLoaded db) < sint (now w) - 86400,
                 registry := (registry w)(name \<mapsto> db')\<rparr>, Inr db')))"

text \<open>\<open>getLocation\<close> creates the directory of a database; it is an argument.\<close>

definition getController ::
  "(string \<Rightarrow> string \<Rightarrow> string res) \<Rightarrow> string \<Rightarrow> ('d, 's) dbsys \<Rightarrow> ('d, 's) dbsys \<times> ('d, 's) controller res" where
  "getController getLocation name w =
     (if \<not> initialized w then (w, Inl (ErrNew ''database not initialized''))
      else case controllers w name of
        Some c \<Rightarrow> (w, Inr c)
      | None \<Rightarrow>
          if shuttingDown w then (w, Inl ErrShuttingDown)
          else case getDatabase name w of
            (w1, Inl e) \<Rightarrow> (w1, Inl (ErrWrap (''could not start database '' @ name) e))
          | (w1, Inr db) \<Rightarrow>
              if StorageType db = StorageTypeInjected
              then (w1, Inl (ErrNew ''database storage is not injected''))
              else case getLocation name (StorageType db) of
                Inl e \<Rightarrow> (w1, Inl (ErrWrap (''could not start database '' @ name @ '' (type '' @ StorageType db @ '')'') e))
              | Inr loc \<Rightarrow>
                  (case StartDatabase name (StorageType db) loc (storages w1) of
                     Inl e \<Rightarrow> (w1, Inl (ErrWrap (''could not start database '' @ name @ '' (type '' @ StorageType db @ '')'') e))
                   | Inr (api, s) \<Rightarrow>
                       (let c = newController name api s (ShadowDelete db)
                        in (w1\<lparr>controllers := (controllers w1)(name \<mapsto> c)\<rparr>, Inr c))))"

definition InjectDatabase ::
  "string \<Rightarrow> ('d, 's) storage_api \<Rightarrow> 's \<Rightarrow> ('d, 's) dbsys \<Rightarrow> ('d, 's) dbsys \<times> ('d, 's) controller res" where
  "InjectDatabase name api s w =
     (if shuttingDown w then (w, Inl ErrShuttingDown)
      else case controllers w name of
        Some _ \<Rightarrow> (w, Inl (ErrNew (''database '' @ name @ '' already loaded'')))
      | None \<Rightarrow>
          (case registry w name of
             None \<Rightarrow> (w, Inl (ErrNew (''database '' @ name @ '' not registered'')))
           | Some db \<Rightarrow>
               if StorageType db \<noteq> StorageTypeInjected
               then (w, Inl (ErrNew ''database not of type injected''))
               else let c = newController name api s False
                    in (w\<lparr>controllers := (controllers w)(name \<mapsto> c)\<rparr>, Inr c)))"

definition Withdraw :: "string \<Rightarrow> ('d, 's) dbsys \<Rightarrow> ('d, 's) dbsys" where
  "Withdraw name w =
     (case controllers w name of
        Some c \<Rightarrow> if sInjected (cApi c) then w\<lparr>controllers := (controllers w)(cName c := None)\<rparr> else w
      | None \<Rightarrow> w)"

definition set_controller :: "string \<Rightarrow> 'd heap \<times> ('d, 's) controller \<times> 'e \<Rightarrow> ('d, 's) dbsys \<Rightarrow> ('d, 's) dbsys" where
  "set_controller name hc w =
     (case hc of (h, c, e) \<Rightarrow> w\<lparr>heap := h, controllers := (controllers w)(name \<mapsto> c)\<rparr>)"

definition RegisterHook ::
  "(string \<Rightarrow> string \<Rightarrow> string res) \<Rightarrow> 'd hook \<Rightarrow> ('d, 's) dbsys \<Rightarrow> ('d, 's) dbsys \<times> goerr option" where
  "RegisterHook getLocation hk w =
     (case qCheck (hookQuery hk) of
        Some e \<Rightarrow> (w, Some e)
      | None \<Rightarrow>
          (case getController getLocation (qDatabaseName (hookQuery hk)) w of
             (w1, Inl e) \<Rightarrow> (w1, Some e)
           | (w1, Inr c) \<Rightarrow>
               (w1\<lparr>controllers := (controllers w1)(qDatabaseName (hookQuery hk) \<mapsto> c\<lparr>hooks := hooks c @ [hk]\<rparr>)\<rparr>,
                None)))"

end
