(* ===== verification/Db_Interface.thy ===== *)
theory Db_Interface
  imports Database
begin

section \<open>The database interface and its cache\<close>

text \<open>
  \<open>database/interface.go\<close> and \<open>interface_cache.go\<close>. The state is the database system extended by the
  fields of one \<open>Interface\<close>. The read cache is the package \<open>gcache\<close>, which is not part of the
  repository: its operations are the members of \<open>cache_api\<close>. Each returns the keys of the entries
  for which the cache calls its eviction function, and the eviction handler runs for them
  before the operation returns. The functions that set an attribute of a record
  (\<open>accessor\<close>) and that create the directory of a database are arguments as well.
\<close>

record 'c cache_api =
  kGet :: "int64 \<Rightarrow> string \<Rightarrow> 'c \<Rightarrow> 'c \<times> string list \<times> ref option"
  kSet :: "int64 \<Rightarrow> string \<Rightarrow> ref \<Rightarrow> int64 option \<Rightarrow> 'c \<Rightarrow> 'c \<times> string list"
  kRemove :: "string \<Rightarrow> 'c \<Rightarrow> 'c \<times> string list"
  kPurge :: "'c \<Rightarrow> 'c"
  kNew :: "int \<Rightarrow> 'c"

record Options =
  Local :: bool
  Internal :: bool
  AlwaysMakeSecret :: bool
  AlwaysMakeCrownjewel :: bool
  AlwaysSetRelativateExpiry :: int64
  AlwaysSetAbsoluteExpiry :: int64
  CacheSize :: int
  DelayCachedWrites :: string

record ('d, 's, 'c) db = "('d, 's) dbsys" +
  options :: Options
  cache :: "'c option"
  writeCache :: "(string \<times> ref) list"
  cacheWriteTriggered :: bool

record ('d, 'c) env =
  getLocation :: "string \<Rightarrow> string \<Rightarrow> string res"
  gcache :: "'c cache_api"
  accSet :: "string \<Rightarrow> string \<Rightarrow> 'd \<Rightarrow> 'd res"

subsection \<open>Options\<close>

definition Options_Apply :: "Options \<Rightarrow> int64 \<Rightarrow> base \<Rightarrow> base" where
  "Options_Apply opt t b =
     (let b1 = UpdateMeta t b;
          on = (\<lambda>f b. b\<lparr>bmeta := map_option f (bmeta b)\<rparr>);
          b2 = (if AlwaysMakeSecret opt then on MakeSecret b1 else b1);
          b3 = (if AlwaysMakeCrownjewel opt then on MakeCrownJewel b2 else b2)
      in if 0 < sint (AlwaysSetAbsoluteExpiry opt) then on (SetAbsoluteExpiry (AlwaysSetAbsoluteExpiry opt)) b3
         else if 0 < sint (AlwaysSetRelativateExpiry opt)
         then on (SetRelativateExpiry (AlwaysSetRelativateExpiry opt)) b3
         else b3)"

definition HasAllPermissions :: "Options \<Rightarrow> bool" where
  "HasAllPermissions opt \<longleftrightarrow> Local opt \<and> Internal opt"

definition hasAccessPermission :: "Options \<Rightarrow> meta option \<Rightarrow> bool" where
  "hasAccessPermission opt m = (if HasAllPermissions opt then True else CheckPermission (Local opt) (Internal opt) m)"

definition apply_options :: "ref \<Rightarrow> ('d, 's, 'c) db \<Rightarrow> ('d, 's, 'c) db" where
  "apply_options r w =
     w\<lparr>heap := (heap w)(r := (heap w r)\<lparr>rbase := Options_Apply (options w) (now w) (rbase (heap w r))\<rparr>)\<rparr>"

definition NewInterface :: "('d, 'c) env \<Rightarrow> Options option \<Rightarrow> ('d, 's, 'c) db \<Rightarrow> ('d, 's, 'c) db" where
  "NewInterface env opts w =
     (let opt = (case opts of
                 Some opt \<Rightarrow> opt
               | None \<Rightarrow> \<lparr>Local = False, Internal = False, AlwaysMakeSecret = False,
                          AlwaysMakeCrownjewel = False, AlwaysSetRelativateExpiry = 0,
                          AlwaysSetAbsoluteExpiry = 0, CacheSize = 0, DelayCachedWrites = ''''\<rparr>)
      in w\<lparr>options := opt, cache := (if 0 < CacheSize opt then Some (kNew (gcache env) (CacheSize opt)) else None),
           writeCache := [], cacheWriteTriggered := False\<rparr>)"

subsection \<open>Access to the controllers\<close>

text \<open>\<open>getController\<close> and \<open>db.Put(r)\<close> on the whole state.\<close>

definition with_sys :: "('d, 's) dbsys \<Rightarrow> ('d, 's, 'c) db \<Rightarrow> ('d, 's, 'c) db" where
  "with_sys s w = w\<lparr>initialized := initialized s, shuttingDown := shuttingDown s, now := now s,
     heap := heap s, registry := registry s, registryPersistence := registryPersistence s,
     writeRegistrySoon := writeRegistrySoon s, storages := storages s, controllers := controllers s\<rparr>"

definition sys_of :: "('d, 's, 'c) db \<Rightarrow> ('d, 's) dbsys" where
  "sys_of w = dbsys.truncate w"

definition get_controller ::
  "('d, 'c) env \<Rightarrow> string \<Rightarrow> ('d, 's, 'c) db \<Rightarrow> ('d, 's, 'c) db \<times> ('d, 's) controller res" where
  "get_controller env name w =
     (case getController (getLocation env) name (sys_of w) of (s, r) \<Rightarrow> (with_sys s w, r))"

definition db_put :: "string \<Rightarrow> ref \<Rightarrow> ('d, 's) controller \<Rightarrow> ('d, 's, 'c) db \<Rightarrow> ('d, 's, 'c) db \<times> goerr option" where
  "db_put name r c w =
     (case Controller_Put (shuttingDown w) r c (heap w) of
        (h, c', e) \<Rightarrow> (w\<lparr>heap := h, controllers := (controllers w)(name \<mapsto> c')\<rparr>, e))"

subsection \<open>The cache\<close>

definition cacheEvictHandler :: "('d, 'c) env \<Rightarrow> string \<Rightarrow> ('d, 's, 'c) db \<Rightarrow> ('d, 's, 'c) db" where
  "cacheEvictHandler env key w =
     (case map_of (writeCache w) key of
        None \<Rightarrow> w
      | Some r \<Rightarrow>
          (let w1 = w\<lparr>writeCache := AList.delete key (writeCache w)\<rparr>;
               name = rDatabaseName (heap w1) r
           in case get_controller env name w1 of
                (w2, Inl e) \<Rightarrow> w2
              | (w2, Inr c) \<Rightarrow> (fst (db_put name r c w2))\<lparr>cacheWriteTriggered := True\<rparr>))"

definition handle_evicted :: "('d, 'c) env \<Rightarrow> string list \<Rightarrow> ('d, 's, 'c) db \<Rightarrow> ('d, 's, 'c) db" where
  "handle_evicted env keys w = fold (cacheEvictHandler env) keys w"

definition checkCache :: "('d, 'c) env \<Rightarrow> string \<Rightarrow> ('d, 's, 'c) db \<Rightarrow> ('d, 's, 'c) db \<times> ref option" where
  "checkCache env key w =
     (case cache w of
        None \<Rightarrow> (w, None)
      | Some c \<Rightarrow>
          (case kGet (gcache env) (now w) key c of
             (c', evicted, r) \<Rightarrow> (handle_evicted env evicted (w\<lparr>cache := Some c'\<rparr>), r)))"

definition updateCache ::
  "('d, 'c) env \<Rightarrow> ref \<Rightarrow> bool \<Rightarrow> bool \<Rightarrow> int64 \<Rightarrow> ('d, 's, 'c) db \<Rightarrow> ('d, 's, 'c) db \<times> bool" where
  "updateCache env r write remove ttl w =
     (case cache w of
        None \<Rightarrow> (w, False)
      | Some c \<Rightarrow>
          if remove
          then case kRemove (gcache env) (rKey (heap w) r) c of
                 (c', evicted) \<Rightarrow> (handle_evicted env evicted (w\<lparr>cache := Some c'\<rparr>), False)
          else case kSet (gcache env) (now w) (rKey (heap w) r) r (if 0 \<le> sint ttl then Some ttl else None) c of
                 (c', evicted) \<Rightarrow>
                   (let w1 = handle_evicted env evicted (w\<lparr>cache := Some c'\<rparr>)
                    in if write \<and> rDatabaseName (heap w1) r = DelayCachedWrites (options w1)
                       then (w1\<lparr>writeCache := AList.update (rKey (heap w1) r) r (writeCache w1)\<rparr>, True)
                       else (w1, False)))"

definition ClearCache :: "('d, 'c) env \<Rightarrow> ('d, 's, 'c) db \<Rightarrow> ('d, 's, 'c) db" where
  "ClearCache env w = (case cache w of None \<Rightarrow> w | Some c \<Rightarrow> w\<lparr>cache := Some (kPurge (gcache env) c)\<rparr>)"

text \<open>\<open>PutMany\<close> and the records submitted to it: for each, the proxy applies the options and the
  batch handler of the storage stores it. Nothing is stored when opening the batch fails.\<close>

fun batch_put ::
  "string \<Rightarrow> (bool \<Rightarrow> ref \<Rightarrow> 'd heap \<Rightarrow> 's \<Rightarrow> 's res) \<Rightarrow> ref list \<Rightarrow> ('d, 's, 'c) db \<Rightarrow>
   ('d, 's, 'c) db \<times> goerr option" where
  "batch_put name f [] w = (w, None)"
| "batch_put name f (r # rs) w =
     (if rDatabaseName (heap w) r \<noteq> name
      then batch_put name f rs w
      else let w1 = apply_options r w
           in case controllers w1 name of
                None \<Rightarrow> (w1, None)
              | Some c \<Rightarrow>
                  (case f (shadowDelete c) r (heap w1) (cStorage c) of
                     Inl e \<Rightarrow> (w1, Some e)
                   | Inr s' \<Rightarrow>
                       batch_put name f rs
                         (w1\<lparr>controllers := (controllers w1)(name \<mapsto> c\<lparr>cStorage := s'\<rparr>)\<rparr>)))"

definition PutMany :: "('d, 'c) env \<Rightarrow> string \<Rightarrow> ref list \<Rightarrow> ('d, 's, 'c) db \<Rightarrow> ('d, 's, 'c) db \<times> goerr option" where
  "PutMany env name rs w =
     (if \<not> HasAllPermissions (options w) then (w, Some ErrPermissionDenied)
      else case get_controller env name w of
        (w1, Inl e) \<Rightarrow> (w1, Some e)
      | (w1, Inr c) \<Rightarrow>
          if ReadOnly c then (w1, Some ErrReadOnly)
          else if shuttingDown w1 then (w1, Some ErrShuttingDown)
          else case sBatchPut (cApi c) of
                 None \<Rightarrow> (w1, Some ErrNotImplemented)
               | Some f \<Rightarrow> batch_put name f rs w1)"

definition flushWriteCache :: "('d, 'c) env \<Rightarrow> int \<Rightarrow> ('d, 's, 'c) db \<Rightarrow> ('d, 's, 'c) db" where
  "flushWriteCache env percentThreshold w =
     (let len = int (length (writeCache w))
      in if len = 0 then w
         else if (len * 100) div CacheSize (options w) < percentThreshold then w
         else (fst (PutMany env (DelayCachedWrites (options w)) (map snd (writeCache w)) w))\<lparr>writeCache := []\<rparr>)"

definition FlushCache :: "('d, 'c) env \<Rightarrow> ('d, 's, 'c) db \<Rightarrow> ('d, 's, 'c) db" where
  "FlushCache env w = (if DelayCachedWrites (options w) \<noteq> '''' then w else flushWriteCache env 0 w)"

subsection \<open>Reading\<close>

definition db_name_key :: "string \<Rightarrow> string \<Rightarrow> string \<times> string" where
  "db_name_key name key = (if name = '''' then ParseKey key else (name, key))"

definition getRecord ::
  "('d, 'c) env \<Rightarrow> string \<Rightarrow> string \<Rightarrow> bool \<Rightarrow> ('d, 's, 'c) db \<Rightarrow>
   ('d, 's, 'c) db \<times> (ref \<times> string \<times> ('d, 's) controller) res" where
  "getRecord env dbName0 dbKey0 mustBeWriteable w =
     (case db_name_key dbName0 dbKey0 of
        (name, key) \<Rightarrow>
          (case get_controller env name w of
             (w1, Inl e) \<Rightarrow> (w1, Inl e)
           | (w1, Inr c) \<Rightarrow>
               if mustBeWriteable \<and> ReadOnly c then (w1, Inl ErrReadOnly)
               else case checkCache env (name @ '':'' @ key) w1 of
                 (w2, Some r) \<Rightarrow>
                   if \<not> hasAccessPermission (options w2) (rMeta (heap w2) r)
                   then (w2, Inl ErrPermissionDenied)
                   else (w2, Inr (r, name, the (controllers w2 name)))
               | (w2, None) \<Rightarrow>
                   (let c2 = the (controllers w2 name)
                    in case Controller_Get (shuttingDown w2) (now w2) key c2 (heap w2) of
                      (h, Inl e) \<Rightarrow> (w2\<lparr>heap := h\<rparr>, Inl e)
                    | (h, Inr r) \<Rightarrow>
                        (let w3 = w2\<lparr>heap := h\<rparr>
                         in if \<not> hasAccessPermission (options w3) (rMeta (heap w3) r)
                            then (w3, Inl ErrPermissionDenied)
                            else case rMeta (heap w3) r of
                                   None \<Rightarrow> (w3, Inl nil_panic)
                                 | Some m \<Rightarrow>
                                     (let w4 = fst (updateCache env r False False (GetRelativeExpiry (now w3) m) w3)
                                      in (w4, Inr (r, name, the (controllers w4 name))))))))"

definition Get :: "('d, 'c) env \<Rightarrow> string \<Rightarrow> ('d, 's, 'c) db \<Rightarrow> ('d, 's, 'c) db \<times> ref res" where
  "Get env key w =
     (case getRecord env '''' key False w of (w', Inl e) \<Rightarrow> (w', Inl e) | (w', Inr (r, _)) \<Rightarrow> (w', Inr r))"

definition Exists :: "('d, 'c) env \<Rightarrow> string \<Rightarrow> ('d, 's, 'c) db \<Rightarrow> ('d, 's, 'c) db \<times> bool res" where
  "Exists env key w =
     (case Get env key w of
        (w', Inr r) \<Rightarrow> (w', Inr True)
      | (w', Inl e) \<Rightarrow>
          (w', if errors_is e ErrNotFound then Inr False
               else if errors_is e ErrPermissionDenied then Inr True
               else Inl e))"

definition getMeta ::
  "('d, 'c) env \<Rightarrow> string \<Rightarrow> string \<Rightarrow> bool \<Rightarrow> ('d, 's, 'c) db \<Rightarrow>
   ('d, 's, 'c) db \<times> (('d, 's) controller option \<times> goerr option)" where
  "getMeta env dbName0 dbKey0 mustBeWriteable w =
     (case db_name_key dbName0 dbKey0 of
        (name, key) \<Rightarrow>
          (case get_controller env name w of
             (w1, Inl e) \<Rightarrow> (w1, None, Some e)
           | (w1, Inr c) \<Rightarrow>
               if mustBeWriteable \<and> ReadOnly c then (w1, Some c, Some ErrReadOnly)
               else case checkCache env (name @ '':'' @ key) w1 of
                 (w2, Some r) \<Rightarrow>
                   (w2, controllers w2 name,
                    if \<not> hasAccessPermission (options w2) (rMeta (heap w2) r) then Some ErrPermissionDenied else None)
               | (w2, None) \<Rightarrow>
                   (case Controller_GetMeta (shuttingDown w2) (now w2) key (the (controllers w2 name)) (heap w2) of
                      (h, Inl e) \<Rightarrow> (w2\<lparr>heap := h\<rparr>, controllers w2 name, Some e)
                    | (h, Inr m) \<Rightarrow>
                        (w2\<lparr>heap := h\<rparr>, controllers w2 name,
                         if \<not> CheckPermission (Local (options w2)) (Internal (options w2)) m
                         then Some ErrPermissionDenied else None))))"

subsection \<open>Writing\<close>

text \<open>The common part of \<open>Put\<close> and \<open>PutNew\<close>: with limited permissions the stored metadata decide,
  with all permissions only the database is looked up.\<close>

definition put_controller ::
  "('d, 'c) env \<Rightarrow> ref \<Rightarrow> ('d, 's, 'c) db \<Rightarrow> ('d, 's, 'c) db \<times> ('d, 's) controller res" where
  "put_controller env r w =
     (if \<not> HasAllPermissions (options w)
      then case getMeta env (rDatabaseName (heap w) r) (rDatabaseKey (heap w) r) True w of
             (w1, co, Some e) \<Rightarrow>
               if \<not> errors_is e ErrNotFound then (w1, Inl e)
               else (case co of None \<Rightarrow> (w1, Inl nil_panic) | Some c \<Rightarrow> (w1, Inr c))
           | (w1, co, None) \<Rightarrow> (case co of None \<Rightarrow> (w1, Inl nil_panic) | Some c \<Rightarrow> (w1, Inr c))
      else get_controller env (rDatabaseName (heap w) r) w)"

definition put_prepared ::
  "('d, 'c) env \<Rightarrow> bool \<Rightarrow> ref \<Rightarrow> ('d, 's, 'c) db \<Rightarrow> ('d, 's, 'c) db \<times> goerr option" where
  "put_prepared env reset r w =
     (case put_controller env r w of
        (w1, Inl e) \<Rightarrow> (w1, Some e)
      | (w1, Inr c) \<Rightarrow>
          if ReadOnly c then (w1, Some ErrReadOnly)
          else let w2 = (if reset then w1\<lparr>heap := set_meta (map_option Reset) r (heap w1)\<rparr> else w1);
                   w3 = apply_options r w2
               in case rMeta (heap w3) r of
                    None \<Rightarrow> (w3, Some nil_panic)
                  | Some m \<Rightarrow>
                      (case updateCache env r True (IsDeleted m) (GetRelativeExpiry (now w3) m) w3 of
                         (w4, True) \<Rightarrow> (w4, None)
                       | (w4, False) \<Rightarrow>
                           (let name = rDatabaseName (heap w4) r
                            in db_put name r (the (controllers w4 name)) w4)))"

definition Put :: "('d, 'c) env \<Rightarrow> ref \<Rightarrow> ('d, 's, 'c) db \<Rightarrow> ('d, 's, 'c) db \<times> goerr option" where
  "Put env r w = put_prepared env False r w"

definition PutNew :: "('d, 'c) env \<Rightarrow> ref \<Rightarrow> ('d, 's, 'c) db \<Rightarrow> ('d, 's, 'c) db \<times> goerr option" where
  "PutNew env r w = put_prepared env True r w"

text \<open>The operations on a stored record: it is loaded, the options are applied, its metadata are
  changed in place and it is stored. \<open>Delete\<close> checks for a read-only database once more.\<close>

definition modify_meta ::
  "('d, 'c) env \<Rightarrow> (meta \<Rightarrow> meta) \<Rightarrow> string \<Rightarrow> ('d, 's, 'c) db \<Rightarrow> ('d, 's, 'c) db \<times> goerr option" where
  "modify_meta env f key w =
     (case getRecord env '''' key True w of
        (w1, Inl e) \<Rightarrow> (w1, Some e)
      | (w1, Inr (r, name, c)) \<Rightarrow>
          (let w2 = apply_options r w1;
               w3 = w2\<lparr>heap := set_meta (map_option f) r (heap w2)\<rparr>
           in db_put name r c w3))"

definition Interface_SetAbsoluteExpiry where
  "Interface_SetAbsoluteExpiry env key t = modify_meta env (SetAbsoluteExpiry t) key"

definition Interface_SetRelativateExpiry where
  "Interface_SetRelativateExpiry env key duration = modify_meta env (SetRelativateExpiry duration) key"

definition Interface_MakeSecret where
  "Interface_MakeSecret env key = modify_meta env MakeSecret key"

definition Interface_MakeCrownJewel where
  "Interface_MakeCrownJewel env key = modify_meta env MakeCrownJewel key"

definition Interface_Delete ::
  "('d, 'c) env \<Rightarrow> string \<Rightarrow> ('d, 's, 'c) db \<Rightarrow> ('d, 's, 'c) db \<times> goerr option" where
  "Interface_Delete env key w =
     (case getRecord env '''' key True w of
        (w1, Inl e) \<Rightarrow> (w1, Some e)
      | (w1, Inr (r, name, c)) \<Rightarrow>
          if ReadOnly c then (w1, Some ErrReadOnly)
          else let w2 = apply_options r w1;
                   w3 = w2\<lparr>heap := set_meta (map_option (Delete_meta (now w2))) r (heap w2)\<rparr>
               in db_put name r c w3)"

definition InsertValue ::
  "('d, 'c) env \<Rightarrow> string \<Rightarrow> string \<Rightarrow> string \<Rightarrow> ('d, 's, 'c) db \<Rightarrow> ('d, 's, 'c) db \<times> goerr option" where
  "InsertValue env key attribute value w =
     (case getRecord env '''' key True w of
        (w1, Inl e) \<Rightarrow> (w1, Some e)
      | (w1, Inr (r, name, c)) \<Rightarrow>
          (case accSet env attribute value (rdata (heap w1 r)) of
             Inl e \<Rightarrow> (w1, Some (ErrWrap ''failed to set value'' e))
           | Inr d \<Rightarrow>
               (let w2 = w1\<lparr>heap := (heap w1)(r := (heap w1 r)\<lparr>rdata := d\<rparr>)\<rparr>;
                    w3 = apply_options r w2
                in db_put name r c w3)))"

definition Query ::
  "('d, 'c) env \<Rightarrow> 'd query_api \<Rightarrow> ('d, 's, 'c) db \<Rightarrow> ('d, 's, 'c) db \<times> ref list res" where
  "Query env q w =
     (case qCheck q of
        Some e \<Rightarrow> (w, Inl e)
      | None \<Rightarrow>
          (case get_controller env (qDatabaseName q) w of
             (w1, Inl e) \<Rightarrow> (w1, Inl e)
           | (w1, Inr c) \<Rightarrow>
               (w1, Controller_Query (shuttingDown w1) (now w1) q (Local (options w1)) (Internal (options w1))
                      c (heap w1))))"

definition Subscribe ::
  "('d, 'c) env \<Rightarrow> nat \<Rightarrow> nat \<Rightarrow> 'd query_api \<Rightarrow> ('d, 's, 'c) db \<Rightarrow> ('d, 's, 'c) db \<times> goerr option" where
  "Subscribe env ptr qptr q w =
     (case qCheck q of
        Some e \<Rightarrow> (w, Some e)
      | None \<Rightarrow>
          (case get_controller env (qDatabaseName q) w of
             (w1, Inl e) \<Rightarrow> (w1, Some e)
           | (w1, Inr c) \<Rightarrow>
               (w1\<lparr>controllers := (controllers w1)(qDatabaseName q \<mapsto>
                     addSubscription (shuttingDown w1)
                       \<lparr>subPtr = ptr, subQuery = q, subQueryPtr = qptr, subLocal = Local (options w1),
                        subInternal = Internal (options w1), Feed = [], feedClosed = False\<rparr> c)\<rparr>, None)))"

subsection \<open>Frames\<close>

lemma with_sys_self [simp]: "with_sys (sys_of w) w = w"
  by (cases w) (simp add: with_sys_def sys_of_def dbsys.defs)

lemma sys_of_simps [simp]:
  "initialized (sys_of w) = initialized w" "controllers (sys_of w) = controllers w"
  "heap (sys_of w) = heap w" "now (sys_of w) = now w" "shuttingDown (sys_of w) = shuttingDown w"
  by (simp_all add: sys_of_def dbsys.defs)

lemma get_controller_present:
  "initialized w \<Longrightarrow> controllers w name = Some c \<Longrightarrow> get_controller env name w = (w, Inr c)"
  by (simp add: get_controller_def getController_def)

text \<open>What looking up a controller leaves alone.\<close>

definition same_data :: "('d, 's, 'c) db \<Rightarrow> ('d, 's, 'c) db \<Rightarrow> bool" where
  "same_data w w' \<longleftrightarrow> heap w' = heap w \<and> now w' = now w \<and> options w' = options w \<and>
     shuttingDown w' = shuttingDown w \<and> initialized w' = initialized w"

definition no_hooks :: "('d, 's, 'c) db \<Rightarrow> bool" where
  "no_hooks w \<longleftrightarrow> (\<forall>n c. controllers w n = Some c \<longrightarrow> hooks c = [])"

lemma same_data_refl [simp]: "same_data w w"
  by (simp add: same_data_def)

lemma same_data_trans: "same_data w w' \<Longrightarrow> same_data w' w'' \<Longrightarrow> same_data w w''"
  by (simp add: same_data_def)

lemma getController_frame:
  assumes "getController loc name s = (s', res)"
  shows "heap s' = heap s" "now s' = now s" "shuttingDown s' = shuttingDown s"
    "initialized s' = initialized s"
    and "res = Inr c \<Longrightarrow> controllers s' name = Some c"
    and "controllers s' n = Some c' \<Longrightarrow> controllers s n = Some c' \<or> hooks c' = []"
  using assms
  by (auto simp: getController_def getDatabase_def Let_def newController_def
      split: if_splits option.splits prod.splits sum.splits)

lemma get_controller_frame:
  assumes "get_controller env name w = (w', res)"
  shows "same_data w w'" "cache w' = cache w" "writeCache w' = writeCache w"
    and "no_hooks w \<Longrightarrow> no_hooks w'" and "res = Inr c \<Longrightarrow> controllers w' name = Some c"
proof -
  obtain s' where s': "getController (getLocation env) name (sys_of w) = (s', res)" "w' = with_sys s' w"
    using assms by (auto simp: get_controller_def split: prod.splits)
  note F = getController_frame[OF s'(1)]
  show "same_data w w'" "cache w' = cache w" "writeCache w' = writeCache w"
    using F by (simp_all add: s'(2) same_data_def with_sys_def)
  show "no_hooks w'" if "no_hooks w" using F(6) that by (fastforce simp: no_hooks_def s'(2) with_sys_def)
  show "res = Inr c \<Longrightarrow> controllers w' name = Some c" using F(5) by (simp add: s'(2) with_sys_def)
qed

lemma notifySubscribers_simps [simp]:
  "cApi (fst (notifySubscribers r h c)) = cApi c" "cStorage (fst (notifySubscribers r h c)) = cStorage c"
  "hooks (fst (notifySubscribers r h c)) = hooks c" "shadowDelete (fst (notifySubscribers r h c)) = shadowDelete c"
  "cName (fst (notifySubscribers r h c)) = cName c"
  by (simp_all add: notifySubscribers_def split: prod.splits)

lemma Controller_Put_frame:
  assumes "Controller_Put down r c h = (h', c', e)" "hooks c = []"
  shows "h' = h" "hooks c' = []" "cApi c' = cApi c" "shadowDelete c' = shadowDelete c"
proof -
  let ?p = "Controller_Put down r c h"
  have "fst ?p = h \<and> hooks (fst (snd ?p)) = [] \<and> cApi (fst (snd ?p)) = cApi c \<and>
      shadowDelete (fst (snd ?p)) = shadowDelete c"
    using assms(2) by (simp add: Controller_Put_def Let_def split: sum.split option.split prod.split)
  then show "h' = h" "hooks c' = []" "cApi c' = cApi c" "shadowDelete c' = shadowDelete c"
    using assms(1) by auto
qed

lemma db_put_frame:
  assumes "db_put name r c w = (w', e)" "hooks c = []"
  shows "same_data w w'" "cache w' = cache w" "writeCache w' = writeCache w" "no_hooks w \<Longrightarrow> no_hooks w'"
proof -
  obtain h c' where p: "Controller_Put (shuttingDown w) r c (heap w) = (h, c', e)"
    and w': "w' = w\<lparr>heap := h, controllers := (controllers w)(name \<mapsto> c')\<rparr>"
    using assms(1) by (auto simp: db_put_def split: prod.splits)
  note F = Controller_Put_frame[OF p assms(2)]
  show "same_data w w'" "cache w' = cache w" "writeCache w' = writeCache w"
    using F by (simp_all add: w' same_data_def)
  show "no_hooks w'" if "no_hooks w" using that F(2) by (auto simp: no_hooks_def w' split: if_splits)
qed

lemma cacheEvictHandler_frame:
  assumes "no_hooks w"
  shows "same_data w (cacheEvictHandler env key w) \<and> no_hooks (cacheEvictHandler env key w) \<and>
    cache (cacheEvictHandler env key w) = cache w"
proof (cases "map_of (writeCache w) key")
  case None then show ?thesis using assms by (simp add: cacheEvictHandler_def)
next
  case (Some r)
  let ?w1 = "w\<lparr>writeCache := AList.delete key (writeCache w)\<rparr>"
  have n1: "no_hooks ?w1" "same_data w ?w1" using assms by (simp_all add: no_hooks_def same_data_def)
  obtain w2 res where g: "get_controller env (rDatabaseName (heap w) r) ?w1 = (w2, res)" by fastforce
  note G = get_controller_frame[OF g]
  show ?thesis
  proof (cases res)
    case (Inl e)
    then show ?thesis using Some g G n1 same_data_trans by (auto simp: cacheEvictHandler_def Let_def)
  next
    case (Inr c)
    then have "hooks c = []" using G(4)[OF n1(1)] G(5)[OF Inr] by (auto simp: no_hooks_def)
    moreover obtain w3 e where p: "db_put (rDatabaseName (heap w) r) r c w2 = (w3, e)" by fastforce
    ultimately have "same_data w2 w3" "no_hooks w3" "cache w3 = cache w2"
      using db_put_frame[OF p] G(4) n1 by auto
    moreover have "same_data w w2" using G(1) n1(2) same_data_trans by blast
    ultimately show ?thesis using Some g Inr p G(2)
      by (auto simp: cacheEvictHandler_def Let_def same_data_def no_hooks_def)
  qed
qed

lemma handle_evicted_frame:
  "no_hooks w \<Longrightarrow> same_data w (handle_evicted env ks w) \<and> no_hooks (handle_evicted env ks w) \<and>
     cache (handle_evicted env ks w) = cache w"
proof (induction ks arbitrary: w)
  case (Cons k ks)
  note C = cacheEvictHandler_frame[OF Cons.prems, of env k]
  then show ?case using Cons.IH[of "cacheEvictHandler env k w"] same_data_trans
    by (auto simp: handle_evicted_def)
qed (simp add: handle_evicted_def)

lemma checkCache_frame:
  assumes "checkCache env key w = (w', ro)" "cache w = None \<or> no_hooks w"
  shows "same_data w w'" "cache w' = None \<or> no_hooks w'"
proof -
  have "same_data w w' \<and> (cache w' = None \<or> no_hooks w')"
  proof (cases "cache w")
    case None then show ?thesis using assms by (auto simp: checkCache_def)
  next
    case (Some c)
    then have n: "no_hooks w" using assms(2) by simp
    obtain c' ev r where k: "kGet (gcache env) (now w) key c = (c', ev, r)" by (metis prod_cases3)
    have "no_hooks (w\<lparr>cache := Some c'\<rparr>)" using n by (simp add: no_hooks_def)
    from handle_evicted_frame[OF this, of env ev] show ?thesis using assms(1) Some k
      by (auto simp: checkCache_def same_data_def)
  qed
  then show "same_data w w'" "cache w' = None \<or> no_hooks w'" by auto
qed

lemma updateCache_frame:
  assumes "updateCache env r wr rm ttl w = (w', b)" "cache w = None \<or> no_hooks w"
  shows "same_data w w'" "cache w' = None \<or> no_hooks w'"
proof -
  have "same_data w w' \<and> (cache w' = None \<or> no_hooks w')"
  proof (cases "cache w")
    case None then show ?thesis using assms by (auto simp: updateCache_def)
  next
    case (Some c)
    then have "no_hooks (w\<lparr>cache := Some c'\<rparr>)" for c' using assms(2) by (simp add: no_hooks_def)
    from handle_evicted_frame[OF this] show ?thesis using assms(1) Some
      by (auto simp: updateCache_def Let_def same_data_def no_hooks_def split: if_splits prod.splits)
  qed
  then show "same_data w w'" "cache w' = None \<or> no_hooks w'" by auto
qed

end
