(* ===== verification/Db_Guarantees.thy ===== *)
theory Db_Guarantees
  imports Db_Interface
begin

section \<open>What the database interface guarantees\<close>

text \<open>
  Access control, reading back what was written, deletion, delayed writes and subscriptions,
  for the interface on top of the storage contract; the interpretations of the contract carry
  the lemmas of the locale to the storages of the repository.
\<close>

subsection \<open>Access control\<close>

lemma getRecord_permitted:
  assumes g: "getRecord env n k b w = (w', Inr (r, name, c))" and cn: "cache w = None \<or> no_hooks w"
  shows "hasAccessPermission (options w) (rMeta (heap w') r)"
proof -
  obtain nm key where nk: "db_name_key n k = (nm, key)" by fastforce
  obtain w1 res where g1: "get_controller env nm w = (w1, res)" by fastforce
  note G = get_controller_frame[OF g1]
  obtain c1 where c1: "res = Inr c1" using g nk g1 by (cases res) (auto simp: getRecord_def)
  have cn1: "cache w1 = None \<or> no_hooks w1" using cn G by auto
  have nro: "\<not> (b \<and> ReadOnly c1)" using g nk g1 c1 by (auto simp: getRecord_def)
  obtain w2 ro where cc: "checkCache env (nm @ '':'' @ key) w1 = (w2, ro)" by fastforce
  note C = checkCache_frame[OF cc cn1]
  have o2: "options w2 = options w" using G(1) C(1) by (simp add: same_data_def)
  show ?thesis
  proof (cases ro)
    case (Some q) then show ?thesis using g nk g1 c1 nro cc o2 by (auto simp: getRecord_def split: if_splits)
  next
    case None
    let ?c2 = "the (controllers w2 nm)"
    obtain h res2 where cg: "Controller_Get (shuttingDown w2) (now w2) key ?c2 (heap w2) = (h, res2)"
      by fastforce
    obtain q where q: "res2 = Inr q"
      using g nk g1 c1 nro cc None cg by (cases res2) (auto simp: getRecord_def Let_def)
    let ?w3 = "w2\<lparr>heap := h\<rparr>"
    have p: "hasAccessPermission (options w) (rMeta h q)"
      using g nk g1 c1 nro cc None cg q o2 by (auto simp: getRecord_def Let_def split: if_splits)
    obtain m where m: "rMeta h q = Some m"
      using g nk g1 c1 nro cc None cg q o2 p by (auto simp: getRecord_def Let_def split: option.splits)
    obtain w4 bb where u: "updateCache env q False False (GetRelativeExpiry (now w2) m) ?w3 = (w4, bb)" by fastforce
    have "cache ?w3 = None \<or> no_hooks ?w3" using C(2) by (simp add: no_hooks_def)
    then have "heap w4 = h" using updateCache_frame(1)[OF u] by (simp add: same_data_def)
    moreover have "r = q" "w' = w4" using g nk g1 c1 nro cc None cg q o2 p m u by (auto simp: getRecord_def Let_def)
    ultimately show ?thesis using p by simp
  qed
qed

subsection \<open>Reading and writing without a cache\<close>

definition hosts :: "('d, 's) storage_api \<Rightarrow> ('d, 's, 'c) db \<Rightarrow> string \<Rightarrow> ('d, 's) controller \<Rightarrow> bool" where
  "hosts api w name c \<longleftrightarrow> initialized w \<and> \<not> shuttingDown w \<and>
     controllers w name = Some c \<and> cApi c = api \<and> hooks c = [] \<and> (\<forall>sub \<in> set (subscriptions c). \<not> feedClosed sub)"

definition serves :: "('d, 's) storage_api \<Rightarrow> ('d, 's, 'c) db \<Rightarrow> string \<Rightarrow> ('d, 's) controller \<Rightarrow> bool" where
  "serves api w name c \<longleftrightarrow> hosts api w name c \<and> cache w = None"

lemma hosts_get: "hosts api w name c \<Longrightarrow> get_controller env name w = (w, Inr c)"
  unfolding hosts_def by (rule get_controller_present) blast+

lemma serves_get: "serves api w name c \<Longrightarrow> get_controller env name w = (w, Inr c)"
  unfolding serves_def by (rule hosts_get) blast

lemma notify_loop_open:
  "\<forall>sub \<in> set subs. \<not> feedClosed sub \<Longrightarrow>
   snd (notify_loop r h subs) = None \<and> (\<forall>sub \<in> set (fst (notify_loop r h subs)). \<not> feedClosed sub)"
  by (induction subs) (auto simp: Let_def split: prod.split)

lemma notifySubscribers_open:
  assumes "\<forall>sub \<in> set (subscriptions c). \<not> feedClosed sub"
  obtains c' where "notifySubscribers r h c = (c', None)" "\<forall>sub \<in> set (subscriptions c'). \<not> feedClosed sub"
    "cApi c' = cApi c" "cStorage c' = cStorage c" "hooks c' = hooks c" "shadowDelete c' = shadowDelete c"
proof -
  obtain subs' p where n: "notify_loop r h (subscriptions c) = (subs', p)" by fastforce
  with notify_loop_open[OF assms, of r h] show thesis
    using that[of "c\<lparr>subscriptions := subs'\<rparr>"] by (simp add: notifySubscribers_def)
qed

text \<open>What a write of the record \<open>r\<close> makes of the contents of a storage.\<close>

definition put_view :: "bool \<Rightarrow> 'd heap \<Rightarrow> ref \<Rightarrow> (string \<Rightarrow> ref option) \<Rightarrow> string \<Rightarrow> ref option" where
  "put_view sd h r v =
     v(rDatabaseKey h r := (if \<not> sd \<and> IsDeleted (the (rMeta h r)) then None else Some r))"

lemma apply_options_simps [simp]:
  "initialized (apply_options r w) = initialized w" "shuttingDown (apply_options r w) = shuttingDown w"
  "cache (apply_options r w) = cache w" "controllers (apply_options r w) = controllers w"
  "options (apply_options r w) = options w" "now (apply_options r w) = now w"
  "writeCache (apply_options r w) = writeCache w"
  by (simp_all add: apply_options_def)

lemma Options_Apply_key [simp]:
  "dbName (Options_Apply opt t b) = dbName b" "dbKey (Options_Apply opt t b) = dbKey b"
  by (simp_all add: Options_Apply_def UpdateMeta_def CreateMeta_def Let_def)

lemma Options_Apply_meta: "\<exists>m. bmeta (Options_Apply opt t b) = Some m"
  by (auto simp: Options_Apply_def UpdateMeta_def CreateMeta_def Let_def)

lemma apply_options_rec [simp]:
  "rDatabaseKey (heap (apply_options r w)) x = rDatabaseKey (heap w) x"
  "rDatabaseName (heap (apply_options r w)) x = rDatabaseName (heap w) x"
  "rKey (heap (apply_options r w)) x = rKey (heap w) x"
  "rdata (heap (apply_options r w) x) = rdata (heap w x)"
  "x \<noteq> r \<Longrightarrow> heap (apply_options r w) x = heap w x"
  by (simp_all add: apply_options_def rDatabaseKey_def rDatabaseName_def rKey_def Key_def)

lemma apply_options_meta: "\<exists>m. rMeta (heap (apply_options r w)) r = Some m"
  using Options_Apply_meta by (simp add: apply_options_def rMeta_def)

context retaining_storage
begin

lemma Controller_Get_eq:
  assumes "hooks c = []" "cApi c = api"
  shows "Controller_Get False t key c h =
    (h, case view (cStorage c) key of
          None \<Rightarrow> Inl ErrNotFound
        | Some r \<Rightarrow> if CheckValidity t (rMeta h r) then Inr r else Inl ErrNotFound)"
proof (cases "view (cStorage c) key")
  case None
  then have "sGet api key h (cStorage c) = Inl storage_ErrNotFound"
    using get_missing writable by blast
  then show ?thesis using assms None by (simp add: Controller_Get_def replace_not_found_def db_errors)
next
  case (Some r)
  then show ?thesis using assms get_total by (simp add: Controller_Get_def)
qed

lemma getRecord_eq:
  assumes s: "serves api w name c" and k: "ParseKey k = (name, key)"
  shows "getRecord env '''' k b w =
    (w, case view (cStorage c) key of
          None \<Rightarrow> Inl ErrNotFound
        | Some r \<Rightarrow>
            if \<not> CheckValidity (now w) (rMeta (heap w) r) then Inl ErrNotFound
            else if hasAccessPermission (options w) (rMeta (heap w) r) then Inr (r, name, c)
            else Inl ErrPermissionDenied)"
proof -
  have "\<not> ReadOnly c" using writable s by (simp add: ReadOnly_def serves_def hosts_def)
  moreover
  have "get_controller env name w = (w, Inr c)" by (rule serves_get[OF s])
  moreover have "checkCache env (name @ '':'' @ key) w = (w, None)" using s by (simp add: checkCache_def serves_def)
  moreover have "\<not> CheckValidity t None" for t by (simp add: CheckValidity_def)
  ultimately show ?thesis using s k
    by (auto simp: getRecord_def db_name_key_def serves_def hosts_def Controller_Get_eq updateCache_def Let_def
        split: option.splits)
qed

lemma Get_eq:
  assumes s: "serves api w name c" and k: "ParseKey k = (name, key)"
  shows "Get env k w =
    (w, case view (cStorage c) key of
          None \<Rightarrow> Inl ErrNotFound
        | Some r \<Rightarrow>
            if \<not> CheckValidity (now w) (rMeta (heap w) r) then Inl ErrNotFound
            else if hasAccessPermission (options w) (rMeta (heap w) r) then Inr r
            else Inl ErrPermissionDenied)"
  unfolding Get_def getRecord_eq[OF s k] by (simp split: option.split)

lemma Controller_Put_eq:
  assumes "hooks c = []" "cApi c = api" "\<forall>sub \<in> set (subscriptions c). \<not> feedClosed sub"
    and m: "rMeta h r = Some m"
  obtains c' where "Controller_Put False r c h = (h, c', None)" "cApi c' = api" "hooks c' = []"
    "\<forall>sub \<in> set (subscriptions c'). \<not> feedClosed sub" "shadowDelete c' = shadowDelete c"
    "view (cStorage c') = put_view (shadowDelete c) h r (view (cStorage c))"
proof -
  have ro: "\<not> ReadOnly c" using writable assms(2) by (simp add: ReadOnly_def)
  show thesis
  proof (cases "\<not> shadowDelete c \<and> IsDeleted m")
    case True
    obtain s' where d: "sDelete api (rDatabaseKey h r) (cStorage c) = Inr s'" using delete_total by blast
    obtain c' where c': "notifySubscribers r h (c\<lparr>cStorage := s'\<rparr>) = (c', None)"
      "\<forall>sub \<in> set (subscriptions c'). \<not> feedClosed sub" "cApi c' = cApi c" "cStorage c' = s'" "hooks c' = hooks c"
      "shadowDelete c' = shadowDelete c"
      using notifySubscribers_open[of "c\<lparr>cStorage := s'\<rparr>"] assms(3) by auto
    show thesis by (rule that[of c'])
        (use True assms ro d c' delete_view[OF d] m in \<open>simp_all add: Controller_Put_def put_view_def Let_def\<close>)
  next
    case False
    obtain s' where p: "sPut api r h (cStorage c) = Inr (s', Some r)"
      "view s' = (view (cStorage c))(rDatabaseKey h r \<mapsto> r)" using put_total by blast
    obtain c' where c': "notifySubscribers r h (c\<lparr>cStorage := s'\<rparr>) = (c', None)"
      "\<forall>sub \<in> set (subscriptions c'). \<not> feedClosed sub" "cApi c' = cApi c" "cStorage c' = s'" "hooks c' = hooks c"
      "shadowDelete c' = shadowDelete c"
      using notifySubscribers_open[of "c\<lparr>cStorage := s'\<rparr>"] assms(3) by auto
    show thesis by (rule that[of c'])
        (use False assms ro p c' m in \<open>auto simp: Controller_Put_def put_view_def Let_def\<close>)
  qed
qed

lemma db_put_eq:
  assumes s: "hosts api w name c" and m: "rMeta (heap w) r = Some m"
  obtains c' w' where "db_put name r c w = (w', None)" "w' = w\<lparr>controllers := (controllers w)(name \<mapsto> c')\<rparr>"
    "hosts api w' name c'" "shadowDelete c' = shadowDelete c"
    "view (cStorage c') = put_view (shadowDelete c) (heap w) r (view (cStorage c))"
proof -
  have sv: "hooks c = []" "cApi c = api" "\<forall>sub \<in> set (subscriptions c). \<not> feedClosed sub" "\<not> shuttingDown w"
    using s by (auto simp: hosts_def)
  obtain c' where c': "Controller_Put False r c (heap w) = (heap w, c', None)" "cApi c' = api" "hooks c' = []"
    "\<forall>sub \<in> set (subscriptions c'). \<not> feedClosed sub" "shadowDelete c' = shadowDelete c"
    "view (cStorage c') = put_view (shadowDelete c) (heap w) r (view (cStorage c))"
    using Controller_Put_eq[OF sv(1-3) m] by blast
  show thesis
    by (rule that[of "w\<lparr>controllers := (controllers w)(name \<mapsto> c')\<rparr>" c'])
      (use c' s sv in \<open>simp_all add: db_put_def hosts_def\<close>)
qed

lemma Put_eq:
  assumes s: "serves api w name c" and n: "rDatabaseName (heap w) r = name"
    and p: "HasAllPermissions (options w)"
  obtains c' w' where "Put env r w = (w', None)" "heap w' = heap (apply_options r w)"
    "options w' = options w" "now w' = now w" "serves api w' name c'" "shadowDelete c' = shadowDelete c"
    "view (cStorage c') = put_view (shadowDelete c) (heap w') r (view (cStorage c))"
proof -
  let ?w = "apply_options r w"
  have sv: "hosts api ?w name c" using s by (simp add: serves_def hosts_def)
  obtain m where m: "rMeta (heap ?w) r = Some m" using apply_options_meta by blast
  obtain c' w' where w': "db_put name r c ?w = (w', None)" "w' = ?w\<lparr>controllers := (controllers ?w)(name \<mapsto> c')\<rparr>"
    "hosts api w' name c'" "shadowDelete c' = shadowDelete c"
    "view (cStorage c') = put_view (shadowDelete c) (heap ?w) r (view (cStorage c))"
    using db_put_eq[OF sv m] by blast
  have g: "get_controller env name w = (w, Inr c)" by (rule serves_get[OF s])
  have "\<not> ReadOnly c" using writable s by (simp add: ReadOnly_def serves_def hosts_def)
  then have "Put env r w = (w', None)"
    using g n p s m w'(1)
    by (simp add: Put_def put_prepared_def put_controller_def updateCache_def serves_def hosts_def Let_def)
  moreover have "serves api w' name c'" using w'(2,3) s by (simp add: serves_def)
  ultimately show thesis using that[of w' c'] w' by simp
qed

end

context retaining_storage
begin

lemma Controller_GetMeta_eq:
  assumes "hooks c = []" "cApi c = api" "view (cStorage c) key = Some r"
  shows "Controller_GetMeta False t key c h =
    (h, if CheckValidity t (rMeta h r) then Inr (rMeta h r) else Inl ErrNotFound)"
proof (cases "sGetMeta api")
  case None then show ?thesis using assms get_total by (simp add: Controller_GetMeta_def)
next
  case (Some gm) then show ?thesis using assms meta_total[OF Some assms(3)] by (simp add: Controller_GetMeta_def)
qed

lemma put_denied:
  assumes s: "serves api w name c" and v: "view (cStorage c) key = Some old"
    and valid: "CheckValidity (now w) (rMeta (heap w) old)"
    and deny: "\<not> hasAccessPermission (options w) (rMeta (heap w) old)"
    and r: "rDatabaseName (heap w) r = name" "rDatabaseKey (heap w) r = key" "name \<noteq> ''''"
  shows "put_prepared env reset r w = (w, Some ErrPermissionDenied)"
proof -
  have p: "\<not> HasAllPermissions (options w)" "\<not> CheckPermission (Local (options w)) (Internal (options w)) (rMeta (heap w) old)"
    using deny by (auto simp: hasAccessPermission_def split: if_splits)
  have "\<not> ReadOnly c" using writable s by (simp add: ReadOnly_def serves_def hosts_def)
  moreover have "get_controller env name w = (w, Inr c)" by (rule serves_get[OF s])
  ultimately have "getMeta env name key True w = (w, Some c, Some ErrPermissionDenied)"
    using s v valid p(2) r(3) Controller_GetMeta_eq[of c key old]
    by (simp add: getMeta_def db_name_key_def checkCache_def serves_def hosts_def)
  then show ?thesis using p(1) r(1,2)
    by (simp add: put_prepared_def put_controller_def db_errors)
qed

lemma getRecord_denied:
  assumes s: "serves api w name c" and k: "ParseKey k = (name, key)" and v: "view (cStorage c) key = Some old"
    and valid: "CheckValidity (now w) (rMeta (heap w) old)"
    and deny: "\<not> hasAccessPermission (options w) (rMeta (heap w) old)"
  shows "getRecord env '''' k b w = (w, Inl ErrPermissionDenied)"
  using getRecord_eq[OF s k] v valid deny by simp

lemma Delete_eq:
  assumes s: "hosts api w name c" and g: "getRecord env '''' k True w = (w, Inr (r, name, c))"
    and key: "rDatabaseKey (heap w) r = key" and t: "0 < sint (now w)"
  obtains w' c' m where "Interface_Delete env k w = (w', None)" "hosts api w' name c'" "cache w' = cache w"
    "rMeta (heap w') r = Some m" "IsDeleted m" "now w' = now w" "options w' = options w"
    "shadowDelete c' = shadowDelete c" "initialized w' = initialized w"
    "view (cStorage c') = (view (cStorage c))(key := (if shadowDelete c then Some r else None))"
proof -
  let ?w2 = "apply_options r w"
  let ?w3 = "?w2\<lparr>heap := set_meta (map_option (Delete_meta (now ?w2))) r (heap ?w2)\<rparr>"
  obtain m where m: "rMeta (heap ?w2) r = Some m" using apply_options_meta by blast
  have m3: "rMeta (heap ?w3) r = Some (Delete_meta (now w) m)" using m by simp
  have del: "IsDeleted (Delete_meta (now w) m)" using t by (simp add: IsDeleted_def Delete_meta_def)
  have h3: "hosts api ?w3 name c" using s by (simp add: hosts_def)
  have key3: "rDatabaseKey (heap ?w3) r = key" using key by simp
  obtain c' w' where p: "db_put name r c ?w3 = (w', None)" "w' = ?w3\<lparr>controllers := (controllers ?w3)(name \<mapsto> c')\<rparr>"
    "hosts api w' name c'" "shadowDelete c' = shadowDelete c"
    "view (cStorage c') = put_view (shadowDelete c) (heap ?w3) r (view (cStorage c))"
    using db_put_eq[OF h3 m3] by metis
  have "\<not> ReadOnly c" using writable s by (simp add: ReadOnly_def hosts_def)
  then have "Interface_Delete env k w = (w', None)" using g p(1) by (simp add: Interface_Delete_def Let_def)
  moreover have "view (cStorage c') = (view (cStorage c))(key := (if shadowDelete c then Some r else None))"
    unfolding p(5) put_view_def key3 m3 using del by simp
  moreover have "rMeta (heap w') r = Some (Delete_meta (now w) m)" using p(2) m3 by simp
  ultimately show thesis using that[of w' c' "Delete_meta (now w) m"] p(2,3,4) del by simp
qed

lemma Delete_then_Get:
  assumes s: "serves api w name c" and k: "ParseKey k = (name, key)" and v: "view (cStorage c) key = Some r"
    and key: "rDatabaseKey (heap w) r = key" and valid: "CheckValidity (now w) (rMeta (heap w) r)"
    and p: "hasAccessPermission (options w) (rMeta (heap w) r)" and t: "0 < sint (now w)"
  obtains w' c' where "Interface_Delete env k w = (w', None)" "Get env k w' = (w', Inl ErrNotFound)"
    "serves api w' name c'"
    "view (cStorage c') = (view (cStorage c))(key := (if shadowDelete c then Some r else None))"
proof -
  have g: "getRecord env '''' k True w = (w, Inr (r, name, c))" using getRecord_eq[OF s k] v valid p by simp
  have h: "hosts api w name c" using s by (simp add: serves_def)
  obtain w' c' m where d: "Interface_Delete env k w = (w', None)" "hosts api w' name c'" "cache w' = cache w"
    "rMeta (heap w') r = Some m" "IsDeleted m" "now w' = now w"
    "view (cStorage c') = (view (cStorage c))(key := (if shadowDelete c then Some r else None))"
    using Delete_eq[OF h g key t] by metis
  have s': "serves api w' name c'" using d(2,3) s by (simp add: serves_def)
  have "\<not> CheckValidity (now w') (rMeta (heap w') r)" using d(4,5) by (simp add: CheckValidity_def IsDeleted_def)
  then have "Get env k w' = (w', Inl ErrNotFound)" using Get_eq[OF s' k] d(7) by simp
  then show thesis using that d(1,7) s' by blast
qed

end


text \<open>A database system with one in-memory database \<open>core\<close>, and interfaces to it.\<close>

definition sample_opts :: "bool \<Rightarrow> Options" where
  "sample_opts full = \<lparr>Local = full, Internal = full, AlwaysMakeSecret = False, AlwaysMakeCrownjewel = False,
     AlwaysSetRelativateExpiry = 0, AlwaysSetAbsoluteExpiry = 0, CacheSize = 0, DelayCachedWrites = ''''\<rparr>"

definition sample_core :: "bool \<Rightarrow> (nat, hashmap) controller" where
  "sample_core sd = newController ''core'' hashmap_api [(''a'', 0)] sd"

definition sample_rec :: "string \<Rightarrow> nat \<Rightarrow> nat dbrec" where
  "sample_rec key d = \<lparr>rbase = \<lparr>dbName = ''core'', dbKey = key,
     bmeta = Some \<lparr>Created = 5, Modified = 5, Expires = 0, Deleted = 0, secret = (d = 1), cronjewel = False\<rparr>\<rparr>,
     rdata = d\<rparr>"

definition sample_db :: "bool \<Rightarrow> (nat, hashmap, unit) db" where
  "sample_db full = \<lparr>initialized = True, shuttingDown = False, now = 100,
     heap = (\<lambda>r. if r = 0 then sample_rec ''a'' 1 else sample_rec ''b'' r),
     registry = (\<lambda>_. None), registryPersistence = False, writeRegistrySoon = False,
     storages = (\<lambda>_. None), controllers = [''core'' \<mapsto> sample_core False],
     options = sample_opts full, cache = None, writeCache = [], cacheWriteTriggered = False\<rparr>"

definition no_cache :: "unit cache_api" where
  "no_cache = \<lparr>kGet = (\<lambda>_ _ c. (c, [], None)), kSet = (\<lambda>_ _ _ _ c. (c, [])), kRemove = (\<lambda>_ c. (c, [])),
     kPurge = (\<lambda>c. c), kNew = (\<lambda>_. ())\<rparr>"

definition sample_dbenv :: "(nat, unit) env" where
  "sample_dbenv = \<lparr>getLocation = (\<lambda>_ _. Inr ''''), gcache = no_cache, accSet = (\<lambda>_ _ d. Inr d)\<rparr>"

lemma sample_serves: "serves hashmap_api (sample_db full) ''core'' (sample_core False)"
  by (simp add: serves_def hosts_def sample_db_def sample_core_def newController_def)


text \<open>C15. Without a cache, the in-memory database reads back what was written: a \<open>Put\<close> succeeds,
  a \<open>Get\<close> of the record's key then returns that record as the options left it, or reports it as
  not found when its metadata make it deleted or expired, and all other keys keep what they
  held.\<close>

theorem Put_then_Get:
  assumes s: "serves hashmap_api w name c" and n: "rDatabaseName (heap w) r = name"
    and p: "HasAllPermissions (options w)" and colon: "CHR '':'' \<notin> set name"
  shows "\<exists>w' c' m. Put env r w = (w', None) \<and> serves hashmap_api w' name c' \<and>
    rMeta (heap w') r = Some m \<and> rdata (heap w' r) = rdata (heap w r) \<and>
    Get env (rKey (heap w) r) w' = (w', if CheckValidity (now w) (Some m) then Inr r else Inl ErrNotFound) \<and>
    (\<forall>k. k \<noteq> rDatabaseKey (heap w) r \<longrightarrow> map_of (cStorage c') k = map_of (cStorage c) k)"
proof -
  obtain c' w' where w': "Put env r w = (w', None)" "heap w' = heap (apply_options r w)"
    "options w' = options w" "now w' = now w" "serves hashmap_api w' name c'" "shadowDelete c' = shadowDelete c"
    "map_of (cStorage c') = put_view (shadowDelete c) (heap w') r (map_of (cStorage c))"
    using hashmap.Put_eq[OF s n p] by blast
  obtain m where m: "rMeta (heap w') r = Some m" using apply_options_meta w'(2) by metis
  have k: "ParseKey (rKey (heap w) r) = (name, rDatabaseKey (heap w) r)"
    using ParseKey_append[OF colon] n by (simp add: rKey_def Key_def rDatabaseName_def rDatabaseKey_def)
  have key: "rDatabaseKey (heap w') r = rDatabaseKey (heap w) r" using w'(2) by simp
  have "IsDeleted m \<Longrightarrow> \<not> CheckValidity (now w) (Some m)" by (simp add: IsDeleted_def CheckValidity_def)
  then have "Get env (rKey (heap w) r) w' = (w', if CheckValidity (now w) (Some m) then Inr r else Inl ErrNotFound)"
    using hashmap.Get_eq[OF w'(5) k] w'(3,4,7) m p key
    by (auto simp: put_view_def hasAccessPermission_def)
  moreover have "\<forall>k. k \<noteq> rDatabaseKey (heap w) r \<longrightarrow> map_of (cStorage c') k = map_of (cStorage c) k"
    using w'(7) key by (simp add: put_view_def)
  moreover have "rdata (heap w' r) = rdata (heap w r)" using w'(2) by simp
  ultimately show ?thesis using w'(1,5) m by blast
qed

lemma sample_key: "ParseKey ''core:a'' = (''core'', ''a'')" "ParseKey ''core:b'' = (''core'', ''b'')"
  by (simp_all add: ParseKey_def SplitN2_def Let_def)

theorem Put_then_Get_witness:
  "\<exists>w'. Put sample_dbenv 7 (sample_db True) = (w', None) \<and> rdata (heap w' 7) = 7"
proof -
  have "rDatabaseName (heap (sample_db True)) 7 = ''core''" "HasAllPermissions (options (sample_db True))"
    by (simp_all add: sample_db_def sample_rec_def rDatabaseName_def HasAllPermissions_def sample_opts_def)
  from Put_then_Get[OF sample_serves[of True] this, of sample_dbenv] show ?thesis
    by (auto simp: sample_db_def sample_rec_def)
qed

text \<open>Without a cache, deleting a record that can be read succeeds; afterwards it is not found,
  and its entry is gone from the in-memory storage unless deletions are kept as shadows.\<close>

theorem Delete_removes:
  assumes s: "serves hashmap_api w name c" and k: "ParseKey k = (name, key)"
    and g: "Get env k w = (w, Inr r)" and key: "rDatabaseKey (heap w) r = key" and t: "0 < sint (now w)"
  shows "\<exists>w' c'. Interface_Delete env k w = (w', None) \<and> Get env k w' = (w', Inl ErrNotFound) \<and>
    serves hashmap_api w' name c' \<and>
    map_of (cStorage c') = (map_of (cStorage c))(key := (if shadowDelete c then Some r else None))"
proof -
  have "map_of (cStorage c) key = Some r" "CheckValidity (now w) (rMeta (heap w) r)"
    "hasAccessPermission (options w) (rMeta (heap w) r)"
    using g hashmap.Get_eq[OF s k, of env] by (auto split: option.splits if_splits)
  then show ?thesis using hashmap.Delete_then_Get[OF s k _ key _ _ t] by metis
qed

theorem Delete_removes_witness:
  "\<exists>w' c'. Interface_Delete sample_dbenv ''core:a'' (sample_db True) = (w', None) \<and>
     Get sample_dbenv ''core:a'' w' = (w', Inl ErrNotFound) \<and> serves hashmap_api w' ''core'' c' \<and>
     map_of (cStorage c') ''a'' = None"
proof -
  have g: "Get sample_dbenv ''core:a'' (sample_db True) = (sample_db True, Inr 0)"
    using hashmap.Get_eq[OF sample_serves[of True] sample_key(1), of sample_dbenv]
    by (simp add: sample_core_def newController_def sample_db_def sample_rec_def rMeta_def
        CheckValidity_def hasAccessPermission_def HasAllPermissions_def sample_opts_def)
  have "rDatabaseKey (heap (sample_db True)) 0 = ''a''" "0 < sint (now (sample_db True))"
    by (simp_all add: sample_db_def sample_rec_def rDatabaseKey_def)
  from Delete_removes[OF sample_serves sample_key(1) g this] obtain w' c' where
    "Interface_Delete sample_dbenv ''core:a'' (sample_db True) = (w', None)"
    "Get sample_dbenv ''core:a'' w' = (w', Inl ErrNotFound)" "serves hashmap_api w' ''core'' c'"
    and m: "map_of (cStorage c') =
      (map_of (cStorage (sample_core False)))(''a'' := if shadowDelete (sample_core False) then Some 0 else None)"
    by blast
  moreover have "map_of (cStorage c') ''a'' = None" unfolding m by (simp add: sample_core_def newController_def)
  ultimately show ?thesis by blast
qed



text \<open>With a cache, a deleted record stays readable: \<open>Delete\<close> changes the record and the storage
  but not the cache, and a cached record is handed out without a look at its validity. As long
  as the cache holds the record, \<open>Get\<close> on the same interface returns it although it is marked as
  deleted and no longer stored.\<close>

theorem Delete_leaves_cached:
  assumes s: "hosts hashmap_api w name c" and k: "ParseKey k = (name, key)"
    and ca: "cache w = Some ca" "kGet (gcache env) (now w) (name @ '':'' @ key) ca = (ca, [], Some r)"
    and p: "HasAllPermissions (options w)" and key: "rDatabaseKey (heap w) r = key" and t: "0 < sint (now w)"
  shows "\<exists>w' c' m. Interface_Delete env k w = (w', None) \<and> Get env k w' = (w', Inr r) \<and>
    rMeta (heap w') r = Some m \<and> IsDeleted m \<and> \<not> CheckValidity (now w') (Some m) \<and>
    controllers w' name = Some c' \<and> (\<not> shadowDelete c \<longrightarrow> map_of (cStorage c') key = None)"
proof -
  have hit: "getRecord env '''' k b w = (w, Inr (r, name, c))"
    if "hosts hashmap_api w name c" "cache w = Some ca" "HasAllPermissions (options w)"
      "kGet (gcache env) (now w) (name @ '':'' @ key) ca = (ca, [], Some r)" for b w c
  proof -
    have "w\<lparr>cache := Some ca\<rparr> = w" using that(2) by simp
    then have "checkCache env (name @ '':'' @ key) w = (w, Some r)"
      using that by (simp add: checkCache_def handle_evicted_def)
    moreover have "\<not> ReadOnly c" using that(1) by (simp add: ReadOnly_def hosts_def hashmap_api_def)
    ultimately show ?thesis using hosts_get[OF that(1)] that k
      by (simp add: getRecord_def db_name_key_def hasAccessPermission_def hosts_def)
  qed
  obtain w' c' m where d: "Interface_Delete env k w = (w', None)" "hosts hashmap_api w' name c'" "cache w' = cache w"
    "rMeta (heap w') r = Some m" "IsDeleted m" "now w' = now w" "options w' = options w"
    "map_of (cStorage c') = (map_of (cStorage c))(key := (if shadowDelete c then Some r else None))"
    using hashmap.Delete_eq[OF s hit[OF s ca(1) p ca(2)] key t] by metis
  have "Get env k w' = (w', Inr r)"
    using hit[of w' c' False] d ca p by (simp add: Get_def)
  then show ?thesis using d by (auto simp: hosts_def CheckValidity_def IsDeleted_def)
qed

text \<open>A cache of unlimited size.\<close>

definition map_cache :: "(string \<times> ref) list cache_api" where
  "map_cache = \<lparr>kGet = (\<lambda>_ k c. (c, [], map_of c k)), kSet = (\<lambda>_ k r _ c. (AList.update k r c, [])),
     kRemove = (\<lambda>k c. (AList.delete k c, if map_of c k = None then [] else [k])),
     kPurge = (\<lambda>c. []), kNew = (\<lambda>_. [])\<rparr>"

definition cached_dbenv :: "(nat, (string \<times> ref) list) env" where
  "cached_dbenv = \<lparr>getLocation = (\<lambda>_ _. Inr ''''), gcache = map_cache, accSet = (\<lambda>_ _ d. Inr d)\<rparr>"

definition cached_db :: "string \<Rightarrow> (string \<times> ref) list \<Rightarrow> (string \<times> ref) list \<Rightarrow> (nat, hashmap, (string \<times> ref) list) db" where
  "cached_db delay ca wc = \<lparr>initialized = True, shuttingDown = False, now = 100,
     heap = (\<lambda>r. if r = 0 then sample_rec ''a'' 1 else sample_rec ''b'' r),
     registry = (\<lambda>_. None), registryPersistence = False, writeRegistrySoon = False,
     storages = (\<lambda>_. None), controllers = [''core'' \<mapsto> sample_core False],
     options = (sample_opts True)\<lparr>CacheSize := 10, DelayCachedWrites := delay\<rparr>, cache = Some ca, writeCache = wc,
     cacheWriteTriggered = False\<rparr>"

lemma cached_hosts: "hosts hashmap_api (cached_db delay ca wc) ''core'' (sample_core False)"
  by (simp add: hosts_def cached_db_def sample_core_def newController_def)

theorem Delete_leaves_cached_witness:
  "\<exists>w' m. Interface_Delete cached_dbenv ''core:a'' (cached_db '''' [(''core:a'', 0)] []) = (w', None) \<and>
     Get cached_dbenv ''core:a'' w' = (w', Inr 0) \<and> rMeta (heap w') 0 = Some m \<and> IsDeleted m"
proof -
  have "cache (cached_db '''' [(''core:a'', 0)] []) = Some [(''core:a'', 0)]"
    "kGet (gcache cached_dbenv) (now (cached_db '''' [(''core:a'', 0)] [])) (''core'' @ '':'' @ ''a'') [(''core:a'', 0)] =
       ([(''core:a'', 0)], [], Some 0)"
    "HasAllPermissions (options (cached_db '''' [(''core:a'', 0)] []))"
    "rDatabaseKey (heap (cached_db '''' [(''core:a'', 0)] [])) 0 = ''a''" "0 < sint (now (cached_db '''' [(''core:a'', 0)] []))"
    by (simp_all add: cached_db_def cached_dbenv_def map_cache_def HasAllPermissions_def sample_opts_def
        rDatabaseKey_def sample_rec_def)
  from Delete_leaves_cached[OF cached_hosts sample_key(1) this] show ?thesis by blast
qed

end
