(* ===== verification/Db_Delayed.thy ===== *)
theory Db_Delayed
  imports Db_Guarantees
begin

section \<open>Delayed writes and subscriptions\<close>

text \<open>
  An interface with \<open>DelayCachedWrites\<close> keeps written records in its write cache until they are
  flushed or evicted. The contents of the database as such an interface means it, \<open>eff\<close>, are the
  storage overlaid by the write cache. The second part is on cancelling subscriptions.
\<close>

subsection \<open>Storages with batches\<close>

locale batching_storage = retaining_storage api view
  for api :: "('d, 's) storage_api" and view :: "'s \<Rightarrow> string \<Rightarrow> ref option" +
  fixes batch :: "bool \<Rightarrow> ref \<Rightarrow> 'd heap \<Rightarrow> 's \<Rightarrow> 's res"
  assumes has_batch: "sBatchPut api = Some batch"
    and batch_view: "rMeta h r = Some m \<Longrightarrow> \<exists>s'. batch sd r h s = Inr s' \<and> view s' = put_view sd h r (view s)"

interpretation hashmap_batch: batching_storage hashmap_api map_of hm_batchPutOrDelete
  by unfold_locales
    (auto simp: hashmap_api_def hm_batchPutOrDelete_def put_view_def AList.update_conv' map_of_delete)

subsection \<open>The contents an interface means\<close>

definition live :: "'d heap \<Rightarrow> ref \<Rightarrow> bool" where
  "live h r \<longleftrightarrow> (\<exists>m. rMeta h r = Some m \<and> \<not> IsDeleted m)"

definition wc_ok :: "string \<Rightarrow> ('d, 's, 'c) db \<Rightarrow> bool" where
  "wc_ok name w \<longleftrightarrow> distinct (map fst (writeCache w)) \<and>
     (\<forall>(k, r) \<in> set (writeCache w). k = rKey (heap w) r \<and> rDatabaseName (heap w) r = name \<and> live (heap w) r)"

definition eff :: "('s \<Rightarrow> string \<Rightarrow> ref option) \<Rightarrow> string \<Rightarrow> ('d, 's, 'c) db \<Rightarrow> string \<Rightarrow> ref option" where
  "eff view name w key =
     (case map_of (writeCache w) (name @ '':'' @ key) of
        Some r \<Rightarrow> Some r
      | None \<Rightarrow> (case controllers w name of None \<Rightarrow> None | Some c \<Rightarrow> view (cStorage c) key))"

lemma eff_cong:
  "writeCache w' = writeCache w \<Longrightarrow> controllers w' name = controllers w name \<Longrightarrow>
   eff view name w' = eff view name w"
  by (simp add: eff_def fun_eq_iff cong: option.case_cong)

lemma eff_host: "controllers w name = Some c \<Longrightarrow> eff view name w key =
    (case map_of (writeCache w) (name @ '':'' @ key) of Some r \<Rightarrow> Some r | None \<Rightarrow> view (cStorage c) key)"
  by (simp add: eff_def cong: option.case_cong)

lemma set_update_subset: "set (AList.update k v al) \<subseteq> insert (k, v) (set al)"
  by (induction al) auto

lemma wc_okD:
  assumes "wc_ok name w" "map_of (writeCache w) k = Some r"
  shows "k = name @ '':'' @ rDatabaseKey (heap w) r" "rDatabaseName (heap w) r = name" "live (heap w) r"
proof -
  have "(k, r) \<in> set (writeCache w)" using assms(2) by (rule map_of_SomeD)
  then have "k = rKey (heap w) r" "rDatabaseName (heap w) r = name" "live (heap w) r"
    using assms(1) by (auto simp: wc_ok_def)
  then show "k = name @ '':'' @ rDatabaseKey (heap w) r" "rDatabaseName (heap w) r = name" "live (heap w) r"
    by (simp_all add: rKey_def Key_def rDatabaseKey_def rDatabaseName_def)
qed

lemma put_view_live: "live h r \<Longrightarrow> put_view sd h r v = v(rDatabaseKey h r \<mapsto> r)"
  by (auto simp: put_view_def live_def)

lemma wc_ok_delete: "wc_ok name w \<Longrightarrow> wc_ok name (w\<lparr>writeCache := AList.delete k (writeCache w)\<rparr>)"
  by (auto simp: wc_ok_def AList.delete_eq distinct_map_filter)

text \<open>Applying the options does not make a record deleted.\<close>

lemma Options_Apply_live:
  assumes "\<And>m. bmeta b = Some m \<Longrightarrow> \<not> IsDeleted m"
  shows "\<exists>m. bmeta (Options_Apply opt t b) = Some m \<and> \<not> IsDeleted m"
proof -
  have neg: "sint (- s) \<le> 0" if "0 < sint s" for s :: int64
    using that sint_minus_no_wrap[of s] sint_int64_range[of s] by auto
  obtain m where m: "bmeta (UpdateMeta t b) = Some m" "\<not> 0 < sint (Deleted m)"
    using assms by (cases "bmeta b") (auto simp: UpdateMeta_def CreateMeta_def Update_def Let_def zero_meta_def IsDeleted_def)
  then show ?thesis using neg
    by (auto simp: Options_Apply_def Let_def IsDeleted_def MakeSecret_def MakeCrownJewel_def SetAbsoluteExpiry_def
        SetRelativateExpiry_def not_less split: if_splits)
qed

lemma apply_options_live: "live (heap w) x \<Longrightarrow> live (heap (apply_options r w)) x"
proof (cases "x = r")
  case True
  assume "live (heap w) x"
  then have "\<exists>m. bmeta (Options_Apply (options w) (now w) (rbase (heap w r))) = Some m \<and> \<not> IsDeleted m"
    using True by (intro Options_Apply_live) (auto simp: live_def rMeta_def)
  then show ?thesis using True by (simp add: live_def rMeta_def apply_options_def)
qed (simp add: live_def rMeta_def)

context retaining_storage
begin

lemma evict_keeps_eff:
  assumes h: "hosts api w name c" and wc: "wc_ok name w"
  shows "\<exists>c'. hosts api (cacheEvictHandler env k w) name c' \<and> wc_ok name (cacheEvictHandler env k w) \<and>
    eff view name (cacheEvictHandler env k w) = eff view name w \<and> same_data w (cacheEvictHandler env k w) \<and>
    shadowDelete c' = shadowDelete c"
proof (cases "map_of (writeCache w) k")
  case None then show ?thesis using h wc by (auto simp: cacheEvictHandler_def)
next
  case (Some r)
  note W = wc_okD[OF wc Some]
  let ?w1 = "w\<lparr>writeCache := AList.delete k (writeCache w)\<rparr>"
  have h1: "hosts api ?w1 name c" using h by (simp add: hosts_def)
  obtain m where m: "rMeta (heap ?w1) r = Some m" using W(3) by (auto simp: live_def)
  obtain c' w' where p: "db_put name r c ?w1 = (w', None)" "w' = ?w1\<lparr>controllers := (controllers ?w1)(name \<mapsto> c')\<rparr>"
    "hosts api w' name c'" "shadowDelete c' = shadowDelete c"
    "view (cStorage c') = put_view (shadowDelete c) (heap ?w1) r (view (cStorage c))"
    using db_put_eq[OF h1 m] by metis
  have e: "cacheEvictHandler env k w = w'\<lparr>cacheWriteTriggered := True\<rparr>"
    using Some W(2) hosts_get[OF h1] p(1) by (simp add: cacheEvictHandler_def Let_def)
  have v: "view (cStorage c') = (view (cStorage c))(rDatabaseKey (heap w) r \<mapsto> r)"
    using p(5) put_view_live[of "heap ?w1" r] W(3) by simp
  have "hosts api (cacheEvictHandler env k w) name c'" using p(3) by (simp add: e hosts_def)
  moreover have "wc_ok name (cacheEvictHandler env k w)" using wc_ok_delete[OF wc] by (simp add: e p(2) wc_ok_def)
  moreover have "same_data w (cacheEvictHandler env k w)" by (simp add: e p(2) same_data_def)
  moreover have "eff view name (cacheEvictHandler env k w) = eff view name w"
  proof
    fix key
    have c: "controllers w name = Some c" "controllers (cacheEvictHandler env k w) name = Some c'"
      using h by (simp_all add: hosts_def e p(2))
    have wc': "map_of (writeCache (cacheEvictHandler env k w)) = (map_of (writeCache w))(k := None)"
      by (simp add: e p(2) map_of_delete)
    show "eff view name (cacheEvictHandler env k w) key = eff view name w key"
      unfolding eff_host[OF c(1)] eff_host[OF c(2)] wc' v using Some W(1) by (auto split: option.split)
  qed
  ultimately show ?thesis using p(4) by blast
qed

lemma handle_evicted_keeps_eff:
  assumes "hosts api w name c" "wc_ok name w"
  shows "\<exists>c'. hosts api (handle_evicted env ks w) name c' \<and> wc_ok name (handle_evicted env ks w) \<and>
    eff view name (handle_evicted env ks w) = eff view name w \<and> same_data w (handle_evicted env ks w)"
  using assms
proof (induction ks arbitrary: w c)
  case Nil then show ?case by (auto simp: handle_evicted_def)
next
  case (Cons k ks)
  let ?w = "cacheEvictHandler env k w"
  obtain c1 where 1: "hosts api ?w name c1" "wc_ok name ?w" "eff view name ?w = eff view name w" "same_data w ?w"
    using evict_keeps_eff[OF Cons.prems] by blast
  from Cons.IH[OF 1(1,2)] 1(3,4) show ?case
    unfolding handle_evicted_def using same_data_trans by (auto simp: handle_evicted_def)
qed

text \<open>A delayed \<open>Put\<close>: the record is the contents of its key from now on, nothing else changes.\<close>

lemma delayed_Put:
  assumes h: "hosts api w name c" and wc: "wc_ok name w" and ca: "cache w = Some ca"
    and d: "DelayCachedWrites (options w) = name" and p: "HasAllPermissions (options w)"
    and r: "rDatabaseName (heap w) r = name" "live (heap w) r"
  shows "\<exists>w' c'. Put env r w = (w', None) \<and> hosts api w' name c' \<and> wc_ok name w' \<and>
    map_of (writeCache w') (rKey (heap w) r) = Some r \<and>
    eff view name w' = (eff view name w)(rDatabaseKey (heap w) r \<mapsto> r)"
proof -
  let ?w3 = "apply_options r w"
  have h3: "hosts api ?w3 name c" using h by (simp add: hosts_def)
  have wc3: "wc_ok name ?w3" using wc apply_options_live[of w _ r] by (auto simp: wc_ok_def)
  obtain m where m: "rMeta (heap ?w3) r = Some m" "\<not> IsDeleted m"
    using apply_options_live[OF r(2), of r] by (auto simp: live_def)
  let ?ttl = "GetRelativeExpiry (now w) m"
  obtain c' ks where ks: "kSet (gcache env) (now w) (rKey (heap w) r) r (if 0 \<le> sint ?ttl then Some ?ttl else None) ca = (c', ks)"
    by fastforce
  let ?w4 = "?w3\<lparr>cache := Some c'\<rparr>"
  have h4: "hosts api ?w4 name c" "wc_ok name ?w4" "eff view name ?w4 = eff view name w"
    using h3 wc3 by (auto simp: hosts_def wc_ok_def intro!: eff_cong)
  define w5 where "w5 = handle_evicted env ks ?w4"
  obtain c5 where 5: "hosts api w5 name c5" "wc_ok name w5" "eff view name w5 = eff view name w" "same_data ?w4 w5"
    using handle_evicted_keeps_eff[OF h4(1,2), of env ks] h4(3) unfolding w5_def by auto
  have heap5: "heap w5 = heap ?w3" "options w5 = options w" using 5(4) by (simp_all add: same_data_def)
  define w6 where "w6 = w5\<lparr>writeCache := AList.update (rKey (heap w) r) r (writeCache w5)\<rparr>"
  have "\<not> ReadOnly c" using writable h by (simp add: ReadOnly_def hosts_def)
  then have "Put env r w = (w6, None)"
    using hosts_get[OF h, of env] r(1) p m ca ks d heap5
    by (simp add: Put_def put_prepared_def put_controller_def updateCache_def Let_def w5_def[symmetric] w6_def)
  moreover have "hosts api w6 name c5" using 5(1) by (simp add: w6_def hosts_def)
  moreover have k: "rKey (heap w) r = name @ '':'' @ rDatabaseKey (heap w) r"
    using r(1) by (simp add: rKey_def Key_def rDatabaseName_def rDatabaseKey_def)
  have "wc_ok name w6"
    using 5(2) heap5 r(1) m set_update_subset[of "rKey (heap w) r" r "writeCache w5"]
    by (auto simp: w6_def wc_ok_def live_def AList.distinct_update)
  moreover have "eff view name w6 = (eff view name w)(rDatabaseKey (heap w) r \<mapsto> r)"
    unfolding 5(3)[symmetric] using k
    by (auto simp: eff_def w6_def AList.update_conv' fun_eq_iff split: option.split)
  moreover have "map_of (writeCache w6) (rKey (heap w) r) = Some r" by (simp add: w6_def AList.update_conv')
  ultimately show ?thesis by blast
qed

end

subsection \<open>Flushing\<close>

context batching_storage
begin

lemma batch_put_all:
  assumes "hosts api w name c" "\<forall>r \<in> set rs. rDatabaseName (heap w) r = name \<and> live (heap w) r"
    "distinct (map (rDatabaseKey (heap w)) rs)"
  shows "\<exists>w' c'. batch_put name batch rs w = (w', None) \<and> hosts api w' name c' \<and> writeCache w' = writeCache w \<and>
    (\<forall>key. view (cStorage c') key =
       (case find (\<lambda>r. rDatabaseKey (heap w) r = key) rs of Some r \<Rightarrow> Some r | None \<Rightarrow> view (cStorage c) key))"
  using assms
proof (induction rs arbitrary: w c)
  case Nil then show ?case by auto
next
  case (Cons r rs)
  let ?w1 = "apply_options r w"
  have l: "live (heap ?w1) x" if "x \<in> set (r # rs)" for x using Cons.prems(2) apply_options_live that by blast
  then obtain m where m: "rMeta (heap ?w1) r = Some m" by (auto simp: live_def)
  obtain s' where s': "batch (shadowDelete c) r (heap ?w1) (cStorage c) = Inr s'"
    "view s' = put_view (shadowDelete c) (heap ?w1) r (view (cStorage c))" using batch_view[OF m] by blast
  let ?c = "c\<lparr>cStorage := s'\<rparr>"
  let ?w2 = "?w1\<lparr>controllers := (controllers ?w1)(name \<mapsto> ?c)\<rparr>"
  have v: "view s' = (view (cStorage c))(rDatabaseKey (heap w) r \<mapsto> r)"
    using s'(2) put_view_live[OF l[of r]] by simp
  have b: "batch_put name batch (r # rs) w = batch_put name batch rs ?w2"
    using Cons.prems s'(1) by (simp add: Let_def hosts_def)
  have h2: "hosts api ?w2 name ?c" using Cons.prems(1) by (simp add: hosts_def)
  have k2: "rDatabaseKey (heap ?w2) = rDatabaseKey (heap w)" by (simp add: fun_eq_iff)
  have p2: "\<forall>r \<in> set rs. rDatabaseName (heap ?w2) r = name \<and> live (heap ?w2) r" using Cons.prems(2) l by simp
  have d2: "distinct (map (rDatabaseKey (heap ?w2)) rs)" using Cons.prems(3) k2 by simp
  have cs: "cStorage ?c = s'" by simp
  obtain w' c' where w': "batch_put name batch rs ?w2 = (w', None)" "hosts api w' name c'" "writeCache w' = writeCache ?w2"
    "\<forall>key. view (cStorage c') key =
       (case find (\<lambda>r. rDatabaseKey (heap w) r = key) rs of Some r \<Rightarrow> Some r | None \<Rightarrow> view s' key)"
    using Cons.IH[OF h2 p2 d2] unfolding k2 cs by blast
  have "find (\<lambda>x. rDatabaseKey (heap w) x = rDatabaseKey (heap w) r) rs = None"
    using Cons.prems(3) unfolding find_None_iff by (metis distinct.simps(2) image_eqI list.set_map list.simps(9))
  then have "\<forall>key. view (cStorage c') key =
       (case find (\<lambda>r. rDatabaseKey (heap w) r = key) (r # rs) of Some r \<Rightarrow> Some r | None \<Rightarrow> view (cStorage c) key)"
    using w'(4) v by (auto split: option.split)
  then show ?case using b w' by auto
qed

lemma flush_all:
  assumes h: "hosts api w name c" and wc: "wc_ok name w"
    and d: "DelayCachedWrites (options w) = name" and p: "HasAllPermissions (options w)" and cs: "0 < CacheSize (options w)"
  shows "\<exists>c'. hosts api (flushWriteCache env 0 w) name c' \<and> writeCache (flushWriteCache env 0 w) = [] \<and>
    view (cStorage c') = eff view name w"
proof (cases "writeCache w = []")
  case True
  then have "flushWriteCache env 0 w = w" by (simp add: flushWriteCache_def)
  moreover have "view (cStorage c) = eff view name w" using True h by (auto simp: eff_def hosts_def fun_eq_iff)
  ultimately show ?thesis using h True by auto
next
  case False
  let ?rs = "map snd (writeCache w)"
  have all: "\<forall>(k, r) \<in> set (writeCache w). k = name @ '':'' @ rDatabaseKey (heap w) r \<and> rDatabaseName (heap w) r = name \<and> live (heap w) r"
    using wc by (auto simp: wc_ok_def rKey_def Key_def rDatabaseKey_def rDatabaseName_def)
  have keys: "map fst (writeCache w) = map (\<lambda>k. name @ '':'' @ k) (map (rDatabaseKey (heap w)) ?rs)"
    using all by (auto intro!: nth_equalityI dest!: nth_mem)
  then have dist: "distinct (map (rDatabaseKey (heap w)) ?rs)" using wc by (metis distinct_map wc_ok_def)
  obtain w' c' where w': "batch_put name batch ?rs w = (w', None)" "hosts api w' name c'"
    "\<forall>key. view (cStorage c') key =
       (case find (\<lambda>r. rDatabaseKey (heap w) r = key) ?rs of Some r \<Rightarrow> Some r | None \<Rightarrow> view (cStorage c) key)"
    using batch_put_all[OF h _ dist] all by fastforce
  have "PutMany env name ?rs w = (w', None)"
    using p hosts_get[OF h, of env] h writable has_batch w'(1) by (simp add: PutMany_def hosts_def ReadOnly_def)
  moreover have nonneg: "\<not> int (length (writeCache w)) * 100 div CacheSize (options w) < 0"
    using cs by (simp add: not_less pos_imp_zdiv_nonneg_iff)
  ultimately have f: "flushWriteCache env 0 w = w'\<lparr>writeCache := []\<rparr>"
    using False d nonneg by (simp add: flushWriteCache_def Let_def)
  have "find (\<lambda>r. rDatabaseKey (heap w) r = key) (map snd al) = map_of al (name @ '':'' @ key)"
    if "\<forall>(k, r) \<in> set al. k = name @ '':'' @ rDatabaseKey (heap w) r" for al key
    using that by (induction al) auto
  then have "find (\<lambda>r. rDatabaseKey (heap w) r = key) ?rs = map_of (writeCache w) (name @ '':'' @ key)" for key
    using all by blast
  then have "view (cStorage c') = eff view name w"
    using w'(3) eff_host[of w name c view] h by (auto simp: hosts_def fun_eq_iff)
  then show ?thesis using f w'(2) by (auto simp: hosts_def)
qed

end

subsection \<open>Properties\<close>

text \<open>C16. Delayed writes are not lost. For the in-memory database and any cache: a delayed \<open>Put\<close>
  succeeds and the record is the contents of its key from then on, although the storage does not
  have it yet; whatever entries the cache evicts, in that call or later, their records move to
  the storage with the contents unchanged; and flushing the write cache makes the storage equal
  to the contents. \<open>FlushCache\<close>, however, does nothing when writes are delayed: its check is the
  wrong way round.\<close>

theorem delayed_writes_kept:
  assumes h: "hosts hashmap_api w name c" and wc: "wc_ok name w" and ca: "cache w = Some ca"
    and d: "DelayCachedWrites (options w) = name" "name \<noteq> ''''" and p: "HasAllPermissions (options w)"
    and cs: "0 < CacheSize (options w)" and r: "rDatabaseName (heap w) r = name" "live (heap w) r"
  shows "(\<exists>w' c'. Put env r w = (w', None) \<and> hosts hashmap_api w' name c' \<and> wc_ok name w' \<and>
      map_of (writeCache w') (rKey (heap w) r) = Some r \<and>
      eff map_of name w' = (eff map_of name w)(rDatabaseKey (heap w) r \<mapsto> r)) \<and>
    eff map_of name (handle_evicted env ks w) = eff map_of name w \<and>
    (\<exists>c'. hosts hashmap_api (flushWriteCache env 0 w) name c' \<and> writeCache (flushWriteCache env 0 w) = [] \<and>
      map_of (cStorage c') = eff map_of name w) \<and>
    FlushCache env w = w"
  using hashmap.delayed_Put[OF h wc ca d(1) p r, of env] hashmap.handle_evicted_keeps_eff[OF h wc, of env ks]
    hashmap_batch.flush_all[OF h wc d(1) p cs, of env] d
  by (auto simp: FlushCache_def)

theorem delayed_writes_kept_witness:
  "\<exists>w'. Put cached_dbenv 7 (cached_db ''core'' [] [(''core:a'', 0)]) = (w', None) \<and>
     eff map_of ''core'' w' ''b'' = Some 7 \<and>
     FlushCache cached_dbenv (cached_db ''core'' [] [(''core:a'', 0)]) = cached_db ''core'' [] [(''core:a'', 0)]"
proof -
  let ?w = "cached_db ''core'' [] [(''core:a'', 0)]"
  have "wc_ok ''core'' ?w" "cache ?w = Some []" "DelayCachedWrites (options ?w) = ''core''" "''core'' \<noteq> ''''"
    "HasAllPermissions (options ?w)" "0 < CacheSize (options ?w)" "rDatabaseName (heap ?w) 7 = ''core''" "live (heap ?w) 7"
    "rDatabaseKey (heap ?w) 7 = ''b''"
    by (simp_all add: wc_ok_def cached_db_def sample_rec_def sample_opts_def rKey_def Key_def rDatabaseName_def
        rDatabaseKey_def live_def rMeta_def IsDeleted_def HasAllPermissions_def)
  from delayed_writes_kept[OF cached_hosts this(1-8), of cached_dbenv "[]"] this(9) show ?thesis by auto
qed

text \<open>Cancelling a subscription. If no other subscription of the controller has the same query
  object, exactly the cancelled one is gone, and later updates cannot hit its closed feed. If an
  earlier subscription was made with the same query object, that one is removed instead: the
  cancelled one stays, with a closed feed, and the next update it is interested in is a panic.\<close>

theorem Subscription_Cancel_effects:
  assumes "\<not> feedClosed s"
  shows "(subscriptions c = xs @ s # ys \<and> (\<forall>t \<in> set (xs @ ys). subQueryPtr t \<noteq> subQueryPtr s \<and> subPtr t \<noteq> subPtr s) \<longrightarrow>
      Subscription_Cancel s c = (c\<lparr>subscriptions := xs @ ys\<rparr>, None)) \<and>
    (subscriptions c = [s0, s] \<and> subQueryPtr s0 = subQueryPtr s \<and> subPtr s0 \<noteq> subPtr s \<and> sub_wants r h s \<longrightarrow>
      (\<exists>c'. Subscription_Cancel s c = (c', None) \<and> subscriptions c' = [s\<lparr>feedClosed := True\<rparr>] \<and>
        snd (notifySubscribers r h c') = Some (GoPanic ''send on closed channel'')))"
proof (intro conjI impI)
  assume a: "subscriptions c = xs @ s # ys \<and> (\<forall>t \<in> set (xs @ ys). subQueryPtr t \<noteq> subQueryPtr s \<and> subPtr t \<noteq> subPtr s)"
  have "\<forall>t \<in> set xs. subQueryPtr t \<noteq> subQueryPtr s \<Longrightarrow>
      remove_first (\<lambda>sub. subQueryPtr sub = subQueryPtr s) (xs @ s # ys) = xs @ ys" for xs
    by (induction xs) auto
  moreover have "map (\<lambda>sub. if subPtr sub = subPtr s then sub\<lparr>feedClosed := True\<rparr> else sub) (xs @ ys) = xs @ ys"
    by (rule map_idI) (use a in auto)
  ultimately show "Subscription_Cancel s c = (c\<lparr>subscriptions := xs @ ys\<rparr>, None)"
    using a assms by (auto simp: Subscription_Cancel_def simp del: map_append)
next
  assume a: "subscriptions c = [s0, s] \<and> subQueryPtr s0 = subQueryPtr s \<and> subPtr s0 \<noteq> subPtr s \<and> sub_wants r h s"
  then have "sub_wants r h (s\<lparr>feedClosed := True\<rparr>)" by (simp add: sub_wants_def)
  then show "\<exists>c'. Subscription_Cancel s c = (c', None) \<and> subscriptions c' = [s\<lparr>feedClosed := True\<rparr>] \<and>
        snd (notifySubscribers r h c') = Some (GoPanic ''send on closed channel'')"
    using a assms by (simp add: Subscription_Cancel_def notifySubscribers_def)
qed

definition sample_sub :: "nat \<Rightarrow> nat subscription" where
  "sample_sub p = \<lparr>subPtr = p, subQuery = \<lparr>qCheck = None, qDatabaseName = ''core'', qMatchesKey = (\<lambda>_. True),
     qMatchesRecord = (\<lambda>_. True)\<rparr>, subQueryPtr = 9, subLocal = True, subInternal = True, Feed = [], feedClosed = False\<rparr>"

theorem Subscription_Cancel_effects_witness:
  "\<exists>c'. Subscription_Cancel (sample_sub 2) ((sample_core False)\<lparr>subscriptions := [sample_sub 1, sample_sub 2]\<rparr>) = (c', None) \<and>
     snd (notifySubscribers 0 (\<lambda>r. sample_rec ''a'' 1) c') = Some (GoPanic ''send on closed channel'')"
  using Subscription_Cancel_effects[of "sample_sub 2" "(sample_core False)\<lparr>subscriptions := [sample_sub 1, sample_sub 2]\<rparr>"
      "[]" "[]" "sample_sub 1" 0 "\<lambda>r. sample_rec ''a'' 1"]
  by (simp add: sample_sub_def sub_wants_def CheckPermission_def qMatches_def sample_rec_def rMeta_def)
     (metis)

end
