(* ===== verification/Module_Manager.thy ===== *)
theory Module_Manager
  imports Go_Prelude
begin

section \<open>The module system: modules/modules.go, status.go, mgmt.go, start.go, stop.go\<close>

text \<open>
  A module is known by its name, the key of the registry \<open>modules\<close>; a \<open>*Module\<close> held by another
  module (\<open>depModules\<close>, \<open>depReverse\<close>) is that name, and the \<open>store\<close> holds the structs the
  pointers lead to. The control functions of a module are code of its client: a function
  that is not \<open>nil\<close> is the list of the results a call of it may have, not returning in time
  among them; a function without results never returns. Go iterates over a map in no particular order, so a pass over the registry may take
  the modules in any order. The goroutines that run the control functions are steps of their
  own, interleaved with the steps of the manager loop.

  Workers, tasks and microtasks of a module are counted in the struct but are not steps of the
  manager; the functions started by \<open>notifyOfChange\<close> and by a failure update are recorded in two
  logs.
\<close>

subsection \<open>Status values\<close>

datatype mstatus =
    StatusDead
  | StatusPreparing
  | StatusOffline
  | StatusStopping
  | StatusStarting
  | StatusOnline

primrec status_code :: "mstatus \<Rightarrow> nat" where
  "status_code StatusDead = 0"
| "status_code StatusPreparing = 1"
| "status_code StatusOffline = 2"
| "status_code StatusStopping = 3"
| "status_code StatusStarting = 4"
| "status_code StatusOnline = 5"

lemma status_code_inject [simp]: "status_code a = status_code b \<longleftrightarrow> a = b"
  by (cases a; cases b) simp_all

instantiation mstatus :: linorder
begin
definition less_eq_mstatus :: "mstatus \<Rightarrow> mstatus \<Rightarrow> bool" where
  "less_eq_mstatus a b = (status_code a \<le> status_code b)"
definition less_mstatus :: "mstatus \<Rightarrow> mstatus \<Rightarrow> bool" where
  "less_mstatus a b = (status_code a < status_code b)"
instance
  by standard (auto simp: less_eq_mstatus_def less_mstatus_def)
end

datatype mfailure = FailureNone | FailureHint | FailureWarning | FailureError

primrec failure_code :: "mfailure \<Rightarrow> nat" where
  "failure_code FailureNone = 0"
| "failure_code FailureHint = 1"
| "failure_code FailureWarning = 2"
| "failure_code FailureError = 3"

lemma failure_code_inject [simp]: "failure_code a = failure_code b \<longleftrightarrow> a = b"
  by (cases a; cases b) simp_all

instantiation mfailure :: linorder
begin
definition less_eq_mfailure :: "mfailure \<Rightarrow> mfailure \<Rightarrow> bool" where
  "less_eq_mfailure a b = (failure_code a \<le> failure_code b)"
definition less_mfailure :: "mfailure \<Rightarrow> mfailure \<Rightarrow> bool" where
  "less_mfailure a b = (failure_code a < failure_code b)"
instance
  by standard (auto simp: less_eq_mfailure_def less_mfailure_def)
end

datatype readiness = statusWaiting | statusReady | statusNothingToDo

text \<open>A channel that is only closed, never sent on.\<close>

datatype chan = ChanNil | ChanOpen | ChanClosed

text \<open>What a call of a control function may end with.\<close>

datatype ctrl_result = FnReturned "goerr option" | FnPanicked string | FnTimedOut

type_synonym ctrl_fn = "ctrl_result list option"

definition ctrl_results :: "ctrl_fn \<Rightarrow> ctrl_result list" where
  "ctrl_results fn =
     (case fn of None \<Rightarrow> [FnReturned None] | Some rs \<Rightarrow> if rs = [] then [FnTimedOut] else rs)"

subsection \<open>The module struct and the globals\<close>

record Module =
  Name :: string
  enabled :: bool
  enabledAsDependency :: bool
  status :: mstatus
  sleepMode :: bool
  sleepWaitingChannel :: chan
  failureStatus :: mfailure
  failureID :: string
  failureTitle :: string
  failureMsg :: string
  prepFn :: ctrl_fn
  startFn :: ctrl_fn
  stopFn :: ctrl_fn
  startComplete :: chan
  ctxDone :: bool
  stopFlag :: bool
  stopCompleted :: bool
  stopComplete :: chan
  ctrlFuncRunning :: bool
  workerCnt :: int
  taskCnt :: int
  microTaskCnt :: int
  depNames :: "string list"
  depModules :: "string list"
  depReverse :: "string list"

text \<open>Closing a channel; closing a closed or a nil one is a panic of the program.\<close>

definition close_chan :: "string \<Rightarrow> chan \<Rightarrow> string option \<Rightarrow> chan \<times> string option" where
  "close_chan what c p =
     (case c of
        ChanOpen \<Rightarrow> (ChanClosed, p)
      | ChanClosed \<Rightarrow> (ChanClosed, Some (''close of closed channel: '' @ what))
      | ChanNil \<Rightarrow> (ChanNil, Some (''close of nil channel: '' @ what)))"

definition Sleep :: "bool \<Rightarrow> Module \<times> string option \<Rightarrow> Module \<times> string option" where
  "Sleep enable mp =
     (case mp of (m, p) \<Rightarrow>
        if sleepMode m = enable then (m, p)
        else if enable then (m\<lparr>sleepMode := True, sleepWaitingChannel := ChanOpen\<rparr>, p)
        else case close_chan ''sleepWaitingChannel'' (sleepWaitingChannel m) p of (c, p') \<Rightarrow>
               (m\<lparr>sleepMode := False, sleepWaitingChannel := c\<rparr>, p'))"

record sys =
  modules :: "string list"
  store :: "string \<Rightarrow> Module"
  modulesLocked :: bool
  moduleMgmtEnabled :: bool
  changeNotifyFn :: bool
  failureUpdateReady :: bool
  shutdownFlag :: bool
  initialStartCompleted :: bool
  changeLog :: "string list"
  failureLog :: "(mfailure \<times> string \<times> string \<times> string) list"
  goPanic :: "string option"

definition upd :: "string \<Rightarrow> (Module \<Rightarrow> Module) \<Rightarrow> sys \<Rightarrow> sys" where
  "upd n f s = s\<lparr>store := (store s)(n := f (store s n))\<rparr>"

definition mstat :: "sys \<Rightarrow> string \<Rightarrow> mstatus" where
  "mstat s n = status (store s n)"

subsection \<open>Registration\<close>

definition initNewModule ::
  "string \<Rightarrow> ctrl_fn \<Rightarrow> ctrl_fn \<Rightarrow> ctrl_fn \<Rightarrow> string list \<Rightarrow> Module" where
  "initNewModule name prep start stop dependencies =
     fst (Sleep False (\<lparr>Name = name, enabled = False, enabledAsDependency = False, status = StatusDead,
      sleepMode = True, sleepWaitingChannel = ChanOpen, failureStatus = FailureNone, failureID = '''', failureTitle = '''',
      failureMsg = '''', prepFn = prep, startFn = start, stopFn = stop,
      startComplete = ChanOpen, ctxDone = False, stopFlag = False, stopCompleted = True,
      stopComplete = ChanNil, ctrlFuncRunning = False, workerCnt = 0, taskCnt = 0,
      microTaskCnt = 0, depNames = dependencies, depModules = [], depReverse = []\<rparr>, None))"

definition Register ::
  "string \<Rightarrow> ctrl_fn \<Rightarrow> ctrl_fn \<Rightarrow> ctrl_fn \<Rightarrow> string list \<Rightarrow> sys \<Rightarrow> (sys \<times> string option) res" where
  "Register name prep start stop dependencies s =
     (if modulesLocked s then Inr (s, None)
      else if name \<in> set (modules s)
      then Inl (GoPanic (''modules: module '' @ name @ '' is already registered''))
      else Inr (s\<lparr>modules := modules s @ [name],
                  store := (store s)(name := initNewModule name prep start stop dependencies)\<rparr>,
                Some name))"

text \<open>\<open>initDependencies\<close>: the loop over the registry, and for each module over its
  dependency names; it stops at the first name that is not registered, with the links made so
  far in place.\<close>

fun link_deps :: "string \<Rightarrow> string list \<Rightarrow> sys \<Rightarrow> sys \<times> goerr option" where
  "link_deps n [] s = (s, None)"
| "link_deps n (d # ds) s =
     (if d \<notin> set (modules s)
      then (s, Some (ErrNew (''module '' @ Name (store s n) @ '' declares dependency '' @ [CHR 0x22] @ d @
                             [CHR 0x22] @ '', but this module has not been registered'')))
      else link_deps n ds
             (upd d (\<lambda>m. m\<lparr>depReverse := depReverse m @ [n]\<rparr>)
               (upd n (\<lambda>m. m\<lparr>depModules := depModules m @ [d]\<rparr>) s)))"

fun initDependencies :: "string list \<Rightarrow> sys \<Rightarrow> sys \<times> goerr option" where
  "initDependencies [] s = (s, None)"
| "initDependencies (n # ns) s =
     (case link_deps n (depNames (store s n)) s of
        (s', None) \<Rightarrow> initDependencies ns s'
      | (s', Some e) \<Rightarrow> (s', Some e))"

subsection \<open>Enabling\<close>

definition Enable :: "Module \<Rightarrow> Module \<times> bool" where
  "Enable m = (if \<not> enabled m then (m\<lparr>enabled := True\<rparr>, True) else (m, False))"

definition Disable :: "Module \<Rightarrow> Module \<times> bool" where
  "Disable m = (if enabled m then (m\<lparr>enabled := False\<rparr>, True) else (m, False))"

definition SetEnabled :: "bool \<Rightarrow> Module \<Rightarrow> Module \<times> bool" where
  "SetEnabled enable m = (if enable then Enable m else Disable m)"

definition EnableModuleManagement :: "bool \<Rightarrow> sys \<Rightarrow> sys \<times> bool" where
  "EnableModuleManagement fn s =
     (if \<not> moduleMgmtEnabled s then (s\<lparr>moduleMgmtEnabled := True, changeNotifyFn := fn\<rparr>, True)
      else (s, False))"

definition DisableModuleManagement :: "sys \<Rightarrow> sys" where
  "DisableModuleManagement s = s\<lparr>moduleMgmtEnabled := False\<rparr>"

text \<open>The loop of \<open>markDependencies\<close>, with the recursive call for a dependency that was not
  marked yet; \<open>None\<close> is a recursion that does not end.\<close>

partial_function (option) markDependencies :: "string list \<Rightarrow> sys \<Rightarrow> sys option" where
  "markDependencies deps s =
     (case deps of
        [] \<Rightarrow> Some s
      | d # ds \<Rightarrow>
          if \<not> enabledAsDependency (store s d)
          then Option.bind
                 (markDependencies (depModules (store s d))
                   (upd d (\<lambda>m. m\<lparr>enabledAsDependency := True\<rparr>) s))
                 (markDependencies ds)
          else markDependencies ds s)"

fun unmark_all :: "string list \<Rightarrow> sys \<Rightarrow> sys" where
  "unmark_all [] s = s"
| "unmark_all (n # ns) s = unmark_all ns (upd n (\<lambda>m. m\<lparr>enabledAsDependency := False\<rparr>) s)"

fun mark_enabled :: "string list \<Rightarrow> sys \<Rightarrow> sys option" where
  "mark_enabled [] s = Some s"
| "mark_enabled (n # ns) s =
     (if enabled (store s n)
      then Option.bind (markDependencies (depModules (store s n)) s) (mark_enabled ns)
      else mark_enabled ns s)"

text \<open>The two loops run over the map in orders of their own.\<close>

definition buildEnabledTree :: "string list \<Rightarrow> string list \<Rightarrow> sys \<Rightarrow> sys option" where
  "buildEnabledTree order1 order2 s = mark_enabled order2 (unmark_all order1 s)"

subsection \<open>Failure status\<close>

definition notifyOfChange :: "string \<Rightarrow> sys \<Rightarrow> sys" where
  "notifyOfChange n s =
     (if moduleMgmtEnabled s \<and> changeNotifyFn s then s\<lparr>changeLog := changeLog s @ [n]\<rparr> else s)"

definition setFailure :: "mfailure \<Rightarrow> string \<Rightarrow> string \<Rightarrow> string \<Rightarrow> string \<Rightarrow> sys \<Rightarrow> sys" where
  "setFailure st ident title msg n s =
     (let m = store s n;
          (resolveFailureID, s1) =
            (if ident = failureID m then ('''', s)
             else (failureID m,
                   upd n (\<lambda>m. m\<lparr>failureStatus := st, failureID := ident, failureTitle := title,
                                failureMsg := msg\<rparr>) s));
          s2 = notifyOfChange n s1
      in if failureUpdateReady s2
         then s2\<lparr>failureLog := failureLog s2 @
                   (if resolveFailureID \<noteq> '''' then [(FailureNone, resolveFailureID, '''', '''')]
                    else []) @ [(st, ident, title, msg)]\<rparr>
         else s2)"

definition Hint :: "string \<Rightarrow> string \<Rightarrow> string \<Rightarrow> string \<Rightarrow> sys \<Rightarrow> sys" where
  "Hint = setFailure FailureHint"

definition Warning :: "string \<Rightarrow> string \<Rightarrow> string \<Rightarrow> string \<Rightarrow> sys \<Rightarrow> sys" where
  "Warning = setFailure FailureWarning"

definition Error :: "string \<Rightarrow> string \<Rightarrow> string \<Rightarrow> string \<Rightarrow> sys \<Rightarrow> sys" where
  "Error = setFailure FailureError"

definition Resolve :: "string \<Rightarrow> string \<Rightarrow> sys \<Rightarrow> sys" where
  "Resolve ident n s =
     (if ident \<noteq> '''' \<and> ident \<noteq> failureID (store s n) then s
      else let resolveFailureID = failureID (store s n);
               s1 = notifyOfChange n
                      (upd n (\<lambda>m. m\<lparr>failureStatus := FailureNone, failureID := '''',
                                    failureTitle := '''', failureMsg := ''''\<rparr>) s)
           in if failureUpdateReady s1
              then s1\<lparr>failureLog := failureLog s1 @ [(FailureNone, resolveFailureID, '''', '''')]\<rparr>
              else s1)"

subsection \<open>Readiness\<close>

definition Online :: "Module \<Rightarrow> bool" where
  "Online m = (status m = StatusOnline)"

definition OnlineSoon :: "string \<Rightarrow> sys \<Rightarrow> bool" where
  "OnlineSoon n s =
     (if moduleMgmtEnabled s \<and> \<not> enabled (store s n) \<and> \<not> enabledAsDependency (store s n)
      then False else \<not> stopFlag (store s n))"

definition readyToPrep :: "string \<Rightarrow> sys \<Rightarrow> readiness" where
  "readyToPrep n s =
     (if mstat s n \<noteq> StatusDead then statusNothingToDo
      else if \<exists>d \<in> set (depModules (store s n)). mstat s d < StatusOffline then statusWaiting
      else statusReady)"

definition readyToStart :: "string \<Rightarrow> sys \<Rightarrow> readiness" where
  "readyToStart n s =
     (if moduleMgmtEnabled s \<and> \<not> enabled (store s n) \<and> \<not> enabledAsDependency (store s n)
      then statusNothingToDo
      else if mstat s n \<noteq> StatusOffline then statusNothingToDo
      else if \<exists>d \<in> set (depModules (store s n)). mstat s d < StatusOnline then statusWaiting
      else statusReady)"

definition readyToStop :: "string \<Rightarrow> sys \<Rightarrow> readiness" where
  "readyToStop n s =
     (if (moduleMgmtEnabled s \<and> \<not> shutdownFlag s) \<and>
         (enabled (store s n) \<or> enabledAsDependency (store s n))
      then statusNothingToDo
      else if mstat s n \<noteq> StatusOnline then statusNothingToDo
      else if \<exists>d \<in> set (depReverse (store s n)). mstat s d > StatusOffline then statusWaiting
      else statusReady)"

subsection \<open>prep, start and stop\<close>

text \<open>
  Each of the three is the part under the module's lock, which returns the error it reports at
  once when the module is in the wrong state; then a goroutine, in two steps: the start of the
  control function and what follows its end.
\<close>

definition checkIfStopComplete :: "string \<Rightarrow> sys \<Rightarrow> sys" where
  "checkIfStopComplete n s =
     (let m = store s n
      in if stopFlag m \<and> \<not> ctrlFuncRunning m \<and> workerCnt m = 0 \<and> taskCnt m = 0 \<and>
            microTaskCnt m = 0 \<and> \<not> stopCompleted m
         then let (c, p) = close_chan ''stopComplete'' (stopComplete m) (goPanic s)
              in (upd n (\<lambda>m. m\<lparr>stopCompleted := True, stopComplete := c\<rparr>) s)\<lparr>goPanic := p\<rparr>
         else s)"

definition startCtrlFn :: "string \<Rightarrow> ctrl_fn \<Rightarrow> sys \<Rightarrow> sys" where
  "startCtrlFn n fn s =
     (case fn of
        None \<Rightarrow> checkIfStopComplete n (upd n (\<lambda>m. m\<lparr>ctrlFuncRunning := False\<rparr>) s)
      | Some _ \<Rightarrow> upd n (\<lambda>m. m\<lparr>ctrlFuncRunning := True\<rparr>) s)"

definition endCtrlFn :: "string \<Rightarrow> ctrl_fn \<Rightarrow> ctrl_result \<Rightarrow> sys \<Rightarrow> sys" where
  "endCtrlFn n fn r s =
     (if fn = None \<or> r = FnTimedOut then s
      else checkIfStopComplete n (upd n (\<lambda>m. m\<lparr>ctrlFuncRunning := False\<rparr>) s))"

definition ctrl_err :: "string \<Rightarrow> ctrl_result \<Rightarrow> goerr option" where
  "ctrl_err timeout r =
     (case r of
        FnReturned e \<Rightarrow> e
      | FnPanicked p \<Rightarrow> Some (ErrNew (''panic: '' @ p))
      | FnTimedOut \<Rightarrow> Some (ErrNew (''timed out ('' @ timeout @ '')'')))"

definition prep :: "string \<Rightarrow> sys \<Rightarrow> sys \<times> goerr option" where
  "prep n s =
     (if mstat s n \<noteq> StatusDead then (s, Some (ErrNew ''module already prepped''))
      else (upd n (\<lambda>m. m\<lparr>status := StatusPreparing\<rparr>) s, None))"

definition prep_run :: "string \<Rightarrow> sys \<Rightarrow> sys" where
  "prep_run n s =
     (if prepFn (store s n) = None then s else startCtrlFn n (prepFn (store s n)) s)"

definition prep_done :: "string \<Rightarrow> ctrl_result \<Rightarrow> sys \<Rightarrow> sys \<times> goerr option" where
  "prep_done n r s =
     (let err = ctrl_err ''2m0s'' r;
          s1 = endCtrlFn n (prepFn (store s n)) r s;
          s2 = (if err \<noteq> None
                then Error (Name (store s n) @ '':prep-failed'')
                       (''Preparing module '' @ Name (store s n) @ '' failed'')
                       (''Failed to prep module: '' @ err_text (the err)) n s1
                else notifyOfChange n (upd n (\<lambda>m. m\<lparr>status := StatusOffline\<rparr>) s1))
      in (s2, err))"

definition start :: "string \<Rightarrow> sys \<Rightarrow> sys \<times> goerr option" where
  "start n s =
     (if mstat s n \<noteq> StatusOffline then (s, Some (ErrNew ''module not offline''))
      else (upd n (\<lambda>m. m\<lparr>status := StatusStarting, ctxDone := False, stopFlag := False\<rparr>) s, None))"

definition start_run :: "string \<Rightarrow> sys \<Rightarrow> sys" where
  "start_run n s =
     (if startFn (store s n) = None then s else startCtrlFn n (startFn (store s n)) s)"

definition start_done :: "string \<Rightarrow> ctrl_result \<Rightarrow> sys \<Rightarrow> sys \<times> goerr option" where
  "start_done n r s =
     (let err = ctrl_err ''2m0s'' r;
          s1 = endCtrlFn n (startFn (store s n)) r s;
          s2 = (if err \<noteq> None
                then Error (Name (store s n) @ '':start-failed'')
                       (''Starting module '' @ Name (store s n) @ '' failed'')
                       (''Failed to start module: '' @ err_text (the err)) n s1
                else let (c, p) = close_chan ''startComplete'' (startComplete (store s1 n)) (goPanic s1)
                     in notifyOfChange n
                          ((upd n (\<lambda>m. m\<lparr>status := StatusOnline, startComplete := c\<rparr>) s1)
                             \<lparr>goPanic := p\<rparr>))
      in (s2, err))"

definition stop :: "string \<Rightarrow> sys \<Rightarrow> sys \<times> goerr option" where
  "stop n s =
     (if mstat s n \<noteq> StatusOnline then (s, Some (ErrNew ''module not online''))
      else (upd n (\<lambda>m. m\<lparr>startComplete := ChanOpen, stopComplete := ChanOpen,
                         stopCompleted := False, status := StatusStopping\<rparr>) s, None))"

text \<open>\<open>stopAllTasks\<close> up to the start of the stop function, and from the end of the wait on.
  The error of the stop function is seen only when the function has ended by then.\<close>

definition stop_run :: "string \<Rightarrow> sys \<Rightarrow> sys" where
  "stop_run n s =
     startCtrlFn n (stopFn (store s n))
       (upd n (\<lambda>m. m\<lparr>ctrlFuncRunning := True, stopFlag := True, ctxDone := True\<rparr>) s)"

definition stop_done :: "string \<Rightarrow> ctrl_result \<Rightarrow> sys \<Rightarrow> sys \<times> goerr option" where
  "stop_done n r s =
     (let err = (if r = FnTimedOut then None else ctrl_err '''' r);
          s1 = endCtrlFn n (stopFn (store s n)) r s;
          s2 = (if err \<noteq> None
                then Error (Name (store s n) @ '':stop-failed'')
                       (''Stopping module '' @ Name (store s n) @ '' failed'')
                       (''Failed to stop module: '' @ err_text (the err)) n s1
                else s1);
          s3 = notifyOfChange n (upd n (\<lambda>m. m\<lparr>status := StatusOffline\<rparr>) s2)
      in (Resolve '''' n s3, err))"

subsection \<open>The manager loops\<close>

text \<open>
  \<open>prepareModules\<close>, \<open>startModules\<close> and \<open>stopModules\<close> are the same loop around three sets of
  functions. A state \<open>mgr\<close> holds the locals of the loop, the goroutines that still run a control
  function and the reports that wait for the channel's receiver. \<open>Pass ns w\<close> is a pass over the
  registry with the modules \<open>ns\<close> still to look at and \<open>w\<close> the counter \<open>waiting\<close>.
\<close>

datatype phase = PrepPhase | StartPhase | StopPhase

datatype stage = CtrlPending | CtrlRunning

datatype pcounter = Pass "string list" nat | Returned "goerr option"

record mgr =
  msys :: sys
  pc :: pcounter
  execCnt :: nat
  reportCnt :: nat
  tasks :: "(string \<times> stage) list"
  reports :: "(string \<times> goerr option) list"
  lastErr :: "goerr option"

primrec readyTo :: "phase \<Rightarrow> string \<Rightarrow> sys \<Rightarrow> readiness" where
  "readyTo PrepPhase = readyToPrep"
| "readyTo StartPhase = readyToStart"
| "readyTo StopPhase = readyToStop"

primrec exec :: "phase \<Rightarrow> string \<Rightarrow> sys \<Rightarrow> sys \<times> goerr option" where
  "exec PrepPhase = prep"
| "exec StartPhase = start"
| "exec StopPhase = stop"

primrec ctrl_run :: "phase \<Rightarrow> string \<Rightarrow> sys \<Rightarrow> sys" where
  "ctrl_run PrepPhase = prep_run"
| "ctrl_run StartPhase = start_run"
| "ctrl_run StopPhase = stop_run"

primrec ctrl_done :: "phase \<Rightarrow> string \<Rightarrow> ctrl_result \<Rightarrow> sys \<Rightarrow> sys \<times> goerr option" where
  "ctrl_done PrepPhase = prep_done"
| "ctrl_done StartPhase = start_done"
| "ctrl_done StopPhase = stop_done"

primrec ctrlFn :: "phase \<Rightarrow> Module \<Rightarrow> ctrl_fn" where
  "ctrlFn PrepPhase = prepFn"
| "ctrlFn StartPhase = startFn"
| "ctrlFn StopPhase = stopFn"

definition ErrCleanExit :: goerr where
  "ErrCleanExit = ErrNew ''clean exit requested''"

definition dep_loop_error :: goerr where
  "dep_loop_error = ErrNew ''modules: dependency loop detected, cannot continue''"

definition mgr_init :: "sys \<Rightarrow> mgr" where
  "mgr_init s = \<lparr>msys = s, pc = Pass (modules s) 0, execCnt = 0, reportCnt = 0, tasks = [],
                reports = [], lastErr = None\<rparr>"

text \<open>One module of a pass: the \<open>switch\<close> on its readiness.\<close>

definition look :: "phase \<Rightarrow> string \<Rightarrow> string list \<Rightarrow> nat \<Rightarrow> mgr \<Rightarrow> mgr" where
  "look ph n rest w g =
     (case readyTo ph n (msys g) of
        statusNothingToDo \<Rightarrow> g\<lparr>pc := Pass rest w\<rparr>
      | statusWaiting \<Rightarrow> g\<lparr>pc := Pass rest (w + 1)\<rparr>
      | statusReady \<Rightarrow>
          (case exec ph n (msys g) of
             (s', None) \<Rightarrow> g\<lparr>msys := s', pc := Pass rest w, execCnt := execCnt g + 1,
                             tasks := (n, CtrlPending) # tasks g\<rparr>
           | (s', Some e) \<Rightarrow> g\<lparr>msys := s', pc := Pass rest w, execCnt := execCnt g + 1,
                               reports := (n, Some e) # reports g\<rparr>))"

text \<open>The result of the loop for a report with an error: the preparation and the start return
  it, the stop remembers it and goes on.\<close>

primrec failed_report :: "phase \<Rightarrow> string \<Rightarrow> goerr \<Rightarrow> goerr option" where
  "failed_report PrepPhase n e =
     (if errors_is e ErrCleanExit then Some e
      else Some (ErrWrap (''failed to prep module '' @ n) e))"
| "failed_report StartPhase n e = Some (ErrWrap (''modules: could not start module '' @ n) e)"
| "failed_report StopPhase n e = None"

definition receive :: "phase \<Rightarrow> string \<times> goerr option \<Rightarrow> mgr \<Rightarrow> mgr" where
  "receive ph rep g =
     (let g' = g\<lparr>reports := remove1 rep (reports g)\<rparr>;
          next_pass = (\<lambda>g. g\<lparr>reportCnt := reportCnt g + 1, pc := Pass (modules (msys g)) 0\<rparr>)
      in case snd rep of
           None \<Rightarrow> next_pass g'
         | Some e \<Rightarrow> (case failed_report ph (fst rep) e of
                       Some r \<Rightarrow> g'\<lparr>pc := Returned (Some r)\<rparr>
                     | None \<Rightarrow> next_pass (g'\<lparr>lastErr := Some e\<rparr>)))"

definition launch :: "phase \<Rightarrow> string \<Rightarrow> mgr \<Rightarrow> mgr" where
  "launch ph n g = g\<lparr>msys := ctrl_run ph n (msys g),
                     tasks := (n, CtrlRunning) # remove1 (n, CtrlPending) (tasks g)\<rparr>"

definition finish :: "phase \<Rightarrow> string \<Rightarrow> ctrl_result \<Rightarrow> mgr \<Rightarrow> mgr" where
  "finish ph n r g =
     (case ctrl_done ph n r (msys g) of
        (s', e) \<Rightarrow> g\<lparr>msys := s', tasks := remove1 (n, CtrlRunning) (tasks g),
                     reports := (n, e) # reports g\<rparr>)"

inductive mgr_step :: "phase \<Rightarrow> mgr \<Rightarrow> mgr \<Rightarrow> bool" for ph :: phase where
  step_look: "pc g = Pass ns w \<Longrightarrow> n \<in> set ns \<Longrightarrow> mgr_step ph g (look ph n (remove1 n ns) w g)"
| step_launch: "(n, CtrlPending) \<in> set (tasks g) \<Longrightarrow> mgr_step ph g (launch ph n g)"
| step_finish: "(n, CtrlRunning) \<in> set (tasks g) \<Longrightarrow>
    r \<in> set (ctrl_results (ctrlFn ph (store (msys g) n))) \<Longrightarrow> mgr_step ph g (finish ph n r g)"
| step_receive: "pc g = Pass [] w \<Longrightarrow> reportCnt g < execCnt g \<Longrightarrow> rep \<in> set (reports g) \<Longrightarrow>
    mgr_step ph g (receive ph rep g)"
| step_return: "pc g = Pass [] w \<Longrightarrow> \<not> reportCnt g < execCnt g \<Longrightarrow>
    mgr_step ph g (g\<lparr>pc := Returned (if w > 0 then Some dep_loop_error else lastErr g)\<rparr>)"

inductive_cases mgr_stepE: "mgr_step ph g g'"

text \<open>A call of one of the loops that returns \<open>res\<close> with the loop and its goroutines in the
  state \<open>g\<close>.\<close>

definition loop_returns :: "phase \<Rightarrow> sys \<Rightarrow> goerr option \<Rightarrow> mgr \<Rightarrow> bool" where
  "loop_returns ph s res g \<longleftrightarrow> (mgr_step ph)\<^sup>*\<^sup>* (mgr_init s) g \<and> pc g = Returned res"

end
