(* ===== verification/Module_Loops.thy ===== *)
theory Module_Loops
  imports Module_Manager
begin

section \<open>The manager loops: what a pass guarantees\<close>

text \<open>
  The three loops of the module manager share one contract, the locale \<open>phase_contract\<close>: a
  module moves from one status over an intermediate one to a third, once all its prerequisites
  are in an accepted status. The lemmas on the loop are proved in the locale and the
  interpretations at the end carry them to preparing, starting and stopping.
\<close>

lemma ctrl_results_last: "last (ctrl_results fn) \<in> set (ctrl_results fn)"
  by (cases fn) (auto simp: ctrl_results_def)

subsection \<open>What the operations keep\<close>

definition same_static :: "sys \<Rightarrow> sys \<Rightarrow> bool" where
  "same_static s s' \<longleftrightarrow>
     modules s' = modules s \<and> moduleMgmtEnabled s' = moduleMgmtEnabled s \<and>
     shutdownFlag s' = shutdownFlag s \<and>
     (\<forall>n. depModules (store s' n) = depModules (store s n) \<and>
          depReverse (store s' n) = depReverse (store s n) \<and>
          enabled (store s' n) = enabled (store s n) \<and>
          enabledAsDependency (store s' n) = enabledAsDependency (store s n) \<and>
          prepFn (store s' n) = prepFn (store s n) \<and> startFn (store s' n) = startFn (store s n) \<and>
          stopFn (store s' n) = stopFn (store s n))"

definition moves :: "string \<Rightarrow> mstatus \<Rightarrow> sys \<Rightarrow> sys \<Rightarrow> bool" where
  "moves n st s s' \<longleftrightarrow> same_static s s' \<and> mstat s' = (mstat s)(n := st)"

definition quiet :: "sys \<Rightarrow> sys \<Rightarrow> bool" where
  "quiet s s' \<longleftrightarrow> same_static s s' \<and> mstat s' = mstat s"

named_theorems quiet_intros

lemma same_static_refl [simp]: "same_static s s"
  by (simp add: same_static_def)

lemma same_static_trans: "same_static s s' \<Longrightarrow> same_static s' s'' \<Longrightarrow> same_static s s''"
  by (simp add: same_static_def)

lemma quiet_refl [simp, quiet_intros]: "quiet s s"
  by (simp add: quiet_def)

lemma quiet_trans: "quiet s s' \<Longrightarrow> quiet s' s'' \<Longrightarrow> quiet s s''"
  unfolding quiet_def using same_static_trans by metis

lemma quiet_moves_trans: "quiet s s' \<Longrightarrow> moves n st s' s'' \<Longrightarrow> moves n st s s''"
  unfolding quiet_def moves_def using same_static_trans by metis

lemma moves_quiet_trans: "moves n st s s' \<Longrightarrow> quiet s' s'' \<Longrightarrow> moves n st s s''"
  unfolding quiet_def moves_def using same_static_trans by metis

lemma mstat_upd: "mstat (upd n f s) = (mstat s)(n := status (f (store s n)))"
  by (auto simp: mstat_def upd_def)

lemma quiet_upd:
  assumes "\<And>m. status (f m) = status m" "\<And>m. depModules (f m) = depModules m"
    "\<And>m. depReverse (f m) = depReverse m" "\<And>m. enabled (f m) = enabled m"
    "\<And>m. enabledAsDependency (f m) = enabledAsDependency m"
    "\<And>m. prepFn (f m) = prepFn m" "\<And>m. startFn (f m) = startFn m" "\<And>m. stopFn (f m) = stopFn m"
  shows "quiet s (upd n f s)"
  using assms by (auto simp: quiet_def same_static_def upd_def mstat_def)

lemma moves_upd:
  assumes "\<And>m. status (f m) = st" "\<And>m. depModules (f m) = depModules m"
    "\<And>m. depReverse (f m) = depReverse m" "\<And>m. enabled (f m) = enabled m"
    "\<And>m. enabledAsDependency (f m) = enabledAsDependency m"
    "\<And>m. prepFn (f m) = prepFn m" "\<And>m. startFn (f m) = startFn m" "\<And>m. stopFn (f m) = stopFn m"
  shows "moves n st s (upd n f s)"
  using assms by (auto simp: moves_def same_static_def upd_def mstat_def)

lemma quiet_logs [simp]:
  "quiet s (s'\<lparr>changeLog := l\<rparr>) = quiet s s'" "quiet s (s'\<lparr>failureLog := f\<rparr>) = quiet s s'"
  "quiet s (s'\<lparr>goPanic := p\<rparr>) = quiet s s'" "moves n st s (s'\<lparr>goPanic := p\<rparr>) = moves n st s s'"
  by (auto simp: quiet_def moves_def same_static_def mstat_def fun_eq_iff)

lemma quiet_notify [quiet_intros]: "quiet s (notifyOfChange n s)"
  by (simp add: notifyOfChange_def)

lemma quiet_setFailure [quiet_intros]: "quiet s (setFailure st i t m n s)"
proof -
  define f where "f = (\<lambda>m'. m'\<lparr>failureStatus := st, failureID := i, failureTitle := t, failureMsg := m\<rparr> :: Module)"
  have *: "quiet s (upd n f s)" unfolding f_def by (rule quiet_upd) simp_all
  have "quiet s (notifyOfChange n (upd n f s))" using * quiet_notify quiet_trans by blast
  then show ?thesis
    using quiet_notify[of s n] by (auto simp: setFailure_def Let_def f_def)
qed

lemma quiet_Resolve [quiet_intros]: "quiet s (Resolve i n s)"
proof -
  define f where "f = (\<lambda>m'. m'\<lparr>failureStatus := FailureNone, failureID := '''', failureTitle := '''', failureMsg := ''''\<rparr> :: Module)"
  have *: "quiet s (upd n f s)" unfolding f_def by (rule quiet_upd) simp_all
  have "quiet s (notifyOfChange n (upd n f s))" using * quiet_notify quiet_trans by blast
  then show ?thesis by (auto simp: Resolve_def Let_def f_def)
qed

lemma quiet_check [quiet_intros]: "quiet s (checkIfStopComplete n s)"
  unfolding checkIfStopComplete_def Let_def
  by (auto simp: split_def intro!: quiet_upd)

lemma quiet_startCtrlFn [quiet_intros]: "quiet s (startCtrlFn n fn s)"
proof -
  have *: "quiet s (upd n (\<lambda>m. m\<lparr>ctrlFuncRunning := b\<rparr>) s)" for b by (rule quiet_upd) simp_all
  show ?thesis
    using * quiet_trans[OF * quiet_check] by (simp add: startCtrlFn_def split: option.split)
qed

lemma quiet_endCtrlFn [quiet_intros]: "quiet s (endCtrlFn n fn r s)"
proof -
  have *: "quiet s (upd n (\<lambda>m. m\<lparr>ctrlFuncRunning := False\<rparr>) s)" by (rule quiet_upd) simp_all
  show ?thesis using quiet_trans[OF * quiet_check] by (simp add: endCtrlFn_def)
qed

lemma quiet_status: "quiet s s' \<Longrightarrow> mstat s' n = mstat s n"
  by (simp add: quiet_def)

subsection \<open>The contract of a phase\<close>

definition prereq_rel :: "(Module \<Rightarrow> string list) \<Rightarrow> sys \<Rightarrow> (string \<times> string) set" where
  "prereq_rel prereqs s = {(d, n). n \<in> set (modules s) \<and> d \<in> set (prereqs (store s n))}"

locale phase_contract =
  fixes ph :: phase
    and wanted :: "sys \<Rightarrow> string \<Rightarrow> bool"
    and prereqs :: "Module \<Rightarrow> string list"
    and okst :: "mstatus \<Rightarrow> bool"
    and st_from st_mid st_to :: mstatus
    and fatal :: bool
  assumes st_distinct: "st_from \<noteq> st_mid" "st_from \<noteq> st_to" "st_mid \<noteq> st_to"
    and okst_laws: "okst st_to" "\<not> okst st_from" "\<not> okst st_mid"
    and readyTo_eq: "readyTo ph n s =
        (if \<not> wanted s n \<or> mstat s n \<noteq> st_from then statusNothingToDo
         else if \<forall>d \<in> set (prereqs (store s n)). okst (mstat s d) then statusReady
         else statusWaiting)"
    and exec_from: "mstat s n = st_from \<Longrightarrow> \<exists>s'. exec ph n s = (s', None) \<and> moves n st_mid s s'"
    and run_quiet: "quiet s (ctrl_run ph n s)"
    and done_moves: "ctrl_done ph n r s = (s', e) \<Longrightarrow>
        if e = None \<or> \<not> fatal then moves n st_to s s' else quiet s s'"
    and report_fatal: "failed_report ph n err = None \<longleftrightarrow> \<not> fatal"
    and wanted_static: "same_static s s' \<Longrightarrow> wanted s' n = wanted s n"
    and prereqs_static: "same_static s s' \<Longrightarrow> prereqs (store s' n) = prereqs (store s n)"
begin

text \<open>The part of the invariant that concerns the modules: nothing but the phase's move has
  happened, and only to wanted modules with their prerequisites in place.\<close>

definition moved_ok :: "sys \<Rightarrow> sys \<Rightarrow> bool" where
  "moved_ok s0 s \<longleftrightarrow> same_static s0 s \<and>
     (\<forall>n. mstat s n \<noteq> mstat s0 n \<longrightarrow>
        mstat s0 n = st_from \<and> mstat s n \<in> {st_mid, st_to} \<and> wanted s0 n \<and>
        n \<in> set (modules s0) \<and> (\<forall>d \<in> set (prereqs (store s0 n)). okst (mstat s d)))"

definition tasks_ok :: "sys \<Rightarrow> sys \<Rightarrow> (string \<times> stage) list \<Rightarrow> bool" where
  "tasks_ok s0 s ts \<longleftrightarrow> distinct (map fst ts) \<and>
     (\<forall>n \<in> fst ` set ts. mstat s n = st_mid \<and> mstat s0 n = st_from)"

definition stuck_reported ::
  "sys \<Rightarrow> sys \<Rightarrow> (string \<times> stage) list \<Rightarrow> (string \<times> goerr option) list \<Rightarrow> bool" where
  "stuck_reported s0 s ts rs \<longleftrightarrow>
     (\<forall>n. mstat s n = st_mid \<and> mstat s0 n = st_from \<longrightarrow>
        n \<in> fst ` set ts \<or> fatal \<and> (\<exists>e. (n, Some e) \<in> set rs))"

definition pass_ok :: "string list \<Rightarrow> nat \<Rightarrow> mgr \<Rightarrow> bool" where
  "pass_ok ns w g \<longleftrightarrow>
     set ns \<subseteq> set (modules (msys g)) \<and>
     execCnt g = reportCnt g + length (tasks g) + length (reports g) \<and>
     (fatal \<longrightarrow> lastErr g = None) \<and>
     (tasks g = [] \<and> reports g = [] \<longrightarrow>
        (\<forall>n \<in> set (modules (msys g)) - set ns. readyTo ph n (msys g) \<noteq> statusReady) \<and>
        (if w = 0 then \<forall>n \<in> set (modules (msys g)) - set ns. readyTo ph n (msys g) = statusNothingToDo
         else \<exists>n \<in> set (modules (msys g)). readyTo ph n (msys g) = statusWaiting))"

definition ended_ok :: "sys \<Rightarrow> goerr option \<Rightarrow> mgr \<Rightarrow> bool" where
  "ended_ok s0 res g \<longleftrightarrow>
     (fatal \<and> (\<exists>n e. res \<noteq> None \<and> res = failed_report ph n e)) \<or>
     (tasks g = [] \<and> reports g = [] \<and> stuck_reported s0 (msys g) [] [] \<and>
      (\<forall>n \<in> set (modules (msys g)). readyTo ph n (msys g) \<noteq> statusReady) \<and>
      (fatal \<longrightarrow> lastErr g = None) \<and>
      (res = lastErr g \<and> (\<forall>n \<in> set (modules (msys g)). readyTo ph n (msys g) = statusNothingToDo) \<or>
       res = Some dep_loop_error \<and> (\<exists>n \<in> set (modules (msys g)). readyTo ph n (msys g) = statusWaiting)))"

definition loop_inv :: "sys \<Rightarrow> mgr \<Rightarrow> bool" where
  "loop_inv s0 g \<longleftrightarrow> moved_ok s0 (msys g) \<and> tasks_ok s0 (msys g) (tasks g) \<and>
     (case pc g of Pass ns w \<Rightarrow> pass_ok ns w g \<and> stuck_reported s0 (msys g) (tasks g) (reports g)
                 | Returned res \<Rightarrow> ended_ok s0 res g)"

lemma loop_inv_init: "loop_inv s (mgr_init s)"
  using st_distinct
  by (simp add: loop_inv_def moved_ok_def tasks_ok_def mgr_init_def pass_ok_def stuck_reported_def)

lemma moved_ok_move:
  assumes m: "moved_ok s0 s" and mv: "moves n st s s'" and st: "st = st_mid \<or> st = st_to"
    and frm: "mstat s0 n = st_from"
    and want: "wanted s0 n" and reg: "n \<in> set (modules s0)"
    and pre: "\<forall>d \<in> set (prereqs (store s0 n)). okst (mstat s d)"
    and noted: "\<not> okst (mstat s n)"
  shows "moved_ok s0 s'"
  unfolding moved_ok_def
proof (intro conjI allI impI)
  show "same_static s0 s'" using m mv same_static_trans by (auto simp: moved_ok_def moves_def)
  fix k assume k: "mstat s' k \<noteq> mstat s0 k"
  have eq: "mstat s' = (mstat s)(n := st)" using mv by (simp add: moves_def)
  have ok: "okst (mstat s d) \<Longrightarrow> okst (mstat s' d)" for d using noted eq by (cases "d = n") auto
  consider "k = n" | "k \<noteq> n" by blast
  then have *: "mstat s0 k = st_from \<and> mstat s' k \<in> {st_mid, st_to} \<and> wanted s0 k \<and>
             k \<in> set (modules s0) \<and> (\<forall>d \<in> set (prereqs (store s0 k)). okst (mstat s' d))"
  proof cases
    case 1 with st frm want reg pre ok eq show ?thesis by auto
  next
    case 2
    with k eq have "mstat s k \<noteq> mstat s0 k" by simp
    with m have "mstat s0 k = st_from \<and> mstat s k \<in> {st_mid, st_to} \<and> wanted s0 k \<and>
             k \<in> set (modules s0) \<and> (\<forall>d \<in> set (prereqs (store s0 k)). okst (mstat s d))"
      unfolding moved_ok_def by blast
    with 2 eq ok show ?thesis by auto
  qed
  then show "mstat s0 k = st_from" "mstat s' k \<in> {st_mid, st_to}" "wanted s0 k" "k \<in> set (modules s0)"
    "\<forall>d \<in> set (prereqs (store s0 k)). okst (mstat s' d)" by blast+
qed

lemma moved_ok_from:
  assumes "moved_ok s0 s"
  shows "mstat s n = st_from \<Longrightarrow> mstat s0 n = st_from"
    and "mstat s0 n \<noteq> st_from \<Longrightarrow> mstat s n = mstat s0 n"
    and "mstat s0 n = st_from \<Longrightarrow> mstat s n = st_from \<or> mstat s n = st_mid \<or> mstat s n = st_to"
  using assms unfolding moved_ok_def by (metis, metis, metis insertE singletonD)

lemma moved_ok_quiet: "moved_ok s0 s \<Longrightarrow> quiet s s' \<Longrightarrow> moved_ok s0 s'"
  unfolding moved_ok_def quiet_def using same_static_trans by auto

lemma readyTo_cong: "quiet s s' \<Longrightarrow> readyTo ph n s' = readyTo ph n s"
  unfolding quiet_def readyTo_eq using wanted_static prereqs_static by auto

lemma moves_others: "moves n st s s' \<Longrightarrow> k \<noteq> n \<Longrightarrow> mstat s' k = mstat s k"
  by (simp add: moves_def)

lemma moves_self: "moves n st s s' \<Longrightarrow> mstat s' n = st"
  by (simp add: moves_def)

lemma moves_modules: "moves n st s s' \<Longrightarrow> modules s' = modules s"
  by (simp add: moves_def same_static_def)

lemma tasks_ok_quiet: "tasks_ok s0 s ts \<Longrightarrow> quiet s s' \<Longrightarrow> tasks_ok s0 s' ts"
  by (simp add: tasks_ok_def quiet_def)

lemma tasks_ok_add:
  assumes "tasks_ok s0 s ts" "moves n st_mid s s'" "mstat s0 n = st_from" "mstat s n = st_from"
  shows "tasks_ok s0 s' ((n, sg) # ts)"
proof -
  have "n \<notin> fst ` set ts" using assms st_distinct by (auto simp: tasks_ok_def)
  then show ?thesis using assms by (auto simp: tasks_ok_def moves_def)
qed

lemma tasks_ok_sub:
  assumes "tasks_ok s0 s ts" "(n, sg) \<in> set ts"
  shows "tasks_ok s0 s (remove1 (n, sg) ts)" "n \<notin> fst ` set (remove1 (n, sg) ts)"
    "fst ` set ts = insert n (fst ` set (remove1 (n, sg) ts))"
    "Suc (length (remove1 (n, sg) ts)) = length ts" "mstat s n = st_mid" "mstat s0 n = st_from"
proof -
  obtain us vs where ts: "ts = us @ (n, sg) # vs" "(n, sg) \<notin> set us"
    using split_list_first[OF assms(2)] by blast
  then have r: "remove1 (n, sg) ts = us @ vs" by (simp add: remove1_append)
  show "tasks_ok s0 s (remove1 (n, sg) ts)" "n \<notin> fst ` set (remove1 (n, sg) ts)"
    "mstat s n = st_mid" "mstat s0 n = st_from"
    using assms(1) unfolding r unfolding ts tasks_ok_def by auto
  show "fst ` set ts = insert n (fst ` set (remove1 (n, sg) ts))"
    "Suc (length (remove1 (n, sg) ts)) = length ts" unfolding r unfolding ts by auto
qed

lemma tasks_ok_moved: "tasks_ok s0 s ts \<Longrightarrow> moves n st s s' \<Longrightarrow> n \<notin> fst ` set ts \<Longrightarrow> tasks_ok s0 s' ts"
  by (auto simp: tasks_ok_def moves_def)

lemma stuck_reported_mono:
  assumes "stuck_reported s0 s ts rs" "fst ` set ts \<subseteq> fst ` set ts'" "set rs \<subseteq> set rs'" "quiet s s'"
  shows "stuck_reported s0 s' ts' rs'"
  unfolding stuck_reported_def
proof (intro allI impI)
  fix n assume "mstat s' n = st_mid \<and> mstat s0 n = st_from"
  then have "n \<in> fst ` set ts \<or> fatal \<and> (\<exists>e. (n, Some e) \<in> set rs)"
    using assms(1,4) unfolding stuck_reported_def quiet_def by simp
  then show "n \<in> fst ` set ts' \<or> fatal \<and> (\<exists>e. (n, Some e) \<in> set rs')" using assms(2,3) by blast
qed

lemma stuck_reported_exec:
  "stuck_reported s0 s ts rs \<Longrightarrow> moves n st_mid s s' \<Longrightarrow> stuck_reported s0 s' ((n, sg) # ts) rs"
  by (auto simp: stuck_reported_def moves_def)

lemma pass_ok_skip:
  assumes P: "pass_ok ns w g" and n: "n \<in> set ns"
    and ready: "readyTo ph n (msys g) = (if b then statusWaiting else statusNothingToDo)"
  shows "pass_ok (remove1 n ns) (if b then w + 1 else w) (g\<lparr>pc := x\<rparr>)"
proof -
  have sub: "set (remove1 n ns) \<subseteq> set ns" "n \<in> set (modules (msys g))"
    using P n set_remove1_subset[of n ns] by (auto simp: pass_ok_def)
  have split: "k = n \<or> k \<in> set (modules (msys g)) - set ns"
    if "k \<in> set (modules (msys g)) - set (remove1 n ns)" for k
    using that in_set_remove1[of k n ns] by auto
  have "\<forall>k \<in> set (modules (msys g)) - set (remove1 n ns). readyTo ph k (msys g) \<noteq> statusReady"
    if "tasks g = []" "reports g = []"
  proof
    fix k assume "k \<in> set (modules (msys g)) - set (remove1 n ns)"
    with split consider "k = n" | "k \<in> set (modules (msys g)) - set ns" by blast
    then show "readyTo ph k (msys g) \<noteq> statusReady"
      using P that ready unfolding pass_ok_def by cases simp_all
  qed
  moreover have "\<forall>k \<in> set (modules (msys g)) - set (remove1 n ns). readyTo ph k (msys g) = statusNothingToDo"
    if "tasks g = []" "reports g = []" "\<not> b" "w = 0"
  proof
    fix k assume "k \<in> set (modules (msys g)) - set (remove1 n ns)"
    with split consider "k = n" | "k \<in> set (modules (msys g)) - set ns" by blast
    then show "readyTo ph k (msys g) = statusNothingToDo"
      using P that ready unfolding pass_ok_def by cases simp_all
  qed
  ultimately show ?thesis using P sub ready unfolding pass_ok_def by (auto split: if_splits)
qed

text \<open>Preservation, one lemma for each kind of step.\<close>

lemma loop_inv_look:
  assumes inv: "loop_inv s0 g" and pc: "pc g = Pass ns w" and n: "n \<in> set ns"
  shows "loop_inv s0 (look ph n (remove1 n ns) w g)"
proof (cases "readyTo ph n (msys g)")
  case statusReady
  have from': "mstat (msys g) n = st_from" and want: "wanted (msys g) n"
    and pre: "\<forall>d \<in> set (prereqs (store (msys g) n)). okst (mstat (msys g) d)"
    using statusReady unfolding readyTo_eq by (auto split: if_splits)
  obtain s' where ex: "exec ph n (msys g) = (s', None)" and mv: "moves n st_mid (msys g) s'"
    using exec_from[OF from'] by blast
  have M: "moved_ok s0 (msys g)" and T: "tasks_ok s0 (msys g) (tasks g)" and P: "pass_ok ns w g"
    and R: "stuck_reported s0 (msys g) (tasks g) (reports g)" using inv pc by (auto simp: loop_inv_def)
  have st: "same_static s0 (msys g)" using M by (simp add: moved_ok_def)
  then have mods: "modules (msys g) = modules s0" by (simp add: same_static_def)
  have s0: "mstat s0 n = st_from" using M from' st_distinct unfolding moved_ok_def by (metis insertE singletonD)
  have "moved_ok s0 s'"
    using M mv s0 want pre n P okst_laws from' wanted_static[OF st] prereqs_static[OF st] mods
    by (intro moved_ok_move[OF M mv]) (auto simp: pass_ok_def)
  moreover have "set (remove1 n ns) \<subseteq> set (modules s')"
    using P moves_modules[OF mv] set_remove1_subset[of n ns] by (auto simp: pass_ok_def)
  ultimately show ?thesis
    using statusReady ex P tasks_ok_add[OF T mv s0 from'] stuck_reported_exec[OF R mv]
    by (simp add: loop_inv_def look_def pass_ok_def)
next
  case statusWaiting
  with inv pc n pass_ok_skip[of ns w g n True] show ?thesis
    by (simp add: loop_inv_def look_def)
next
  case statusNothingToDo
  with inv pc n pass_ok_skip[of ns w g n False] show ?thesis
    by (simp add: loop_inv_def look_def)
qed

lemma loop_inv_launch:
  assumes inv: "loop_inv s0 g" and n: "(n, CtrlPending) \<in> set (tasks g)"
  shows "loop_inv s0 (launch ph n g)"
proof -
  have q: "quiet (msys g) (ctrl_run ph n (msys g))" by (rule run_quiet)
  have T: "tasks_ok s0 (msys g) (tasks g)" and M: "moved_ok s0 (msys g)"
    using inv by (auto simp: loop_inv_def)
  note sub = tasks_ok_sub[OF T n]
  let ?s = "ctrl_run ph n (msys g)" and ?ts = "(n, CtrlRunning) # remove1 (n, CtrlPending) (tasks g)"
  have "tasks_ok s0 ?s ?ts"
    using tasks_ok_quiet[OF sub(1) q] sub q by (auto simp: tasks_ok_def quiet_def)
  moreover have "stuck_reported s0 (msys g) (tasks g) rs \<Longrightarrow> stuck_reported s0 ?s ?ts rs" for rs
    by (rule stuck_reported_mono[OF _ _ _ q]) (use sub(3) in auto)
  moreover have "tasks g \<noteq> []" using n by auto
  moreover have "modules ?s = modules (msys g)" using q by (simp add: quiet_def same_static_def)
  ultimately show ?thesis
    using moved_ok_quiet[OF M q] inv sub(4)
    by (auto simp: loop_inv_def launch_def pass_ok_def ended_ok_def split: pcounter.splits)
qed

lemma loop_inv_finish:
  assumes inv: "loop_inv s0 g" and n: "(n, CtrlRunning) \<in> set (tasks g)"
  shows "loop_inv s0 (finish ph n r g)"
proof -
  obtain s' e where d: "ctrl_done ph n r (msys g) = (s', e)" by fastforce
  have T: "tasks_ok s0 (msys g) (tasks g)" and M: "moved_ok s0 (msys g)"
    using inv by (auto simp: loop_inv_def)
  note sub = tasks_ok_sub[OF T n]
  let ?ts = "remove1 (n, CtrlRunning) (tasks g)"
  have ne: "tasks g \<noteq> []" using n by auto
  have *: "moved_ok s0 s' \<and> tasks_ok s0 s' ?ts \<and> modules s' = modules (msys g) \<and>
     (stuck_reported s0 (msys g) (tasks g) (reports g) \<longrightarrow> stuck_reported s0 s' ?ts ((n, e) # reports g))"
  proof (cases "e = None \<or> \<not> fatal")
    case True
    then have mv: "moves n st_to (msys g) s'" using done_moves[OF d] by simp
    have st: "same_static s0 (msys g)" using M by (simp add: moved_ok_def)
    from M sub(5,6) st_distinct have w: "wanted s0 n" "n \<in> set (modules s0)"
      "\<forall>d \<in> set (prereqs (store s0 n)). okst (mstat (msys g) d)"
      unfolding moved_ok_def by metis+
    have "moved_ok s0 s'" using moved_ok_move[OF M mv] w sub(5,6) okst_laws by simp
    moreover have "tasks_ok s0 s' ?ts" using tasks_ok_moved[OF sub(1) mv sub(2)] .
    moreover have "stuck_reported s0 (msys g) (tasks g) (reports g) \<Longrightarrow>
        stuck_reported s0 s' ?ts ((n, e) # reports g)"
      using mv sub(3) st_distinct by (auto simp: stuck_reported_def moves_def split: if_splits)
    ultimately show ?thesis using moves_modules[OF mv] by blast
  next
    case False
    then have q: "quiet (msys g) s'" using done_moves[OF d] by simp
    have "stuck_reported s0 (msys g) (tasks g) (reports g) \<Longrightarrow>
        stuck_reported s0 s' ?ts ((n, e) # reports g)"
      unfolding stuck_reported_def using q sub(3) False by (auto simp: quiet_def)
    then show ?thesis
      using moved_ok_quiet[OF M q] tasks_ok_quiet[OF sub(1) q] q by (simp add: quiet_def same_static_def)
  qed
  then show ?thesis using inv d sub(4) ne
    by (auto simp: loop_inv_def finish_def pass_ok_def ended_ok_def split: pcounter.splits)
qed

lemma loop_inv_receive:
  assumes inv: "loop_inv s0 g" and pc: "pc g = Pass [] w" and rep: "rep \<in> set (reports g)"
  shows "loop_inv s0 (receive ph rep g)"
proof -
  obtain n e where r: "rep = (n, e)" by fastforce
  have len: "Suc (length (remove1 rep (reports g))) = length (reports g)"
    using rep length_pos_if_in_set[OF rep] by (simp add: length_remove1)
  have T: "tasks_ok s0 (msys g) (tasks g)" and M: "moved_ok s0 (msys g)" and P: "pass_ok [] w g"
    and R: "stuck_reported s0 (msys g) (tasks g) (reports g)"
    using inv pc by (auto simp: loop_inv_def)
  have R': "e = None \<or> \<not> fatal \<Longrightarrow> stuck_reported s0 (msys g) (tasks g) (remove1 rep (reports g))"
    using R r by (auto simp: stuck_reported_def)
  show ?thesis
  proof (cases "e = None \<or> \<not> fatal")
    case True
    have nxt: "pass_ok (modules (msys g)) 0 (g\<lparr>reports := remove1 rep (reports g), lastErr := le,
        reportCnt := reportCnt g + 1, pc := x\<rparr>)" if "fatal \<longrightarrow> le = None" for le x
      using that len P unfolding pass_ok_def by simp
    show ?thesis
    proof (cases e)
      case None
      with nxt[of "lastErr g"] P M T R'[OF True] r show ?thesis
        by (simp add: loop_inv_def receive_def pass_ok_def)
    next
      case (Some err)
      with True report_fatal have "failed_report ph n err = None" by auto
      moreover have "fatal \<longrightarrow> e = None" using Some True by auto
      ultimately show ?thesis using nxt[of e] M T R'[OF True] r Some
        unfolding loop_inv_def receive_def by simp
    qed
  next
    case False
    then obtain err where e: "e = Some err" "fatal" by auto
    then obtain x where "failed_report ph n err = Some x" using report_fatal by fastforce
    then have "ended_ok s0 (Some x) h" for h using e unfolding ended_ok_def by (metis option.distinct(1))
    with T M r e \<open>failed_report ph n err = Some x\<close> show ?thesis
      unfolding loop_inv_def receive_def by simp
  qed
qed

lemma loop_inv_step: "mgr_step ph g g' \<Longrightarrow> loop_inv s0 g \<Longrightarrow> loop_inv s0 g'"
proof (induction rule: mgr_step.induct)
  case (step_return g w)
  then have len: "tasks g = []" "reports g = []" by (auto simp: loop_inv_def pass_ok_def)
  with step_return show ?case
    by (auto simp: loop_inv_def pass_ok_def ended_ok_def)
qed (simp_all add: loop_inv_look loop_inv_launch loop_inv_finish loop_inv_receive)

lemma loop_inv_reach: "(mgr_step ph)\<^sup>*\<^sup>* (mgr_init s) g \<Longrightarrow> loop_inv s g"
  by (induction rule: rtranclp_induct) (auto intro: loop_inv_init loop_inv_step)

lemma moved_ok_static: "moved_ok s s' \<Longrightarrow> same_static s s'"
  by (simp add: moved_ok_def)

lemma moved_ok_prereqs:
  "moved_ok s s' \<Longrightarrow> mstat s' n \<noteq> mstat s n \<Longrightarrow> d \<in> set (prereqs (store s n)) \<Longrightarrow> okst (mstat s' d)"
  unfolding moved_ok_def by blast

lemma reach_moved_ok: "(mgr_step ph)\<^sup>*\<^sup>* (mgr_init s) g \<Longrightarrow> moved_ok s (msys g)"
  using loop_inv_reach unfolding loop_inv_def by blast

text \<open>What the loop guarantees when it returns.\<close>

lemma returned_cases:
  assumes "loop_returns ph s res g"
  shows "moved_ok s (msys g)" "ended_ok s res g"
  using assms loop_inv_reach unfolding loop_returns_def loop_inv_def by fastforce+

lemma all_moved:
  assumes M: "moved_ok s s'" and S: "stuck_reported s s' [] []"
    and N: "\<forall>n \<in> set (modules s'). readyTo ph n s' = statusNothingToDo"
    and n: "n \<in> set (modules s)" "wanted s n" "mstat s n = st_from"
  shows "mstat s' n = st_to"
proof -
  have st: "same_static s s'" using M by (simp add: moved_ok_def)
  then have "n \<in> set (modules s')" using n by (simp add: same_static_def)
  with N have "readyTo ph n s' = statusNothingToDo" by blast
  then have "mstat s' n \<noteq> st_from"
    using n wanted_static[OF st] unfolding readyTo_eq by (auto split: if_splits)
  moreover have "mstat s' n \<noteq> st_mid" using S n unfolding stuck_reported_def by auto
  ultimately show ?thesis using moved_ok_from(3)[OF M] n by blast
qed

text \<open>Modules are left waiting only when the prerequisites have a cycle, provided that each
  prerequisite of a module to be moved is in place or is to be moved itself.\<close>

definition can_complete :: "sys \<Rightarrow> bool" where
  "can_complete s \<longleftrightarrow> wf (prereq_rel prereqs s) \<and>
     (\<forall>n \<in> set (modules s). wanted s n \<and> mstat s n = st_from \<longrightarrow>
        (\<forall>d \<in> set (prereqs (store s n)).
           okst (mstat s d) \<or> d \<in> set (modules s) \<and> wanted s d \<and> mstat s d = st_from))"

lemma none_waiting:
  assumes C: "can_complete s" and M: "moved_ok s s'" and S: "stuck_reported s s' [] []"
    and NR: "\<forall>n \<in> set (modules s'). readyTo ph n s' \<noteq> statusReady"
    and n: "n \<in> set (modules s)"
  shows "readyTo ph n s' \<noteq> statusWaiting"
proof -
  have st: "same_static s s'" using M by (simp add: moved_ok_def)
  then have mods: "modules s' = modules s" by (simp add: same_static_def)
  have "wf (prereq_rel prereqs s)" using C by (simp add: can_complete_def)
  then show ?thesis using n
  proof (induction n rule: wf_induct_rule)
    case (less n)
    show ?case
    proof
      assume w: "readyTo ph n s' = statusWaiting"
      then obtain d where d: "d \<in> set (prereqs (store s n))" "\<not> okst (mstat s' d)"
        and n: "wanted s n" "mstat s' n = st_from"
        unfolding readyTo_eq using wanted_static[OF st] prereqs_static[OF st] by (auto split: if_splits)
      have "mstat s n = st_from" using moved_ok_from(1)[OF M] n by blast
      with C less(2) n d have "okst (mstat s d) \<or> d \<in> set (modules s) \<and> wanted s d \<and> mstat s d = st_from"
        by (auto simp: can_complete_def)
      then consider "okst (mstat s d)" | "d \<in> set (modules s)" "wanted s d" "mstat s d = st_from" by blast
      then show False
      proof cases
        case 1
        then have "mstat s d \<noteq> st_from" using okst_laws by auto
        then show False using moved_ok_from(2)[OF M] d 1 by simp
      next
        case 2
        have "mstat s' d \<noteq> st_mid" using S 2 unfolding stuck_reported_def by auto
        moreover have "mstat s' d \<noteq> st_to" using d okst_laws by auto
        ultimately have "mstat s' d = st_from" using moved_ok_from(3)[OF M] 2 by blast
        then have "readyTo ph d s' = statusWaiting"
          using 2 NR mods wanted_static[OF st] unfolding readyTo_eq by metis
        moreover have "(d, n) \<in> prereq_rel prereqs s" using d less(2) by (simp add: prereq_rel_def)
        ultimately show False using less(1) 2 by blast
      qed
    qed
  qed
qed

lemma returned_complete:
  assumes R: "loop_returns ph s res g" and C: "can_complete s"
  shows "fatal \<and> (\<exists>n e. res = failed_report ph n e \<and> res \<noteq> None) \<or>
    tasks g = [] \<and> reports g = [] \<and> res = lastErr g \<and> (fatal \<longrightarrow> res = None) \<and>
    (\<forall>n \<in> set (modules s). wanted s n \<and> mstat s n = st_from \<longrightarrow> mstat (msys g) n = st_to)"
proof -
  note M = returned_cases(1)[OF R]
  have mods: "modules (msys g) = modules s" using M by (simp add: moved_ok_def same_static_def)
  have E: "ended_ok s res g" by (rule returned_cases(2)[OF R])
  show ?thesis
  proof (cases "fatal \<and> (\<exists>n e. res = failed_report ph n e \<and> res \<noteq> None)")
    case False
    with E have T: "tasks g = []" "reports g = []" and S: "stuck_reported s (msys g) [] []"
      and NR: "\<forall>n \<in> set (modules (msys g)). readyTo ph n (msys g) \<noteq> statusReady"
      and L: "fatal \<longrightarrow> lastErr g = None"
      and W: "res = lastErr g \<or> (\<exists>n \<in> set (modules (msys g)). readyTo ph n (msys g) = statusWaiting)"
      unfolding ended_ok_def by blast+
    have NW: "\<forall>n \<in> set (modules (msys g)). readyTo ph n (msys g) \<noteq> statusWaiting"
      using none_waiting[OF C M S NR] mods by simp
    with NR have "\<forall>n \<in> set (modules (msys g)). readyTo ph n (msys g) = statusNothingToDo"
      using readiness.exhaust by blast
    then show ?thesis using T L W NW all_moved[OF M S] by blast
  qed blast
qed

lemma returned_success:
  assumes "loop_returns ph s None g"
  shows "tasks g = [] \<and> reports g = [] \<and>
    (\<forall>n \<in> set (modules s). wanted s n \<and> mstat s n = st_from \<longrightarrow> mstat (msys g) n = st_to)"
proof -
  note R = returned_cases[OF assms]
  have "tasks g = []" "reports g = []" "stuck_reported s (msys g) [] []"
    "\<forall>n \<in> set (modules (msys g)). readyTo ph n (msys g) = statusNothingToDo"
    using R(2) unfolding ended_ok_def by blast+
  then show ?thesis using all_moved[OF R(1)] by blast
qed

text \<open>The loop ends: each step lowers a measure, and only a loop that has returned has no
  step of its own left.\<close>

definition task_weight :: "nat \<Rightarrow> string \<times> stage \<Rightarrow> nat" where
  "task_weight N t = (case snd t of CtrlPending \<Rightarrow> N + 4 | CtrlRunning \<Rightarrow> N + 3)"

definition from_count :: "sys \<Rightarrow> nat" where
  "from_count s = length (filter (\<lambda>n. mstat s n = st_from) (modules s))"

definition weight :: "mgr \<Rightarrow> nat" where
  "weight g =
     (let N = length (modules (msys g))
      in from_count (msys g) * (N + 5) + sum_list (map (task_weight N) (tasks g)) +
         length (reports g) * (N + 2) +
         (case pc g of Pass ns w \<Rightarrow> length ns + 1 | Returned res \<Rightarrow> 0))"

lemma from_count_quiet: "quiet s s' \<Longrightarrow> from_count s' = from_count s"
  by (simp add: from_count_def quiet_def same_static_def)

lemma from_count_le:
  assumes "moves n st s s'" "st \<noteq> st_from" shows "from_count s' \<le> from_count s"
proof -
  have "filter (\<lambda>k. mstat s' k = st_from) (modules s') =
        filter (\<lambda>k. k \<noteq> n) (filter (\<lambda>k. mstat s k = st_from) (modules s))"
    using assms by (auto simp: moves_def same_static_def intro!: filter_cong)
  then show ?thesis by (simp add: from_count_def del: filter_filter)
qed

lemma from_count_less:
  assumes "moves n st s s'" "st \<noteq> st_from" "n \<in> set (modules s)" "mstat s n = st_from"
  shows "from_count s' < from_count s"
proof -
  have "filter (\<lambda>k. mstat s' k = st_from) (modules s') =
        filter (\<lambda>k. k \<noteq> n) (filter (\<lambda>k. mstat s k = st_from) (modules s))"
    using assms by (auto simp: moves_def same_static_def intro!: filter_cong)
  moreover have "n \<in> set (filter (\<lambda>k. mstat s k = st_from) (modules s))" using assms by simp
  ultimately show ?thesis using length_filter_less[of n _ "\<lambda>k. k \<noteq> n"]
    by (simp add: from_count_def del: filter_filter)
qed

lemma weight_look:
  assumes inv: "loop_inv s0 g" and pc: "pc g = Pass ns w" and n: "n \<in> set ns"
  shows "weight (look ph n (remove1 n ns) w g) < weight g"
proof -
  have len: "Suc (length (remove1 n ns)) = length ns"
    using n length_pos_if_in_set[OF n] by (simp add: length_remove1)
  show ?thesis
  proof (cases "readyTo ph n (msys g)")
    case statusReady
    then have from': "mstat (msys g) n = st_from" unfolding readyTo_eq by (auto split: if_splits)
    obtain s' where ex: "exec ph n (msys g) = (s', None)" and mv: "moves n st_mid (msys g) s'"
      using exec_from[OF from'] by blast
    let ?N = "length (modules (msys g))"
    have "n \<in> set (modules (msys g))" using inv pc n by (auto simp: loop_inv_def pass_ok_def)
    then have "from_count s' < from_count (msys g)"
      using from_count_less[OF mv] st_distinct from' by metis
    then have "from_count s' * (?N + 5) + (?N + 5) \<le> from_count (msys g) * (?N + 5)"
      by (metis Suc_leI mult_Suc mult_le_mono1 add.commute)
    then show ?thesis using statusReady ex pc len moves_modules[OF mv]
      by (simp add: weight_def look_def Let_def task_weight_def)
  qed (use len pc in \<open>simp_all add: weight_def look_def Let_def\<close>)
qed

lemma weight_step: "mgr_step ph g g' \<Longrightarrow> loop_inv s0 g \<Longrightarrow> weight g' < weight g"
proof (induction rule: mgr_step.induct)
  case (step_look g ns w n) then show ?case using weight_look by blast
next
  case (step_launch n g)
  have q: "quiet (msys g) (ctrl_run ph n (msys g))" by (rule run_quiet)
  then have "modules (ctrl_run ph n (msys g)) = modules (msys g)"
    by (simp add: quiet_def same_static_def)
  with step_launch show ?case
    using from_count_quiet[OF q] sum_list_map_remove1[of "(n, CtrlPending)" "tasks g" "task_weight (length (modules (msys g)))"]
    by (simp add: weight_def launch_def Let_def task_weight_def)
next
  case (step_finish n g r)
  obtain s' e where d: "ctrl_done ph n r (msys g) = (s', e)" by fastforce
  have "from_count s' \<le> from_count (msys g) \<and> modules s' = modules (msys g)"
    using done_moves[OF d] from_count_le[of n st_to "msys g" s'] from_count_quiet[of "msys g" s']
      moves_modules[of n st_to "msys g" s'] st_distinct(2)
    by (auto simp: quiet_def same_static_def split: if_splits)
  then have "from_count s' * (length (modules (msys g)) + 5) \<le> from_count (msys g) * (length (modules (msys g)) + 5)"
    and "modules s' = modules (msys g)" by (auto intro: mult_le_mono1)
  with step_finish d show ?case using sum_list_map_remove1[of "(n, CtrlRunning)" "tasks g" "task_weight (length (modules (msys g)))"]
    by (simp add: weight_def finish_def Let_def task_weight_def less_Suc_eq_le)
next
  case (step_receive g w rep)
  have len: "length (reports g) = Suc (length (remove1 rep (reports g)))"
    using step_receive(3) length_pos_if_in_set[OF step_receive(3)] by (simp add: length_remove1)
  have "weight (receive ph rep g) \<le>
      from_count (msys g) * (length (modules (msys g)) + 5) +
      sum_list (map (task_weight (length (modules (msys g)))) (tasks g)) +
      length (remove1 rep (reports g)) * (length (modules (msys g)) + 2) + length (modules (msys g)) + 1"
    by (auto simp: weight_def receive_def Let_def split: option.split)
  then show ?case using step_receive len by (simp add: weight_def Let_def)
next
  case (step_return g w) then show ?case by (simp add: weight_def Let_def)
qed

lemma run_bounded:
  assumes "(mgr_step ph ^^ k) (mgr_init s) g"
  shows "k + weight g \<le> weight (mgr_init s)" "loop_inv s g"
proof -
  have "loop_inv s g \<and> k + weight g \<le> weight (mgr_init s)" using assms
  proof (induction k arbitrary: g)
    case 0 then show ?case using loop_inv_init[of s] by auto
  next
    case (Suc k)
    then obtain h where h: "(mgr_step ph ^^ k) (mgr_init s) h" "mgr_step ph h g" by auto
    with Suc.IH[OF h(1)] weight_step[OF h(2)] loop_inv_step[OF h(2)] show ?case by fastforce
  qed
  then show "k + weight g \<le> weight (mgr_init s)" "loop_inv s g" by auto
qed

lemma run_length:
  assumes "(mgr_step ph ^^ k) (mgr_init s) g"
  shows "k \<le> length (modules s) * (length (modules s) + 6) + 1"
proof -
  let ?N = "length (modules s)"
  have "from_count s \<le> ?N" by (simp add: from_count_def)
  then have "weight (mgr_init s) \<le> ?N * (?N + 5) + ?N + 1"
    by (simp add: weight_def mgr_init_def Let_def)
  then show ?thesis using run_bounded(1)[OF assms] by (simp add: algebra_simps)
qed

lemma loop_progress:
  assumes "(mgr_step ph)\<^sup>*\<^sup>* (mgr_init s) g" "pc g = Pass ns w"
  shows "\<exists>g'. mgr_step ph g g'"
proof (cases ns)
  case (Cons n ns') then show ?thesis using assms step_look by fastforce
next
  case Nil
  have P: "pass_ok ns w g" using loop_inv_reach[OF assms(1)] assms(2) by (simp add: loop_inv_def)
  show ?thesis
  proof (cases "reportCnt g < execCnt g")
    case True
    with P have "tasks g \<noteq> [] \<or> reports g \<noteq> []" unfolding pass_ok_def by auto
    then consider n sg ts where "tasks g = (n, sg) # ts" | rep rs where "reports g = rep # rs"
      by (metis list.exhaust surj_pair)
    then show ?thesis
    proof cases
      case (1 n sg ts)
      show ?thesis
      proof (cases sg)
        case CtrlPending then show ?thesis using 1 step_launch[of n g ph] by fastforce
      next
        case CtrlRunning
        obtain r where "r \<in> set (ctrl_results (ctrlFn ph (store (msys g) n)))"
          using ctrl_results_last by blast
        then show ?thesis using 1 CtrlRunning step_finish[of n g r ph] by fastforce
      qed
    next
      case (2 rep rs) then show ?thesis using step_receive[of g w rep ph] True Nil assms(2) by fastforce
    qed
  next
    case False then show ?thesis using step_return[of g w ph] Nil assms(2) by blast
  qed
qed

end

context phase_contract
begin

text \<open>A loop whose control functions do not fail returns without an error.\<close>

definition never_fails :: "sys \<Rightarrow> bool" where
  "never_fails s \<longleftrightarrow>
     (\<forall>n \<in> set (modules s). \<forall>r \<in> set (ctrl_results (ctrlFn ph (store s n))).
        \<forall>s'. snd (ctrl_done ph n r s') = None)"

definition no_errors :: "mgr \<Rightarrow> bool" where
  "no_errors g \<longleftrightarrow> (\<forall>rep \<in> set (reports g). snd rep = None) \<and> lastErr g = None \<and>
     (\<forall>res. pc g = Returned res \<longrightarrow> res = None \<or> res = Some dep_loop_error)"

lemma ctrlFn_static: "same_static s s' \<Longrightarrow> ctrlFn ph (store s' n) = ctrlFn ph (store s n)"
  by (cases ph) (simp_all add: same_static_def)

lemma no_errors_step:
  assumes "mgr_step ph g g'" "no_errors g" "never_fails s" "loop_inv s g"
  shows "no_errors g'"
  using assms(1)
proof cases
  case (step_look ns w n)
  show ?thesis
  proof (cases "readyTo ph n (msys g)")
    case statusReady
    then have "mstat (msys g) n = st_from" unfolding readyTo_eq by (auto split: if_splits)
    then obtain s' where "exec ph n (msys g) = (s', None)" using exec_from by blast
    then show ?thesis using step_look statusReady assms(2) by (auto simp: no_errors_def look_def)
  qed (use step_look assms(2) in \<open>auto simp: no_errors_def look_def\<close>)
next
  case (step_launch n) then show ?thesis using assms(2) by (simp add: no_errors_def launch_def)
next
  case (step_finish n r)
  have M: "moved_ok s (msys g)" and T: "tasks_ok s (msys g) (tasks g)"
    using assms(4) by (auto simp: loop_inv_def)
  have "n \<in> set (modules s)"
    using tasks_ok_sub(5,6)[OF T step_finish(2)] M st_distinct unfolding moved_ok_def by metis
  then have "snd (ctrl_done ph n r (msys g)) = None"
    using step_finish(3) assms(3) ctrlFn_static[OF moved_ok_static[OF M]] by (simp add: never_fails_def)
  then show ?thesis using step_finish assms(2) by (auto simp: no_errors_def finish_def split: prod.split)
next
  case (step_receive w rep)
  then have "snd rep = None" using assms(2) by (simp add: no_errors_def)
  then show ?thesis using step_receive assms(2) notin_set_remove1 by (auto simp: no_errors_def receive_def)
next
  case (step_return w) then show ?thesis using assms(2) by (simp add: no_errors_def)
qed

lemma no_errors_reach:
  assumes "(mgr_step ph)\<^sup>*\<^sup>* (mgr_init s) g" "never_fails s" shows "no_errors g"
  using assms(1)
proof (induction rule: rtranclp_induct)
  case base show ?case by (simp add: no_errors_def mgr_init_def)
next
  case (step g g') then show ?case using no_errors_step[OF _ _ assms(2) loop_inv_reach] by blast
qed

lemma eventually_returns:
  "(mgr_step ph)\<^sup>*\<^sup>* (mgr_init s) g \<Longrightarrow> \<exists>g' res. (mgr_step ph)\<^sup>*\<^sup>* (mgr_init s) g' \<and> pc g' = Returned res"
proof (induction "weight g" arbitrary: g rule: less_induct)
  case less
  show ?case
  proof (cases "pc g")
    case (Pass ns w)
    then obtain g' where g': "mgr_step ph g g'" using loop_progress[OF less(2)] by blast
    then have "weight g' < weight g" using weight_step[OF _ loop_inv_reach[OF less(2)]] by blast
    then show ?thesis using less g' by (meson rtranclp.rtrancl_into_rtrancl)
  qed (use less in blast)
qed

lemma loop_succeeds:
  assumes "can_complete s" "never_fails s"
  shows "\<exists>g. loop_returns ph s None g" "loop_returns ph s res g \<Longrightarrow> res = None"
proof -
  have *: "res = None" if "loop_returns ph s res g" for res g
  proof -
    have n: "no_errors g" using no_errors_reach that assms(2) unfolding loop_returns_def by blast
    moreover have "res = None \<or> res = Some dep_loop_error" using n that by (simp add: no_errors_def loop_returns_def)
    moreover have "failed_report ph k e \<noteq> Some dep_loop_error" for k e
      by (cases ph) (auto simp: dep_loop_error_def ErrCleanExit_def)
    ultimately show ?thesis
      using returned_complete[OF that assms(1)] unfolding no_errors_def by metis
  qed
  then show "loop_returns ph s res g \<Longrightarrow> res = None" .
  obtain g res where "loop_returns ph s res g"
    using eventually_returns[of s "mgr_init s"] unfolding loop_returns_def by blast
  with * show "\<exists>g. loop_returns ph s None g" by blast
qed

end

subsection \<open>The three phases\<close>

definition start_wanted :: "sys \<Rightarrow> string \<Rightarrow> bool" where
  "start_wanted s n \<longleftrightarrow>
     (moduleMgmtEnabled s \<longrightarrow> enabled (store s n) \<or> enabledAsDependency (store s n))"

definition stop_wanted :: "sys \<Rightarrow> string \<Rightarrow> bool" where
  "stop_wanted s n \<longleftrightarrow>
     (moduleMgmtEnabled s \<and> \<not> shutdownFlag s \<longrightarrow>
        \<not> enabled (store s n) \<and> \<not> enabledAsDependency (store s n))"

lemma prep_done_moves:
  assumes "prep_done n r s = (s', e)"
  shows "if e = None then moves n StatusOffline s s' else quiet s s'"
proof -
  let ?s1 = "endCtrlFn n (prepFn (store s n)) r s"
  have q: "quiet s ?s1" by (rule quiet_endCtrlFn)
  have "moves n StatusOffline s (upd n (\<lambda>m. m\<lparr>status := StatusOffline\<rparr>) ?s1)"
    by (rule quiet_moves_trans[OF q]) (rule moves_upd; simp)
  then have "moves n StatusOffline s (notifyOfChange n (upd n (\<lambda>m. m\<lparr>status := StatusOffline\<rparr>) ?s1))"
    by (rule moves_quiet_trans) (rule quiet_notify)
  then show ?thesis using assms quiet_trans[OF q quiet_setFailure]
    by (auto simp: prep_done_def Let_def Error_def)
qed

lemma start_done_moves:
  assumes "start_done n r s = (s', e)"
  shows "if e = None then moves n StatusOnline s s' else quiet s s'"
proof -
  let ?s1 = "endCtrlFn n (startFn (store s n)) r s"
  have q: "quiet s ?s1" by (rule quiet_endCtrlFn)
  have "moves n StatusOnline s
      (notifyOfChange n ((upd n (\<lambda>m. m\<lparr>status := StatusOnline, startComplete := c\<rparr>) ?s1)\<lparr>goPanic := p\<rparr>))" for c p
  proof (rule moves_quiet_trans[OF _ quiet_notify])
    have "moves n StatusOnline s (upd n (\<lambda>m. m\<lparr>status := StatusOnline, startComplete := c\<rparr>) ?s1)"
      by (rule quiet_moves_trans[OF q]) (rule moves_upd; simp)
    then show "moves n StatusOnline s
      ((upd n (\<lambda>m. m\<lparr>status := StatusOnline, startComplete := c\<rparr>) ?s1)\<lparr>goPanic := p\<rparr>)" by simp
  qed
  then show ?thesis using assms quiet_trans[OF q quiet_setFailure]
    by (auto simp: start_done_def Let_def Error_def split: prod.splits)
qed

lemma stop_done_moves:
  assumes "stop_done n r s = (s', e)"
  shows "moves n StatusOffline s s'"
proof -
  let ?s1 = "endCtrlFn n (stopFn (store s n)) r s"
  define s2 where "s2 = (if e \<noteq> None
    then Error (Name (store s n) @ '':stop-failed'')
                       (''Stopping module '' @ Name (store s n) @ '' failed'')
                       (''Failed to stop module: '' @ err_text (the e)) n ?s1 else ?s1)"
  have q: "quiet s s2"
    using quiet_endCtrlFn quiet_trans[OF quiet_endCtrlFn quiet_setFailure] by (auto simp: s2_def Error_def)
  have "moves n StatusOffline s (upd n (\<lambda>m. m\<lparr>status := StatusOffline\<rparr>) s2)"
    by (rule quiet_moves_trans[OF q]) (rule moves_upd; simp)
  then have "moves n StatusOffline s
      (Resolve '''' n (notifyOfChange n (upd n (\<lambda>m. m\<lparr>status := StatusOffline\<rparr>) s2)))"
    by (rule moves_quiet_trans[OF _ quiet_trans[OF quiet_notify quiet_Resolve]])
  then show ?thesis using assms by (auto simp: stop_done_def Let_def s2_def)
qed

lemma stop_run_quiet: "quiet s (stop_run n s)"
  unfolding stop_run_def by (rule quiet_trans[OF _ quiet_startCtrlFn]) (rule quiet_upd; simp)

lemma exec_moves:
  "mstat s n = StatusDead \<Longrightarrow> \<exists>s'. prep n s = (s', None) \<and> moves n StatusPreparing s s'"
  "mstat s n = StatusOffline \<Longrightarrow> \<exists>s'. start n s = (s', None) \<and> moves n StatusStarting s s'"
  "mstat s n = StatusOnline \<Longrightarrow> \<exists>s'. stop n s = (s', None) \<and> moves n StatusStopping s s'"
  by (simp_all add: prep_def start_def stop_def) (rule moves_upd; simp)+

interpretation prepping: phase_contract PrepPhase "\<lambda>_ _. True" depModules
  "\<lambda>st. \<not> st < StatusOffline" StatusDead StatusPreparing StatusOffline True
  by unfold_locales
    (use prep_done_moves exec_moves(1) in
      \<open>auto simp: less_mstatus_def readyToPrep_def same_static_def prep_run_def quiet_intros\<close>)

interpretation starting: phase_contract StartPhase start_wanted depModules
  "\<lambda>st. \<not> st < StatusOnline" StatusOffline StatusStarting StatusOnline True
  by unfold_locales
    (use start_done_moves exec_moves(2) in
      \<open>auto simp: less_mstatus_def readyToStart_def same_static_def start_run_def start_wanted_def
         quiet_intros\<close>)

interpretation stopping: phase_contract StopPhase stop_wanted depReverse
  "\<lambda>st. \<not> st > StatusOffline" StatusOnline StatusStopping StatusOffline False
  by unfold_locales
    (use stop_done_moves exec_moves(3) in
      \<open>auto simp: less_mstatus_def readyToStop_def same_static_def stop_wanted_def stop_run_quiet\<close>)

end
