(* ===== verification/Module_Lifecycle.thy ===== *)
theory Module_Lifecycle
  imports Module_Loops
begin

section \<open>The life cycle of the module system\<close>

text \<open>
  \<open>Start\<close>, \<open>ManageModules\<close> and \<open>Shutdown\<close>, composed of the loops, and the properties of the whole:
  dependencies are up while a module is, all wanted modules come up, and all modules go down.
  A call is a relation between the state before, its result and the state when it returns.
  \<open>start_env\<close> holds what code outside the module system answers: the flags, the global prep
  function, the command line operation (\<open>None\<close> when not set) and the start of the logger.
\<close>

subsection \<open>Start, ManageModules and Shutdown\<close>

record start_env =
  flagsErr :: "goerr option"
  globalPrepFn :: "goerr option option"
  cmdLineOperation :: "goerr option option"
  logStartErr :: "goerr option"

definition is_order :: "sys \<Rightarrow> string list \<Rightarrow> bool" where
  "is_order s ns \<longleftrightarrow> distinct ns \<and> set ns = set (modules s)"

text \<open>The part of \<open>Start\<close> before the modules are prepared.\<close>

definition Start_init :: "start_env \<Rightarrow> string list \<Rightarrow> sys \<Rightarrow> sys \<times> goerr option" where
  "Start_init env order s =
     (if modulesLocked s then (s, Some (ErrNew ''module system already started''))
      else case initDependencies order (s\<lparr>modulesLocked := True\<rparr>) of
             (s1, Some e) \<Rightarrow> (s1, Some e)
           | (s1, None) \<Rightarrow>
               (case flagsErr env of
                  Some e \<Rightarrow> (s1, Some e)
                | None \<Rightarrow> (s1, case globalPrepFn env of None \<Rightarrow> None | Some r \<Rightarrow> r)))"

inductive Start :: "start_env \<Rightarrow> sys \<Rightarrow> goerr option \<Rightarrow> sys \<Rightarrow> bool" for env :: start_env where
  Start_init_err: "is_order s o1 \<Longrightarrow> Start_init env o1 s = (s1, Some e) \<Longrightarrow> Start env s (Some e) s1"
| Start_prep_err: "is_order s o1 \<Longrightarrow> Start_init env o1 s = (s1, None) \<Longrightarrow>
    loop_returns PrepPhase s1 (Some e) g1 \<Longrightarrow> Start env s (Some e) (msys g1)"
| Start_cmdline: "is_order s o1 \<Longrightarrow> Start_init env o1 s = (s1, None) \<Longrightarrow>
    loop_returns PrepPhase s1 None g1 \<Longrightarrow> cmdLineOperation env = Some r \<Longrightarrow>
    Start env s (Some ErrCleanExit) (msys g1)"
| Start_log_err: "is_order s o1 \<Longrightarrow> Start_init env o1 s = (s1, None) \<Longrightarrow>
    loop_returns PrepPhase s1 None g1 \<Longrightarrow> cmdLineOperation env = None \<Longrightarrow>
    logStartErr env = Some e \<Longrightarrow> Start env s (Some e) (msys g1)"
| Start_start_err: "is_order s o1 \<Longrightarrow> Start_init env o1 s = (s1, None) \<Longrightarrow>
    loop_returns PrepPhase s1 None g1 \<Longrightarrow> cmdLineOperation env = None \<Longrightarrow>
    logStartErr env = None \<Longrightarrow> is_order s o2 \<Longrightarrow> is_order s o3 \<Longrightarrow>
    buildEnabledTree o2 o3 (msys g1) = Some s2 \<Longrightarrow>
    loop_returns StartPhase s2 (Some e) g2 \<Longrightarrow> Start env s (Some e) (msys g2)"
| Start_ok: "is_order s o1 \<Longrightarrow> Start_init env o1 s = (s1, None) \<Longrightarrow>
    loop_returns PrepPhase s1 None g1 \<Longrightarrow> cmdLineOperation env = None \<Longrightarrow>
    logStartErr env = None \<Longrightarrow> is_order s o2 \<Longrightarrow> is_order s o3 \<Longrightarrow>
    buildEnabledTree o2 o3 (msys g1) = Some s2 \<Longrightarrow>
    loop_returns StartPhase s2 None g2 \<Longrightarrow>
    Start env s None ((msys g2)\<lparr>initialStartCompleted := True\<rparr>)"

inductive ManageModules :: "sys \<Rightarrow> goerr option \<Rightarrow> sys \<Rightarrow> bool" where
  Manage_off: "\<not> moduleMgmtEnabled s \<Longrightarrow> ManageModules s None s"
| Manage_run: "moduleMgmtEnabled s \<Longrightarrow> is_order s o1 \<Longrightarrow> is_order s o2 \<Longrightarrow>
    buildEnabledTree o1 o2 s = Some s1 \<Longrightarrow> loop_returns StopPhase s1 e1 g1 \<Longrightarrow>
    loop_returns StartPhase (msys g1) e2 g2 \<Longrightarrow>
    ManageModules s (if e2 \<noteq> None then e2 else e1) (msys g2)"

inductive Shutdown :: "sys \<Rightarrow> goerr option \<Rightarrow> sys \<Rightarrow> bool" where
  Shutdown_again: "shutdownFlag s \<Longrightarrow> Shutdown s (Some (ErrNew ''shutdown already initiated'')) s"
| Shutdown_run: "\<not> shutdownFlag s \<Longrightarrow> loop_returns StopPhase (s\<lparr>shutdownFlag := True\<rparr>) e g \<Longrightarrow>
    Shutdown s e (msys g)"

subsection \<open>Linking\<close>

definition linked :: "sys \<Rightarrow> bool" where
  "linked s \<longleftrightarrow> (\<forall>n \<in> set (modules s). set (depModules (store s n)) \<subseteq> set (modules s) \<and>
     set (depReverse (store s n)) \<subseteq> set (modules s) \<and>
     (\<forall>d \<in> set (modules s). d \<in> set (depModules (store s n)) \<longleftrightarrow> n \<in> set (depReverse (store s d))))"

definition fresh :: "sys \<Rightarrow> bool" where
  "fresh s \<longleftrightarrow> distinct (modules s) \<and> \<not> modulesLocked s \<and>
     (\<forall>n \<in> set (modules s). mstat s n = StatusDead \<and> depModules (store s n) = [] \<and>
        depReverse (store s n) = [])"

definition add_links :: "(string \<Rightarrow> string list) \<Rightarrow> (string \<Rightarrow> string list) \<Rightarrow> sys \<Rightarrow> sys" where
  "add_links f r s = s\<lparr>store := \<lambda>k. (store s k)\<lparr>depModules := depModules (store s k) @ f k,
                                   depReverse := depReverse (store s k) @ r k\<rparr>\<rparr>"

lemma add_links_add: "add_links f r (add_links f' r' s) = add_links (\<lambda>k. f' k @ f k) (\<lambda>k. r' k @ r k) s"
  by (simp add: add_links_def)

lemma add_links_simps [simp]:
  "modules (add_links f r s) = modules s" "mstat (add_links f r s) = mstat s"
  "depNames (store (add_links f r s) n) = depNames (store s n)"
  "Name (store (add_links f r s) n) = Name (store s n)"
  "depModules (store (add_links f r s) n) = depModules (store s n) @ f n"
  "depReverse (store (add_links f r s) n) = depReverse (store s n) @ r n"
  "enabled (store (add_links f r s) n) = enabled (store s n)"
  "moduleMgmtEnabled (add_links f r s) = moduleMgmtEnabled s"
  by (auto simp: add_links_def mstat_def)

lemma link_one:
  "upd d (\<lambda>m. m\<lparr>depReverse := depReverse m @ [n]\<rparr>)
     (upd n (\<lambda>m. m\<lparr>depModules := depModules m @ [d]\<rparr>) s) =
   add_links (\<lambda>k. if k = n then [d] else []) (\<lambda>k. if k = d then [n] else []) s"
  by (auto simp: upd_def add_links_def fun_eq_iff)

lemma link_deps_eq:
  "link_deps n ds s =
     (if set ds \<subseteq> set (modules s)
      then (add_links (\<lambda>k. if k = n then ds else []) (\<lambda>k. replicate (count_list ds k) n) s, None)
      else (fst (link_deps n ds s), snd (link_deps n ds s))) \<and>
   (\<not> set ds \<subseteq> set (modules s) \<longrightarrow> snd (link_deps n ds s) \<noteq> None)"
proof (induction ds arbitrary: s)
  case Nil show ?case by (simp add: add_links_def)
next
  case (Cons d ds)
  let ?s = "add_links (\<lambda>k. if k = n then [d] else []) (\<lambda>k. if k = d then [n] else []) s"
  have e: "add_links (\<lambda>k. if k = n then ds else []) (\<lambda>k. replicate (count_list ds k) n) ?s =
     add_links (\<lambda>k. if k = n then d # ds else []) (\<lambda>k. replicate (count_list (d # ds) k) n) s"
    unfolding add_links_add by (rule arg_cong2[where f = "\<lambda>f r. add_links f r s"]) (auto simp: fun_eq_iff)
  show ?case using Cons.IH[of ?s] e by (auto simp: link_one)
qed

lemma initDependencies_ok:
  "\<forall>n \<in> set ns. set (depNames (store s n)) \<subseteq> set (modules s) \<Longrightarrow> distinct ns \<Longrightarrow>
   initDependencies ns s =
     (add_links (\<lambda>k. if k \<in> set ns then depNames (store s k) else [])
        (\<lambda>k. concat (map (\<lambda>n. replicate (count_list (depNames (store s n)) k) n) ns)) s, None)"
proof (induction ns arbitrary: s)
  case Nil show ?case by (simp add: add_links_def)
next
  case (Cons n ns)
  let ?s = "add_links (\<lambda>k. if k = n then depNames (store s n) else [])
              (\<lambda>k. replicate (count_list (depNames (store s n)) k) n) s"
  have l: "link_deps n (depNames (store s n)) s = (?s, None)"
    using link_deps_eq[of n "depNames (store s n)" s] Cons.prems(1) by simp
  have i: "initDependencies ns ?s =
     (add_links (\<lambda>k. if k \<in> set ns then depNames (store s k) else [])
        (\<lambda>k. concat (map (\<lambda>n. replicate (count_list (depNames (store s n)) k) n) ns)) ?s, None)"
    using Cons.IH[of ?s] Cons.prems by (simp cong: if_cong)
  have e: "add_links (\<lambda>k. if k \<in> set ns then depNames (store s k) else [])
        (\<lambda>k. concat (map (\<lambda>n. replicate (count_list (depNames (store s n)) k) n) ns)) ?s =
     add_links (\<lambda>k. if k \<in> set (n # ns) then depNames (store s k) else [])
        (\<lambda>k. concat (map (\<lambda>n. replicate (count_list (depNames (store s n)) k) n) (n # ns))) s"
    unfolding add_links_add using Cons.prems(2)
    by (intro arg_cong2[where f = "\<lambda>f r. add_links f r s"]) (auto simp: fun_eq_iff)
  show ?case using l i by (simp only: initDependencies.simps l split_conv option.case e)
qed

lemma link_deps_frame:
  "modules (fst (link_deps n ds s)) = modules s"
  "depNames (store (fst (link_deps n ds s)) k) = depNames (store s k)"
  by (induction ds arbitrary: s) (auto simp: link_one)

lemma initDependencies_missing:
  "n \<in> set ns \<Longrightarrow> \<not> set (depNames (store s n)) \<subseteq> set (modules s) \<Longrightarrow>
   snd (initDependencies ns s) \<noteq> None"
proof (induction ns arbitrary: s)
  case (Cons k ns)
  show ?case
  proof (cases "snd (link_deps k (depNames (store s k)) s)")
    case None
    then have "k \<noteq> n" using link_deps_eq[of k "depNames (store s k)" s] Cons.prems(2) by auto
    moreover obtain s' where s': "link_deps k (depNames (store s k)) s = (s', None)"
      using None by (metis prod.collapse)
    ultimately show ?thesis
      using Cons link_deps_frame[of k "depNames (store s k)" s] by simp
  next
    case (Some e) then show ?thesis by (auto split: prod.split option.split)
  qed
qed simp

lemma count_list_pos: "0 < count_list xs x \<longleftrightarrow> x \<in> set xs"
  by (metis count_list_0_iff neq0_conv)

lemma linked_add_links:
  assumes "fresh s" "is_order s ns" "\<forall>n \<in> set ns. set (depNames (store s n)) \<subseteq> set (modules s)"
    and s': "s' = add_links (\<lambda>k. if k \<in> set ns then depNames (store s k) else [])
        (\<lambda>k. concat (map (\<lambda>n. replicate (count_list (depNames (store s n)) k) n) ns)) s"
  shows "linked s'"
    and "n \<in> set (modules s) \<Longrightarrow> depModules (store s' n) = depNames (store s n)"
    and "n \<in> set (modules s) \<Longrightarrow> set (depReverse (store s' n)) = {k \<in> set (modules s). n \<in> set (depNames (store s k))}"
proof -
  have ns: "set ns = set (modules s)" using assms(2) by (simp add: is_order_def)
  show M: "depModules (store s' n) = depNames (store s n)" if "n \<in> set (modules s)" for n
    using assms(1) ns that by (simp add: s' fresh_def)
  show R: "set (depReverse (store s' n)) = {k \<in> set (modules s). n \<in> set (depNames (store s k))}"
    if "n \<in> set (modules s)" for n
    using assms(1) ns that by (auto simp: s' fresh_def count_list_pos)
  have "modules s' = modules s" by (simp add: s')
  then show "linked s'" unfolding linked_def using M R assms(3) ns by auto
qed

subsection \<open>Marking the dependencies of enabled modules\<close>

definition set_marks :: "string set \<Rightarrow> sys \<Rightarrow> sys" where
  "set_marks M s = s\<lparr>store := \<lambda>k. (store s k)\<lparr>enabledAsDependency := (k \<in> M)\<rparr>\<rparr>"

definition dep_rel :: "sys \<Rightarrow> (string \<times> string) set" where
  "dep_rel s = {(n, d). d \<in> set (depModules (store s n))}"

lemma set_marks_simps [simp]:
  "modules (set_marks M s) = modules s" "mstat (set_marks M s) = mstat s"
  "moduleMgmtEnabled (set_marks M s) = moduleMgmtEnabled s" "shutdownFlag (set_marks M s) = shutdownFlag s"
  "depModules (store (set_marks M s) n) = depModules (store s n)"
  "depReverse (store (set_marks M s) n) = depReverse (store s n)"
  "enabled (store (set_marks M s) n) = enabled (store s n)"
  "enabledAsDependency (store (set_marks M s) n) = (n \<in> M)"
  by (auto simp: set_marks_def mstat_def)

lemma set_marks_upd:
  "upd d (\<lambda>m. m\<lparr>enabledAsDependency := b\<rparr>) (set_marks M s) =
   set_marks (if b then insert d M else M - {d}) s"
  by (auto simp: upd_def set_marks_def fun_eq_iff)

lemma set_marks_self: "s = set_marks {n. enabledAsDependency (store s n)} s"
  by (simp add: set_marks_def)

definition marks_ok :: "sys \<Rightarrow> string list \<Rightarrow> string set \<Rightarrow> string set \<Rightarrow> bool" where
  "marks_ok s ds M M' \<longleftrightarrow> M \<subseteq> M' \<and> set ds \<subseteq> M' \<and> M' \<subseteq> M \<union> (dep_rel s)\<^sup>* `` set ds \<and>
     (\<forall>x \<in> M' - M. set (depModules (store s x)) \<subseteq> M')"

lemma marks_ok_append:
  assumes a: "marks_ok s ds1 M M1" and b: "marks_ok s ds2 M1 M2"
  shows "marks_ok s (ds1 @ ds2) M M2"
  unfolding marks_ok_def
proof (intro conjI ballI)
  have m: "M \<subseteq> M1" "M1 \<subseteq> M2" using a b by (simp_all add: marks_ok_def)
  then show "M \<subseteq> M2" by blast
  show "set (ds1 @ ds2) \<subseteq> M2" using a b m by (auto simp: marks_ok_def)
  show "M2 \<subseteq> M \<union> (dep_rel s)\<^sup>* `` set (ds1 @ ds2)"
    using a b unfolding marks_ok_def set_append Image_Un by blast
  fix x assume "x \<in> M2 - M"
  then consider "x \<in> M1 - M" | "x \<in> M2 - M1" by blast
  then show "set (depModules (store s x)) \<subseteq> M2"
    using a b m unfolding marks_ok_def by cases blast+
qed

lemma marks_ok_visit:
  assumes "marks_ok s (depModules (store s d)) (insert d M) M1"
  shows "marks_ok s [d] M M1"
proof -
  have "(dep_rel s)\<^sup>* `` set (depModules (store s d)) \<subseteq> (dep_rel s)\<^sup>* `` {d}"
    by (auto simp: dep_rel_def intro: converse_rtrancl_into_rtrancl)
  moreover have "d \<in> (dep_rel s)\<^sup>* `` {d}" by blast
  ultimately have "M1 \<subseteq> M \<union> (dep_rel s)\<^sup>* `` set [d]"
    using assms unfolding marks_ok_def list.set by blast
  moreover have "\<forall>x \<in> M1 - M. set (depModules (store s x)) \<subseteq> M1"
    using assms unfolding marks_ok_def by blast
  ultimately show ?thesis using assms unfolding marks_ok_def by simp
qed

lemmas marks_ok_Cons = marks_ok_append[OF marks_ok_visit, simplified append.simps]

lemma markDependencies_marks:
  assumes U: "finite U" "\<And>u. u \<in> U \<Longrightarrow> set (depModules (store s u)) \<subseteq> U"
  shows "card (U - M) \<le> k \<Longrightarrow> set ds \<subseteq> U \<Longrightarrow>
    \<exists>M'. markDependencies ds (set_marks M s) = Some (set_marks M' s) \<and> marks_ok s ds M M'"
proof (induction k arbitrary: M ds rule: less_induct)
  case (less k)
  show ?case using less.prems
  proof (induction ds arbitrary: M)
    case Nil then show ?case by (subst markDependencies.simps) (auto simp: marks_ok_def)
  next
    case (Cons d ds)
    show ?case
    proof (cases "d \<in> M")
      case True
      with Cons.IH[OF Cons.prems(1)] Cons.prems(2) obtain M' where
        M': "markDependencies ds (set_marks M s) = Some (set_marks M' s)" "marks_ok s ds M M'" by auto
      then have "marks_ok s (d # ds) M M'" using True by (auto simp: marks_ok_def)
      then show ?thesis using M' True by (subst markDependencies.simps) auto
    next
      case False
      have d: "d \<in> U" using Cons.prems(2) by simp
      have "card (U - insert d M) < card (U - M)"
        using d False U(1) by (intro psubset_card_mono) auto
      then have lt: "card (U - insert d M) < k" using Cons.prems(1) by simp
      obtain M1 where M1: "markDependencies (depModules (store s d)) (set_marks (insert d M) s) =
            Some (set_marks M1 s)" "marks_ok s (depModules (store s d)) (insert d M) M1"
        using less.IH[OF lt order_refl U(2)[OF d]] by blast
      have "U - M1 \<subseteq> U - M" using M1(2) by (auto simp: marks_ok_def)
      then have "card (U - M1) \<le> k" using Cons.prems(1) U(1) card_mono[of "U - M" "U - M1"] by simp
      then obtain M2 where M2: "markDependencies ds (set_marks M1 s) = Some (set_marks M2 s)"
          "marks_ok s ds M1 M2"
        using Cons.IH Cons.prems(2) by auto
      have "markDependencies (d # ds) (set_marks M s) = Some (set_marks M2 s)"
        using False M1 M2 by (subst markDependencies.simps) (simp add: set_marks_upd)
      then show ?thesis using marks_ok_Cons[OF M1(2) M2(2)] by blast
    qed
  qed
qed

lemma unmark_all_eq: "unmark_all ns (set_marks M s) = set_marks (M - set ns) s"
proof (induction ns arbitrary: M)
  case (Cons n ns)
  have "M - {n} - set ns = M - set (n # ns)" by auto
  then show ?case using Cons.IH[of "M - {n}"] by (simp add: set_marks_upd)
qed simp

lemma mark_enabled_marks:
  assumes U: "finite U" "\<And>u. u \<in> U \<Longrightarrow> set (depModules (store s u)) \<subseteq> U"
  shows "set ns \<subseteq> U \<Longrightarrow> \<exists>M'. mark_enabled ns (set_marks M s) = Some (set_marks M' s) \<and>
    marks_ok s (concat (map (\<lambda>n. if enabled (store s n) then depModules (store s n) else []) ns)) M M'"
proof (induction ns arbitrary: M)
  case Nil then show ?case by (auto simp: marks_ok_def)
next
  case (Cons n ns)
  show ?case
  proof (cases "enabled (store s n)")
    case True
    obtain M1 where M1: "markDependencies (depModules (store s n)) (set_marks M s) = Some (set_marks M1 s)"
        "marks_ok s (depModules (store s n)) M M1"
      using markDependencies_marks[of U s M, OF U order_refl U(2)] Cons.prems by auto
    obtain M2 where M2: "mark_enabled ns (set_marks M1 s) = Some (set_marks M2 s)"
      "marks_ok s (concat (map (\<lambda>n. if enabled (store s n) then depModules (store s n) else []) ns)) M1 M2"
      using Cons.IH Cons.prems by auto
    have "marks_ok s (concat (map (\<lambda>n. if enabled (store s n) then depModules (store s n) else []) (n # ns))) M M2"
      using marks_ok_append[OF M1(2) M2(2)] True by simp
    then show ?thesis using True M1 M2 by auto
  next
    case False then show ?thesis using Cons.IH[of M] Cons.prems by auto
  qed
qed

text \<open>After \<open>buildEnabledTree\<close> the marked modules are those that an enabled module depends on,
  directly or through others.\<close>

definition needed :: "sys \<Rightarrow> string set" where
  "needed s = {d. \<exists>n \<in> set (modules s). enabled (store s n) \<and> (n, d) \<in> (dep_rel s)\<^sup>+}"

lemma buildEnabledTree_marks:
  assumes L: "linked s" and o1: "is_order s o1" and o2: "is_order s o2"
  shows "\<exists>M. buildEnabledTree o1 o2 s = Some (set_marks M s) \<and> M \<inter> set (modules s) = needed s"
proof -
  let ?U = "set (modules s)" and ?N = "{n. enabledAsDependency (store s n)} - set (modules s)"
  have U: "finite ?U" "\<And>u. u \<in> ?U \<Longrightarrow> set (depModules (store s u)) \<subseteq> ?U"
    using L by (auto simp: linked_def)
  let ?ds = "concat (map (\<lambda>n. if enabled (store s n) then depModules (store s n) else []) o2)"
  obtain M where M: "mark_enabled o2 (set_marks ?N s) = Some (set_marks M s)" "marks_ok s ?ds ?N M"
    using mark_enabled_marks[OF U, of o2 ?N] o2 unfolding is_order_def by blast
  have "unmark_all o1 (set_marks {n. enabledAsDependency (store s n)} s) = set_marks ?N s"
    using o1 by (simp add: unmark_all_eq is_order_def)
  then have "unmark_all o1 s = set_marks ?N s" unfolding set_marks_self[of s, symmetric] .
  then have b: "buildEnabledTree o1 o2 s = Some (set_marks M s)"
    using M(1) by (simp add: buildEnabledTree_def)
  have ds: "set ?ds = {d. \<exists>n \<in> ?U. enabled (store s n) \<and> (n, d) \<in> dep_rel s}"
    using o2 by (auto simp: is_order_def dep_rel_def split: if_splits)
  have *: "y \<in> ?U" if "(x, y) \<in> (dep_rel s)\<^sup>*" "x \<in> ?U" for x y
    using that by (induction rule: rtrancl_induct) (use U(2) in \<open>auto simp: dep_rel_def\<close>)
  have "set ?ds \<subseteq> ?U" unfolding ds using U(2) by (auto simp: dep_rel_def)
  then have inU: "(dep_rel s)\<^sup>* `` set ?ds \<subseteq> ?U" using * by blast
  have need: "needed s = (dep_rel s)\<^sup>* `` set ?ds" unfolding ds needed_def
    by (auto simp: Image_iff dest: tranclD rtrancl_into_trancl2) (metis tranclD)
  have step: "y \<in> M" if "(x, y) \<in> (dep_rel s)\<^sup>*" "x \<in> set ?ds" for x y
    using that
  proof (induction rule: rtrancl_induct)
    case base then show ?case using M(2) by (auto simp: marks_ok_def)
  next
    case (step y z)
    then have "y \<in> ?U" using inU by auto
    with step M(2) have "set (depModules (store s y)) \<subseteq> M" unfolding marks_ok_def by blast
    then show ?case using step(2) by (auto simp: dep_rel_def)
  qed
  have "M \<inter> ?U = needed s" unfolding need using step M(2) inU unfolding marks_ok_def by blast
  then show ?thesis using b by blast
qed

subsection \<open>Dependencies stay up\<close>

definition deps_online :: "sys \<Rightarrow> bool" where
  "deps_online s \<longleftrightarrow>
     (\<forall>n \<in> set (modules s). mstat s n > StatusOffline \<longrightarrow>
        (\<forall>d \<in> set (depModules (store s n)). mstat s d = StatusOnline))"

lemma not_less_Online: "\<not> st < StatusOnline \<longleftrightarrow> st = StatusOnline"
  by (cases st) (simp_all add: less_mstatus_def)

lemma Offline_less:
  "StatusOffline < st \<longleftrightarrow> st = StatusStopping \<or> st = StatusStarting \<or> st = StatusOnline"
  by (cases st) (simp_all add: less_mstatus_def)

lemma linked_static: "same_static s s' \<Longrightarrow> linked s' = linked s"
  by (simp add: same_static_def linked_def)

lemma deps_online_prep:
  assumes "prepping.moved_ok s s'" "deps_online s" shows "deps_online s'"
  unfolding deps_online_def
proof (intro ballI impI)
  fix n d
  have st: "same_static s s'" by (rule prepping.moved_ok_static[OF assms(1)])
  assume n: "n \<in> set (modules s')" "mstat s' n > StatusOffline" "d \<in> set (depModules (store s' n))"
  have "mstat s n > StatusOffline"
    using n(2) prepping.moved_ok_from(2,3)[OF assms(1), of n]
    by (cases "mstat s n = StatusDead") (auto simp: Offline_less)
  then have "mstat s d = StatusOnline" using n st assms(2) by (simp add: same_static_def deps_online_def)
  then show "mstat s' d = StatusOnline" using prepping.moved_ok_from(2)[OF assms(1)] by simp
qed

lemma deps_online_start:
  assumes "starting.moved_ok s s'" "deps_online s" shows "deps_online s'"
  unfolding deps_online_def
proof (intro ballI impI)
  fix n d
  have st: "same_static s s'" by (rule starting.moved_ok_static[OF assms(1)])
  assume n: "n \<in> set (modules s')" "mstat s' n > StatusOffline" "d \<in> set (depModules (store s' n))"
  show "mstat s' d = StatusOnline"
  proof (cases "mstat s' n = mstat s n")
    case True
    then have "mstat s d = StatusOnline" using n st assms(2) by (simp add: same_static_def deps_online_def)
    then show ?thesis using starting.moved_ok_from(2)[OF assms(1)] by simp
  next
    case False
    then have "\<not> mstat s' d < StatusOnline"
      using starting.moved_ok_prereqs[OF assms(1) False] n st by (simp add: same_static_def)
    then show ?thesis by (simp add: not_less_Online)
  qed
qed

lemma deps_online_stop:
  assumes "stopping.moved_ok s s'" "deps_online s" "linked s" shows "deps_online s'"
  unfolding deps_online_def
proof (intro ballI impI)
  fix n d
  have st: "same_static s s'" by (rule stopping.moved_ok_static[OF assms(1)])
  assume n: "n \<in> set (modules s')" "mstat s' n > StatusOffline" "d \<in> set (depModules (store s' n))"
  then have n': "n \<in> set (modules s)" "d \<in> set (depModules (store s n))"
    using st by (auto simp: same_static_def)
  have "mstat s n > StatusOffline"
    using n(2) stopping.moved_ok_from(2,3)[OF assms(1), of n]
    by (cases "mstat s n = StatusOnline") (auto simp: Offline_less)
  then have d: "mstat s d = StatusOnline" using n' assms(2) by (simp add: deps_online_def)
  have "n \<in> set (depReverse (store s d))" using n' assms(3) by (auto simp: linked_def)
  then have "mstat s' d = mstat s d" using stopping.moved_ok_prereqs[OF assms(1)] n(2) by blast
  with d show "mstat s' d = StatusOnline" by simp
qed

lemma deps_online_reach:
  assumes L: "linked s" and D: "deps_online s" and R: "(mgr_step ph)\<^sup>*\<^sup>* (mgr_init s) g"
  shows "deps_online (msys g)" "linked (msys g)"
proof -
  have "deps_online (msys g) \<and> same_static s (msys g)"
  proof (cases ph)
    case PrepPhase
    then have "prepping.moved_ok s (msys g)" using prepping.reach_moved_ok R by blast
    then show ?thesis using deps_online_prep D prepping.moved_ok_static by blast
  next
    case StartPhase
    then have "starting.moved_ok s (msys g)" using starting.reach_moved_ok R by blast
    then show ?thesis using deps_online_start D starting.moved_ok_static by blast
  next
    case StopPhase
    then have "stopping.moved_ok s (msys g)" using stopping.reach_moved_ok R by blast
    then show ?thesis using deps_online_stop D L stopping.moved_ok_static by blast
  qed
  then show "deps_online (msys g)" "linked (msys g)" using L linked_static by auto
qed

subsection \<open>When the loops complete\<close>

definition dep_acyclic :: "sys \<Rightarrow> bool" where
  "dep_acyclic s \<longleftrightarrow> acyclic (prereq_rel depModules s)"

lemma finite_prereq_rel: "finite (prereq_rel f s)"
proof (rule finite_subset)
  show "prereq_rel f s \<subseteq> (\<Union>n \<in> set (modules s). set (f (store s n)) \<times> {n})"
    by (auto simp: prereq_rel_def)
qed simp

lemma wf_prereqs:
  assumes "dep_acyclic s" "linked s"
  shows "wf (prereq_rel depModules s)" "wf (prereq_rel depReverse s)"
proof -
  show "wf (prereq_rel depModules s)"
    using finite_acyclic_wf[OF finite_prereq_rel] assms(1) by (simp add: dep_acyclic_def)
  have "prereq_rel depReverse s = (prereq_rel depModules s)\<inverse>"
    using assms(2) by (auto simp: prereq_rel_def linked_def)
  then show "wf (prereq_rel depReverse s)"
    using finite_acyclic_wf[OF finite_prereq_rel] assms(1) acyclic_converse
    by (metis dep_acyclic_def)
qed

definition settled :: "sys \<Rightarrow> bool" where
  "settled s \<longleftrightarrow> (\<forall>n \<in> set (modules s). mstat s n = StatusOffline \<or> mstat s n = StatusOnline)"

lemma needed_step:
  "n \<in> set (modules s) \<Longrightarrow> enabled (store s n) \<or> n \<in> needed s \<Longrightarrow> d \<in> set (depModules (store s n)) \<Longrightarrow>
   d \<in> needed s"
proof -
  assume a: "n \<in> set (modules s)" "enabled (store s n) \<or> n \<in> needed s" "d \<in> set (depModules (store s n))"
  then have nd: "(n, d) \<in> dep_rel s" by (simp add: dep_rel_def)
  from a(2) show ?thesis
  proof
    assume "enabled (store s n)" then show ?thesis using a(1) nd by (auto simp: needed_def)
  next
    assume "n \<in> needed s"
    then obtain k where "k \<in> set (modules s)" "enabled (store s k)" "(k, n) \<in> (dep_rel s)\<^sup>+"
      by (auto simp: needed_def)
    with nd show ?thesis by (auto simp: needed_def intro: trancl_into_trancl)
  qed
qed

text \<open>The state has the marks of \<open>buildEnabledTree\<close>.\<close>

definition marked :: "sys \<Rightarrow> bool" where
  "marked s \<longleftrightarrow> (\<forall>n \<in> set (modules s). enabledAsDependency (store s n) \<longleftrightarrow> n \<in> needed s)"

lemma needed_static: "same_static s s' \<Longrightarrow> needed s' = needed s"
  by (simp add: needed_def dep_rel_def same_static_def)

lemma needed_set_marks [simp]: "needed (set_marks M s) = needed s"
  by (simp add: needed_def dep_rel_def)

lemma marked_static: "same_static s s' \<Longrightarrow> marked s' = marked s"
  using needed_static[of s s'] by (simp add: marked_def same_static_def)

lemma dep_acyclic_static: "same_static s s' \<Longrightarrow> dep_acyclic s' = dep_acyclic s"
  by (simp add: dep_acyclic_def prereq_rel_def same_static_def)

lemma start_can_complete:
  assumes "dep_acyclic s" "linked s" "marked s" "settled s"
  shows "starting.can_complete s"
  unfolding starting.can_complete_def
proof (intro conjI ballI impI)
  show "wf (prereq_rel depModules s)" by (rule wf_prereqs[OF assms(1,2)])
  fix n d assume n: "n \<in> set (modules s)" "start_wanted s n \<and> mstat s n = StatusOffline"
    "d \<in> set (depModules (store s n))"
  have d: "d \<in> set (modules s)" using n assms(2) by (auto simp: linked_def)
  moreover have "start_wanted s d"
    using needed_step[OF n(1) _ n(3)] n(1,2) d assms(3) by (auto simp: start_wanted_def marked_def)
  ultimately show "\<not> mstat s d < StatusOnline \<or>
      d \<in> set (modules s) \<and> start_wanted s d \<and> mstat s d = StatusOffline"
    using assms(4) by (auto simp: settled_def not_less_Online)
qed

lemma stop_can_complete:
  assumes "dep_acyclic s" "linked s" "marked s \<or> shutdownFlag s"
    "\<forall>n \<in> set (modules s). mstat s n \<noteq> StatusStarting \<and> mstat s n \<noteq> StatusStopping"
  shows "stopping.can_complete s"
  unfolding stopping.can_complete_def
proof (intro conjI ballI impI)
  show "wf (prereq_rel depReverse s)" by (rule wf_prereqs[OF assms(1,2)])
  fix n d assume n: "n \<in> set (modules s)" "stop_wanted s n \<and> mstat s n = StatusOnline"
    "d \<in> set (depReverse (store s n))"
  have d: "d \<in> set (modules s)" "n \<in> set (depModules (store s d))"
    using n assms(2) by (auto simp: linked_def)
  moreover have "stop_wanted s d"
    using needed_step[OF d(1) _ d(2)] n(1,2) d assms(3) by (auto simp: stop_wanted_def marked_def)
  ultimately show "\<not> StatusOffline < mstat s d \<or>
      d \<in> set (modules s) \<and> stop_wanted s d \<and> mstat s d = StatusOnline"
    using assms(4) by (auto simp: Offline_less)
qed

definition same_code :: "sys \<Rightarrow> sys \<Rightarrow> bool" where
  "same_code s s' \<longleftrightarrow> modules s' = modules s \<and>
     (\<forall>n. prepFn (store s' n) = prepFn (store s n) \<and> startFn (store s' n) = startFn (store s n) \<and>
          stopFn (store s' n) = stopFn (store s n))"

lemma same_code_static: "same_code s s' \<Longrightarrow> same_static s' s'' \<Longrightarrow> same_code s s''"
  by (simp add: same_code_def same_static_def)

lemma fresh_linked:
  assumes f: "fresh s" and o: "is_order s o1" and i: "Start_init env o1 s = (s1, None)"
  shows "linked s1" "\<forall>n \<in> set (modules s). mstat s1 n = StatusDead" "same_code s s1"
    "\<forall>n \<in> set (modules s). depModules (store s1 n) = depNames (store s n)" "deps_online s1"
proof -
  let ?s = "s\<lparr>modulesLocked := True\<rparr>"
  have init: "initDependencies o1 ?s = (s1, None)"
    using i by (auto simp: Start_init_def split: if_splits prod.splits option.splits)
  have all: "\<forall>n \<in> set o1. set (depNames (store ?s n)) \<subseteq> set (modules ?s)"
    using initDependencies_missing[of _ o1 ?s] init by fastforce
  have d: "distinct o1" using o by (simp add: is_order_def)
  note s1 = initDependencies_ok[OF all d, unfolded init prod.inject, THEN conjunct1]
  have f': "is_order ?s o1" using o by (simp add: is_order_def)
  let ?f = "\<lambda>k. if k \<in> set o1 then depNames (store s k) else []"
  let ?r = "\<lambda>k. concat (map (\<lambda>n. replicate (count_list (depNames (store s n)) k) n) o1)"
  have eq: "s1 = (add_links ?f ?r s)\<lparr>modulesLocked := True\<rparr>"
    using s1 by (simp add: add_links_def cong: if_cong)
  have L0: "linked (add_links ?f ?r s)"
    "\<And>n. n \<in> set (modules s) \<Longrightarrow> depModules (store (add_links ?f ?r s) n) = depNames (store s n)"
    using linked_add_links[OF f o, of "add_links ?f ?r s"] all by auto
  have L: "linked s1" using L0(1) by (simp add: eq linked_def)
  then show "linked s1" .
  show dead: "\<forall>n \<in> set (modules s). mstat s1 n = StatusDead"
    using f by (simp add: eq mstat_def fresh_def add_links_def)
  show "same_code s s1" by (simp add: same_code_def eq add_links_def)
  show "deps_online s1" using dead by (auto simp: deps_online_def Offline_less eq)
  show "\<forall>n \<in> set (modules s). depModules (store s1 n) = depNames (store s n)"
    using L0(2) by (simp add: eq)
qed

lemma fresh_prepared:
  assumes f: "fresh s" and o: "is_order s o1" and i: "Start_init env o1 s = (s1, None)"
    and p: "loop_returns PrepPhase s1 None g"
  shows "linked (msys g)" "\<forall>n \<in> set (modules s). mstat (msys g) n = StatusOffline"
    "modules (msys g) = modules s" "deps_online (msys g)"
    "\<forall>n \<in> set (modules s). depModules (store (msys g) n) = depNames (store s n)"
    "same_code s (msys g)"
proof -
  note F = fresh_linked[OF f o i]
  have reach: "(mgr_step PrepPhase)\<^sup>*\<^sup>* (mgr_init s1) g" using p by (simp add: loop_returns_def)
  have st: "same_static s1 (msys g)"
    using prepping.reach_moved_ok[OF reach] prepping.moved_ok_static by blast
  show "linked (msys g)" "deps_online (msys g)" using deps_online_reach[OF F(1,5) reach] by auto
  have m: "modules s1 = modules s" using F(3) by (simp add: same_code_def)
  show "\<forall>n \<in> set (modules s). mstat (msys g) n = StatusOffline"
    using prepping.returned_success[OF p] F(2) m by auto
  show "modules (msys g) = modules s" using st m by (simp add: same_static_def)
  show "\<forall>n \<in> set (modules s). depModules (store (msys g) n) = depNames (store s n)"
    using st F(4) by (simp add: same_static_def)
  show "same_code s (msys g)" using same_code_static[OF F(3) st] .
qed

lemma linked_set_marks [simp]: "linked (set_marks M s) = linked s"
  by (simp add: linked_def)

lemma deps_online_set_marks [simp]: "deps_online (set_marks M s) = deps_online s"
  by (simp add: deps_online_def)

lemma marked_set_marks: "M \<inter> set (modules s) = needed s \<Longrightarrow> marked (set_marks M s)"
  by (auto simp: marked_def)

subsection \<open>Properties\<close>

text \<open>A registry of two modules, \<open>net\<close> and \<open>dns\<close> that depends on \<open>net\<close>. It is used to apply the
  properties to.\<close>

definition sample_sys :: sys where
  "sample_sys =
     \<lparr>modules = [''net'', ''dns''],
      store = (\<lambda>n. if n = ''dns''
                   then initNewModule ''dns'' None (Some [FnReturned None]) None [''net'']
                   else initNewModule n None None None []),
      modulesLocked = False, moduleMgmtEnabled = False, changeNotifyFn = False,
      failureUpdateReady = False, shutdownFlag = False, initialStartCompleted = False,
      changeLog = [], failureLog = [], goPanic = None\<rparr>"

definition sample_linked :: sys where
  "sample_linked = fst (initDependencies (modules sample_sys) sample_sys)"

text \<open>The sample after its preparation, with \<open>net\<close> and \<open>dns\<close> in given states.\<close>

definition sample_at :: "mstatus \<Rightarrow> mstatus \<Rightarrow> sys" where
  "sample_at a b = upd ''dns'' (\<lambda>m. m\<lparr>status := b\<rparr>) (upd ''net'' (\<lambda>m. m\<lparr>status := a\<rparr>) sample_linked)"

lemma sample_linked_simps:
  "modules sample_linked = [''net'', ''dns'']" "depModules (store sample_linked ''net'') = []"
  "depModules (store sample_linked ''dns'') = [''net'']"
  "depReverse (store sample_linked ''net'') = [''dns'']" "depReverse (store sample_linked ''dns'') = []"
  "moduleMgmtEnabled sample_linked = False"
  by (simp_all add: sample_linked_def sample_sys_def upd_def initNewModule_def Sleep_def close_chan_def)

lemma sample_at_simps:
  "modules (sample_at a b) = [''net'', ''dns'']" "mstat (sample_at a b) ''net'' = a"
  "mstat (sample_at a b) ''dns'' = b" "depModules (store (sample_at a b) ''net'') = []"
  "depModules (store (sample_at a b) ''dns'') = [''net'']"
  "depReverse (store (sample_at a b) ''net'') = [''dns'']"
  "depReverse (store (sample_at a b) ''dns'') = []" "moduleMgmtEnabled (sample_at a b) = False"
  using sample_linked_simps by (simp_all add: sample_at_def upd_def mstat_def)

lemma sample_at_linked: "linked (sample_at a b)"
  by (simp add: linked_def sample_at_simps)

lemma sample_at_acyclic: "dep_acyclic (sample_at a b)"
proof -
  have "prereq_rel depModules (sample_at a b) = {(''net'', ''dns'')}"
    by (auto simp: prereq_rel_def sample_at_simps)
  then show ?thesis by (simp add: dep_acyclic_def acyclic_def trancl_insert)
qed

text \<open>A control function that always returns, without an error.\<close>

definition fn_clean :: "ctrl_fn \<Rightarrow> bool" where
  "fn_clean fn \<longleftrightarrow> (\<forall>r \<in> set (ctrl_results fn). r = FnReturned None)"

definition env_clean :: "start_env \<Rightarrow> bool" where
  "env_clean env \<longleftrightarrow> flagsErr env = None \<and> (\<forall>r. globalPrepFn env = Some r \<longrightarrow> r = None) \<and>
     cmdLineOperation env = None \<and> logStartErr env = None"

definition names_acyclic :: "sys \<Rightarrow> bool" where
  "names_acyclic s \<longleftrightarrow> acyclic {(d, n). n \<in> set (modules s) \<and> d \<in> set (depNames (store s n))}"

lemma never_fails_clean:
  "\<forall>n \<in> set (modules s). fn_clean (prepFn (store s n)) \<Longrightarrow> prepping.never_fails s"
  "\<forall>n \<in> set (modules s). fn_clean (startFn (store s n)) \<Longrightarrow> starting.never_fails s"
  by (fastforce simp: prepping.never_fails_def starting.never_fails_def fn_clean_def prep_done_def
      start_done_def ctrl_err_def Let_def)+

lemma prep_can_complete:
  assumes "wf (prereq_rel depModules s)" "linked s" "\<forall>n \<in> set (modules s). mstat s n = StatusDead"
  shows "prepping.can_complete s"
  using assms unfolding prepping.can_complete_def linked_def by blast

lemma Start_init_clean:
  assumes "fresh s" "env_clean env" "\<forall>n \<in> set (modules s). set (depNames (store s n)) \<subseteq> set (modules s)"
    and o: "is_order s ns"
  shows "\<exists>s1. Start_init env ns s = (s1, None)"
proof -
  let ?s = "s\<lparr>modulesLocked := True\<rparr>"
  have "snd (initDependencies ns ?s) = None"
    using initDependencies_ok[of ns ?s] assms(3) o by (simp add: is_order_def)
  then show ?thesis using assms(1,2)
    by (auto simp: Start_init_def fresh_def env_clean_def split: prod.splits option.splits)
qed

lemma prepared_settled:
  assumes "fresh s" "is_order s o1" "Start_init env o1 s = (s1, None)"
    "loop_returns PrepPhase s1 None g1" "names_acyclic s"
    "is_order s o2" "is_order s o3" "buildEnabledTree o2 o3 (msys g1) = Some s2"
  shows "starting.can_complete s2" "same_code s s2"
proof -
  note P = fresh_prepared[OF assms(1-4)]
  have "is_order (msys g1) o2" "is_order (msys g1) o3" using assms P(3) by (simp_all add: is_order_def)
  from buildEnabledTree_marks[OF P(1) this] assms(8) obtain M where
    s2: "s2 = set_marks M (msys g1)" and M: "M \<inter> set (modules (msys g1)) = needed (msys g1)" by auto
  have "prereq_rel depModules s2 = {(d, n). n \<in> set (modules s) \<and> d \<in> set (depNames (store s n))}"
    using P(3,5) by (auto simp: prereq_rel_def s2)
  then have "dep_acyclic s2" using assms(5) by (simp add: dep_acyclic_def names_acyclic_def)
  moreover have "settled s2" using P(2,3) by (simp add: settled_def s2)
  ultimately show "starting.can_complete s2"
    using start_can_complete marked_set_marks[OF M] P(1) by (simp add: s2)
  show "same_code s s2" using P(6) by (simp add: same_code_def s2 set_marks_def)
qed

lemma prep_succeeds:
  assumes f: "fresh s" and a: "names_acyclic s" and p: "\<forall>n \<in> set (modules s). fn_clean (prepFn (store s n))"
    and o: "is_order s o1" "Start_init env o1 s = (s1, None)"
  shows "\<exists>g. loop_returns PrepPhase s1 None g" "loop_returns PrepPhase s1 res g \<Longrightarrow> res = None"
proof -
  note F = fresh_linked[OF f o]
  have m: "modules s1 = modules s" using F(3) by (simp add: same_code_def)
  have "prereq_rel depModules s1 = {(d, n). n \<in> set (modules s) \<and> d \<in> set (depNames (store s n))}"
    using F(4) m by (auto simp: prereq_rel_def)
  then have "wf (prereq_rel depModules s1)"
    using a finite_acyclic_wf[OF finite_prereq_rel[of depModules s1]] by (simp add: names_acyclic_def)
  then have c: "prepping.can_complete s1" using prep_can_complete F(1,2) m by simp
  have "prepping.never_fails s1" using never_fails_clean(1) p F(3) by (simp add: same_code_def)
  from prepping.loop_succeeds[OF c this]
  show "\<exists>g. loop_returns PrepPhase s1 None g" "loop_returns PrepPhase s1 res g \<Longrightarrow> res = None" .
qed

lemma Start_succeeds_if_clean:
  assumes f: "fresh s" and reg: "\<forall>n \<in> set (modules s). set (depNames (store s n)) \<subseteq> set (modules s)"
    and a: "names_acyclic s" and e: "env_clean env"
    and c: "\<forall>n \<in> set (modules s). fn_clean (prepFn (store s n)) \<and> fn_clean (startFn (store s n))"
  shows "(\<exists>s'. Start env s None s') \<and> (\<forall>res s'. Start env s res s' \<longrightarrow> res = None)"
proof (intro conjI allI impI)
  have o: "is_order s (modules s)" using f by (simp add: is_order_def fresh_def)
  have p: "\<forall>n \<in> set (modules s). fn_clean (prepFn (store s n))" using c by blast
  have st: "(\<exists>g. loop_returns StartPhase s2 None g) \<and> (\<forall>r g. loop_returns StartPhase s2 r g \<longrightarrow> r = None)"
    if "starting.can_complete s2" "same_code s s2" for s2
    using starting.loop_succeeds[OF that(1) never_fails_clean(2)] that(2) c by (auto simp: same_code_def)
  obtain s1 where i: "Start_init env (modules s) s = (s1, None)" using Start_init_clean[OF f e reg o] by blast
  obtain g1 where g1: "loop_returns PrepPhase s1 None g1" using prep_succeeds(1)[OF f a p o i] by blast
  note P = fresh_prepared[OF f o i g1]
  have "is_order (msys g1) (modules s)" using o P(3) by (simp add: is_order_def)
  then obtain s2 where s2: "buildEnabledTree (modules s) (modules s) (msys g1) = Some s2"
    using buildEnabledTree_marks[OF P(1)] by blast
  obtain g2 where "loop_returns StartPhase s2 None g2"
    using st prepared_settled[OF f o i g1 a o o s2] by blast
  then show "\<exists>s'. Start env s None s'" using Start_ok[OF o i g1 _ _ o o s2] e by (auto simp: env_clean_def)
  fix res s'' assume "Start env s res s''"
  then show "res = None"
  proof cases
    case (Start_init_err o1 err) then show ?thesis using Start_init_clean[OF f e reg] by fastforce
  next
    case (Start_prep_err o1 s1 err g1) then show ?thesis using prep_succeeds(2)[OF f a p] by blast
  next
    case (Start_start_err o1 s1 g1 o2 o3 s2 err g2)
    then show ?thesis using st prepared_settled[OF f Start_start_err(3,4,5) a] by blast
  qed (use e in \<open>simp_all add: env_clean_def\<close>)
qed

definition sample_env :: start_env where
  "sample_env = \<lparr>flagsErr = None, globalPrepFn = None, cmdLineOperation = None, logStartErr = None\<rparr>"

lemma sample_sys_ok:
  "fresh sample_sys" "\<forall>n \<in> set (modules sample_sys). set (depNames (store sample_sys n)) \<subseteq> set (modules sample_sys)"
  "env_clean sample_env"
  "\<forall>n \<in> set (modules sample_sys). fn_clean (prepFn (store sample_sys n)) \<and> fn_clean (startFn (store sample_sys n))"
  by (simp_all add: fresh_def sample_sys_def initNewModule_def Sleep_def close_chan_def env_clean_def
      sample_env_def fn_clean_def ctrl_results_def mstat_def)

lemma sample_sys_acyclic: "names_acyclic sample_sys"
proof -
  have "{(d, n). n \<in> set (modules sample_sys) \<and> d \<in> set (depNames (store sample_sys n))} = {(''net'', ''dns'')}"
    by (auto simp: sample_sys_def initNewModule_def Sleep_def close_chan_def)
  then show ?thesis by (simp add: names_acyclic_def acyclic_def trancl_insert)
qed

text \<open>C3. While a module is starting, online or stopping, all its dependencies are online. This
  holds in every state of every run of the three loops, whatever the order of the passes, the
  interleaving with the control functions and their results: a module is started only after
  its dependencies and stopped only before them.\<close>

theorem dependencies_stay_online:
  assumes "linked s" "deps_online s" "(mgr_step ph)\<^sup>*\<^sup>* (mgr_init s) g"
  shows "deps_online (msys g)"
  by (rule deps_online_reach[OF assms])

theorem dependencies_stay_online_witness:
  "deps_online (msys (look StartPhase ''net'' [''dns''] 0
                       (mgr_init (sample_at StatusOffline StatusOffline))))"
proof -
  let ?s = "sample_at StatusOffline StatusOffline"
  have "deps_online ?s" by (simp add: deps_online_def sample_at_simps Offline_less)
  moreover have "mgr_step StartPhase (mgr_init ?s) (look StartPhase ''net'' [''dns''] 0 (mgr_init ?s))"
    using step_look[of "mgr_init ?s" "[''net'', ''dns'']" 0 "''net''" StartPhase]
    by (simp add: mgr_init_def sample_at_simps)
  ultimately show ?thesis using dependencies_stay_online[OF sample_at_linked] by blast
qed

text \<open>C8. The loops end: no run of one of them, with the goroutines it started, has more than
  N(N + 6) + 1 steps for N modules, and a loop that has not returned can always go on.\<close>

theorem manager_loops_end:
  assumes "(mgr_step ph ^^ k) (mgr_init s) g"
  shows "k \<le> length (modules s) * (length (modules s) + 6) + 1 \<and>
    ((\<exists>res. pc g = Returned res) \<or> (\<exists>g'. mgr_step ph g g'))"
proof
  have r: "(mgr_step ph)\<^sup>*\<^sup>* (mgr_init s) g" using assms by (rule relpowp_imp_rtranclp)
  show "k \<le> length (modules s) * (length (modules s) + 6) + 1"
    using assms by (cases ph) (auto dest: prepping.run_length starting.run_length stopping.run_length)
  have "\<exists>g'. mgr_step ph g g'" if "pc g = Pass ns w" for ns w
    using r that by (cases ph) (auto dest: prepping.loop_progress starting.loop_progress stopping.loop_progress)
  then show "(\<exists>res. pc g = Returned res) \<or> (\<exists>g'. mgr_step ph g g')" by (cases "pc g") auto
qed

theorem manager_loops_end_witness:
  "\<exists>g'. mgr_step StopPhase (mgr_init (sample_at StatusOnline StatusOnline)) g'"
  using manager_loops_end[of 0 StopPhase "sample_at StatusOnline StatusOnline"
      "mgr_init (sample_at StatusOnline StatusOnline)"]
  by (simp add: mgr_init_def)

text \<open>C4. \<open>Start\<close> on freshly registered modules: when it returns without an error, every wanted
  module is online, all others are offline, and each online module has its dependencies
  online.\<close>

theorem Start_brings_up:
  assumes "fresh s" "Start env s None s'"
  shows "modules s' = modules s \<and> initialStartCompleted s' \<and> deps_online s' \<and>
    (\<forall>n \<in> set (modules s).
       mstat s' n = (if \<not> moduleMgmtEnabled s' \<or> enabled (store s' n) \<or> n \<in> needed s'
                     then StatusOnline else StatusOffline))"
  using assms(2)
proof cases
  case (Start_ok o1 s1 g1 o2 o3 s2 g2)
  note P = fresh_prepared[OF assms(1) Start_ok(2,3,4)]
  have "is_order (msys g1) o2" "is_order (msys g1) o3" using Start_ok P(3) by (simp_all add: is_order_def)
  from buildEnabledTree_marks[OF P(1) this] Start_ok obtain M where
    s2: "s2 = set_marks M (msys g1)" and M: "M \<inter> set (modules (msys g1)) = needed (msys g1)" by auto
  have reach: "(mgr_step StartPhase)\<^sup>*\<^sup>* (mgr_init s2) g2" using Start_ok by (simp add: loop_returns_def)
  have mv: "starting.moved_ok s2 (msys g2)" by (rule starting.reach_moved_ok[OF reach])
  then have st: "same_static s2 (msys g2)" by (rule starting.moved_ok_static)
  have mk: "marked s2" using marked_set_marks[OF M] by (simp add: s2)
  have D: "deps_online (msys g2)" using deps_online_reach[OF _ _ reach] P by (simp add: s2)
  have stat: "mstat (msys g2) n = (if start_wanted s2 n then StatusOnline else StatusOffline)"
    if "n \<in> set (modules s)" for n
  proof -
    have off: "mstat s2 n = StatusOffline" "n \<in> set (modules s2)" using that P by (simp_all add: s2)
    show ?thesis
    proof (cases "start_wanted s2 n")
      case True then show ?thesis using starting.returned_success[OF Start_ok(10)] off by auto
    next
      case False
      then have "mstat (msys g2) n = mstat s2 n" using mv unfolding starting.moved_ok_def by metis
      then show ?thesis using False off by simp
    qed
  qed
  have "start_wanted s2 n \<longleftrightarrow>
      \<not> moduleMgmtEnabled (msys g2) \<or> enabled (store (msys g2) n) \<or> n \<in> needed (msys g2)"
    if "n \<in> set (modules s)" for n
    using that mk st needed_static[OF st] P(3) by (auto simp: start_wanted_def marked_def same_static_def s2)
  moreover have "modules (msys g2) = modules s" using st P(3) by (simp add: same_static_def s2)
  moreover have "needed (s\<lparr>initialStartCompleted := b\<rparr>) = needed s"
    "deps_online (s\<lparr>initialStartCompleted := b\<rparr>) = deps_online s"
    "mstat (s\<lparr>initialStartCompleted := b\<rparr>) = mstat s" for s b
    by (simp_all add: needed_def dep_rel_def deps_online_def mstat_def fun_eq_iff)
  ultimately show ?thesis using Start_ok(1) D stat by simp
qed

theorem Start_brings_up_witness:
  "\<exists>s'. Start sample_env sample_sys None s' \<and> deps_online s' \<and>
     mstat s' ''net'' = (if \<not> moduleMgmtEnabled s' \<or> enabled (store s' ''net'') \<or> ''net'' \<in> needed s'
                         then StatusOnline else StatusOffline)"
proof -
  obtain s' where s': "Start sample_env sample_sys None s'"
    using Start_succeeds_if_clean[OF sample_sys_ok(1,2) sample_sys_acyclic sample_sys_ok(3,4)] by blast
  have "''net'' \<in> set (modules sample_sys)" by (simp add: sample_sys_def)
  with Start_brings_up[OF sample_sys_ok(1) s'] s' show ?thesis by blast
qed

text \<open>C5. \<open>Start\<close> succeeds when nothing outside it fails: if the declared dependencies are
  registered and have no cycle, the control functions return without errors and so do flags,
  global prep function and logger, then every call of \<open>Start\<close> that returns does so without an
  error, and there is one. (The loops inside always end, as shown above.)\<close>

theorem Start_succeeds:
  assumes "fresh s" "\<forall>n \<in> set (modules s). set (depNames (store s n)) \<subseteq> set (modules s)"
    and "names_acyclic s" and "env_clean env"
    and "\<forall>n \<in> set (modules s). fn_clean (prepFn (store s n)) \<and> fn_clean (startFn (store s n))"
  shows "(\<exists>s'. Start env s None s') \<and> (\<forall>res s'. Start env s res s' \<longrightarrow> res = None)"
  using Start_succeeds_if_clean[OF assms] .

theorem Start_succeeds_witness:
  "\<exists>s'. Start sample_env sample_sys None s'"
  using Start_succeeds[OF sample_sys_ok(1,2) sample_sys_acyclic sample_sys_ok(3,4)] by blast

text \<open>The result of a stop loop that is not held up.\<close>

lemma stop_result:
  assumes c: "stopping.can_complete s" and r: "loop_returns StopPhase s e g"
  shows "n \<in> set (modules s) \<Longrightarrow> mstat (msys g) n =
           (if stop_wanted s n \<and> mstat s n = StatusOnline then StatusOffline else mstat s n)"
    and "same_static s (msys g)"
proof -
  have mv: "stopping.moved_ok s (msys g)"
    using r stopping.reach_moved_ok unfolding loop_returns_def by blast
  then show "same_static s (msys g)" by (rule stopping.moved_ok_static)
  have "\<forall>n \<in> set (modules s). stop_wanted s n \<and> mstat s n = StatusOnline \<longrightarrow> mstat (msys g) n = StatusOffline"
    using stopping.returned_complete[OF r c] by blast
  moreover have "mstat (msys g) n = mstat s n" if "\<not> (stop_wanted s n \<and> mstat s n = StatusOnline)" for n
    using mv that unfolding stopping.moved_ok_def by metis
  ultimately show "n \<in> set (modules s) \<Longrightarrow> mstat (msys g) n =
           (if stop_wanted s n \<and> mstat s n = StatusOnline then StatusOffline else mstat s n)" by simp
qed

lemma flagged_simps:
  "linked (s\<lparr>shutdownFlag := b\<rparr>) = linked s" "dep_acyclic (s\<lparr>shutdownFlag := b\<rparr>) = dep_acyclic s"
  "mstat (s\<lparr>shutdownFlag := b\<rparr>) = mstat s" "stop_wanted (s\<lparr>shutdownFlag := True\<rparr>) n"
  by (simp_all add: linked_def dep_acyclic_def prereq_rel_def mstat_def fun_eq_iff stop_wanted_def)

lemma eventually_stops: "\<exists>e g. loop_returns StopPhase s e g"
  using stopping.eventually_returns[of s "mgr_init s"] unfolding loop_returns_def by blast

text \<open>C7. \<open>Shutdown\<close> stops all modules: if no module is stuck in starting or stopping and the
  dependencies have no cycle, then after the first \<open>Shutdown\<close> no module is up, whatever the stop
  functions do and whether or not module management is enabled. A second \<open>Shutdown\<close> only reports
  that there was one.\<close>

theorem Shutdown_stops_all:
  assumes "linked s" "dep_acyclic s" "Shutdown s e s'"
    and "\<forall>n \<in> set (modules s). mstat s n \<noteq> StatusStarting \<and> mstat s n \<noteq> StatusStopping"
  shows "if shutdownFlag s then s' = s \<and> e = Some (ErrNew ''shutdown already initiated'')
         else shutdownFlag s' \<and> (\<forall>n \<in> set (modules s). mstat s' n \<le> StatusOffline)"
  using assms(3)
proof cases
  case Shutdown_again then show ?thesis by simp
next
  case (Shutdown_run g)
  let ?s = "s\<lparr>shutdownFlag := True\<rparr>"
  have c: "stopping.can_complete ?s"
    using assms by (intro stop_can_complete) (simp_all add: flagged_simps)
  note R = stop_result[OF c Shutdown_run(3)]
  have "mstat s' n \<le> StatusOffline" if "n \<in> set (modules s)" for n
    using R(1)[of n] that assms(4) Shutdown_run(1) flagged_simps(3,4)
    by (cases "mstat s n") (auto simp: less_eq_mstatus_def)
  moreover have "shutdownFlag s'" using R(2) Shutdown_run(1) by (simp add: same_static_def)
  ultimately show ?thesis using Shutdown_run(2) by simp
qed

theorem Shutdown_stops_all_witness:
  "\<exists>e s'. Shutdown (sample_at StatusOnline StatusOnline) e s' \<and> shutdownFlag s' \<and>
     mstat s' ''net'' \<le> StatusOffline \<and> mstat s' ''dns'' \<le> StatusOffline"
proof -
  let ?s = "sample_at StatusOnline StatusOnline"
  have f: "\<not> shutdownFlag ?s"
    by (simp add: sample_at_def upd_def sample_linked_def sample_sys_def initNewModule_def Sleep_def close_chan_def)
  obtain e g where "loop_returns StopPhase (?s\<lparr>shutdownFlag := True\<rparr>) e g" using eventually_stops by blast
  then have s: "Shutdown ?s e (msys g)" using Shutdown_run[OF f] by blast
  have "\<forall>n \<in> set (modules ?s). mstat ?s n \<noteq> StatusStarting \<and> mstat ?s n \<noteq> StatusStopping"
    by (simp add: sample_at_simps)
  from Shutdown_stops_all[OF sample_at_linked sample_at_acyclic s this] f s
  show ?thesis by (auto simp: sample_at_simps)
qed



text \<open>C6. \<open>ManageModules\<close> with module management enabled, on modules that are each online or
  offline and whose dependencies have no cycle: unless a start function failed, afterwards
  exactly those modules are online that are enabled or that an enabled module depends on,
  directly or through others.\<close>

theorem ManageModules_settles:
  assumes L: "linked s" and A: "dep_acyclic s" and S: "settled s"
    and m: "moduleMgmtEnabled s" "\<not> shutdownFlag s" and R: "ManageModules s e s'"
  shows "(\<exists>n err. e = failed_report StartPhase n err) \<or>
    (\<forall>n \<in> set (modules s). mstat s' n =
       (if enabled (store s n) \<or> n \<in> needed s then StatusOnline else StatusOffline))"
  using R
proof cases
  case (Manage_run o1 o2 s1 e1 g1 e2 g2)
  from buildEnabledTree_marks[OF L Manage_run(4,5)] Manage_run(6) obtain M where
    s1: "s1 = set_marks M s" and M: "M \<inter> set (modules s) = needed s" by auto
  have mk: "marked s1" "linked s1" "settled s1" "dep_acyclic s1"
    using marked_set_marks[OF M] L S A by (simp_all add: s1 settled_def dep_acyclic_def prereq_rel_def)
  have want: "start_wanted s1 n \<longleftrightarrow> enabled (store s n) \<or> n \<in> needed s"
      "stop_wanted s1 n \<longleftrightarrow> \<not> (enabled (store s n) \<or> n \<in> needed s)" if "n \<in> set (modules s)" for n
    using that m M by (auto simp: start_wanted_def stop_wanted_def s1)
  have c1: "stopping.can_complete s1"
    using mk by (intro stop_can_complete) (auto simp: settled_def)
  note R1 = stop_result[OF c1 Manage_run(7)]
  have st1: "mstat (msys g1) n = (if enabled (store s n) \<or> n \<in> needed s then mstat s n else StatusOffline)"
    if "n \<in> set (modules s)" for n using R1(1)[of n] that want S by (auto simp: s1 settled_def)
  have set1: "settled (msys g1)" using st1 S R1(2) by (auto simp: settled_def same_static_def s1)
  have c2: "starting.can_complete (msys g1)"
    using mk set1 marked_static[OF R1(2)] linked_static[OF R1(2)] dep_acyclic_static[OF R1(2)]
    by (intro start_can_complete) simp_all
  have want2: "start_wanted (msys g1) n = start_wanted s1 n" for n
    using R1(2) by (simp add: start_wanted_def same_static_def)
  note E = starting.returned_complete[OF Manage_run(8) c2]
  show ?thesis
  proof (cases "\<exists>n err. e2 = failed_report StartPhase n err \<and> e2 \<noteq> None")
    case True then show ?thesis using Manage_run(1) by auto
  next
    case False
    then have on: "\<forall>n \<in> set (modules s). start_wanted s1 n \<and> mstat (msys g1) n = StatusOffline \<longrightarrow>
        mstat (msys g2) n = StatusOnline"
      using E R1(2) want2 by (auto simp: same_static_def s1)
    have mv: "starting.moved_ok (msys g1) (msys g2)" by (rule starting.returned_cases[OF Manage_run(8)])
    have off: "mstat (msys g2) n = mstat (msys g1) n"
      if "\<not> (start_wanted s1 n \<and> mstat (msys g1) n = StatusOffline)" for n
      using mv that want2 unfolding starting.moved_ok_def by metis
    have "mstat s' n = (if enabled (store s n) \<or> n \<in> needed s then StatusOnline else StatusOffline)"
      if "n \<in> set (modules s)" for n
      using on off[of n] st1[OF that] want[OF that] that S Manage_run(2) by (auto simp: settled_def)
    then show ?thesis by blast
  qed
qed (use m in simp)

definition sample_managed :: sys where
  "sample_managed = (upd ''dns'' (\<lambda>m. m\<lparr>enabled := True\<rparr>) (sample_at StatusOffline StatusOffline))
     \<lparr>moduleMgmtEnabled := True\<rparr>"

lemma sample_managed_simps:
  "modules sample_managed = [''net'', ''dns'']" "mstat sample_managed = mstat (sample_at StatusOffline StatusOffline)"
  "depModules (store sample_managed n) = depModules (store (sample_at StatusOffline StatusOffline) n)"
  "depReverse (store sample_managed n) = depReverse (store (sample_at StatusOffline StatusOffline) n)"
  "enabled (store sample_managed ''dns'')" "moduleMgmtEnabled sample_managed" "\<not> shutdownFlag sample_managed"
  using sample_at_simps(1)
  by (auto simp: sample_managed_def upd_def mstat_def fun_eq_iff sample_at_def sample_linked_def
      sample_sys_def initNewModule_def Sleep_def close_chan_def)

theorem ManageModules_settles_witness:
  "\<exists>e s'. ManageModules sample_managed e s' \<and>
     ((\<exists>n err. e = failed_report StartPhase n err) \<or>
      mstat s' ''net'' = StatusOnline \<and> mstat s' ''dns'' = StatusOnline)"
proof -
  let ?s = sample_managed and ?t = "sample_at StatusOffline StatusOffline"
  have L: "linked ?s" using sample_at_linked[of StatusOffline StatusOffline]
    by (simp add: linked_def sample_managed_simps sample_at_simps)
  have A: "dep_acyclic ?s" using sample_at_acyclic[of StatusOffline StatusOffline]
    by (simp add: dep_acyclic_def prereq_rel_def sample_managed_simps sample_at_simps)
  have S: "settled ?s" by (simp add: settled_def sample_managed_simps sample_at_simps)
  have o: "is_order ?s (modules ?s)" by (simp add: is_order_def sample_managed_simps)
  obtain s1 where s1: "buildEnabledTree (modules ?s) (modules ?s) ?s = Some s1"
    using buildEnabledTree_marks[OF L o o] by blast
  obtain e1 g1 where g1: "loop_returns StopPhase s1 e1 g1" using eventually_stops by blast
  obtain e2 g2 where g2: "loop_returns StartPhase (msys g1) e2 g2"
    using starting.eventually_returns[of "msys g1" "mgr_init (msys g1)"] unfolding loop_returns_def by blast
  note R = Manage_run[OF sample_managed_simps(6) o o s1 g1 g2]
  have "''net'' \<in> needed ?s"
    by (rule needed_step[of "''dns''"]) (simp_all add: sample_managed_simps sample_at_simps)
  then show ?thesis
    using ManageModules_settles[OF L A S sample_managed_simps(6,7) R] R
    by (auto simp: sample_managed_simps)
qed

end
