(* ===== verification/Module_Channels.thy ===== *)
theory Module_Channels
  imports Module_Lifecycle
begin

section \<open>Signals and failure states of modules\<close>

text \<open>
  The channels \<open>startComplete\<close> and \<open>stopComplete\<close> are closed to signal the end of a start and of a
  stop and are made anew at each stop; closing one twice would end the program. \<open>chan_ok\<close> ties
  them to the status. The second part is on the failure state of a module.
\<close>

subsection \<open>No channel is closed twice\<close>

definition chan_inv :: "Module \<Rightarrow> bool" where
  "chan_inv m \<longleftrightarrow> startComplete m = (if status m = StatusOnline then ChanClosed else ChanOpen) \<and>
     (\<not> stopCompleted m \<longrightarrow> stopComplete m = ChanOpen)"

definition chan_ok :: "sys \<Rightarrow> bool" where
  "chan_ok s \<longleftrightarrow> goPanic s = None \<and> (\<forall>n \<in> set (modules s). chan_inv (store s n))"

lemma chan_ok_upd:
  "chan_ok s \<Longrightarrow> (\<And>m. m = store s n \<Longrightarrow> n \<in> set (modules s) \<Longrightarrow> chan_inv m \<Longrightarrow> chan_inv (f m)) \<Longrightarrow> chan_ok (upd n f s)"
  by (auto simp: chan_ok_def upd_def)

lemma chan_ok_logs [simp]:
  "chan_ok (s\<lparr>changeLog := l\<rparr>) = chan_ok s" "chan_ok (s\<lparr>failureLog := f\<rparr>) = chan_ok s"
  by (simp_all add: chan_ok_def)

lemma chan_ok_notify: "chan_ok s \<Longrightarrow> chan_ok (notifyOfChange n s)"
  by (simp add: notifyOfChange_def)

lemma chan_ok_setFailure: "chan_ok s \<Longrightarrow> chan_ok (setFailure st i t m n s)"
  unfolding setFailure_def Let_def
  by (auto intro!: chan_ok_notify chan_ok_upd simp: chan_inv_def)

lemma chan_ok_Resolve: "chan_ok s \<Longrightarrow> chan_ok (Resolve i n s)"
  unfolding Resolve_def Let_def
  by (auto intro!: chan_ok_notify chan_ok_upd simp: chan_inv_def)

lemma chan_ok_check:
  assumes "chan_ok s" "n \<in> set (modules s)" shows "chan_ok (checkIfStopComplete n s)"
proof -
  have "chan_inv (store s n)" "goPanic s = None" using assms by (auto simp: chan_ok_def)
  then show ?thesis using assms
    by (auto simp: checkIfStopComplete_def Let_def close_chan_def chan_ok_def upd_def chan_inv_def)
qed

lemma modules_upd [simp]: "modules (upd n f s) = modules s"
  by (simp add: upd_def)

lemma chan_ok_startCtrlFn: "chan_ok s \<Longrightarrow> n \<in> set (modules s) \<Longrightarrow> chan_ok (startCtrlFn n fn s)"
  unfolding startCtrlFn_def
  by (cases fn) (auto intro!: chan_ok_check chan_ok_upd simp: chan_inv_def)

lemma chan_ok_endCtrlFn: "chan_ok s \<Longrightarrow> n \<in> set (modules s) \<Longrightarrow> chan_ok (endCtrlFn n fn r s)"
  unfolding endCtrlFn_def by (auto intro!: chan_ok_check chan_ok_upd simp: chan_inv_def)

lemma chan_ok_exec: "chan_ok s \<Longrightarrow> chan_ok (fst (exec ph n s))"
  by (cases ph) (auto simp: prep_def start_def stop_def chan_inv_def mstat_def intro!: chan_ok_upd)

lemma chan_ok_run: "chan_ok s \<Longrightarrow> n \<in> set (modules s) \<Longrightarrow> chan_ok (ctrl_run ph n s)"
  by (cases ph) (auto simp: prep_run_def start_run_def stop_run_def chan_inv_def
      intro!: chan_ok_startCtrlFn chan_ok_upd)

lemma chan_ok_done:
  assumes ok: "chan_ok s" and n: "n \<in> set (modules s)" and st: "mstat s n \<noteq> StatusOnline"
  shows "chan_ok (fst (ctrl_done ph n r s))"
proof -
  have e: "chan_ok (endCtrlFn n fn r s)" "mstat (endCtrlFn n fn r s) n \<noteq> StatusOnline"
      "modules (endCtrlFn n fn r s) = modules s" for fn
    using chan_ok_endCtrlFn[OF ok n] quiet_endCtrlFn[of s n fn r] st
    by (auto simp: quiet_def same_static_def)
  have off: "chan_ok s' \<Longrightarrow> mstat s' n \<noteq> StatusOnline \<Longrightarrow> chan_ok (upd n (\<lambda>m. m\<lparr>status := StatusOffline\<rparr>) s')" for s'
    by (rule chan_ok_upd) (auto simp: chan_inv_def mstat_def)
  show ?thesis
  proof (cases ph)
    case PrepPhase
    then show ?thesis using e off
      by (auto simp: prep_done_def Let_def Error_def intro!: chan_ok_setFailure chan_ok_notify)
  next
    case StartPhase
    let ?s = "endCtrlFn n (startFn (store s n)) r s"
    have "startComplete (store ?s n) = ChanOpen"
      using e[of "startFn (store s n)"] n by (auto simp: chan_ok_def chan_inv_def mstat_def)
    moreover have "chan_ok ((upd n (\<lambda>m. m\<lparr>status := StatusOnline, startComplete := ChanClosed\<rparr>) ?s)\<lparr>goPanic := goPanic ?s\<rparr>)"
      using e[of "startFn (store s n)"] by (auto simp: chan_ok_def chan_inv_def upd_def)
    ultimately show ?thesis using StartPhase e
      by (auto simp: start_done_def Let_def Error_def close_chan_def intro!: chan_ok_setFailure chan_ok_notify)
  next
    case StopPhase
    let ?s = "endCtrlFn n (stopFn (store s n)) r s"
    have "mstat (setFailure a b c d n ?s) n \<noteq> StatusOnline" for a b c d
      using e(2) quiet_setFailure[of ?s] by (simp add: quiet_def)
    then have "chan_ok (upd n (\<lambda>m. m\<lparr>status := StatusOffline\<rparr>) (setFailure a b c d n ?s))" for a b c d
      using off chan_ok_setFailure e(1) by blast
    then show ?thesis using StopPhase off[OF e(1,2)]
      by (auto simp: stop_done_def Let_def Error_def intro!: chan_ok_Resolve chan_ok_notify)
  qed
qed

context phase_contract
begin

lemma task_in_modules:
  assumes "loop_inv s g" "(n, sg) \<in> set (tasks g)"
  shows "n \<in> set (modules (msys g))" "mstat (msys g) n = st_mid"
proof -
  have M: "moved_ok s (msys g)" and T: "tasks_ok s (msys g) (tasks g)"
    using assms(1) by (auto simp: loop_inv_def)
  show "mstat (msys g) n = st_mid" by (rule tasks_ok_sub(5)[OF T assms(2)])
  have "n \<in> set (modules s)"
    using tasks_ok_sub(5,6)[OF T assms(2)] M st_distinct unfolding moved_ok_def by metis
  then show "n \<in> set (modules (msys g))" using moved_ok_static[OF M] by (simp add: same_static_def)
qed

lemma chan_ok_step:
  assumes "mgr_step ph g g'" "chan_ok (msys g)" "loop_inv s g" "st_mid \<noteq> StatusOnline"
  shows "chan_ok (msys g')"
  using assms(1)
proof cases
  case (step_look ns w n)
  then show ?thesis using chan_ok_exec[OF assms(2), of ph n] assms(2)
    by (auto simp: look_def split: readiness.split prod.split option.split)
next
  case (step_launch n)
  then show ?thesis using chan_ok_run assms(2) task_in_modules(1)[OF assms(3)] by (simp add: launch_def)
next
  case (step_finish n r)
  then have "chan_ok (fst (ctrl_done ph n r (msys g)))"
    using chan_ok_done assms(2,4) task_in_modules[OF assms(3)] by metis
  then show ?thesis using step_finish by (auto simp: finish_def split: prod.split)
next
  case (step_receive w rep)
  then show ?thesis using assms(2) by (auto simp: receive_def Let_def split: option.split)
qed (use assms(2) in auto)

lemma chan_ok_reach:
  assumes "(mgr_step ph)\<^sup>*\<^sup>* (mgr_init s) g" "chan_ok s" "st_mid \<noteq> StatusOnline"
  shows "chan_ok (msys g)"
  using assms(1)
proof (induction rule: rtranclp_induct)
  case base show ?case using assms(2) by (simp add: mgr_init_def)
next
  case (step g g') then show ?case using chan_ok_step[OF _ _ loop_inv_reach assms(3)] by blast
qed

end

subsection \<open>Properties\<close>

text \<open>The signals of modules: in every state of every run of the loops, \<open>startComplete\<close> is
  closed exactly while the module is online, an unfinished stop has an open \<open>stopComplete\<close>, and
  no channel was closed a second time or while \<open>nil\<close>. New modules are in such a state.\<close>

theorem no_channel_closed_twice:
  assumes "chan_ok s" "(mgr_step ph)\<^sup>*\<^sup>* (mgr_init s) g"
  shows "chan_ok (msys g) \<and> chan_inv (initNewModule n p st sp ds)"
proof
  show "chan_ok (msys g)" using assms
    by (cases ph) (auto intro: prepping.chan_ok_reach starting.chan_ok_reach stopping.chan_ok_reach)
  show "chan_inv (initNewModule n p st sp ds)"
    by (simp add: chan_inv_def initNewModule_def Sleep_def close_chan_def)
qed

theorem no_channel_closed_twice_witness:
  "chan_ok (msys (look PrepPhase ''net'' [''dns''] 0 (mgr_init sample_sys)))"
proof -
  have c: "chan_ok sample_sys"
    by (simp add: chan_ok_def sample_sys_def chan_inv_def initNewModule_def Sleep_def close_chan_def)
  have "mgr_step PrepPhase (mgr_init sample_sys) (look PrepPhase ''net'' [''dns''] 0 (mgr_init sample_sys))"
    using step_look[of "mgr_init sample_sys" "[''net'', ''dns'']" 0 "''net''" PrepPhase]
    by (simp add: mgr_init_def sample_sys_def)
  then show ?thesis using no_channel_closed_twice[OF c] by blast
qed

text \<open>Setting a failure: a new failure ID replaces the state of the module and, with a
  notify function set, first resolves the old failure and then announces the new one. A call
  with the ID that is already set keeps the module as it is, but announces its status, title and
  message all the same. \<open>Resolve\<close> with an empty or the matching ID clears the failure.\<close>

theorem setFailure_effects:
  "store (setFailure st ident title msg n s) =
      (if ident = failureID (store s n) then store s
       else (store s)(n := (store s n)\<lparr>failureStatus := st, failureID := ident, failureTitle := title,
                            failureMsg := msg\<rparr>)) \<and>
    failureLog (setFailure st ident title msg n s) =
      failureLog s @
      (if failureUpdateReady s
       then (if ident \<noteq> failureID (store s n) \<and> failureID (store s n) \<noteq> '''' then [(FailureNone, failureID (store s n), '''', '''')] else [])
            @ [(st, ident, title, msg)]
       else []) \<and>
    store (Resolve ident n s) =
      (if ident = '''' \<or> ident = failureID (store s n)
       then (store s)(n := (store s n)\<lparr>failureStatus := FailureNone, failureID := '''', failureTitle := '''',
                            failureMsg := ''''\<rparr>)
       else store s)"
  by (simp add: setFailure_def Resolve_def notifyOfChange_def upd_def Let_def)

text \<open>C40. Once a module management pass marks the modules, exactly those are marked that an
  enabled module depends on, directly or through others; the recursion ends for every
  dependency graph, cyclic or not, and for every order of iteration, and nothing else changes.\<close>

theorem enabled_tree_is_closure:
  assumes "linked s" "is_order s o1" "is_order s o2"
  shows "\<exists>s'. buildEnabledTree o1 o2 s = Some s' \<and> mstat s' = mstat s \<and>
    (\<forall>n. enabled (store s' n) = enabled (store s n)) \<and>
    (\<forall>d \<in> set (modules s). enabledAsDependency (store s' d) \<longleftrightarrow>
       (\<exists>n \<in> set (modules s). enabled (store s n) \<and> (n, d) \<in> (dep_rel s)\<^sup>+))"
proof -
  obtain M where "buildEnabledTree o1 o2 s = Some (set_marks M s)" "M \<inter> set (modules s) = needed s"
    using buildEnabledTree_marks[OF assms] by blast
  then show ?thesis by (auto simp: needed_def)
qed

theorem enabled_tree_is_closure_witness:
  "\<exists>s'. buildEnabledTree [''net'', ''dns''] [''dns'', ''net''] (sample_at StatusOffline StatusOffline) = Some s' \<and>
     \<not> enabledAsDependency (store s' ''dns'')"
proof -
  let ?s = "sample_at StatusOffline StatusOffline"
  have o: "is_order ?s [''net'', ''dns'']" "is_order ?s [''dns'', ''net'']"
    by (auto simp: is_order_def sample_at_simps)
  have d: "(n, ''dns'') \<notin> dep_rel ?s" if "n \<in> set (modules ?s)" for n
    using that by (auto simp: dep_rel_def sample_at_simps)
  have "(n, ''dns'') \<notin> (dep_rel ?s)\<^sup>+" if "n \<in> set (modules ?s)" for n
  proof
    assume "(n, ''dns'') \<in> (dep_rel ?s)\<^sup>+"
    then obtain k where k: "(n, k) \<in> (dep_rel ?s)\<^sup>*" "(k, ''dns'') \<in> dep_rel ?s" by (meson tranclD2)
    from k(1) that have "k \<in> set (modules ?s)"
      by (induction rule: rtrancl_induct) (auto simp: dep_rel_def sample_at_simps)
    with k(2) d show False by blast
  qed
  then show ?thesis
    using enabled_tree_is_closure[OF sample_at_linked[of StatusOffline StatusOffline] o]
    by (auto simp: sample_at_simps)
qed
end
