(* ===== verification/Db_Query.thy ===== *)
theory Db_Query
  imports Storage
begin

section \<open>Queries: conditions and matching\<close>

text \<open>
  The package \<^verbatim>\<open>database/query\<close> without its parser: the operators, the conditions and what they
  say of a record, their checks, and how they are printed. Conditions are an interface with
  one struct per kind of value; here a datatype with one constructor per struct. An operator is
  the number the source gives it.

  The record \<open>query_lib\<close> holds what the package takes from Go's runtime and from packages with
  large implementations: 64-bit floating point numbers with their comparisons, reading and
  printing, \<open>strconv.Quote\<close>, and regular expressions, known by the text they were compiled
  from. An accessor is what the conditions see of a record; \<^verbatim>\<open>database/accessor\<close> provides them.
\<close>

record 'f query_lib =
  float_zero :: 'f
  float_of_int64 :: "int64 \<Rightarrow> 'f"
  float_of_uint :: "uint64 \<Rightarrow> 'f"
  float_eq :: "'f \<Rightarrow> 'f \<Rightarrow> bool"
  float_less :: "'f \<Rightarrow> 'f \<Rightarrow> bool"
  float_leq :: "'f \<Rightarrow> 'f \<Rightarrow> bool"
  ParseFloat :: "string \<Rightarrow> 'f res"
  fmt_g :: "'f \<Rightarrow> string"
  Quote :: "string \<Rightarrow> string"
  regexp_Compile :: "string \<Rightarrow> goerr option"
  regexp_MatchString :: "string \<Rightarrow> string \<Rightarrow> bool"

record 'f accessor =
  acc_GetString :: "string \<Rightarrow> string option"
  acc_GetInt :: "string \<Rightarrow> int64 option"
  acc_GetFloat :: "string \<Rightarrow> 'f option"
  acc_GetBool :: "string \<Rightarrow> bool option"
  acc_Exists :: "string \<Rightarrow> bool"

text \<open>
  The \<open>interface{}\<close> values that reach \<open>Where\<close>. The signed integer types convert to \<open>int64\<close>
  without loss, as do the unsigned ones up to 32 bits; \<open>uint\<close> has 64 bits. The type \<open>uint64\<close>
  itself is not in the type switches and belongs to \<open>VOther\<close>, which keeps how \<open>%v\<close> prints it.
\<close>

datatype 'f govalue =
    VInt int64
  | VUint uint64
  | VFloat 'f
  | VString string
  | VStrings "string list"
  | VBool bool
  | VNil
  | VOther string

fun print_v :: "'f query_lib \<Rightarrow> 'f govalue \<Rightarrow> string" where
  "print_v lib (VInt i) = print_int (sint i)"
| "print_v lib (VUint n) = print_nat (unat n)"
| "print_v lib (VFloat f) = fmt_g lib f"
| "print_v lib (VString s) = s"
| "print_v lib (VStrings ss) = ''['' @ Join '' '' ss @ '']''"
| "print_v lib (VBool b) = print_bool b"
| "print_v lib VNil = ''<nil>''"
| "print_v lib (VOther s) = s"

subsection \<open>Operators\<close>

definition Equals :: uint8 where "Equals = 0"
definition GreaterThan :: uint8 where "GreaterThan = 1"
definition GreaterThanOrEqual :: uint8 where "GreaterThanOrEqual = 2"
definition LessThan :: uint8 where "LessThan = 3"
definition LessThanOrEqual :: uint8 where "LessThanOrEqual = 4"
definition FloatEquals :: uint8 where "FloatEquals = 5"
definition FloatGreaterThan :: uint8 where "FloatGreaterThan = 6"
definition FloatGreaterThanOrEqual :: uint8 where "FloatGreaterThanOrEqual = 7"
definition FloatLessThan :: uint8 where "FloatLessThan = 8"
definition FloatLessThanOrEqual :: uint8 where "FloatLessThanOrEqual = 9"
definition SameAs :: uint8 where "SameAs = 10"
definition Contains_op :: uint8 where "Contains_op = 11"
definition StartsWith :: uint8 where "StartsWith = 12"
definition EndsWith :: uint8 where "EndsWith = 13"
definition In_op :: uint8 where "In_op = 14"
definition Matches_op :: uint8 where "Matches_op = 15"
definition Is_op :: uint8 where "Is_op = 16"
definition Exists_op :: uint8 where "Exists_op = 17"
definition errorPresent :: uint8 where "errorPresent = 255"

lemmas operator_defs = Equals_def GreaterThan_def GreaterThanOrEqual_def LessThan_def
  LessThanOrEqual_def FloatEquals_def FloatGreaterThan_def FloatGreaterThanOrEqual_def
  FloatLessThan_def FloatLessThanOrEqual_def SameAs_def Contains_op_def StartsWith_def
  EndsWith_def In_op_def Matches_op_def Is_op_def Exists_op_def errorPresent_def

definition operatorNames :: "(string \<times> uint8) list" where
  "operatorNames =
     [(''=='', Equals), (''>'', GreaterThan), (''>='', GreaterThanOrEqual), (''<'', LessThan),
      (''<='', LessThanOrEqual), (''f=='', FloatEquals), (''f>'', FloatGreaterThan),
      (''f>='', FloatGreaterThanOrEqual), (''f<'', FloatLessThan), (''f<='', FloatLessThanOrEqual),
      (''sameas'', SameAs), (''s=='', SameAs), (''contains'', Contains_op), (''co'', Contains_op),
      (''startswith'', StartsWith), (''sw'', StartsWith), (''endswith'', EndsWith), (''ew'', EndsWith),
      (''in'', In_op), (''matches'', Matches_op), (''re'', Matches_op), (''is'', Is_op),
      (''exists'', Exists_op), (''ex'', Exists_op)]"

text \<open>The body of the loop in \<open>init\<close>, and the loop over the map in some order.\<close>

definition init_primary :: "string \<times> uint8 \<Rightarrow> (uint8 \<rightharpoonup> string) \<Rightarrow> (uint8 \<rightharpoonup> string)" where
  "init_primary = (\<lambda>(opName, opID) primaryNames.
     case primaryNames opID of
       Some name \<Rightarrow> if length name < length opName then primaryNames(opID \<mapsto> opName) else primaryNames
     | None \<Rightarrow> primaryNames(opID \<mapsto> opName))"

definition primaryNames :: "(string \<times> uint8) list \<Rightarrow> (uint8 \<rightharpoonup> string)" where
  "primaryNames order = fold init_primary order Map.empty"

definition getOpName :: "uint8 \<Rightarrow> string" where
  "getOpName opr =
     (case primaryNames operatorNames opr of Some name \<Rightarrow> name | None \<Rightarrow> ''[unknown]'')"

subsection \<open>Conditions\<close>

datatype 'f condition =
    IntCond string uint8 int64
  | FloatCond string uint8 'f
  | StringCond string uint8 string
  | StringSliceCond string uint8 "string list"
  | RegexCond string uint8 "string option"
  | BoolCond string uint8 bool
  | ExistsCond string uint8
  | ErrorCond goerr
  | AndCond "'f condition list"
  | OrCond "'f condition list"
  | NotCond "'f condition"

text \<open>The text of a \<open>strconv.NumError\<close>.\<close>

definition num_error :: "'f query_lib \<Rightarrow> string \<Rightarrow> string \<Rightarrow> goerr \<Rightarrow> string" where
  "num_error lib fn s e = ''strconv.'' @ fn @ '': parsing '' @ Quote lib s @ '': '' @ err_text e"

definition newIntCondition :: "'f query_lib \<Rightarrow> string \<Rightarrow> uint8 \<Rightarrow> 'f govalue \<Rightarrow> 'f condition" where
  "newIntCondition lib key opr val =
     (case val of
        VInt v \<Rightarrow> IntCond key opr v
      | VUint v \<Rightarrow> IntCond key opr v
      | VString v \<Rightarrow>
          (case ParseInt64 v of
             Inl err \<Rightarrow> IntCond (''could not parse '' @ v @ '' to int64: '' @ num_error lib ''ParseInt'' v err @
                                 '' (hint: use \"sameas\" to compare strings)'') errorPresent 0
           | Inr parsed \<Rightarrow> IntCond key opr (word_of_int parsed))
      | _ \<Rightarrow> IntCond (''incompatible value '' @ print_v lib val @ '' for int64'') errorPresent 0)"

definition newFloatCondition :: "'f query_lib \<Rightarrow> string \<Rightarrow> uint8 \<Rightarrow> 'f govalue \<Rightarrow> 'f condition" where
  "newFloatCondition lib key opr val =
     (case val of
        VInt v \<Rightarrow> FloatCond key opr (float_of_int64 lib v)
      | VUint v \<Rightarrow> FloatCond key opr (float_of_uint lib v)
      | VFloat v \<Rightarrow> FloatCond key opr v
      | VString v \<Rightarrow>
          (case ParseFloat lib v of
             Inl err \<Rightarrow> FloatCond (''could not parse '' @ v @ '' to float64: '' @ num_error lib ''ParseFloat'' v err)
                          errorPresent (float_zero lib)
           | Inr parsed \<Rightarrow> FloatCond key opr parsed)
      | _ \<Rightarrow> FloatCond (''incompatible value '' @ print_v lib val @ '' for float64'') errorPresent (float_zero lib))"

definition newStringCondition :: "'f query_lib \<Rightarrow> string \<Rightarrow> uint8 \<Rightarrow> 'f govalue \<Rightarrow> 'f condition" where
  "newStringCondition lib key opr val =
     (case val of
        VString v \<Rightarrow> StringCond key opr v
      | _ \<Rightarrow> StringCond (''incompatible value '' @ print_v lib val @ '' for string'') errorPresent [])"

definition newStringSliceCondition :: "'f query_lib \<Rightarrow> string \<Rightarrow> uint8 \<Rightarrow> 'f govalue \<Rightarrow> 'f condition" where
  "newStringSliceCondition lib key opr val =
     (case val of
        VString v \<Rightarrow>
          (let parsed = Split (CHR '','') v in
           if length parsed < 2 then StringSliceCond v errorPresent [] else StringSliceCond key opr parsed)
      | VStrings v \<Rightarrow> StringSliceCond key opr v
      | _ \<Rightarrow> StringSliceCond (''incompatible value '' @ print_v lib val @ '' for []string'') errorPresent [])"

definition newRegexCondition :: "'f query_lib \<Rightarrow> string \<Rightarrow> uint8 \<Rightarrow> 'f govalue \<Rightarrow> 'f condition" where
  "newRegexCondition lib key opr val =
     (case val of
        VString v \<Rightarrow>
          (case regexp_Compile lib v of
             Some err \<Rightarrow> RegexCond (''could not compile regex \"'' @ v @ ''\": '' @ err_text err) errorPresent None
           | None \<Rightarrow> RegexCond key opr (Some v))
      | _ \<Rightarrow> RegexCond (''incompatible value '' @ print_v lib val @ '' for string'') errorPresent None)"

definition newBoolCondition :: "'f query_lib \<Rightarrow> string \<Rightarrow> uint8 \<Rightarrow> 'f govalue \<Rightarrow> 'f condition" where
  "newBoolCondition lib key opr val =
     (case val of
        VBool v \<Rightarrow> BoolCond key opr v
      | VString v \<Rightarrow>
          (case ParseBool v of
             Inl err \<Rightarrow> BoolCond (''could not parse \"'' @ v @ ''\" to bool: '' @ num_error lib ''ParseBool'' v err)
                          errorPresent False
           | Inr parsed \<Rightarrow> BoolCond key opr parsed)
      | _ \<Rightarrow> BoolCond (''incompatible value '' @ print_v lib val @ '' for int64'') errorPresent False)"

definition newExistsCondition :: "string \<Rightarrow> uint8 \<Rightarrow> 'f condition" where
  "newExistsCondition key opr = ExistsCond key opr"

definition newErrorCondition :: "goerr \<Rightarrow> 'f condition" where
  "newErrorCondition err = ErrorCond err"

definition Where :: "'f query_lib \<Rightarrow> string \<Rightarrow> uint8 \<Rightarrow> 'f govalue \<Rightarrow> 'f condition" where
  "Where lib key opr val =
     (if opr \<in> {Equals, GreaterThan, GreaterThanOrEqual, LessThan, LessThanOrEqual}
      then newIntCondition lib key opr val
      else if opr \<in> {FloatEquals, FloatGreaterThan, FloatGreaterThanOrEqual, FloatLessThan, FloatLessThanOrEqual}
      then newFloatCondition lib key opr val
      else if opr \<in> {SameAs, Contains_op, StartsWith, EndsWith} then newStringCondition lib key opr val
      else if opr = In_op then newStringSliceCondition lib key opr val
      else if opr = Matches_op then newRegexCondition lib key opr val
      else if opr = Is_op then newBoolCondition lib key opr val
      else if opr = Exists_op then newExistsCondition key opr
      else newErrorCondition (ErrNew (''no operator with ID '' @ print_nat (unat opr))))"

definition And :: "'f condition list \<Rightarrow> 'f condition" where
  "And conditions = AndCond conditions"

definition Or :: "'f condition list \<Rightarrow> 'f condition" where
  "Or conditions = OrCond conditions"

definition Not :: "'f condition \<Rightarrow> 'f condition" where
  "Not c = NotCond c"

subsection \<open>complies\<close>

definition int_complies :: "'f accessor \<Rightarrow> string \<Rightarrow> uint8 \<Rightarrow> int64 \<Rightarrow> bool" where
  "int_complies acc key opr val =
     (case acc_GetInt acc key of
        None \<Rightarrow> False
      | Some cval \<Rightarrow>
          if opr = Equals then cval = val
          else if opr = GreaterThan then sint cval > sint val
          else if opr = GreaterThanOrEqual then sint cval \<ge> sint val
          else if opr = LessThan then sint cval < sint val
          else if opr = LessThanOrEqual then sint cval \<le> sint val
          else False)"

definition float_complies :: "'f query_lib \<Rightarrow> 'f accessor \<Rightarrow> string \<Rightarrow> uint8 \<Rightarrow> 'f \<Rightarrow> bool" where
  "float_complies lib acc key opr val =
     (case acc_GetFloat acc key of
        None \<Rightarrow> False
      | Some cval \<Rightarrow>
          if opr = FloatEquals then float_eq lib cval val
          else if opr = FloatGreaterThan then float_less lib val cval
          else if opr = FloatGreaterThanOrEqual then float_leq lib val cval
          else if opr = FloatLessThan then float_less lib cval val
          else if opr = FloatLessThanOrEqual then float_leq lib cval val
          else False)"

definition string_complies :: "'f accessor \<Rightarrow> string \<Rightarrow> uint8 \<Rightarrow> string \<Rightarrow> bool" where
  "string_complies acc key opr val =
     (case acc_GetString acc key of
        None \<Rightarrow> False
      | Some cval \<Rightarrow>
          if opr = SameAs then val = cval
          else if opr = Contains_op then Contains cval val
          else if opr = StartsWith then HasPrefix cval val
          else if opr = EndsWith then HasSuffix cval val
          else False)"

definition stringslice_complies :: "'f accessor \<Rightarrow> string \<Rightarrow> uint8 \<Rightarrow> string list \<Rightarrow> bool" where
  "stringslice_complies acc key opr val =
     (case acc_GetString acc key of
        None \<Rightarrow> False
      | Some cval \<Rightarrow> if opr = In_op then cval \<in> set val else False)"

text \<open>A condition with the operator \<open>Matches\<close> always has a compiled expression.\<close>

definition regex_complies :: "'f query_lib \<Rightarrow> 'f accessor \<Rightarrow> string \<Rightarrow> uint8 \<Rightarrow> string option \<Rightarrow> bool" where
  "regex_complies lib acc key opr regex =
     (case acc_GetString acc key of
        None \<Rightarrow> False
      | Some cval \<Rightarrow>
          if opr = Matches_op
          then (case regex of Some re \<Rightarrow> regexp_MatchString lib re cval | None \<Rightarrow> False)
          else False)"

definition bool_complies :: "'f accessor \<Rightarrow> string \<Rightarrow> uint8 \<Rightarrow> bool \<Rightarrow> bool" where
  "bool_complies acc key opr val =
     (case acc_GetBool acc key of
        None \<Rightarrow> False
      | Some cval \<Rightarrow> if opr = Is_op then cval = val else False)"

fun complies :: "'f query_lib \<Rightarrow> 'f accessor \<Rightarrow> 'f condition \<Rightarrow> bool" where
  "complies lib acc (IntCond key opr val) = int_complies acc key opr val"
| "complies lib acc (FloatCond key opr val) = float_complies lib acc key opr val"
| "complies lib acc (StringCond key opr val) = string_complies acc key opr val"
| "complies lib acc (StringSliceCond key opr val) = stringslice_complies acc key opr val"
| "complies lib acc (RegexCond key opr regex) = regex_complies lib acc key opr regex"
| "complies lib acc (BoolCond key opr val) = bool_complies acc key opr val"
| "complies lib acc (ExistsCond key opr) = acc_Exists acc key"
| "complies lib acc (ErrorCond err) = False"
| "complies lib acc (AndCond conditions) = list_all (complies lib acc) conditions"
| "complies lib acc (OrCond conditions) = list_ex (complies lib acc) conditions"
| "complies lib acc (NotCond notC) = (\<not> complies lib acc notC)"

subsection \<open>check\<close>

definition key_check :: "string \<Rightarrow> uint8 \<Rightarrow> goerr option" where
  "key_check key opr = (if opr = errorPresent then Some (ErrNew key) else None)"

fun check :: "'f condition \<Rightarrow> goerr option"
and check_all :: "'f condition list \<Rightarrow> goerr option" where
  "check (IntCond key opr _) = key_check key opr"
| "check (FloatCond key opr _) = key_check key opr"
| "check (StringCond key opr _) = key_check key opr"
| "check (StringSliceCond key opr _) =
     (if opr = errorPresent then Some (ErrNew (''could not parse \"'' @ key @ ''\" to []string'')) else None)"
| "check (RegexCond key opr _) = key_check key opr"
| "check (BoolCond key opr _) = key_check key opr"
| "check (ExistsCond key opr) = key_check key opr"
| "check (ErrorCond err) = Some err"
| "check (AndCond conditions) = check_all conditions"
| "check (OrCond conditions) = check_all conditions"
| "check (NotCond notC) = check notC"
| "check_all [] = None"
| "check_all (cond # conditions) = (case check cond of Some err \<Rightarrow> Some err | None \<Rightarrow> check_all conditions)"

subsection \<open>string\<close>

definition escapeString :: "string \<Rightarrow> string" where
  "escapeString token =
     (if ContainsAny token (''()'' @ [CHR 0x22, CHR 0x5C, CHR 0x09, CHR 0x0D, CHR 0x0A, CHR '' ''])
      then [CHR 0x22] @ ReplaceAll (CHR 0x22) [CHR 0x5C, CHR 0x22] token @ [CHR 0x22]
      else token)"

text \<open>\<open>notCond.string\<close>, given the text of the negated condition.\<close>

definition not_string :: "string \<Rightarrow> string" where
  "not_string next =
     (if HasPrefix next ''('' then ''not '' @ next
      else (let splitted = Split (CHR '' '') next in Join '' '' (hd splitted # ''not'' # tl splitted)))"

fun cond_string :: "'f query_lib \<Rightarrow> 'f condition \<Rightarrow> string" where
  "cond_string lib (IntCond key opr val) = escapeString key @ '' '' @ getOpName opr @ '' '' @ print_int (sint val)"
| "cond_string lib (FloatCond key opr val) = escapeString key @ '' '' @ getOpName opr @ '' '' @ fmt_g lib val"
| "cond_string lib (StringCond key opr val) = escapeString key @ '' '' @ getOpName opr @ '' '' @ escapeString val"
| "cond_string lib (StringSliceCond key opr val) =
     escapeString key @ '' '' @ getOpName opr @ '' '' @ escapeString (Join '','' val)"
| "cond_string lib (RegexCond key opr regex) =
     escapeString key @ '' '' @ getOpName opr @ '' '' @ escapeString (case regex of Some re \<Rightarrow> re | None \<Rightarrow> [])"
| "cond_string lib (BoolCond key opr val) = escapeString key @ '' '' @ getOpName opr @ '' '' @ print_bool val"
| "cond_string lib (ExistsCond key opr) = escapeString key @ '' '' @ getOpName opr"
| "cond_string lib (ErrorCond err) = ''[ERROR]''"
| "cond_string lib (AndCond conditions) = ''('' @ Join '' and '' (map (cond_string lib) conditions) @ '')''"
| "cond_string lib (OrCond conditions) = ''('' @ Join '' or '' (map (cond_string lib) conditions) @ '')''"
| "cond_string lib (NotCond notC) = not_string (cond_string lib notC)"

text \<open>Printing a regular expression condition whose expression was not compiled dereferences a
  nil pointer. Printing visits all conditions, so it panics if there is one.\<close>

fun string_panics :: "'f condition \<Rightarrow> bool" where
  "string_panics (RegexCond key opr regex) = (regex = None)"
| "string_panics (AndCond conditions) = list_ex string_panics conditions"
| "string_panics (OrCond conditions) = list_ex string_panics conditions"
| "string_panics (NotCond notC) = string_panics notC"
| "string_panics _ = False"

subsection \<open>Query\<close>

record 'f Query =
  checked :: bool
  q_dbName :: string
  q_dbKeyPrefix :: string
  q_where :: "'f condition option"
  q_orderBy :: string
  q_limit :: int
  q_offset :: int

definition New :: "string \<Rightarrow> 'f Query" where
  "New pfx =
     \<lparr>checked = False, q_dbName = fst (ParseKey pfx), q_dbKeyPrefix = snd (ParseKey pfx),
      q_where = None, q_orderBy = [], q_limit = 0, q_offset = 0\<rparr>"

definition Query_Where :: "'f condition \<Rightarrow> 'f Query \<Rightarrow> 'f Query" where
  "Query_Where condition q = q\<lparr>q_where := Some condition\<rparr>"

definition Limit :: "int \<Rightarrow> 'f Query \<Rightarrow> 'f Query" where
  "Limit limit q = q\<lparr>q_limit := limit\<rparr>"

definition Offset :: "int \<Rightarrow> 'f Query \<Rightarrow> 'f Query" where
  "Offset offset q = q\<lparr>q_offset := offset\<rparr>"

definition OrderBy :: "string \<Rightarrow> 'f Query \<Rightarrow> 'f Query" where
  "OrderBy key q = q\<lparr>q_orderBy := key\<rparr>"

definition Check :: "'f Query \<Rightarrow> 'f Query res" where
  "Check q =
     (if checked q then Inr q
      else case Option.bind (q_where q) check of
             Some err \<Rightarrow> Inl err
           | None \<Rightarrow> Inr (q\<lparr>checked := True\<rparr>))"

definition MustBeValid :: "'f Query \<Rightarrow> 'f Query res" where
  "MustBeValid q = (case Check q of Inl err \<Rightarrow> Inl (GoPanic (err_text err)) | Inr q' \<Rightarrow> Inr q')"

definition IsChecked :: "'f Query \<Rightarrow> bool" where
  "IsChecked q = checked q"

definition MatchesKey :: "string \<Rightarrow> 'f Query \<Rightarrow> bool" where
  "MatchesKey key q = HasPrefix key (q_dbKeyPrefix q)"

definition MatchesRecord :: "'f query_lib \<Rightarrow> 'f accessor option \<Rightarrow> 'f Query \<Rightarrow> bool" where
  "MatchesRecord lib acc q =
     (case q_where q of
        None \<Rightarrow> True
      | Some w \<Rightarrow> (case acc of None \<Rightarrow> False | Some a \<Rightarrow> complies lib a w))"

definition MatchesAccessor :: "'f query_lib \<Rightarrow> 'f accessor \<Rightarrow> 'f Query \<Rightarrow> bool" where
  "MatchesAccessor lib acc q = (case q_where q of None \<Rightarrow> True | Some w \<Rightarrow> complies lib acc w)"

definition Query_Matches :: "'f query_lib \<Rightarrow> string \<Rightarrow> 'f accessor option \<Rightarrow> 'f Query \<Rightarrow> bool" where
  "Query_Matches lib key acc q =
     (if \<not> MatchesKey key q then False else MatchesRecord lib acc q)"

definition Print_where :: "string \<Rightarrow> string" where
  "Print_where s =
     (if s \<noteq> [] then '' where '' @ (if HasPrefix s ''('' then butlast (tl s) else s) else [])"

definition Print :: "'f query_lib \<Rightarrow> 'f Query \<Rightarrow> string res" where
  "Print lib q =
     (if (case q_where q of None \<Rightarrow> False | Some w \<Rightarrow> string_panics w) then Inl nil_panic
      else Inr (''query '' @ q_dbName q @ '':'' @ q_dbKeyPrefix q @
        (case q_where q of None \<Rightarrow> [] | Some w \<Rightarrow> Print_where (cond_string lib w)) @
        (if q_orderBy q \<noteq> [] then '' orderby '' @ q_orderBy q else []) @
        (if q_limit q > 0 then '' limit '' @ print_int (q_limit q) else []) @
        (if q_offset q > 0 then '' offset '' @ print_int (q_offset q) else [])))"

definition DatabaseName :: "'f Query \<Rightarrow> string" where
  "DatabaseName q = q_dbName q"

definition DatabaseKeyPrefix :: "'f Query \<Rightarrow> string" where
  "DatabaseKeyPrefix q = q_dbKeyPrefix q"

end
