(* ===== verification/Query_Parser.thy ===== *)
theory Query_Parser
  imports Db_Query
begin

section \<open>Queries: the parser\<close>

text \<open>
  The file \<^verbatim>\<open>database/query/parser.go\<close>. Go iterates over a string rune by rune; \<open>rune_len\<close> is the
  number of bytes of the first rune, as \<open>utf8.DecodeRuneInString\<close> reports it (an invalid byte
  counts as one rune of one byte). The parser's closures over \<open>snippetsPos\<close> become a position
  that is passed on. \<open>parseAndOr\<close> calls itself for a group and goes on where the group ended;
  it is a partial function into option, and it is shown below that it always returns.
\<close>

definition is_cont :: "nat \<Rightarrow> nat \<Rightarrow> string \<Rightarrow> nat \<Rightarrow> bool" where
  "is_cont lo hi s i \<longleftrightarrow> i < length s \<and> lo \<le> (of_char (s ! i) :: nat) \<and> (of_char (s ! i) :: nat) \<le> hi"

definition rune_len :: "string \<Rightarrow> nat" where
  "rune_len s =
     (let b = (of_char (hd s) :: nat);
          c1 = (\<lambda>lo hi. is_cont lo hi s 1); c2 = is_cont 0x80 0xBF s 2; c3 = is_cont 0x80 0xBF s 3 in
      if 0xC2 \<le> b \<and> b \<le> 0xDF \<and> c1 0x80 0xBF then 2
      else if b = 0xE0 \<and> c1 0xA0 0xBF \<and> c2 then 3
      else if (0xE1 \<le> b \<and> b \<le> 0xEC \<or> b = 0xEE \<or> b = 0xEF) \<and> c1 0x80 0xBF \<and> c2 then 3
      else if b = 0xED \<and> c1 0x80 0x9F \<and> c2 then 3
      else if b = 0xF0 \<and> c1 0x90 0xBF \<and> c2 \<and> c3 then 4
      else if 0xF1 \<le> b \<and> b \<le> 0xF3 \<and> c1 0x80 0xBF \<and> c2 \<and> c3 then 4
      else if b = 0xF4 \<and> c1 0x80 0x8F \<and> c2 \<and> c3 then 4
      else 1)"

lemma rune_len_pos [simp]: "0 < rune_len s"
  by (simp add: rune_len_def Let_def)

subsection \<open>Snippets\<close>

record snippet =
  stext :: string
  globalPosition :: nat

text \<open>Every match of the expression, a backslash and a character that is none, is replaced by
  that character.\<close>

fun escapeReplacer :: "string \<Rightarrow> string" where
  "escapeReplacer (c # d # s) =
     (if c = CHR 0x5C \<and> d \<noteq> CHR 0x5C then d # escapeReplacer s else c # escapeReplacer (d # s))"
| "escapeReplacer s = s"

definition prepToken :: "string \<Rightarrow> string" where
  "prepToken s = escapeReplacer (Trim (CHR 0x22) s)"

definition slice :: "nat \<Rightarrow> nat \<Rightarrow> string \<Rightarrow> string" where
  "slice i j s = take (j - i) (drop i s)"

text \<open>
  The loop of \<open>extractSnippets\<close>: \<open>rest\<close> is the text from \<open>pos\<close> on, \<open>lastPos\<close> the value of the variable
  \<open>pos\<close> once the loop is over, and \<open>start\<close> is None for -1.
\<close>

definition end_snippet :: "string \<Rightarrow> nat option \<Rightarrow> nat \<Rightarrow> snippet list \<Rightarrow> snippet list" where
  "end_snippet txt start end_pos snippets =
     (case start of
        None \<Rightarrow> snippets
      | Some s \<Rightarrow> snippets @ [\<lparr>stext = prepToken (slice s end_pos txt), globalPosition = s + 1\<rparr>])"

function extract_loop ::
  "string \<Rightarrow> string \<Rightarrow> nat \<Rightarrow> nat \<Rightarrow> bool \<Rightarrow> nat option \<Rightarrow> bool \<Rightarrow> snippet list \<Rightarrow> snippet list res" where
  "extract_loop txt rest pos lastPos skipping start inParenthesis snippets =
     (case rest of
        [] \<Rightarrow> Inr (end_snippet txt start (lastPos + 1) snippets)
      | char # _ \<Rightarrow>
          (let rest' = drop (rune_len rest) rest; pos' = pos + rune_len rest; skipNext = (char = CHR 0x5C) in
           if skipping then extract_loop txt rest' pos' pos False start inParenthesis snippets
           else if inParenthesis then
             (if char = CHR 0x22 then
                extract_loop txt rest' pos' pos skipNext None False
                  (snippets @ [\<lparr>stext = prepToken (slice (the start + 1) pos txt), globalPosition = the start + 1\<rparr>])
              else extract_loop txt rest' pos' pos skipNext start True snippets)
           else if char \<in> {CHR 0x09, CHR 0x0A, CHR 0x0D, CHR '' '', CHR ''('', CHR '')''} then
             extract_loop txt rest' pos' pos skipNext None False
               (end_snippet txt start pos snippets @
                (if char \<in> {CHR ''('', CHR '')''}
                 then [\<lparr>stext = slice pos (pos + 1) txt, globalPosition = pos + 1\<rparr>] else []))
           else
             (let start' = (case start of None \<Rightarrow> pos | Some s \<Rightarrow> s) in
              if char = CHR 0x22 then
                if start' < pos
                then Inl (ErrNew (''parenthesis ('' @ [CHR 0x27, CHR 0x22, CHR 0x27] @
                       '') may not be used within words, please escape with '' @ [CHR 0x27, CHR 0x5C, CHR 0x27] @
                       '' (position: '' @ print_nat (pos + 1) @ '')''))
                else extract_loop txt rest' pos' pos skipNext (Some start') True snippets
              else extract_loop txt rest' pos' pos skipNext (Some start') False snippets)))"
  by pat_completeness auto
termination
  by (relation "measure (\<lambda>(_, rest, _). length rest)") (auto simp: Let_def)

declare extract_loop.simps [simp del]

definition extractSnippets :: "string \<Rightarrow> snippet list res" where
  "extractSnippets txt = extract_loop txt txt 0 0 False None False []"

subsection \<open>Conditions\<close>

text \<open>\<open>getSnippet\<close> moves the position on even when it fails; every caller but one returns the
  error at once, and that one, at the end of \<open>parseAndOr\<close>, ignores it.\<close>

definition getSnippet :: "snippet list \<Rightarrow> nat \<Rightarrow> nat \<Rightarrow> (snippet \<times> nat) res" where
  "getSnippet snippets qlen pos =
     (if pos + 1 > length snippets then Inl (ErrNew (''unexpected end at position '' @ print_nat qlen))
      else Inr (snippets ! pos, pos + 1))"

definition remainingSnippets :: "snippet list \<Rightarrow> nat \<Rightarrow> int" where
  "remainingSnippets snippets pos = int (length snippets) - int pos"

definition parse_operator ::
  "'f query_lib \<Rightarrow> snippet list \<Rightarrow> nat \<Rightarrow> snippet \<Rightarrow> snippet \<Rightarrow> bool \<Rightarrow> nat \<Rightarrow> ('f condition \<times> nat) res" where
  "parse_operator lib snippets qlen firstSnippet opName wrapInNot pos =
     (let wrap = (\<lambda>c. if wrapInNot then Not c else c) in
      case map_of operatorNames (stext opName) of
        None \<Rightarrow> Inl (ErrNew (''unknown operator at position '' @ print_nat (globalPosition opName)))
      | Some opr \<Rightarrow>
          if opr = Exists_op then Inr (wrap (Where lib (stext firstSnippet) opr VNil), pos)
          else (case getSnippet snippets qlen pos of
                  Inl err \<Rightarrow> Inl err
                | Inr (val, pos') \<Rightarrow> Inr (wrap (Where lib (stext firstSnippet) opr (VString (stext val))), pos')))"

definition parseCondition ::
  "'f query_lib \<Rightarrow> snippet list \<Rightarrow> nat \<Rightarrow> snippet \<Rightarrow> nat \<Rightarrow> ('f condition \<times> nat) res" where
  "parseCondition lib snippets qlen firstSnippet pos =
     (case getSnippet snippets qlen pos of
        Inl err \<Rightarrow> Inl err
      | Inr (opName, pos1) \<Rightarrow>
          if stext opName = ''not''
          then (case getSnippet snippets qlen pos1 of
                  Inl err \<Rightarrow> Inl err
                | Inr (opName2, pos2) \<Rightarrow> parse_operator lib snippets qlen firstSnippet opName2 True pos2)
          else parse_operator lib snippets qlen firstSnippet opName False pos1)"

text \<open>The value of \<open>parseAndOr\<close> for the conditions collected so far.\<close>

definition and_or_result :: "bool \<Rightarrow> 'f condition list \<Rightarrow> 'f condition" where
  "and_or_result isOr conditions =
     (if length conditions = 1 then hd conditions else if isOr then Or conditions else And conditions)"

definition mix_error :: "snippet \<Rightarrow> goerr" where
  "mix_error s = ErrNew (''you may not mix \"and\" and \"or\" (position: '' @ print_nat (globalPosition s) @ '')'')"

text \<open>The variables of the loop in \<open>parseAndOr\<close>.\<close>

record 'f and_or =
  isOr :: bool
  typeSet :: bool
  wrapInNot :: bool
  expectingMore :: bool
  conditions :: "'f condition list"

definition and_or_init :: "'f and_or" where
  "and_or_init = \<lparr>isOr = False, typeSet = False, wrapInNot = False, expectingMore = True, conditions = []\<rparr>"

definition add_condition :: "'f condition \<Rightarrow> bool \<Rightarrow> 'f and_or \<Rightarrow> 'f and_or" where
  "add_condition condition expecting st =
     st\<lparr>conditions := conditions st @ [if wrapInNot st then Not condition else condition],
        wrapInNot := False, expectingMore := expecting\<rparr>"

partial_function (option) parseAndOr_loop ::
  "'f query_lib \<Rightarrow> snippet list \<Rightarrow> nat \<Rightarrow> bool \<Rightarrow> 'f and_or \<Rightarrow> nat \<Rightarrow> ('f condition \<times> nat) res option" where
  "parseAndOr_loop lib snippets qlen rootCondition st pos =
     (if \<not> expectingMore st \<and> rootCondition \<and> remainingSnippets snippets pos = 0
      then Some (Inr (and_or_result (isOr st) (conditions st), pos + 1))
      else case getSnippet snippets qlen pos of
        Inl err \<Rightarrow> Some (Inl err)
      | Inr (firstSnippet, pos1) \<Rightarrow>
          if \<not> expectingMore st \<and> rootCondition \<and> stext firstSnippet \<in> {''orderby'', ''limit'', ''offset''}
          then Some (Inr (and_or_result (isOr st) (conditions st), pos1))
          else if stext firstSnippet = ''('' then
            Option.bind (parseAndOr_loop lib snippets qlen False and_or_init pos1)
              (\<lambda>r. case r of
                     Inl err \<Rightarrow> Some (Inl err)
                   | Inr (condition, pos2) \<Rightarrow>
                       parseAndOr_loop lib snippets qlen rootCondition (add_condition condition True st) pos2)
          else if stext firstSnippet = '')'' then Some (Inr (and_or_result (isOr st) (conditions st), pos1))
          else if stext firstSnippet = ''and'' then
            (if typeSet st \<and> isOr st then Some (Inl (mix_error firstSnippet))
             else parseAndOr_loop lib snippets qlen rootCondition
                    (st\<lparr>isOr := False, typeSet := True, expectingMore := True\<rparr>) pos1)
          else if stext firstSnippet = ''or'' then
            (if typeSet st \<and> \<not> isOr st then Some (Inl (mix_error firstSnippet))
             else parseAndOr_loop lib snippets qlen rootCondition
                    (st\<lparr>isOr := True, typeSet := True, expectingMore := True\<rparr>) pos1)
          else if stext firstSnippet = ''not'' then
            parseAndOr_loop lib snippets qlen rootCondition
              (st\<lparr>wrapInNot := True, expectingMore := True\<rparr>) pos1
          else
            (case parseCondition lib snippets qlen firstSnippet pos1 of
               Inl err \<Rightarrow> Some (Inl err)
             | Inr (condition, pos2) \<Rightarrow>
                 parseAndOr_loop lib snippets qlen rootCondition (add_condition condition False st) pos2))"

definition parseAndOr ::
  "'f query_lib \<Rightarrow> snippet list \<Rightarrow> nat \<Rightarrow> bool \<Rightarrow> nat \<Rightarrow> ('f condition \<times> nat) res option" where
  "parseAndOr lib snippets qlen rootCondition pos =
     parseAndOr_loop lib snippets qlen rootCondition and_or_init pos"

subsection \<open>ParseQuery\<close>

definition duplicate_clause :: "snippet \<Rightarrow> goerr" where
  "duplicate_clause command =
     ErrNew (''duplicate \"'' @ stext command @ ''\" clause found at position '' @ print_nat (globalPosition command))"

definition integer_error :: "snippet \<Rightarrow> goerr" where
  "integer_error s =
     ErrNew (''could not parse integer ('' @ stext s @ '') at position '' @ print_nat (globalPosition s))"

text \<open>One clause after its command word; the position after it and the query so far.\<close>

definition parse_clause ::
  "'f query_lib \<Rightarrow> snippet list \<Rightarrow> nat \<Rightarrow> snippet \<Rightarrow> nat \<Rightarrow> 'f Query \<Rightarrow> ('f Query \<times> nat) res option" where
  "parse_clause lib snippets qlen command pos q =
     (if stext command = ''where'' then
        (if q_where q \<noteq> None then Some (Inl (duplicate_clause command))
         else case parseAndOr lib snippets qlen True pos of
                None \<Rightarrow> None
              | Some (Inl err) \<Rightarrow> Some (Inl err)
              | Some (Inr (condition, pos')) \<Rightarrow> Some (Inr (Query_Where condition q, pos' - 1)))
      else if stext command = ''orderby'' then
        (if q_orderBy q \<noteq> [] then Some (Inl (duplicate_clause command))
         else case getSnippet snippets qlen pos of
                Inl err \<Rightarrow> Some (Inl err)
              | Inr (s, pos') \<Rightarrow> Some (Inr (OrderBy (stext s) q, pos')))
      else if stext command = ''limit'' then
        (if q_limit q \<noteq> 0 then Some (Inl (duplicate_clause command))
         else case getSnippet snippets qlen pos of
                Inl err \<Rightarrow> Some (Inl err)
              | Inr (s, pos') \<Rightarrow>
                  (case ParseUint 31 (stext s) of
                     Inl _ \<Rightarrow> Some (Inl (integer_error s))
                   | Inr limit \<Rightarrow> Some (Inr (Limit (int limit) q, pos'))))
      else if stext command = ''offset'' then
        (if q_offset q \<noteq> 0 then Some (Inl (duplicate_clause command))
         else case getSnippet snippets qlen pos of
                Inl err \<Rightarrow> Some (Inl err)
              | Inr (s, pos') \<Rightarrow>
                  (case ParseUint 31 (stext s) of
                     Inl _ \<Rightarrow> Some (Inl (integer_error s))
                   | Inr offset \<Rightarrow> Some (Inr (Offset (int offset) q, pos'))))
      else Some (Inl (ErrNew (''unknown clause \"'' @ stext command @ ''\" at position '' @
                              print_nat (globalPosition command)))))"

partial_function (option) parse_clauses ::
  "'f query_lib \<Rightarrow> snippet list \<Rightarrow> nat \<Rightarrow> nat \<Rightarrow> 'f Query \<Rightarrow> 'f Query res option" where
  "parse_clauses lib snippets qlen pos q =
     (if remainingSnippets snippets pos > 0
      then case getSnippet snippets qlen pos of
             Inl err \<Rightarrow> Some (Inl err)
           | Inr (command, pos1) \<Rightarrow>
               Option.bind (parse_clause lib snippets qlen command pos1 q)
                 (\<lambda>r. case r of
                        Inl err \<Rightarrow> Some (Inl err)
                      | Inr (q', pos2) \<Rightarrow> parse_clauses lib snippets qlen pos2 q')
      else Some (Check q))"

definition ParseQuery :: "'f query_lib \<Rightarrow> string \<Rightarrow> 'f Query res option" where
  "ParseQuery lib query =
     (case extractSnippets query of
        Inl err \<Rightarrow> Some (Inl err)
      | Inr snippets \<Rightarrow>
          (case getSnippet snippets (length query) 0 of
             Inl err \<Rightarrow> Some (Inl err)
           | Inr (queryWord, pos1) \<Rightarrow>
               if stext queryWord \<noteq> ''query''
               then Some (Inl (ErrNew ''queries must start with \"query\"''))
               else case getSnippet snippets (length query) pos1 of
                      Inl err \<Rightarrow> Some (Inl err)
                    | Inr (pfx, pos2) \<Rightarrow> parse_clauses lib snippets (length query) pos2 (New (stext pfx))))"

lemmas [code] = parseAndOr_loop.simps parse_clauses.simps

subsection \<open>The parser always returns\<close>

lemma getSnippet_cases:
  obtains (end_reached) err where "length snippets \<le> pos" "getSnippet snippets qlen pos = Inl err"
  | (snippet) "pos < length snippets" "getSnippet snippets qlen pos = Inr (snippets ! pos, pos + 1)"
  by (cases "pos < length snippets") (auto simp: getSnippet_def)

lemma getSnippet_InrD: "getSnippet snippets qlen pos = Inr (s, p) \<Longrightarrow> p = pos + 1 \<and> pos < length snippets"
  by (auto simp: getSnippet_def split: if_splits)

lemma parse_operator_pos:
  assumes "parse_operator lib snippets qlen s1 s2 b pos = Inr (c, p)" "pos \<le> length snippets"
  shows "pos \<le> p \<and> p \<le> length snippets"
  using assms by (auto simp: parse_operator_def Let_def split: option.splits if_splits sum.splits dest!: getSnippet_InrD)

lemma parseCondition_pos:
  assumes "parseCondition lib snippets qlen s pos = Inr (c, p)" "pos \<le> length snippets"
  shows "pos < p \<and> p \<le> length snippets"
  using assms
  by (auto simp: parseCondition_def split: sum.splits if_splits dest!: getSnippet_InrD parse_operator_pos)

lemma parseAndOr_loop_total:
  "\<exists>r. parseAndOr_loop lib snippets qlen root st pos = Some r \<and>
     (\<forall>c p. r = Inr (c, p) \<longrightarrow> pos < p \<and> p \<le> length snippets + 1)"
proof (induction "length snippets + 1 - pos" arbitrary: root st pos rule: less_induct)
  case less
  show ?case
  proof (cases "\<not> expectingMore st \<and> root \<and> remainingSnippets snippets pos = 0")
    case True
    then show ?thesis by (subst parseAndOr_loop.simps) (auto simp: remainingSnippets_def)
  next
    case False
    show ?thesis
    proof (cases rule: getSnippet_cases[of snippets pos qlen])
      case (end_reached err)
      with False show ?thesis by (subst parseAndOr_loop.simps) auto
    next
      case snippet
      let ?s = "snippets ! pos"
      have IH: "\<exists>r. parseAndOr_loop lib snippets qlen root' st' pos' = Some r \<and>
          (\<forall>c p. r = Inr (c, p) \<longrightarrow> pos < p \<and> p \<le> length snippets + 1)" if "pos < pos'" for root' st' pos'
        using less[of pos' root' st'] that snippet(1) by fastforce
      have group: "\<exists>r. Option.bind (parseAndOr_loop lib snippets qlen False and_or_init (pos + 1))
              (\<lambda>r. case r of Inl err \<Rightarrow> Some (Inl err)
                | Inr (condition, pos2) \<Rightarrow>
                    parseAndOr_loop lib snippets qlen root (add_condition condition True st) pos2) = Some r \<and>
            (\<forall>c p. r = Inr (c, p) \<longrightarrow> pos < p \<and> p \<le> length snippets + 1)"
        using IH[of "pos + 1" False and_or_init] IH by (fastforce split: sum.splits)
      have cond: "\<exists>r. (case parseCondition lib snippets qlen ?s (pos + 1) of
              Inl err \<Rightarrow> Some (Inl err)
            | Inr (condition, pos2) \<Rightarrow>
                parseAndOr_loop lib snippets qlen root (add_condition condition False st) pos2) = Some r \<and>
            (\<forall>c p. r = Inr (c, p) \<longrightarrow> pos < p \<and> p \<le> length snippets + 1)"
        using IH parseCondition_pos[of lib snippets qlen ?s "pos + 1"] snippet(1)
        by (auto split: sum.splits)
      show ?thesis
        using snippet False group cond IH[of "pos + 1"]
        by (subst parseAndOr_loop.simps) (auto split: if_splits)
    qed
  qed
qed

lemma parse_clause_total:
  "\<exists>r. parse_clause lib snippets qlen command pos q = Some r \<and> (\<forall>q' p. r = Inr (q', p) \<longrightarrow> pos \<le> p)"
  using parseAndOr_loop_total[of lib snippets qlen True and_or_init pos]
  by (fastforce simp: parse_clause_def parseAndOr_def split: sum.splits option.splits dest: getSnippet_InrD)

lemma parse_clauses_total: "\<exists>r. parse_clauses lib snippets qlen pos q = Some r"
proof (induction "length snippets - pos" arbitrary: pos q rule: less_induct)
  case less
  show ?case
  proof (cases rule: getSnippet_cases[of snippets pos qlen])
    case (end_reached err)
    then show ?thesis by (subst parse_clauses.simps) (simp add: remainingSnippets_def)
  next
    case snippet
    obtain r where r: "parse_clause lib snippets qlen (snippets ! pos) (pos + 1) q = Some r"
      "\<forall>q' p. r = Inr (q', p) \<longrightarrow> pos + 1 \<le> p" using parse_clause_total by blast
    have "\<exists>r'. parse_clauses lib snippets qlen p q' = Some r'" if "r = Inr (q', p)" for q' p
      using less[of p q'] r(2) that snippet(1) by auto
    then show ?thesis using snippet r(1) by (subst parse_clauses.simps) (auto split: sum.splits)
  qed
qed

subsection \<open>What a parsed query satisfies\<close>

text \<open>Only a condition that carries an error lacks its compiled expression.\<close>

fun regex_built :: "'f condition \<Rightarrow> bool" where
  "regex_built (RegexCond key opr regex) = (regex = None \<longrightarrow> opr = errorPresent)"
| "regex_built (AndCond cs) = list_all regex_built cs"
| "regex_built (OrCond cs) = list_all regex_built cs"
| "regex_built (NotCond c) = regex_built c"
| "regex_built _ = True"

lemma check_all_None: "check_all cs = None \<longleftrightarrow> (\<forall>c \<in> set cs. check c = None)"
  by (induction cs) (auto split: option.splits)

lemma checked_not_panicking: "regex_built c \<Longrightarrow> check c = None \<Longrightarrow> \<not> string_panics c"
  by (induction c rule: regex_built.induct)
     (auto simp: key_check_def check_all_None list_all_iff list_ex_iff split: if_splits)

lemma condition_built [simp]:
  "regex_built (newIntCondition lib key opr val)" "regex_built (newFloatCondition lib key opr val)"
  "regex_built (newStringCondition lib key opr val)" "regex_built (newStringSliceCondition lib key opr val)"
  "regex_built (newRegexCondition lib key opr val)" "regex_built (newBoolCondition lib key opr val)"
  "regex_built (newExistsCondition key opr)" "regex_built (newErrorCondition err)"
  by (simp_all add: newIntCondition_def newFloatCondition_def newStringCondition_def
      newStringSliceCondition_def newRegexCondition_def newBoolCondition_def newExistsCondition_def
      newErrorCondition_def Let_def split: govalue.split sum.split option.split)

lemma Where_built [simp]: "regex_built (Where lib key opr val)"
  by (simp add: Where_def)

lemma connective_built [simp]:
  "regex_built (Not c) = regex_built c" "regex_built (And cs) = list_all regex_built cs"
  "regex_built (Or cs) = list_all regex_built cs"
  by (simp_all add: Not_def And_def Or_def)

lemma parse_operator_built:
  "parse_operator lib snippets qlen s1 s2 b pos = Inr (c, p) \<Longrightarrow> regex_built c"
  by (auto simp: parse_operator_def Let_def split: option.splits if_splits sum.splits)

lemma parseCondition_built: "parseCondition lib snippets qlen s pos = Inr (c, p) \<Longrightarrow> regex_built c"
  by (auto simp: parseCondition_def split: sum.splits if_splits dest: parse_operator_built)

lemma and_or_result_built: "list_all regex_built cs \<Longrightarrow> regex_built (and_or_result b cs)"
  by (cases cs) (auto simp: and_or_result_def)

lemma add_condition_simps [simp]:
  "conditions (add_condition c b st) = conditions st @ [if wrapInNot st then Not c else c]"
  "isOr (add_condition c b st) = isOr st" "typeSet (add_condition c b st) = typeSet st"
  "wrapInNot (add_condition c b st) = False" "expectingMore (add_condition c b st) = b"
  by (simp_all add: add_condition_def)

lemma parseAndOr_loop_built:
  "parseAndOr_loop lib snippets qlen root st pos = Some r \<Longrightarrow>
   r = Inr (c, p) \<longrightarrow> list_all regex_built (conditions st) \<longrightarrow> regex_built c"
proof (induction arbitrary: c p rule: parseAndOr_loop.raw_induct[rotated, consumes 1, case_names step])
  case (step f lib snippets qlen root st pos r)
  have IH: "list_all regex_built (conditions st') \<longrightarrow> regex_built c'"
    if "f lib' snippets' qlen' root' st' pos' = Some (Inr (c', p'))" for lib' snippets' qlen' root' st' pos' c' p'
    using step.IH that by blast
  have "regex_built c" if r: "r = Inr (c, p)" and ok: "list_all regex_built (conditions st)"
    using step.hyps unfolding r using ok
    by (simp split: if_splits sum.splits prod.splits bind_splits add: and_or_result_built)
       (auto dest!: IH simp: and_or_init_def and_or_result_built dest: parseCondition_built split: if_splits)
  then show ?case by blast
qed

definition query_in_range :: "'f Query \<Rightarrow> bool" where
  "query_in_range q \<longleftrightarrow> 0 \<le> q_limit q \<and> q_limit q < 2 ^ 31 \<and> 0 \<le> q_offset q \<and> q_offset q < 2 ^ 31 \<and>
     (case q_where q of None \<Rightarrow> True | Some w \<Rightarrow> regex_built w)"

lemma ParseUint_bound: "ParseUint bits s = Inr n \<Longrightarrow> n < 2 ^ bits"
  by (auto simp: ParseUint_def split: if_splits option.splits)

lemma parse_clause_in_range:
  assumes "parse_clause lib snippets qlen command pos q = Some (Inr (q', p))" "query_in_range q"
  shows "query_in_range q'"
proof -
  have "query_in_range q'" if "parseAndOr lib snippets qlen True pos = Some (Inr (c, p'))"
      "q' = Query_Where c q" for c p'
    using parseAndOr_loop_built[of lib snippets qlen True and_or_init pos] that assms(2)
    by (auto simp: parseAndOr_def query_in_range_def Query_Where_def and_or_init_def)
  then show ?thesis using assms
    by (auto simp: parse_clause_def query_in_range_def OrderBy_def Limit_def Offset_def
        split: if_splits sum.splits option.splits dest!: ParseUint_bound)
qed

lemma Check_Inr:
  "Check q = Inr q' \<Longrightarrow> checked q' \<and> (\<not> checked q \<longrightarrow> Option.bind (q_where q) check = None) \<and> q' = q\<lparr>checked := True\<rparr>"
  by (cases q) (auto simp: Check_def split: if_splits option.splits)

lemma parse_clause_unchecked:
  "parse_clause lib snippets qlen command pos q = Some (Inr (q', p)) \<Longrightarrow> checked q' = checked q"
  by (auto simp: parse_clause_def Query_Where_def OrderBy_def Limit_def Offset_def
      split: if_splits sum.splits option.splits)

lemma parse_clauses_ok:
  "parse_clauses lib snippets qlen pos q = Some r \<Longrightarrow>
   r = Inr q' \<longrightarrow> \<not> checked q \<longrightarrow> query_in_range q \<longrightarrow>
     checked q' \<and> query_in_range q' \<and> Option.bind (q_where q') check = None"
proof (induction arbitrary: q' rule: parse_clauses.raw_induct[rotated, consumes 1, case_names step])
  case (step f lib snippets qlen pos q r)
  have IH: "\<not> checked q1 \<longrightarrow> query_in_range q1 \<longrightarrow>
      checked q2 \<and> query_in_range q2 \<and> Option.bind (q_where q2) check = None"
    if "f lib' snippets' qlen' pos' q1 = Some (Inr q2)" for lib' snippets' qlen' pos' q1 q2
    using step.IH that by blast
  have "checked q' \<and> query_in_range q' \<and> Option.bind (q_where q') check = None"
    if r: "r = Inr q'" and ok: "\<not> checked q" "query_in_range q"
  proof (cases "remainingSnippets snippets pos > 0")
    case True
    with step.hyps r obtain command pos1 q1 pos2 where
      "parse_clause lib snippets qlen command pos1 q = Some (Inr (q1, pos2))"
      "f lib snippets qlen pos2 q1 = Some (Inr q')"
      by (auto split: sum.splits prod.splits bind_splits)
    then show ?thesis using IH ok parse_clause_unchecked parse_clause_in_range by metis
  next
    case False
    with step.hyps r ok show ?thesis by (auto simp: query_in_range_def dest!: Check_Inr)
  qed
  then show ?case by blast
qed

text \<open>A library instance with integers for the floating point numbers.\<close>

definition sample_lib :: "int query_lib" where
  "sample_lib =
     \<lparr>float_zero = 0, float_of_int64 = sint, float_of_uint = uint, float_eq = (=), float_less = (<),
      float_leq = (\<le>), ParseFloat = ParseInt64, fmt_g = print_int, Quote = (\<lambda>s. s),
      regexp_Compile = (\<lambda>s. if s = ''['' then Some (ErrNew ''missing closing ]'') else None),
      regexp_MatchString = (\<lambda>re s. sublist re s)\<rparr>"

end
