(* ===== verification/Query_Roundtrip.thy ===== *)
theory Query_Roundtrip
  imports Query_Parser
begin

section \<open>Queries: what is printed is parsed back\<close>

text \<open>
  \<open>Query.Print\<close> and \<open>ParseQuery\<close> are meant to be inverse to each other. This theory shows for which
  queries they are. The relation \<open>lexes s ts\<close> says that the scanner splits the text \<open>s\<close>, in any
  context that goes on with a separator, into snippets with the texts \<open>ts\<close>; it is proved for
  words, quoted words and their compositions, and then for printed conditions. The second part
  shows that the parser rebuilds the condition from these snippets.
\<close>

subsection \<open>Scanning\<close>

definition separators :: "char set" where
  "separators = {CHR 0x09, CHR 0x0A, CHR 0x0D, CHR '' '', CHR ''('', CHR '')''}"

definition ascii :: "char \<Rightarrow> bool" where
  "ascii c \<longleftrightarrow> (of_char c :: nat) < 128"

definition word_char :: "char \<Rightarrow> bool" where
  "word_char c \<longleftrightarrow> ascii c \<and> c \<notin> separators \<and> c \<noteq> CHR 0x22 \<and> c \<noteq> CHR 0x5C"

definition plain :: "string \<Rightarrow> bool" where
  "plain s \<longleftrightarrow> s \<noteq> [] \<and> list_all word_char s"

definition at_end :: "string \<Rightarrow> bool" where
  "at_end r \<longleftrightarrow> r = [] \<or> hd r \<in> separators"

definition lexes :: "string \<Rightarrow> string list \<Rightarrow> bool" where
  "lexes s ts \<longleftrightarrow>
     (\<forall>pre r lp snippets. at_end r \<longrightarrow>
        (\<exists>snippets' lp'. map stext snippets' = ts \<and>
           extract_loop (pre @ s @ r) (s @ r) (length pre) lp False None False snippets =
           extract_loop (pre @ s @ r) r (length (pre @ s)) lp' False None False (snippets @ snippets')))"

lemma rune_len_ascii: "ascii c \<Longrightarrow> rune_len (c # s) = 1"
  by (simp add: rune_len_def ascii_def Let_def)

lemma separators_ascii: "c \<in> separators \<Longrightarrow> ascii c"
  by (auto simp: separators_def ascii_def)

lemma step_separator:
  assumes "c \<in> separators"
  shows "extract_loop txt (c # r) pos lp False start False snippets =
    extract_loop txt r (Suc pos) pos False None False
      (end_snippet txt start pos snippets @
       (if c \<in> {CHR ''('', CHR '')''} then [\<lparr>stext = slice pos (pos + 1) txt, globalPosition = pos + 1\<rparr>] else []))"
  using assms rune_len_ascii[OF separators_ascii[OF assms], of r]
  by (subst extract_loop.simps) (auto simp: separators_def)

lemma step_word:
  assumes "word_char c"
  shows "extract_loop txt (c # r) pos lp False start False snippets =
    extract_loop txt r (Suc pos) pos False (Some (case start of None \<Rightarrow> pos | Some s \<Rightarrow> s)) False snippets"
  using assms rune_len_ascii[of c r]
  by (subst extract_loop.simps) (auto simp: word_char_def separators_def Let_def)

lemma steps_word:
  "list_all word_char w \<Longrightarrow>
   extract_loop txt (w @ r) pos lp False (Some s) False snippets =
   extract_loop txt r (pos + length w) (if w = [] then lp else pos + length w - 1) False (Some s) False snippets"
proof (induction w arbitrary: pos lp)
  case (Cons c w)
  then show ?case by (cases w) (simp_all add: step_word)
qed simp

lemma prepToken_id: "CHR 0x22 \<notin> set s \<Longrightarrow> CHR 0x5C \<notin> set s \<Longrightarrow> prepToken s = s"
proof -
  have *: "CHR 0x5C \<notin> set s \<Longrightarrow> escapeReplacer s = s" for s by (induction s rule: escapeReplacer.induct) auto
  have "dropWhile (\<lambda>x. x = c) s = s" if "c \<notin> set s" for c :: char and s using that by (cases s) auto
  then show "CHR 0x22 \<notin> set s \<Longrightarrow> CHR 0x5C \<notin> set s \<Longrightarrow> prepToken s = s"
    by (simp add: prepToken_def Trim_def *)
qed

lemma plain_chars: "plain s \<Longrightarrow> CHR 0x22 \<notin> set s \<and> CHR 0x5C \<notin> set s \<and> set s \<inter> separators = {} \<and> s \<noteq> []"
  by (auto simp: plain_def word_char_def list_all_iff)

lemma slice_middle: "slice (length pre) (length pre + length w) (pre @ w @ r) = w"
  by (simp add: slice_def)

lemma lexes_plain: "plain w \<Longrightarrow> lexes w [w]"
  unfolding lexes_def
proof (intro allI impI)
  fix pre r lp and snippets :: "snippet list"
  assume w: "plain w" and r: "at_end r"
  obtain c w' where cw: "w = c # w'" using w by (cases w) (auto simp: plain_def)
  let ?txt = "pre @ w @ r" and ?s = "\<lparr>stext = w, globalPosition = length pre + 1\<rparr>"
  have wc: "word_char c" "list_all word_char w'" using w by (auto simp: plain_def cw)
  have "extract_loop ?txt (w @ r) (length pre) lp False None False snippets =
      extract_loop ?txt (w' @ r) (Suc (length pre)) (length pre) False (Some (length pre)) False snippets"
    using step_word[OF wc(1)] by (simp add: cw)
  also have "\<dots> = extract_loop ?txt r (length (pre @ w)) (length pre + length w - 1) False
      (Some (length pre)) False snippets"
    using steps_word[OF wc(2)] by (simp add: cw)
  also have "\<exists>lp'. \<dots> = extract_loop ?txt r (length (pre @ w)) lp' False None False (snippets @ [?s])"
  proof (cases r)
    case Nil
    with plain_chars[OF w] slice_middle[of pre w r] w show ?thesis
      by (subst (1 2) extract_loop.simps) (simp add: end_snippet_def prepToken_id)
  next
    case (Cons c r')
    then have "c \<in> separators" using r by (simp add: at_end_def)
    with plain_chars[OF w] slice_middle[of pre w r] show ?thesis
      by (simp add: Cons step_separator end_snippet_def prepToken_id)
  qed
  finally have "\<exists>lp'. extract_loop ?txt (w @ r) (length pre) lp False None False snippets =
      extract_loop ?txt r (length (pre @ w)) lp' False None False (snippets @ [?s])" .
  then show "\<exists>snippets' lp'. map stext snippets' = [w] \<and>
      extract_loop ?txt (w @ r) (length pre) lp False None False snippets =
      extract_loop ?txt r (length (pre @ w)) lp' False None False (snippets @ snippets')"
    by (intro exI[of _ "[?s]"]) simp
qed

lemma lexes_append:
  assumes "lexes s ts" "lexes s' ts'" "s' \<noteq> []" "hd s' \<in> separators"
  shows "lexes (s @ s') (ts @ ts')"
  unfolding lexes_def
proof (intro allI impI)
  fix pre r lp and snippets :: "snippet list"
  assume r: "at_end r"
  let ?txt = "pre @ s @ s' @ r"
  have "at_end (s' @ r)" using assms(3,4) by (simp add: at_end_def)
  with assms(1) obtain sn1 lp1 where 1: "map stext sn1 = ts"
    "extract_loop ?txt (s @ s' @ r) (length pre) lp False None False snippets =
     extract_loop ?txt (s' @ r) (length (pre @ s)) lp1 False None False (snippets @ sn1)"
    unfolding lexes_def by blast
  have "\<exists>sn2 lp2. map stext sn2 = ts' \<and>
     extract_loop ((pre @ s) @ s' @ r) (s' @ r) (length (pre @ s)) lp1 False None False (snippets @ sn1) =
     extract_loop ((pre @ s) @ s' @ r) r (length ((pre @ s) @ s')) lp2 False None False ((snippets @ sn1) @ sn2)"
    using assms(2) r unfolding lexes_def by blast
  then obtain sn2 lp2 where 2: "map stext sn2 = ts'"
    "extract_loop ?txt (s' @ r) (length (pre @ s)) lp1 False None False (snippets @ sn1) =
     extract_loop ?txt r (length (pre @ s @ s')) lp2 False None False (snippets @ sn1 @ sn2)"
    by auto
  show "\<exists>snippets' lp'. map stext snippets' = ts @ ts' \<and>
      extract_loop (pre @ (s @ s') @ r) ((s @ s') @ r) (length pre) lp False None False snippets =
      extract_loop (pre @ (s @ s') @ r) r (length (pre @ s @ s')) lp' False None False (snippets @ snippets')"
    using 1 2 by (intro exI[of _ "sn1 @ sn2"] exI[of _ lp2]) simp
qed

lemma lexes_separator:
  assumes "c \<in> separators" "lexes s ts"
  shows "lexes (c # s) ((if c \<in> {CHR ''('', CHR '')''} then [[c]] else []) @ ts)"
  unfolding lexes_def
proof (intro allI impI)
  fix pre r lp and snippets :: "snippet list"
  assume r: "at_end r"
  let ?txt = "pre @ (c # s) @ r"
  let ?sn = "if c \<in> {CHR ''('', CHR '')''} then [\<lparr>stext = [c], globalPosition = length pre + 1\<rparr>] else []"
  have sl: "slice (length pre) (length pre + 1) ?txt = [c]" by (simp add: slice_def)
  have "extract_loop ?txt ((c # s) @ r) (length pre) lp False None False snippets =
      extract_loop ?txt (s @ r) (Suc (length pre)) (length pre) False None False (snippets @ ?sn)"
    using sl by (simp add: step_separator[OF assms(1)] end_snippet_def)
  moreover have "\<exists>sn2 lp2. map stext sn2 = ts \<and>
     extract_loop ((pre @ [c]) @ s @ r) (s @ r) (length (pre @ [c])) (length pre) False None False (snippets @ ?sn) =
     extract_loop ((pre @ [c]) @ s @ r) r (length ((pre @ [c]) @ s)) lp2 False None False ((snippets @ ?sn) @ sn2)"
    using assms(2) r unfolding lexes_def by blast
  ultimately obtain sn2 lp2 where "map stext sn2 = ts"
    "extract_loop ?txt ((c # s) @ r) (length pre) lp False None False snippets =
     extract_loop ?txt r (length (pre @ c # s)) lp2 False None False (snippets @ ?sn @ sn2)"
    by auto
  then show "\<exists>snippets' lp'. map stext snippets' = (if c \<in> {CHR ''('', CHR '')''} then [[c]] else []) @ ts \<and>
      extract_loop ?txt ((c # s) @ r) (length pre) lp False None False snippets =
      extract_loop ?txt r (length (pre @ c # s)) lp' False None False (snippets @ snippets')"
    by (intro exI[of _ "?sn @ sn2"] exI[of _ lp2]) simp
qed

lemma lexes_Nil: "lexes [] []"
  unfolding lexes_def by auto

lemma lexes_space: "lexes s ts \<Longrightarrow> lexes s' ts' \<Longrightarrow> lexes (s @ CHR '' '' # s') (ts @ ts')"
  using lexes_append[of s ts "CHR '' '' # s'" ts'] lexes_separator[of "CHR '' ''" s' ts']
  by (simp add: separators_def)

lemma lexes_group: "lexes s ts \<Longrightarrow> lexes (''('' @ s @ '')'') (''('' # ts @ ['')''])"
  using lexes_append[of s ts "'')''" "['')'']"] lexes_separator[of "CHR ''(''" "s @ '')''" "ts @ ['')'']"]
    lexes_separator[of "CHR '')''" "[]" "[]"]
  by (simp add: separators_def lexes_Nil)

subsection \<open>Quoted words\<close>

text \<open>The words that survive quoting: a backslash is not escaped, and a quote at the end is
  trimmed together with the closing one.\<close>

definition token_ok :: "string \<Rightarrow> bool" where
  "token_ok s \<longleftrightarrow> s \<noteq> [] \<and> list_all ascii s \<and> CHR 0x5C \<notin> set s \<and> last s \<noteq> CHR 0x22"

abbreviation escaped :: "string \<Rightarrow> string" where
  "escaped s \<equiv> ReplaceAll (CHR 0x22) [CHR 0x5C, CHR 0x22] s"

lemma escaped_simps [simp]:
  "escaped [] = []"
  "escaped (c # s) = (if c = CHR 0x22 then [CHR 0x5C, CHR 0x22] else [c]) @ escaped s"
  by (simp_all add: ReplaceAll_def)

lemma step_quoted:
  assumes "ascii c" "c \<noteq> CHR 0x22"
  shows "extract_loop txt (c # r) pos lp False start True snippets =
    extract_loop txt r (Suc pos) pos (c = CHR 0x5C) start True snippets"
  using assms rune_len_ascii[of c r] by (subst extract_loop.simps) (simp add: Let_def)

lemma step_skip:
  assumes "ascii c"
  shows "extract_loop txt (c # r) pos lp True start inP snippets =
    extract_loop txt r (Suc pos) pos False start inP snippets"
  using assms rune_len_ascii[of c r] by (subst extract_loop.simps) (simp add: Let_def)

lemma steps_quoted:
  "list_all ascii s \<Longrightarrow> CHR 0x5C \<notin> set s \<Longrightarrow>
   \<exists>lp'. extract_loop txt (escaped s @ r) pos lp False start True snippets =
     extract_loop txt r (pos + length (escaped s)) lp' False start True snippets"
proof (induction s arbitrary: pos lp)
  case Nil
  then show ?case by auto
next
  case (Cons c s)
  have q: "ascii (CHR 0x22)" "ascii (CHR 0x5C)" by (simp_all add: ascii_def)
  from Cons q show ?case
    using Cons.IH[of "pos + 2" "pos + 1"] Cons.IH[of "pos + 1" pos]
    by (cases "c = CHR 0x22") (auto simp: step_quoted step_skip)
qed

lemma escapeReplacer_escaped: "CHR 0x5C \<notin> set s \<Longrightarrow> escapeReplacer (escaped s) = s"
proof (induction s)
  case (Cons c s)
  have *: "escapeReplacer (d # e) = d # escapeReplacer e" if "d \<noteq> CHR 0x5C" for d e
    using that by (cases e) simp_all
  show ?case
  proof (cases "c = CHR 0x22")
    case True
    with Cons show ?thesis by simp
  next
    case False
    with Cons *[of c "escaped s"] show ?thesis by auto
  qed
qed simp

lemma escaped_Nil [simp]: "escaped s = [] \<longleftrightarrow> s = []"
  by (cases s) simp_all

lemma last_escaped: "s \<noteq> [] \<Longrightarrow> last (escaped s) = last s"
proof (induction s)
  case (Cons c s)
  then show ?case by (cases "s = []") simp_all
qed simp

lemma prepToken_escaped:
  assumes "token_ok s"
  shows "prepToken (escaped s) = s"
proof -
  have ne: "escaped s \<noteq> []" using assms by (simp add: token_ok_def)
  have hd: "hd (escaped s) \<noteq> CHR 0x22" using assms by (cases s) (simp_all add: token_ok_def)
  have la: "hd (rev (escaped s)) \<noteq> CHR 0x22" using assms by (simp add: token_ok_def last_escaped hd_rev)
  have drop: "dropWhile (\<lambda>x. x = c) t = t" if "t \<noteq> []" "hd t \<noteq> c" for c :: char and t
    using that by (cases t) simp_all
  have "dropWhile (\<lambda>x. x = CHR 0x22) (escaped s) = escaped s" by (rule drop[OF ne hd])
  moreover have "dropWhile (\<lambda>x. x = CHR 0x22) (rev (escaped s)) = rev (escaped s)"
    by (rule drop[OF _ la]) (use ne in simp)
  ultimately have "Trim (CHR 0x22) (escaped s) = escaped s" by (simp add: Trim_def)
  then show ?thesis using escapeReplacer_escaped assms by (simp add: prepToken_def token_ok_def)
qed

lemma lexes_quoted:
  assumes "token_ok s"
  shows "lexes ([CHR 0x22] @ escaped s @ [CHR 0x22]) [s]"
  unfolding lexes_def
proof (intro allI impI)
  fix pre r lp and snippets :: "snippet list"
  let ?q = "[CHR 0x22] @ escaped s @ [CHR 0x22]"
  let ?txt = "pre @ ?q @ r" and ?s = "\<lparr>stext = s, globalPosition = length pre + 1\<rparr>"
  have q: "ascii (CHR 0x22)" by (simp add: ascii_def)
  have open_q: "extract_loop ?txt (?q @ r) (length pre) lp False None False snippets =
      extract_loop ?txt (escaped s @ [CHR 0x22] @ r) (Suc (length pre)) (length pre) False
        (Some (length pre)) True snippets"
    using rune_len_ascii[OF q, of "escaped s @ [CHR 0x22] @ r"]
    by (subst extract_loop.simps) (simp add: Let_def)
  obtain lp1 where body: "extract_loop ?txt (escaped s @ [CHR 0x22] @ r) (Suc (length pre)) (length pre) False
        (Some (length pre)) True snippets =
      extract_loop ?txt ([CHR 0x22] @ r) (Suc (length pre) + length (escaped s)) lp1 False (Some (length pre)) True snippets"
    using steps_quoted[of s] assms unfolding token_ok_def by blast
  have "slice (length pre + 1) (Suc (length pre) + length (escaped s)) ?txt = escaped s"
    by (simp add: slice_def)
  then have "extract_loop ?txt ([CHR 0x22] @ r) (Suc (length pre) + length (escaped s)) lp1 False
        (Some (length pre)) True snippets =
      extract_loop ?txt r (length (pre @ ?q)) (Suc (length pre) + length (escaped s)) False None False (snippets @ [?s])"
    using rune_len_ascii[OF q, of r] prepToken_escaped[OF assms]
    by (subst extract_loop.simps) (simp add: Let_def)
  with open_q body show "\<exists>snippets' lp'. map stext snippets' = [s] \<and>
      extract_loop ?txt (?q @ r) (length pre) lp False None False snippets =
      extract_loop ?txt r (length (pre @ ?q)) lp' False None False (snippets @ snippets')"
    by (intro exI[of _ "[?s]"]) auto
qed

lemma lexes_escapeString: "token_ok s \<Longrightarrow> lexes (escapeString s) [s]"
proof -
  assume s: "token_ok s"
  have "plain s" if "\<not> ContainsAny s (''()'' @ [CHR 0x22, CHR 0x5C, CHR 0x09, CHR 0x0D, CHR 0x0A, CHR '' ''])"
    using that s by (auto simp: plain_def token_ok_def ContainsAny_def list_all_iff word_char_def separators_def)
  then show ?thesis using lexes_plain lexes_quoted[OF s] by (auto simp: escapeString_def)
qed

lemma extractSnippets_lexes:
  assumes "lexes s ts"
  shows "\<exists>snippets. extractSnippets s = Inr snippets \<and> map stext snippets = ts"
proof -
  have "\<exists>sn lp'. map stext sn = ts \<and>
     extract_loop ([] @ s @ []) (s @ []) (length ([] :: string)) 0 False None False [] =
     extract_loop ([] @ s @ []) [] (length ([] @ s)) lp' False None False ([] @ sn)"
    using assms unfolding lexes_def at_end_def by blast
  then obtain sn lp' where "map stext sn = ts"
    "extractSnippets s = extract_loop s [] (length s) lp' False None False sn"
    by (auto simp: extractSnippets_def)
  then show ?thesis by (auto simp: extract_loop.simps[of s "[]"] end_snippet_def)
qed

subsection \<open>Operator names\<close>

definition int_ops :: "uint8 list" where
  "int_ops = [Equals, GreaterThan, GreaterThanOrEqual, LessThan, LessThanOrEqual]"

definition float_ops :: "uint8 list" where
  "float_ops = [FloatEquals, FloatGreaterThan, FloatGreaterThanOrEqual, FloatLessThan, FloatLessThanOrEqual]"

definition string_ops :: "uint8 list" where
  "string_ops = [SameAs, Contains_op, StartsWith, EndsWith]"

definition known_ops :: "uint8 list" where
  "known_ops = int_ops @ float_ops @ string_ops @ [In_op, Matches_op, Is_op, Exists_op]"

lemmas ops_defs = known_ops_def int_ops_def float_ops_def string_ops_def

lemma primaryNames_eq:
  "primaryNames operatorNames =
     [Equals \<mapsto> ''=='', GreaterThan \<mapsto> ''>'', GreaterThanOrEqual \<mapsto> ''>='', LessThan \<mapsto> ''<'',
      LessThanOrEqual \<mapsto> ''<='', FloatEquals \<mapsto> ''f=='', FloatGreaterThan \<mapsto> ''f>'',
      FloatGreaterThanOrEqual \<mapsto> ''f>='', FloatLessThan \<mapsto> ''f<'', FloatLessThanOrEqual \<mapsto> ''f<='',
      SameAs \<mapsto> ''sameas'', Contains_op \<mapsto> ''contains'', StartsWith \<mapsto> ''startswith'',
      EndsWith \<mapsto> ''endswith'', In_op \<mapsto> ''in'', Matches_op \<mapsto> ''matches'', Is_op \<mapsto> ''is'',
      Exists_op \<mapsto> ''exists'']"
  by (simp add: primaryNames_def operatorNames_def init_primary_def operator_defs)

lemma getOpName_eq:
  "getOpName Equals = ''==''" "getOpName GreaterThan = ''>''" "getOpName GreaterThanOrEqual = ''>=''"
  "getOpName LessThan = ''<''" "getOpName LessThanOrEqual = ''<=''" "getOpName FloatEquals = ''f==''"
  "getOpName FloatGreaterThan = ''f>''" "getOpName FloatGreaterThanOrEqual = ''f>=''"
  "getOpName FloatLessThan = ''f<''" "getOpName FloatLessThanOrEqual = ''f<=''"
  "getOpName SameAs = ''sameas''" "getOpName Contains_op = ''contains''"
  "getOpName StartsWith = ''startswith''" "getOpName EndsWith = ''endswith''" "getOpName In_op = ''in''"
  "getOpName Matches_op = ''matches''" "getOpName Is_op = ''is''" "getOpName Exists_op = ''exists''"
  by (simp_all add: getOpName_def primaryNames_eq) (simp_all add: operator_defs)

lemma getOpName_of: "opr \<in> set known_ops \<Longrightarrow> map_of operatorNames (getOpName opr) = Some opr"
  by (auto simp: ops_defs getOpName_eq operatorNames_def)

lemma getOpName_not: "opr \<in> set known_ops \<Longrightarrow> getOpName opr \<noteq> ''not''"
  by (auto simp: ops_defs getOpName_eq)

lemma getOpName_plain: "opr \<in> set known_ops \<Longrightarrow> plain (getOpName opr)"
  by (auto simp: ops_defs getOpName_eq plain_def word_char_def separators_def ascii_def)

lemma ops_known: "set int_ops \<subseteq> set known_ops" "set float_ops \<subseteq> set known_ops"
  "set string_ops \<subseteq> set known_ops" "In_op \<in> set known_ops" "Matches_op \<in> set known_ops"
  "Is_op \<in> set known_ops" "Exists_op \<in> set known_ops"
  by (auto simp: known_ops_def)

lemma no_error_op: "errorPresent \<notin> set known_ops"
  by (simp add: ops_defs operator_defs)

lemma print_nat_plain: "plain (print_nat n)"
  using print_nat_char_range[of _ n]
  by (fastforce simp: plain_def list_all_iff word_char_def ascii_def separators_def)

lemma print_int_plain: "plain (print_int i)"
  using print_nat_plain[of "nat (- i)"] print_nat_plain[of "nat i"]
  by (auto simp: print_int_def plain_def word_char_def ascii_def separators_def)

lemma print_bool_plain: "plain (print_bool b)"
  by (auto simp: print_bool_def plain_def word_char_def ascii_def separators_def)

subsection \<open>Conditions that can be printed\<close>

definition key_ok :: "string \<Rightarrow> bool" where
  "key_ok k \<longleftrightarrow> token_ok k \<and> k \<notin> {''('', '')'', ''and'', ''or'', ''not''}"

fun leaf_ok :: "'f query_lib \<Rightarrow> 'f condition \<Rightarrow> bool" where
  "leaf_ok lib (IntCond key opr val) = (key_ok key \<and> opr \<in> set int_ops)"
| "leaf_ok lib (FloatCond key opr val) =
     (key_ok key \<and> opr \<in> set float_ops \<and> plain (fmt_g lib val) \<and> ParseFloat lib (fmt_g lib val) = Inr val)"
| "leaf_ok lib (StringCond key opr val) = (key_ok key \<and> opr \<in> set string_ops \<and> token_ok val)"
| "leaf_ok lib (StringSliceCond key opr val) =
     (key_ok key \<and> opr = In_op \<and> 2 \<le> length val \<and> list_all (\<lambda>v. CHR '','' \<notin> set v) val \<and> token_ok (Join '','' val))"
| "leaf_ok lib (RegexCond key opr regex) =
     (key_ok key \<and> opr = Matches_op \<and>
      (case regex of None \<Rightarrow> False | Some re \<Rightarrow> token_ok re \<and> regexp_Compile lib re = None))"
| "leaf_ok lib (BoolCond key opr val) = (key_ok key \<and> opr = Is_op)"
| "leaf_ok lib (ExistsCond key opr) = (key_ok key \<and> opr = Exists_op)"
| "leaf_ok lib _ = False"

fun leaf_key :: "'f condition \<Rightarrow> string" where
  "leaf_key (IntCond key _ _) = key"
| "leaf_key (FloatCond key _ _) = key"
| "leaf_key (StringCond key _ _) = key"
| "leaf_key (StringSliceCond key _ _) = key"
| "leaf_key (RegexCond key _ _) = key"
| "leaf_key (BoolCond key _ _) = key"
| "leaf_key (ExistsCond key _) = key"
| "leaf_key _ = []"

fun leaf_tail :: "'f query_lib \<Rightarrow> 'f condition \<Rightarrow> string list" where
  "leaf_tail lib (IntCond _ opr val) = [getOpName opr, print_int (sint val)]"
| "leaf_tail lib (FloatCond _ opr val) = [getOpName opr, fmt_g lib val]"
| "leaf_tail lib (StringCond _ opr val) = [getOpName opr, val]"
| "leaf_tail lib (StringSliceCond _ opr val) = [getOpName opr, Join '','' val]"
| "leaf_tail lib (RegexCond _ opr regex) = [getOpName opr, the regex]"
| "leaf_tail lib (BoolCond _ opr val) = [getOpName opr, print_bool val]"
| "leaf_tail lib (ExistsCond _ opr) = [getOpName opr]"
| "leaf_tail lib _ = []"

fun is_group :: "'f condition \<Rightarrow> bool" where
  "is_group (AndCond _) = True"
| "is_group (OrCond _) = True"
| "is_group _ = False"

text \<open>
  Besides the words: a group has two members at least; a negation is one of a group or of a
  single comparison, in which case the key has no space in it.
\<close>

fun printable :: "'f query_lib \<Rightarrow> 'f condition \<Rightarrow> bool" where
  "printable lib (AndCond cs) = (2 \<le> length cs \<and> list_all (printable lib) cs)"
| "printable lib (OrCond cs) = (2 \<le> length cs \<and> list_all (printable lib) cs)"
| "printable lib (NotCond c) = (if is_group c then printable lib c else leaf_ok lib c \<and> CHR '' '' \<notin> set (leaf_key c))"
| "printable lib c = leaf_ok lib c"

fun sep_by :: "string \<Rightarrow> string list list \<Rightarrow> string list" where
  "sep_by w [] = []"
| "sep_by w [ts] = ts"
| "sep_by w (ts # us # rest) = ts @ w # sep_by w (us # rest)"

fun tokens :: "'f query_lib \<Rightarrow> 'f condition \<Rightarrow> string list" where
  "tokens lib (AndCond cs) = ''('' # sep_by ''and'' (map (tokens lib) cs) @ ['')'']"
| "tokens lib (OrCond cs) = ''('' # sep_by ''or'' (map (tokens lib) cs) @ ['')'']"
| "tokens lib (NotCond c) = (if is_group c then ''not'' # tokens lib c else leaf_key c # ''not'' # leaf_tail lib c)"
| "tokens lib c = leaf_key c # leaf_tail lib c"

lemma leaf_ok_facts:
  assumes "leaf_ok lib c"
  shows "key_ok (leaf_key c)" "printable lib c" "tokens lib c = leaf_key c # leaf_tail lib c"
    "\<not> is_group c" "check c = None" "\<not> string_panics c" "\<And>d. c \<noteq> NotCond d"
  using assms ops_known no_error_op
  by (cases c; auto simp: key_check_def split: option.splits)+

lemma leaf_string:
  assumes "leaf_ok lib c"
  obtains tl_text where "cond_string lib c = escapeString (leaf_key c) @ CHR '' '' # tl_text"
    "lexes tl_text (leaf_tail lib c)"
proof -
  have two: "lexes (getOpName opr @ CHR '' '' # v') [getOpName opr, v]"
    if "opr \<in> set known_ops" "lexes v' [v]" for opr v v'
    using lexes_space[OF lexes_plain[OF getOpName_plain[OF that(1)]] that(2)] by simp
  note words = lexes_plain[OF print_int_plain] lexes_plain[OF print_bool_plain]
  show ?thesis
  proof (cases c)
    case (IntCond k opr v)
    with assms that two[OF _ words(1)] ops_known show ?thesis by auto
  next
    case (FloatCond k opr v)
    with assms that two[OF _ lexes_plain] ops_known show ?thesis by auto
  next
    case (StringCond k opr v)
    with assms that two[OF _ lexes_escapeString] ops_known show ?thesis by auto
  next
    case (StringSliceCond k opr v)
    with assms that two[OF _ lexes_escapeString] ops_known show ?thesis by auto
  next
    case (RegexCond k opr v)
    with assms that two[OF _ lexes_escapeString] ops_known show ?thesis by (auto split: option.splits)
  next
    case (BoolCond k opr v)
    with assms that two[OF _ words(2)] ops_known show ?thesis by auto
  next
    case (ExistsCond k opr)
    with assms that lexes_plain[OF getOpName_plain] ops_known show ?thesis by auto
  qed (use assms in auto)
qed

lemma lexes_leaf:
  assumes "leaf_ok lib c"
  shows "lexes (cond_string lib c) (tokens lib c)"
proof -
  obtain s where "cond_string lib c = escapeString (leaf_key c) @ CHR '' '' # s" "lexes s (leaf_tail lib c)"
    using leaf_string[OF assms] by blast
  moreover have "lexes (escapeString (leaf_key c)) [leaf_key c]"
    using lexes_escapeString leaf_ok_facts(1)[OF assms] by (simp add: key_ok_def)
  ultimately show ?thesis using lexes_space leaf_ok_facts(3)[OF assms] by fastforce
qed

lemma escapeString_hd: "key_ok k \<Longrightarrow> escapeString k \<noteq> [] \<and> hd (escapeString k) \<noteq> CHR ''(''"
  by (cases k) (auto simp: escapeString_def key_ok_def token_ok_def ContainsAny_def)

lemma not_group_prefix: "key_ok k \<Longrightarrow> \<not> HasPrefix (escapeString k @ s) ''(''"
  using escapeString_hd[of k] by (cases "escapeString k") (auto simp: HasPrefix_take)

lemma escapeString_space: "CHR '' '' \<notin> set k \<Longrightarrow> CHR '' '' \<notin> set (escapeString k)"
  by (auto simp: escapeString_def ReplaceAll_def)

lemma Join_Cons: "ws \<noteq> [] \<Longrightarrow> Join sep (w # ws) = w @ sep @ Join sep ws"
  by (cases ws) auto

lemma not_string_leaf:
  assumes "key_ok k" "CHR '' '' \<notin> set k"
  shows "not_string (escapeString k @ CHR '' '' # s) = escapeString k @ '' not '' @ s"
  using not_group_prefix[OF assms(1)] escapeString_space[OF assms(2)]
  by (simp add: not_string_def Split_append_sep Join_Cons Join_Split)

lemma lexes_Join:
  assumes "plain w" "list_all2 lexes ss tss" "ss \<noteq> []"
  shows "lexes (Join ('' '' @ w @ '' '') ss) (sep_by w tss)"
  using assms(2,3)
proof (induction ss tss rule: list_all2_induct)
  case Nil
  then show ?case by simp
next
  case (Cons s ss ts tss)
  show ?case
  proof (cases ss)
    case Nil
    with Cons show ?thesis by simp
  next
    case (Cons s2 ss2)
    with Cons.hyps obtain ts2 tss2 where "tss = ts2 # tss2" by (auto simp: list_all2_Cons1)
    with Cons Cons.IH lexes_space[OF Cons.hyps(1) lexes_space[OF lexes_plain[OF assms(1)]]] show ?thesis
      by simp
  qed
qed

lemma lexes_condition: "printable lib c \<Longrightarrow> lexes (cond_string lib c) (tokens lib c)"
proof (induction c rule: printable.induct)
  case (1 lib cs)
  have "list_all2 lexes (map (cond_string lib) cs) (map (tokens lib) cs)"
    using 1 by (auto simp: list_all2_map1 list_all2_map2 list_all2_same list_all_iff)
  moreover have "plain ''and''" by (simp add: plain_def word_char_def ascii_def separators_def)
  ultimately show ?case using lexes_group lexes_Join[of "''and''"] "1.prems" by fastforce
next
  case (2 lib cs)
  have "list_all2 lexes (map (cond_string lib) cs) (map (tokens lib) cs)"
    using 2 by (auto simp: list_all2_map1 list_all2_map2 list_all2_same list_all_iff)
  moreover have "plain ''or''" by (simp add: plain_def word_char_def ascii_def separators_def)
  ultimately show ?case using lexes_group lexes_Join[of "''or''"] "2.prems" by fastforce
next
  case (3 lib c)
  have nw: "lexes ''not'' [''not'']"
    by (rule lexes_plain) (simp add: plain_def word_char_def ascii_def separators_def)
  show ?case
  proof (cases "is_group c")
    case True
    then have "HasPrefix (cond_string lib c) ''(''" by (cases c) (auto simp: HasPrefix_def)
    with 3 True lexes_space[OF nw] show ?thesis by (simp add: not_string_def)
  next
    case False
    with "3.prems" have ok: "leaf_ok lib c" "CHR '' '' \<notin> set (leaf_key c)" by auto
    obtain s where s: "cond_string lib c = escapeString (leaf_key c) @ CHR '' '' # s" "lexes s (leaf_tail lib c)"
      using leaf_string[OF ok(1)] by blast
    have "lexes (escapeString (leaf_key c)) [leaf_key c]"
      using lexes_escapeString leaf_ok_facts(1)[OF ok(1)] by (simp add: key_ok_def)
    from lexes_space[OF this lexes_space[OF nw s(2)]] False s(1) not_string_leaf[OF leaf_ok_facts(1)[OF ok(1)] ok(2)]
    show ?thesis by simp
  qed
qed (metis lexes_leaf printable.simps)+

subsection \<open>Parsing printed conditions\<close>

text \<open>The texts of the snippets the parser has not read yet.\<close>

abbreviation ahead :: "snippet list \<Rightarrow> nat \<Rightarrow> string list" where
  "ahead snippets pos \<equiv> drop pos (map stext snippets)"

lemma ahead_Cons:
  assumes "ahead snippets pos = t # ts"
  shows "getSnippet snippets qlen pos = Inr (snippets ! pos, pos + 1)" "stext (snippets ! pos) = t"
    "ahead snippets (pos + 1) = ts" "remainingSnippets snippets pos > 0"
proof -
  have lt: "pos < length snippets" using assms by (metis drop_all length_map linorder_not_less list.distinct(1))
  then show "getSnippet snippets qlen pos = Inr (snippets ! pos, pos + 1)" "remainingSnippets snippets pos > 0"
    by (simp_all add: getSnippet_def remainingSnippets_def)
  have "ahead snippets pos = stext (snippets ! pos) # ahead snippets (pos + 1)"
    using lt by (simp add: drop_eq_nth_Cons drop_map[symmetric])
  then show "stext (snippets ! pos) = t" "ahead snippets (pos + 1) = ts" using assms by simp_all
qed

lemma ahead_append: "ahead snippets pos = ts @ us \<Longrightarrow> ahead snippets (pos + length ts) = us"
  by (metis add.commute append_eq_conv_conj drop_drop)

lemma Where_ops:
  "opr \<in> set int_ops \<Longrightarrow> Where lib k opr v = newIntCondition lib k opr v"
  "opr \<in> set float_ops \<Longrightarrow> Where lib k opr v = newFloatCondition lib k opr v"
  "opr \<in> set string_ops \<Longrightarrow> Where lib k opr v = newStringCondition lib k opr v"
  "Where lib k In_op v = newStringSliceCondition lib k In_op v"
  "Where lib k Matches_op v = newRegexCondition lib k Matches_op v"
  "Where lib k Is_op v = newBoolCondition lib k Is_op v"
  "Where lib k Exists_op v = newExistsCondition k Exists_op"
  by (auto simp: ops_defs) (simp_all add: Where_def operator_defs)

lemma valued_ops:
  "opr \<in> set int_ops \<Longrightarrow> opr \<noteq> Exists_op" "opr \<in> set float_ops \<Longrightarrow> opr \<noteq> Exists_op"
  "opr \<in> set string_ops \<Longrightarrow> opr \<noteq> Exists_op" "In_op \<noteq> Exists_op" "Matches_op \<noteq> Exists_op"
  "Is_op \<noteq> Exists_op"
  by (auto simp: ops_defs operator_defs)

lemma Where_leaf:
  assumes "leaf_ok lib c" "leaf_tail lib c = [nm, v]"
  shows "\<exists>opr. nm = getOpName opr \<and> opr \<in> set known_ops \<and> opr \<noteq> Exists_op \<and>
    Where lib (leaf_key c) opr (VString v) = c"
proof (cases c)
  case (IntCond k opr val)
  have "ParseInt64 (print_int (sint val)) = Inr (sint val)"
    using ParseInt64_print sint_int64_range by blast
  with IntCond assms ops_known valued_ops show ?thesis
    by (intro exI[of _ opr]) (auto simp: Where_ops newIntCondition_def)
next
  case (FloatCond k opr val)
  with assms ops_known valued_ops show ?thesis
    by (intro exI[of _ opr]) (auto simp: Where_ops newFloatCondition_def)
next
  case (StringCond k opr val)
  with assms ops_known valued_ops show ?thesis
    by (intro exI[of _ opr]) (auto simp: Where_ops newStringCondition_def)
next
  case (StringSliceCond k opr val)
  have "Split (CHR '','') (Join '','' val) = val"
    using assms StringSliceCond by (intro Split_Join) (auto simp: list_all_iff)
  with StringSliceCond assms ops_known valued_ops show ?thesis
    by (intro exI[of _ opr]) (auto simp: Where_ops newStringSliceCondition_def)
next
  case (RegexCond k opr val)
  with assms ops_known valued_ops show ?thesis
    by (intro exI[of _ opr]) (auto simp: Where_ops newRegexCondition_def split: option.splits)
next
  case (BoolCond k opr val)
  with assms ops_known valued_ops show ?thesis
    by (intro exI[of _ opr]) (auto simp: Where_ops newBoolCondition_def ParseBool_print)
qed (use assms in auto)

lemma leaf_tail_cases:
  assumes "leaf_ok lib c"
  obtains (exists) k where "c = ExistsCond k Exists_op" "leaf_tail lib c = [getOpName Exists_op]"
  | (val) nm v where "leaf_tail lib c = [nm, v]"
  using assms by (cases c) auto

lemma parse_operator_leaf:
  assumes ok: "leaf_ok lib c" and key: "stext s1 = leaf_key c"
    and tl_toks: "ahead snippets pos = leaf_tail lib c @ post"
  shows "parse_operator lib snippets qlen s1 (snippets ! pos) b (pos + 1) =
    Inr (if b then Not c else c, pos + length (leaf_tail lib c))"
  using ok
proof (cases rule: leaf_tail_cases)
  case (exists k)
  note A = ahead_Cons[of pos snippets, OF tl_toks[unfolded exists(2) append_Cons]]
  have "Where lib k Exists_op VNil = c" using exists by (auto simp: Where_def operator_defs newExistsCondition_def)
  then show ?thesis using A(2) key exists getOpName_of[of Exists_op] ops_known
    by (simp add: parse_operator_def)
next
  case (val nm v)
  note A = ahead_Cons[of pos snippets, OF tl_toks[unfolded val append_Cons]]
  note B = ahead_Cons[of "pos + 1" snippets, OF A(3)]
  obtain opr where opr: "nm = getOpName opr" "opr \<in> set known_ops" "opr \<noteq> Exists_op"
    "Where lib (leaf_key c) opr (VString v) = c" using Where_leaf[OF ok val] by blast
  show ?thesis using A(2) B key opr getOpName_of[OF opr(2)] val
    by (simp add: parse_operator_def)
qed

lemma parseCondition_leaf:
  assumes ok: "leaf_ok lib c" and key: "stext s1 = leaf_key c"
  shows "ahead snippets pos = leaf_tail lib c @ post \<Longrightarrow>
      parseCondition lib snippets qlen s1 pos = Inr (c, pos + length (leaf_tail lib c))"
    and "ahead snippets pos = ''not'' # leaf_tail lib c @ post \<Longrightarrow>
      parseCondition lib snippets qlen s1 pos = Inr (Not c, pos + 1 + length (leaf_tail lib c))"
proof -
  obtain nm rest where tl_nm: "leaf_tail lib c = nm # rest" and nm: "nm \<noteq> ''not''"
    using ok
  proof (cases rule: leaf_tail_cases)
    case (exists k)
    then show ?thesis using that by (simp add: getOpName_eq)
  next
    case (val nm v)
    then show ?thesis using that Where_leaf[OF ok val] getOpName_not by auto
  qed
  show "parseCondition lib snippets qlen s1 pos = Inr (c, pos + length (leaf_tail lib c))"
    if a: "ahead snippets pos = leaf_tail lib c @ post"
    using ahead_Cons[of pos snippets nm] a tl_nm nm parse_operator_leaf[OF ok key a]
    by (simp add: parseCondition_def)
  show "parseCondition lib snippets qlen s1 pos = Inr (Not c, pos + 1 + length (leaf_tail lib c))"
    if a: "ahead snippets pos = ''not'' # leaf_tail lib c @ post"
    using ahead_Cons[OF a] ahead_Cons[of "pos + 1" snippets nm] tl_nm
      parse_operator_leaf[OF ok key, of "pos + 1" snippets post qlen True]
    by (simp add: parseCondition_def)
qed

text \<open>A member of a group after which the parser expects more, whatever follows.\<close>

fun group_like :: "'f condition \<Rightarrow> bool" where
  "group_like (NotCond c) = is_group c"
| "group_like c = is_group c"

fun is_not :: "'f condition \<Rightarrow> bool" where
  "is_not (NotCond c) = True"
| "is_not c = False"

definition parses :: "'f query_lib \<Rightarrow> 'f condition \<Rightarrow> bool" where
  "parses lib c \<longleftrightarrow>
     (\<forall>snippets qlen root st pos post.
        ahead snippets pos = tokens lib c @ post \<longrightarrow> expectingMore st \<longrightarrow> \<not> (wrapInNot st \<and> is_not c) \<longrightarrow>
        parseAndOr_loop lib snippets qlen root st pos =
        parseAndOr_loop lib snippets qlen root (add_condition c (group_like c) st) (pos + length (tokens lib c)))"

definition connect :: "bool \<Rightarrow> 'f and_or \<Rightarrow> 'f and_or" where
  "connect b st = st\<lparr>isOr := b, typeSet := True, expectingMore := True\<rparr>"

fun members :: "bool \<Rightarrow> 'f condition list \<Rightarrow> 'f and_or \<Rightarrow> 'f and_or" where
  "members b [] st = st"
| "members b [c] st = add_condition c (group_like c) st"
| "members b (c # d # cs) st = members b (d # cs) (connect b (add_condition c (group_like c) st))"

lemma members_simps:
  "\<not> wrapInNot st \<Longrightarrow> conditions (members b cs st) = conditions st @ cs"
  "cs \<noteq> [] \<Longrightarrow> expectingMore (members b cs st) = group_like (last cs)"
  "2 \<le> length cs \<or> isOr st = b \<Longrightarrow> isOr (members b cs st) = b"
  "\<not> wrapInNot st \<Longrightarrow> \<not> wrapInNot (members b cs st)"
  by (induction b cs st rule: members.induct) (auto simp: connect_def)

lemma step_connective:
  assumes "ahead snippets pos = (if b then ''or'' else ''and'') # ts" "typeSet st \<longrightarrow> isOr st = b"
  shows "parseAndOr_loop lib snippets qlen root st pos = parseAndOr_loop lib snippets qlen root (connect b st) (pos + 1)"
  using ahead_Cons[OF assms(1)] assms(2)
  by (subst parseAndOr_loop.simps) (auto simp: connect_def)

lemma parses_members:
  assumes "\<And>c. c \<in> set cs \<Longrightarrow> parses lib c" "cs \<noteq> []"
    and "ahead snippets pos = sep_by (if b then ''or'' else ''and'') (map (tokens lib) cs) @ post"
    and "expectingMore st" "\<not> wrapInNot st" "typeSet st \<longrightarrow> isOr st = b"
  shows "parseAndOr_loop lib snippets qlen root st pos =
    parseAndOr_loop lib snippets qlen root (members b cs st)
      (pos + length (sep_by (if b then ''or'' else ''and'') (map (tokens lib) cs)))"
  using assms
proof (induction b cs st arbitrary: pos rule: members.induct)
  case (2 b c st)
  then show ?case by (simp add: parses_def)
next
  case (3 b c d cs st)
  let ?w = "if b then ''or'' else ''and''" and ?st = "add_condition c (group_like c) st"
  let ?ts = "sep_by ?w (map (tokens lib) (d # cs))"
  have ah: "ahead snippets pos = tokens lib c @ ?w # ?ts @ post" using "3.prems"(3) by simp
  have "parseAndOr_loop lib snippets qlen root st pos =
      parseAndOr_loop lib snippets qlen root ?st (pos + length (tokens lib c))"
    using "3.prems"(1)[of c] "3.prems"(4,5) ah unfolding parses_def by simp
  also have "\<dots> = parseAndOr_loop lib snippets qlen root (connect b ?st) (pos + length (tokens lib c) + 1)"
    using step_connective[OF ahead_append[OF ah], of ?st] "3.prems"(6) by simp
  also have "\<dots> = parseAndOr_loop lib snippets qlen root (members b (d # cs) (connect b ?st))
      (pos + length (tokens lib c) + 1 + length ?ts)"
    using "3.prems"(1) ahead_Cons(3)[OF ahead_append[OF ah]]
    by (intro "3.IH") (auto simp: connect_def)
  finally show ?case by (simp add: add.assoc)
qed simp

lemma group_result:
  assumes "\<And>c. c \<in> set cs \<Longrightarrow> parses lib c" "2 \<le> length cs"
    and "ahead snippets pos = sep_by (if b then ''or'' else ''and'') (map (tokens lib) cs) @ '')'' # post"
  shows "parseAndOr_loop lib snippets qlen False and_or_init pos =
    Some (Inr (if b then Or cs else And cs,
      pos + length (sep_by (if b then ''or'' else ''and'') (map (tokens lib) cs)) + 1))"
proof -
  let ?st = "members b cs and_or_init" and ?ts = "sep_by (if b then ''or'' else ''and'') (map (tokens lib) cs)"
  have "parseAndOr_loop lib snippets qlen False and_or_init pos =
      parseAndOr_loop lib snippets qlen False ?st (pos + length ?ts)"
    using assms by (intro parses_members) (auto simp: and_or_init_def)
  also have "\<dots> = Some (Inr (and_or_result (isOr ?st) (conditions ?st), pos + length ?ts + 1))"
    using ahead_Cons[OF ahead_append[OF assms(3)]]
    by (subst parseAndOr_loop.simps) auto
  finally show ?thesis
    using assms(2) members_simps(1)[of and_or_init b cs] members_simps(3)[of cs and_or_init b]
    by (auto simp: and_or_result_def and_or_init_def)
qed

lemma step_group:
  assumes "ahead snippets pos = ''('' # ts"
    and "parseAndOr_loop lib snippets qlen False and_or_init (pos + 1) = Some (Inr (c, p))" "expectingMore st"
  shows "parseAndOr_loop lib snippets qlen root st pos =
    parseAndOr_loop lib snippets qlen root (add_condition c True st) p"
  using ahead_Cons[OF assms(1)] assms(2,3)
  by (subst parseAndOr_loop.simps) auto

lemma parses_groupI:
  assumes "\<And>c. c \<in> set cs \<Longrightarrow> parses lib c" "2 \<le> length cs"
    and c: "c = (if b then Or cs else And cs)"
  shows "parses lib c"
  unfolding parses_def
proof (intro allI impI)
  fix snippets qlen root and st :: "'a and_or" and pos post
  assume a: "ahead snippets pos = tokens lib c @ post" and st: "expectingMore st"
  let ?ts = "sep_by (if b then ''or'' else ''and'') (map (tokens lib) cs)"
  have 1: "ahead snippets pos = ''('' # ?ts @ '')'' # post" using a by (simp add: c And_def Or_def)
  have len: "length (tokens lib c) = length ?ts + 2" by (simp add: c And_def Or_def)
  show "parseAndOr_loop lib snippets qlen root st pos =
      parseAndOr_loop lib snippets qlen root (add_condition c (group_like c) st) (pos + length (tokens lib c))"
    using step_group[OF 1 group_result[OF assms(1,2) ahead_Cons(3)[OF 1]] st]
    by (simp add: c len) (simp add: c And_def Or_def)
qed

lemma parses_group:
  assumes "\<And>c. c \<in> set cs \<Longrightarrow> parses lib c" "2 \<le> length cs"
  shows "parses lib (AndCond cs)" "parses lib (OrCond cs)"
  using parses_groupI[OF assms, of _ False] parses_groupI[OF assms, of _ True] by (simp_all add: And_def Or_def)

lemma parses_not_group:
  assumes "parses lib c" "is_group c"
  shows "parses lib (NotCond c)"
  unfolding parses_def
proof (intro allI impI)
  fix snippets qlen root and st :: "'a and_or" and pos post
  assume a: "ahead snippets pos = tokens lib (NotCond c) @ post" and st: "expectingMore st"
    and "\<not> (wrapInNot st \<and> is_not (NotCond c))"
  then have nw: "\<not> wrapInNot st" by simp
  let ?st = "st\<lparr>wrapInNot := True, expectingMore := True\<rparr>"
  have 1: "ahead snippets pos = ''not'' # tokens lib c @ post" using a assms(2) by simp
  have g: "group_like c" "\<not> is_not c" using assms(2) by (cases c; simp)+
  have "parseAndOr_loop lib snippets qlen root st pos = parseAndOr_loop lib snippets qlen root ?st (pos + 1)"
    using ahead_Cons[OF 1] st by (subst parseAndOr_loop.simps) auto
  also have "\<dots> = parseAndOr_loop lib snippets qlen root (add_condition c (group_like c) ?st) (pos + 1 + length (tokens lib c))"
    using assms(1) ahead_Cons(3)[OF 1] g(2) unfolding parses_def by simp
  also have "add_condition c (group_like c) ?st = add_condition (NotCond c) (group_like (NotCond c)) st"
    using nw g assms(2) by (simp add: add_condition_def Not_def)
  finally show "parseAndOr_loop lib snippets qlen root st pos =
      parseAndOr_loop lib snippets qlen root (add_condition (NotCond c) (group_like (NotCond c)) st)
        (pos + length (tokens lib (NotCond c)))"
    using assms(2) by simp
qed

lemma step_condition:
  assumes "ahead snippets pos = k # ts" "k \<notin> {''('', '')'', ''and'', ''or'', ''not''}" "expectingMore st"
    and "parseCondition lib snippets qlen (snippets ! pos) (pos + 1) = Inr (c, p)"
  shows "parseAndOr_loop lib snippets qlen root st pos =
    parseAndOr_loop lib snippets qlen root (add_condition c False st) p"
  using ahead_Cons[OF assms(1)] assms(2,3,4)
  by (subst parseAndOr_loop.simps) auto

lemma parses_leaf:
  assumes ok: "leaf_ok lib c"
  shows "parses lib c" "parses lib (NotCond c)"
proof -
  note F = leaf_ok_facts[OF ok]
  have key: "leaf_key c \<notin> {''('', '')'', ''and'', ''or'', ''not''}" using F(1) by (simp add: key_ok_def)
  have gl: "\<not> group_like c" "\<not> group_like (NotCond c)" using F(4,7) by (cases c; auto)+
  show "parses lib c" unfolding parses_def
  proof (intro allI impI)
    fix snippets qlen root and st :: "'a and_or" and pos post
    assume "ahead snippets pos = tokens lib c @ post" and st: "expectingMore st"
    then have a: "ahead snippets pos = leaf_key c # leaf_tail lib c @ post" by (simp add: F(3))
    from step_condition[OF a key st parseCondition_leaf(1)[OF ok ahead_Cons(2)[OF a] ahead_Cons(3)[OF a]]]
    show "parseAndOr_loop lib snippets qlen root st pos = parseAndOr_loop lib snippets qlen root
        (add_condition c (group_like c) st) (pos + length (tokens lib c))" by (simp add: F(3) gl)
  qed
  show "parses lib (NotCond c)" unfolding parses_def
  proof (intro allI impI)
    fix snippets qlen root and st :: "'a and_or" and pos post
    assume "ahead snippets pos = tokens lib (NotCond c) @ post" and st: "expectingMore st"
    then have a: "ahead snippets pos = leaf_key c # ''not'' # leaf_tail lib c @ post" by (simp add: F(4))
    from step_condition[OF a key st parseCondition_leaf(2)[OF ok ahead_Cons(2)[OF a] ahead_Cons(3)[OF a]]]
    show "parseAndOr_loop lib snippets qlen root st pos = parseAndOr_loop lib snippets qlen root
        (add_condition (NotCond c) (group_like (NotCond c)) st) (pos + length (tokens lib (NotCond c)))"
      using gl(2) by (simp add: F(4) Not_def)
  qed
qed

lemma printable_parses: "printable lib c \<Longrightarrow> parses lib c"
proof (induction c rule: printable.induct)
  case (1 lib cs)
  then show ?case by (intro parses_group) (auto simp: list_all_iff)
next
  case (2 lib cs)
  then show ?case by (intro parses_group) (auto simp: list_all_iff)
next
  case (3 lib c)
  then show ?case using parses_not_group parses_leaf(2) by (auto split: if_splits)
qed (use parses_leaf(1) in \<open>auto simp del: leaf_ok.simps\<close>)

subsection \<open>Whole queries\<close>

text \<open>The condition of a query must not end with a group: after a closing parenthesis the parser
  expects another condition, although the text is over.\<close>

fun root_ok :: "'f query_lib \<Rightarrow> 'f condition \<Rightarrow> bool" where
  "root_ok lib (AndCond cs) = (printable lib (AndCond cs) \<and> \<not> group_like (last cs))"
| "root_ok lib (OrCond cs) = (printable lib (OrCond cs) \<and> \<not> group_like (last cs))"
| "root_ok lib c = (printable lib c \<and> \<not> group_like c)"

fun root_tokens :: "'f query_lib \<Rightarrow> 'f condition \<Rightarrow> string list" where
  "root_tokens lib (AndCond cs) = sep_by ''and'' (map (tokens lib) cs)"
| "root_tokens lib (OrCond cs) = sep_by ''or'' (map (tokens lib) cs)"
| "root_tokens lib c = tokens lib c"

definition query_ok :: "'f query_lib \<Rightarrow> 'f Query \<Rightarrow> bool" where
  "query_ok lib q \<longleftrightarrow>
     CHR '':'' \<notin> set (q_dbName q) \<and> plain (q_dbName q @ '':'' @ q_dbKeyPrefix q) \<and>
     (case q_where q of None \<Rightarrow> True | Some w \<Rightarrow> root_ok lib w) \<and>
     (q_orderBy q = [] \<or> plain (q_orderBy q)) \<and>
     0 \<le> q_limit q \<and> q_limit q < 2 ^ 31 \<and> 0 \<le> q_offset q \<and> q_offset q < 2 ^ 31"

lemma printable_no_panic: "printable lib c \<Longrightarrow> \<not> string_panics c \<and> check c = None"
proof (induction c rule: printable.induct)
  case (1 lib cs)
  then show ?case by (auto simp: list_all_iff list_ex_iff check_all_None)
next
  case (2 lib cs)
  then show ?case by (auto simp: list_all_iff list_ex_iff check_all_None)
next
  case (3 lib c)
  then show ?case using leaf_ok_facts(5,6)[of lib c] by (auto split: if_splits)
qed (metis leaf_ok_facts(5,6) printable.simps)+

lemma root_ok_printable: "root_ok lib c \<Longrightarrow> printable lib c"
  by (cases c) auto

lemma lexes_members:
  assumes "list_all (printable lib) cs" "2 \<le> length cs" "plain w"
  shows "lexes (Join ('' '' @ w @ '' '') (map (cond_string lib) cs)) (sep_by w (map (tokens lib) cs))"
  using assms lexes_condition
  by (intro lexes_Join) (auto simp: list_all2_map1 list_all2_map2 list_all2_same list_all_iff)

lemma lexes_root:
  assumes "root_ok lib c"
  shows "\<exists>s. Print_where (cond_string lib c) = '' where '' @ s \<and> lexes s (root_tokens lib c)"
proof -
  have w: "plain ''and''" "plain ''or''" by (simp_all add: plain_def word_char_def ascii_def separators_def)
  have leaf: ?thesis if "lexes (cond_string lib c) (tokens lib c)" "root_tokens lib c = tokens lib c"
      "\<exists>s k. key_ok k \<and> cond_string lib c = escapeString k @ s"
    using that not_group_prefix escapeString_hd by (auto simp: Print_where_def)
  show ?thesis
  proof (cases "is_group c")
    case True
    then show ?thesis using lexes_members[OF _ _ w(1)] lexes_members[OF _ _ w(2)] assms
      by (cases c) (auto simp: Print_where_def HasPrefix_def butlast_append)
  next
    case False
    then have rt: "root_tokens lib c = tokens lib c" and p: "printable lib c" "\<not> group_like c"
      using assms by (cases c; auto)+
    have "\<exists>s k. key_ok k \<and> cond_string lib c = escapeString k @ s"
    proof (cases "is_not c")
      case True
      then obtain d where d: "c = NotCond d" by (cases c) auto
      with p have ok: "leaf_ok lib d" "CHR '' '' \<notin> set (leaf_key d)" by auto
      with not_string_leaf[OF leaf_ok_facts(1)[OF ok(1)] ok(2)] leaf_string[OF ok(1)] leaf_ok_facts(1)[OF ok(1)]
      show ?thesis by (metis cond_string.simps(11) d)
    next
      case n: False
      with p False have "leaf_ok lib c" by (cases c) auto
      then show ?thesis using leaf_string leaf_ok_facts(1) by metis
    qed
    then show ?thesis using leaf[OF lexes_condition[OF p(1)] rt] by blast
  qed
qed

lemma step_end:
  assumes "\<not> expectingMore st" "ahead snippets pos = [] \<or> hd (ahead snippets pos) \<in> {''orderby'', ''limit'', ''offset''}"
    and "pos \<le> length snippets"
  shows "parseAndOr_loop lib snippets qlen True st pos = Some (Inr (and_or_result (isOr st) (conditions st), pos + 1))"
proof (cases "ahead snippets pos")
  case Nil
  then have "remainingSnippets snippets pos = 0" using assms(3) by (simp add: remainingSnippets_def)
  then show ?thesis using assms(1) by (subst parseAndOr_loop.simps) simp
next
  case (Cons t ts)
  then show ?thesis using ahead_Cons[OF Cons] assms(1,2) by (subst parseAndOr_loop.simps) auto
qed

lemma parse_root:
  assumes ok: "root_ok lib c" and a: "ahead snippets pos = root_tokens lib c @ post"
    and post: "post = [] \<or> hd post \<in> {''orderby'', ''limit'', ''offset''}" and "pos \<le> length snippets"
  shows "parseAndOr lib snippets qlen True pos = Some (Inr (c, pos + length (root_tokens lib c) + 1))"
proof -
  have le: "pos + length (root_tokens lib c) \<le> length snippets"
    using arg_cong[OF a, of length] assms(4) by simp
  have aft: "ahead snippets (pos + length (root_tokens lib c)) = post" by (rule ahead_append[OF a])
  have group: ?thesis if c: "c = (if b then OrCond cs else AndCond cs)" for b cs
  proof -
    let ?st = "members b cs and_or_init"
    have cs: "2 \<le> length cs" "list_all (printable lib) cs" "\<not> group_like (last cs)"
      using ok by (auto simp: c split: if_splits)
    then have ne: "cs \<noteq> []" by auto
    have all: "\<And>c. c \<in> set cs \<Longrightarrow> parses lib c" using printable_parses cs(2) by (auto simp: list_all_iff)
    have "parseAndOr_loop lib snippets qlen True and_or_init pos =
        parseAndOr_loop lib snippets qlen True ?st (pos + length (root_tokens lib c))"
      using parses_members[OF all ne, of pos snippets b post and_or_init qlen True] a
      by (auto simp: and_or_init_def c)
    also have "\<dots> = Some (Inr (and_or_result (isOr ?st) (conditions ?st), pos + length (root_tokens lib c) + 1))"
      using cs ne post aft le members_simps(2)[of cs b and_or_init] by (intro step_end) auto
    finally show ?thesis
      using cs members_simps(1)[of and_or_init b cs] members_simps(3)[of cs and_or_init b]
      by (auto simp: parseAndOr_def and_or_result_def and_or_init_def c And_def Or_def)
  qed
  show ?thesis
  proof (cases "is_group c")
    case True
    then show ?thesis using group[of True] group[of False] by (cases c) auto
  next
    case False
    then have rt: "root_tokens lib c = tokens lib c" and p: "printable lib c" "\<not> group_like c"
      using ok by (cases c; auto)+
    have "parseAndOr_loop lib snippets qlen True and_or_init pos =
        parseAndOr_loop lib snippets qlen True (add_condition c False and_or_init) (pos + length (tokens lib c))"
      using printable_parses[OF p(1)] a rt p(2) unfolding parses_def by (simp add: and_or_init_def)
    also have "\<dots> = Some (Inr (and_or_result (isOr (add_condition c False and_or_init))
        (conditions (add_condition c False and_or_init)), pos + length (tokens lib c) + 1))"
      using post aft le rt by (intro step_end) auto
    finally show ?thesis by (simp add: parseAndOr_def rt and_or_init_def and_or_result_def)
  qed
qed

definition clause_tokens :: "'f query_lib \<Rightarrow> 'f Query \<Rightarrow> string list list" where
  "clause_tokens lib q =
     [case q_where q of None \<Rightarrow> [] | Some w \<Rightarrow> ''where'' # root_tokens lib w,
      if q_orderBy q \<noteq> [] then [''orderby'', q_orderBy q] else [],
      if q_limit q > 0 then [''limit'', print_int (q_limit q)] else [],
      if q_offset q > 0 then [''offset'', print_int (q_offset q)] else []]"

lemma lexes_optional:
  assumes "lexes s ts" "plain w" "c \<longrightarrow> plain v"
  shows "lexes (s @ (if c then '' '' @ w @ '' '' @ v else [])) (ts @ (if c then [w, v] else []))"
  using lexes_space[OF assms(1) lexes_space[OF lexes_plain lexes_plain]] assms(1-3) by auto

lemma lexes_query:
  assumes "query_ok lib q" "Print lib q = Inr s"
  shows "lexes s ([''query'', q_dbName q @ '':'' @ q_dbKeyPrefix q] @ concat (clause_tokens lib q))"
proof -
  have w: "plain ''query''" "plain ''orderby''" "plain ''limit''" "plain ''offset''" "plain ''where''"
    by (simp_all add: plain_def word_char_def ascii_def separators_def)
  let ?db = "q_dbName q @ '':'' @ q_dbKeyPrefix q"
  let ?w = "case q_where q of None \<Rightarrow> [] | Some w \<Rightarrow> Print_where (cond_string lib w)"
  have 0: "lexes (''query '' @ ?db) [''query'', ?db]"
    using lexes_space[OF lexes_plain[OF w(1)] lexes_plain[of ?db]] assms(1) by (simp add: query_ok_def)
  have 1: "lexes (''query '' @ ?db @ ?w)
      ([''query'', ?db] @ (case q_where q of None \<Rightarrow> [] | Some w \<Rightarrow> ''where'' # root_tokens lib w))"
  proof (cases "q_where q")
    case None
    then show ?thesis using 0 by simp
  next
    case (Some c)
    then obtain t where "Print_where (cond_string lib c) = '' where '' @ t" "lexes t (root_tokens lib c)"
      using lexes_root assms(1) by (fastforce simp: query_ok_def)
    then show ?thesis using lexes_space[OF 0 lexes_space[OF lexes_plain[OF w(5)]]] Some by simp
  qed
  have ob: "q_orderBy q \<noteq> [] \<longrightarrow> plain (q_orderBy q)" using assms(1) by (auto simp: query_ok_def)
  note 2 = lexes_optional[OF 1, of "''orderby''" "q_orderBy q \<noteq> []" "q_orderBy q", OF w(2) ob]
  note 3 = lexes_optional[OF 2, of "''limit''" "q_limit q > 0", OF w(3) impI[OF print_int_plain]]
  note 4 = lexes_optional[OF 3, of "''offset''" "q_offset q > 0", OF w(4) impI[OF print_int_plain]]
  have s: "s = (((''query '' @ ?db @ ?w) @ (if q_orderBy q \<noteq> [] then '' '' @ ''orderby'' @ '' '' @ q_orderBy q else [])) @
      (if q_limit q > 0 then '' '' @ ''limit'' @ '' '' @ print_int (q_limit q) else [])) @
      (if q_offset q > 0 then '' '' @ ''offset'' @ '' '' @ print_int (q_offset q) else [])"
    using assms(2) by (auto simp: Print_def split: if_splits)
  show ?thesis unfolding s
    using 4 by (simp add: clause_tokens_def)
qed

lemma Print_query_ok:
  assumes "query_ok lib q"
  shows "\<exists>s. Print lib q = Inr s" "Option.bind (q_where q) check = None"
  using assms printable_no_panic root_ok_printable
  by (fastforce simp: Print_def query_ok_def split: option.splits)+

lemma step_clause:
  assumes "ahead snippets pos = cmd # ts" "parse_clause lib snippets qlen (snippets ! pos) (pos + 1) q = Some (Inr (q', p))"
  shows "parse_clauses lib snippets qlen pos q = parse_clauses lib snippets qlen p q'"
  using ahead_Cons[OF assms(1)] assms(2) by (subst parse_clauses.simps) simp

lemma clause_where:
  assumes a: "ahead snippets pos = ''where'' # root_tokens lib c @ post" and c: "root_ok lib c" "q_where q = None"
    and post: "post = [] \<or> hd post \<in> {''orderby'', ''limit'', ''offset''}"
  shows "parse_clauses lib snippets qlen pos q =
    parse_clauses lib snippets qlen (pos + 1 + length (root_tokens lib c)) (Query_Where c q)"
proof -
  have "pos + 1 \<le> length snippets"
    using arg_cong[OF a, of length] by simp
  then show ?thesis
    using parse_root[OF c(1) ahead_Cons(3)[OF a] post] ahead_Cons(2)[OF a] c(2)
    by (intro step_clause[OF a]) (simp add: parse_clause_def)
qed

lemma clause_orderby:
  assumes a: "ahead snippets pos = ''orderby'' # v # post" and "q_orderBy q = []"
  shows "parse_clauses lib snippets qlen pos q = parse_clauses lib snippets qlen (pos + 2) (OrderBy v q)"
  using ahead_Cons[OF a] ahead_Cons[OF ahead_Cons(3)[OF a]] assms(2)
  by (intro step_clause[OF a]) (simp add: parse_clause_def)

lemma ParseUint_print_int: "0 \<le> i \<Longrightarrow> i < 2 ^ 31 \<Longrightarrow> ParseUint 31 (print_int i) = Inr (nat i)"
  by (simp add: print_int_def ParseUint_print nat_less_iff)

lemma clause_limit:
  assumes a: "ahead snippets pos = ''limit'' # print_int i # post" and "q_limit q = 0" "0 \<le> i" "i < 2 ^ 31"
  shows "parse_clauses lib snippets qlen pos q = parse_clauses lib snippets qlen (pos + 2) (Limit i q)"
  using ahead_Cons[OF a] ahead_Cons[OF ahead_Cons(3)[OF a]] assms(2,3) ParseUint_print_int[OF assms(3,4)]
  by (intro step_clause[OF a]) (simp add: parse_clause_def)

lemma clause_offset:
  assumes a: "ahead snippets pos = ''offset'' # print_int i # post" and "q_offset q = 0" "0 \<le> i" "i < 2 ^ 31"
  shows "parse_clauses lib snippets qlen pos q = parse_clauses lib snippets qlen (pos + 2) (Offset i q)"
  using ahead_Cons[OF a] ahead_Cons[OF ahead_Cons(3)[OF a]] assms(2,3) ParseUint_print_int[OF assms(3,4)]
  by (intro step_clause[OF a]) (simp add: parse_clause_def)

lemma optional_where:
  assumes a: "ahead snippets pos = (case wh of None \<Rightarrow> [] | Some w \<Rightarrow> ''where'' # root_tokens lib w) @ post"
    and "q_where q = None" "case wh of None \<Rightarrow> True | Some w \<Rightarrow> root_ok lib w"
    and post: "post = [] \<or> hd post \<in> {''orderby'', ''limit'', ''offset''}"
  shows "parse_clauses lib snippets qlen pos q =
    parse_clauses lib snippets qlen
      (pos + length (case wh of None \<Rightarrow> [] | Some w \<Rightarrow> ''where'' # root_tokens lib w)) (q\<lparr>q_where := wh\<rparr>)"
proof (cases wh)
  case None
  then show ?thesis using assms(2) by (cases q) simp
next
  case (Some c)
  then show ?thesis using clause_where[of pos snippets lib c post q qlen] assms by (simp add: Query_Where_def)
qed

lemma optional_orderby:
  assumes "ahead snippets pos = (if v \<noteq> [] then [''orderby'', v] else []) @ post" "q_orderBy q = []"
  shows "parse_clauses lib snippets qlen pos q =
    parse_clauses lib snippets qlen (pos + length (if v \<noteq> [] then [''orderby'', v] else [])) (q\<lparr>q_orderBy := v\<rparr>)"
  using clause_orderby[of pos snippets v post q] assms by (cases q) (simp add: OrderBy_def split: if_splits)

lemma optional_limit:
  assumes "ahead snippets pos = (if i > 0 then [''limit'', print_int i] else []) @ post" "q_limit q = 0"
    and "0 \<le> i" "i < 2 ^ 31"
  shows "parse_clauses lib snippets qlen pos q =
    parse_clauses lib snippets qlen (pos + length (if i > 0 then [''limit'', print_int i] else [])) (q\<lparr>q_limit := i\<rparr>)"
  using clause_limit[of pos snippets i post q] assms by (cases q; cases "i > 0") (simp_all add: Limit_def)

lemma optional_offset:
  assumes "ahead snippets pos = (if i > 0 then [''offset'', print_int i] else [])" "q_offset q = 0"
    and "0 \<le> i" "i < 2 ^ 31"
  shows "parse_clauses lib snippets qlen pos q =
    parse_clauses lib snippets qlen (pos + length (if i > 0 then [''offset'', print_int i] else [])) (q\<lparr>q_offset := i\<rparr>)"
  using clause_offset[of pos snippets i "[]" q] assms by (cases q; cases "i > 0") (simp_all add: Offset_def)

lemma parse_clauses_end: "length snippets \<le> pos \<Longrightarrow> parse_clauses lib snippets qlen pos q = Some (Check q)"
  by (subst parse_clauses.simps) (simp add: remainingSnippets_def)

lemma parse_printed_clauses:
  assumes ok: "query_ok lib q"
    and a: "ahead snippets pos = concat (clause_tokens lib q)" and pos: "pos \<le> length snippets"
    and q0: "q_where q0 = None" "q_orderBy q0 = []" "q_limit q0 = 0" "q_offset q0 = 0"
  shows "parse_clauses lib snippets qlen pos q0 =
    Some (Check (q0\<lparr>q_where := q_where q, q_orderBy := q_orderBy q, q_limit := q_limit q, q_offset := q_offset q\<rparr>))"
proof -
  let ?W = "case q_where q of None \<Rightarrow> [] | Some w \<Rightarrow> ''where'' # root_tokens lib w"
  let ?O = "if q_orderBy q \<noteq> [] then [''orderby'', q_orderBy q] else []"
  let ?L = "if q_limit q > 0 then [''limit'', print_int (q_limit q)] else []"
  let ?F = "if q_offset q > 0 then [''offset'', print_int (q_offset q)] else []"
  let ?P = "parse_clauses lib snippets qlen"
  have a0: "ahead snippets pos = ?W @ ?O @ ?L @ ?F" using a by (simp add: clause_tokens_def)
  note a1 = ahead_append[OF a0] note a2 = ahead_append[OF a1] note a3 = ahead_append[OF a2]
  have "?O @ ?L @ ?F = [] \<or> hd (?O @ ?L @ ?F) \<in> {''orderby'', ''limit'', ''offset''}" by auto
  note wh = optional_where[OF a0 q0(1) _ this]
  have q: "case q_where q of None \<Rightarrow> True | Some w \<Rightarrow> root_ok lib w"
    "0 \<le> q_limit q" "q_limit q < 2 ^ 31" "0 \<le> q_offset q" "q_offset q < 2 ^ 31"
    using ok unfolding query_ok_def by blast+
  have len: "length snippets = pos + length ?W + length ?O + length ?L + length ?F"
    using arg_cong[OF a0, of length] pos unfolding length_drop length_map length_append by linarith
  have "?P pos q0 = ?P (pos + length ?W) (q0\<lparr>q_where := q_where q\<rparr>)" by (rule wh[OF q(1)])
  also have "\<dots> = ?P (pos + length ?W + length ?O) (q0\<lparr>q_where := q_where q, q_orderBy := q_orderBy q\<rparr>)"
    using q0 by (intro optional_orderby[OF a1]) simp
  also have "\<dots> = ?P (pos + length ?W + length ?O + length ?L)
      (q0\<lparr>q_where := q_where q, q_orderBy := q_orderBy q, q_limit := q_limit q\<rparr>)"
    using q0 by (intro optional_limit[OF a2 _ q(2,3)]) simp
  also have "\<dots> = ?P (pos + length ?W + length ?O + length ?L + length ?F)
      (q0\<lparr>q_where := q_where q, q_orderBy := q_orderBy q, q_limit := q_limit q, q_offset := q_offset q\<rparr>)"
    using q0 by (intro optional_offset[OF a3 _ q(4,5)]) simp
  finally show ?thesis using len by (simp only: parse_clauses_end order_refl)
qed

lemma parse_printed:
  assumes ok: "query_ok lib q" and s: "Print lib q = Inr s"
  shows "ParseQuery lib s = Some (Inr (q\<lparr>checked := True\<rparr>))"
proof -
  let ?db = "q_dbName q @ '':'' @ q_dbKeyPrefix q"
  obtain snippets where sn: "extractSnippets s = Inr snippets"
    "map stext snippets = [''query'', ?db] @ concat (clause_tokens lib q)"
    using extractSnippets_lexes[OF lexes_query[OF ok s]] by blast
  then have a: "ahead snippets 0 = ''query'' # ?db # concat (clause_tokens lib q)" by simp
  note A = ahead_Cons[OF a] and B = ahead_Cons[OF ahead_Cons(3)[OF a]]
  have key: "ParseKey ?db = (q_dbName q, q_dbKeyPrefix q)"
    using ok ParseKey_append by (simp add: query_ok_def)
  have "ParseQuery lib s = parse_clauses lib snippets (length s) 2 (New ?db)"
    using sn(1) A B by (simp add: ParseQuery_def numeral_2_eq_2)
  also have "\<dots> = Some (Check (q\<lparr>checked := False\<rparr>))"
    using parse_printed_clauses[OF ok B(3), of "New ?db" "length s"] sn(2)[THEN arg_cong, of length] key
    by (cases q) (simp add: New_def numeral_2_eq_2)
  finally show ?thesis using Print_query_ok(2)[OF ok] by (simp add: Check_def)
qed

subsection \<open>Properties\<close>

text \<open>C18. A printed query is parsed back: for a query whose key prefix and order are plain words,
  whose numbers fit in 31 bits and whose condition is of a printable form, \<open>Print\<close> returns a text
  and \<open>ParseQuery\<close> of this text returns the query, checked. Keys and values may contain spaces,
  parentheses and quotes; floating point numbers need a text that is read back to them.\<close>

theorem query_roundtrip:
  assumes "query_ok lib q"
  shows "\<exists>s. Print lib q = Inr s \<and> ParseQuery lib s = Some (Inr (q\<lparr>checked := True\<rparr>))"
  using Print_query_ok(1)[OF assms] parse_printed[OF assms] by blast

definition sample_query :: "int Query" where
  "sample_query =
     \<lparr>checked = True, q_dbName = ''core'', q_dbKeyPrefix = ''net/'',
      q_where = Some (OrCond [AndCond [IntCond ''a'' GreaterThan 100, NotCond (ExistsCond ''b'' Exists_op)],
                              NotCond (OrCond [FloatCond ''f'' FloatLessThan 7, BoolCond ''x y'' Is_op True]),
                              StringCond ''n'' SameAs ''a (\"b\") c'']),
      q_orderBy = ''n'', q_limit = 10, q_offset = 20\<rparr>"

lemma sample_query_ok: "query_ok sample_lib sample_query"
proof -
  have k: "plain ''a''" "plain ''b''" "plain ''f''" "plain ''n''" "plain ''core:net/''"
    by (simp_all add: plain_def word_char_def ascii_def separators_def)
  have t: "token_ok ''a''" "token_ok ''b''" "token_ok ''f''" "token_ok ''x y''" "token_ok ''n''" "token_ok ''a (\"b\") c''"
    by (simp_all add: token_ok_def ascii_def)
  have f: "fmt_g sample_lib = print_int" "ParseFloat sample_lib = ParseInt64" by (simp_all add: sample_lib_def)
  have o: "GreaterThan \<in> set int_ops" "FloatLessThan \<in> set float_ops" "SameAs \<in> set string_ops"
    by (simp_all add: ops_defs)
  show ?thesis
    using k t f o print_int_plain[of 7] ParseInt64_print[of 7]
    by (simp add: query_ok_def sample_query_def key_ok_def)
qed

theorem query_roundtrip_witness:
  "\<exists>s. Print sample_lib sample_query = Inr s \<and> ParseQuery sample_lib s = Some (Inr sample_query)"
  using query_roundtrip[OF sample_query_ok] by (simp add: sample_query_def)

text \<open>A query with a condition and nothing else.\<close>

definition where_query :: "'f condition \<Rightarrow> 'f Query" where
  "where_query c = Query_Where c (New ''db:'')"

definition reparse :: "'f query_lib \<Rightarrow> 'f condition \<Rightarrow> 'f Query res option" where
  "reparse lib c = (case Print lib (where_query c) of Inl e \<Rightarrow> Some (Inl e) | Inr s \<Rightarrow> ParseQuery lib s)"

lemma loop_unexpected_end:
  assumes "ahead snippets pos = []" "expectingMore st"
  shows "parseAndOr_loop lib snippets qlen root st pos = Some (Inl (ErrNew (''unexpected end at position '' @ print_nat qlen)))"
  using assms by (subst parseAndOr_loop.simps) (simp add: getSnippet_def)

lemma group_at_end:
  assumes p: "printable lib (AndCond cs)" and g: "group_like (last cs)"
  shows "\<exists>s. Print lib (where_query (AndCond cs)) = Inr s \<and>
    ParseQuery lib s = Some (Inl (ErrNew (''unexpected end at position '' @ print_nat (length s))))"
proof -
  have w: "plain ''and''" "plain ''query''" "plain ''db:''" "plain ''where''"
    by (simp_all add: plain_def word_char_def ascii_def separators_def)
  have cs: "2 \<le> length cs" "list_all (printable lib) cs" "cs \<noteq> []" using p by auto
  let ?j = "Join '' and '' (map (cond_string lib) cs)" and ?ts = "sep_by ''and'' (map (tokens lib) cs)"
  let ?s = "''query db: where '' @ ?j"
  have s: "Print lib (where_query (AndCond cs)) = Inr ?s"
    using printable_no_panic[OF p]
    by (simp add: Print_def where_query_def Query_Where_def New_def ParseKey_append[of "''db''" "[]", simplified]
        Print_where_def HasPrefix_def butlast_append)
  have "lexes ?s ([''query''] @ [''db:''] @ [''where''] @ ?ts)"
    using lexes_space[OF lexes_plain[OF w(2)] lexes_space[OF lexes_plain[OF w(3)]
          lexes_space[OF lexes_plain[OF w(4)] lexes_members[OF cs(2,1) w(1)]]]] by simp
  then obtain sn where sn: "extractSnippets ?s = Inr sn" "map stext sn = ''query'' # ''db:'' # ''where'' # ?ts"
    using extractSnippets_lexes by fastforce
  have a: "ahead sn 0 = ''query'' # ''db:'' # ''where'' # ?ts" using sn(2) by simp
  note A = ahead_Cons[OF a] note B = ahead_Cons[OF A(3)] note C = ahead_Cons[OF B(3)]
  have m: "\<And>c. c \<in> set cs \<Longrightarrow> parses lib c" using cs(2) printable_parses by (auto simp: list_all_iff)
  have a3: "ahead sn 3 = sep_by (if False then ''or'' else ''and'') (map (tokens lib) cs) @ []"
    using C(3) by (simp add: eval_nat_numeral)
  have "parseAndOr lib sn (length ?s) True 3 =
      parseAndOr_loop lib sn (length ?s) True (members False cs and_or_init) (3 + length ?ts)"
    using parses_members[OF m cs(3) a3, of and_or_init "length ?s" True] by (simp add: parseAndOr_def and_or_init_def)
  also have "\<dots> = Some (Inl (ErrNew (''unexpected end at position '' @ print_nat (length ?s))))"
    using ahead_append[OF a3] members_simps(2)[OF cs(3)] g by (intro loop_unexpected_end) simp_all
  finally have "ParseQuery lib ?s = Some (Inl (ErrNew (''unexpected end at position '' @ print_nat (length ?s))))"
    using sn(1) A B C
    by (simp add: ParseQuery_def parse_clauses.simps[of lib sn] parse_clause_def New_def eval_nat_numeral)
  with s show ?thesis by blast
qed

text \<open>What is printed is not always read back. The text of a conjunction that ends with a
  group is refused as incomplete; of a double negation of a group the parser keeps one; and in
  a negated comparison of a field with a space in its name, the negation is moved into the
  name.\<close>

theorem print_parse_departures:
  fixes lib :: "('f :: equal) query_lib"
  shows "(printable lib (AndCond cs) \<longrightarrow> group_like (last cs) \<longrightarrow> (\<exists>msg. reparse lib (AndCond cs) = Some (Inl (ErrNew msg)))) \<and>
   reparse lib (AndCond [NotCond (NotCond (OrCond [ExistsCond ''a'' Exists_op, ExistsCond ''b'' Exists_op])), ExistsCond ''c'' Exists_op]) =
     Some (Inr ((where_query (AndCond [NotCond (OrCond [ExistsCond ''a'' Exists_op, ExistsCond ''b'' Exists_op]), ExistsCond ''c'' Exists_op]))\<lparr>checked := True\<rparr>)) \<and>
   reparse lib (NotCond (ExistsCond ''x y'' Exists_op)) =
     Some (Inr ((where_query (ExistsCond ''x not y'' Exists_op))\<lparr>checked := True\<rparr>))"
proof (intro conjI impI)
  assume "printable lib (AndCond cs)" "group_like (last cs)"
  from group_at_end[OF this] show "\<exists>msg. reparse lib (AndCond cs) = Some (Inl (ErrNew msg))"
    by (auto simp: reparse_def)
qed code_simp+

lemma ParseQuery_ok:
  assumes parsed: "ParseQuery lib s = Some (Inr q)"
  shows "checked q \<and> query_in_range q \<and> Option.bind (q_where q) check = None"
proof -
  obtain snippets qlen pos pfx where "parse_clauses lib snippets qlen pos (New pfx) = Some (Inr q)"
    using parsed by (auto simp: ParseQuery_def split: sum.splits if_splits)
  from parse_clauses_ok[OF this] show ?thesis by (auto simp: New_def query_in_range_def)
qed

text \<open>C20. The parser ends on every text, with a query or an error. A query it returns has been
  checked and passes the check, its limit and offset fit in 31 bits, and it can be printed
  without a panic.\<close>

theorem ParseQuery_returns:
  "\<exists>r. ParseQuery lib s = Some r \<and>
     (\<forall>q. r = Inr q \<longrightarrow>
        checked q \<and> Check (q\<lparr>checked := False\<rparr>) = Inr q \<and>
        0 \<le> q_limit q \<and> q_limit q < 2 ^ 31 \<and> 0 \<le> q_offset q \<and> q_offset q < 2 ^ 31 \<and>
        (\<exists>txt. Print lib q = Inr txt))"
proof -
  have total: "\<exists>r. ParseQuery lib s = Some r"
    using parse_clauses_total by (auto simp: ParseQuery_def split: sum.split)
  note ParseQuery_ok[of lib s]
  moreover have "\<exists>txt. Print lib q = Inr txt"
    if "query_in_range q" "Option.bind (q_where q) check = None" for q
    using that checked_not_panicking by (auto simp: Print_def query_in_range_def split: option.splits)
  ultimately show ?thesis using total
    by (fastforce simp: Check_def query_in_range_def split: option.splits)
qed

lemma sample_parsed: "ParseQuery sample_lib ''query db: where c ex'' =
    Some (Inr ((where_query (ExistsCond ''c'' Exists_op))\<lparr>checked := True\<rparr>))"
  by code_simp

theorem ParseQuery_returns_witness:
  "\<exists>q. ParseQuery sample_lib ''query db: where c ex'' = Some (Inr q) \<and> checked q \<and>
     q_limit q < 2 ^ 31 \<and> (\<exists>txt. Print sample_lib q = Inr txt)"
  using ParseQuery_returns[of sample_lib "''query db: where c ex''"] sample_parsed by auto

theorem print_parse_departures_witness:
  "\<exists>msg. reparse sample_lib (AndCond [ExistsCond ''c'' Exists_op,
     OrCond [ExistsCond ''a'' Exists_op, ExistsCond ''b'' Exists_op]]) = Some (Inl (ErrNew msg))"
proof -
  have t: "token_ok ''a''" "token_ok ''b''" "token_ok ''c''" by (simp_all add: token_ok_def ascii_def)
  show ?thesis
    using print_parse_departures[of sample_lib "[ExistsCond ''c'' Exists_op,
        OrCond [ExistsCond ''a'' Exists_op, ExistsCond ''b'' Exists_op]]"] t
    by (simp add: key_ok_def)
qed

end
