(* ===== verification/Query_Guarantees.thy ===== *)
theory Query_Guarantees
  imports Query_Roundtrip Db_Guarantees
begin

section \<open>Queries on a database\<close>

text \<open>
  The composition of parser, conditions, storage and interface: what a query given as text
  returns. \<open>query_api_of\<close> is how a \<open>Query\<close> appears to controllers and storages; the accessor of a
  record is a parameter.
\<close>

definition query_api_of :: "'f query_lib \<Rightarrow> ('d dbrec \<Rightarrow> 'f accessor option) \<Rightarrow> 'f Query \<Rightarrow> 'd query_api" where
  "query_api_of lib acc q =
     \<lparr>qCheck = (case Check q of Inl e \<Rightarrow> Some e | Inr _ \<Rightarrow> None), qDatabaseName = DatabaseName q,
      qMatchesKey = (\<lambda>key. MatchesKey key q), qMatchesRecord = (\<lambda>r. MatchesRecord lib (acc r) q)\<rparr>"

lemma qMatches_query_api:
  "qMatches (query_api_of lib acc q) r = Query_Matches lib (dbKey (rbase r)) (acc r) q"
  by (simp add: qMatches_def query_api_of_def Query_Matches_def)

lemma CheckPermission_Some:
  "CheckPermission local internal mo \<longleftrightarrow>
     (\<exists>m. mo = Some m \<and> (secret m \<longrightarrow> internal) \<and> (cronjewel m \<longrightarrow> local))"
  by (cases mo) (simp_all add: CheckPermission_def)

lemma MatchesRecord_iff:
  "MatchesRecord lib a q \<longleftrightarrow> (\<forall>cond. q_where q = Some cond \<longrightarrow> (\<exists>x. a = Some x \<and> complies lib x cond))"
  by (cases a; cases "q_where q") (simp_all add: MatchesRecord_def)

lemma hm_visible_query:
  "hm_visible (query_api_of lib acc q) local internal t h (k, r) \<longleftrightarrow>
     prefix (q_dbKeyPrefix q) k \<and>
     (\<exists>m. rMeta h r = Some m \<and> CheckValidity t (Some m) \<and> (secret m \<longrightarrow> internal) \<and> (cronjewel m \<longrightarrow> local)) \<and>
     (\<forall>cond. q_where q = Some cond \<longrightarrow> (\<exists>a. acc (h r) = Some a \<and> complies lib a cond))"
  unfolding hm_visible_def query_api_of_def MatchesRecord_iff[symmetric]
  by (cases "rMeta h r") (auto simp: MatchesKey_def HasPrefix_def CheckPermission_Some)


definition any_accessor :: "nat dbrec \<Rightarrow> int accessor option" where
  "any_accessor r = Some \<lparr>acc_GetString = (\<lambda>_. None), acc_GetInt = (\<lambda>_. Some (of_nat (rdata r))),
     acc_GetFloat = (\<lambda>_. None), acc_GetBool = (\<lambda>_. None), acc_Exists = (\<lambda>_. True)\<rparr>"


end
