(* ===== verification/Go_Paths.thy ===== *)
theory Go_Paths
  imports Go_Strings
begin

section \<open>Prelude: paths and a few more string functions\<close>

text \<open>
  The functions of Go's packages \<open>path\<close> and \<open>path/filepath\<close> in use, the latter for the platforms
  on which the separator is a slash, and functions of \<open>strings\<close> for paths.
\<close>

text \<open>\<open>path.Clean\<close> and \<open>path.Join\<close> of two elements.\<close>

definition clean_segment :: "bool \<Rightarrow> string \<Rightarrow> string list \<Rightarrow> string list" where
  "clean_segment rooted seg acc =
     (if seg = [] \<or> seg = ''.'' then acc
      else if seg = ''..'' then
        (if acc \<noteq> [] \<and> last acc \<noteq> ''..'' then butlast acc
         else if rooted then acc else acc @ [seg])
      else acc @ [seg])"

definition Clean :: "string \<Rightarrow> string" where
  "Clean p =
     (if p = [] then ''.''
      else (let rooted = (hd p = CHR ''/'');
                body = Join ''/'' (fold (clean_segment rooted) (Split (CHR ''/'') p) []) in
            if rooted then CHR ''/'' # body else if body = [] then ''.'' else body))"

definition path_Join :: "string \<Rightarrow> string \<Rightarrow> string" where
  "path_Join a b =
     (if a = [] \<and> b = [] then []
      else if a = [] then Clean b else if b = [] then Clean a else Clean (a @ ''/'' @ b))"

text \<open>\<open>path.Split\<close>: the directory with its slash, and the file name.\<close>

definition path_Split :: "string \<Rightarrow> string \<times> string" where
  "path_Split p =
     (let name = rev (takeWhile (\<lambda>c. c \<noteq> CHR ''/'') (rev p)) in (take (length p - length name) p, name))"

text \<open>\<open>path.Dir\<close>, \<open>path.Base\<close> and \<open>path.Ext\<close>.\<close>

definition path_Dir :: "string \<Rightarrow> string" where
  "path_Dir p = Clean (fst (path_Split p))"

definition path_Base :: "string \<Rightarrow> string" where
  "path_Base p =
     (if p = [] then ''.''
      else (let q = rev (dropWhile (\<lambda>c. c = CHR ''/'') (rev p)) in
            if q = [] then ''/'' else snd (path_Split q)))"

definition path_Ext :: "string \<Rightarrow> string" where
  "path_Ext p =
     (let r = takeWhile (\<lambda>c. c \<noteq> CHR ''.'' \<and> c \<noteq> CHR ''/'') (rev p); rest = drop (length r) (rev p) in
      if rest \<noteq> [] \<and> hd rest = CHR ''.'' then CHR ''.'' # rev r else [])"

definition TrimPrefix :: "string \<Rightarrow> string \<Rightarrow> string" where
  "TrimPrefix s p = (if HasPrefix s p then drop (length p) s else s)"

definition TrimSuffix :: "string \<Rightarrow> string \<Rightarrow> string" where
  "TrimSuffix s p = (if HasSuffix s p then take (length s - length p) s else s)"

text \<open>\<open>strings.TrimLeft\<close> and \<open>strings.Replace\<close> of one byte by one byte, for the first \<open>n\<close> times.\<close>

definition TrimLeft :: "string \<Rightarrow> string \<Rightarrow> string" where
  "TrimLeft s cutset = dropWhile (\<lambda>c. c \<in> set cutset) s"

fun Replace :: "string \<Rightarrow> char \<Rightarrow> char \<Rightarrow> nat \<Rightarrow> string" where
  "Replace [] old new n = []"
| "Replace (c # cs) old new 0 = c # cs"
| "Replace (c # cs) old new (Suc n) =
     (if c = old then new # Replace cs old new n else c # Replace cs old new (Suc n))"

lemma path_Split_append: "fst (path_Split p) @ snd (path_Split p) = p"
proof -
  let ?n = "takeWhile (\<lambda>c. c \<noteq> CHR ''/'') (rev p)"
  have "rev p = ?n @ dropWhile (\<lambda>c. c \<noteq> CHR ''/'') (rev p)" by simp
  then have "p = rev (dropWhile (\<lambda>c. c \<noteq> CHR ''/'') (rev p)) @ rev ?n" by (metis rev_append rev_rev_ident)
  then show ?thesis unfolding path_Split_def Let_def fst_conv snd_conv
    by (metis append_eq_conv_conj diff_add_inverse2 length_append)
qed

lemma path_Split_no_slash: "CHR ''/'' \<notin> set (snd (path_Split p))"
  by (auto simp: path_Split_def Let_def dest: set_takeWhileD)

lemma path_Split_eq:
  assumes "d = [] \<or> last d = CHR ''/''" "CHR ''/'' \<notin> set f"
  shows "path_Split (d @ f) = (d, f)"
proof -
  have "takeWhile (\<lambda>c. c \<noteq> CHR ''/'') (rev f @ rev d) = rev f"
    using assms by (cases d rule: rev_cases) (auto simp: takeWhile_append)
  then show ?thesis by (simp add: path_Split_def)
qed

lemma path_Split_dir: "fst (path_Split p) = [] \<or> last (fst (path_Split p)) = CHR ''/''"
proof -
  let ?d = "dropWhile (\<lambda>c. c \<noteq> CHR ''/'') (rev p)"
  have "rev p = takeWhile (\<lambda>c. c \<noteq> CHR ''/'') (rev p) @ ?d" by simp
  then have "p = rev ?d @ snd (path_Split p)" by (metis path_Split_def rev_append rev_rev_ident snd_conv)
  then have "fst (path_Split p) = rev ?d" using path_Split_append[of p] by (metis append_same_eq)
  then show ?thesis using hd_dropWhile[of "\<lambda>c. c \<noteq> CHR ''/''" "rev p"] by (cases ?d) (auto simp: last_rev)
qed

lemma Replace_0 [simp]: "Replace s old new 0 = s"
  by (cases s) simp_all

lemma Replace_append:
  "old \<notin> set a \<Longrightarrow> Replace (a @ b) old new n = a @ Replace b old new n"
  by (induction a; cases n) auto

end
