(* ===== verification/Config_Values.thy ===== *)
theory Config_Values
  imports Go_Paths "HOL-Library.AList"
begin

section \<open>Configuration: values and hierarchies\<close>

text \<open>
  The values that configuration options take, and the conversion between a flat configuration,
  whose keys are paths, and a hierarchical one, as in \<^verbatim>\<open>config/persistence.go\<close>. A value of Go's type
  \<open>interface{}\<close> is a \<open>cvalue\<close>: a number keeps its Go type, an unsigned one its 64 bits.
  \<open>CList\<close> is a \<open>[]interface{}\<close>, \<open>CStrings\<close> a \<open>[]string\<close>, and \<open>CMap\<close> a \<open>map[string]interface{}\<close> as a list
  of entries in the order of iteration. \<open>COther\<close> is a value of a further type, by the name of the
  type and a number that tells its values apart.

  The record \<open>config_lib\<close> holds what comes with the Go runtime and large packages: floating point
  numbers, regular expressions, and conversion of a number to the text of a rune.
\<close>

datatype intkind = KInt | KInt8 | KInt16 | KInt32 | KInt64 | KUint | KUint8 | KUint16 | KUint32

datatype 'f cvalue =
    CNil
  | CInt intkind int64
  | CFloat32 'f
  | CFloat64 'f
  | CString string
  | CStrings "string list"
  | CBool bool
  | CList "'f cvalue list"
  | CMap "(string \<times> 'f cvalue) list"
  | COther string nat

record 'f config_lib =
  float_of_int :: "int \<Rightarrow> 'f"
  float_round32 :: "'f \<Rightarrow> 'f"
  float_to_int64 :: "'f \<Rightarrow> int64"
  float_integral :: "'f \<Rightarrow> bool"
  float_eq :: "'f \<Rightarrow> 'f \<Rightarrow> bool"
  fmt_v_float :: "'f \<Rightarrow> string"
  rune_string :: "int64 \<Rightarrow> string"
  regexp_Compile :: "string \<Rightarrow> goerr option"
  regexp_MatchString :: "string \<Rightarrow> string \<Rightarrow> bool"

subsection \<open>Types, comparison and conversion of interface values\<close>

fun kind_name :: "intkind \<Rightarrow> string" where
  "kind_name KInt = ''int''"
| "kind_name KInt8 = ''int8''"
| "kind_name KInt16 = ''int16''"
| "kind_name KInt32 = ''int32''"
| "kind_name KInt64 = ''int64''"
| "kind_name KUint = ''uint''"
| "kind_name KUint8 = ''uint8''"
| "kind_name KUint16 = ''uint16''"
| "kind_name KUint32 = ''uint32''"

text \<open>What \<open>%T\<close> prints; two values have the same type if the names agree.\<close>

fun type_name :: "'f cvalue \<Rightarrow> string" where
  "type_name CNil = ''<nil>''"
| "type_name (CInt k _) = kind_name k"
| "type_name (CFloat32 _) = ''float32''"
| "type_name (CFloat64 _) = ''float64''"
| "type_name (CString _) = ''string''"
| "type_name (CStrings _) = ''[]string''"
| "type_name (CBool _) = ''bool''"
| "type_name (CList _) = ''[]interface {}''"
| "type_name (CMap _) = ''map[string]interface {}''"
| "type_name (COther t _) = t"

definition is_unsigned :: "intkind \<Rightarrow> bool" where
  "is_unsigned k \<longleftrightarrow> k \<in> {KUint, KUint8, KUint16, KUint32}"

definition kind_value :: "intkind \<Rightarrow> int64 \<Rightarrow> int" where
  "kind_value k w = (if is_unsigned k then uint w else sint w)"

text \<open>\<open>%v\<close> for the numbers; other values are printed for options with possible values only.\<close>

fun print_cvalue :: "'f config_lib \<Rightarrow> 'f cvalue \<Rightarrow> string" where
  "print_cvalue lib (CInt k w) = print_int (kind_value k w)"
| "print_cvalue lib (CFloat32 f) = fmt_v_float lib f"
| "print_cvalue lib (CFloat64 f) = fmt_v_float lib f"
| "print_cvalue lib (CString s) = s"
| "print_cvalue lib (CBool b) = print_bool b"
| "print_cvalue lib (CStrings ss) = ''['' @ Join '' '' ss @ '']''"
| "print_cvalue lib (CList vs) = ''['' @ Join '' '' (map (print_cvalue lib) vs) @ '']''"
| "print_cvalue lib (CMap kvs) = ''map['' @ Join '' '' (map (\<lambda>(k, v). k @ '':'' @ print_cvalue lib v) kvs) @ '']''"
| "print_cvalue lib v = type_name v"

definition uncomparable :: "'f cvalue \<Rightarrow> bool" where
  "uncomparable v = (case v of CStrings _ \<Rightarrow> True | CList _ \<Rightarrow> True | CMap _ \<Rightarrow> True | _ \<Rightarrow> False)"

text \<open>The operator \<open>==\<close> on interface values: values of different types differ, and two of the
  same type that has no comparison make it panic.\<close>

definition iface_eq :: "'f config_lib \<Rightarrow> 'f cvalue \<Rightarrow> 'f cvalue \<Rightarrow> bool res" where
  "iface_eq lib a b =
     (if type_name a \<noteq> type_name b then Inr False
      else if uncomparable a then Inl (GoPanic (''runtime error: comparing uncomparable type '' @ type_name a))
      else Inr (case (a, b) of
                  (CFloat32 x, CFloat32 y) \<Rightarrow> float_eq lib x y
                | (CFloat64 x, CFloat64 y) \<Rightarrow> float_eq lib x y
                | _ \<Rightarrow> a = b))"

text \<open>\<open>reflect.DeepEqual\<close>.\<close>

definition deep_equal :: "'f config_lib \<Rightarrow> 'f cvalue \<Rightarrow> 'f cvalue \<Rightarrow> bool" where
  "deep_equal lib a b = (case iface_eq lib a b of Inr e \<Rightarrow> e | Inl _ \<Rightarrow> a = b)"

text \<open>\<open>reflect\<close>'s \<open>Convert\<close> to the type of \<open>v\<close>, None if the types are not convertible.\<close>

fun convert_int :: "intkind \<Rightarrow> int \<Rightarrow> int64" where
  "convert_int KInt8 i = word_of_int (signed_take_bit 7 i)"
| "convert_int KInt16 i = word_of_int (signed_take_bit 15 i)"
| "convert_int KInt32 i = word_of_int (signed_take_bit 31 i)"
| "convert_int KUint8 i = word_of_int (take_bit 8 i)"
| "convert_int KUint16 i = word_of_int (take_bit 16 i)"
| "convert_int KUint32 i = word_of_int (take_bit 32 i)"
| "convert_int _ i = word_of_int i"

fun convert_to :: "'f config_lib \<Rightarrow> 'f cvalue \<Rightarrow> 'f cvalue \<Rightarrow> 'f cvalue option" where
  "convert_to lib (CInt k _) (CInt k' w) = Some (CInt k (convert_int k (kind_value k' w)))"
| "convert_to lib (CInt k _) (CFloat32 f) = Some (CInt k (convert_int k (sint (float_to_int64 lib f))))"
| "convert_to lib (CInt k _) (CFloat64 f) = Some (CInt k (convert_int k (sint (float_to_int64 lib f))))"
| "convert_to lib (CFloat32 _) (CInt k w) = Some (CFloat32 (float_round32 lib (float_of_int lib (kind_value k w))))"
| "convert_to lib (CFloat32 _) (CFloat32 f) = Some (CFloat32 f)"
| "convert_to lib (CFloat32 _) (CFloat64 f) = Some (CFloat32 (float_round32 lib f))"
| "convert_to lib (CFloat64 _) (CInt k w) = Some (CFloat64 (float_of_int lib (kind_value k w)))"
| "convert_to lib (CFloat64 _) (CFloat32 f) = Some (CFloat64 f)"
| "convert_to lib (CFloat64 _) (CFloat64 f) = Some (CFloat64 f)"
| "convert_to lib (CString _) (CInt k w) = Some (CString (rune_string lib w))"
| "convert_to lib v w = (if type_name v = type_name w then Some w else None)"

subsection \<open>Flatten and Expand\<close>

text \<open>A map entry is written with \<open>AList.update\<close>.\<close>

fun flattenMap :: "(string \<times> 'f cvalue) list \<Rightarrow> (string \<times> 'f cvalue) list \<Rightarrow> string \<Rightarrow> (string \<times> 'f cvalue) list"
and flattenEntry :: "(string \<times> 'f cvalue) list \<Rightarrow> 'f cvalue \<Rightarrow> string \<Rightarrow> (string \<times> 'f cvalue) list" where
  "flattenMap rootMap [] subKey = rootMap"
| "flattenMap rootMap ((key, entry) # subMap) subKey =
     flattenMap (flattenEntry rootMap entry (path_Join subKey key)) subMap subKey"
| "flattenEntry rootMap (CMap nextSub) subbedKey = flattenMap rootMap nextSub subbedKey"
| "flattenEntry rootMap entry subbedKey = AList.update subbedKey entry rootMap"

definition Flatten :: "(string \<times> 'f cvalue) list \<Rightarrow> (string \<times> 'f cvalue) list" where
  "Flatten config = flattenMap [] config []"

text \<open>The maps on the way to the last part are updated in place: here the updated map is put
  back.\<close>

fun put_parts :: "string list \<Rightarrow> 'f cvalue \<Rightarrow> (string \<times> 'f cvalue) list \<Rightarrow> (string \<times> 'f cvalue) list" where
  "put_parts [] v subMap = subMap"
| "put_parts [part] v subMap = AList.update part v subMap"
| "put_parts (part # next # parts) v subMap =
     (let nextSubMap = (case map_of subMap part of Some (CMap m) \<Rightarrow> m | _ \<Rightarrow> []) in
      AList.update part (CMap (put_parts (next # parts) v nextSubMap)) subMap)"

definition PutValueIntoHierarchicalConfig ::
  "(string \<times> 'f cvalue) list \<Rightarrow> string \<Rightarrow> 'f cvalue \<Rightarrow> (string \<times> 'f cvalue) list" where
  "PutValueIntoHierarchicalConfig config key v = put_parts (Split (CHR ''/'') key) v config"

definition Expand :: "(string \<times> 'f cvalue) list \<Rightarrow> (string \<times> 'f cvalue) list" where
  "Expand flattenedConfig =
     fold (\<lambda>(key, entry) config. PutValueIntoHierarchicalConfig config key entry) flattenedConfig []"

subsection \<open>Flatten undoes Expand\<close>

text \<open>The values of a hierarchical configuration with the path to each.\<close>

fun leaves :: "(string \<times> 'f cvalue) list \<Rightarrow> (string list \<times> 'f cvalue) list"
and entry_leaves :: "'f cvalue \<Rightarrow> (string list \<times> 'f cvalue) list" where
  "leaves [] = []"
| "leaves ((k, e) # m) = map (\<lambda>(p, v). (k # p, v)) (entry_leaves e) @ leaves m"
| "entry_leaves (CMap m) = leaves m"
| "entry_leaves v = [([], v)]"

definition segment_ok :: "string \<Rightarrow> bool" where
  "segment_ok s \<longleftrightarrow> s \<noteq> [] \<and> s \<noteq> ''.'' \<and> s \<noteq> ''..'' \<and> CHR ''/'' \<notin> set s"

definition is_map :: "'f cvalue \<Rightarrow> bool" where
  "is_map v = (case v of CMap _ \<Rightarrow> True | _ \<Rightarrow> False)"

fun wf_map :: "(string \<times> 'f cvalue) list \<Rightarrow> bool"
and wf_entry :: "'f cvalue \<Rightarrow> bool" where
  "wf_map [] = True"
| "wf_map ((k, e) # m) = (segment_ok k \<and> k \<notin> fst ` set m \<and> wf_entry e \<and> wf_map m)"
| "wf_entry (CMap m) = wf_map m"
| "wf_entry v = True"

lemma wf_map_distinct: "wf_map m \<Longrightarrow> distinct (map fst m)"
  by (induction m) (force simp: image_iff)+

lemma wf_map_iff: "wf_map m \<longleftrightarrow> distinct (map fst m) \<and> (\<forall>k e. map_of m k = Some e \<longrightarrow> segment_ok k \<and> wf_entry e)"
proof (induction m)
  case (Cons ke m)
  obtain k e where ke: "ke = (k, e)" by force
  have "k \<notin> fst ` set m \<longleftrightarrow> map_of m k = None" by (simp add: map_of_eq_None_iff)
  with Cons show ?case unfolding ke by (auto split: if_splits)
qed simp

lemma leaf_in: "wf_map m \<Longrightarrow>
  (ps, v) \<in> set (leaves m) \<longleftrightarrow> (\<exists>k p e. ps = k # p \<and> map_of m k = Some e \<and> (p, v) \<in> set (entry_leaves e))"
proof (induction m)
  case (Cons ke m)
  obtain k e where ke: "ke = (k, e)" by force
  have k: "map_of m k = None" using Cons.prems by (simp add: ke map_of_eq_None_iff)
  have IH: "(ps, v) \<in> set (leaves m) \<longleftrightarrow>
      (\<exists>k p e. ps = k # p \<and> map_of m k = Some e \<and> (p, v) \<in> set (entry_leaves e))"
    using Cons by (simp add: ke)
  show ?case
  proof (cases ps)
    case Nil
    then show ?thesis using IH by (auto simp: ke)
  next
    case ps: (Cons q p)
    then show ?thesis using IH k by (cases "q = k") (auto simp: ke)
  qed
qed simp

lemma wf_update: "wf_map m \<Longrightarrow> segment_ok k \<Longrightarrow> wf_entry e \<Longrightarrow> wf_map (AList.update k e m)"
  by (simp add: wf_map_iff distinct_update update_conv')

lemma wf_sub: "wf_map m \<Longrightarrow> wf_map (case map_of m k of Some (CMap m') \<Rightarrow> m' | _ \<Rightarrow> [])"
  using wf_map_iff[of m] by (fastforce split: option.split cvalue.split simp del: map_of_eq_Some_iff)

lemma entry_leaves_value: "\<not> is_map v \<Longrightarrow> entry_leaves v = [([], v)]"
  by (cases v) (auto simp: is_map_def)

lemma wf_put_parts:
  "wf_map m \<Longrightarrow> \<forall>p \<in> set ps. segment_ok p \<Longrightarrow> wf_entry v \<Longrightarrow> wf_map (put_parts ps v m)"
proof (induction ps v m rule: put_parts.induct)
  case (3 part nx parts v m)
  then show ?case using wf_sub[OF "3.prems"(1), of part] by (auto simp: Let_def intro!: wf_update)
qed (auto intro: wf_update)

definition conflict :: "string list \<Rightarrow> string list \<Rightarrow> bool" where
  "conflict ps qs \<longleftrightarrow> strict_prefix ps qs \<or> strict_prefix qs ps"

lemma leaf_update:
  assumes "wf_map m" "segment_ok k" "wf_entry e"
  shows "(q # p, v) \<in> set (leaves (AList.update k e m)) \<longleftrightarrow>
    (if q = k then (p, v) \<in> set (entry_leaves e) else (q # p, v) \<in> set (leaves m))"
  using leaf_in[OF wf_update[OF assms]] leaf_in[OF assms(1)] by (auto simp: update_conv')

lemma leaf_put_parts:
  assumes "wf_map m" "\<forall>p \<in> set ps. segment_ok p" "ps \<noteq> []" "\<not> is_map v" "wf_entry v"
    and "\<forall>(qs, u) \<in> set (leaves m). \<not> conflict ps qs"
  shows "(qs, u) \<in> set (leaves (put_parts ps v m)) \<longleftrightarrow> (if qs = ps then u = v else (qs, u) \<in> set (leaves m))"
  using assms
proof (induction ps v m arbitrary: qs rule: put_parts.induct)
  case (1 v m)
  then show ?case by simp
next
  case (2 part v m)
  have no: "(part # p, u) \<notin> set (leaves m)" if "p \<noteq> []" for p u
    using "2.prems"(6) that by (force simp: conflict_def strict_prefix_def)
  have "([], u) \<notin> set (leaves (AList.update part v m))"
    using leaf_in[OF wf_update[OF "2.prems"(1)], of part v "[]"] "2.prems" by simp
  moreover have "([], u) \<notin> set (leaves m)" using leaf_in[OF "2.prems"(1), of "[]"] by simp
  ultimately show ?case using leaf_update[OF "2.prems"(1), of part v] "2.prems" no
    by (cases qs) (auto simp: entry_leaves_value)
next
  case (3 part nx parts v m)
  let ?sub = "case map_of m part of Some (CMap m) \<Rightarrow> m | _ \<Rightarrow> []"
  let ?e = "CMap (put_parts (nx # parts) v ?sub)"
  have wfs: "wf_map ?sub" by (rule wf_sub[OF "3.prems"(1)])
  have wfe: "segment_ok part" "wf_entry ?e" using wf_put_parts[OF wfs, of "nx # parts" v] "3.prems" by simp_all
  have is_m: "is_map e" if "map_of m part = Some e" for e
  proof (rule ccontr)
    assume "\<not> is_map e"
    then have "entry_leaves e = [([], e)]" by (rule entry_leaves_value)
    then have "([part], e) \<in> set (leaves m)" using that leaf_in[OF "3.prems"(1)] by simp
    moreover have "conflict (part # nx # parts) [part]" by (simp add: conflict_def strict_prefix_def)
    ultimately show False using "3.prems"(6) by blast
  qed
  have in_sub: "(part # p, u) \<in> set (leaves m) \<longleftrightarrow> (p, u) \<in> set (leaves ?sub)" for p u
  proof (cases "map_of m part")
    case None
    then show ?thesis using leaf_in[OF "3.prems"(1)] by simp
  next
    case (Some e)
    with is_m obtain m' where "e = CMap m'" by (cases e) (auto simp: is_map_def)
    with Some show ?thesis using leaf_in[OF "3.prems"(1)] by simp
  qed
  have "\<forall>(qs, u) \<in> set (leaves ?sub). \<not> conflict (nx # parts) qs"
    using "3.prems"(6) in_sub by (force simp: conflict_def)
  then have IH: "(qs, u) \<in> set (leaves (put_parts (nx # parts) v ?sub)) \<longleftrightarrow>
      (if qs = nx # parts then u = v else (qs, u) \<in> set (leaves ?sub))" for qs
    using "3.IH"[OF refl wfs] "3.prems" by simp
  have put: "put_parts (part # nx # parts) v m = AList.update part ?e m" by (simp add: Let_def)
  show ?case
  proof (cases qs)
    case Nil
    then show ?thesis unfolding put using leaf_in[OF wf_update[OF "3.prems"(1) wfe], of "[]"] leaf_in[OF "3.prems"(1), of "[]"]
      by simp
  next
    case (Cons q p)
    then show ?thesis unfolding put using leaf_update[OF "3.prems"(1) wfe] IH in_sub by simp
  qed
qed

text \<open>The keys of a flat configuration that can be expanded without loss.\<close>

definition keys_ok :: "(string \<times> 'f cvalue) list \<Rightarrow> bool" where
  "keys_ok m \<longleftrightarrow> distinct (map fst m) \<and>
     (\<forall>(k, v) \<in> set m. \<not> is_map v \<and> (\<forall>s \<in> set (Split (CHR ''/'') k). segment_ok s)) \<and>
     (\<forall>k \<in> fst ` set m. \<forall>k' \<in> fst ` set m. \<not> conflict (Split (CHR ''/'') k) (Split (CHR ''/'') k'))"

lemma Split_inj: "Split c k = Split c k' \<longleftrightarrow> k = k'"
  by (metis Join_Split)

lemma wf_entry_value: "\<not> is_map v \<Longrightarrow> wf_entry v"
  by (cases v) (auto simp: is_map_def)

lemma leaves_Expand_fold:
  assumes "keys_ok (done @ todo)" "wf_map config"
    and "\<And>qs u. (qs, u) \<in> set (leaves config) \<longleftrightarrow> (\<exists>k. (k, u) \<in> set done \<and> qs = Split (CHR ''/'') k)"
  shows "wf_map (fold (\<lambda>(key, entry) config. PutValueIntoHierarchicalConfig config key entry) todo config) \<and>
    ((qs, u) \<in> set (leaves (fold (\<lambda>(key, entry) config. PutValueIntoHierarchicalConfig config key entry) todo config)) \<longleftrightarrow>
     (\<exists>k. (k, u) \<in> set (done @ todo) \<and> qs = Split (CHR ''/'') k))"
  using assms
proof (induction todo arbitrary: "done" config)
  case (Cons kv todo)
  obtain k v where kv: "kv = (k, v)" by force
  let ?c = "put_parts (Split (CHR ''/'') k) v config"
  have k: "\<not> is_map v" "\<forall>s \<in> set (Split (CHR ''/'') k). segment_ok s" "k \<notin> fst ` set done"
    using Cons.prems(1) by (auto simp: keys_ok_def kv)
  have nc': "\<not> conflict (Split (CHR ''/'') k) (Split (CHR ''/'') k')" if "(k', u) \<in> set done" for k' u
  proof -
    have "k \<in> fst ` set (done @ kv # todo)" "k' \<in> fst ` set (done @ kv # todo)"
      using that by (force simp: kv)+
    then show ?thesis using Cons.prems(1) unfolding keys_ok_def by blast
  qed
  have nc: "\<forall>(qs, u) \<in> set (leaves config). \<not> conflict (Split (CHR ''/'') k) qs"
    using Cons.prems(3) nc' by auto
  have "wf_map ?c" using wf_put_parts[OF Cons.prems(2) k(2)] wf_entry_value[OF k(1)] by blast
  moreover have "(qs, u) \<in> set (leaves ?c) \<longleftrightarrow> (\<exists>k'. (k', u) \<in> set (done @ [kv]) \<and> qs = Split (CHR ''/'') k')" for qs u
    using leaf_put_parts[OF Cons.prems(2) k(2) Split_nonempty k(1) wf_entry_value[OF k(1)] nc, of qs u] Cons.prems(3)[of qs u] k(3)
    by (cases "qs = Split (CHR ''/'') k") (auto simp: kv Split_inj image_iff)
  ultimately show ?case
    using Cons.IH[of "done @ [kv]" ?c] Cons.prems(1) by (simp add: kv PutValueIntoHierarchicalConfig_def)
qed simp

lemma leaves_Expand:
  assumes "keys_ok m"
  shows "wf_map (Expand m)" "(qs, u) \<in> set (leaves (Expand m)) \<longleftrightarrow> (\<exists>k. (k, u) \<in> set m \<and> qs = Split (CHR ''/'') k)"
  using leaves_Expand_fold[of "[]" m "[]"] assms by (simp_all add: Expand_def)

lemma flatten_leaves:
  "flattenMap root m sub = fold (\<lambda>(p, v). AList.update (foldl path_Join sub p) v) (leaves m) root"
  "flattenEntry root e sub = fold (\<lambda>(p, v). AList.update (foldl path_Join sub p) v) (entry_leaves e) root"
proof (induction root m sub and root e sub rule: flattenMap_flattenEntry.induct)
  case (2 rootMap key entry subMap subKey)
  have "fold (\<lambda>(p, v). AList.update (foldl path_Join subKey p) v) (map (\<lambda>(p, v). (key # p, v)) xs) r =
      fold (\<lambda>(p, v). AList.update (foldl path_Join (path_Join subKey key) p) v) xs r" for xs and r :: "(string \<times> 'a cvalue) list"
    by (induction xs arbitrary: r) auto
  with 2 show ?case by simp
qed simp_all

lemma clean_segments: "\<forall>s \<in> set xs. segment_ok s \<Longrightarrow> fold (clean_segment r) xs acc = acc @ xs"
  by (induction xs arbitrary: acc) (auto simp: clean_segment_def segment_ok_def)

lemma hd_Join: "segment_ok x \<Longrightarrow> Join ''/'' (x # xs) \<noteq> [] \<and> hd (Join ''/'' (x # xs)) \<noteq> CHR ''/''"
  by (cases xs; cases x) (auto simp: segment_ok_def)

lemma Clean_Join:
  assumes "xs \<noteq> []" "\<forall>s \<in> set xs. segment_ok s"
  shows "Clean (Join ''/'' xs) = Join ''/'' xs"
proof -
  have "Split (CHR ''/'') (Join ''/'' xs) = xs" using assms by (intro Split_Join) (auto simp: segment_ok_def)
  moreover obtain x xs' where "xs = x # xs'" using assms(1) by (cases xs) auto
  then have "Join ''/'' xs \<noteq> []" "hd (Join ''/'' xs) \<noteq> CHR ''/''" using hd_Join[of x xs'] assms(2) by auto
  ultimately show ?thesis using clean_segments[OF assms(2)] by (simp add: Clean_def Let_def)
qed

lemma Join_snoc: "xs \<noteq> [] \<Longrightarrow> Join sep (xs @ [x]) = Join sep xs @ sep @ x"
  by (induction sep xs rule: Join.induct) auto

lemma joined_segments:
  "\<forall>s \<in> set (xs @ ys). segment_ok s \<Longrightarrow> foldl path_Join (Join ''/'' xs) ys = Join ''/'' (xs @ ys)"
proof (induction ys arbitrary: xs)
  case (Cons y ys)
  have "path_Join (Join ''/'' xs) y = Join ''/'' (xs @ [y])"
  proof (cases xs)
    case Nil
    then show ?thesis using Clean_Join[of "[y]"] Cons.prems by (auto simp: path_Join_def segment_ok_def)
  next
    case c: (Cons x xs')
    then show ?thesis
      using Clean_Join[of "xs @ [y]"] Cons.prems hd_Join[of x xs'] Join_snoc[of xs "''/''" y]
      by (auto simp: path_Join_def segment_ok_def)
  qed
  then show ?case using Cons.IH[of "xs @ [y]"] Cons.prems by simp
qed simp

lemma map_of_fold_update:
  assumes "\<And>k v v'. (k, v) \<in> set ps \<Longrightarrow> (k, v') \<in> set ps \<Longrightarrow> v = v'"
  shows "map_of (fold (\<lambda>(k, v). AList.update k v) ps r) k = Some v \<longleftrightarrow>
    (k, v) \<in> set ps \<or> k \<notin> fst ` set ps \<and> map_of r k = Some v"
  using assms
proof (induction ps arbitrary: r)
  case (Cons kv ps)
  obtain k' v' where kv: "kv = (k', v')" by force
  have f: "w = v'" if "(k', w) \<in> set ps" for w using Cons.prems[of k' w v'] that by (simp add: kv)
  have IH: "map_of (fold (\<lambda>(k, v). AList.update k v) ps (AList.update k' v' r)) k = Some v \<longleftrightarrow>
      (k, v) \<in> set ps \<or> k \<notin> fst ` set ps \<and> map_of (AList.update k' v' r) k = Some v"
    using Cons.prems by (intro Cons.IH) (meson list.set_intros(2))
  show ?case
  proof (cases "k = k'")
    case True
    then show ?thesis using IH f by (auto simp: kv update_conv' image_iff)
  next
    case False
    then show ?thesis using IH by (auto simp: kv update_conv')
  qed
qed simp

text \<open>What a flat configuration holds survives the way to a hierarchical one and back.\<close>

lemma map_of_Flatten_Expand:
  assumes "keys_ok m"
  shows "map_of (Flatten (Expand m)) = map_of m"
proof -
  let ?ps = "map (\<lambda>(p, v). (foldl path_Join [] p, v)) (leaves (Expand m))"
  have "Flatten (Expand m) = fold (\<lambda>(k, v). AList.update k v) ?ps []"
    by (simp add: Flatten_def flatten_leaves(1) fold_map comp_def case_prod_unfold)
  then have F: "map_of (Flatten (Expand m)) = map_of (fold (\<lambda>(k, v). AList.update k v) ?ps [])" by simp
  have seg: "\<forall>s \<in> set (Split (CHR ''/'') k). segment_ok s" if "(k, v) \<in> set m" for k v
    using assms that unfolding keys_ok_def by blast
  have key: "foldl path_Join [] (Split (CHR ''/'') k) = k" if "(k, v) \<in> set m" for k v
    using joined_segments[of "[]" "Split (CHR ''/'') k"] seg[OF that] by (simp add: Join_Split)
  have in_ps: "(k, v) \<in> set ?ps \<longleftrightarrow> (k, v) \<in> set m" for k v
  proof
    assume "(k, v) \<in> set ?ps"
    then obtain p where "(p, v) \<in> set (leaves (Expand m))" "k = foldl path_Join [] p" by auto
    then show "(k, v) \<in> set m" using leaves_Expand(2)[OF assms, of p v] key by auto
  next
    assume m: "(k, v) \<in> set m"
    then have "(Split (CHR ''/'') k, v) \<in> set (leaves (Expand m))" using leaves_Expand(2)[OF assms] by blast
    then show "(k, v) \<in> set ?ps" using key[OF m] by (force intro!: image_eqI)
  qed
  have d: "distinct (map fst m)" using assms by (simp add: keys_ok_def)
  have "map_of (Flatten (Expand m)) k = Some v \<longleftrightarrow> (k, v) \<in> set m" for k v
    unfolding F by (subst map_of_fold_update) (use in_ps eq_key_imp_eq_value[OF d] in \<open>auto simp del: set_map\<close>)
  then have "map_of (Flatten (Expand m)) k = Some v \<longleftrightarrow> map_of m k = Some v" for k v using d by simp
  then show ?thesis by (intro ext) (metis not_Some_eq)
qed

end
