(* ===== verification/Config_Options.thy ===== *)
theory Config_Options
  imports Config_Values
begin

section \<open>Configuration: options and validation\<close>

text \<open>
  Options, the checks a value passes before it becomes active, and annotations: \<^verbatim>\<open>config/option.go\<close>
  and \<^verbatim>\<open>config/validate.go\<close>. A \<open>ValidationError\<close> is an error that wraps its cause, with the text the
  source gives it. Migration and validation functions are fields of the option; a migration is
  given its option by the closure.
\<close>

definition optTypeAny :: uint8 where "optTypeAny = 0"
definition OptTypeString :: uint8 where "OptTypeString = 1"
definition OptTypeStringArray :: uint8 where "OptTypeStringArray = 2"
definition OptTypeInt :: uint8 where "OptTypeInt = 3"
definition OptTypeBool :: uint8 where "OptTypeBool = 4"

lemmas opttype_defs = optTypeAny_def OptTypeString_def OptTypeStringArray_def OptTypeInt_def OptTypeBool_def

lemma opttype_distinct [simp]:
  "OptTypeString \<noteq> OptTypeStringArray" "OptTypeString \<noteq> OptTypeInt" "OptTypeString \<noteq> OptTypeBool"
  "OptTypeStringArray \<noteq> OptTypeString" "OptTypeStringArray \<noteq> OptTypeInt" "OptTypeStringArray \<noteq> OptTypeBool"
  "OptTypeInt \<noteq> OptTypeString" "OptTypeInt \<noteq> OptTypeStringArray" "OptTypeInt \<noteq> OptTypeBool"
  "OptTypeBool \<noteq> OptTypeString" "OptTypeBool \<noteq> OptTypeStringArray" "OptTypeBool \<noteq> OptTypeInt"
  "optTypeAny \<noteq> OptTypeString" "optTypeAny \<noteq> OptTypeStringArray" "optTypeAny \<noteq> OptTypeInt" "optTypeAny \<noteq> OptTypeBool"
  "OptTypeString \<noteq> optTypeAny" "OptTypeStringArray \<noteq> optTypeAny" "OptTypeInt \<noteq> optTypeAny" "OptTypeBool \<noteq> optTypeAny"
  by (simp_all add: opttype_defs)

definition getTypeName :: "uint8 \<Rightarrow> string" where
  "getTypeName t =
     (if t = optTypeAny then ''any''
      else if t = OptTypeString then ''string''
      else if t = OptTypeStringArray then ''[]string''
      else if t = OptTypeInt then ''int''
      else if t = OptTypeBool then ''bool''
      else ''unknown'')"

record valueCache =
  stringVal :: string
  stringArrayVal :: "string list"
  intVal :: int64
  boolVal :: bool

definition no_value :: valueCache where
  "no_value = \<lparr>stringVal = [], stringArrayVal = [], intVal = 0, boolVal = False\<rparr>"

record 'f Option =
  oName :: string
  oKey :: string
  oDescription :: string
  oHelp :: string
  oSensitive :: bool
  oOptType :: uint8
  oExpertiseLevel :: uint8
  oReleaseLevel :: uint8
  oRequiresRestart :: bool
  oDefaultValue :: "'f cvalue"
  oValidationRegex :: string
  oValidationFunc :: "('f cvalue \<Rightarrow> goerr option) option"
  oPossibleValues :: "'f cvalue list option"
  oAnnotations :: "string \<rightharpoonup> 'f cvalue"
  oMigrations :: "('f cvalue \<Rightarrow> 'f cvalue) list"
  activeValue :: "valueCache option"
  activeDefaultValue :: "valueCache option"
  activeFallbackValue :: "valueCache option"
  compiledRegex :: "string option"

subsection \<open>Annotations\<close>

definition AddAnnotation :: "string \<Rightarrow> 'f cvalue \<Rightarrow> 'f Option \<Rightarrow> 'f Option" where
  "AddAnnotation key v opt =
     (if oAnnotations opt key \<noteq> None then opt else opt\<lparr>oAnnotations := (oAnnotations opt)(key \<mapsto> v)\<rparr>)"

definition setAnnotation :: "string \<Rightarrow> 'f cvalue \<Rightarrow> 'f Option \<Rightarrow> 'f Option" where
  "setAnnotation key v opt = opt\<lparr>oAnnotations := (oAnnotations opt)(key \<mapsto> v)\<rparr>"

definition SetAnnotation :: "string \<Rightarrow> 'f cvalue \<Rightarrow> 'f Option \<Rightarrow> 'f Option" where
  "SetAnnotation key v opt = setAnnotation key v opt"

definition GetAnnotation :: "string \<Rightarrow> 'f Option \<Rightarrow> 'f cvalue option" where
  "GetAnnotation key opt = oAnnotations opt key"

definition AnnotationEquals :: "'f config_lib \<Rightarrow> string \<Rightarrow> 'f cvalue \<Rightarrow> 'f Option \<Rightarrow> bool" where
  "AnnotationEquals lib key v opt =
     (case oAnnotations opt key of None \<Rightarrow> False | Some setValue \<Rightarrow> deep_equal lib v setValue)"

definition RestartPendingAnnotation :: string where
  "RestartPendingAnnotation = ''safing/portbase:options:restart-pending''"

subsection \<open>Values\<close>

definition getData :: "'f Option \<Rightarrow> valueCache \<Rightarrow> 'f cvalue" where
  "getData opt vc =
     (if oOptType opt = OptTypeBool then CBool (boolVal vc)
      else if oOptType opt = OptTypeInt then CInt KInt64 (intVal vc)
      else if oOptType opt = OptTypeString then CString (stringVal vc)
      else if oOptType opt = OptTypeStringArray then CStrings (stringArrayVal vc)
      else CNil)"

definition IsSetByUser :: "'f Option \<Rightarrow> bool" where
  "IsSetByUser opt = (activeValue opt \<noteq> None)"

definition UserValue :: "'f Option \<Rightarrow> 'f cvalue" where
  "UserValue opt = (case activeValue opt of None \<Rightarrow> CNil | Some vc \<Rightarrow> getData opt vc)"

subsection \<open>Validation\<close>

text \<open>One possible value: true if it is the given value, after conversion to its type.\<close>

definition possible_match :: "'f config_lib \<Rightarrow> 'f cvalue \<Rightarrow> 'f cvalue \<Rightarrow> bool res" where
  "possible_match lib v pv =
     (if pv = CNil then Inl (GoPanic ''invalid memory address or nil pointer dereference'')
      else if v = CNil then Inl (GoPanic ''reflect: nil type passed to Type.ConvertibleTo'')
      else case iface_eq lib (case convert_to lib v pv of Some c \<Rightarrow> c | None \<Rightarrow> pv) v of
             Inl panic \<Rightarrow> Inl panic
           | Inr True \<Rightarrow> Inr True
           | Inr False \<Rightarrow> Inr (deep_equal lib pv v))"

fun possible_loop :: "'f config_lib \<Rightarrow> 'f cvalue list \<Rightarrow> 'f cvalue \<Rightarrow> goerr option" where
  "possible_loop lib [] v = Some (ErrNew ''value is not allowed'')"
| "possible_loop lib (pv # pvs) v =
     (case possible_match lib v pv of
        Inl panic \<Rightarrow> Some panic
      | Inr True \<Rightarrow> None
      | Inr False \<Rightarrow> possible_loop lib pvs v)"

definition isAllowedPossibleValue :: "'f config_lib \<Rightarrow> 'f Option \<Rightarrow> 'f cvalue \<Rightarrow> goerr option" where
  "isAllowedPossibleValue lib opt v =
     (case oPossibleValues opt of None \<Rightarrow> None | Some pvs \<Rightarrow> possible_loop lib pvs v)"

text \<open>The comparison with the old value is only for a log line, but it can panic.\<close>

fun migrate_loop :: "'f config_lib \<Rightarrow> ('f cvalue \<Rightarrow> 'f cvalue) list \<Rightarrow> 'f cvalue \<Rightarrow> 'f cvalue res" where
  "migrate_loop lib [] v = Inr v"
| "migrate_loop lib (migration # ms) v =
     (let newValue = migration v in
      case iface_eq lib newValue v of Inl panic \<Rightarrow> Inl panic | Inr _ \<Rightarrow> migrate_loop lib ms newValue)"

definition migrateValue :: "'f config_lib \<Rightarrow> 'f Option \<Rightarrow> 'f cvalue \<Rightarrow> 'f cvalue res" where
  "migrateValue lib opt v = migrate_loop lib (oMigrations opt) v"

definition ValidationError :: "'f Option \<Rightarrow> goerr \<Rightarrow> goerr" where
  "ValidationError opt err = ErrWrap (''validation of '' @ oKey opt @ '' failed'') err"

definition invalid :: "'f Option \<Rightarrow> string \<Rightarrow> goerr" where
  "invalid opt msg = ValidationError opt (ErrNew msg)"

definition wrong_type :: "'f Option \<Rightarrow> 'f cvalue \<Rightarrow> goerr" where
  "wrong_type opt v = invalid opt (''expected type '' @ getTypeName (oOptType opt) @ '', got type '' @ type_name v)"

definition regex_ok :: "'f config_lib \<Rightarrow> 'f Option \<Rightarrow> string \<Rightarrow> bool" where
  "regex_ok lib opt s = (case compiledRegex opt of None \<Rightarrow> True | Some re \<Rightarrow> regexp_MatchString lib re s)"

text \<open>The entries of a string array; \<open>pos\<close> is the number of the first one. Entries are compared
  with the possible values only if there is a regular expression.\<close>

fun check_entries :: "'f config_lib \<Rightarrow> 'f Option \<Rightarrow> nat \<Rightarrow> string list \<Rightarrow> goerr option" where
  "check_entries lib opt pos [] = None"
| "check_entries lib opt pos (entry # es) =
     (if \<not> regex_ok lib opt entry
      then Some (invalid opt (''entry #'' @ print_nat pos @ '' did not match validation regex''))
      else case isAllowedPossibleValue lib opt (CString entry) of
             Some err \<Rightarrow> Some (case err of GoPanic _ \<Rightarrow> err
                            | _ \<Rightarrow> invalid opt (''entry #'' @ print_nat pos @ '' is not allowed''))
           | None \<Rightarrow> check_entries lib opt (Suc pos) es)"

fun string_entries :: "'f Option \<Rightarrow> nat \<Rightarrow> 'f cvalue list \<Rightarrow> string list res" where
  "string_entries opt pos [] = Inr []"
| "string_entries opt pos (CString s # es) =
     (case string_entries opt (Suc pos) es of Inl err \<Rightarrow> Inl err | Inr ss \<Rightarrow> Inr (s # ss))"
| "string_entries opt pos (_ # es) = Inl (invalid opt (''entry #'' @ print_nat pos @ '' is not a string''))"

text \<open>The cases of the type switch, for all values but \<open>[]interface{}\<close>.\<close>

definition check_number :: "'f config_lib \<Rightarrow> 'f Option \<Rightarrow> 'f cvalue \<Rightarrow> valueCache res \<Rightarrow> valueCache res" where
  "check_number lib opt v converted =
     (if oOptType opt \<noteq> OptTypeInt then Inl (wrong_type opt v)
      else if \<not> regex_ok lib opt (print_cvalue lib v) then Inl (invalid opt ''did not match validation regex'')
      else converted)"

definition check_type :: "'f config_lib \<Rightarrow> 'f Option \<Rightarrow> 'f cvalue \<Rightarrow> valueCache res" where
  "check_type lib opt v =
     (case v of
        CString s \<Rightarrow>
          if oOptType opt \<noteq> OptTypeString then Inl (wrong_type opt v)
          else if \<not> regex_ok lib opt s then Inl (invalid opt ''did not match validation regex'')
          else Inr (no_value\<lparr>stringVal := s\<rparr>)
      | CStrings ss \<Rightarrow>
          if oOptType opt \<noteq> OptTypeStringArray then Inl (wrong_type opt v)
          else (case (if compiledRegex opt \<noteq> None then check_entries lib opt 1 ss else None) of
                  Some err \<Rightarrow> Inl err
                | None \<Rightarrow> Inr (no_value\<lparr>stringArrayVal := ss\<rparr>))
      | CInt k w \<Rightarrow> check_number lib opt v (Inr (no_value\<lparr>intVal := w\<rparr>))
      | CFloat32 f \<Rightarrow>
          check_number lib opt v
            (if float_integral lib f then Inr (no_value\<lparr>intVal := float_to_int64 lib f\<rparr>)
             else Inl (invalid opt ''failed to convert float32 to int64''))
      | CFloat64 f \<Rightarrow>
          check_number lib opt v
            (if float_integral lib f then Inr (no_value\<lparr>intVal := float_to_int64 lib f\<rparr>)
             else Inl (invalid opt ''failed to convert float64 to int64''))
      | CBool b \<Rightarrow>
          if oOptType opt \<noteq> OptTypeBool then Inl (wrong_type opt v) else Inr (no_value\<lparr>boolVal := b\<rparr>)
      | _ \<Rightarrow> Inl (invalid opt (''invalid option value type: '' @ type_name v)))"

definition validation_func :: "'f Option \<Rightarrow> valueCache \<Rightarrow> valueCache res" where
  "validation_func opt validated =
     (case oValidationFunc opt of
        None \<Rightarrow> Inr validated
      | Some f \<Rightarrow>
          (case (if oOptType opt = optTypeAny then Some (ErrNew ''internal error'')
                 else if oOptType opt \<in> {OptTypeString, OptTypeStringArray, OptTypeInt, OptTypeBool}
                 then f (getData opt validated) else None) of
             Some err \<Rightarrow> Inl (ValidationError opt err)
           | None \<Rightarrow> Inr validated))"

definition check_possible :: "'f config_lib \<Rightarrow> 'f Option \<Rightarrow> 'f cvalue \<Rightarrow> goerr option" where
  "check_possible lib opt v =
     (if oOptType opt \<noteq> OptTypeStringArray
      then (case isAllowedPossibleValue lib opt v of
              None \<Rightarrow> None
            | Some err \<Rightarrow> Some (case err of GoPanic _ \<Rightarrow> err | _ \<Rightarrow> ValidationError opt err))
      else None)"

definition validate_flat :: "'f config_lib \<Rightarrow> 'f Option \<Rightarrow> 'f cvalue \<Rightarrow> valueCache res" where
  "validate_flat lib opt v =
     (case check_possible lib opt v of
        Some err \<Rightarrow> Inl err
      | None \<Rightarrow> (case check_type lib opt v of Inl err \<Rightarrow> Inl err | Inr vc \<Rightarrow> validation_func opt vc))"

text \<open>A \<open>[]interface{}\<close> is converted and validated again as \<open>[]string\<close>; the validation function then
  runs a second time.\<close>

definition validateValue :: "'f config_lib \<Rightarrow> 'f Option \<Rightarrow> 'f cvalue \<Rightarrow> valueCache res" where
  "validateValue lib opt v =
     (case v of
        CList es \<Rightarrow>
          (case check_possible lib opt v of
             Some err \<Rightarrow> Inl err
           | None \<Rightarrow>
               (case string_entries opt 1 es of
                  Inl err \<Rightarrow> Inl err
                | Inr ss \<Rightarrow>
                    (case validate_flat lib opt (CStrings ss) of
                       Inl err \<Rightarrow> Inl err
                     | Inr vc \<Rightarrow> validation_func opt vc)))
      | _ \<Rightarrow> validate_flat lib opt v)"

definition ValidateValue :: "'f config_lib \<Rightarrow> 'f Option \<Rightarrow> 'f cvalue \<Rightarrow> goerr option" where
  "ValidateValue lib opt v =
     (case migrateValue lib opt v of
        Inl panic \<Rightarrow> Some panic
      | Inr v' \<Rightarrow> (case validateValue lib opt v' of Inl err \<Rightarrow> Some err | Inr _ \<Rightarrow> None))"

end
