(* ===== verification/Config_System.thy ===== *)
theory Config_System
  imports Config_Options "HOL-Library.List_Lexorder" "HOL-Library.Char_ord"
begin

section \<open>Configuration: registry, setting and getting\<close>

text \<open>
  The state of the package \<^verbatim>\<open>config\<close> and its operations: \<^verbatim>\<open>registry.go\<close>, \<^verbatim>\<open>set.go\<close>, \<^verbatim>\<open>get.go\<close>,
  \<^verbatim>\<open>get-safe.go\<close>, \<^verbatim>\<open>validity.go\<close>, \<^verbatim>\<open>release.go\<close>, \<^verbatim>\<open>expertise.go\<close>, \<^verbatim>\<open>perspective.go\<close>,
  \<^verbatim>\<open>persistence.go\<close> and \<^verbatim>\<open>database.go\<close>.

  Options are objects that are shared by pointers: \<open>optStore\<close> is the store and a pointer a number.
  The validity flags form a sequence of which only the newest is set, so a flag is its
  number and \<open>validityFlag\<close> the number of the current one. An operation that iterates over the
  options takes the order as an argument, since Go maps have none; \<open>is_order\<close> says that it
  has every key once. The configuration file is a field of the state; \<open>json_lib\<close> has the JSON codec
  and what writing the file returns. Updates that are pushed to the database and change events
  are recorded in lists.
\<close>

type_synonym optref = nat

record 'f json_lib =
  json_marshal :: "(string \<times> 'f cvalue) list \<Rightarrow> bytes res"
  json_unmarshal :: "bytes \<Rightarrow> (string \<times> 'f cvalue) list res"
  write_err :: "goerr option"

record 'f config =
  optStore :: "optref \<Rightarrow> 'f Option"
  options :: "string \<rightharpoonup> optref"
  validityFlag :: nat
  releaseLevel :: uint8
  releaseLevelOption :: "optref option"
  expertiseLevel :: uint8
  expertiseLevelOption :: "optref option"
  pushedUpdates :: "string list"
  changeEvents :: nat
  configFilePath :: string
  configFile :: "bytes res"
  loadedConfigValidationErrors :: "goerr list"

definition is_order :: "'f config \<Rightarrow> string list \<Rightarrow> bool" where
  "is_order c order \<longleftrightarrow> distinct order \<and> set order = dom (options c)"

definition upd_option :: "optref \<Rightarrow> ('f Option \<Rightarrow> 'f Option) \<Rightarrow> 'f config \<Rightarrow> 'f config" where
  "upd_option r f c = c\<lparr>optStore := (optStore c)(r := f (optStore c r))\<rparr>"

subsection \<open>Registry\<close>

definition GetOption :: "string \<Rightarrow> 'f config \<Rightarrow> optref res" where
  "GetOption name c =
     (case options c name of
        None \<Rightarrow> Inl (ErrNew (''option '' @ [CHR 0x22] @ name @ [CHR 0x22] @ '' does not exist''))
      | Some r \<Rightarrow> Inr r)"

text \<open>The option of \<open>Register\<close> before it is added: its expression is compiled, its default value
  validated. The fields that were set stay set when an error follows.\<close>

definition prepare_option :: "'f config_lib \<Rightarrow> 'f Option \<Rightarrow> 'f Option \<times> goerr option" where
  "prepare_option lib opt =
     (if oName opt = [] then (opt, Some (ErrNew ''failed to register option: please set option.Name''))
      else if oKey opt = [] then (opt, Some (ErrNew ''failed to register option: please set option.Key''))
      else if oDescription opt = [] then (opt, Some (ErrNew ''failed to register option: please set option.Description''))
      else if oOptType opt = 0 then (opt, Some (ErrNew ''failed to register option: please set option.OptType''))
      else
        (let opt1 = (if oValidationRegex opt = []
                     then (case oPossibleValues opt of
                             None \<Rightarrow> opt
                           | Some pvs \<Rightarrow> opt\<lparr>oValidationRegex := ''^('' @ Join ''|'' (map (print_cvalue lib) pvs) @ '')$''\<rparr>)
                     else opt) in
         case (if oValidationRegex opt1 \<noteq> [] then regexp_Compile lib (oValidationRegex opt1) else None) of
           Some err \<Rightarrow> (opt1, Some (ErrWrap ''config: could not compile option.ValidationRegex'' err))
         | None \<Rightarrow>
             (let opt2 = (if oValidationRegex opt1 \<noteq> [] then opt1\<lparr>compiledRegex := Some (oValidationRegex opt1)\<rparr> else opt1) in
              case validateValue lib opt2 (oDefaultValue opt2) of
                Inl err \<Rightarrow>
                  (opt2\<lparr>activeFallbackValue := None\<rparr>,
                   Some (case err of GoPanic _ \<Rightarrow> err | _ \<Rightarrow> ErrWrap ''config: invalid default value'' err))
              | Inr vc \<Rightarrow> (opt2\<lparr>activeFallbackValue := Some vc\<rparr>, None))))"

definition Register :: "'f config_lib \<Rightarrow> optref \<Rightarrow> 'f config \<Rightarrow> 'f config \<times> goerr option" where
  "Register lib r c =
     (case prepare_option lib (optStore c r) of
        (opt, Some err) \<Rightarrow> (upd_option r (\<lambda>_. opt) c, Some err)
      | (opt, None) \<Rightarrow> ((upd_option r (\<lambda>_. opt) c)\<lparr>options := (options c)(oKey opt \<mapsto> r)\<rparr>, None))"

subsection \<open>Release and expertise level\<close>

definition ReleaseLevelStable :: uint8 where "ReleaseLevelStable = 0"
definition ReleaseLevelBeta :: uint8 where "ReleaseLevelBeta = 1"
definition ReleaseLevelExperimental :: uint8 where "ReleaseLevelExperimental = 2"
definition ExpertiseLevelUser :: uint8 where "ExpertiseLevelUser = 0"
definition ExpertiseLevelExpert :: uint8 where "ExpertiseLevelExpert = 1"
definition ExpertiseLevelDeveloper :: uint8 where "ExpertiseLevelDeveloper = 2"

definition level_option :: "string \<Rightarrow> string \<Rightarrow> string \<Rightarrow> uint8 \<Rightarrow> string \<Rightarrow> string list \<Rightarrow> int64 \<Rightarrow> string \<Rightarrow> 'f Option" where
  "level_option name key descr expertise def_value values order category =
     \<lparr>oName = name, oKey = key, oDescription = descr, oHelp = [], oSensitive = False, oOptType = OptTypeString,
      oExpertiseLevel = expertise, oReleaseLevel = ReleaseLevelStable, oRequiresRestart = False,
      oDefaultValue = CString def_value, oValidationRegex = [], oValidationFunc = None,
      oPossibleValues = Some (map CString values),
      oAnnotations = [''safing/portbase:ui:order'' \<mapsto> CInt KInt order,
                      ''safing/portbase:ui:display-hint'' \<mapsto> CString ''one-of'',
                      ''safing/portbase:ui:category'' \<mapsto> CString category],
      oMigrations = [], activeValue = None, activeDefaultValue = None, activeFallbackValue = None,
      compiledRegex = None\<rparr>"

definition release_option :: "'f Option" where
  "release_option =
     level_option ''Feature Stability'' ''core/releaseLevel''
       (''May break things. Decide if you want to experiment with unstable features. '' @
        ''\"Beta\" has been tested roughly by the Safing team while \"Experimental\" is really raw. '' @
        ''When \"Beta\" or \"Experimental\" are disabled, their settings use the default again.'')
       ExpertiseLevelDeveloper ''stable'' [''stable'', ''beta'', ''experimental''] (- 8) ''Updates''"

definition expertise_option :: "'f Option" where
  "expertise_option =
     level_option ''UI Mode'' ''core/expertiseLevel''
       (''Control the default amount of settings and information shown. Hidden settings are still in effect. '' @
        ''Can be changed temporarily in the top right corner.'')
       ExpertiseLevelUser ''user'' [''user'', ''expert'', ''developer''] (- 16) ''User Interface''"

text \<open>The two functions store a new option object \<open>r\<close>; an error of \<open>Register\<close> would panic.\<close>

definition registerReleaseLevelOption :: "'f config_lib \<Rightarrow> optref \<Rightarrow> 'f config \<Rightarrow> 'f config res" where
  "registerReleaseLevelOption lib r c =
     (case Register lib r (upd_option r (\<lambda>_. release_option) c) of
        (c1, Some err) \<Rightarrow> Inl (GoPanic (err_text err))
      | (c1, None) \<Rightarrow> Inr (c1\<lparr>releaseLevelOption := Some r\<rparr>))"

definition registerExpertiseLevelOption :: "'f config_lib \<Rightarrow> optref \<Rightarrow> 'f config \<Rightarrow> 'f config res" where
  "registerExpertiseLevelOption lib r c =
     (case Register lib r (upd_option r (\<lambda>_. expertise_option) c) of
        (c1, Some err) \<Rightarrow> Inl (GoPanic (err_text err))
      | (c1, None) \<Rightarrow> Inr (c1\<lparr>expertiseLevelOption := Some r\<rparr>))"

text \<open>The value both functions use: the last assignment wins.\<close>

definition level_value :: "'f Option \<Rightarrow> valueCache option" where
  "level_value opt =
     (if activeDefaultValue opt \<noteq> None then activeDefaultValue opt
      else if activeValue opt \<noteq> None then activeValue opt
      else activeFallbackValue opt)"

definition release_level_of :: "string \<Rightarrow> uint8" where
  "release_level_of s =
     (if s = ''stable'' then ReleaseLevelStable
      else if s = ''beta'' then ReleaseLevelBeta
      else if s = ''experimental'' then ReleaseLevelExperimental
      else ReleaseLevelStable)"

definition expertise_level_of :: "string \<Rightarrow> uint8" where
  "expertise_level_of s =
     (if s = ''user'' then ExpertiseLevelUser
      else if s = ''expert'' then ExpertiseLevelExpert
      else if s = ''developer'' then ExpertiseLevelDeveloper
      else ExpertiseLevelUser)"

text \<open>A registered option always has a fallback value.\<close>

definition updateReleaseLevel :: "optref \<Rightarrow> 'f config \<Rightarrow> 'f config" where
  "updateReleaseLevel r c = c\<lparr>releaseLevel := release_level_of (stringVal (the (level_value (optStore c r))))\<rparr>"

definition updateExpertiseLevel :: "optref \<Rightarrow> 'f config \<Rightarrow> 'f config" where
  "updateExpertiseLevel r c = c\<lparr>expertiseLevel := expertise_level_of (stringVal (the (level_value (optStore c r))))\<rparr>"

definition getReleaseLevel :: "'f config \<Rightarrow> uint8" where
  "getReleaseLevel c = releaseLevel c"

definition GetExpertiseLevel :: "'f config \<Rightarrow> uint8" where
  "GetExpertiseLevel c = expertiseLevel c"

text \<open>An option that cannot be exported to JSON is not pushed; options made of JSON values can.\<close>

definition pushUpdate :: "optref \<Rightarrow> 'f config \<Rightarrow> 'f config" where
  "pushUpdate r c = c\<lparr>pushedUpdates := pushedUpdates c @ [oKey (optStore c r)]\<rparr>"

definition handleOptionUpdate :: "optref \<Rightarrow> bool \<Rightarrow> 'f config \<Rightarrow> 'f config" where
  "handleOptionUpdate r push c =
     (let c1 = (if expertiseLevelOption c = Some r then updateExpertiseLevel r c else c);
          c2 = (if releaseLevelOption c1 = Some r then updateReleaseLevel r c1 else c1) in
      if push then pushUpdate r c2 else c2)"

subsection \<open>Setting values\<close>

definition signalChanges :: "'f config \<Rightarrow> 'f config" where
  "signalChanges c = c\<lparr>validityFlag := Suc (validityFlag c), changeEvents := Suc (changeEvents c)\<rparr>"

text \<open>A new value for an option: migrated and validated.\<close>

definition new_value :: "'f config_lib \<Rightarrow> 'f Option \<Rightarrow> 'f cvalue \<Rightarrow> valueCache res" where
  "new_value lib opt v =
     (case migrateValue lib opt v of Inl panic \<Rightarrow> Inl panic | Inr v' \<Rightarrow> validateValue lib opt v')"

definition not_panic :: "goerr \<Rightarrow> bool" where
  "not_panic err = (case err of GoPanic _ \<Rightarrow> False | _ \<Rightarrow> True)"

text \<open>\<open>ValidateConfig\<close>: the errors, whether a restart is required, and whether there are unknown
  keys. A panic ends the call.\<close>

definition validate_step ::
  "'f config_lib \<Rightarrow> 'f config \<Rightarrow> (string \<rightharpoonup> 'f cvalue) \<Rightarrow> string \<Rightarrow> (goerr list \<times> bool \<times> nat) res \<Rightarrow> (goerr list \<times> bool \<times> nat) res" where
  "validate_step lib c newValues key acc =
     (case acc of
        Inl panic \<Rightarrow> Inl panic
      | Inr (errs, restart, n) \<Rightarrow>
          (case newValues key of
             None \<Rightarrow> acc
           | Some v \<Rightarrow>
               (let opt = optStore c (the (options c key)) in
                case new_value lib opt v of
                  Inr _ \<Rightarrow> Inr (errs, restart \<or> oRequiresRestart opt, Suc n)
                | Inl err \<Rightarrow> if not_panic err then Inr (errs @ [err], restart \<or> oRequiresRestart opt, Suc n) else Inl err)))"

definition ValidateConfig ::
  "'f config_lib \<Rightarrow> string list \<Rightarrow> (string \<rightharpoonup> 'f cvalue) \<Rightarrow> 'f config \<Rightarrow> (goerr list \<times> bool \<times> bool) res" where
  "ValidateConfig lib order newValues c =
     (case fold (validate_step lib c newValues) order (Inr ([], False, 0)) of
        Inl panic \<Rightarrow> Inl panic
      | Inr (errs, restart, n) \<Rightarrow> Inr (errs, restart, n < card (dom newValues)))"

text \<open>The two \<open>Replace\<close> functions differ in the field they set, given as its update function.\<close>

definition replace_step ::
  "'f config_lib \<Rightarrow> ((valueCache option \<Rightarrow> valueCache option) \<Rightarrow> 'f Option \<Rightarrow> 'f Option) \<Rightarrow> (string \<rightharpoonup> 'f cvalue) \<Rightarrow>
   string \<Rightarrow> 'f config \<times> (goerr list \<times> bool) res \<Rightarrow> 'f config \<times> (goerr list \<times> bool) res" where
  "replace_step lib field newValues key st =
     (case st of
        (c, Inl panic) \<Rightarrow> (c, Inl panic)
      | (c, Inr (errs, restart)) \<Rightarrow>
          (let r = the (options c key); opt = optStore c r;
               cleared = upd_option r (field (\<lambda>_. None)) c;
               restart' = (restart \<or> oRequiresRestart opt) in
           case newValues key of
             None \<Rightarrow> (handleOptionUpdate r True cleared, Inr (errs, restart'))
           | Some v \<Rightarrow>
               (case new_value lib opt v of
                  Inr vc \<Rightarrow> (handleOptionUpdate r True (upd_option r (field (\<lambda>_. Some vc)) c), Inr (errs, restart'))
                | Inl err \<Rightarrow>
                    if not_panic err then (handleOptionUpdate r True cleared, Inr (errs @ [err], restart'))
                    else (cleared, Inl err))))"

definition replace_config ::
  "'f config_lib \<Rightarrow> ((valueCache option \<Rightarrow> valueCache option) \<Rightarrow> 'f Option \<Rightarrow> 'f Option) \<Rightarrow> string list \<Rightarrow>
   (string \<rightharpoonup> 'f cvalue) \<Rightarrow> 'f config \<Rightarrow> 'f config \<times> (goerr list \<times> bool) res" where
  "replace_config lib field order newValues c =
     (case fold (replace_step lib field newValues) order (c, Inr ([], False)) of
        (c1, Inl panic) \<Rightarrow> (c1, Inl panic)
      | (c1, Inr res) \<Rightarrow> (signalChanges c1, Inr res))"

definition ReplaceConfig ::
  "'f config_lib \<Rightarrow> string list \<Rightarrow> (string \<rightharpoonup> 'f cvalue) \<Rightarrow> 'f config \<Rightarrow> 'f config \<times> (goerr list \<times> bool) res" where
  "ReplaceConfig lib = replace_config lib activeValue_update"

definition ReplaceDefaultConfig ::
  "'f config_lib \<Rightarrow> string list \<Rightarrow> (string \<rightharpoonup> 'f cvalue) \<Rightarrow> 'f config \<Rightarrow> 'f config \<times> (goerr list \<times> bool) res" where
  "ReplaceDefaultConfig lib = replace_config lib activeDefaultValue_update"

subsection \<open>Saving and loading\<close>

definition activeValues :: "string list \<Rightarrow> 'f config \<Rightarrow> (string \<times> 'f cvalue) list" where
  "activeValues order c =
     concat (map (\<lambda>key. let opt = optStore c (the (options c key)) in
                        case activeValue opt of None \<Rightarrow> [] | Some vc \<Rightarrow> [(key, getData opt vc)]) order)"

definition MapToJSON :: "'f json_lib \<Rightarrow> (string \<times> 'f cvalue) list \<Rightarrow> bytes res" where
  "MapToJSON jl config = json_marshal jl (Expand config)"

definition JSONToMap :: "'f json_lib \<Rightarrow> bytes \<Rightarrow> (string \<times> 'f cvalue) list res" where
  "JSONToMap jl jsonData =
     (case json_unmarshal jl jsonData of Inl err \<Rightarrow> Inl err | Inr loaded \<Rightarrow> Inr (Flatten loaded))"

definition SaveConfig :: "'f json_lib \<Rightarrow> string list \<Rightarrow> 'f config \<Rightarrow> 'f config \<times> goerr option" where
  "SaveConfig jl order c =
     (if configFilePath c = [] then (c, None)
      else case MapToJSON jl (activeValues order c) of
             Inl err \<Rightarrow> (c, Some err)
           | Inr data \<Rightarrow>
               (case write_err jl of
                  Some err \<Rightarrow> (c, Some err)
                | None \<Rightarrow> (c\<lparr>configFile := Inr data\<rparr>, None)))"

definition loadConfig :: "'f config_lib \<Rightarrow> 'f json_lib \<Rightarrow> string list \<Rightarrow> bool \<Rightarrow> 'f config \<Rightarrow> 'f config \<times> goerr option" where
  "loadConfig lib jl order requireValidConfig c =
     (if configFilePath c = [] then (c, None)
      else case configFile c of
             Inl err \<Rightarrow> (c, Some err)
           | Inr data \<Rightarrow>
               (case JSONToMap jl data of
                  Inl err \<Rightarrow> (c, Some err)
                | Inr newValues \<Rightarrow>
                    (case ReplaceConfig lib order (map_of newValues) c of
                       (c1, Inl panic) \<Rightarrow> (c1, Some panic)
                     | (c1, Inr (errs, _)) \<Rightarrow>
                         if requireValidConfig \<and> errs \<noteq> []
                         then (c1, Some (ErrNew (''encountered '' @ print_nat (length errs) @
                                                 '' validation errors during config loading'')))
                         else (c1\<lparr>loadedConfigValidationErrors := errs\<rparr>, None))))"

definition GetLoadedConfigValidationErrors :: "'f config \<Rightarrow> goerr list" where
  "GetLoadedConfigValidationErrors c = loadedConfigValidationErrors c"

subsection \<open>Setting one option\<close>

text \<open>The part under the option's lock; the error is the one that is returned after unlocking.\<close>

definition set_locked ::
  "'f config_lib \<Rightarrow> ((valueCache option \<Rightarrow> valueCache option) \<Rightarrow> 'f Option \<Rightarrow> 'f Option) \<Rightarrow> optref \<Rightarrow>
   'f cvalue \<Rightarrow> bool \<Rightarrow> 'f config \<Rightarrow> 'f config \<times> goerr option" where
  "set_locked lib field r v push c =
     (let opt = optStore c r;
          (opt1, err) = (if v = CNil then (field (\<lambda>_. None) opt, None)
                         else case new_value lib opt v of
                                Inr vc \<Rightarrow> (field (\<lambda>_. Some vc) opt, None)
                              | Inl err \<Rightarrow> (opt, Some err)) in
      case err of
        Some (GoPanic m) \<Rightarrow> (c, err)
      | _ \<Rightarrow>
          (let opt2 = (if oRequiresRestart opt1 then setAnnotation RestartPendingAnnotation (CBool True) opt1 else opt1) in
           (handleOptionUpdate r push (upd_option r (\<lambda>_. opt2) c), err)))"

definition setConfigOption ::
  "'f config_lib \<Rightarrow> 'f json_lib \<Rightarrow> string list \<Rightarrow> string \<Rightarrow> 'f cvalue \<Rightarrow> bool \<Rightarrow> 'f config \<Rightarrow> 'f config \<times> goerr option" where
  "setConfigOption lib jl order key v push c =
     (case GetOption key c of
        Inl err \<Rightarrow> (c, Some err)
      | Inr r \<Rightarrow>
          (case set_locked lib activeValue_update r v push c of
             (c1, Some err) \<Rightarrow> (c1, Some err)
           | (c1, None) \<Rightarrow> SaveConfig jl order (signalChanges c1)))"

definition SetConfigOption ::
  "'f config_lib \<Rightarrow> 'f json_lib \<Rightarrow> string list \<Rightarrow> string \<Rightarrow> 'f cvalue \<Rightarrow> 'f config \<Rightarrow> 'f config \<times> goerr option" where
  "SetConfigOption lib jl order key v = setConfigOption lib jl order key v True"

definition setDefaultConfigOption ::
  "'f config_lib \<Rightarrow> string \<Rightarrow> 'f cvalue \<Rightarrow> bool \<Rightarrow> 'f config \<Rightarrow> 'f config \<times> goerr option" where
  "setDefaultConfigOption lib key v push c =
     (case GetOption key c of
        Inl err \<Rightarrow> (c, Some err)
      | Inr r \<Rightarrow>
          (case set_locked lib activeDefaultValue_update r v push c of
             (c1, Some err) \<Rightarrow> (c1, Some err)
           | (c1, None) \<Rightarrow> (signalChanges c1, None)))"

definition SetDefaultConfigOption ::
  "'f config_lib \<Rightarrow> string \<Rightarrow> 'f cvalue \<Rightarrow> 'f config \<Rightarrow> 'f config \<times> goerr option" where
  "SetDefaultConfigOption lib key v = setDefaultConfigOption lib key v True"

subsection \<open>Getting values\<close>

definition getValueCache :: "string \<Rightarrow> optref option \<Rightarrow> uint8 \<Rightarrow> 'f config \<Rightarrow> optref option \<times> valueCache option" where
  "getValueCache name ro requestedType c =
     (case (case ro of Some r \<Rightarrow> Some r | None \<Rightarrow> options c name) of
        None \<Rightarrow> (None, None)
      | Some r \<Rightarrow>
          (let opt = optStore c r in
           if requestedType \<noteq> oOptType opt then (Some r, None)
           else if oReleaseLevel opt \<le> getReleaseLevel c \<and> activeValue opt \<noteq> None then (Some r, activeValue opt)
           else if activeDefaultValue opt \<noteq> None then (Some r, activeDefaultValue opt)
           else (Some r, activeFallbackValue opt)))"

text \<open>
  The function that \<open>GetAsString\<close> and the others return, and the ones of \<open>Concurrent\<close>, as a record of
  the variables it closes over: \<open>valid\<close>, \<open>option\<close> and \<open>value\<close>. \<open>gKind\<close> is the requested type,
  and \<open>gRead\<close> the field of the value cache.
\<close>

record 'a getter =
  gName :: string
  gKind :: uint8
  gRead :: "valueCache \<Rightarrow> 'a"
  gFallback :: 'a
  gValid :: nat
  gOption :: "optref option"
  gValue :: 'a

definition getter_value :: "'a getter \<Rightarrow> valueCache option \<Rightarrow> 'a" where
  "getter_value g vc = (case vc of Some v \<Rightarrow> gRead g v | None \<Rightarrow> gFallback g)"

definition GetAs :: "uint8 \<Rightarrow> (valueCache \<Rightarrow> 'a) \<Rightarrow> string \<Rightarrow> 'a \<Rightarrow> 'f config \<Rightarrow> 'a getter" where
  "GetAs kind read name fallback c =
     (let (ro, vc) = getValueCache name None kind c in
      \<lparr>gName = name, gKind = kind, gRead = read, gFallback = fallback, gValid = validityFlag c, gOption = ro,
       gValue = (case vc of Some v \<Rightarrow> read v | None \<Rightarrow> fallback)\<rparr>)"

text \<open>A call of the returned function.\<close>

definition call_getter :: "'a getter \<Rightarrow> 'f config \<Rightarrow> 'a getter \<times> 'a" where
  "call_getter g c =
     (if gValid g \<noteq> validityFlag c
      then (let (ro, vc) = getValueCache (gName g) (gOption g) (gKind g) c;
                g' = g\<lparr>gValid := validityFlag c, gOption := ro, gValue := getter_value g vc\<rparr>
            in (g', gValue g'))
      else (g, gValue g))"

definition GetAsString :: "string \<Rightarrow> string \<Rightarrow> 'f config \<Rightarrow> string getter" where
  "GetAsString = GetAs OptTypeString stringVal"

definition GetAsStringArray :: "string \<Rightarrow> string list \<Rightarrow> 'f config \<Rightarrow> string list getter" where
  "GetAsStringArray = GetAs OptTypeStringArray stringArrayVal"

definition GetAsInt :: "string \<Rightarrow> int64 \<Rightarrow> 'f config \<Rightarrow> int64 getter" where
  "GetAsInt = GetAs OptTypeInt intVal"

definition GetAsBool :: "string \<Rightarrow> bool \<Rightarrow> 'f config \<Rightarrow> bool getter" where
  "GetAsBool = GetAs OptTypeBool boolVal"

text \<open>The getters of \<open>Concurrent\<close> close over a mutex too, so that a call is atomic.\<close>

definition safe_GetAsString :: "string \<Rightarrow> string \<Rightarrow> 'f config \<Rightarrow> string getter" where
  "safe_GetAsString = GetAs OptTypeString stringVal"

definition safe_GetAsStringArray :: "string \<Rightarrow> string list \<Rightarrow> 'f config \<Rightarrow> string list getter" where
  "safe_GetAsStringArray = GetAs OptTypeStringArray stringArrayVal"

definition safe_GetAsInt :: "string \<Rightarrow> int64 \<Rightarrow> 'f config \<Rightarrow> int64 getter" where
  "safe_GetAsInt = GetAs OptTypeInt intVal"

definition safe_GetAsBool :: "string \<Rightarrow> bool \<Rightarrow> 'f config \<Rightarrow> bool getter" where
  "safe_GetAsBool = GetAs OptTypeBool boolVal"

text \<open>\<open>ValidityFlag\<close>: a new one holds a flag that was never set.\<close>

type_synonym validity_flag = "nat option"

definition NewValidityFlag :: validity_flag where
  "NewValidityFlag = None"

definition IsValid :: "validity_flag \<Rightarrow> 'f config \<Rightarrow> bool" where
  "IsValid vf c = (vf = Some (validityFlag c))"

definition Refresh :: "'f config \<Rightarrow> validity_flag" where
  "Refresh c = Some (validityFlag c)"

subsection \<open>Export and the config database\<close>

definition ExportOptions :: "string list \<Rightarrow> 'f config \<Rightarrow> optref list" where
  "ExportOptions order c = sort_key (\<lambda>r. oKey (optStore c r)) (map (\<lambda>key. the (options c key)) order)"

definition ForEachOption :: "(optref \<Rightarrow> goerr option) \<Rightarrow> string list \<Rightarrow> 'f config \<Rightarrow> goerr option" where
  "ForEachOption fn order c =
     fold (\<lambda>key res. case res of Some err \<Rightarrow> res | None \<Rightarrow> fn (the (options c key))) order None"

text \<open>The record an option is exported as: its JSON form with the active value, if there is one,
  in \<open>Value\<close> and the active default in \<open>DefaultValue\<close>.\<close>

record 'f exported =
  eKey :: string
  eOption :: "'f Option"
  eValue :: "'f cvalue option"
  eDefaultValue :: "'f cvalue"

definition export :: "'f Option \<Rightarrow> 'f exported" where
  "export opt =
     \<lparr>eKey = ''config:'' @ oKey opt, eOption = opt, eValue = map_option (getData opt) (activeValue opt),
      eDefaultValue = (case activeDefaultValue opt of Some vc \<Rightarrow> getData opt vc | None \<Rightarrow> oDefaultValue opt)\<rparr>"

definition si_Get :: "string \<Rightarrow> 'f config \<Rightarrow> 'f exported res" where
  "si_Get key c =
     (case GetOption key c of
        Inl _ \<Rightarrow> Inl (ErrNew ''storage entry not found'')
      | Inr r \<Rightarrow> Inr (export (optStore c r)))"

text \<open>What \<open>Put\<close> sees of a record: its key, whether its metadata say it was deleted, and the
  accessor to its data, if it has one.\<close>

record 'f config_acc =
  aGet :: "string \<Rightarrow> 'f cvalue option"
  aGetString :: "string \<Rightarrow> string option"
  aGetStringArray :: "string \<Rightarrow> string list option"
  aGetInt :: "string \<Rightarrow> int64 option"
  aGetBool :: "string \<Rightarrow> bool option"

record 'f put_record =
  pKey :: string
  pDeleted :: bool
  pAccessor :: "'f config_acc option"

definition typed_value :: "uint8 \<Rightarrow> 'f config_acc \<Rightarrow> 'f cvalue option" where
  "typed_value t acc =
     (if t = OptTypeString then map_option CString (aGetString acc ''Value'')
      else if t = OptTypeStringArray then map_option CStrings (aGetStringArray acc ''Value'')
      else if t = OptTypeInt then map_option (CInt KInt64) (aGetInt acc ''Value'')
      else if t = OptTypeBool then map_option CBool (aGetBool acc ''Value'')
      else if t = optTypeAny then None
      else Some CNil)"

text \<open>\<open>Put\<close> returns the record it was given, here None, or an exported one.\<close>

definition si_Put ::
  "'f config_lib \<Rightarrow> 'f json_lib \<Rightarrow> string list \<Rightarrow> 'f put_record \<Rightarrow> 'f config \<Rightarrow> 'f config \<times> 'f exported option res" where
  "si_Put lib jl order r c =
     (if pDeleted r
      then (case setConfigOption lib jl order (pKey r) CNil False c of
              (c1, Some err) \<Rightarrow> (c1, Inl err)
            | (c1, None) \<Rightarrow> (c1, Inr None))
      else case pAccessor r of
             None \<Rightarrow> (c, Inl (ErrNew ''invalid data''))
           | Some acc \<Rightarrow>
               if aGet acc ''Value'' = None \<or> aGet acc ''Value'' = Some CNil
               then (case setConfigOption lib jl order (pKey r) CNil False c of
                       (c1, Some err) \<Rightarrow> (c1, Inl err)
                     | (c1, None) \<Rightarrow> (c1, map_sum id Some (si_Get (pKey r) c1)))
               else (case GetOption (pKey r) c of
                       Inl err \<Rightarrow> (c, Inl err)
                     | Inr opt \<Rightarrow>
                         (case typed_value (oOptType (optStore c opt)) acc of
                            None \<Rightarrow> (c, Inl (ErrNew ''received invalid value in \"Value\"''))
                          | Some v \<Rightarrow>
                              (case setConfigOption lib jl order (pKey r) v False c of
                                 (c1, Some err) \<Rightarrow> (c1, Inl err)
                               | (c1, None) \<Rightarrow> (c1, Inr (Some (export (optStore c1 opt))))))))"

definition si_Delete :: "'f config_lib \<Rightarrow> 'f json_lib \<Rightarrow> string list \<Rightarrow> string \<Rightarrow> 'f config \<Rightarrow> 'f config \<times> goerr option" where
  "si_Delete lib jl order key c = setConfigOption lib jl order key CNil False c"

text \<open>The records a query sends; \<open>processQuery\<close> sorts the options by key.\<close>

definition si_Query :: "string \<Rightarrow> string list \<Rightarrow> 'f config \<Rightarrow> 'f exported list" where
  "si_Query keyPrefix order c =
     map (\<lambda>r. export (optStore c r))
       (sort_key (\<lambda>r. oKey (optStore c r))
          (filter (\<lambda>r. HasPrefix (oKey (optStore c r)) keyPrefix) (map (\<lambda>key. the (options c key)) order)))"

subsection \<open>Perspectives\<close>

type_synonym Perspective = "string \<rightharpoonup> optref \<times> valueCache"

definition perspective_step ::
  "'f config_lib \<Rightarrow> 'f config \<Rightarrow> (string \<rightharpoonup> 'f cvalue) \<Rightarrow> string \<Rightarrow> (Perspective \<times> goerr list) res \<Rightarrow> (Perspective \<times> goerr list) res" where
  "perspective_step lib c config key acc =
     (case acc of
        Inl panic \<Rightarrow> Inl panic
      | Inr (p, errs) \<Rightarrow>
          (case config key of
             None \<Rightarrow> acc
           | Some v \<Rightarrow>
               (let r = the (options c key) in
                case new_value lib (optStore c r) v of
                  Inr vc \<Rightarrow> Inr (p(key \<mapsto> (r, vc)), errs)
                | Inl err \<Rightarrow> if not_panic err then Inr (p, errs @ [err]) else Inl err)))"

definition NewPerspective ::
  "'f config_lib \<Rightarrow> string list \<Rightarrow> (string \<times> 'f cvalue) list \<Rightarrow> 'f config \<Rightarrow> (Perspective \<times> goerr option) res" where
  "NewPerspective lib order config c =
     (case fold (perspective_step lib c (map_of (Flatten config))) order (Inr (Map.empty, [])) of
        Inl panic \<Rightarrow> Inl panic
      | Inr (p, errs) \<Rightarrow>
          Inr (p, case errs of
                    [] \<Rightarrow> None
                  | firstErr # _ \<Rightarrow>
                      Some (ErrWrap (''encountered '' @ print_nat (length errs) @ '' errors, first was'') firstErr)))"

definition getPerspectiveValueCache :: "string \<Rightarrow> uint8 \<Rightarrow> Perspective \<Rightarrow> 'f config \<Rightarrow> valueCache option" where
  "getPerspectiveValueCache name requestedType p c =
     (case p name of
        None \<Rightarrow> None
      | Some (r, vc) \<Rightarrow>
          if requestedType \<noteq> oOptType (optStore c r) \<and> requestedType \<noteq> optTypeAny then None
          else if oReleaseLevel (optStore c r) > getReleaseLevel c then None
          else Some vc)"

definition Has :: "string \<Rightarrow> Perspective \<Rightarrow> 'f config \<Rightarrow> bool" where
  "Has name p c = (getPerspectiveValueCache name optTypeAny p c \<noteq> None)"

definition p_GetAsString :: "string \<Rightarrow> Perspective \<Rightarrow> 'f config \<Rightarrow> string option" where
  "p_GetAsString name p c = map_option stringVal (getPerspectiveValueCache name OptTypeString p c)"

definition p_GetAsStringArray :: "string \<Rightarrow> Perspective \<Rightarrow> 'f config \<Rightarrow> string list option" where
  "p_GetAsStringArray name p c = map_option stringArrayVal (getPerspectiveValueCache name OptTypeStringArray p c)"

definition p_GetAsInt :: "string \<Rightarrow> Perspective \<Rightarrow> 'f config \<Rightarrow> int64 option" where
  "p_GetAsInt name p c = map_option intVal (getPerspectiveValueCache name OptTypeInt p c)"

definition p_GetAsBool :: "string \<Rightarrow> Perspective \<Rightarrow> 'f config \<Rightarrow> bool option" where
  "p_GetAsBool name p c = map_option boolVal (getPerspectiveValueCache name OptTypeBool p c)"

subsection \<open>Cleaning\<close>

definition CleanFlattenedConfig :: "'f config \<Rightarrow> (string \<times> 'f cvalue) list \<Rightarrow> (string \<times> 'f cvalue) list" where
  "CleanFlattenedConfig c flattened = filter (\<lambda>(key, _). options c key \<noteq> None) flattened"

text \<open>\<open>cleanSubMap\<close> returns the map without the entries it deletes, and whether nothing valid was
  found; deleting from a Go map while iterating over it is allowed.\<close>

fun cleanSubMap :: "'f config \<Rightarrow> (string \<times> 'f cvalue) list \<Rightarrow> string \<Rightarrow> (string \<times> 'f cvalue) list"
and cleanEntry :: "'f config \<Rightarrow> string \<Rightarrow> 'f cvalue \<Rightarrow> string \<Rightarrow> 'f cvalue option" where
  "cleanSubMap c [] subKey = []"
| "cleanSubMap c ((key, v) # subMap) subKey =
     (case cleanEntry c key v subKey of None \<Rightarrow> [] | Some v' \<Rightarrow> [(key, v')]) @ cleanSubMap c subMap subKey"
| "cleanEntry c key (CMap m) subKey =
     (let m' = cleanSubMap c m (path_Join subKey key) in if m' = [] then None else Some (CMap m'))"
| "cleanEntry c key v subKey =
     (if Contains key ''/'' then None
      else if options c (path_Join subKey key) \<noteq> None then Some v else None)"

definition CleanHierarchicalConfig :: "'f config \<Rightarrow> (string \<times> 'f cvalue) list \<Rightarrow> (string \<times> 'f cvalue) list" where
  "CleanHierarchicalConfig c config = cleanSubMap c config []"

end
