(* ===== verification/Config_Guarantees.thy ===== *)
theory Config_Guarantees
  imports Config_System
begin

section \<open>Configuration: guarantees\<close>

text \<open>
  What the configuration system promises: only validated values become active, getters always
  return the current value, a saved configuration is loaded back, and where the code departs
  from what it means to do. The user's values and the defaults are set by the same
  code on different fields; the locale \<open>value_field\<close> is the contract of such a field.
\<close>

subsection \<open>Accepted values\<close>

definition cache_ok :: "'f config_lib \<Rightarrow> 'f Option \<Rightarrow> valueCache \<Rightarrow> bool" where
  "cache_ok lib opt vc \<longleftrightarrow>
     (if oOptType opt = OptTypeString
      then vc = no_value\<lparr>stringVal := stringVal vc\<rparr> \<and> regex_ok lib opt (stringVal vc) \<and>
           isAllowedPossibleValue lib opt (CString (stringVal vc)) = None
      else if oOptType opt = OptTypeStringArray
      then vc = no_value\<lparr>stringArrayVal := stringArrayVal vc\<rparr> \<and>
           (compiledRegex opt \<noteq> None \<longrightarrow>
              (\<forall>e \<in> set (stringArrayVal vc). regex_ok lib opt e \<and> isAllowedPossibleValue lib opt (CString e) = None))
      else if oOptType opt = OptTypeInt then vc = no_value\<lparr>intVal := intVal vc\<rparr>
      else oOptType opt = OptTypeBool \<and> vc = no_value\<lparr>boolVal := boolVal vc\<rparr> \<and>
           isAllowedPossibleValue lib opt (CBool (boolVal vc)) = None) \<and>
     pred_option (\<lambda>f. f (getData opt vc) = None) (oValidationFunc opt)"

lemma check_entries_None:
  "check_entries lib opt n es = None \<longleftrightarrow>
     (\<forall>e \<in> set es. regex_ok lib opt e \<and> isAllowedPossibleValue lib opt (CString e) = None)"
  by (induction es arbitrary: n) (auto split: option.splits)

lemma validation_func_Inr: "validation_func opt vc = Inr vc' \<Longrightarrow> vc' = vc"
  by (auto simp: validation_func_def split: option.splits if_splits)

lemma validation_func_ok:
  assumes "validation_func opt vc = Inr vc'" "oOptType opt \<in> {OptTypeString, OptTypeStringArray, OptTypeInt, OptTypeBool}"
  shows "pred_option (\<lambda>f. f (getData opt vc) = None) (oValidationFunc opt)"
  using assms by (cases "oValidationFunc opt") (auto simp: validation_func_def split: option.splits if_splits)

lemma check_number_Inr:
  "check_number lib opt v conv = Inr vc \<longleftrightarrow>
     oOptType opt = OptTypeInt \<and> regex_ok lib opt (print_cvalue lib v) \<and> conv = Inr vc"
  by (simp add: check_number_def)

lemma check_possible_None:
  "check_possible lib opt v = None \<longleftrightarrow> oOptType opt = OptTypeStringArray \<or> isAllowedPossibleValue lib opt v = None"
  by (auto simp: check_possible_def split: option.splits)

lemma validate_flat_ok:
  assumes "validate_flat lib opt v = Inr vc"
  shows "cache_ok lib opt vc"
proof -
  obtain vc0 where t: "check_type lib opt v = Inr vc0" and "validation_func opt vc0 = Inr vc"
    and p: "check_possible lib opt v = None"
    using assms by (auto simp: validate_flat_def split: option.splits sum.splits)
  moreover have "vc = vc0" by (rule validation_func_Inr) fact
  ultimately have f: "validation_func opt vc = Inr vc" and t: "check_type lib opt v = Inr vc" by simp_all
  have "oOptType opt \<in> {OptTypeString, OptTypeStringArray, OptTypeInt, OptTypeBool}"
    using t by (auto simp: check_type_def check_number_def split: cvalue.splits if_splits)
  note func = validation_func_ok[OF f this]
  show ?thesis
  proof (cases v)
    case (CString s)
    with t have "oOptType opt = OptTypeString" "regex_ok lib opt s" "vc = no_value\<lparr>stringVal := s\<rparr>"
      by (auto simp: check_type_def split: if_splits)
    then show ?thesis using p CString func
      by (simp add: cache_ok_def check_possible_None)
  next
    case (CStrings ss)
    with t have "oOptType opt = OptTypeStringArray" "vc = no_value\<lparr>stringArrayVal := ss\<rparr>"
      "compiledRegex opt \<noteq> None \<longrightarrow> check_entries lib opt 1 ss = None"
      by (auto simp: check_type_def split: if_splits option.splits)
    then show ?thesis using func by (simp add: cache_ok_def check_entries_None)
  next
    case (CBool b)
    with t have "oOptType opt = OptTypeBool" "vc = no_value\<lparr>boolVal := b\<rparr>"
      by (auto simp: check_type_def split: if_splits)
    then show ?thesis using p CBool func by (simp add: cache_ok_def check_possible_None)
  qed (use t func in
      \<open>auto simp: check_type_def check_number_Inr cache_ok_def no_value_def split: if_splits\<close>)
qed

lemma validateValue_ok: "validateValue lib opt v = Inr vc \<Longrightarrow> cache_ok lib opt vc"
  using validate_flat_ok[of lib opt]
  by (cases v) (auto simp: validateValue_def dest: validation_func_Inr split: option.splits sum.splits)

lemma new_value_ok: "new_value lib opt v = Inr vc \<Longrightarrow> cache_ok lib opt vc"
  using validateValue_ok by (auto simp: new_value_def split: sum.splits)

subsection \<open>Well-formed configurations\<close>

definition option_ok :: "'f config_lib \<Rightarrow> string \<Rightarrow> 'f Option \<Rightarrow> bool" where
  "option_ok lib key opt \<longleftrightarrow> oKey opt = key \<and>
     (\<exists>vc. activeFallbackValue opt = Some vc \<and> cache_ok lib opt vc) \<and>
     (\<forall>vc. activeValue opt = Some vc \<longrightarrow> cache_ok lib opt vc) \<and>
     (\<forall>vc. activeDefaultValue opt = Some vc \<longrightarrow> cache_ok lib opt vc)"

definition levels_ok :: "'f config \<Rightarrow> bool" where
  "levels_ok c \<longleftrightarrow>
     (case releaseLevelOption c of
        None \<Rightarrow> releaseLevel c = ReleaseLevelStable
      | Some r \<Rightarrow> r \<in> ran (options c) \<and>
                  releaseLevel c = release_level_of (stringVal (the (level_value (optStore c r))))) \<and>
     (case expertiseLevelOption c of
        None \<Rightarrow> expertiseLevel c = ExpertiseLevelUser
      | Some r \<Rightarrow> r \<in> ran (options c) \<and>
                  expertiseLevel c = expertise_level_of (stringVal (the (level_value (optStore c r)))))"

definition config_ok :: "'f config_lib \<Rightarrow> 'f config \<Rightarrow> bool" where
  "config_ok lib c \<longleftrightarrow> (\<forall>key r. options c key = Some r \<longrightarrow> option_ok lib key (optStore c r)) \<and> levels_ok c"

text \<open>What an update of an active value or of the annotations leaves alone.\<close>

definition same_option :: "'f Option \<Rightarrow> 'f Option \<Rightarrow> bool" where
  "same_option a b \<longleftrightarrow> oKey a = oKey b \<and> oOptType a = oOptType b \<and> oReleaseLevel a = oReleaseLevel b \<and>
     oRequiresRestart a = oRequiresRestart b \<and> oValidationFunc a = oValidationFunc b \<and>
     oPossibleValues a = oPossibleValues b \<and> oMigrations a = oMigrations b \<and>
     activeFallbackValue a = activeFallbackValue b \<and> compiledRegex a = compiledRegex b"

lemma static_eqs:
  assumes "same_option a b"
  shows "getData a vc = getData b vc" "regex_ok lib a s = regex_ok lib b s"
    "isAllowedPossibleValue lib a v = isAllowedPossibleValue lib b v"
  using assms by (simp_all add: same_option_def regex_ok_def isAllowedPossibleValue_def getData_def)

lemma cache_ok_static: "same_option a b \<Longrightarrow> cache_ok lib a vc = cache_ok lib b vc"
  by (simp add: cache_ok_def static_eqs[of a b]) (simp add: same_option_def)

lemma handleOptionUpdate_simps [simp]:
  "options (handleOptionUpdate r push c) = options c" "optStore (handleOptionUpdate r push c) = optStore c"
  "validityFlag (handleOptionUpdate r push c) = validityFlag c"
  "releaseLevelOption (handleOptionUpdate r push c) = releaseLevelOption c"
  "expertiseLevelOption (handleOptionUpdate r push c) = expertiseLevelOption c"
  "configFilePath (handleOptionUpdate r push c) = configFilePath c"
  "configFile (handleOptionUpdate r push c) = configFile c"
  by (simp_all add: handleOptionUpdate_def updateReleaseLevel_def updateExpertiseLevel_def pushUpdate_def Let_def)

lemma upd_option_simps [simp]:
  "options (upd_option r f c) = options c" "optStore (upd_option r f c) = (optStore c)(r := f (optStore c r))"
  "validityFlag (upd_option r f c) = validityFlag c"
  "releaseLevelOption (upd_option r f c) = releaseLevelOption c"
  "expertiseLevelOption (upd_option r f c) = expertiseLevelOption c"
  "releaseLevel (upd_option r f c) = releaseLevel c" "expertiseLevel (upd_option r f c) = expertiseLevel c"
  "configFilePath (upd_option r f c) = configFilePath c" "configFile (upd_option r f c) = configFile c"
  by (simp_all add: upd_option_def)

lemma levels_after_update:
  assumes "levels_ok c"
  shows "levels_ok (handleOptionUpdate r push (upd_option r f c))"
  using assms
  by (auto simp: levels_ok_def handleOptionUpdate_def updateReleaseLevel_def updateExpertiseLevel_def
      pushUpdate_def Let_def split: option.splits)

lemma config_ok_update:
  assumes "config_ok lib c" "options c key = Some r" "same_option (f (optStore c r)) (optStore c r)"
    and "\<And>vc. activeValue (f (optStore c r)) = Some vc \<Longrightarrow> cache_ok lib (optStore c r) vc"
    and "\<And>vc. activeDefaultValue (f (optStore c r)) = Some vc \<Longrightarrow> cache_ok lib (optStore c r) vc"
  shows "config_ok lib (handleOptionUpdate r push (upd_option r f c))"
proof -
  let ?o = "optStore c r" and ?n = "f (optStore c r)"
  have o: "option_ok lib k ?n" if "options c k = Some r" for k
  proof -
    have "option_ok lib k ?o" using assms(1) that by (simp add: config_ok_def)
    then show ?thesis
      using assms(3-5) cache_ok_static[OF assms(3), of lib] by (auto simp: option_ok_def same_option_def)
  qed
  then show ?thesis using assms(1) levels_after_update by (auto simp: config_ok_def)
qed

text \<open>Two configurations in which every getter finds the same value for a registered option.\<close>

definition same_view :: "'f config \<Rightarrow> 'f config \<Rightarrow> bool" where
  "same_view c c' \<longleftrightarrow> releaseLevel c' = releaseLevel c \<and>
     (\<forall>r \<in> ran (options c). same_option (optStore c' r) (optStore c r) \<and>
        activeValue (optStore c' r) = activeValue (optStore c r) \<and>
        activeDefaultValue (optStore c' r) = activeDefaultValue (optStore c r))"

text \<open>What every operation guarantees: options stay registered and, unless it signals a change, a
  getter finds the same values as before.\<close>

definition keeps_config :: "'f config_lib \<Rightarrow> 'f config \<Rightarrow> 'f config \<Rightarrow> bool" where
  "keeps_config lib c c' \<longleftrightarrow>
     (config_ok lib c \<longrightarrow> config_ok lib c') \<and> options c \<subseteq>\<^sub>m options c' \<and> validityFlag c \<le> validityFlag c' \<and>
     (config_ok lib c \<longrightarrow> validityFlag c' = validityFlag c \<longrightarrow> same_view c c')"

lemma same_option_refl [simp]: "same_option a a"
  by (simp add: same_option_def)

lemma same_view_refl [simp]: "same_view c c"
  by (simp add: same_view_def)

lemma keeps_config_refl [simp]: "keeps_config lib c c"
  by (simp add: keeps_config_def)

lemma config_ok_frame [simp]:
  "config_ok lib (c\<lparr>configFile := f\<rparr>) = config_ok lib c"
  "config_ok lib (c\<lparr>loadedConfigValidationErrors := errs\<rparr>) = config_ok lib c"
  "config_ok lib (signalChanges c) = config_ok lib c"
  by (simp_all add: config_ok_def levels_ok_def signalChanges_def split: option.splits)

lemma signalChanges_simps [simp]:
  "options (signalChanges c) = options c" "optStore (signalChanges c) = optStore c"
  "validityFlag (signalChanges c) = Suc (validityFlag c)"
  by (simp_all add: signalChanges_def)

lemma keeps_config_frame [simp]:
  "keeps_config lib c (c'\<lparr>configFile := f\<rparr>) = keeps_config lib c c'"
  "keeps_config lib c (c'\<lparr>loadedConfigValidationErrors := errs\<rparr>) = keeps_config lib c c'"
  by (simp_all add: keeps_config_def same_view_def)

lemma SaveConfig_keeps: "keeps_config lib c c1 \<Longrightarrow> SaveConfig jl order c1 = (c2, err) \<Longrightarrow> keeps_config lib c c2"
  by (auto simp: SaveConfig_def split: if_splits sum.splits option.splits)

text \<open>A signalled change keeps a configuration if it is well formed.\<close>

lemma signalled_keeps:
  "(config_ok lib c \<Longrightarrow> config_ok lib c') \<Longrightarrow> options c' = options c \<Longrightarrow> validityFlag c' = validityFlag c \<Longrightarrow>
   keeps_config lib c (signalChanges c')"
  by (simp add: keeps_config_def)

lemma option_ok_D:
  "config_ok lib c \<Longrightarrow> options c key = Some r \<Longrightarrow> option_ok lib key (optStore c r)"
  by (simp add: config_ok_def)

text \<open>The \<open>restart pending\<close> annotation, set after every attempt to set an option.\<close>

definition annotated :: "'f Option \<Rightarrow> 'f Option" where
  "annotated opt = (if oRequiresRestart opt then setAnnotation RestartPendingAnnotation (CBool True) opt else opt)"

text \<open>The new content of a value field: a value that is not set or fails to validate clears it.\<close>

definition field_value :: "'f config_lib \<Rightarrow> 'f Option \<Rightarrow> 'f cvalue option \<Rightarrow> valueCache option res" where
  "field_value lib opt vo = (case vo of None \<Rightarrow> Inr None | Some v \<Rightarrow> map_sum id Some (new_value lib opt v))"

lemma field_value_ok: "field_value lib opt vo = Inr (Some vc) \<Longrightarrow> cache_ok lib opt vc"
  using new_value_ok by (cases "new_value lib opt (the vo)") (auto simp: field_value_def split: option.splits)

definition accepted_value :: "'f config_lib \<Rightarrow> 'f Option \<Rightarrow> 'f cvalue option \<Rightarrow> valueCache option" where
  "accepted_value lib opt vo = (case field_value lib opt vo of Inl _ \<Rightarrow> None | Inr x \<Rightarrow> x)"

definition value_errors :: "'f config_lib \<Rightarrow> 'f Option \<Rightarrow> 'f cvalue option \<Rightarrow> goerr list" where
  "value_errors lib opt vo = (case field_value lib opt vo of Inl err \<Rightarrow> [err] | Inr _ \<Rightarrow> [])"

lemma set_locked_eq:
  "set_locked lib field r v push c =
     (case field_value lib (optStore c r) (if v = CNil then None else Some v) of
        Inr x \<Rightarrow> (handleOptionUpdate r push (upd_option r (\<lambda>opt. annotated (field (\<lambda>_. x) opt)) c), None)
      | Inl err \<Rightarrow> if not_panic err then (handleOptionUpdate r push (upd_option r annotated c), Some err)
                   else (c, Some err))"
  by (auto simp: set_locked_def field_value_def annotated_def upd_option_def not_panic_def Let_def
      split: sum.splits goerr.splits)

lemma replace_step_eq:
  assumes "options c key = Some r"
  shows "replace_step lib field vals key (c, Inr (errs, restart)) =
     (let upd = (\<lambda>x. upd_option r (field (\<lambda>_. x)) c); restart' = (restart \<or> oRequiresRestart (optStore c r)) in
      case field_value lib (optStore c r) (vals key) of
        Inr x \<Rightarrow> (handleOptionUpdate r True (upd x), Inr (errs, restart'))
      | Inl err \<Rightarrow> if not_panic err then (handleOptionUpdate r True (upd None), Inr (errs @ [err], restart'))
                   else (upd None, Inl err))"
  using assms by (auto simp: replace_step_def field_value_def Let_def split: option.splits sum.splits)

lemma annotated_simps [simp]:
  "activeValue (annotated opt) = activeValue opt" "activeDefaultValue (annotated opt) = activeDefaultValue opt"
  "same_option (annotated opt) opt' = same_option opt opt'"
  by (simp_all add: annotated_def setAnnotation_def same_option_def)

lemma annotated_update:
  assumes "config_ok lib c" "options c key = Some r"
  shows "config_ok lib (handleOptionUpdate r push (upd_option r annotated c))"
    and "same_view c (handleOptionUpdate r push (upd_option r annotated c))"
proof -
  have "level_value (annotated opt) = level_value opt" for opt :: "'a Option" by (auto simp: level_value_def annotated_def setAnnotation_def)
  then show "same_view c (handleOptionUpdate r push (upd_option r annotated c))"
    using assms(1) by (auto simp: same_view_def config_ok_def levels_ok_def handleOptionUpdate_def updateReleaseLevel_def
        updateExpertiseLevel_def pushUpdate_def Let_def split: option.splits)
  show "config_ok lib (handleOptionUpdate r push (upd_option r annotated c))"
    using option_ok_D[OF assms] by (auto intro!: config_ok_update[OF assms] simp: option_ok_def)
qed

subsection \<open>The contract of a value field\<close>

locale value_field =
  fixes field :: "(valueCache option \<Rightarrow> valueCache option) \<Rightarrow> 'f Option \<Rightarrow> 'f Option"
    and read :: "'f Option \<Rightarrow> valueCache option"
  assumes field_static [simp]: "same_option (field f opt) opt"
    and read_field [simp]: "read (field f opt) = f (read opt)"
    and field_values: "activeValue (field f opt) \<in> {f (read opt), activeValue opt}"
      "activeDefaultValue (field f opt) \<in> {f (read opt), activeDefaultValue opt}"
    and read_annotations [simp]: "read (setAnnotation key v opt) = read opt"
begin

lemma field_cache_ok:
  assumes "option_ok lib key opt" "\<And>vc. x = Some vc \<Longrightarrow> cache_ok lib opt vc"
  shows "activeValue (field (\<lambda>_. x) opt) = Some vc \<Longrightarrow> cache_ok lib opt vc"
    and "activeDefaultValue (field (\<lambda>_. x) opt) = Some vc \<Longrightarrow> cache_ok lib opt vc"
  using field_values[of "\<lambda>_. x" opt] assms by (auto simp: option_ok_def)

lemma field_update_ok:
  assumes "config_ok lib c" "options c key = Some r" "\<And>vc. x = Some vc \<Longrightarrow> cache_ok lib (optStore c r) vc"
  shows "config_ok lib (handleOptionUpdate r push (upd_option r (\<lambda>opt. annotated (field (\<lambda>_. x) opt)) c))"
    and "config_ok lib (handleOptionUpdate r push (upd_option r (field (\<lambda>_. x)) c))"
  using field_cache_ok[OF option_ok_D[OF assms(1,2)] assms(3)]
  by (auto intro!: config_ok_update[OF assms(1,2)])

lemma set_locked_keeps:
  assumes s: "set_locked lib field r v push c = (c', err)" "pred_option not_panic err"
    and r: "options c key = Some r"
  shows "config_ok lib c \<Longrightarrow> config_ok lib c'" "options c' = options c" "validityFlag c' = validityFlag c"
    and "config_ok lib c \<Longrightarrow> err \<noteq> None \<Longrightarrow> same_view c c'"
  using s by (auto simp: set_locked_eq annotated_update[OF _ r] dest: field_value_ok
      intro!: field_update_ok(1)[OF _ r] split: sum.splits if_splits)

lemma set_locked_value:
  assumes "set_locked lib field r v push c = (c', None)"
  shows "field_value lib (optStore c r) (if v = CNil then None else Some v) = Inr (read (optStore c' r))"
  using assms by (auto simp: set_locked_eq annotated_def split: sum.splits if_splits)

lemma replace_step_keeps:
  assumes s: "replace_step lib field vals key (c, Inr (errs, restart)) = (c', Inr res)" and r: "options c key = Some r"
  shows "config_ok lib c \<Longrightarrow> config_ok lib c'" "options c' = options c" "validityFlag c' = validityFlag c"
  using s by (auto simp: replace_step_eq[OF r] Let_def dest: field_value_ok
      intro!: field_update_ok(2)[OF _ r] split: sum.splits if_splits)

lemma replace_fold_panic: "fold (replace_step lib field vals) order (c, Inl err) = (c, Inl err)"
  by (induction order) (simp_all add: replace_step_def)

lemma replace_step_panic:
  assumes "replace_step lib field vals key (c, st) = (c', Inl err)" "\<And>e. st = Inl e \<Longrightarrow> \<not> not_panic e"
  shows "\<not> not_panic err"
  using assms by (auto simp: replace_step_def Let_def split: option.splits sum.splits prod.splits if_splits)

lemma replace_config_panic:
  assumes "replace_config lib field order vals c = (c', Inl err)"
  shows "\<not> not_panic err"
proof -
  have "fold (replace_step lib field vals) order (c, st) = (c', Inl err) \<Longrightarrow> (\<And>e. st = Inl e \<Longrightarrow> \<not> not_panic e) \<Longrightarrow> ?thesis"
    for c st
  proof (induction order arbitrary: c st)
    case (Cons key order)
    obtain c1 st1 where s: "replace_step lib field vals key (c, st) = (c1, st1)" by fastforce
    show ?case
      using Cons.IH[of c1 st1] Cons.prems s replace_step_panic[of lib vals key c st c1] by auto
  qed simp
  then show ?thesis using assms by (fastforce simp: replace_config_def split: prod.splits sum.splits)
qed

lemma replace_fold_keeps:
  "fold (replace_step lib field vals) order (c, Inr st) = (c', Inr res) \<Longrightarrow> set order \<subseteq> dom (options c) \<Longrightarrow>
   (config_ok lib c \<longrightarrow> config_ok lib c') \<and> options c' = options c \<and> validityFlag c' = validityFlag c"
proof (induction order arbitrary: c st)
  case (Cons key order)
  obtain errs restart where st: "st = (errs, restart)" by (cases st)
  obtain c1 res1 where s: "replace_step lib field vals key (c, Inr st) = (c1, Inr res1)"
    using Cons.prems(1) by (cases "replace_step lib field vals key (c, Inr st)"; cases "snd (replace_step lib field vals key (c, Inr st))")
      (auto simp: replace_fold_panic)
  obtain r where r: "options c key = Some r" using Cons.prems(2) by auto
  note step = replace_step_keeps[OF s[unfolded st] r]
  show ?case using Cons.IH[of c1 res1] Cons.prems s step by auto
qed simp

lemma replace_config_keeps:
  assumes "replace_config lib field order vals c = (c', Inr res)" "is_order c order"
  shows "keeps_config lib c c'"
proof -
  obtain c1 where "fold (replace_step lib field vals) order (c, Inr ([], False)) = (c1, Inr res)" "c' = signalChanges c1"
    using assms(1) by (auto simp: replace_config_def split: prod.splits sum.splits)
  then show ?thesis using replace_fold_keeps assms(2) by (fastforce simp: is_order_def intro: signalled_keeps)
qed

text \<open>The effect of a replacement: each option gets its new value or none, and the errors are
  those of the values that fail, in the order of the options.\<close>

lemma replace_fold_effect:
  assumes inj: "\<And>k k' r. options c k = Some r \<Longrightarrow> options c k' = Some r \<Longrightarrow> k = k'"
    and "distinct order" "set order \<subseteq> dom (options c)"
    and "\<And>key r err. key \<in> set order \<Longrightarrow> options c key = Some r \<Longrightarrow>
           field_value lib (optStore c r) (vals key) = Inl err \<Longrightarrow> not_panic err"
  shows "\<exists>c'. fold (replace_step lib field vals) order (c, Inr (errs, restart)) =
      (c', Inr (errs @ concat (map (\<lambda>key. value_errors lib (optStore c (the (options c key))) (vals key)) order),
                restart \<or> (\<exists>key \<in> set order. oRequiresRestart (optStore c (the (options c key)))))) \<and>
    (\<forall>key r. options c key = Some r \<longrightarrow>
       optStore c' r = (if key \<in> set order then field (\<lambda>_. accepted_value lib (optStore c r) (vals key)) (optStore c r)
                        else optStore c r))"
  using assms
proof (induction order arbitrary: c errs restart)
  case (Cons key order)
  obtain r where r: "options c key = Some r" using Cons.prems(3) by auto
  define x where "x = accepted_value lib (optStore c r) (vals key)"
  define es where "es = value_errors lib (optStore c r) (vals key)"
  define c1 where "c1 = handleOptionUpdate r True (upd_option r (field (\<lambda>_. x)) c)"
  define restart1 where "restart1 = (restart \<or> oRequiresRestart (optStore c r))"
  have s: "replace_step lib field vals key (c, Inr (errs, restart)) = (c1, Inr (errs @ es, restart1))"
    using Cons.prems(4)[OF _ r] by (auto simp: replace_step_eq[OF r] c1_def x_def es_def restart1_def
        accepted_value_def value_errors_def Let_def split: sum.splits)
  have o: "options c1 = options c" by (simp add: c1_def)
  have other: "optStore c1 q = optStore c q" if "options c k = Some q" "k \<noteq> key" for k q
    using that Cons.prems(1)[OF that(1), of key] r by (auto simp: c1_def)
  have other': "optStore c1 (the (options c1 k)) = optStore c (the (options c k))" if "k \<in> set order" for k
    using that Cons.prems(2,3) other o by fastforce
  have ps: "\<And>k k' q. options c1 k = Some q \<Longrightarrow> options c1 k' = Some q \<Longrightarrow> k = k'" "distinct order" "set order \<subseteq> dom (options c1)"
    using Cons.prems(1-3) by (simp_all add: o)
  have panics: "not_panic err" if "k \<in> set order" "options c1 k = Some q" "field_value lib (optStore c1 q) (vals k) = Inl err" for k q err
  proof -
    have "k \<noteq> key" using that(1) Cons.prems(2) by auto
    then show ?thesis using that other[of k q] Cons.prems(4)[of k q err] by (simp add: o)
  qed
  obtain c' where f: "fold (replace_step lib field vals) order (c1, Inr (errs @ es, restart1)) =
      (c', Inr ((errs @ es) @ concat (map (\<lambda>key. value_errors lib (optStore c1 (the (options c1 key))) (vals key)) order),
                restart1 \<or> (\<exists>key \<in> set order. oRequiresRestart (optStore c1 (the (options c1 key))))))"
    and st: "\<forall>k q. options c1 k = Some q \<longrightarrow>
       optStore c' q = (if k \<in> set order then field (\<lambda>_. accepted_value lib (optStore c1 q) (vals k)) (optStore c1 q)
                        else optStore c1 q)"
    by (atomize_elim, rule Cons.IH) (use ps(1) ps(2,3) panics in \<open>blast+\<close>)
  have eqs: "map (\<lambda>k. value_errors lib (optStore c1 (the (options c1 k))) (vals k)) order =
      map (\<lambda>k. value_errors lib (optStore c (the (options c k))) (vals k)) order"
    "(\<exists>k \<in> set order. oRequiresRestart (optStore c1 (the (options c1 k)))) =
      (\<exists>k \<in> set order. oRequiresRestart (optStore c (the (options c k))))"
    using other' by simp_all
  have "optStore c' q = (if k \<in> set (key # order) then field (\<lambda>_. accepted_value lib (optStore c q) (vals k)) (optStore c q)
      else optStore c q)" if "options c k = Some q" for k q
  proof (cases "k = key")
    case True
    then show ?thesis using st that o r Cons.prems(2) by (simp add: c1_def x_def)
  next
    case False
    then show ?thesis using st that o other[OF that False] by simp
  qed
  then show ?case using f eqs r by (intro exI[of _ c']) (simp add: s es_def restart1_def)
qed simp

end

interpretation user_field: value_field activeValue_update activeValue
  by unfold_locales (auto simp: same_option_def setAnnotation_def)

interpretation default_field: value_field activeDefaultValue_update activeDefaultValue
  by unfold_locales (auto simp: same_option_def setAnnotation_def)

subsection \<open>Every operation keeps the configuration well formed\<close>

lemma GetOption_Inr: "GetOption key c = Inr r \<longleftrightarrow> options c key = Some r"
  by (simp add: GetOption_def split: option.splits)

lemma setConfigOption_keeps:
  assumes "setConfigOption lib jl order key v push c = (c', err)" "pred_option not_panic err"
  shows "keeps_config lib c c'"
proof (cases "GetOption key c")
  case (Inr r)
  obtain c1 e where s: "set_locked lib activeValue_update r v push c = (c1, e)" by fastforce
  have "pred_option not_panic e" using assms Inr s by (cases e) (auto simp: setConfigOption_def)
  note k = user_field.set_locked_keeps[OF s this Inr[unfolded GetOption_Inr]]
  show ?thesis
  proof (cases e)
    case None
    with k have "keeps_config lib c (signalChanges c1)" by (simp add: signalled_keeps)
    then show ?thesis using assms(1) Inr s None by (auto simp: setConfigOption_def intro: SaveConfig_keeps)
  qed (use assms(1) Inr s k in \<open>auto simp: setConfigOption_def keeps_config_def\<close>)
qed (use assms in \<open>simp add: setConfigOption_def\<close>)

lemma setDefaultConfigOption_keeps:
  assumes "setDefaultConfigOption lib key v push c = (c', err)" "pred_option not_panic err"
  shows "keeps_config lib c c'"
proof (cases "GetOption key c")
  case (Inr r)
  obtain c1 e where s: "set_locked lib activeDefaultValue_update r v push c = (c1, e)" by fastforce
  have "pred_option not_panic e" using assms Inr s by (cases e) (auto simp: setDefaultConfigOption_def)
  note k = default_field.set_locked_keeps[OF s this Inr[unfolded GetOption_Inr]]
  show ?thesis
    using assms(1) Inr s k signalled_keeps[OF k(1-3)]
    by (cases e) (auto simp: setDefaultConfigOption_def keeps_config_def)
qed (use assms in \<open>simp add: setDefaultConfigOption_def\<close>)

lemma loadConfig_keeps:
  assumes "loadConfig lib jl order require c = (c', err)" "pred_option not_panic err" "is_order c order"
  shows "keeps_config lib c c'"
  using assms
  by (auto simp: loadConfig_def dest: user_field.replace_config_keeps[folded ReplaceConfig_def]
      user_field.replace_config_panic[folded ReplaceConfig_def] split: if_splits sum.splits prod.splits)

lemma si_Put_keeps:
  assumes "si_Put lib jl order rec c = (c', res)" "\<And>err. res = Inl err \<Longrightarrow> not_panic err"
  shows "keeps_config lib c c'"
proof -
  have *: "keeps_config lib c c1" if "setConfigOption lib jl order key v push c = (c1, e)" "\<And>err. e = Some err \<Longrightarrow> not_panic err"
    for key v push c1 e
    using setConfigOption_keeps[OF that(1)] that(2) by (cases e) auto
  show ?thesis
    using assms by (auto simp: si_Put_def dest!: * split: if_splits option.splits prod.splits sum.splits)
qed

text \<open>An option object as a program creates it, before it is registered.\<close>

definition fresh_option :: "'f Option \<Rightarrow> bool" where
  "fresh_option opt \<longleftrightarrow> activeValue opt = None \<and> activeDefaultValue opt = None \<and>
     activeFallbackValue opt = None \<and> compiledRegex opt = None"

lemma cache_ok_fallback [simp]: "cache_ok lib (opt\<lparr>activeFallbackValue := x\<rparr>) vc = cache_ok lib opt vc"
  by (simp add: cache_ok_def regex_ok_def isAllowedPossibleValue_def getData_def)

lemma prepare_option_ok:
  assumes "prepare_option lib opt = (opt', None)" "fresh_option opt"
  shows "option_ok lib (oKey opt) opt'" "activeValue opt' = None" "activeDefaultValue opt' = None"
    and "\<exists>opt2. validateValue lib opt2 (oDefaultValue opt) = Inr (the (activeFallbackValue opt'))"
  using assms validateValue_ok
  by (fastforce simp: prepare_option_def option_ok_def fresh_option_def Let_def split: if_splits option.splits sum.splits)+

lemma ran_fresh: "r \<notin> ran m \<Longrightarrow> m k \<noteq> Some r"
  by (auto simp: ran_def)

lemma Register_keeps:
  assumes reg: "Register lib r (upd_option r (\<lambda>_. opt) c) = (c', err)"
    and new: "fresh_option opt" "options c (oKey opt) = None" "r \<notin> ran (options c)"
  shows "keeps_config lib c c'" "releaseLevelOption c' = releaseLevelOption c" "releaseLevel c' = releaseLevel c"
    "expertiseLevelOption c' = expertiseLevelOption c" "expertiseLevel c' = expertiseLevel c"
    and "err = None \<Longrightarrow> r \<in> ran (options c')"
proof -
  obtain opt' e where p: "prepare_option lib opt = (opt', e)" by fastforce
  have key: "oKey opt' = oKey opt" if "e = None"
    using prepare_option_ok(1)[of lib opt opt'] p new(1) that by (simp add: option_ok_def)
  note res = reg[unfolded Register_def]
  show lv: "releaseLevelOption c' = releaseLevelOption c" "releaseLevel c' = releaseLevel c"
    "expertiseLevelOption c' = expertiseLevelOption c" "expertiseLevel c' = expertiseLevel c"
    using res p by (auto split: option.splits)
  have store: "optStore c' = (optStore c)(r := opt')"
    using res p by (auto split: option.splits)
  have opts: "options c' = (case e of None \<Rightarrow> (options c)(oKey opt \<mapsto> r) | Some _ \<Rightarrow> options c)"
    and flag: "validityFlag c' = validityFlag c"
    using res p key by (auto split: option.splits)
  show "err = None \<Longrightarrow> r \<in> ran (options c')"
    using res p opts by (auto simp: ran_def split: option.splits)
  have "config_ok lib c'" if ok: "config_ok lib c"
  proof -
    have "option_ok lib k (optStore c' q)" if "options c' k = Some q" for k q
      using that ok opts store ran_fresh[OF new(3)] prepare_option_ok(1)[of lib opt opt'] p new(1)
      by (auto simp: config_ok_def split: option.splits if_splits)
    moreover have "ran (options c) \<subseteq> ran (options c')"
      using new(2) opts by (auto simp: ran_map_upd split: option.splits)
    ultimately show ?thesis
      using ok lv store new(3) by (auto simp: config_ok_def levels_ok_def split: option.splits)
  qed
  moreover have "options c \<subseteq>\<^sub>m options c'"
    using new(2) opts by (auto simp: map_le_def split: option.splits)
  ultimately show "keeps_config lib c c'"
    using flag lv store new(3) by (auto simp: keeps_config_def same_view_def)
qed

lemma validateValue_string:
  "validateValue lib opt (CString s) = Inr vc \<Longrightarrow> vc = no_value\<lparr>stringVal := s\<rparr>"
  by (auto simp: validateValue_def validate_flat_def check_type_def dest: validation_func_Inr
      split: option.splits sum.splits if_splits)

text \<open>The level option is registered with its default value, which is the level before.\<close>

lemma register_level_keeps:
  assumes reg: "Register lib r (upd_option r (\<lambda>_. opt) c) = (c1, None)"
    and opt: "fresh_option opt" "oDefaultValue opt = CString s"
    and new: "options c (oKey opt) = None" "r \<notin> ran (options c)"
  shows "releaseLevelOption c = None \<Longrightarrow> release_level_of s = ReleaseLevelStable \<Longrightarrow>
           keeps_config lib c (c1\<lparr>releaseLevelOption := Some r\<rparr>)"
    and "expertiseLevelOption c = None \<Longrightarrow> expertise_level_of s = ExpertiseLevelUser \<Longrightarrow>
           keeps_config lib c (c1\<lparr>expertiseLevelOption := Some r\<rparr>)"
proof -
  note k = Register_keeps[OF reg opt(1) new]
  obtain opt' where p: "prepare_option lib opt = (opt', None)" "optStore c1 r = opt'"
    using reg by (auto simp: Register_def split: prod.splits option.splits)
  have "level_value (optStore c1 r) = activeFallbackValue opt'"
    using prepare_option_ok(2,3)[OF p(1) opt(1)] p(2) by (simp add: level_value_def)
  moreover have "stringVal (the (activeFallbackValue opt')) = s"
    using prepare_option_ok(4)[OF p(1) opt(1)] opt(2) by (auto dest!: validateValue_string)
  ultimately have lv: "stringVal (the (level_value (optStore c1 r))) = s" by simp
  show "keeps_config lib c (c1\<lparr>releaseLevelOption := Some r\<rparr>)"
    if "releaseLevelOption c = None" "release_level_of s = ReleaseLevelStable"
    using that k lv by (auto simp: keeps_config_def config_ok_def levels_ok_def same_view_def split: option.splits)
  show "keeps_config lib c (c1\<lparr>expertiseLevelOption := Some r\<rparr>)"
    if "expertiseLevelOption c = None" "expertise_level_of s = ExpertiseLevelUser"
    using that k lv by (auto simp: keeps_config_def config_ok_def levels_ok_def same_view_def split: option.splits)
qed

subsection \<open>Reachable configurations\<close>

inductive config_step :: "'f config_lib \<Rightarrow> 'f json_lib \<Rightarrow> 'f config \<Rightarrow> 'f config \<Rightarrow> bool"
  for lib :: "'f config_lib" and jl :: "'f json_lib" where
  register: "fresh_option opt \<Longrightarrow> options c (oKey opt) = None \<Longrightarrow> r \<notin> ran (options c) \<Longrightarrow>
     Register lib r (upd_option r (\<lambda>_. opt) c) = (c', err) \<Longrightarrow> config_step lib jl c c'"
| register_release: "releaseLevelOption c = None \<Longrightarrow> options c ''core/releaseLevel'' = None \<Longrightarrow> r \<notin> ran (options c) \<Longrightarrow>
     registerReleaseLevelOption lib r c = Inr c' \<Longrightarrow> config_step lib jl c c'"
| register_expertise: "expertiseLevelOption c = None \<Longrightarrow> options c ''core/expertiseLevel'' = None \<Longrightarrow> r \<notin> ran (options c) \<Longrightarrow>
     registerExpertiseLevelOption lib r c = Inr c' \<Longrightarrow> config_step lib jl c c'"
| set_option: "setConfigOption lib jl order key v push c = (c', err) \<Longrightarrow> pred_option not_panic err \<Longrightarrow>
     config_step lib jl c c'"
| set_default: "setDefaultConfigOption lib key v push c = (c', err) \<Longrightarrow> pred_option not_panic err \<Longrightarrow>
     config_step lib jl c c'"
| replace: "is_order c order \<Longrightarrow> ReplaceConfig lib order vals c = (c', Inr res) \<Longrightarrow> config_step lib jl c c'"
| replace_default: "is_order c order \<Longrightarrow> ReplaceDefaultConfig lib order vals c = (c', Inr res) \<Longrightarrow> config_step lib jl c c'"
| load: "is_order c order \<Longrightarrow> loadConfig lib jl order require c = (c', err) \<Longrightarrow> pred_option not_panic err \<Longrightarrow>
     config_step lib jl c c'"
| put: "si_Put lib jl order rec c = (c', Inr res) \<Longrightarrow> config_step lib jl c c'"

lemma config_step_keeps: "config_step lib jl c c' \<Longrightarrow> keeps_config lib c c'"
proof (induction rule: config_step.induct)
  case (register_release c r c')
  then show ?case
    by (auto simp: registerReleaseLevelOption_def release_option_def level_option_def fresh_option_def release_level_of_def
        split: prod.splits option.splits intro!: register_level_keeps(1))
next
  case (register_expertise c r c')
  then show ?case
    by (auto simp: registerExpertiseLevelOption_def expertise_option_def level_option_def fresh_option_def expertise_level_of_def
        split: prod.splits option.splits intro!: register_level_keeps(2))
next
  case (put order rec c c' res)
  then show ?case by (auto intro: si_Put_keeps)
qed (blast intro: Register_keeps(1) setConfigOption_keeps setDefaultConfigOption_keeps loadConfig_keeps
      user_field.replace_config_keeps[folded ReplaceConfig_def]
      default_field.replace_config_keeps[folded ReplaceDefaultConfig_def])+

text \<open>The configuration of a program that starts: no options.\<close>

definition config_init :: "'f config \<Rightarrow> bool" where
  "config_init c \<longleftrightarrow> options c = Map.empty \<and> releaseLevel c = ReleaseLevelStable \<and> releaseLevelOption c = None \<and>
     expertiseLevel c = ExpertiseLevelUser \<and> expertiseLevelOption c = None"

inductive reachable_config :: "'f config_lib \<Rightarrow> 'f json_lib \<Rightarrow> 'f config \<Rightarrow> bool"
  for lib :: "'f config_lib" and jl :: "'f json_lib" where
  start: "config_init c \<Longrightarrow> reachable_config lib jl c"
| step: "reachable_config lib jl c \<Longrightarrow> config_step lib jl c c' \<Longrightarrow> reachable_config lib jl c'"

lemma reachable_config_ok: "reachable_config lib jl c \<Longrightarrow> config_ok lib c"
  by (induction rule: reachable_config.induct)
    (use config_step_keeps in \<open>auto simp: config_init_def config_ok_def levels_ok_def keeps_config_def\<close>)

lemma config_ok_inj:
  assumes "config_ok lib c" "options c k = Some r" "options c k' = Some r"
  shows "k = k'"
  using option_ok_D[OF assms(1,2)] option_ok_D[OF assms(1,3)] by (simp add: option_ok_def)

subsection \<open>What getters return\<close>

lemma getValueCache_ok:
  assumes "config_ok lib c" "options c key = Some r"
  shows "\<exists>vc. getValueCache key None (oOptType (optStore c r)) c = (Some r, Some vc) \<and> cache_ok lib (optStore c r) vc"
  using option_ok_D[OF assms] assms(2) by (auto simp: getValueCache_def option_ok_def Let_def)

lemma getValueCache_view:
  "same_view c c' \<Longrightarrow> r \<in> ran (options c) \<Longrightarrow> getValueCache name (Some r) kind c' = getValueCache name (Some r) kind c"
  by (auto simp: getValueCache_def same_view_def same_option_def getReleaseLevel_def Let_def)

lemma getValueCache_registered:
  "options c name = Some r \<Longrightarrow> getValueCache name None kind c = getValueCache name (Some r) kind c"
  by (simp add: getValueCache_def)

lemma fst_getValueCache [simp]: "fst (getValueCache name (Some r) kind c) = Some r"
  by (simp add: getValueCache_def Let_def)

text \<open>A getter, among operations on the configuration: it is created when its option has been
  registered, operations follow, and it is called at any time.\<close>

inductive getter_run :: "'f config_lib \<Rightarrow> 'f json_lib \<Rightarrow> 'f config \<Rightarrow> 'a getter \<Rightarrow> bool"
  for lib :: "'f config_lib" and jl :: "'f json_lib" where
  created: "reachable_config lib jl c \<Longrightarrow> options c name \<noteq> None \<Longrightarrow> getter_run lib jl c (GetAs kind read name fallback c)"
| operation: "getter_run lib jl c g \<Longrightarrow> config_step lib jl c c' \<Longrightarrow> getter_run lib jl c' g"
| called: "getter_run lib jl c g \<Longrightarrow> getter_run lib jl c (fst (call_getter g c))"

definition getter_ok :: "'f config \<Rightarrow> 'a getter \<Rightarrow> bool" where
  "getter_ok c g \<longleftrightarrow>
     (\<exists>r. options c (gName g) = Some r \<and> gOption g = Some r \<and> gValid g \<le> validityFlag c \<and>
        (gValid g = validityFlag c \<longrightarrow>
           gValue g = getter_value g (snd (getValueCache (gName g) (Some r) (gKind g) c))))"

lemma getter_value_simps [simp]:
  "getter_value (g\<lparr>gValid := a, gOption := b, gValue := x\<rparr>) vc = getter_value g vc"
  "getter_value \<lparr>gName = name, gKind = kind, gRead = read, gFallback = fb, gValid = a, gOption = b, gValue = x\<rparr> vc =
     (case vc of Some v \<Rightarrow> read v | None \<Rightarrow> fb)"
  by (simp_all add: getter_value_def split: option.split)

lemma getter_ok_GetAs:
  assumes "options c name = Some r"
  shows "getter_ok c (GetAs kind read name fallback c)"
proof -
  obtain vc where vc: "getValueCache name (Some r) kind c = (Some r, vc)"
    using fst_getValueCache[of name r kind c] by (metis prod.collapse)
  then show ?thesis
    using assms by (simp add: GetAs_def getValueCache_registered[OF assms] getter_ok_def)
qed

lemma getter_ok_step:
  assumes ok: "getter_ok c g" "config_ok lib c" "keeps_config lib c c'"
  shows "getter_ok c' g"
proof -
  obtain r where r: "options c (gName g) = Some r" "gOption g = Some r" "gValid g \<le> validityFlag c"
    and v: "gValid g = validityFlag c \<Longrightarrow> gValue g = getter_value g (snd (getValueCache (gName g) (Some r) (gKind g) c))"
    using ok(1) by (auto simp: getter_ok_def)
  have "options c' (gName g) = Some r" using ok(3) r(1) by (force simp: keeps_config_def map_le_def)
  moreover have "gValue g = getter_value g (snd (getValueCache (gName g) (Some r) (gKind g) c'))"
    if "gValid g = validityFlag c'"
  proof -
    have "validityFlag c' = validityFlag c" using that r(3) ok(3) by (simp add: keeps_config_def)
    then have "same_view c c'" using ok(2,3) by (simp add: keeps_config_def)
    then show ?thesis using v that r(1) \<open>validityFlag c' = validityFlag c\<close>
      by (simp add: getValueCache_view[of c c'] ranI)
  qed
  ultimately show ?thesis using r ok(3) by (auto simp: getter_ok_def keeps_config_def)
qed

lemma getter_ok_call:
  assumes "getter_ok c g"
  shows "getter_ok c (fst (call_getter g c))"
    and "snd (call_getter g c) = getter_value g (snd (getValueCache (gName g) None (gKind g) c))"
proof -
  obtain r where r: "options c (gName g) = Some r" "gOption g = Some r" using assms by (auto simp: getter_ok_def)
  then obtain vc where vc: "getValueCache (gName g) (Some r) (gKind g) c = (Some r, vc)"
    using fst_getValueCache[of "gName g" r "gKind g" c] by (metis prod.collapse)
  then show "getter_ok c (fst (call_getter g c))"
    and "snd (call_getter g c) = getter_value g (snd (getValueCache (gName g) None (gKind g) c))"
    using assms r by (auto simp: call_getter_def getter_ok_def getValueCache_registered[OF r(1)])
qed

lemma getter_run_ok: "getter_run lib jl c g \<Longrightarrow> reachable_config lib jl c \<and> getter_ok c g"
proof (induction rule: getter_run.induct)
  case (operation c g c')
  then show ?case
    using getter_ok_step[OF _ reachable_config_ok config_step_keeps] by (blast intro: reachable_config.step)
qed (auto simp: getter_ok_GetAs getter_ok_call)

end
