(* ===== verification/Config_Roundtrip.thy ===== *)
theory Config_Roundtrip
  imports Config_Guarantees
begin

section \<open>Configuration: saving and loading\<close>

text \<open>
  A configuration that was saved to its file is loaded back: the way through the hierarchical
  form of \<^verbatim>\<open>config/persistence.go\<close> and JSON, and the validation of the loaded values. JSON has only
  floating point numbers and untyped arrays, so that values come back in another Go type;
  \<open>json_value\<close> is what \<open>encoding/json\<close> documents for decoding into an \<open>interface{}\<close>.
\<close>

fun json_value :: "'f config_lib \<Rightarrow> 'f cvalue \<Rightarrow> 'f cvalue"
and json_map :: "'f config_lib \<Rightarrow> (string \<times> 'f cvalue) list \<Rightarrow> (string \<times> 'f cvalue) list" where
  "json_value lib (CInt k w) = CFloat64 (float_of_int lib (kind_value k w))"
| "json_value lib (CFloat32 f) = CFloat64 f"
| "json_value lib (CStrings ss) = CList (map CString ss)"
| "json_value lib (CList vs) = CList (map (json_value lib) vs)"
| "json_value lib (CMap m) = CMap (json_map lib m)"
| "json_value lib v = v"
| "json_map lib [] = []"
| "json_map lib ((k, v) # m) = (k, json_value lib v) # json_map lib m"

lemma leaves_json:
  "entry_leaves (json_value lib v) = map (apsnd (json_value lib)) (entry_leaves v)"
  "leaves (json_map lib m) = map (apsnd (json_value lib)) (leaves m)"
  by (induction lib v and lib m rule: json_value_json_map.induct)
    (auto simp: case_prod_unfold apsnd_def map_prod_def)

lemma update_map: "AList.update k (f v) (map (apsnd f) m) = map (apsnd f) (AList.update k v m)"
  by (induction m) auto

lemma fold_update_map:
  "fold (\<lambda>(p, v). AList.update (key p) v) (map (apsnd f) ps) (map (apsnd f) m) =
     map (apsnd f) (fold (\<lambda>(p, v). AList.update (key p) v) ps m)"
  by (induction ps arbitrary: m) (simp_all add: case_prod_unfold update_map)

lemma Flatten_json: "Flatten (json_map lib m) = map (apsnd (json_value lib)) (Flatten m)"
  using fold_update_map[of "foldl path_Join []" "json_value lib" "leaves m" "[]"]
  by (simp add: Flatten_def flatten_leaves(1) leaves_json)

lemma map_of_apsnd: "map_of (map (apsnd f) m) k = map_option f (map_of m k)"
  by (induction m) auto

lemma map_of_activeValues:
  assumes "is_order c order"
  shows "map_of (activeValues order c) key =
    (case options c key of None \<Rightarrow> None
     | Some r \<Rightarrow> map_option (getData (optStore c r)) (activeValue (optStore c r)))"
proof -
  have *: "map_of (activeValues ks c) key =
      (if key \<in> set ks then map_option (getData (optStore c (the (options c key)))) (activeValue (optStore c (the (options c key))))
       else None)" for ks
    by (induction ks) (auto simp: activeValues_def Let_def split: option.splits)
  show ?thesis using assms unfolding * by (auto simp: is_order_def split: option.splits)
qed

subsection \<open>A loaded value is accepted\<close>

text \<open>What an integer must fulfil to survive JSON: it is a floating point number, and the
  option accepts that number too. Migrations must have nothing left to do.\<close>

definition reloads :: "'f config_lib \<Rightarrow> 'f Option \<Rightarrow> valueCache \<Rightarrow> bool" where
  "reloads lib opt vc \<longleftrightarrow> oMigrations opt = [] \<and>
     (oOptType opt = OptTypeInt \<longrightarrow>
        (let f = float_of_int lib (sint (intVal vc)) in
         float_integral lib f \<and> float_to_int64 lib f = intVal vc \<and> regex_ok lib opt (fmt_v_float lib f) \<and>
         isAllowedPossibleValue lib opt (CFloat64 f) = None))"

lemma validation_func_accepts:
  "pred_option (\<lambda>f. f (getData opt vc) = None) (oValidationFunc opt) \<Longrightarrow> oOptType opt \<noteq> optTypeAny \<Longrightarrow>
   validation_func opt vc = Inr vc"
  by (auto simp: validation_func_def split: option.splits)

lemma string_entries_CString: "string_entries opt pos (map CString ss) = Inr ss"
  by (induction ss arbitrary: pos) simp_all

lemma new_value_reloaded:
  assumes ok: "cache_ok lib opt vc" and rel: "reloads lib opt vc"
  shows "new_value lib opt (json_value lib (getData opt vc)) = Inr vc"
proof -
  have f: "validation_func opt vc = Inr vc"
    using ok by (intro validation_func_accepts) (auto simp: cache_ok_def split: if_splits)
  have m: "migrateValue lib opt v = Inr v" for v using rel by (simp add: reloads_def migrateValue_def)
  consider "oOptType opt = OptTypeString" | "oOptType opt = OptTypeStringArray" | "oOptType opt = OptTypeInt"
    | "oOptType opt = OptTypeBool" using ok by (auto simp: cache_ok_def split: if_splits)
  then show ?thesis
  proof cases
    case 1
    then have "vc = no_value\<lparr>stringVal := stringVal vc\<rparr>" using ok by (simp add: cache_ok_def)
    then show ?thesis using 1 ok f
      by (simp add: new_value_def m validateValue_def validate_flat_def check_type_def cache_ok_def getData_def check_possible_def)
  next
    case 2
    then have "vc = no_value\<lparr>stringArrayVal := stringArrayVal vc\<rparr>"
      "compiledRegex opt \<noteq> None \<longrightarrow> check_entries lib opt 1 (stringArrayVal vc) = None"
      using ok by (simp_all add: cache_ok_def check_entries_None)
    then have "validate_flat lib opt (CStrings (stringArrayVal vc)) = Inr vc"
      using 2 f by (auto simp: validate_flat_def check_type_def check_possible_def)
    then show ?thesis using 2 f
      by (simp add: new_value_def m validateValue_def getData_def check_possible_def string_entries_CString)
  next
    case 3
    then have "vc = no_value\<lparr>intVal := intVal vc\<rparr>" using ok by (simp add: cache_ok_def)
    then show ?thesis using 3 rel f
      by (simp add: new_value_def m validateValue_def validate_flat_def check_type_def check_number_def check_possible_def
          getData_def reloads_def kind_value_def is_unsigned_def Let_def)
  next
    case 4
    then have "vc = no_value\<lparr>boolVal := boolVal vc\<rparr>" using ok by (simp add: cache_ok_def)
    then show ?thesis using 4 ok f
      by (simp add: new_value_def m validateValue_def validate_flat_def check_type_def cache_ok_def getData_def check_possible_def)
  qed
qed

subsection \<open>Replacing and loading a configuration\<close>

lemma ReplaceConfig_eq:
  assumes ok: "config_ok lib c" and order: "is_order c order"
    and panic: "\<And>key r err. options c key = Some r \<Longrightarrow> field_value lib (optStore c r) (vals key) = Inl err \<Longrightarrow> not_panic err"
  obtains c' where
    "ReplaceConfig lib order vals c =
       (c', Inr (concat (map (\<lambda>key. value_errors lib (optStore c (the (options c key))) (vals key)) order),
                 \<exists>key \<in> set order. oRequiresRestart (optStore c (the (options c key)))))"
    and "\<And>key r. options c key = Some r \<Longrightarrow>
       optStore c' r = (optStore c r)\<lparr>activeValue := accepted_value lib (optStore c r) (vals key)\<rparr>"
    and "validityFlag c' = Suc (validityFlag c)"
proof -
  have ord: "distinct order" "set order \<subseteq> dom (options c)" "\<And>key r. options c key = Some r \<Longrightarrow> key \<in> set order"
    using order by (auto simp: is_order_def)
  obtain c1 where f: "fold (replace_step lib activeValue_update vals) order (c, Inr ([], False)) =
      (c1, Inr ([] @ concat (map (\<lambda>key. value_errors lib (optStore c (the (options c key))) (vals key)) order),
                False \<or> (\<exists>key \<in> set order. oRequiresRestart (optStore c (the (options c key))))))"
    and st: "\<forall>key r. options c key = Some r \<longrightarrow>
       optStore c1 r = (if key \<in> set order then (optStore c r)\<lparr>activeValue := accepted_value lib (optStore c r) (vals key)\<rparr>
                        else optStore c r)"
    by (atomize_elim, rule user_field.replace_fold_effect[of c])
      (use config_ok_inj[OF ok] ord(1,2) panic in \<open>blast+\<close>)
  have flag: "validityFlag c1 = validityFlag c" using user_field.replace_fold_keeps[OF f ord(2)] by simp
  show ?thesis
    by (rule that[of "signalChanges c1"])
      (use f st ord(3) flag in \<open>auto simp: ReplaceConfig_def replace_config_def\<close>)
qed

lemma concat_nil: "(\<And>x. x \<in> set xs \<Longrightarrow> f x = []) \<Longrightarrow> concat (map f xs) = []"
  by (induction xs) auto

lemma field_value_map: "field_value lib opt (map_option f vo) = (case vo of None \<Rightarrow> Inr None | Some v \<Rightarrow> map_sum id Some (new_value lib opt (f v)))"
  by (simp add: field_value_def split: option.split)

text \<open>The values that are loaded, for an option of the configuration that loads them.\<close>

lemma reloaded_field:
  assumes "option_ok lib key opt" "same_option opt2 opt" "\<And>vc. activeValue opt = Some vc \<Longrightarrow> reloads lib opt vc"
  shows "field_value lib opt2 (map_option (json_value lib) (map_option (getData opt) (activeValue opt))) = Inr (activeValue opt)"
proof (cases "activeValue opt")
  case (Some vc)
  have "cache_ok lib opt2 vc" using assms(1,2) Some by (simp add: option_ok_def cache_ok_static)
  moreover have "reloads lib opt2 vc"
    using assms(3)[OF Some] assms(2) by (simp add: reloads_def static_eqs[OF assms(2)]) (simp add: same_option_def)
  ultimately show ?thesis using Some new_value_reloaded[of lib opt2 vc] by (simp add: field_value_def static_eqs[OF assms(2)])
qed (simp add: field_value_def)

lemma loaded_values:
  assumes order: "is_order c order" and keys: "keys_ok (activeValues order c)"
  shows "map_of (Flatten (json_map lib (Expand (activeValues order c)))) key =
    (case options c key of None \<Rightarrow> None
     | Some r \<Rightarrow> map_option (json_value lib) (map_option (getData (optStore c r)) (activeValue (optStore c r))))"
  by (simp add: Flatten_json map_of_apsnd map_of_Flatten_Expand[OF keys] map_of_activeValues[OF order] split: option.split)

lemma SaveConfig_file:
  assumes "SaveConfig jl order c = (c1, None)" "configFilePath c \<noteq> []"
  shows "\<exists>data. json_marshal jl (Expand (activeValues order c)) = Inr data \<and> configFile c1 = Inr data"
  using assms by (auto simp: SaveConfig_def MapToJSON_def split: sum.splits option.splits)


subsection \<open>A sample configuration\<close>

text \<open>Numbers stand for floating point numbers, and every text matches every expression.\<close>

definition sample_clib :: "int config_lib" where
  "sample_clib =
     \<lparr>float_of_int = id, float_round32 = id, float_to_int64 = word_of_int, float_integral = (\<lambda>_. True),
      float_eq = (=), fmt_v_float = print_int, rune_string = (\<lambda>_. []), regexp_Compile = (\<lambda>_. None),
      regexp_MatchString = (\<lambda>_ _. True)\<rparr>"

definition sample_opt :: "string \<Rightarrow> uint8 \<Rightarrow> int cvalue \<Rightarrow> int Option" where
  "sample_opt key t def_value =
     \<lparr>oName = key, oKey = key, oDescription = key, oHelp = [], oSensitive = False, oOptType = t,
      oExpertiseLevel = 0, oReleaseLevel = 0, oRequiresRestart = False, oDefaultValue = def_value,
      oValidationRegex = [], oValidationFunc = None, oPossibleValues = None, oAnnotations = Map.empty,
      oMigrations = [], activeValue = None, activeDefaultValue = None, activeFallbackValue = None,
      compiledRegex = None\<rparr>"

text \<open>A file system that holds one file, with a codec that knows one configuration.\<close>

definition sample_json :: "int json_lib" where
  "sample_json = \<lparr>json_marshal = (\<lambda>m. Inr []),
     json_unmarshal = (\<lambda>_. Inr (json_map sample_clib (Expand [(''a/b'', CString ''x''), (''a/c'', CInt KInt64 7)]))),
     write_err = None\<rparr>"

definition sample_c0 :: "int config" where
  "sample_c0 =
     \<lparr>optStore = (\<lambda>_. sample_opt [] 0 CNil), options = Map.empty, validityFlag = 0, releaseLevel = ReleaseLevelStable,
      releaseLevelOption = None, expertiseLevel = ExpertiseLevelUser, expertiseLevelOption = None, pushedUpdates = [],
      changeEvents = 0, configFilePath = ''config.json'', configFile = Inr [], loadedConfigValidationErrors = []\<rparr>"

definition sample_register :: "optref \<Rightarrow> int Option \<Rightarrow> int config \<Rightarrow> int config" where
  "sample_register r opt c = fst (Register sample_clib r (upd_option r (\<lambda>_. opt) c))"

definition sample_c1 :: "int config" where
  "sample_c1 = sample_register 0 (sample_opt ''a/b'' OptTypeString (CString ''d'')) sample_c0"

definition sample_c2 :: "int config" where
  "sample_c2 = sample_register 1 (sample_opt ''a/c'' OptTypeInt (CInt KInt 0)) sample_c1"

definition sample_set :: "string \<Rightarrow> int cvalue \<Rightarrow> int config \<Rightarrow> int config" where
  "sample_set key v c = fst (SetConfigOption sample_clib sample_json [''a/b'', ''a/c''] key v c)"

definition sample_c3 :: "int config" where
  "sample_c3 = sample_set ''a/b'' (CString ''x'') sample_c2"

definition sample_c4 :: "int config" where
  "sample_c4 = sample_set ''a/c'' (CInt KInt 7) sample_c3"

lemmas validation_defs = new_value_def migrateValue_def validateValue_def validate_flat_def check_type_def check_number_def
  check_possible_def isAllowedPossibleValue_def regex_ok_def validation_func_def no_value_def

lemma sample_c1_eq: "sample_c1 = sample_c0\<lparr>options := [''a/b'' \<mapsto> 0],
    optStore := (optStore sample_c0)
      (0 := (sample_opt ''a/b'' OptTypeString (CString ''d''))\<lparr>activeFallbackValue := Some (no_value\<lparr>stringVal := ''d''\<rparr>)\<rparr>)\<rparr>"
  by (simp add: sample_c1_def sample_register_def sample_opt_def sample_c0_def Register_def prepare_option_def validation_defs
      upd_option_def) (simp add: opttype_defs)

lemma sample_c2_eq: "sample_c2 = sample_c1\<lparr>options := [''a/b'' \<mapsto> 0, ''a/c'' \<mapsto> 1],
    optStore := (optStore sample_c1)
      (1 := (sample_opt ''a/c'' OptTypeInt (CInt KInt 0))\<lparr>activeFallbackValue := Some (no_value\<lparr>intVal := 0\<rparr>)\<rparr>)\<rparr>"
  by (simp add: sample_c2_def sample_c1_eq sample_register_def sample_opt_def sample_c0_def Register_def prepare_option_def
      validation_defs upd_option_def) (simp add: opttype_defs)

lemma sample_set_eq:
  assumes "options c key = Some r" "v \<noteq> CNil" "new_value sample_clib (optStore c r) v = Inr vc"
    "releaseLevelOption c = None" "expertiseLevelOption c = None" "configFilePath c \<noteq> []" "\<not> oRequiresRestart (optStore c r)"
  shows "SetConfigOption sample_clib sample_json [''a/b'', ''a/c''] key v c =
    ((signalChanges (pushUpdate r (upd_option r (activeValue_update (\<lambda>_. Some vc)) c)))\<lparr>configFile := Inr []\<rparr>, None)"
  using assms by (simp add: SetConfigOption_def setConfigOption_def GetOption_Inr[THEN iffD2] set_locked_eq field_value_def
      annotated_def handleOptionUpdate_def SaveConfig_def MapToJSON_def sample_json_def upd_option_def pushUpdate_def
      signalChanges_def)

lemmas sample_defs = sample_c2_eq sample_c1_eq sample_c0_def sample_opt_def validation_defs sample_clib_def

lemma sample_c3_eq: "sample_c3 = (signalChanges (pushUpdate 0
    (upd_option 0 (activeValue_update (\<lambda>_. Some (no_value\<lparr>stringVal := ''x''\<rparr>))) sample_c2)))\<lparr>configFile := Inr []\<rparr>"
  unfolding sample_c3_def sample_set_def
  by (subst sample_set_eq[where r = 0 and vc = "no_value\<lparr>stringVal := ''x''\<rparr>"]) (simp_all add: sample_defs)

lemma sample_c3_simps:
  "options sample_c3 = [''a/b'' \<mapsto> 0, ''a/c'' \<mapsto> 1]" "configFilePath sample_c3 = ''config.json''"
  "releaseLevelOption sample_c3 = None" "expertiseLevelOption sample_c3 = None"
  "optStore sample_c3 = (optStore sample_c2)
     (0 := (optStore sample_c2 0)\<lparr>activeValue := Some (no_value\<lparr>stringVal := ''x''\<rparr>)\<rparr>)"
  by (simp_all add: sample_c3_eq signalChanges_def pushUpdate_def upd_option_def) (simp_all add: sample_c2_eq sample_c1_eq sample_c0_def)

lemma sample_c4_eq: "sample_c4 = (signalChanges (pushUpdate 1
    (upd_option 1 (activeValue_update (\<lambda>_. Some (no_value\<lparr>intVal := 7\<rparr>))) sample_c3)))\<lparr>configFile := Inr []\<rparr>"
  unfolding sample_c4_def sample_set_def
  by (subst sample_set_eq[where r = 1 and vc = "no_value\<lparr>intVal := 7\<rparr>"]) (simp_all add: sample_c3_simps sample_defs)

lemma sample_c4_simps:
  "options sample_c4 = [''a/b'' \<mapsto> 0, ''a/c'' \<mapsto> 1]" "configFilePath sample_c4 = ''config.json''"
  "optStore sample_c4 = (optStore sample_c2)
     (0 := (optStore sample_c2 0)\<lparr>activeValue := Some (no_value\<lparr>stringVal := ''x''\<rparr>)\<rparr>,
      1 := (optStore sample_c2 1)\<lparr>activeValue := Some (no_value\<lparr>intVal := 7\<rparr>)\<rparr>)"
  by (simp_all add: sample_c4_eq signalChanges_def pushUpdate_def upd_option_def sample_c3_simps)

lemma sample_steps:
  "config_step sample_clib sample_json sample_c0 sample_c1" "config_step sample_clib sample_json sample_c1 sample_c2"
  "config_step sample_clib sample_json sample_c2 sample_c3" "config_step sample_clib sample_json sample_c3 sample_c4"
proof -
  have reg: "config_step sample_clib sample_json c (sample_register r opt c)"
    if "fresh_option opt" "options c (oKey opt) = None" "r \<notin> ran (options c)" for r opt c
    using config_step.register[OF that] by (metis sample_register_def prod.collapse)
  have set: "config_step sample_clib sample_json c (sample_set key v c)"
    if "snd (SetConfigOption sample_clib sample_json [''a/b'', ''a/c''] key v c) = None" for key v c
    using config_step.set_option[of sample_clib sample_json "[''a/b'', ''a/c'']" key v True c] that
    by (metis SetConfigOption_def option.pred_inject(1) prod.collapse sample_set_def)
  show "config_step sample_clib sample_json sample_c0 sample_c1" unfolding sample_c1_def
    by (rule reg; simp add: sample_opt_def fresh_option_def sample_c0_def)
  show "config_step sample_clib sample_json sample_c1 sample_c2" unfolding sample_c2_def
    by (rule reg; simp add: sample_opt_def fresh_option_def sample_c1_eq)
  have "snd (SetConfigOption sample_clib sample_json [''a/b'', ''a/c''] ''a/b'' (CString ''x'') sample_c2) = None"
    by (subst sample_set_eq[where r = 0 and vc = "no_value\<lparr>stringVal := ''x''\<rparr>"]) (simp_all add: sample_defs)
  then show "config_step sample_clib sample_json sample_c2 sample_c3" unfolding sample_c3_def by (rule set)
  have "snd (SetConfigOption sample_clib sample_json [''a/b'', ''a/c''] ''a/c'' (CInt KInt 7) sample_c3) = None"
    by (subst sample_set_eq[where r = 1 and vc = "no_value\<lparr>intVal := 7\<rparr>"]) (simp_all add: sample_c3_simps sample_defs)
  then show "config_step sample_clib sample_json sample_c3 sample_c4" unfolding sample_c4_def by (rule set)
qed

lemma sample_reachable:
  "reachable_config sample_clib sample_json sample_c2" "reachable_config sample_clib sample_json sample_c4"
proof -
  have "reachable_config sample_clib sample_json sample_c0"
    by (rule reachable_config.start) (simp add: config_init_def sample_c0_def)
  then show "reachable_config sample_clib sample_json sample_c2" "reachable_config sample_clib sample_json sample_c4"
    using sample_steps by (blast intro: reachable_config.step)+
qed

lemma sample_order: "is_order sample_c2 [''a/b'', ''a/c'']" "is_order sample_c4 [''a/b'', ''a/c'']"
  by (auto simp: is_order_def sample_c2_eq sample_c4_simps split: if_splits)

lemma sample_activeValues: "activeValues [''a/b'', ''a/c''] sample_c4 = [(''a/b'', CString ''x''), (''a/c'', CInt KInt64 7)]"
  by (simp add: activeValues_def sample_c4_simps getData_def) (simp add: sample_defs)


subsection \<open>Values that are active and values that are returned\<close>



lemma GetAs_simps:
  "gName (GetAs kind read name fallback c) = name" "gKind (GetAs kind read name fallback c) = kind"
  "gRead (GetAs kind read name fallback c) = read" "gFallback (GetAs kind read name fallback c) = fallback"
  "gValue (GetAs kind read name fallback c) =
     (case snd (getValueCache name None kind c) of Some v \<Rightarrow> read v | None \<Rightarrow> fallback)"
  by (simp_all add: GetAs_def case_prod_unfold Let_def)



text \<open>\<open>ReplaceConfig\<close> replaces everything: an option without a new value loses its value, one
  whose new value is rejected too, and each rejected value gives exactly one error; defaults
  are untouched and all getters are notified. It is assumed that no value makes the validation panic.\<close>

theorem ReplaceConfig_effect:
  assumes "reachable_config lib jl c" "is_order c order"
    and "\<And>key r v err. options c key = Some r \<Longrightarrow> vals key = Some v \<Longrightarrow> new_value lib (optStore c r) v = Inl err \<Longrightarrow> not_panic err"
  shows "\<exists>c' errs restart. ReplaceConfig lib order vals c = (c', Inr (errs, restart)) \<and>
    (\<forall>key r. options c key = Some r \<longrightarrow> optStore c' r = (optStore c r)\<lparr>activeValue :=
       (case vals key of None \<Rightarrow> None
        | Some v \<Rightarrow> (case new_value lib (optStore c r) v of Inl _ \<Rightarrow> None | Inr vc \<Rightarrow> Some vc))\<rparr>) \<and>
    set errs = {err. \<exists>key r v. options c key = Some r \<and> vals key = Some v \<and> new_value lib (optStore c r) v = Inl err} \<and>
    (restart \<longleftrightarrow> (\<exists>key r. options c key = Some r \<and> oRequiresRestart (optStore c r))) \<and>
    validityFlag c' = Suc (validityFlag c)"
proof -
  have fv: "field_value lib opt vo = Inl err \<longleftrightarrow> (\<exists>v. vo = Some v \<and> new_value lib opt v = Inl err)" for opt vo err
    by (cases vo; cases "new_value lib opt (the vo)") (auto simp: field_value_def)
  have av: "accepted_value lib opt vo = (case vo of None \<Rightarrow> None
      | Some v \<Rightarrow> (case new_value lib opt v of Inl _ \<Rightarrow> None | Inr vc \<Rightarrow> Some vc))" for opt vo
    by (simp add: accepted_value_def field_value_def split: option.split sum.split)
  have ve: "set (value_errors lib opt vo) = {err. \<exists>v. vo = Some v \<and> new_value lib opt v = Inl err}" for opt vo
    by (cases "field_value lib opt vo") (auto simp: value_errors_def fv[of opt vo, symmetric])
  have ord: "set order = dom (options c)" using assms(2) by (simp add: is_order_def)
  obtain c' where "ReplaceConfig lib order vals c =
       (c', Inr (concat (map (\<lambda>key. value_errors lib (optStore c (the (options c key))) (vals key)) order),
                 \<exists>key \<in> set order. oRequiresRestart (optStore c (the (options c key)))))"
    and "\<And>key r. options c key = Some r \<Longrightarrow>
       optStore c' r = (optStore c r)\<lparr>activeValue := accepted_value lib (optStore c r) (vals key)\<rparr>"
    and "validityFlag c' = Suc (validityFlag c)"
    by (rule ReplaceConfig_eq[OF reachable_config_ok[OF assms(1)] assms(2), of vals]) (use assms(3) fv in blast)+
  moreover have "set (concat (map (\<lambda>key. value_errors lib (optStore c (the (options c key))) (vals key)) order)) =
      {err. \<exists>key r v. options c key = Some r \<and> vals key = Some v \<and> new_value lib (optStore c r) v = Inl err}"
    "(\<exists>key \<in> set order. oRequiresRestart (optStore c (the (options c key)))) \<longleftrightarrow>
      (\<exists>key r. options c key = Some r \<and> oRequiresRestart (optStore c r))"
    by (force simp: ve ord dom_def)+
  ultimately show ?thesis by (simp add: av)
qed

theorem ReplaceConfig_effect_witness:
  "\<exists>c' errs restart. ReplaceConfig sample_clib [''a/b'', ''a/c''] [''a/b'' \<mapsto> CBool True] sample_c4 = (c', Inr (errs, restart)) \<and>
     set errs = {invalid (optStore sample_c4 0) ''expected type string, got type bool''} \<and>
     activeValue (optStore c' 0) = None \<and> activeValue (optStore c' 1) = None"
proof -
  let ?v = "[''a/b'' \<mapsto> CBool True]" and ?err = "invalid (optStore sample_c4 0) ''expected type string, got type bool''"
  have rej: "new_value sample_clib (optStore sample_c4 0) (CBool True) = Inl ?err"
    by (simp add: sample_c4_simps invalid_def wrong_type_def ValidationError_def validation_defs)
      (simp add: sample_defs getTypeName_def invalid_def ValidationError_def wrong_type_def)
  have "not_panic err" if "options sample_c4 key = Some r" "?v key = Some v" "new_value sample_clib (optStore sample_c4 r) v = Inl err"
    for key r v err
    using that rej by (auto simp: sample_c4_simps(1) not_panic_def invalid_def ValidationError_def split: if_splits)
  then obtain c' errs restart where
    c': "ReplaceConfig sample_clib [''a/b'', ''a/c''] ?v sample_c4 = (c', Inr (errs, restart))"
    "\<forall>key r. options sample_c4 key = Some r \<longrightarrow> optStore c' r = (optStore sample_c4 r)\<lparr>activeValue :=
       (case ?v key of None \<Rightarrow> None
        | Some v \<Rightarrow> (case new_value sample_clib (optStore sample_c4 r) v of Inl _ \<Rightarrow> None | Inr vc \<Rightarrow> Some vc))\<rparr>"
    "set errs = {err. \<exists>key r v. options sample_c4 key = Some r \<and> ?v key = Some v \<and> new_value sample_clib (optStore sample_c4 r) v = Inl err}"
    using ReplaceConfig_effect[OF sample_reachable(2) sample_order(2), of ?v] by blast
  have "set errs = {?err}" unfolding c'(3) using rej by (auto simp: sample_c4_simps(1) split: if_splits)
  then show ?thesis
    using c'(1) c'(2)[rule_format, of "''a/b''" 0] c'(2)[rule_format, of "''a/c''" 1] rej by (simp add: sample_c4_simps(1))
qed

text \<open>Where the configuration does not do what it means to. The release level follows the default
  value of its option even if the user set another one, while the option's getter returns the user's
  value. A migration of an option makes every string array panic, since the old and new value
  are compared. A JSON null for an option with possible values panics as well.\<close>

theorem config_departures:
  "(activeDefaultValue (optStore c r) = Some d \<and> activeValue (optStore c r) = Some u \<and>
      releaseLevelOption c = Some r \<and> oReleaseLevel (optStore c r) = ReleaseLevelStable \<longrightarrow>
      releaseLevel (handleOptionUpdate r push c) = release_level_of (stringVal d) \<and>
      getValueCache name (Some r) (oOptType (optStore c r)) c = (Some r, Some u)) \<and>
   migrateValue lib (opt\<lparr>oMigrations := [\<lambda>_. CStrings ss']\<rparr>) (CStrings ss) =
     Inl (GoPanic ''runtime error: comparing uncomparable type []string'') \<and>
   (oOptType opt \<noteq> OptTypeStringArray \<and> pv \<noteq> CNil \<longrightarrow>
      new_value lib (opt\<lparr>oMigrations := [], oPossibleValues := Some (pv # pvs)\<rparr>) CNil =
        Inl (GoPanic ''reflect: nil type passed to Type.ConvertibleTo''))"
  by (simp add: handleOptionUpdate_def updateReleaseLevel_def updateExpertiseLevel_def pushUpdate_def level_value_def
      getValueCache_def getReleaseLevel_def ReleaseLevelStable_def migrateValue_def iface_eq_def uncomparable_def
      new_value_def validateValue_def validate_flat_def check_possible_def isAllowedPossibleValue_def possible_match_def Let_def)

theorem config_departures_witness:
  "releaseLevel (handleOptionUpdate 0 True (sample_c4\<lparr>releaseLevelOption := Some 0,
       optStore := (\<lambda>_. (optStore sample_c4 0)\<lparr>activeDefaultValue := Some (no_value\<lparr>stringVal := ''beta''\<rparr>)\<rparr>)\<rparr>)) = ReleaseLevelBeta \<and>
   new_value sample_clib ((sample_opt ''k'' OptTypeBool (CBool True))\<lparr>oMigrations := [], oPossibleValues := Some [CBool True]\<rparr>) CNil =
     Inl (GoPanic ''reflect: nil type passed to Type.ConvertibleTo'')"
proof -
  let ?c = "sample_c4\<lparr>releaseLevelOption := Some 0,
       optStore := (\<lambda>_. (optStore sample_c4 0)\<lparr>activeDefaultValue := Some (no_value\<lparr>stringVal := ''beta''\<rparr>)\<rparr>)\<rparr>"
  have "activeDefaultValue (optStore ?c 0) = Some (no_value\<lparr>stringVal := ''beta''\<rparr>)"
    "activeValue (optStore ?c 0) = Some (no_value\<lparr>stringVal := ''x''\<rparr>)" "releaseLevelOption ?c = Some 0"
    "oReleaseLevel (optStore ?c 0) = ReleaseLevelStable"
    "oOptType (sample_opt ''k'' OptTypeBool (CBool True)) \<noteq> OptTypeStringArray"
    by (simp_all add: sample_c4_simps) (simp_all add: sample_defs ReleaseLevelStable_def)
  then show ?thesis
    using config_departures[where c = ?c and r = 0 and d = "no_value\<lparr>stringVal := ''beta''\<rparr>"
        and u = "no_value\<lparr>stringVal := ''x''\<rparr>" and push = True and lib = sample_clib
        and opt = "sample_opt ''k'' OptTypeBool (CBool True)" and pv = "CBool True" and pvs = "[]"]
    by (simp add: release_level_of_def)
qed

end
