(* ===== verification/Updater_Files.thy ===== *)
theory Updater_Files
  imports Go_Paths
begin

section \<open>Updater: file names\<close>

text \<open>
  File names with versions, \<^verbatim>\<open>updater/filename.go\<close>. The two regular expressions are written as
  matchers: no alternative of theirs overlaps another, so that the longest match of each part
  is the match that \<open>regexp\<close> finds.
\<close>

definition is_digit :: "char \<Rightarrow> bool" where
  "is_digit c \<longleftrightarrow> digit_val c \<noteq> None"

definition is_lower :: "char \<Rightarrow> bool" where
  "is_lower c \<longleftrightarrow> 97 \<le> (of_char c :: nat) \<and> (of_char c :: nat) \<le> 122"

text \<open>A part \<open>[0-9]+\<close>: the digits and the rest.\<close>

definition match_digits :: "string \<Rightarrow> (string \<times> string) option" where
  "match_digits s =
     (let d = takeWhile is_digit s in if d = [] then None else Some (d, drop (length d) s))"

definition next_digits :: "char \<Rightarrow> string \<Rightarrow> (string \<times> string) option" where
  "next_digits sep s = (if s = [] \<or> hd s \<noteq> sep then None else match_digits (tl s))"

definition match_tag :: "string \<Rightarrow> string" where
  "match_tag s = (if s \<noteq> [] \<and> hd s = CHR ''-'' then takeWhile is_lower (tl s) else [])"

text \<open>The length of the match of \<open>[0-9]+s[0-9]+s[0-9]+(-[a-z]+)?\<close> at the beginning of a text.\<close>

definition match_numbers :: "char \<Rightarrow> string \<Rightarrow> nat option" where
  "match_numbers sep s =
     (case match_digits s of None \<Rightarrow> None | Some (d1, r1) \<Rightarrow>
      (case next_digits sep r1 of None \<Rightarrow> None | Some (d2, r2) \<Rightarrow>
      (case next_digits sep r2 of None \<Rightarrow> None | Some (d3, r3) \<Rightarrow>
        (let n = length d1 + length d2 + length d3 + 2; tag = match_tag r3 in
         Some (if tag = [] then n else n + 1 + length tag)))))"

definition match_version :: "string \<Rightarrow> nat option" where
  "match_version s =
     (if HasPrefix s ''_v'' then map_option (\<lambda>n. n + 2) (match_numbers (CHR ''-'') (drop 2 s)) else None)"

text \<open>\<open>fileVersionRegex.FindString\<close> and the position \<open>strings.Index\<close> finds it at: the part before
  the first match, the match, and what follows.\<close>

fun find_version :: "string \<Rightarrow> (string \<times> string \<times> string) option" where
  "find_version [] = None"
| "find_version (c # s) =
     (case match_version (c # s) of
        Some n \<Rightarrow> Some ([], take n (c # s), drop n (c # s))
      | None \<Rightarrow> map_option (\<lambda>(pre, m, post). (c # pre, m, post)) (find_version s))"

definition rawVersionRegex :: "string \<Rightarrow> bool" where
  "rawVersionRegex s \<longleftrightarrow> match_numbers (CHR ''.'') s = Some (length s)"

definition GetIdentifierAndVersion :: "string \<Rightarrow> (string \<times> string) option" where
  "GetIdentifierAndVersion versionedPath =
     (let (dirPath, filename) = path_Split versionedPath in
      case find_version filename of
        None \<Rightarrow> None
      | Some (pre, rawVersion, post) \<Rightarrow>
          Some (dirPath @ pre @ post, Replace (TrimLeft rawVersion ''_v'') (CHR ''-'') (CHR ''.'') 2))"

definition GetVersionedPath :: "string \<Rightarrow> string \<Rightarrow> string" where
  "GetVersionedPath identifier version =
     (let (identifierPath, filename) = path_Split identifier;
          splittedFilename = SplitN2 (CHR ''.'') filename;
          transformedVersion = Replace version (CHR ''.'') (CHR ''-'') 2;
          versionedPath = identifierPath @ splittedFilename ! 0 @ ''_v'' @ transformedVersion in
      if length splittedFilename > 1 then versionedPath @ ''.'' @ splittedFilename ! 1 else versionedPath)"

subsection \<open>Names are taken apart as they were put together\<close>

lemma is_digit_chars [simp]: "\<not> is_digit (CHR ''-'')" "\<not> is_digit (CHR ''.'')" "\<not> is_digit (CHR ''_'')" "\<not> is_digit (CHR ''v'')"
  by (simp_all add: is_digit_def digit_val_def)

lemma is_lower_chars [simp]: "\<not> is_lower (CHR ''-'')" "\<not> is_lower (CHR ''.'')" "\<not> is_lower (CHR ''_'')"
  by (simp_all add: is_lower_def)

text \<open>A version of three numbers with an optional tag.\<close>

definition version_text :: "char \<Rightarrow> string \<Rightarrow> string \<Rightarrow> string \<Rightarrow> string \<Rightarrow> string" where
  "version_text sep a b c tag = a @ [sep] @ b @ [sep] @ c @ (if tag = [] then [] else ''-'' @ tag)"

definition numbers :: "string \<Rightarrow> bool" where
  "numbers s \<longleftrightarrow> s \<noteq> [] \<and> list_all is_digit s"

lemma takeWhile_all_append: "list_all P a \<Longrightarrow> b = [] \<or> \<not> P (hd b) \<Longrightarrow> takeWhile P (a @ b) = a"
  by (induction a) (auto, cases b, auto)

lemma match_digits_append: "numbers a \<Longrightarrow> b = [] \<or> \<not> is_digit (hd b) \<Longrightarrow> match_digits (a @ b) = Some (a, b)"
  by (auto simp: match_digits_def numbers_def takeWhile_all_append Let_def)

lemma match_numbers_text:
  assumes "numbers a" "numbers b" "numbers c" "list_all is_lower tag" "\<not> is_digit sep"
    and post: "post = [] \<or> hd post = CHR ''.''"
  shows "match_numbers sep (version_text sep a b c tag @ post) = Some (length (version_text sep a b c tag))"
proof -
  let ?t = "(if tag = [] then [] else ''-'' @ tag) @ post"
  have "match_digits (a @ sep # b @ sep # c @ ?t) = Some (a, sep # b @ sep # c @ ?t)"
    "next_digits sep (sep # b @ sep # c @ ?t) = Some (b, sep # c @ ?t)"
    using assms by (auto simp: next_digits_def intro!: match_digits_append)
  moreover have "next_digits sep (sep # c @ ?t) = Some (c, ?t)"
    using assms by (auto simp: next_digits_def intro!: match_digits_append)
  moreover have "match_tag ?t = tag"
    using assms by (auto simp: match_tag_def intro!: takeWhile_all_append)
  ultimately show ?thesis
    by (cases "tag = []") (simp_all add: match_numbers_def version_text_def Let_def)
qed

lemma match_digits_SomeD: "match_digits s = Some (d, r) \<Longrightarrow> numbers d \<and> s = d @ r"
  by (auto simp: match_digits_def numbers_def Let_def list_all_iff dest: set_takeWhileD split: if_splits)
    (metis append_eq_conv_conj takeWhile_dropWhile_id)+

lemma next_digits_SomeD: "next_digits sep s = Some (d, r) \<Longrightarrow> numbers d \<and> s = sep # d @ r"
  by (cases s) (auto simp: next_digits_def dest: match_digits_SomeD split: if_splits)

lemma match_tag_rest:
  "list_all is_lower (match_tag r) \<and> (\<exists>post. r = (if match_tag r = [] then [] else ''-'' @ match_tag r) @ post)"
proof (cases "match_tag r = []")
  case False
  then obtain r' where r: "r = CHR ''-'' # r'" by (cases r) (auto simp: match_tag_def split: if_splits)
  then have t: "match_tag r = takeWhile is_lower r'" by (simp add: match_tag_def)
  then have "list_all is_lower (match_tag r)" by (auto simp: list_all_iff dest: set_takeWhileD)
  moreover have "r = (''-'' @ match_tag r) @ dropWhile is_lower r'" unfolding r using t r by simp
  ultimately show ?thesis using False by metis
qed simp

lemma match_numbers_SomeD:
  assumes "match_numbers sep s = Some n"
  shows "\<exists>a b c tag post. numbers a \<and> numbers b \<and> numbers c \<and> list_all is_lower tag \<and>
    s = version_text sep a b c tag @ post \<and> n = length (version_text sep a b c tag)"
proof -
  obtain a r1 b r2 c r3 where d: "match_digits s = Some (a, r1)"
    "next_digits sep r1 = Some (b, r2)" "next_digits sep r2 = Some (c, r3)"
    and n: "n = length (version_text sep a b c (match_tag r3))"
    using assms by (auto simp: match_numbers_def version_text_def Let_def split: option.splits prod.splits if_splits)
  obtain post where "r3 = (if match_tag r3 = [] then [] else ''-'' @ match_tag r3) @ post"
    using match_tag_rest by blast
  then have "s = version_text sep a b c (match_tag r3) @ post"
    using match_digits_SomeD[OF d(1)] next_digits_SomeD[OF d(2)] next_digits_SomeD[OF d(3)]
    by (simp add: version_text_def)
  then show ?thesis
    using n match_digits_SomeD[OF d(1)] next_digits_SomeD[OF d(2)] next_digits_SomeD[OF d(3)] match_tag_rest by blast
qed

text \<open>An underscore ends every match.\<close>

lemma takeWhile_stop: "\<not> P c \<Longrightarrow> takeWhile P (w @ c # y) = takeWhile P w"
  by (induction w) auto

lemma match_digits_stop:
  "match_digits (w @ CHR ''_'' # y) = map_option (\<lambda>(d, r). (d, r @ CHR ''_'' # y)) (match_digits w)"
proof -
  have "length (takeWhile is_digit w) \<le> length w" by (rule length_takeWhile_le)
  then show ?thesis by (simp add: match_digits_def takeWhile_stop Let_def)
qed

lemma next_digits_stop:
  "sep \<noteq> CHR ''_'' \<Longrightarrow>
   next_digits sep (w @ CHR ''_'' # y) = map_option (\<lambda>(d, r). (d, r @ CHR ''_'' # y)) (next_digits sep w)"
  by (cases w) (simp_all add: next_digits_def match_digits_stop)

lemma match_tag_stop: "match_tag (w @ CHR ''_'' # y) = match_tag w"
  by (cases w) (simp_all add: match_tag_def takeWhile_stop)

lemma match_numbers_stop:
  "sep \<noteq> CHR ''_'' \<Longrightarrow> match_numbers sep (w @ CHR ''_'' # y) = match_numbers sep w"
  by (simp add: match_numbers_def match_digits_stop next_digits_stop match_tag_stop split: option.split)

lemma match_version_stop: "match_version x = None \<Longrightarrow> x \<noteq> [] \<Longrightarrow> match_version (x @ CHR ''_'' # y) = None"
proof (cases x)
  case (Cons c cs)
  then show "match_version x = None \<Longrightarrow> match_version (x @ CHR ''_'' # y) = None"
    by (cases cs) (auto simp: match_version_def HasPrefix_def match_numbers_stop)
qed simp

lemma find_version_first:
  assumes "find_version pre = None" "match_version (CHR ''_'' # y) = Some n"
  shows "find_version (pre @ CHR ''_'' # y) = Some (pre, take n (CHR ''_'' # y), drop n (CHR ''_'' # y))"
  using assms(1)
proof (induction pre)
  case (Cons c pre)
  then have "match_version (c # pre) = None" "find_version pre = None" by (auto split: option.splits)
  with Cons match_version_stop[of "c # pre" y] show ?case by simp
qed (simp add: assms(2))

lemma Replace_version:
  assumes "numbers a" "numbers b" "\<not> is_digit old"
  shows "Replace (version_text old a b c tag) old new 2 = version_text new a b c tag"
proof -
  have n: "old \<notin> set a" "old \<notin> set b" using assms by (auto simp: numbers_def list_all_iff)
  show ?thesis unfolding version_text_def numeral_2_eq_2 by (simp add: Replace_append[OF n(1)] Replace_append[OF n(2)])
qed

lemma TrimLeft_version: "numbers a \<Longrightarrow> TrimLeft (''_v'' @ a @ r) ''_v'' = a @ r"
  by (cases a) (auto simp: TrimLeft_def numbers_def is_digit_def digit_val_def)

lemma SplitN2_cases:
  "(SplitN2 (CHR ''.'') f = [f] \<and> CHR ''.'' \<notin> set f) \<or>
   (\<exists>stem ext. SplitN2 (CHR ''.'') f = [stem, ext] \<and> f = stem @ ''.'' @ ext \<and> CHR ''.'' \<notin> set stem)"
proof (cases "CHR ''.'' \<in> set f")
  case True
  then obtain stem ext where f: "f = stem @ CHR ''.'' # ext" "CHR ''.'' \<notin> set stem" by (metis split_list_first)
  then have "takeWhile (\<lambda>c. c \<noteq> CHR ''.'') f = stem" "dropWhile (\<lambda>c. c \<noteq> CHR ''.'') f = CHR ''.'' # ext"
    by (auto simp: takeWhile_append dropWhile_append3)
  then show ?thesis using f by (auto simp: SplitN2_def)
next
  case False
  then have "takeWhile (\<lambda>c. c \<noteq> CHR ''.'') f = f" "dropWhile (\<lambda>c. c \<noteq> CHR ''.'') f = []"
    by (auto simp: takeWhile_eq_all_conv dropWhile_eq_Nil_conv)
  then show ?thesis using False by (simp add: SplitN2_def)
qed

text \<open>A versioned path is taken apart into what it was made of: for every identifier and
  every version of the form the updater accepts, \<open>GetIdentifierAndVersion\<close> of \<open>GetVersionedPath\<close>
  returns both, unless the file name, up to its first dot, contains something that looks
  like a version already.\<close>

theorem versioned_path_roundtrip:
  assumes "rawVersionRegex version" "find_version (SplitN2 (CHR ''.'') (snd (path_Split identifier)) ! 0) = None"
  shows "GetIdentifierAndVersion (GetVersionedPath identifier version) = Some (identifier, version)"
proof -
  obtain a b c tag where v: "numbers a" "numbers b" "numbers c" "list_all is_lower tag" "version = version_text (CHR ''.'') a b c tag"
    using assms(1) unfolding rawVersionRegex_def by (force dest!: match_numbers_SomeD)
  obtain dir f where id: "path_Split identifier = (dir, f)" by fastforce
  have parts: "identifier = dir @ f" "CHR ''/'' \<notin> set f" "dir = [] \<or> last dir = CHR ''/''"
    using path_Split_append[of "identifier"] path_Split_no_slash[of "identifier"] path_Split_dir[of "identifier"] id by auto
  obtain stem post where f: "f = stem @ post" "post = [] \<or> hd post = CHR ''.''" "SplitN2 (CHR ''.'') f ! 0 = stem"
    and vp: "GetVersionedPath identifier version = dir @ stem @ ''_v'' @ version_text (CHR ''-'') a b c tag @ post"
  proof (cases "CHR ''.'' \<in> set f")
    case True
    then obtain stem ext where "SplitN2 (CHR ''.'') f = [stem, ext]" "f = stem @ ''.'' @ ext"
      using SplitN2_cases[of f] by auto
    then show ?thesis using that[of stem "''.'' @ ext"] v id Replace_version[OF v(1,2), of "CHR ''.''"]
      by (simp add: GetVersionedPath_def)
  next
    case False
    then have "SplitN2 (CHR ''.'') f = [f]" using SplitN2_cases[of f] by auto
    then show ?thesis using that[of f "[]"] v id Replace_version[OF v(1,2), of "CHR ''.''"]
      by (simp add: GetVersionedPath_def)
  qed
  let ?t = "version_text (CHR ''-'') a b c tag"
  have "CHR ''/'' \<notin> set (stem @ ''_v'' @ ?t @ post)"
    using parts(2) f(1) v by (auto simp: version_text_def numbers_def list_all_iff is_digit_def digit_val_def is_lower_def)
  then have split: "path_Split (dir @ stem @ ''_v'' @ ?t @ post) = (dir, stem @ ''_v'' @ ?t @ post)"
    using parts(3) by (intro path_Split_eq)
  have "match_version (CHR ''_'' # CHR ''v'' # ?t @ post) = Some (length ?t + 2)"
    using match_numbers_text[OF v(1-4) _ f(2), of "CHR ''-''"] by (simp add: match_version_def HasPrefix_def)
  then have "find_version (stem @ ''_v'' @ ?t @ post) = Some (stem, ''_v'' @ ?t, post)"
    using find_version_first[of stem "CHR ''v'' # ?t @ post"] assms(2) f(3) id by simp
  moreover have "Replace (TrimLeft (''_v'' @ ?t) ''_v'') (CHR ''-'') (CHR ''.'') 2 = version"
    using TrimLeft_version[OF v(1)] Replace_version[OF v(1,2), of "CHR ''-''" c tag "CHR ''.''"] v(5)
    by (simp add: version_text_def)
  ultimately show ?thesis using split vp parts(1) f(1) by (simp add: GetIdentifierAndVersion_def)
qed

theorem versioned_path_roundtrip_witness:
  "GetVersionedPath ''all/ui/base.zip'' ''1.20.3-beta'' = ''all/ui/base_v1-20-3-beta.zip'' \<and>
   GetIdentifierAndVersion (GetVersionedPath ''all/ui/base.zip'' ''1.20.3-beta'') = Some (''all/ui/base.zip'', ''1.20.3-beta'')"
proof -
  have "rawVersionRegex ''1.20.3-beta''" by code_simp
  moreover have "find_version (SplitN2 (CHR ''.'') (snd (path_Split ''all/ui/base.zip'')) ! 0) = None" by code_simp
  moreover have "GetVersionedPath ''all/ui/base.zip'' ''1.20.3-beta'' = ''all/ui/base_v1-20-3-beta.zip''" by code_simp
  ultimately show ?thesis using versioned_path_roundtrip[of "''1.20.3-beta''" "''all/ui/base.zip''"] by blast
qed

end
