(* ===== verification/Updater_Resources.thy ===== *)
theory Updater_Resources
  imports Updater_Files
begin

section \<open>Updater: resources and their versions\<close>

text \<open>
  Resources with their versions, \<^verbatim>\<open>updater/resource.go\<close>, \<^verbatim>\<open>notifier.go\<close>, \<^verbatim>\<open>signing.go\<close> and the parts of
  \<^verbatim>\<open>file.go\<close> that change a resource. A resource has a store of version objects; the list of
  versions, the active and the selected version point into it. Resources are fields of the
  registry's map, since no other part of the program keeps a pointer to one. Semantic versions
  (\<open>hashicorp/go-version\<close>) and the order in which \<open>sort.Sort\<close> leaves the versions are parameters, collected
  in \<open>upd_lib\<close>; \<open>sort_Sort\<close> gets the comparison and the list. The file system is a map from paths to
  contents; \<open>remove_fails\<close> tells for which paths \<open>os.Remove\<close> fails.
\<close>

type_synonym vref = nat
type_synonym iref = nat
type_synonym time = int

record 'v upd_lib =
  NewVersion :: "string \<Rightarrow> 'v res"
  sv_String :: "'v \<Rightarrow> string"
  sv_Prerelease :: "'v \<Rightarrow> string"
  sv_GreaterThan :: "'v \<Rightarrow> 'v \<Rightarrow> bool"
  sv_Equal :: "'v \<Rightarrow> 'v \<Rightarrow> bool"
  sort_Sort :: "(vref \<Rightarrow> vref \<Rightarrow> bool) \<Rightarrow> vref list \<Rightarrow> vref list"
  sigExtension :: string
  remove_fails :: "string \<Rightarrow> bool"

definition SignaturePolicyRequire :: uint8 where "SignaturePolicyRequire = 0"
definition SignaturePolicyWarn :: uint8 where "SignaturePolicyWarn = 1"
definition SignaturePolicyDisable :: uint8 where "SignaturePolicyDisable = 2"

record VerificationOptions =
  TrustStore :: "nat option"
  DownloadPolicy :: uint8
  DiskLoadPolicy :: uint8

record 'v ResourceVersion =
  VersionNumber :: string
  semVer :: 'v
  Available :: bool
  SigAvailable :: bool
  CurrentRelease :: bool
  PreRelease :: bool
  Blacklisted :: bool

record 'v Resource =
  Identifier :: string
  Versions :: "vref list"
  verStore :: "vref \<Rightarrow> 'v ResourceVersion"
  nextVer :: vref
  ActiveVersion :: "vref option"
  SelectedVersion :: "vref option"
  resVerification :: "VerificationOptions option"
  resIndex :: "iref option"
  resNotifier :: "nat option"

record Index =
  iPath :: string
  Channel :: string
  iPreRelease :: bool
  AutoDownload :: bool
  LastRelease :: time

record UpdateState =
  LastCheckAt :: "time option"
  LastCheckError :: "goerr option"
  PendingDownload :: "string list"
  LastDownloadAt :: "time option"
  LastDownloadError :: "goerr option"
  LastDownload :: "string list"
  LastSuccessAt :: "time option"

record RegistryState =
  stateID :: string
  Details :: "(string list \<times> nat) option"
  Updates :: UpdateState

record 'v ResourceRegistry =
  regName :: string
  storageDir :: string
  tmpDir :: string
  indexes :: "iref list"
  indexStore :: "iref \<Rightarrow> Index"
  nextIndex :: iref
  regState :: "RegistryState option"
  resources :: "string \<rightharpoonup> 'v Resource"
  UpdateURLs :: "string list"
  UserAgent :: string
  MandatoryUpdates :: "string list"
  AutoUnpack :: "string list"
  Verification :: "(string \<times> VerificationOptions option) list option"
  UsePreReleases :: bool
  DevMode :: bool
  regOnline :: bool
  files :: "string \<rightharpoonup> bytes"
  notifiers :: "nat \<Rightarrow> bool"
  nextNotifier :: nat
  stateNotifications :: "RegistryState list"
  requestNo :: nat

definition nil_panic :: goerr where
  "nil_panic = GoPanic ''runtime error: invalid memory address or nil pointer dereference''"

subsection \<open>Verification options\<close>

fun best_prefix :: "string \<Rightarrow> (string \<times> VerificationOptions option) list \<Rightarrow> int \<Rightarrow> VerificationOptions option \<Rightarrow>
  VerificationOptions option" where
  "best_prefix identifier [] longestPrefix bestMatch = bestMatch"
| "best_prefix identifier ((pre, opts) # more_opts) longestPrefix bestMatch =
     (if int (length pre) > longestPrefix \<and> HasPrefix identifier pre
      then best_prefix identifier more_opts (int (length pre)) opts
      else best_prefix identifier more_opts longestPrefix bestMatch)"

definition GetVerificationOptions :: "string \<Rightarrow> 'v ResourceRegistry \<Rightarrow> VerificationOptions option" where
  "GetVerificationOptions identifier reg =
     (case Verification reg of None \<Rightarrow> None | Some vs \<Rightarrow> best_prefix identifier vs (- 1) None)"

subsection \<open>Versions\<close>

text \<open>\<open>init\<close> panics if \<open>0\<close> is not a version.\<close>

definition devVersion :: "'v upd_lib \<Rightarrow> 'v" where
  "devVersion lib = projr (NewVersion lib ''0'')"

definition EqualsVersion :: "'v upd_lib \<Rightarrow> string \<Rightarrow> 'v ResourceVersion \<Rightarrow> bool" where
  "EqualsVersion lib version rv =
     (case NewVersion lib version of Inl _ \<Rightarrow> False | Inr cmpSemVer \<Rightarrow> sv_Equal lib (semVer rv) cmpSemVer)"

definition isSelectable :: "'v ResourceRegistry \<Rightarrow> 'v Resource \<Rightarrow> vref \<Rightarrow> bool" where
  "isSelectable reg res r =
     (let rv = verStore res r in
      if Blacklisted rv then False
      else if Available rv then True
      else if \<not> regOnline reg then False
      else case resIndex res of None \<Rightarrow> False | Some i \<Rightarrow> AutoDownload (indexStore reg i))"

definition isBetaVersionNumber :: "'v upd_lib \<Rightarrow> 'v ResourceVersion \<Rightarrow> bool" where
  "isBetaVersionNumber lib rv = (sv_Prerelease lib (semVer rv) \<in> {''b'', ''beta''})"

definition versionedPath :: "'v Resource \<Rightarrow> vref \<Rightarrow> string" where
  "versionedPath res r = GetVersionedPath (Identifier res) (VersionNumber (verStore res r))"

definition versionedSigPath :: "'v upd_lib \<Rightarrow> 'v Resource \<Rightarrow> vref \<Rightarrow> string" where
  "versionedSigPath lib res r = versionedPath res r @ sigExtension lib"

definition storagePath :: "'v ResourceRegistry \<Rightarrow> 'v Resource \<Rightarrow> vref \<Rightarrow> string" where
  "storagePath reg res r = path_Join (storageDir reg) (versionedPath res r)"

definition storageSigPath :: "'v upd_lib \<Rightarrow> 'v ResourceRegistry \<Rightarrow> 'v Resource \<Rightarrow> vref \<Rightarrow> string" where
  "storageSigPath lib reg res r = storagePath reg res r @ sigExtension lib"

definition SigningMetadata :: "'v Resource \<Rightarrow> vref \<Rightarrow> (string \<times> string) list" where
  "SigningMetadata res r = [(''id'', Identifier res), (''version'', VersionNumber (verStore res r))]"

subsection \<open>Resources\<close>

definition upd_version :: "vref \<Rightarrow> ('v ResourceVersion \<Rightarrow> 'v ResourceVersion) \<Rightarrow> 'v Resource \<Rightarrow> 'v Resource" where
  "upd_version r f res = res\<lparr>verStore := (verStore res)(r := f (verStore res r))\<rparr>"

definition available :: "'v Resource \<Rightarrow> bool" where
  "available res \<longleftrightarrow> (\<exists>r \<in> set (Versions res). Available (verStore res r))"

definition inUse :: "'v Resource \<Rightarrow> bool" where
  "inUse res \<longleftrightarrow> ActiveVersion res \<noteq> None"

definition AnyVersionAvailable :: "'v Resource \<Rightarrow> bool" where
  "AnyVersionAvailable res = available res"

definition newResource :: "'v ResourceVersion \<Rightarrow> 'v ResourceRegistry \<Rightarrow> string \<Rightarrow> 'v Resource" where
  "newResource unused reg identifier =
     \<lparr>Identifier = identifier, Versions = [], verStore = (\<lambda>_. unused), nextVer = 0, ActiveVersion = None,
      SelectedVersion = None, resVerification = GetVerificationOptions identifier reg, resIndex = None,
      resNotifier = None\<rparr>"

definition Resource_Export :: "'v Resource \<Rightarrow> 'v Resource" where
  "Resource_Export res = res\<lparr>resVerification := None, resIndex := None, resNotifier := None\<rparr>"

text \<open>\<open>AddVersion\<close>. The flags of the other versions are reset before the version is parsed.\<close>

definition reset_current :: "vref list \<Rightarrow> 'v Resource \<Rightarrow> 'v Resource" where
  "reset_current rs res = fold (\<lambda>r. upd_version r (\<lambda>rv. rv\<lparr>CurrentRelease := False\<rparr>)) rs res"

definition version_flags ::
  "'v upd_lib \<Rightarrow> 'v ResourceRegistry \<Rightarrow> bool \<Rightarrow> bool \<Rightarrow> bool \<Rightarrow> vref \<Rightarrow> 'v Resource \<Rightarrow> 'v Resource" where
  "version_flags lib reg avail currentRelease preRelease r res =
     (let sig = (resVerification res \<noteq> None \<and> files reg (storageSigPath lib reg res r) \<noteq> None);
          set_available = (\<lambda>rv. if avail then rv\<lparr>Available := True, SigAvailable := SigAvailable rv \<or> sig\<rparr> else rv);
          set_current = (\<lambda>rv. if currentRelease then rv\<lparr>CurrentRelease := True\<rparr> else rv);
          set_pre = (\<lambda>rv. if preRelease \<or> sv_Prerelease lib (semVer rv) \<noteq> [] then rv\<lparr>PreRelease := True\<rparr> else rv) in
      upd_version r (\<lambda>rv. set_pre (set_current (set_available rv))) res)"

definition AddVersion ::
  "'v upd_lib \<Rightarrow> 'v ResourceRegistry \<Rightarrow> string \<Rightarrow> bool \<Rightarrow> bool \<Rightarrow> bool \<Rightarrow> 'v Resource \<Rightarrow> 'v Resource \<times> goerr option" where
  "AddVersion lib reg version avail currentRelease preRelease res =
     (let res1 = (if currentRelease then reset_current (Versions res) res else res) in
      case find (\<lambda>r. VersionNumber (verStore res1 r) = version) (Versions res1) of
        Some r \<Rightarrow> (version_flags lib reg avail currentRelease preRelease r res1, None)
      | None \<Rightarrow>
          (case NewVersion lib version of
             Inl err \<Rightarrow> (res1, Some err)
           | Inr sv \<Rightarrow>
               (let r = nextVer res1;
                    rv = \<lparr>VersionNumber = sv_String lib sv, semVer = sv, Available = False, SigAvailable = False,
                          CurrentRelease = False, PreRelease = False, Blacklisted = False\<rparr>;
                    res2 = res1\<lparr>verStore := (verStore res1)(r := rv), nextVer := Suc r, Versions := Versions res1 @ [r]\<rparr> in
                (version_flags lib reg avail currentRelease preRelease r res2, None))))"

subsection \<open>Selection\<close>

definition version_less :: "'v upd_lib \<Rightarrow> 'v Resource \<Rightarrow> vref \<Rightarrow> vref \<Rightarrow> bool" where
  "version_less lib res a b = sv_GreaterThan lib (semVer (verStore res a)) (semVer (verStore res b))"

text \<open>The version that is selected from the sorted versions.\<close>

definition select_target :: "'v upd_lib \<Rightarrow> 'v ResourceRegistry \<Rightarrow> 'v Resource \<Rightarrow> vref option" where
  "select_target lib reg res =
     (let vs = Versions res; rv = verStore res in
      if vs = [] then None
      else if DevMode reg \<and> sv_Equal lib (semVer (rv (last vs))) (devVersion lib) \<and> Available (rv (last vs))
      then Some (last vs)
      else
        (let current = (case find (\<lambda>r. CurrentRelease (rv r)) vs of
                          Some r \<Rightarrow> if isSelectable reg res r then Some r else None
                        | None \<Rightarrow> None);
             newest = (if UsePreReleases reg then find (isSelectable reg res) vs else None);
             stable = find (\<lambda>r. \<not> PreRelease (rv r) \<and> isSelectable reg res r) vs in
         if current \<noteq> None then current
         else if newest \<noteq> None then newest
         else if stable \<noteq> None then stable
         else Some (hd vs)))"

text \<open>\<open>markAsUpgradeable\<close> closes the channel when the flag was not set before.\<close>

definition markAsUpgradeable :: "nat \<Rightarrow> 'v ResourceRegistry \<Rightarrow> 'v ResourceRegistry" where
  "markAsUpgradeable n reg = reg\<lparr>notifiers := (notifiers reg)(n := True)\<rparr>"

definition newNotifier :: "'v ResourceRegistry \<Rightarrow> 'v ResourceRegistry \<times> nat" where
  "newNotifier reg =
     (reg\<lparr>notifiers := (notifiers reg)(nextNotifier reg := False), nextNotifier := Suc (nextNotifier reg)\<rparr>, nextNotifier reg)"

definition selectVersion :: "'v upd_lib \<Rightarrow> 'v ResourceRegistry \<Rightarrow> 'v Resource \<Rightarrow> 'v ResourceRegistry \<times> 'v Resource" where
  "selectVersion lib reg res =
     (let res1 = res\<lparr>Versions := sort_Sort lib (version_less lib res) (Versions res)\<rparr>;
          res2 = res1\<lparr>SelectedVersion := select_target lib reg res1\<rparr> in
      case resNotifier res2 of
        Some n \<Rightarrow>
          if inUse res2 \<and> SelectedVersion res2 \<noteq> ActiveVersion res2
          then (markAsUpgradeable n reg, res2\<lparr>resNotifier := None\<rparr>) else (reg, res2)
      | None \<Rightarrow> (reg, res2))"

record File =
  fIdentifier :: string
  fVersion :: vref
  fNotifier :: "nat option"
  fVersionedPath :: string
  fStoragePath :: string

definition ensure_notifier :: "'v ResourceRegistry \<Rightarrow> 'v Resource \<Rightarrow> 'v ResourceRegistry \<times> 'v Resource" where
  "ensure_notifier reg res =
     (case resNotifier res of
        Some n \<Rightarrow> (reg, res)
      | None \<Rightarrow> (case newNotifier reg of (reg1, n) \<Rightarrow> (reg1, res\<lparr>resNotifier := Some n\<rparr>)))"

definition make_file :: "'v ResourceRegistry \<Rightarrow> 'v Resource \<Rightarrow> vref \<Rightarrow> File" where
  "make_file reg res r =
     \<lparr>fIdentifier = Identifier res, fVersion = r, fNotifier = resNotifier res, fVersionedPath = versionedPath res r,
      fStoragePath = storagePath reg res r\<rparr>"

text \<open>Selecting may take the new notifier away from the resource again; the file then has none.\<close>

definition Resource_GetFile ::
  "'v upd_lib \<Rightarrow> 'v ResourceRegistry \<Rightarrow> 'v Resource \<Rightarrow> ('v ResourceRegistry \<times> 'v Resource) \<times> File res" where
  "Resource_GetFile lib reg res =
     (let (reg1, res1) = ensure_notifier reg res;
          (reg2, res2) = (if SelectedVersion res1 = None then selectVersion lib reg1 res1 else (reg1, res1)) in
      ((reg2, res2), case SelectedVersion res2 of None \<Rightarrow> Inl nil_panic | Some r \<Rightarrow> Inr (make_file reg2 res2 r)))"

definition Version_GetFile ::
  "'v ResourceRegistry \<Rightarrow> 'v Resource \<Rightarrow> vref \<Rightarrow> ('v ResourceRegistry \<times> 'v Resource) \<times> File" where
  "Version_GetFile reg res r =
     (let (reg1, res1) = ensure_notifier reg res in ((reg1, res1), make_file reg1 res1 r))"

definition UpgradeAvailable :: "'v ResourceRegistry \<Rightarrow> File \<Rightarrow> bool res" where
  "UpgradeAvailable reg file = (case fNotifier file of None \<Rightarrow> Inl nil_panic | Some n \<Rightarrow> Inr (notifiers reg n))"

definition markActive :: "File \<Rightarrow> 'v Resource \<Rightarrow> 'v Resource" where
  "markActive file res = res\<lparr>ActiveVersion := Some (fVersion file)\<rparr>"

subsection \<open>Blacklisting and purging\<close>

definition Resource_Blacklist ::
  "'v upd_lib \<Rightarrow> 'v ResourceRegistry \<Rightarrow> string \<Rightarrow> 'v Resource \<Rightarrow> ('v ResourceRegistry \<times> 'v Resource) \<times> goerr option" where
  "Resource_Blacklist lib reg version res =
     (let valid = length (filter (\<lambda>r. \<not> sv_Equal lib (semVer (verStore res r)) (devVersion lib) \<and>
                                      \<not> Blacklisted (verStore res r)) (Versions res)) in
      if valid \<le> 1 then ((reg, res), Some (ErrNew ''cannot blacklist last version''))
      else case find (\<lambda>r. VersionNumber (verStore res r) = version) (Versions res) of
             Some r \<Rightarrow> (selectVersion lib reg (upd_version r (\<lambda>rv. rv\<lparr>Blacklisted := True\<rparr>) res), None)
           | None \<Rightarrow> ((reg, res), Some (ErrNew ''could not find version'')))"

text \<open>The search for the purge boundary; the flags say which required versions were skipped:
  active, selected and stable.\<close>

fun boundary_search :: "'v Resource \<Rightarrow> int \<Rightarrow> vref list \<Rightarrow> int \<Rightarrow> bool \<Rightarrow> bool \<Rightarrow> bool \<Rightarrow> int" where
  "boundary_search res keepExtra [] i skippedActive skippedSelected skippedStable = 0"
| "boundary_search res keepExtra (r # rs) i skippedActive skippedSelected skippedStable =
     (if (\<not> skippedActive \<and> ActiveVersion res \<noteq> None) \<or> (\<not> skippedSelected \<and> SelectedVersion res \<noteq> None) \<or> \<not> skippedStable
      then boundary_search res keepExtra rs (i + 1) (skippedActive \<or> ActiveVersion res = Some r)
             (skippedSelected \<or> SelectedVersion res = Some r) (skippedStable \<or> \<not> PreRelease (verStore res r))
      else i + keepExtra)"

definition os_Remove :: "'v upd_lib \<Rightarrow> string \<Rightarrow> (string \<rightharpoonup> bytes) \<Rightarrow> (string \<rightharpoonup> bytes)" where
  "os_Remove lib p fs = (if remove_fails lib p then fs else fs(p := None))"

definition purge_version ::
  "'v upd_lib \<Rightarrow> 'v ResourceRegistry \<Rightarrow> 'v Resource \<Rightarrow> vref \<Rightarrow> (string \<rightharpoonup> bytes) \<Rightarrow> (string \<rightharpoonup> bytes)" where
  "purge_version lib reg res r fs =
     (if \<not> Available (verStore res r) then fs
      else
        (let path = storagePath reg res r;
             fs1 = os_Remove lib (storageSigPath lib reg res r) (os_Remove lib path fs);
             ext = path_Ext path in
         if ext = [] then fs1 else os_Remove lib (TrimSuffix path ext) fs1))"

text \<open>After the files of the versions beyond the boundary are removed, \<open>res.Versions\<close> is set to these versions.\<close>

definition Resource_Purge :: "'v upd_lib \<Rightarrow> int \<Rightarrow> 'v ResourceRegistry \<Rightarrow> 'v Resource \<Rightarrow> 'v ResourceRegistry \<times> 'v Resource" where
  "Resource_Purge lib keep reg res =
     (if \<exists>r \<in> set (Versions res). Blacklisted (verStore res r) then (reg, res)
      else
        (let keepExtra = max 2 keep;
             purgeBoundary = boundary_search res keepExtra (Versions res) 0 False False False in
         if purgeBoundary \<le> keepExtra \<or> purgeBoundary \<ge> int (length (Versions res)) then (reg, res)
         else
           (let purged = drop (nat purgeBoundary) (Versions res) in
            (reg\<lparr>files := fold (purge_version lib reg res) purged (files reg)\<rparr>, res\<lparr>Versions := purged\<rparr>))))"

end
