(* ===== verification/Updater_Registry.thy ===== *)
theory Updater_Registry
  imports Updater_Resources "HOL-Library.List_Lexorder" "HOL-Library.Char_ord"
begin

section \<open>Updater: the registry\<close>

text \<open>
  The registry of resources: \<^verbatim>\<open>updater/registry.go\<close>, \<^verbatim>\<open>state.go\<close>, \<^verbatim>\<open>indexes.go\<close>, and of \<^verbatim>\<open>updating.go\<close> which
  downloads are pending. Where the code iterates over the map of resources, the order is an
  argument. \<open>now_time\<close> is the time of the call; the zero time is 0.
\<close>

definition upd_resource :: "string \<Rightarrow> 'v Resource \<Rightarrow> 'v ResourceRegistry \<Rightarrow> 'v ResourceRegistry" where
  "upd_resource identifier res reg = reg\<lparr>resources := (resources reg)(identifier \<mapsto> res)\<rparr>"

subsection \<open>Setting up\<close>

definition AddIndex :: "Index \<Rightarrow> 'v ResourceRegistry \<Rightarrow> 'v ResourceRegistry" where
  "AddIndex idx reg =
     (let idx1 = idx\<lparr>Channel := TrimSuffix (path_Base (iPath idx)) (path_Ext (iPath idx))\<rparr>; i = nextIndex reg in
      reg\<lparr>indexStore := (indexStore reg)(i := idx1), nextIndex := Suc i, indexes := indexes reg @ [i]\<rparr>)"

definition empty_updates :: UpdateState where
  "empty_updates = \<lparr>LastCheckAt = None, LastCheckError = None, PendingDownload = [], LastDownloadAt = None,
     LastDownloadError = None, LastDownload = [], LastSuccessAt = None\<rparr>"

definition StateReady :: string where "StateReady = ''ready''"
definition StateChecking :: string where "StateChecking = ''checking''"
definition StateDownloading :: string where "StateDownloading = ''downloading''"
definition StateFetching :: string where "StateFetching = ''fetching''"

definition PreInitUpdateState :: "UpdateState \<Rightarrow> 'v ResourceRegistry \<Rightarrow> 'v ResourceRegistry \<times> goerr option" where
  "PreInitUpdateState s reg =
     (if regState reg \<noteq> None then (reg, Some (ErrNew ''registry already initialized''))
      else (reg\<lparr>regState := Some \<lparr>stateID = [], Details = None, Updates = s\<rparr>\<rparr>, None))"

text \<open>The check of the verification options, in the order of the map.\<close>

fun check_verification :: "(string \<times> VerificationOptions option) list \<Rightarrow> goerr option" where
  "check_verification [] = None"
| "check_verification ((pre, None) # vs) = check_verification vs"
| "check_verification ((pre, Some opts) # vs) =
     (if TrustStore opts = None
      then Some (ErrNew (''verification enabled for prefix '' @ pre @ '', but no trust store configured''))
      else if DiskLoadPolicy opts < DownloadPolicy opts
      then Some (ErrNew ''verification download policy must be equal or stricter than the disk load policy'')
      else check_verification vs)"

text \<open>\<open>Initialize\<close>; \<open>ensure_err\<close> is the error of creating the storage directory. The temporary directory
  is wiped.\<close>

definition Initialize :: "string \<Rightarrow> goerr option \<Rightarrow> 'v ResourceRegistry \<Rightarrow> 'v ResourceRegistry \<times> goerr option" where
  "Initialize dir ensure_err reg =
     (if ensure_err \<noteq> None then (reg, ensure_err)
      else
        (let st = (case regState reg of Some s \<Rightarrow> s | None \<Rightarrow> \<lparr>stateID = [], Details = None, Updates = empty_updates\<rparr>);
             tmp = path_Join dir ''tmp'' in
         (reg\<lparr>regName := (if regName reg = [] then ''updater'' else regName reg), storageDir := dir, tmpDir := tmp,
              resources := Map.empty, regState := Some (st\<lparr>stateID := StateReady\<rparr>),
              files := (\<lambda>p. if HasPrefix p (tmp @ ''/'') then None else files reg p)\<rparr>,
          (case Verification reg of None \<Rightarrow> None | Some vs \<Rightarrow> check_verification vs))))"

definition SetDevMode :: "bool \<Rightarrow> 'v ResourceRegistry \<Rightarrow> 'v ResourceRegistry" where
  "SetDevMode on reg = reg\<lparr>DevMode := on\<rparr>"

definition SetUsePreReleases :: "bool \<Rightarrow> 'v ResourceRegistry \<Rightarrow> 'v ResourceRegistry" where
  "SetUsePreReleases yes reg = reg\<lparr>UsePreReleases := yes\<rparr>"

definition ResetResources :: "'v ResourceRegistry \<Rightarrow> 'v ResourceRegistry" where
  "ResetResources reg = reg\<lparr>resources := Map.empty\<rparr>"

definition ResetIndexes :: "'v ResourceRegistry \<Rightarrow> 'v ResourceRegistry" where
  "ResetIndexes reg = reg\<lparr>indexes := []\<rparr>"

subsection \<open>Resources\<close>

definition addResource ::
  "'v upd_lib \<Rightarrow> string \<Rightarrow> string \<Rightarrow> iref option \<Rightarrow> bool \<Rightarrow> bool \<Rightarrow> bool \<Rightarrow> 'v ResourceRegistry \<Rightarrow>
   'v ResourceRegistry \<times> goerr option" where
  "addResource lib identifier version index avail currentRelease preRelease reg =
     (let res = (case resources reg identifier of
                   Some res \<Rightarrow> res
                 | None \<Rightarrow> newResource \<lparr>VersionNumber = [], semVer = devVersion lib, Available = False, SigAvailable = False,
                             CurrentRelease = False, PreRelease = False, Blacklisted = False\<rparr> reg identifier);
          (res1, err) = AddVersion lib reg version avail currentRelease preRelease (res\<lparr>resIndex := index\<rparr>) in
      (upd_resource identifier res1 reg, err))"

definition AddResource ::
  "'v upd_lib \<Rightarrow> string \<Rightarrow> string \<Rightarrow> iref option \<Rightarrow> bool \<Rightarrow> bool \<Rightarrow> bool \<Rightarrow> 'v ResourceRegistry \<Rightarrow>
   'v ResourceRegistry \<times> goerr option" where
  "AddResource = addResource"

text \<open>The error of the last resource is returned, be it nil or not.\<close>

definition AddResources ::
  "'v upd_lib \<Rightarrow> (string \<times> string) list \<Rightarrow> iref option \<Rightarrow> bool \<Rightarrow> bool \<Rightarrow> bool \<Rightarrow> 'v ResourceRegistry \<Rightarrow>
   'v ResourceRegistry \<times> goerr option" where
  "AddResources lib versions index avail currentRelease preRelease reg =
     fold (\<lambda>(identifier, version) (r, lastError).
             addResource lib identifier version index avail currentRelease preRelease r) versions (reg, None)"

definition select_one :: "'v upd_lib \<Rightarrow> string \<Rightarrow> 'v ResourceRegistry \<Rightarrow> 'v ResourceRegistry" where
  "select_one lib identifier reg =
     (case resources reg identifier of
        None \<Rightarrow> reg
      | Some res \<Rightarrow> (case selectVersion lib reg res of (reg1, res1) \<Rightarrow> upd_resource identifier res1 reg1))"

definition SelectVersions :: "'v upd_lib \<Rightarrow> string list \<Rightarrow> 'v ResourceRegistry \<Rightarrow> 'v ResourceRegistry" where
  "SelectVersions lib order reg = fold (select_one lib) order reg"

text \<open>\<open>GetSelectedVersions\<close> writes into the map it returns, which was never made.\<close>

definition GetSelectedVersions :: "string list \<Rightarrow> 'v ResourceRegistry \<Rightarrow> (string \<rightharpoonup> string) res" where
  "GetSelectedVersions order reg =
     (case order of
        [] \<Rightarrow> Inr Map.empty
      | identifier # _ \<Rightarrow>
          (case SelectedVersion (the (resources reg identifier)) of
             None \<Rightarrow> Inl nil_panic
           | Some _ \<Rightarrow> Inl (GoPanic ''assignment to entry in nil map'')))"

definition purge_one :: "'v upd_lib \<Rightarrow> int \<Rightarrow> string \<Rightarrow> 'v ResourceRegistry \<Rightarrow> 'v ResourceRegistry" where
  "purge_one lib keep identifier reg =
     (case resources reg identifier of
        None \<Rightarrow> reg
      | Some res \<Rightarrow> (case Resource_Purge lib keep reg res of (reg1, res1) \<Rightarrow> upd_resource identifier res1 reg1))"

definition Registry_Purge :: "'v upd_lib \<Rightarrow> int \<Rightarrow> string list \<Rightarrow> 'v ResourceRegistry \<Rightarrow> 'v ResourceRegistry" where
  "Registry_Purge lib keep order reg = fold (purge_one lib keep) order reg"

definition Registry_Export :: "'v ResourceRegistry \<Rightarrow> string \<rightharpoonup> 'v Resource" where
  "Registry_Export reg = (\<lambda>identifier. map_option Resource_Export (resources reg identifier))"

definition ErrNotFound_upd :: goerr where
  "ErrNotFound_upd = ErrNew ''the requested file could not be found''"

definition ErrNotAvailableLocally :: goerr where
  "ErrNotAvailableLocally = ErrNew ''the requested file is not available locally''"

definition ErrVerificationNotConfigured :: goerr where
  "ErrVerificationNotConfigured = ErrNew ''verification not configured for this resource''"

definition GetVersion :: "string \<Rightarrow> 'v ResourceRegistry \<Rightarrow> vref option res" where
  "GetVersion identifier reg =
     (case resources reg identifier of None \<Rightarrow> Inl ErrNotFound_upd | Some res \<Rightarrow> Inr (SelectedVersion res))"

subsection \<open>State\<close>

text \<open>\<open>notify\<close> hands the state to the notify function; the operation lock serialises operations.\<close>

definition notify_state :: "'v ResourceRegistry \<Rightarrow> 'v ResourceRegistry" where
  "notify_state reg = reg\<lparr>stateNotifications := stateNotifications reg @ [the (regState reg)]\<rparr>"

definition upd_state :: "(RegistryState \<Rightarrow> RegistryState) \<Rightarrow> 'v ResourceRegistry \<Rightarrow> 'v ResourceRegistry" where
  "upd_state f reg = notify_state (reg\<lparr>regState := map_option f (regState reg)\<rparr>)"

definition StartOperation :: "string \<Rightarrow> 'v ResourceRegistry \<Rightarrow> 'v ResourceRegistry" where
  "StartOperation ident = upd_state (\<lambda>s. s\<lparr>stateID := ident\<rparr>)"

definition UpdateOperationDetails :: "(string list \<times> nat) option \<Rightarrow> 'v ResourceRegistry \<Rightarrow> 'v ResourceRegistry" where
  "UpdateOperationDetails details = upd_state (\<lambda>s. s\<lparr>Details := details\<rparr>)"

definition EndOperation :: "'v ResourceRegistry \<Rightarrow> 'v ResourceRegistry" where
  "EndOperation = upd_state (\<lambda>s. s\<lparr>stateID := StateReady, Details := None\<rparr>)"

definition ReportUpdateCheck :: "time \<Rightarrow> string list \<Rightarrow> goerr option \<Rightarrow> 'v ResourceRegistry \<Rightarrow> 'v ResourceRegistry" where
  "ReportUpdateCheck now_time pendingDownload failed =
     upd_state (\<lambda>s. s\<lparr>Updates := (Updates s)
       \<lparr>LastCheckAt := Some now_time, LastCheckError := failed, PendingDownload := sort pendingDownload,
        LastSuccessAt := (if failed = None then Some now_time else LastSuccessAt (Updates s))\<rparr>\<rparr>)"

definition ReportDownloads :: "time \<Rightarrow> string list \<Rightarrow> goerr option \<Rightarrow> 'v ResourceRegistry \<Rightarrow> 'v ResourceRegistry" where
  "ReportDownloads now_time downloaded failed =
     upd_state (\<lambda>s. s\<lparr>Updates := (Updates s)
       \<lparr>LastDownloadAt := Some now_time, LastDownloadError := failed, LastDownload := sort downloaded,
        PendingDownload := filter (\<lambda>p. p \<notin> set downloaded) (PendingDownload (Updates s)),
        LastSuccessAt := (if failed = None then Some now_time else LastSuccessAt (Updates s))\<rparr>\<rparr>)"

definition GetState :: "'v ResourceRegistry \<Rightarrow> RegistryState option" where
  "GetState reg = regState reg"

subsection \<open>Index files\<close>

record IndexFile =
  ifChannel :: string
  Published :: time
  Releases :: "(string \<times> string) list"

definition ErrIndexChecksumMismatch :: goerr where
  "ErrIndexChecksumMismatch = ErrNew ''index checksum does mot match signature''"

definition ErrIndexFromFuture :: goerr where
  "ErrIndexFromFuture = ErrNew ''index is from the future''"

definition ErrIndexIsOlder :: goerr where
  "ErrIndexIsOlder = ErrNew ''index is older than the current one''"

definition ErrIndexChannelMismatch :: goerr where
  "ErrIndexChannelMismatch = ErrNew ''index does not match the expected channel''"

text \<open>The two ways \<open>encoding/json\<close> decodes an index are parameters.\<close>

record index_json =
  json_index :: "bytes \<Rightarrow> IndexFile res"
  json_releases :: "bytes \<Rightarrow> (string \<times> string) list res"

definition loadOldIndexFormat :: "index_json \<Rightarrow> bytes \<Rightarrow> string \<Rightarrow> IndexFile res" where
  "loadOldIndexFormat js indexData channel =
     (case json_releases js indexData of
        Inl err \<Rightarrow> Inl err
      | Inr releases \<Rightarrow> Inr \<lparr>ifChannel = channel, Published = 0, Releases = releases\<rparr>)"

definition ParseIndexFile :: "index_json \<Rightarrow> time \<Rightarrow> bytes \<Rightarrow> string \<Rightarrow> time \<Rightarrow> IndexFile res" where
  "ParseIndexFile js now_time indexData channel lastIndexRelease =
     (case json_index js indexData of
        Inl err \<Rightarrow> Inl (ErrWrap ''failed to parse signed index data'' err)
      | Inr indexFile \<Rightarrow>
          if Releases indexFile = [] \<and> ifChannel indexFile = [] then loadOldIndexFormat js indexData channel
          else if Published indexFile \<noteq> 0 \<and> now_time < Published indexFile then Inl ErrIndexFromFuture
          else if Published indexFile \<noteq> 0 \<and> lastIndexRelease \<noteq> 0 \<and> lastIndexRelease > Published indexFile
          then Inl ErrIndexIsOlder
          else if channel \<noteq> [] \<and> ifChannel indexFile \<noteq> [] \<and> channel \<noteq> ifChannel indexFile
          then Inl ErrIndexChannelMismatch
          else Inr indexFile)"

subsection \<open>Pending downloads\<close>

definition wants_update :: "'v ResourceRegistry \<Rightarrow> bool \<Rightarrow> bool \<Rightarrow> 'v Resource \<Rightarrow> bool" where
  "wants_update reg manual auto_dl res =
     (case resIndex res of
        None \<Rightarrow> False
      | Some i \<Rightarrow>
          ((manual \<and> \<not> AutoDownload (indexStore reg i)) \<or> (auto_dl \<and> AutoDownload (indexStore reg i))) \<and>
          (inUse res \<or> available res \<or> Identifier res \<in> set (MandatoryUpdates reg)))"

text \<open>A pending version is named by its resource and its reference; the result is sorted by identifier.\<close>

definition GetPendingDownloads ::
  "bool \<Rightarrow> bool \<Rightarrow> string list \<Rightarrow> 'v ResourceRegistry \<Rightarrow> (string \<times> vref) list \<times> (string \<times> vref) list" where
  "GetPendingDownloads manual auto_dl order reg =
     (let wanted = filter (\<lambda>identifier. wants_update reg manual auto_dl (the (resources reg identifier))) order;
          versions = (\<lambda>P. sort_key fst (concat (map (\<lambda>identifier. let res = the (resources reg identifier) in
                        map (\<lambda>r. (identifier, r)) (filter (P res) (Versions res))) wanted))) in
      (versions (\<lambda>res r. CurrentRelease (verStore res r) \<and> \<not> Available (verStore res r)),
       versions (\<lambda>res r. CurrentRelease (verStore res r) \<and> Available (verStore res r) \<and>
                         \<not> SigAvailable (verStore res r) \<and> resVerification res \<noteq> None)))"

definition humanInfoFromResourceVersions :: "'v ResourceRegistry \<Rightarrow> (string \<times> vref) list \<Rightarrow> string list" where
  "humanInfoFromResourceVersions reg rvs =
     map (\<lambda>(identifier, r). identifier @ '' v'' @ VersionNumber (verStore (the (resources reg identifier)) r)) rvs"

end
