(* ===== verification/Updater_Fetch.thy ===== *)
theory Updater_Fetch
  imports Updater_Registry
begin

section \<open>Updater: downloads\<close>

text \<open>
  Downloading and verifying: \<^verbatim>\<open>updater/fetch.go\<close>, \<^verbatim>\<open>updating.go\<close>, \<^verbatim>\<open>storage.go\<close>, \<^verbatim>\<open>get.go\<close> and \<^verbatim>\<open>file.go\<close>.
  The record \<open>upd_net\<close> holds what is outside: the HTTP client, whose answer may differ from one request to the next
  (requests are numbered by \<open>requestNo\<close>), the signatures of the package \<open>jess\<close>, and
  which operations on the file system fail. A download goes to a temporary file
  that replaces the final one at the end.
\<close>

record http_response =
  StatusCode :: int
  ContentLength :: int
  respBody :: bytes
  respErr :: "goerr option"

record ('s, 'h) upd_net =
  url_join :: "string \<Rightarrow> string \<Rightarrow> string res"
  http_Do :: "nat \<Rightarrow> string \<Rightarrow> http_response res"
  ctx_Done :: "nat \<Rightarrow> bool"
  ensure_fails :: "string \<Rightarrow> bool"
  temp_err :: "string \<Rightarrow> goerr option"
  file_write_err :: "string \<Rightarrow> goerr option"
  ParseSigFile :: "bytes \<Rightarrow> 's list \<times> goerr option"
  VerifyFileData :: "'s \<Rightarrow> (string \<times> string) list \<Rightarrow> nat option \<Rightarrow> 'h res"
  hash_Equal :: "'h \<Rightarrow> 'h \<Rightarrow> bool"
  hash_Matches :: "'h \<Rightarrow> bytes \<Rightarrow> bool"
  VerifyFile :: "bytes option \<Rightarrow> bytes option \<Rightarrow> (string \<times> string) list \<Rightarrow> nat option \<Rightarrow> goerr option"

text \<open>A panic is an error that no caller handles: loops end and nothing is added to it.\<close>

definition panics :: "goerr \<Rightarrow> bool" where
  "panics err = (case err of GoPanic _ \<Rightarrow> True | _ \<Rightarrow> False)"

definition wrap_err :: "string \<Rightarrow> goerr \<Rightarrow> goerr" where
  "wrap_err msg err = (if panics err then err else ErrWrap msg err)"

subsection \<open>Requests\<close>

definition makeRequest :: "('s, 'h) upd_net \<Rightarrow> string \<Rightarrow> nat \<Rightarrow> 'v ResourceRegistry \<Rightarrow> 'v ResourceRegistry \<times> http_response res" where
  "makeRequest net downloadPath tries reg =
     (if UpdateURLs reg = [] then (reg, Inl (GoPanic ''runtime error: integer divide by zero''))
      else
        (let updateBaseURL = UpdateURLs reg ! (tries mod length (UpdateURLs reg)) in
         case url_join net updateBaseURL downloadPath of
           Inl err \<Rightarrow> (reg, Inl (ErrWrap (''failed to parse update URL '' @ updateBaseURL) err))
         | Inr downloadURL \<Rightarrow>
             (let reg1 = reg\<lparr>requestNo := Suc (requestNo reg)\<rparr> in
              case http_Do net (requestNo reg) downloadURL of
                Inl err \<Rightarrow> (reg1, Inl (ErrWrap (''failed to make request to '' @ downloadURL) err))
              | Inr resp \<Rightarrow>
                  if StatusCode resp \<noteq> 200
                  then (reg1, Inl (ErrNew (''failed to fetch '' @ downloadURL @ '': '' @ print_int (StatusCode resp))))
                  else (reg1, Inr resp))))"

text \<open>\<open>io.Copy\<close> of the body, with the comparison of the lengths.\<close>

definition read_body :: "http_response \<Rightarrow> bytes res" where
  "read_body resp =
     (case respErr resp of
        Some err \<Rightarrow> Inl (ErrWrap ''failed to download'' err)
      | None \<Rightarrow>
          if ContentLength resp \<noteq> int (length (respBody resp))
          then Inl (ErrNew (''failed to finish download: written '' @ print_nat (length (respBody resp)) @ '' out of '' @
                            print_int (ContentLength resp) @ '' bytes''))
          else Inr (respBody resp))"

text \<open>On shutdown, \<open>fetchData\<close> returns no data and no error. The buffer is allocated with the announced length,
  which is negative when the server announced none.\<close>

definition fetchData :: "('s, 'h) upd_net \<Rightarrow> string \<Rightarrow> nat \<Rightarrow> 'v ResourceRegistry \<Rightarrow> 'v ResourceRegistry \<times> bytes res" where
  "fetchData net downloadPath tries reg =
     (if tries > 0 \<and> ctx_Done net (requestNo reg) then (reg, Inr [])
      else case makeRequest net downloadPath tries reg of
             (reg1, Inl err) \<Rightarrow> (reg1, Inl err)
           | (reg1, Inr resp) \<Rightarrow>
               (reg1, if ContentLength resp < 0 then Inl (GoPanic ''runtime error: makeslice: cap out of range'')
                      else read_body resp))"

fun verify_sigs :: "('s, 'h) upd_net \<Rightarrow> (string \<times> string) list \<Rightarrow> nat option \<Rightarrow> 's list \<Rightarrow> 'h option \<Rightarrow> 'h option res" where
  "verify_sigs net meta trust [] verifiedHash = Inr verifiedHash"
| "verify_sigs net meta trust (sig # sigs) verifiedHash =
     (case VerifyFileData net sig meta trust of
        Inl err \<Rightarrow> Inl err
      | Inr h \<Rightarrow>
          (case verifiedHash of
             None \<Rightarrow> verify_sigs net meta trust sigs (Some h)
           | Some h' \<Rightarrow> if hash_Equal net h h' then verify_sigs net meta trust sigs verifiedHash
                        else Inl (ErrNew ''file hashes from different signatures do not match'')))"

text \<open>The signatures in the data of a signature file: the hash or an error.\<close>

definition verify_sig_data ::
  "('s, 'h) upd_net \<Rightarrow> VerificationOptions \<Rightarrow> (string \<times> string) list \<Rightarrow> bytes \<Rightarrow> 'h option res \<times> bytes" where
  "verify_sig_data net opts meta sigFileData =
     (case ParseSigFile net sigFileData of
        ([], Some err) \<Rightarrow> (Inl (ErrWrap ''failed to parse signature file'' err), [])
      | ([], None) \<Rightarrow> (Inl (ErrNew ''no signatures found in signature file''), [])
      | (_, Some err) \<Rightarrow> (Inl (ErrWrap ''failed to parse signature file'' err), [])
      | (sigs, None) \<Rightarrow> (verify_sigs net meta (TrustStore opts) sigs None, sigFileData))"

definition fetchAndVerifySigFile ::
  "('s, 'h) upd_net \<Rightarrow> VerificationOptions \<Rightarrow> string \<Rightarrow> (string \<times> string) list \<Rightarrow> nat \<Rightarrow> 'v ResourceRegistry \<Rightarrow>
   'v ResourceRegistry \<times> ('h option res \<times> bytes)" where
  "fetchAndVerifySigFile net opts sigFilePath meta tries reg =
     (case makeRequest net sigFilePath tries reg of
        (reg1, Inl err) \<Rightarrow> (reg1, (Inl err, []))
      | (reg1, Inr resp) \<Rightarrow>
          (case respErr resp of
             Some err \<Rightarrow> (reg1, (Inl err, []))
           | None \<Rightarrow> (reg1, verify_sig_data net opts meta (respBody resp))))"

definition loadAndVerifySigFile ::
  "('s, 'h) upd_net \<Rightarrow> VerificationOptions \<Rightarrow> string \<Rightarrow> 'v ResourceRegistry \<Rightarrow> 'h option res \<times> bytes" where
  "loadAndVerifySigFile net opts sigFilePath reg =
     (case files reg sigFilePath of
        None \<Rightarrow> (Inl (ErrNew ''failed to read signature file''), [])
      | Some sigFileData \<Rightarrow> verify_sig_data net opts [] sigFileData)"

subsection \<open>Files\<close>

definition write_file :: "('s, 'h) upd_net \<Rightarrow> string \<Rightarrow> bytes \<Rightarrow> 'v ResourceRegistry \<Rightarrow> 'v ResourceRegistry \<times> goerr option" where
  "write_file net path data reg =
     (case file_write_err net path of
        Some err \<Rightarrow> (reg, Some err)
      | None \<Rightarrow> (reg\<lparr>files := (files reg)(path \<mapsto> data)\<rparr>, None))"

text \<open>The part of \<open>fetchFile\<close> after the signature: \<open>verifiedHash\<close> is None if there is no verification or
  it failed and the policy permits that.\<close>

definition store_download ::
  "'v upd_lib \<Rightarrow> ('s, 'h) upd_net \<Rightarrow> 'v Resource \<Rightarrow> vref \<Rightarrow> nat \<Rightarrow> 'h option \<Rightarrow> bytes \<Rightarrow> 'v ResourceRegistry \<Rightarrow>
   'v ResourceRegistry \<times> goerr option" where
  "store_download lib net res r tries verifiedHash sigFileData reg =
     (let path = storagePath reg res r;
          require = (case resVerification res of Some opts \<Rightarrow> DownloadPolicy opts = SignaturePolicyRequire | None \<Rightarrow> False) in
      case temp_err net path of
        Some err \<Rightarrow> (reg, Some (ErrWrap ''could not create temp file for download'' err))
      | None \<Rightarrow>
          (case makeRequest net (versionedPath res r) tries reg of
             (reg1, Inl err) \<Rightarrow> (reg1, Some err)
           | (reg1, Inr resp) \<Rightarrow>
               (case read_body resp of
                  Inl err \<Rightarrow> (reg1, Some err)
                | Inr data \<Rightarrow>
                    (let verified = (case verifiedHash of Some h \<Rightarrow> hash_Matches net h data | None \<Rightarrow> False) in
                     if verifiedHash \<noteq> None \<and> \<not> verified \<and> require
                     then (reg1, Some (ErrNew ''file does not match signed checksum''))
                     else
                       (let (reg2, sigErr) = (if sigFileData \<noteq> [] \<and> verified
                                              then write_file net (path @ sigExtension lib) sigFileData reg1 else (reg1, None)) in
                        if sigErr \<noteq> None \<and> require
                        then (reg2, Some (ErrWrap (''failed to write signature file '' @ path @ sigExtension lib) (the sigErr)))
                        else case write_file net path data reg2 of
                               (reg3, Some err) \<Rightarrow> (reg3, Some (ErrWrap (regName reg @ '': failed to finalize file '' @ path) err))
                             | (reg3, None) \<Rightarrow> (reg3, None))))))"

definition fetchFile ::
  "'v upd_lib \<Rightarrow> ('s, 'h) upd_net \<Rightarrow> 'v Resource \<Rightarrow> vref \<Rightarrow> nat \<Rightarrow> 'v ResourceRegistry \<Rightarrow> 'v ResourceRegistry \<times> goerr option" where
  "fetchFile lib net res r tries reg =
     (if tries > 0 \<and> ctx_Done net (requestNo reg) then (reg, None)
      else if ensure_fails net (path_Dir (storagePath reg res r))
      then (reg, Some (ErrNew (''could not create updates folder: '' @ path_Dir (storagePath reg res r))))
      else case resVerification res of
             None \<Rightarrow> store_download lib net res r tries None [] reg
           | Some opts \<Rightarrow>
               (case fetchAndVerifySigFile net opts (versionedSigPath lib res r) (SigningMetadata res r) tries reg of
                  (reg1, (Inr h, sigFileData)) \<Rightarrow> store_download lib net res r tries h sigFileData reg1
                | (reg1, (Inl err, sigFileData)) \<Rightarrow>
                    if panics err \<or> DownloadPolicy opts = SignaturePolicyRequire
                    then (reg1, Some (wrap_err ''signature verification failed'' err))
                    else store_download lib net res r tries None sigFileData reg1))"

text \<open>\<open>fetchMissingSig\<close>; only called for resources with verification options.\<close>

definition fetchMissingSig ::
  "'v upd_lib \<Rightarrow> ('s, 'h) upd_net \<Rightarrow> VerificationOptions \<Rightarrow> 'v Resource \<Rightarrow> vref \<Rightarrow> nat \<Rightarrow> 'v ResourceRegistry \<Rightarrow>
   'v ResourceRegistry \<times> goerr option" where
  "fetchMissingSig lib net opts res r tries reg =
     (let require = (DownloadPolicy opts = SignaturePolicyRequire); path = storagePath reg res r;
          failed = (\<lambda>reg' err. (reg', if require then Some err else None)) in
      if tries > 0 \<and> ctx_Done net (requestNo reg) then (reg, None)
      else if ensure_fails net (path_Dir path)
      then (reg, Some (ErrNew (''could not create updates folder: '' @ path_Dir path)))
      else case fetchAndVerifySigFile net opts (versionedSigPath lib res r) (SigningMetadata res r) tries reg of
             (reg1, (Inl err, _)) \<Rightarrow>
               if panics err then (reg1, Some err) else failed reg1 (ErrWrap ''signature verification failed'' err)
           | (reg1, (Inr None, _)) \<Rightarrow> (reg1, Some nil_panic)
           | (reg1, (Inr (Some h), sigFileData)) \<Rightarrow>
               (case files reg1 path of
                  None \<Rightarrow> failed reg1 (ErrWrap ''error while verifying resource file'' (ErrNew ''file does not exist''))
                | Some data \<Rightarrow>
                    if \<not> hash_Matches net h data then failed reg1 (ErrNew ''resource file does not match signed checksum'')
                    else case write_file net (storageSigPath lib reg res r) sigFileData reg1 of
                           (reg2, None) \<Rightarrow> (reg2, None)
                         | (reg2, Some err) \<Rightarrow>
                             failed reg2 (ErrWrap (''failed to write signature file '' @ storageSigPath lib reg res r) err)))"

subsection \<open>Indexes\<close>

text \<open>The variables of the download loop: \<open>indexErr\<close>, \<open>indexData\<close>, \<open>sigErr\<close> and \<open>sigFileData\<close>.\<close>

record index_download =
  dIndexErr :: "goerr option"
  dIndexData :: bytes
  dSigErr :: "goerr option"
  dSigFileData :: bytes

fun download_tries ::
  "('s, 'h) upd_net \<Rightarrow> VerificationOptions option \<Rightarrow> string \<Rightarrow> string \<Rightarrow> nat list \<Rightarrow> index_download \<Rightarrow> 'v ResourceRegistry \<Rightarrow>
   'v ResourceRegistry \<times> index_download" where
  "download_tries net verifOpts path sigPath [] d reg = (reg, d)"
| "download_tries net verifOpts path sigPath (tries # ts) d reg =
     (case fetchData net path tries reg of
        (reg1, Inl err) \<Rightarrow>
          (let d1 = d\<lparr>dIndexErr := Some err, dIndexData := []\<rparr> in
           if panics err then (reg1, d1) else download_tries net verifOpts path sigPath ts d1 reg1)
      | (reg1, Inr data) \<Rightarrow>
          (let d1 = d\<lparr>dIndexErr := None, dIndexData := data\<rparr> in
           case verifOpts of
             None \<Rightarrow> (reg1, d1)
           | Some opts \<Rightarrow>
               (case fetchAndVerifySigFile net opts sigPath [] tries reg1 of
                  (reg2, (Inl err, sigFileData)) \<Rightarrow>
                    (let d2 = d1\<lparr>dSigErr := Some err, dSigFileData := sigFileData\<rparr> in
                     if panics err then (reg2, d2) else download_tries net verifOpts path sigPath ts d2 reg2)
                | (reg2, (Inr h, sigFileData)) \<Rightarrow>
                    if (case h of Some h' \<Rightarrow> hash_Matches net h' data | None \<Rightarrow> False)
                    then (reg2, d1\<lparr>dSigErr := None, dSigFileData := sigFileData\<rparr>)
                    else download_tries net verifOpts path sigPath ts
                           (d1\<lparr>dSigErr := Some ErrIndexChecksumMismatch, dSigFileData := sigFileData\<rparr>) reg2)))"

definition authoritativePath :: "Index \<Rightarrow> string" where
  "authoritativePath idx = (let p = path_Dir (iPath idx) @ ''/'' in if p = ''./'' then [] else p)"

text \<open>The index is upgraded to its second version if it is verified.\<close>

definition downloadIndexPath :: "VerificationOptions option \<Rightarrow> Index \<Rightarrow> string" where
  "downloadIndexPath verifOpts idx =
     (if verifOpts = None then iPath idx else TrimSuffix (iPath idx) ''.json'' @ ''.v2.json'')"

definition downloadIndex ::
  "'v upd_lib \<Rightarrow> ('s, 'h) upd_net \<Rightarrow> index_json \<Rightarrow> time \<Rightarrow> iref \<Rightarrow> 'v ResourceRegistry \<Rightarrow> 'v ResourceRegistry \<times> goerr option" where
  "downloadIndex lib net js now_time i reg =
     (let idx = indexStore reg i; verifOpts = GetVerificationOptions (iPath idx) reg;
          path = downloadIndexPath verifOpts idx;
          (reg1, d) = download_tries net verifOpts path (path @ sigExtension lib) [0, 1, 2]
                        \<lparr>dIndexErr = None, dIndexData = [], dSigErr = None, dSigFileData = []\<rparr> reg in
      case (dIndexErr d, dSigErr d) of
        (Some err, _) \<Rightarrow> (reg1, Some (wrap_err (''failed to fetch index '' @ path) err))
      | (None, Some err) \<Rightarrow> (reg1, Some (wrap_err (''failed to fetch or verify index '' @ path @ '' signature'') err))
      | (None, None) \<Rightarrow>
          (case ParseIndexFile js now_time (dIndexData d) (Channel idx) (LastRelease idx) of
             Inl err \<Rightarrow> (reg1, Some (ErrWrap (''failed to parse index '' @ iPath idx) err))
           | Inr indexFile \<Rightarrow>
               (let cleanedData = filter (\<lambda>(key, version). HasPrefix key (authoritativePath idx)) (Releases indexFile);
                    reg2 = (if Releases indexFile \<noteq> []
                            then fst (AddResources lib cleanedData (Some i) False True (iPreRelease idx) reg1) else reg1);
                    file = path_Join (storageDir reg) (iPath idx);
                    reg3 = fst (write_file net file (dIndexData d) reg2);
                    reg4 = (if dSigFileData d \<noteq> []
                            then fst (write_file net (file @ sigExtension lib) (dSigFileData d) reg3) else reg3) in
                (reg4, None))))"

text \<open>\<open>loadIndexFile\<close> reads an index from disk.\<close>

definition loadIndexFile ::
  "'v upd_lib \<Rightarrow> ('s, 'h) upd_net \<Rightarrow> index_json \<Rightarrow> time \<Rightarrow> iref \<Rightarrow> 'v ResourceRegistry \<Rightarrow> 'v ResourceRegistry \<times> goerr option" where
  "loadIndexFile lib net js now_time i reg =
     (let idx = indexStore reg i; indexPath = path_Join (storageDir reg) (iPath idx) in
      case files reg indexPath of
        None \<Rightarrow> (reg, Some (ErrWrap (''failed to read index file '' @ iPath idx) (ErrNew ''file does not exist'')))
      | Some indexData \<Rightarrow>
          (let problem = (case GetVerificationOptions (iPath idx) reg of
                            None \<Rightarrow> None
                          | Some opts \<Rightarrow>
                              (if DiskLoadPolicy opts \<noteq> SignaturePolicyRequire then None
                               else case fst (loadAndVerifySigFile net opts (indexPath @ sigExtension lib) reg) of
                                      Inl err \<Rightarrow> Some (ErrWrap (''failed to verify signature of index '' @ iPath idx) err)
                                    | Inr h \<Rightarrow>
                                        if (case h of Some h' \<Rightarrow> hash_Matches net h' indexData | None \<Rightarrow> False) then None
                                        else Some (ErrNew (''index file '' @ iPath idx @ '' does not match signature'')))) in
           case problem of
             Some err \<Rightarrow> (reg, Some err)
           | None \<Rightarrow>
               (case ParseIndexFile js now_time indexData (Channel idx) (LastRelease idx) of
                  Inl err \<Rightarrow> (reg, Some (ErrWrap (''failed to parse index file '' @ iPath idx) err))
                | Inr indexFile \<Rightarrow>
                    (let reg1 = reg\<lparr>indexStore := (indexStore reg)(i := idx\<lparr>LastRelease := Published indexFile\<rparr>)\<rparr> in
                     if Releases indexFile = [] then (reg1, None)
                     else (fst (AddResources lib (Releases indexFile) (Some i) False True (iPreRelease idx) reg1), None)))))"

text \<open>A missing file is the only read error of the model; a file that may not be read is
  treated in the same way.\<close>

definition load_one ::
  "'v upd_lib \<Rightarrow> ('s, 'h) upd_net \<Rightarrow> index_json \<Rightarrow> time \<Rightarrow> iref \<Rightarrow> 'v ResourceRegistry \<times> goerr option \<Rightarrow>
   'v ResourceRegistry \<times> goerr option" where
  "load_one lib net js now_time i st =
     (case st of (reg, firstErr) \<Rightarrow>
       if pred_option panics firstErr then st
       else
       (let (reg1, err) = loadIndexFile lib net js now_time i reg;
            (reg2, err2) = (case err of
                              Some e \<Rightarrow> if regOnline reg1 \<and> errors_is e (ErrNew ''file does not exist'')
                                        then downloadIndex lib net js now_time i reg1 else (reg1, err)
                            | None \<Rightarrow> (reg1, None)) in
        (reg2, if firstErr = None \<or> pred_option panics err2 then err2 else firstErr)))"

definition LoadIndexes ::
  "'v upd_lib \<Rightarrow> ('s, 'h) upd_net \<Rightarrow> index_json \<Rightarrow> time \<Rightarrow> 'v ResourceRegistry \<Rightarrow> 'v ResourceRegistry \<times> goerr option" where
  "LoadIndexes lib net js now_time reg = fold (load_one lib net js now_time) (indexes reg) (reg, None)"

definition update_one ::
  "'v upd_lib \<Rightarrow> ('s, 'h) upd_net \<Rightarrow> index_json \<Rightarrow> time \<Rightarrow> iref \<Rightarrow> 'v ResourceRegistry \<times> goerr option \<times> bool \<Rightarrow>
   'v ResourceRegistry \<times> goerr option \<times> bool" where
  "update_one lib net js now_time i st =
     (case st of (reg, lastErr, anySuccess) \<Rightarrow>
       if pred_option panics lastErr then st
       else (case downloadIndex lib net js now_time i reg of
          (reg1, Some err) \<Rightarrow> (reg1, Some err, anySuccess)
        | (reg1, None) \<Rightarrow> (reg1, lastErr, True)))"

definition UpdateIndexes ::
  "'v upd_lib \<Rightarrow> ('s, 'h) upd_net \<Rightarrow> index_json \<Rightarrow> time \<Rightarrow> string list \<Rightarrow> 'v ResourceRegistry \<Rightarrow>
   'v ResourceRegistry \<times> goerr option" where
  "UpdateIndexes lib net js now_time order reg =
     (let (reg1, lastErr, anySuccess) =
            fold (update_one lib net js now_time) (indexes reg) (StartOperation StateChecking reg, None, False) in
      if pred_option panics lastErr then (EndOperation reg1, lastErr)
      else if \<not> anySuccess
      then (let err = ErrWrap ''failed to update all indexes, last error was'' (case lastErr of Some e \<Rightarrow> e | None \<Rightarrow> ErrNew ''%!w(<nil>)'') in
            (EndOperation (ReportUpdateCheck now_time [] (Some err) reg1), Some err))
      else
        (let pending = fst (GetPendingDownloads True False order reg1) in
         (EndOperation (ReportUpdateCheck now_time (humanInfoFromResourceVersions reg1 pending) None reg1), None)))"

subsection \<open>Downloading updates and getting files\<close>

text \<open>Up to \<open>n\<close> tries of one fetch, and the flags that are set after a success.\<close>

fun fetch_tries ::
  "(nat \<Rightarrow> 'v ResourceRegistry \<Rightarrow> 'v ResourceRegistry \<times> goerr option) \<Rightarrow> nat list \<Rightarrow> goerr option \<Rightarrow> 'v ResourceRegistry \<Rightarrow>
   'v ResourceRegistry \<times> goerr option" where
  "fetch_tries fetch [] err reg = (reg, err)"
| "fetch_tries fetch (tries # ts) err reg =
     (case fetch tries reg of
        (reg1, None) \<Rightarrow> (reg1, None)
      | (reg1, Some e) \<Rightarrow> if panics e then (reg1, Some e) else fetch_tries fetch ts (Some e) reg1)"

definition set_version :: "string \<Rightarrow> vref \<Rightarrow> ('v ResourceVersion \<Rightarrow> 'v ResourceVersion) \<Rightarrow> 'v ResourceRegistry \<Rightarrow> 'v ResourceRegistry" where
  "set_version identifier r f reg =
     reg\<lparr>resources := (resources reg)(identifier := map_option (upd_version r f) (resources reg identifier))\<rparr>"

text \<open>An error of one download is logged only; a panic is returned.\<close>

definition download_one ::
  "'v upd_lib \<Rightarrow> ('s, 'h) upd_net \<Rightarrow> string \<times> vref \<Rightarrow> 'v ResourceRegistry \<Rightarrow> 'v ResourceRegistry \<times> goerr option" where
  "download_one lib net rv reg =
     (case rv of (identifier, r) \<Rightarrow>
       (let res = the (resources reg identifier) in
        case fetch_tries (fetchFile lib net res r) [0, 1, 2] None reg of
          (reg1, None) \<Rightarrow>
            (set_version identifier r (\<lambda>v. v\<lparr>Available := True, SigAvailable := SigAvailable v \<or> resVerification res \<noteq> None\<rparr>) reg1, None)
        | (reg1, Some err) \<Rightarrow> (reg1, if panics err then Some err else None)))"

definition sig_one ::
  "'v upd_lib \<Rightarrow> ('s, 'h) upd_net \<Rightarrow> string \<times> vref \<Rightarrow> 'v ResourceRegistry \<Rightarrow> 'v ResourceRegistry \<times> goerr option" where
  "sig_one lib net rv reg =
     (case rv of (identifier, r) \<Rightarrow>
       (let res = the (resources reg identifier) in
        case fetch_tries (fetchMissingSig lib net (the (resVerification res)) res r) [0, 1, 2] None reg of
          (reg1, None) \<Rightarrow> (set_version identifier r (\<lambda>v. v\<lparr>SigAvailable := True\<rparr>) reg1, None)
        | (reg1, Some err) \<Rightarrow> (reg1, if panics err then Some err else None)))"

text \<open>A loop over versions, with the number of those done; it ends with the first panic.\<close>

fun each_version ::
  "('k \<Rightarrow> 'v ResourceRegistry \<Rightarrow> 'v ResourceRegistry \<times> goerr option) \<Rightarrow> (nat \<Rightarrow> 'v ResourceRegistry \<Rightarrow> 'v ResourceRegistry) \<Rightarrow>
   'k list \<Rightarrow> nat \<Rightarrow> 'v ResourceRegistry \<Rightarrow> 'v ResourceRegistry \<times> goerr option" where
  "each_version f report [] i reg = (reg, None)"
| "each_version f report (rv # rvs) i reg =
     (case f rv reg of
        (reg1, Some panic) \<Rightarrow> (reg1, Some panic)
      | (reg1, None) \<Rightarrow> each_version f report rvs (Suc i) (report (Suc i) reg1))"

text \<open>The variable \<open>reportError\<close> that is reported is never assigned: the loops declare their own.\<close>

definition DownloadUpdates ::
  "'v upd_lib \<Rightarrow> ('s, 'h) upd_net \<Rightarrow> time \<Rightarrow> string list \<Rightarrow> bool \<Rightarrow> 'v ResourceRegistry \<Rightarrow> 'v ResourceRegistry \<times> goerr option" where
  "DownloadUpdates lib net now_time order includeManual reg =
     (let reg1 = StartOperation StateDownloading reg;
          (toUpdate, missingSigs) = GetPendingDownloads includeManual True order reg1;
          info = humanInfoFromResourceVersions reg1 toUpdate;
          reg2 = UpdateOperationDetails (Some (info, 0)) reg1 in
      if toUpdate = [] \<and> missingSigs = [] then (EndOperation reg2, None)
      else if ensure_fails net (tmpDir reg2)
      then (EndOperation reg2, Some (ErrNew ''could not prepare tmp directory for download''))
      else
        (case each_version (download_one lib net) (\<lambda>i. UpdateOperationDetails (Some (info, i))) toUpdate 0 reg2 of
           (reg3, Some panic) \<Rightarrow> (EndOperation reg3, Some panic)
         | (reg3, None) \<Rightarrow>
             (case each_version (sig_one lib net) (\<lambda>_ r. r) missingSigs 0 reg3 of
                (reg4, Some panic) \<Rightarrow> (EndOperation reg4, Some panic)
              | (reg4, None) \<Rightarrow> (EndOperation (ReportDownloads now_time info None reg4), None))))"

definition File_Verify :: "('s, 'h) upd_net \<Rightarrow> 'v upd_lib \<Rightarrow> 'v ResourceRegistry \<Rightarrow> 'v Resource \<Rightarrow> File \<Rightarrow> goerr option" where
  "File_Verify net lib reg res file =
     (case resVerification res of
        None \<Rightarrow> Some ErrVerificationNotConfigured
      | Some opts \<Rightarrow>
          (case VerifyFile net (files reg (fStoragePath file)) (files reg (fStoragePath file @ sigExtension lib))
                  (SigningMetadata res (fVersion file)) (TrustStore opts) of
             None \<Rightarrow> None
           | Some err \<Rightarrow> if DiskLoadPolicy opts = SignaturePolicyRequire then Some err else None))"

text \<open>\<open>GetFile\<close> downloads without a context that could be cancelled.\<close>

definition Registry_GetFile ::
  "'v upd_lib \<Rightarrow> ('s, 'h) upd_net \<Rightarrow> string \<Rightarrow> 'v ResourceRegistry \<Rightarrow> 'v ResourceRegistry \<times> File res" where
  "Registry_GetFile lib net identifier reg =
     (case resources reg identifier of
        None \<Rightarrow> (reg, Inl ErrNotFound_upd)
      | Some res \<Rightarrow>
          (case Resource_GetFile lib reg res of
             ((reg1, res1), Inl panic) \<Rightarrow> (upd_resource identifier res1 reg1, Inl panic)
           | ((reg1, res1), Inr file) \<Rightarrow>
               (let reg2 = upd_resource identifier res1 reg1;
                    active = (\<lambda>r. r\<lparr>resources := (resources r)(identifier := map_option (markActive file) (resources r identifier))\<rparr>) in
                if Available (verStore res1 (fVersion file))
                then
                  (let reg3 = active reg2 in
                   case File_Verify net lib reg3 res1 file of
                     Some err \<Rightarrow> if errors_is err ErrVerificationNotConfigured then (reg3, Inr file)
                                 else (reg3, Inl (ErrWrap ''failed to verify file'' err))
                   | None \<Rightarrow> (reg3, Inr file))
                else if \<not> regOnline reg2 then (reg2, Inl ErrNotAvailableLocally)
                else if ensure_fails net (tmpDir reg2)
                then (reg2, Inl (ErrNew ''could not prepare tmp directory for download''))
                else
                  (case fetch_tries (fetchFile lib (net\<lparr>ctx_Done := (\<lambda>_. False)\<rparr>) res1 (fVersion file)) [0, 1, 2, 3, 4] None (StartOperation StateFetching reg2) of
                     (reg3, None) \<Rightarrow> (EndOperation (active reg3), Inr file)
                   | (reg3, Some err) \<Rightarrow> (EndOperation reg3, Inl err)))))"

subsection \<open>Scanning the storage\<close>

text \<open>\<open>filepath.Walk\<close> on a directory tree: the function is called on a directory before its entries; \<open>SkipDir\<close>,
  here the flag, skips the directory, or the remaining entries of the directory of a file.\<close>

datatype fs_entry = FsFile string | FsDir string "fs_entry list"

fun fs_name :: "fs_entry \<Rightarrow> string" where
  "fs_name (FsFile n) = n"
| "fs_name (FsDir n es) = n"

fun walk :: "(string \<Rightarrow> bool \<Rightarrow> 's \<Rightarrow> 's \<times> bool) \<Rightarrow> string \<Rightarrow> fs_entry \<Rightarrow> 's \<Rightarrow> 's \<times> bool"
and walk_entries :: "(string \<Rightarrow> bool \<Rightarrow> 's \<Rightarrow> 's \<times> bool) \<Rightarrow> string \<Rightarrow> fs_entry list \<Rightarrow> 's \<Rightarrow> 's \<times> bool" where
  "walk fn path (FsFile n) s = fn path False s"
| "walk fn path (FsDir n es) s =
     (case fn path True s of (s1, True) \<Rightarrow> (s1, True) | (s1, False) \<Rightarrow> walk_entries fn path es s1)"
| "walk_entries fn path [] s = (s, False)"
| "walk_entries fn path (e # es) s =
     (case walk fn (path @ ''/'' @ fs_name e) e s of
        (s1, skipped) \<Rightarrow>
          if skipped \<and> (case e of FsFile _ \<Rightarrow> True | FsDir _ _ \<Rightarrow> False) then (s1, True)
          else walk_entries fn path es s1)"

definition scan_file ::
  "'v upd_lib \<Rightarrow> string \<Rightarrow> bool \<Rightarrow> 'v ResourceRegistry \<times> goerr option \<Rightarrow> ('v ResourceRegistry \<times> goerr option) \<times> bool" where
  "scan_file lib path is_dir st =
     (case st of (reg, lastError) \<Rightarrow>
        if HasPrefix path (tmpDir reg) then (st, True)
        else if HasSuffix path (sigExtension lib) then (st, False)
        else case GetIdentifierAndVersion (TrimPrefix path (storageDir reg @ ''/'')) of
               None \<Rightarrow> (st, False)
             | Some (identifier, version) \<Rightarrow>
                 if is_dir then (st, True)
                 else case AddResource lib identifier version None True False False reg of
                        (reg1, None) \<Rightarrow> ((reg1, lastError), False)
                      | (reg1, Some err) \<Rightarrow>
                          ((reg1, Some (ErrWrap (regName reg @ '': could not get add resource '' @ identifier @ '' v'' @ version) err)), False))"

text \<open>\<open>ScanStorage\<close> with the tree at its root; \<open>abs_root\<close> is the absolute path of a given root.\<close>

definition ScanStorage ::
  "'v upd_lib \<Rightarrow> string res option \<Rightarrow> fs_entry \<Rightarrow> 'v ResourceRegistry \<Rightarrow> 'v ResourceRegistry \<times> goerr option" where
  "ScanStorage lib abs_root tree reg =
     (case abs_root of
        None \<Rightarrow> fst (walk (scan_file lib) (storageDir reg) tree (reg, None))
      | Some (Inl err) \<Rightarrow> (reg, Some err)
      | Some (Inr root) \<Rightarrow>
          if \<not> HasPrefix root (storageDir reg) then (reg, Some (ErrNew ''supplied scan root path not within storage''))
          else fst (walk (scan_file lib) root tree (reg, None)))"

end
