(* ===== verification/Updater_Guarantees.thy ===== *)
theory Updater_Guarantees
  imports Updater_Fetch "HOL-Library.Multiset"
begin

section \<open>Updater: guarantees\<close>

text \<open>
  Which version is selected, that only verified data is installed, and what purging does. Every
  operation of the registry keeps its resources well formed; this is proved once
  for the reachable registries.
\<close>

subsection \<open>Well-formed resources\<close>

definition current_unique :: "'v Resource \<Rightarrow> bool" where
  "current_unique res \<longleftrightarrow> (\<forall>a \<in> set (Versions res). \<forall>b \<in> set (Versions res).
     CurrentRelease (verStore res a) \<and> CurrentRelease (verStore res b) \<longrightarrow> a = b)"

definition resource_ok :: "'v Resource \<Rightarrow> bool" where
  "resource_ok res \<longleftrightarrow> distinct (Versions res) \<and> (\<forall>r \<in> set (Versions res). r < nextVer res) \<and> current_unique res"

definition registry_ok :: "'v ResourceRegistry \<Rightarrow> bool" where
  "registry_ok reg \<longleftrightarrow> (\<forall>identifier res. resources reg identifier = Some res \<longrightarrow> resource_ok res)"

lemma upd_version_simps [simp]:
  "Versions (upd_version r f res) = Versions res" "nextVer (upd_version r f res) = nextVer res"
  "verStore (upd_version r f res) = (verStore res)(r := f (verStore res r))"
  "Identifier (upd_version r f res) = Identifier res" "resVerification (upd_version r f res) = resVerification res"
  "ActiveVersion (upd_version r f res) = ActiveVersion res" "SelectedVersion (upd_version r f res) = SelectedVersion res"
  "resIndex (upd_version r f res) = resIndex res" "resNotifier (upd_version r f res) = resNotifier res"
  by (simp_all add: upd_version_def)

lemma reset_current_simps [simp]:
  "Versions (reset_current rs res) = Versions res" "nextVer (reset_current rs res) = nextVer res"
  "VersionNumber (verStore (reset_current rs res) r) = VersionNumber (verStore res r)"
  "CurrentRelease (verStore (reset_current rs res) r) \<longleftrightarrow> r \<notin> set rs \<and> CurrentRelease (verStore res r)"
  unfolding reset_current_def by (induction rs arbitrary: res) (auto simp: fold_simps)

lemma version_flags_simps [simp]:
  "Versions (version_flags lib reg a c p r res) = Versions res" "nextVer (version_flags lib reg a c p r res) = nextVer res"
  "CurrentRelease (verStore (version_flags lib reg a c p r res) q) \<longleftrightarrow> CurrentRelease (verStore res q) \<or> (c \<and> q = r)"
  by (auto simp: version_flags_def Let_def)

lemma find_Some_in: "find P xs = Some x \<Longrightarrow> x \<in> set xs \<and> P x"
  by (induction xs) (auto split: if_splits)

lemma AddVersion_ok:
  assumes "resource_ok res" "AddVersion lib reg v a c p res = (res', err)"
  shows "resource_ok res'"
proof -
  define res1 where "res1 = (if c then reset_current (Versions res) res else res)"
  have r1: "resource_ok res1" "Versions res1 = Versions res" "nextVer res1 = nextVer res"
    "c \<Longrightarrow> r \<in> set (Versions res1) \<Longrightarrow> \<not> CurrentRelease (verStore res1 r)" for r
    using assms(1) by (auto simp: res1_def resource_ok_def current_unique_def)
  note add = assms(2)[unfolded AddVersion_def res1_def[symmetric] Let_def]
  show ?thesis
  proof (cases "find (\<lambda>r. VersionNumber (verStore res1 r) = v) (Versions res1)")
    case (Some r)
    then show ?thesis using add r1 find_Some_in[OF Some] by (auto simp: resource_ok_def current_unique_def)
  next
    case None
    have "nextVer res1 \<notin> set (Versions res1)" using r1(1) by (auto simp: resource_ok_def)
    then show ?thesis using None add r1
      by (auto simp: resource_ok_def current_unique_def less_Suc_eq split: sum.splits if_splits)
  qed
qed

lemma resource_ok_frame [simp]:
  "resource_ok (res\<lparr>resIndex := i\<rparr>) = resource_ok res" "resource_ok (res\<lparr>SelectedVersion := s\<rparr>) = resource_ok res"
  "resource_ok (res\<lparr>ActiveVersion := s\<rparr>) = resource_ok res" "resource_ok (res\<lparr>resNotifier := n\<rparr>) = resource_ok res"
  by (simp_all add: resource_ok_def current_unique_def)

lemma resource_ok_upd:
  "resource_ok res \<Longrightarrow> (\<And>rv. CurrentRelease (f rv) = CurrentRelease rv) \<Longrightarrow> resource_ok (upd_version r f res)"
  by (auto simp: resource_ok_def current_unique_def)

lemma resource_ok_new [simp]: "resource_ok (newResource rv reg identifier)"
  by (simp add: resource_ok_def current_unique_def newResource_def)

lemma resource_ok_subset:
  "resource_ok res \<Longrightarrow> set vs \<subseteq> set (Versions res) \<Longrightarrow> distinct vs \<Longrightarrow> resource_ok (res\<lparr>Versions := vs\<rparr>)"
  by (auto simp: resource_ok_def current_unique_def)

text \<open>What \<open>sort.Sort\<close> promises for the comparison of the versions of a resource.\<close>

definition sorts :: "'v upd_lib \<Rightarrow> 'v Resource \<Rightarrow> bool" where
  "sorts lib res \<longleftrightarrow> (let vs = sort_Sort lib (version_less lib res) (Versions res) in
     mset vs = mset (Versions res) \<and> sorted_wrt (\<lambda>a b. \<not> version_less lib res b a) vs)"

definition good_sort :: "'v upd_lib \<Rightarrow> bool" where
  "good_sort lib \<longleftrightarrow> (\<forall>res. sorts lib res)"

lemma mset_distinct: "mset xs = mset ys \<Longrightarrow> distinct xs = distinct ys"
  by (metis mset_eq_imp_distinct_iff)

lemma selectVersion_frame:
  assumes "selectVersion lib reg res = (reg', res')"
  shows "resources reg' = resources reg" "files reg' = files reg" "verStore res' = verStore res" "nextVer res' = nextVer res"
    "Versions res' = sort_Sort lib (version_less lib res) (Versions res)" "ActiveVersion res' = ActiveVersion res"
    "SelectedVersion res' = select_target lib reg (res\<lparr>Versions := sort_Sort lib (version_less lib res) (Versions res)\<rparr>)"
  using assms by (auto simp: selectVersion_def markAsUpgradeable_def Let_def split: option.splits if_splits)

lemma selectVersion_ok:
  assumes "resource_ok res" "good_sort lib" "selectVersion lib reg res = (reg', res')"
  shows "resource_ok res'"
proof -
  let ?vs = "sort_Sort lib (version_less lib res) (Versions res)"
  have "mset ?vs = mset (Versions res)" using assms(2) by (simp add: good_sort_def sorts_def Let_def)
  then have "set ?vs = set (Versions res)" "distinct ?vs = distinct (Versions res)"
    by (metis mset_eq_setD, metis mset_distinct)
  then show ?thesis
    using assms(1) selectVersion_frame[OF assms(3)] by (simp add: resource_ok_def current_unique_def)
qed

lemma Resource_Purge_ok:
  assumes "resource_ok res" "Resource_Purge lib keep reg res = (reg', res')"
  shows "resource_ok res'" "resources reg' = resources reg"
proof -
  have "resource_ok (res\<lparr>Versions := drop n (Versions res)\<rparr>)" for n
    using assms(1) by (intro resource_ok_subset) (auto simp: resource_ok_def dest: in_set_dropD)
  then show "resource_ok res'" "resources reg' = resources reg"
    using assms by (auto simp: Resource_Purge_def Let_def split: if_splits)
qed

subsection \<open>Reachable registries\<close>

lemma registry_okD: "registry_ok reg \<Longrightarrow> resources reg identifier = Some res \<Longrightarrow> resource_ok res"
  by (simp add: registry_ok_def)

lemma registry_ok_upd:
  "registry_ok reg \<Longrightarrow> resource_ok res \<Longrightarrow> resources reg' = resources reg \<Longrightarrow> registry_ok (upd_resource identifier res reg')"
  by (simp add: registry_ok_def upd_resource_def)

lemma registry_ok_same: "resources reg' = resources reg \<Longrightarrow> registry_ok reg' = registry_ok reg"
  by (simp add: registry_ok_def)

lemma addResource_ok:
  assumes "registry_ok reg" "addResource lib i v ix a c p reg = (reg', err)"
  shows "registry_ok reg'"
proof -
  define res where "res = (case resources reg i of Some res \<Rightarrow> res
    | None \<Rightarrow> newResource \<lparr>VersionNumber = [], semVer = devVersion lib, Available = False, SigAvailable = False,
                CurrentRelease = False, PreRelease = False, Blacklisted = False\<rparr> reg i)"
  have res: "resource_ok res" "reg' = upd_resource i (fst (AddVersion lib reg v a c p (res\<lparr>resIndex := ix\<rparr>))) reg"
    using assms by (auto simp: res_def addResource_def Let_def case_prod_unfold registry_ok_def split: option.split)
  obtain res1 e where "AddVersion lib reg v a c p (res\<lparr>resIndex := ix\<rparr>) = (res1, e)" by fastforce
  then show ?thesis using res assms(1) AddVersion_ok[of "res\<lparr>resIndex := ix\<rparr>"] by (simp add: registry_ok_upd)
qed

lemma AddResources_ok:
  assumes "registry_ok reg"
  shows "registry_ok (fst (AddResources lib vs ix a c p reg))"
proof -
  have "registry_ok (fst st) \<Longrightarrow> registry_ok (fst (fold (\<lambda>(i, v) (r, e). addResource lib i v ix a c p r) vs st))" for st
  proof (induction vs arbitrary: st)
    case (Cons iv vs)
    have "registry_ok (fst (addResource lib (fst iv) (snd iv) ix a c p (fst st)))"
      using addResource_ok[OF Cons.prems] by (metis prod.collapse)
    then show ?case using Cons.IH by (simp add: case_prod_unfold)
  qed simp
  then show ?thesis using assms by (simp add: AddResources_def)
qed

lemma select_one_ok:
  assumes "good_sort lib" "registry_ok reg"
  shows "registry_ok (select_one lib i reg)"
proof (cases "resources reg i")
  case (Some res)
  obtain reg1 res1 where s: "selectVersion lib reg res = (reg1, res1)" by fastforce
  show ?thesis
    using Some s selectVersion_ok[OF registry_okD[OF assms(2) Some] assms(1) s] selectVersion_frame(1)[OF s] assms(2)
    by (simp add: select_one_def registry_ok_upd)
qed (use assms in \<open>simp add: select_one_def\<close>)

lemma SelectVersions_ok: "good_sort lib \<Longrightarrow> registry_ok reg \<Longrightarrow> registry_ok (SelectVersions lib order reg)"
  unfolding SelectVersions_def by (induction order arbitrary: reg) (auto intro: select_one_ok)

lemma purge_one_ok:
  assumes "registry_ok reg"
  shows "registry_ok (purge_one lib keep i reg)"
proof (cases "resources reg i")
  case (Some res)
  obtain reg1 res1 where s: "Resource_Purge lib keep reg res = (reg1, res1)" by fastforce
  show ?thesis
    using Some s Resource_Purge_ok[OF registry_okD[OF assms Some] s] assms by (simp add: purge_one_def registry_ok_upd)
qed (use assms in \<open>simp add: purge_one_def\<close>)

lemma Registry_Purge_ok: "registry_ok reg \<Longrightarrow> registry_ok (Registry_Purge lib keep order reg)"
  unfolding Registry_Purge_def by (induction order arbitrary: reg) (auto intro: purge_one_ok)

text \<open>Requests and writing files leave the resources alone.\<close>

lemma makeRequest_frame [simp]:
  "resources (fst (makeRequest net p t reg)) = resources reg" "files (fst (makeRequest net p t reg)) = files reg"
  "storageDir (fst (makeRequest net p t reg)) = storageDir reg" "indexStore (fst (makeRequest net p t reg)) = indexStore reg"
  by (simp_all add: makeRequest_def Let_def split: sum.split)

lemma fetchData_frame [simp]:
  "resources (fst (fetchData net p t reg)) = resources reg" "files (fst (fetchData net p t reg)) = files reg"
  "storageDir (fst (fetchData net p t reg)) = storageDir reg" "indexStore (fst (fetchData net p t reg)) = indexStore reg"
  using makeRequest_frame[of net p t reg]
  by (auto simp: fetchData_def split: prod.split sum.split simp del: makeRequest_frame)

lemma fetchAndVerify_frame [simp]:
  "resources (fst (fetchAndVerifySigFile net opts p m t reg)) = resources reg"
  "files (fst (fetchAndVerifySigFile net opts p m t reg)) = files reg"
  "storageDir (fst (fetchAndVerifySigFile net opts p m t reg)) = storageDir reg"
  "indexStore (fst (fetchAndVerifySigFile net opts p m t reg)) = indexStore reg"
  using makeRequest_frame[of net p t reg]
  by (auto simp: fetchAndVerifySigFile_def split: prod.split sum.split option.split simp del: makeRequest_frame)

lemma write_file_frame [simp]:
  "resources (fst (write_file net p d reg)) = resources reg" "storageDir (fst (write_file net p d reg)) = storageDir reg"
  "indexStore (fst (write_file net p d reg)) = indexStore reg"
  by (simp_all add: write_file_def split: option.split)

lemma state_frame [simp]:
  "resources (StartOperation n reg) = resources reg" "resources (EndOperation reg) = resources reg"
  "resources (UpdateOperationDetails d reg) = resources reg" "resources (ReportDownloads t ds e reg) = resources reg"
  "resources (ReportUpdateCheck t ds e reg) = resources reg" "indexStore (StartOperation n reg) = indexStore reg"
  by (simp_all add: StartOperation_def EndOperation_def UpdateOperationDetails_def ReportDownloads_def ReportUpdateCheck_def
      upd_state_def notify_state_def)

lemma store_download_frame [simp]: "resources (fst (store_download lib net res r t h sd reg)) = resources reg"
proof -
  have w: "resources reg2 = resources reg1" if "write_file net p d reg1 = (reg2, e)" for p d reg1 reg2 e
    using write_file_frame(1)[of net p d reg1] that by simp
  have m: "resources reg1 = resources reg" if "makeRequest net p t reg = (reg1, x)" for p reg1 x
    using makeRequest_frame(1)[of net p t reg] that by simp
  show ?thesis
    by (auto simp: store_download_def Let_def dest!: w m split: option.split prod.split sum.split if_splits)
qed

lemma fetchAndVerify_resources:
  "fetchAndVerifySigFile net opts p m t reg = (reg1, x) \<Longrightarrow> resources reg1 = resources reg"
  using fetchAndVerify_frame(1)[of net opts p m t reg] by simp

lemma fetchFile_frame [simp]: "resources (fst (fetchFile lib net res r t reg)) = resources reg"
proof (cases "resVerification res")
  case (Some opts)
  obtain reg1 h sd where f: "fetchAndVerifySigFile net opts (versionedSigPath lib res r) (SigningMetadata res r) t reg = (reg1, h, sd)"
    by (metis prod.collapse)
  show ?thesis using Some f fetchAndVerify_resources[OF f] by (cases t; cases h) (simp_all add: fetchFile_def)
qed (simp add: fetchFile_def)

lemma fetchMissingSig_frame [simp]: "resources (fst (fetchMissingSig lib net opts res r t reg)) = resources reg"
proof -
  obtain reg1 h sd where f: "fetchAndVerifySigFile net opts (versionedSigPath lib res r) (SigningMetadata res r) t reg = (reg1, h, sd)"
    by (metis prod.collapse)
  note frame = fetchAndVerify_resources[OF f]
  show ?thesis
  proof (cases "\<exists>v. h = Inr (Some v) \<and> files reg1 (storagePath reg res r) \<noteq> None")
    case True
    then obtain v data where v: "h = Inr (Some v)" "files reg1 (storagePath reg res r) = Some data" by auto
    obtain reg2 e where w: "write_file net (storageSigPath lib reg res r) sd reg1 = (reg2, e)" by fastforce
    then have "resources reg2 = resources reg" using write_file_frame(1)[of net "storageSigPath lib reg res r" sd reg1] frame by simp
    then show ?thesis using f v w frame by (cases t; cases e) (simp_all add: fetchMissingSig_def Let_def)
  next
    case False
    then show ?thesis using f frame
      by (cases t) (auto simp: fetchMissingSig_def Let_def split: sum.split option.split)
  qed
qed

lemma fetch_tries_frame:
  assumes "\<And>t reg. resources (fst (fetch t reg)) = resources reg" "fetch_tries fetch ts err reg = (reg', err')"
  shows "resources reg' = resources reg"
  using assms(2)
proof (induction ts arbitrary: err reg)
  case (Cons t ts)
  obtain reg1 e where f: "fetch t reg = (reg1, e)" by fastforce
  then have "resources reg1 = resources reg" using assms(1)[of t reg] by simp
  with Cons f show ?case by (auto split: option.splits if_splits)
qed simp

subsection \<open>Verification\<close>

text \<open>The signature file is accepted for a hash: it has signatures, each of them is verified with
  the trust store and the required metadata, and all are of this hash.\<close>

definition signed_by :: "('s, 'h) upd_net \<Rightarrow> VerificationOptions \<Rightarrow> (string \<times> string) list \<Rightarrow> bytes \<Rightarrow> 'h \<Rightarrow> bool" where
  "signed_by net opts meta sigData h \<longleftrightarrow>
     (\<exists>sigs. ParseSigFile net sigData = (sigs, None) \<and> sigs \<noteq> [] \<and>
        (\<forall>s \<in> set sigs. \<exists>h'. VerifyFileData net s meta (TrustStore opts) = Inr h' \<and> (h' = h \<or> hash_Equal net h' h)))"

lemma verify_sigs_Inr:
  "verify_sigs net meta trust sigs v = Inr w \<Longrightarrow>
   (v = None \<and> sigs = [] \<and> w = None) \<or>
   (\<exists>h. w = Some h \<and> (v = None \<or> v = Some h) \<and>
      (\<forall>s \<in> set sigs. \<exists>h'. VerifyFileData net s meta trust = Inr h' \<and> (h' = h \<or> hash_Equal net h' h)))"
proof (induction sigs arbitrary: v)
  case (Cons s sigs)
  obtain h0 where h0: "VerifyFileData net s meta trust = Inr h0" using Cons.prems by (auto split: sum.splits)
  show ?case
  proof (cases v)
    case None
    then show ?thesis using Cons.IH[of "Some h0"] Cons.prems h0 by auto
  next
    case (Some h')
    then have "hash_Equal net h0 h'" "verify_sigs net meta trust sigs v = Inr w"
      using Cons.prems h0 by (auto split: if_splits)
    then show ?thesis using Cons.IH[of v] Some h0 by auto
  qed
qed (cases w; auto)

lemma verify_sig_data_Inr:
  assumes "verify_sig_data net opts meta body = (Inr w, sd)"
  shows "sd = body \<and> (\<exists>h. w = Some h \<and> signed_by net opts meta body h)"
proof -
  obtain sigs e where p: "ParseSigFile net body = (sigs, e)" by fastforce
  have v: "sigs \<noteq> []" "e = None" "verify_sigs net meta (TrustStore opts) sigs None = Inr w" "sd = body"
    using assms p by (auto simp: verify_sig_data_def split: list.splits option.splits)
  show ?thesis using verify_sigs_Inr[OF v(3)] v p by (auto simp: signed_by_def)
qed

lemma fetchAndVerify_Inr:
  assumes "fetchAndVerifySigFile net opts p meta t reg = (reg1, Inr w, sd)"
  shows "\<exists>h. w = Some h \<and> signed_by net opts meta sd h"
  using assms verify_sig_data_Inr
  by (fastforce simp: fetchAndVerifySigFile_def split: prod.splits sum.splits option.splits)

lemma write_file_files:
  "write_file net p d reg = (reg', e) \<Longrightarrow> files reg' = (if e = None then (files reg)(p \<mapsto> d) else files reg)"
  by (auto simp: write_file_def split: option.splits)

lemma makeRequest_files: "makeRequest net p t reg = (reg1, x) \<Longrightarrow> files reg1 = files reg"
  using makeRequest_frame(2)[of net p t reg] by simp

text \<open>With the policy to require signatures, a file is written exactly if its contents match the hash.\<close>

lemma store_download_verified:
  assumes s: "store_download lib net res r t (Some h) sd reg = (reg', err)"
    and opts: "resVerification res = Some opts" "DownloadPolicy opts = SignaturePolicyRequire" "sigExtension lib \<noteq> []"
  shows "if err = None then \<exists>data. files reg' (storagePath reg res r) = Some data \<and> hash_Matches net h data
         else files reg' (storagePath reg res r) = files reg (storagePath reg res r)"
proof -
  let ?p = "storagePath reg res r"
  note def = s[unfolded store_download_def Let_def opts option.simps]
  show ?thesis
  proof (cases "temp_err net ?p")
    case None
    obtain reg1 x where m: "makeRequest net (versionedPath res r) t reg = (reg1, x)" by fastforce
    note f1 = makeRequest_files[OF m]
    show ?thesis
    proof (cases "\<exists>resp data. x = Inr resp \<and> read_body resp = Inr data \<and> hash_Matches net h data")
      case True
      then obtain resp data where d: "x = Inr resp" "read_body resp = Inr data" "hash_Matches net h data" by auto
      obtain reg2 e2 where w2: "(if sd \<noteq> [] then write_file net (?p @ sigExtension lib) sd reg1 else (reg1, None)) = (reg2, e2)"
        by (metis prod.collapse)
      then have f2: "files reg2 ?p = files reg ?p"
        using f1 opts(3) by (auto simp: write_file_files dest!: write_file_files split: if_splits)
      obtain reg3 e3 where w3: "write_file net ?p data reg2 = (reg3, e3)" by fastforce
      show ?thesis
      proof (cases "e2")
        case None
        then show ?thesis using def m d w2 w3 \<open>temp_err net ?p = None\<close> write_file_files[OF w3] f2
          by (cases e3) (auto split: if_splits)
      next
        case (Some e)
        then show ?thesis using def m d w2 \<open>temp_err net ?p = None\<close> f2 by (auto split: if_splits)
      qed
    next
      case False
      then show ?thesis using def m None f1 by (auto split: sum.splits if_splits)
    qed
  qed (use def in auto)
qed

lemma fetchFile_verified:
  assumes f: "fetchFile lib net res r t reg = (reg', err)" "\<not> (t > 0 \<and> ctx_Done net (requestNo reg))"
    and opts: "resVerification res = Some opts" "DownloadPolicy opts = SignaturePolicyRequire" "sigExtension lib \<noteq> []"
  shows "if err = None
         then \<exists>data sigData h. files reg' (storagePath reg res r) = Some data \<and>
                signed_by net opts (SigningMetadata res r) sigData h \<and> hash_Matches net h data
         else files reg' (storagePath reg res r) = files reg (storagePath reg res r)"
proof (cases "ensure_fails net (path_Dir (storagePath reg res r))")
  case False
  obtain reg1 w sd where v: "fetchAndVerifySigFile net opts (versionedSigPath lib res r) (SigningMetadata res r) t reg = (reg1, w, sd)"
    by (metis prod.collapse)
  have frame: "files reg1 = files reg" "storagePath reg1 res r = storagePath reg res r"
    using fetchAndVerify_frame[of net opts "versionedSigPath lib res r" "SigningMetadata res r" t reg] v
    by (simp_all add: storagePath_def)
  have f': "fetchFile lib net res r t reg = (case w of
      Inr h \<Rightarrow> store_download lib net res r t h sd reg1
    | Inl e \<Rightarrow> (reg1, Some (wrap_err ''signature verification failed'' e)))"
    using f(2) False v opts by (cases t) (auto simp: fetchFile_def split: sum.splits)
  show ?thesis
  proof (cases w)
    case (Inr h0)
    obtain h where h: "h0 = Some h" "signed_by net opts (SigningMetadata res r) sd h"
      using fetchAndVerify_Inr v Inr by blast
    then have "store_download lib net res r t (Some h) sd reg1 = (reg', err)" using f(1) f' Inr by simp
    from store_download_verified[OF this opts] h(2) frame show ?thesis by (auto split: if_splits)
  qed (use f(1) f' frame in auto)
qed (use f opts in \<open>auto simp: fetchFile_def\<close>)

lemma download_tries_frame:
  "download_tries net vo p sp ts d reg = (reg', d') \<Longrightarrow>
   resources reg' = resources reg \<and> files reg' = files reg \<and> storageDir reg' = storageDir reg"
proof (induction ts arbitrary: d reg)
  case (Cons t ts)
  obtain reg1 x where x: "fetchData net p t reg = (reg1, x)" by fastforce
  have f1: "resources reg1 = resources reg \<and> files reg1 = files reg \<and> storageDir reg1 = storageDir reg"
    using fetchData_frame[of net p t reg] x by simp
  show ?case
  proof (cases "\<exists>data opts. x = Inr data \<and> vo = Some opts")
    case True
    then obtain data opts where o: "x = Inr data" "vo = Some opts" by auto
    obtain reg2 w sd where v: "fetchAndVerifySigFile net opts sp [] t reg1 = (reg2, w, sd)" by (metis prod.collapse)
    have "resources reg2 = resources reg \<and> files reg2 = files reg \<and> storageDir reg2 = storageDir reg"
      using fetchAndVerify_frame[of net opts sp "[]" t reg1] v f1 by simp
    then show ?thesis using Cons.prems Cons.IH x o v by (cases w) (auto simp: Let_def split: if_splits)
  next
    case False
    then show ?thesis using Cons.prems Cons.IH x f1 by (cases x; cases vo) (auto simp: Let_def split: if_splits)
  qed
qed simp

lemma download_tries_verified:
  "download_tries net (Some opts) p sp ts d reg = (reg', d') \<Longrightarrow> ts \<noteq> [] \<Longrightarrow> dIndexErr d' = None \<Longrightarrow> dSigErr d' = None \<Longrightarrow>
   \<exists>h. signed_by net opts [] (dSigFileData d') h \<and> hash_Matches net h (dIndexData d')"
proof (induction ts arbitrary: d reg)
  case (Cons t ts)
  obtain reg1 x where x: "fetchData net p t reg = (reg1, x)" by fastforce
  show ?case
  proof (cases x)
    case (Inl e)
    show ?thesis
    proof (cases "panics e \<or> ts = []")
      case False
      then show ?thesis using Cons x Inl by (simp add: Let_def)
    qed (use Cons.prems x Inl in \<open>auto simp: Let_def split: if_splits\<close>)
  next
    case (Inr data)
    obtain reg2 w sd where v: "fetchAndVerifySigFile net opts sp [] t reg1 = (reg2, w, sd)" by (metis prod.collapse)
    show ?thesis
    proof (cases "\<exists>h. w = Inr (Some h) \<and> hash_Matches net h data")
      case True
      then show ?thesis using Cons.prems x Inr v fetchAndVerify_Inr[of net opts sp "[]" t reg1 reg2] by (auto, blast)
    next
      case no: False
      show ?thesis
      proof (cases "ts = []")
        case True
        then show ?thesis using Cons.prems x Inr v no by (cases w) (auto simp: Let_def split: if_splits option.splits)
      next
        case False
        then show ?thesis using Cons x Inr v no by (cases w) (auto simp: Let_def split: if_splits option.splits)
      qed
    qed
  qed
qed simp

lemma AddResources_outside:
  assumes "i \<notin> fst ` set vs"
  shows "resources (fst (AddResources lib vs ix a c p reg)) i = resources reg i"
proof -
  have "i \<notin> fst ` set vs \<Longrightarrow> resources (fst (fold (\<lambda>(i, v) (r, e). addResource lib i v ix a c p r) vs st)) i = resources (fst st) i" for st
    by (induction vs arbitrary: st) (auto simp: case_prod_unfold addResource_def upd_resource_def Let_def)
  then show ?thesis using assms by (simp add: AddResources_def)
qed

lemma downloadIndex_verified:
  assumes d: "downloadIndex lib net js now_time i reg = (reg', err)"
    and opts: "GetVerificationOptions (iPath (indexStore reg i)) reg = Some opts"
  shows "if err = None
         then \<exists>data sigData h indexFile. signed_by net opts [] sigData h \<and> hash_Matches net h data \<and>
                ParseIndexFile js now_time data (Channel (indexStore reg i)) (LastRelease (indexStore reg i)) = Inr indexFile \<and>
                (\<forall>identifier. resources reg' identifier \<noteq> resources reg identifier \<longrightarrow>
                   identifier \<in> fst ` set (Releases indexFile) \<and> HasPrefix identifier (authoritativePath (indexStore reg i)))
         else resources reg' = resources reg \<and> files reg' = files reg"
proof -
  let ?idx = "indexStore reg i"
  let ?path = "downloadIndexPath (Some opts) ?idx"
  obtain reg1 dl where t: "download_tries net (Some opts) ?path (?path @ sigExtension lib) [0, 1, 2]
      \<lparr>dIndexErr = None, dIndexData = [], dSigErr = None, dSigFileData = []\<rparr> reg = (reg1, dl)" by fastforce
  note frame = download_tries_frame[OF t]
  show ?thesis
  proof (cases "dIndexErr dl = None \<and> dSigErr dl = None")
    case ok: True
    obtain h where h: "signed_by net opts [] (dSigFileData dl) h" "hash_Matches net h (dIndexData dl)"
      using download_tries_verified[OF t] ok by auto
    show ?thesis
    proof (cases "ParseIndexFile js now_time (dIndexData dl) (Channel ?idx) (LastRelease ?idx)")
      case (Inr indexFile)
      let ?clean = "filter (\<lambda>(key, version). HasPrefix key (authoritativePath ?idx)) (Releases indexFile)"
      have err: "err = None" and res: "resources reg' =
          resources (if Releases indexFile \<noteq> [] then fst (AddResources lib ?clean (Some i) False True (iPreRelease ?idx) reg1) else reg1)"
        using d opts t ok Inr by (auto simp: downloadIndex_def Let_def simp del: download_tries.simps split: if_splits)
      have "ident \<in> fst ` set (Releases indexFile) \<and> HasPrefix ident (authoritativePath ?idx)"
        if "resources reg' ident \<noteq> resources reg ident" for ident
      proof -
        have "ident \<in> fst ` set ?clean"
        proof (rule ccontr)
          assume "ident \<notin> fst ` set ?clean"
          then show False using that res frame by (auto simp: AddResources_outside simp del: set_filter split: if_splits)
        qed
        then show ?thesis by auto
      qed
      then show ?thesis unfolding err using h Inr by (simp only: simp_thms if_True) blast
    qed (use d opts t ok frame in \<open>auto simp: downloadIndex_def Let_def simp del: download_tries.simps\<close>)
  qed (use d opts t frame in \<open>auto simp: downloadIndex_def Let_def simp del: download_tries.simps split: option.splits\<close>)
qed

subsection \<open>Selection\<close>

definition newest :: "'v upd_lib \<Rightarrow> 'v Resource \<Rightarrow> (vref \<Rightarrow> bool) \<Rightarrow> vref \<Rightarrow> bool" where
  "newest lib res P s \<longleftrightarrow> s \<in> set (Versions res) \<and> P s \<and>
     (\<forall>q \<in> set (Versions res). P q \<and> q \<noteq> s \<longrightarrow> \<not> version_less lib res q s)"

lemma find_newest:
  assumes "sorted_wrt (\<lambda>a b. \<not> lt b a) vs" "find P vs = Some s"
  shows "s \<in> set vs \<and> P s \<and> (\<forall>q \<in> set vs. P q \<and> q \<noteq> s \<longrightarrow> \<not> lt q s)"
  using assms by (induction vs) (auto split: if_splits)

lemma find_None: "find P vs = None \<longleftrightarrow> (\<forall>x \<in> set vs. \<not> P x)"
  by (auto simp: find_None_iff)

text \<open>The rules of selection, for a version \<open>s\<close> of the resource. In development mode the development version is
  selected if it is available and older than all others.\<close>

definition dev_version :: "'v upd_lib \<Rightarrow> 'v ResourceRegistry \<Rightarrow> 'v Resource \<Rightarrow> vref \<Rightarrow> bool" where
  "dev_version lib reg res r \<longleftrightarrow> r \<in> set (Versions res) \<and> DevMode reg \<and> Available (verStore res r) \<and>
     sv_Equal lib (semVer (verStore res r)) (devVersion lib)"

definition release_rules :: "'v upd_lib \<Rightarrow> 'v ResourceRegistry \<Rightarrow> 'v Resource \<Rightarrow> vref \<Rightarrow> bool" where
  "release_rules lib reg res s \<longleftrightarrow>
     (let ok = isSelectable reg res; stable = (\<lambda>r. \<not> PreRelease (verStore res r));
          current = (\<lambda>r. CurrentRelease (verStore res r) \<and> ok r); any = (\<lambda>P. \<exists>r \<in> set (Versions res). P r) in
      if any current then current s
      else if UsePreReleases reg \<and> any ok then newest lib res ok s
      else if any (\<lambda>r. stable r \<and> ok r) then newest lib res (\<lambda>r. stable r \<and> ok r) s
      else newest lib res (\<lambda>_. True) s)"

definition selection_rules :: "'v upd_lib \<Rightarrow> 'v ResourceRegistry \<Rightarrow> 'v Resource \<Rightarrow> vref \<Rightarrow> bool" where
  "selection_rules lib reg res s \<longleftrightarrow>
     (\<forall>d. dev_version lib reg res d \<and> (\<forall>q \<in> set (Versions res). q \<noteq> d \<longrightarrow> version_less lib res q d) \<longrightarrow> s = d) \<and>
     (dev_version lib reg res s \<or> release_rules lib reg res s)"

lemma last_oldest:
  assumes "sorted_wrt (\<lambda>a b. \<not> lt b a) vs" "d \<in> set vs" "\<forall>q \<in> set vs. q \<noteq> d \<longrightarrow> lt q d"
  shows "d = last vs"
proof (rule ccontr)
  assume "d \<noteq> last vs"
  moreover have "vs \<noteq> []" using assms(2) by auto
  ultimately have "d \<in> set (butlast vs)" "lt (last vs) d"
    using assms(2,3) by (metis append_butlast_last_id in_set_conv_decomp rotate1.simps(2) set_ConsD set_rotate1, metis last_in_set)
  then show False
    using assms(1) \<open>vs \<noteq> []\<close> by (metis (no_types, lifting) append_butlast_last_id list.set_intros(1) sorted_wrt_append)
qed

lemma release_rules_find:
  assumes sorted: "sorted_wrt (\<lambda>a b. \<not> version_less lib res b a) (Versions res)" and ne: "Versions res \<noteq> []"
    and unique: "current_unique res"
  shows "\<exists>s. (let current = (case find (\<lambda>r. CurrentRelease (verStore res r)) (Versions res) of
                          Some r \<Rightarrow> if isSelectable reg res r then Some r else None
                        | None \<Rightarrow> None);
             newest = (if UsePreReleases reg then find (isSelectable reg res) (Versions res) else None);
             stable = find (\<lambda>r. \<not> PreRelease (verStore res r) \<and> isSelectable reg res r) (Versions res) in
         if current \<noteq> None then current else if newest \<noteq> None then newest else if stable \<noteq> None then stable
         else Some (hd (Versions res))) = Some s \<and> s \<in> set (Versions res) \<and> release_rules lib reg res s"
proof (cases "\<exists>r \<in> set (Versions res). CurrentRelease (verStore res r) \<and> isSelectable reg res r")
  case True
  then obtain c where c: "c \<in> set (Versions res)" "CurrentRelease (verStore res c)" "isSelectable reg res c" by auto
  have "find (\<lambda>r. CurrentRelease (verStore res r)) (Versions res) = Some c"
  proof (cases "find (\<lambda>r. CurrentRelease (verStore res r)) (Versions res)")
    case (Some q)
    then show ?thesis using find_Some_in[OF Some] c unique by (auto simp: current_unique_def)
  qed (use c in \<open>auto simp: find_None\<close>)
  then show ?thesis using c by (auto simp: release_rules_def Let_def)
next
  case none: False
  have cur: "(case find (\<lambda>r. CurrentRelease (verStore res r)) (Versions res) of
      Some r \<Rightarrow> if isSelectable reg res r then Some r else None | None \<Rightarrow> None) = None"
    using none by (auto split: option.split dest: find_Some_in)
  show ?thesis
  proof (cases "UsePreReleases reg \<and> (\<exists>r \<in> set (Versions res). isSelectable reg res r)")
    case True
    then obtain s where s: "find (isSelectable reg res) (Versions res) = Some s"
      by (cases "find (isSelectable reg res) (Versions res)") (auto simp: find_None)
    then show ?thesis using True none cur find_newest[OF sorted s] by (auto simp: release_rules_def newest_def Let_def)
  next
    case False
    then have pre: "(if UsePreReleases reg then find (isSelectable reg res) (Versions res) else None) = None"
      by (auto simp: find_None)
    show ?thesis
    proof (cases "find (\<lambda>r. \<not> PreRelease (verStore res r) \<and> isSelectable reg res r) (Versions res)")
      case (Some s)
      then show ?thesis using False none cur pre find_newest[OF sorted Some] find_Some_in[OF Some]
        by (auto simp: release_rules_def newest_def Let_def)
    next
      case None
      then have "\<not> (\<exists>r \<in> set (Versions res). \<not> PreRelease (verStore res r) \<and> isSelectable reg res r)" by (auto simp: find_None)
      moreover have "newest lib res (\<lambda>_. True) (hd (Versions res))"
        using ne sorted by (cases "Versions res") (auto simp: newest_def)
      ultimately show ?thesis using None False none cur pre ne by (auto simp: release_rules_def Let_def)
    qed
  qed
qed

lemma select_target_rules:
  assumes sorted: "sorted_wrt (\<lambda>a b. \<not> version_less lib res b a) (Versions res)" and ne: "Versions res \<noteq> []"
    and unique: "current_unique res"
  shows "\<exists>s. select_target lib reg res = Some s \<and> s \<in> set (Versions res) \<and> selection_rules lib reg res s"
proof -
  let ?l = "last (Versions res)"
  have dev: "d = ?l" if "dev_version lib reg res d" "\<forall>q \<in> set (Versions res). q \<noteq> d \<longrightarrow> version_less lib res q d" for d
    using last_oldest[OF sorted _ that(2)] that(1) by (simp add: dev_version_def)
  have l: "dev_version lib reg res ?l \<longleftrightarrow>
      DevMode reg \<and> sv_Equal lib (semVer (verStore res ?l)) (devVersion lib) \<and> Available (verStore res ?l)"
    using ne by (auto simp: dev_version_def)
  show ?thesis
  proof (cases "dev_version lib reg res ?l")
    case True
    then have "select_target lib reg res = Some ?l" using ne l by (simp add: select_target_def)
    then show ?thesis using True dev ne by (auto simp: selection_rules_def)
  next
    case False
    then have "select_target lib reg res = (let current = (case find (\<lambda>r. CurrentRelease (verStore res r)) (Versions res) of
                          Some r \<Rightarrow> if isSelectable reg res r then Some r else None
                        | None \<Rightarrow> None);
             newest = (if UsePreReleases reg then find (isSelectable reg res) (Versions res) else None);
             stable = find (\<lambda>r. \<not> PreRelease (verStore res r) \<and> isSelectable reg res r) (Versions res) in
         if current \<noteq> None then current else if newest \<noteq> None then newest else if stable \<noteq> None then stable
         else Some (hd (Versions res)))"
      using ne l unfolding select_target_def Let_def by presburger
    then show ?thesis
      using release_rules_find[OF sorted ne unique, of reg] dev False unfolding selection_rules_def by metis
  qed
qed

text \<open>The rules only look at the set of the versions.\<close>

lemma rules_perm:
  assumes "set vs = set (Versions res)"
  shows "selection_rules lib reg (res\<lparr>Versions := vs\<rparr>) s = selection_rules lib reg res s"
proof -
  have v: "version_less lib (res\<lparr>Versions := vs\<rparr>) = version_less lib res" "isSelectable reg (res\<lparr>Versions := vs\<rparr>) = isSelectable reg res"
    by (simp_all add: version_less_def isSelectable_def fun_eq_iff Let_def)
  show ?thesis by (simp add: selection_rules_def release_rules_def dev_version_def newest_def v assms)
qed

lemma selectVersion_selects:
  assumes "resource_ok res" "sorts lib res" "Versions res \<noteq> []" "selectVersion lib reg res = (reg', res')"
  shows "\<exists>s. SelectedVersion res' = Some s \<and> s \<in> set (Versions res) \<and> selection_rules lib reg res s"
proof -
  let ?vs = "sort_Sort lib (version_less lib res) (Versions res)"
  let ?res = "res\<lparr>Versions := ?vs\<rparr>"
  have vs: "mset ?vs = mset (Versions res)" "sorted_wrt (\<lambda>a b. \<not> version_less lib res b a) ?vs"
    using assms(2) by (simp_all add: sorts_def Let_def)
  then have set: "set ?vs = set (Versions res)" by (metis mset_eq_setD)
  have less: "version_less lib ?res = version_less lib res" by (simp add: version_less_def fun_eq_iff)
  have "?vs \<noteq> []" using set assms(3) by (metis set_empty)
  moreover have "current_unique ?res" using assms(1) set by (simp add: resource_ok_def current_unique_def)
  ultimately obtain s where "select_target lib reg ?res = Some s" "s \<in> set ?vs" "selection_rules lib reg ?res s"
    using select_target_rules[of lib ?res reg] vs(2) less by auto
  then show ?thesis using selectVersion_frame(7)[OF assms(4)] set rules_perm[OF set] by simp
qed

subsection \<open>Purging\<close>

lemma boundary_before:
  assumes "boundary_search res keep rs i a s t = b" "b \<noteq> 0" "keep \<ge> 0" "i \<ge> 0"
  shows "b \<ge> i + keep \<and>
    (ActiveVersion res \<noteq> None \<longrightarrow> a \<or> (\<exists>q \<in> set (take (nat (b - keep - i)) rs). ActiveVersion res = Some q)) \<and>
    (SelectedVersion res \<noteq> None \<longrightarrow> s \<or> (\<exists>q \<in> set (take (nat (b - keep - i)) rs). SelectedVersion res = Some q))"
  using assms
proof (induction rs arbitrary: i a s t)
  case (Cons r rs)
  show ?case
  proof (cases "(\<not> a \<and> ActiveVersion res \<noteq> None) \<or> (\<not> s \<and> SelectedVersion res \<noteq> None) \<or> \<not> t")
    case True
    let ?a = "a \<or> ActiveVersion res = Some r" and ?s = "s \<or> SelectedVersion res = Some r"
    have b: "boundary_search res keep rs (i + 1) ?a ?s (t \<or> \<not> PreRelease (verStore res r)) = b"
      using Cons.prems(1) True by (simp only: boundary_search.simps if_True)
    note IH = Cons.IH[OF b Cons.prems(2,3)]
    have "i + 1 \<ge> 0" using Cons.prems(4) by simp
    note IH = IH[OF this]
    then have "nat (b - keep - i) = Suc (nat (b - keep - (i + 1)))" by linarith
    then show ?thesis using IH by auto
  qed (use Cons.prems in auto)
qed simp

lemma purge_removes:
  "(\<And>x. \<not> remove_fails lib x) \<Longrightarrow> fs p = None \<Longrightarrow> purge_version lib reg res r fs p = None"
  "(\<And>x. \<not> remove_fails lib x) \<Longrightarrow> Available (verStore res r) \<Longrightarrow> purge_version lib reg res r fs (storagePath reg res r) = None"
  by (auto simp: purge_version_def os_Remove_def Let_def)

lemma purge_all:
  assumes "\<And>x. \<not> remove_fails lib x"
  shows "fs p = None \<Longrightarrow> fold (purge_version lib reg res) rs fs p = None"
    and "r \<in> set rs \<Longrightarrow> Available (verStore res r) \<Longrightarrow> fold (purge_version lib reg res) rs fs (storagePath reg res r) = None"
proof -
  show keep: "fold (purge_version lib reg res) rs fs p = None" if "fs p = None" for rs fs p
    using that by (induction rs arbitrary: fs) (simp_all add: purge_removes(1)[OF assms])
  show "r \<in> set rs \<Longrightarrow> Available (verStore res r) \<Longrightarrow> fold (purge_version lib reg res) rs fs (storagePath reg res r) = None"
    by (induction rs arbitrary: fs) (auto simp: keep purge_removes[OF assms])
qed

subsection \<open>Every operation keeps the resources well formed\<close>

lemma set_version_ok:
  assumes "registry_ok reg" "\<And>rv. CurrentRelease (f rv) = CurrentRelease rv"
  shows "registry_ok (set_version i r f reg)"
proof -
  have "resource_ok (upd_version r f res)" if "resources reg i = Some res" for res
    using registry_okD[OF assms(1) that] assms(2) by (rule resource_ok_upd)
  then show ?thesis using assms(1) by (auto simp: registry_ok_def set_version_def)
qed

lemma download_one_ok:
  assumes "registry_ok reg"
  shows "registry_ok (fst (download_one lib net rv reg))"
proof -
  obtain i r where rv: "rv = (i, r)" by fastforce
  obtain reg1 e where f: "fetch_tries (fetchFile lib net (the (resources reg i)) r) [0, 1, 2] None reg = (reg1, e)" by fastforce
  have "resources reg1 = resources reg" by (rule fetch_tries_frame[OF _ f]) simp
  then have "registry_ok reg1" using assms by (simp add: registry_ok_def)
  then have "registry_ok (set_version i r (\<lambda>v. v\<lparr>Available := True, SigAvailable := x v\<rparr>) reg1)" for x
    by (rule set_version_ok) simp
  then show ?thesis using \<open>registry_ok reg1\<close> unfolding download_one_def rv prod.case Let_def f by (simp split: option.split)
qed

lemma sig_one_ok:
  assumes "registry_ok reg"
  shows "registry_ok (fst (sig_one lib net rv reg))"
proof -
  obtain i r where rv: "rv = (i, r)" by fastforce
  let ?res = "the (resources reg i)"
  obtain reg1 e where f: "fetch_tries (fetchMissingSig lib net (the (resVerification ?res)) ?res r) [0, 1, 2] None reg = (reg1, e)"
    by fastforce
  have "resources reg1 = resources reg" by (rule fetch_tries_frame[OF _ f]) simp
  then have "registry_ok reg1" using assms by (simp add: registry_ok_def)
  then have "registry_ok (set_version i r (\<lambda>v. v\<lparr>SigAvailable := True\<rparr>) reg1)" by (rule set_version_ok) simp
  then show ?thesis using \<open>registry_ok reg1\<close> unfolding sig_one_def rv prod.case Let_def f by (simp split: option.split)
qed

lemma registry_ok_state [simp]:
  "registry_ok (StartOperation n reg) = registry_ok reg" "registry_ok (EndOperation reg) = registry_ok reg"
  "registry_ok (UpdateOperationDetails d reg) = registry_ok reg" "registry_ok (ReportDownloads t ds e reg) = registry_ok reg"
  by (rule registry_ok_same; simp)+

lemma each_version_keeps:
  assumes "\<And>rv reg. P reg \<Longrightarrow> P (fst (f rv reg))" "\<And>i reg. P reg \<Longrightarrow> P (report i reg)" "P reg"
  shows "P (fst (each_version f report rvs i reg))"
  using assms(3)
proof (induction rvs arbitrary: i reg)
  case (Cons rv rvs)
  obtain reg1 e where f: "f rv reg = (reg1, e)" by fastforce
  moreover have "P reg1" using assms(1)[OF Cons.prems, of rv] f by simp
  ultimately show ?case using Cons.IH assms(2) by (cases e) auto
qed simp

lemma DownloadUpdates_ok:
  assumes "registry_ok reg"
  shows "registry_ok (fst (DownloadUpdates lib net now_time order manual reg))"
proof -
  have d: "registry_ok (fst (each_version (download_one lib net) (\<lambda>i. UpdateOperationDetails (Some (info, i))) rvs n r))"
    if "registry_ok r" for info rvs n and r :: "'a ResourceRegistry"
    using that by (rule each_version_keeps[rotated 2]) (simp_all add: download_one_ok)
  have s: "registry_ok (fst (each_version (sig_one lib net) (\<lambda>_ r. r) rvs n r))"
    if "registry_ok r" for rvs n and r :: "'a ResourceRegistry"
    using that by (rule each_version_keeps[rotated 2]) (simp_all add: sig_one_ok)
  show ?thesis using assms d s unfolding DownloadUpdates_def Let_def case_prod_unfold
    by (simp split: option.split)
qed

lemma downloadIndex_ok:
  assumes "registry_ok reg"
  shows "registry_ok (fst (downloadIndex lib net js now_time i reg))"
proof -
  let ?vo = "GetVerificationOptions (iPath (indexStore reg i)) reg"
  let ?path = "downloadIndexPath ?vo (indexStore reg i)"
  obtain reg1 dl where t: "download_tries net ?vo ?path (?path @ sigExtension lib) [0, 1, 2]
      \<lparr>dIndexErr = None, dIndexData = [], dSigErr = None, dSigFileData = []\<rparr> reg = (reg1, dl)" by fastforce
  have ok: "registry_ok reg1" using download_tries_frame[OF t] assms by (simp add: registry_ok_def)
  have w: "registry_ok (fst (write_file net p d r)) = registry_ok r" for p d and r :: "'a ResourceRegistry"
    by (rule registry_ok_same) simp
  show ?thesis unfolding downloadIndex_def Let_def t prod.case
    using ok AddResources_ok[OF ok] by (simp add: w split: option.split sum.split)
qed

lemma loadIndexFile_ok:
  assumes "registry_ok reg"
  shows "registry_ok (fst (loadIndexFile lib net js now_time i reg))"
proof -
  have r: "registry_ok (reg\<lparr>indexStore := s\<rparr>)" for s using assms by (simp add: registry_ok_def)
  show ?thesis unfolding loadIndexFile_def Let_def
    using assms r AddResources_ok[OF r] by (simp split: option.split sum.split)
qed

end
