(* ===== verification/Updater_Properties.thy ===== *)
theory Updater_Properties
  imports Updater_Guarantees
begin

section \<open>Updater: reachable registries\<close>

text \<open>
  The steps of the updater and the properties of the registries they reach: the selection of
  versions, and where purging and downloading do not do what they mean to. Also a sample registry with which
  the properties are instantiated.
\<close>

lemma Blacklist_ok:
  assumes "resource_ok res" "good_sort lib" "Resource_Blacklist lib reg v res = ((reg', res'), err)"
  shows "resource_ok res'" "resources reg' = resources reg"
proof -
  define res1 where "res1 r = upd_version r (\<lambda>rv. rv\<lparr>Blacklisted := True\<rparr>) res" for r
  have ok: "resource_ok (res1 r)" for r
    unfolding res1_def using assms(1) by (rule resource_ok_upd) simp
  have "(reg' = reg \<and> res' = res) \<or> (\<exists>r. selectVersion lib reg (res1 r) = (reg', res'))"
    using assms(3) by (auto simp: Resource_Blacklist_def res1_def Let_def split: if_splits option.splits)
  then show "resource_ok res'" "resources reg' = resources reg"
    using assms(1) selectVersion_ok[OF ok assms(2)] selectVersion_frame(1) by auto
qed

lemma ensure_notifier_frame:
  assumes "ensure_notifier reg res = (reg', res')"
  shows "resources reg' = resources reg" "resource_ok res' = resource_ok res"
  using assms by (auto simp: ensure_notifier_def newNotifier_def split: option.splits prod.splits)

lemma Resource_GetFile_ok:
  assumes "resource_ok res" "good_sort lib" "Resource_GetFile lib reg res = ((reg', res'), f)"
  shows "resource_ok res'" "resources reg' = resources reg"
proof -
  obtain reg1 res1 where e: "ensure_notifier reg res = (reg1, res1)" by fastforce
  obtain reg2 res2 where s: "selectVersion lib reg1 res1 = (reg2, res2)" by fastforce
  have "(reg' = reg1 \<and> res' = res1) \<or> (reg' = reg2 \<and> res' = res2)"
    using assms(3) e s by (auto simp: Resource_GetFile_def split: if_splits)
  then show "resource_ok res'" "resources reg' = resources reg"
    using ensure_notifier_frame[OF e] assms(1) selectVersion_ok[OF _ assms(2) s] selectVersion_frame(1)[OF s] by auto
qed

lemma registry_ok_active:
  assumes "registry_ok reg"
  shows "registry_ok (reg\<lparr>resources := (resources reg)(i := map_option (markActive f) (resources reg i))\<rparr>)"
  using assms by (auto simp: registry_ok_def markActive_def)

lemma Registry_GetFile_ok:
  assumes "registry_ok reg" "good_sort lib"
  shows "registry_ok (fst (Registry_GetFile lib net i reg))"
proof (cases "resources reg i")
  case (Some res)
  obtain reg1 res1 f where g: "Resource_GetFile lib reg res = ((reg1, res1), f)" by (metis prod.collapse)
  note ok = Resource_GetFile_ok[OF registry_okD[OF assms(1) Some] assms(2) g]
  have r2: "registry_ok (upd_resource i res1 reg1)" using ok assms(1) by (intro registry_ok_upd)
  show ?thesis
  proof (cases f)
    case (Inr fl)
    obtain reg3 e where t: "fetch_tries (fetchFile lib (net\<lparr>ctx_Done := \<lambda>_. False\<rparr>) res1 (fVersion fl)) [0, 1, 2, 3, 4] None
        (StartOperation StateFetching (upd_resource i res1 reg1)) = (reg3, e)" by fastforce
    have "resources reg3 = resources (upd_resource i res1 reg1)"
      using fetch_tries_frame[OF _ t] by simp
    then have r3: "registry_ok reg3" using r2 by (simp add: registry_ok_def)
    show ?thesis unfolding Registry_GetFile_def Some g Inr option.case prod.case sum.case Let_def t
      using r2 registry_ok_active[OF r2] r3 registry_ok_active[OF r3] by (simp split: option.split)
  qed (use Some g r2 in \<open>simp add: Registry_GetFile_def\<close>)
qed (use assms in \<open>simp add: Registry_GetFile_def\<close>)

lemma scan_file_ok:
  assumes "registry_ok (fst st)"
  shows "registry_ok (fst (fst (scan_file lib path d st)))"
proof -
  obtain reg e where st: "st = (reg, e)" by fastforce
  show ?thesis
  proof (cases "GetIdentifierAndVersion (TrimPrefix path (storageDir reg @ ''/''))")
    case (Some iv)
    obtain i v where iv: "iv = (i, v)" by fastforce
    obtain reg1 err where a: "addResource lib i v None True False False reg = (reg1, err)" by fastforce
    have "registry_ok reg1" using addResource_ok[OF _ a] assms st by simp
    then show ?thesis using assms st Some iv a by (cases err) (simp_all add: scan_file_def AddResource_def)
  qed (use assms st in \<open>simp add: scan_file_def\<close>)
qed

lemma walk_keeps:
  shows "(\<And>p d s. P s \<Longrightarrow> P (fst (fn p d s))) \<Longrightarrow> P s \<Longrightarrow> P (fst (walk fn path e s))"
    and "(\<And>p d s. P s \<Longrightarrow> P (fst (fn p d s))) \<Longrightarrow> P s \<Longrightarrow> P (fst (walk_entries fn path es s))"
proof (induction fn path e s and fn path es s rule: walk_walk_entries.induct)
  case (2 fn path n es s)
  obtain s1 b where f: "fn path True s = (s1, b)" by fastforce
  moreover have "P s1" using "2.prems" f by (metis fst_conv)
  ultimately show ?case using 2 by (cases b) auto
next
  case (4 fn path e es s)
  obtain s1 b where f: "walk fn (path @ ''/'' @ fs_name e) e s = (s1, b)" by fastforce
  moreover have "P s1" using "4.IH"(1)[OF "4.prems"] f by simp
  ultimately show ?case using "4.IH"(2)[OF f[symmetric] _ "4.prems"(1)] by auto
qed auto

lemma ScanStorage_ok:
  assumes "registry_ok reg"
  shows "registry_ok (fst (ScanStorage lib root tree reg))"
proof -
  have "registry_ok (fst (fst (walk (scan_file lib) p tree (reg, None))))" for p
    using walk_keeps(1)[where P = "\<lambda>st. registry_ok (fst st)" and fn = "scan_file lib"] scan_file_ok assms by fastforce
  then show ?thesis using assms by (auto simp: ScanStorage_def split: option.split sum.split)
qed

subsection \<open>Steps of the registry\<close>

text \<open>The operations that change resources, and the settings. Requests are
  numbered, so one value of \<open>net\<close> describes the network over the whole run.\<close>

inductive registry_step ::
  "'v upd_lib \<Rightarrow> ('s, 'h) upd_net \<Rightarrow> index_json \<Rightarrow> 'v ResourceRegistry \<Rightarrow> 'v ResourceRegistry \<Rightarrow> bool"
  for lib net js where
  init: "registry_step lib net js reg (fst (Initialize dir ensure_err reg))"
| dev_mode: "registry_step lib net js reg (SetDevMode on reg)"
| pre_releases: "registry_step lib net js reg (SetUsePreReleases yes reg)"
| add_index: "registry_step lib net js reg (AddIndex idx reg)"
| reset_indexes: "registry_step lib net js reg (ResetIndexes reg)"
| reset: "registry_step lib net js reg (ResetResources reg)"
| add: "registry_step lib net js reg (fst (AddResources lib vs ix a c p reg))"
| select: "registry_step lib net js reg (SelectVersions lib order reg)"
| purge: "registry_step lib net js reg (Registry_Purge lib keep order reg)"
| blacklist:
    "resources reg i = Some res \<Longrightarrow> Resource_Blacklist lib reg v res = ((reg1, res1), err) \<Longrightarrow>
     registry_step lib net js reg (upd_resource i res1 reg1)"
| scan: "registry_step lib net js reg (fst (ScanStorage lib root tree reg))"
| load: "registry_step lib net js reg (fst (LoadIndexes lib net js t reg))"
| update: "registry_step lib net js reg (fst (UpdateIndexes lib net js t order reg))"
| download: "registry_step lib net js reg (fst (DownloadUpdates lib net t order manual reg))"
| get_file: "registry_step lib net js reg (fst (Registry_GetFile lib net i reg))"

inductive reachable_registry ::
  "'v upd_lib \<Rightarrow> ('s, 'h) upd_net \<Rightarrow> index_json \<Rightarrow> 'v ResourceRegistry \<Rightarrow> bool"
  for lib net js where
  start: "resources reg = Map.empty \<Longrightarrow> reachable_registry lib net js reg"
| step: "reachable_registry lib net js reg \<Longrightarrow> registry_step lib net js reg reg' \<Longrightarrow> reachable_registry lib net js reg'"

lemma LoadIndexes_ok:
  assumes "registry_ok reg"
  shows "registry_ok (fst (LoadIndexes lib net js t reg))"
proof -
  have one: "registry_ok (fst (load_one lib net js t i st))" if "registry_ok (fst st)" for i st
  proof -
    have l: "registry_ok (fst (loadIndexFile lib net js t i (fst st)))" using that by (rule loadIndexFile_ok)
    show ?thesis using that l downloadIndex_ok[OF l, of lib net js t i]
      by (simp add: load_one_def case_prod_unfold Let_def split: option.split)
  qed
  have "registry_ok (fst st) \<Longrightarrow> registry_ok (fst (fold (load_one lib net js t) is st))" for "is" st
    by (induction "is" arbitrary: st) (auto simp: one)
  then show ?thesis using assms by (simp add: LoadIndexes_def)
qed

lemma UpdateIndexes_ok:
  assumes "registry_ok reg"
  shows "registry_ok (fst (UpdateIndexes lib net js t order reg))"
proof -
  have one: "registry_ok (fst (update_one lib net js t i st))" if "registry_ok (fst st)" for i st
    using that downloadIndex_ok[OF that, of lib net js t i]
    by (auto simp: update_one_def case_prod_unfold split: option.split)
  have f: "registry_ok (fst st) \<Longrightarrow> registry_ok (fst (fold (update_one lib net js t) is st))" for "is" st
    by (induction "is" arbitrary: st) (auto simp: one)
  have r: "registry_ok (ReportUpdateCheck t ds e r) = registry_ok r" for ds e and r :: "'a ResourceRegistry"
    by (rule registry_ok_same) simp
  show ?thesis using f[of "(StartOperation StateChecking reg, None, False)" "indexes reg"] assms
    by (simp add: UpdateIndexes_def case_prod_unfold Let_def r)
qed

lemma registry_step_ok:
  assumes "registry_step lib net js reg reg'" "good_sort lib" "registry_ok reg"
  shows "registry_ok reg'"
  using assms
proof cases
  case (blacklist i res v reg1 res1 err)
  then show ?thesis using Blacklist_ok[OF registry_okD[OF assms(3) blacklist(2)] assms(2) blacklist(3)] assms(3)
    by (simp add: registry_ok_upd)
qed (simp_all add: AddResources_ok SelectVersions_ok Registry_Purge_ok ScanStorage_ok LoadIndexes_ok UpdateIndexes_ok
      DownloadUpdates_ok Registry_GetFile_ok, auto simp: registry_ok_def Initialize_def SetDevMode_def
      SetUsePreReleases_def AddIndex_def ResetIndexes_def ResetResources_def Let_def split: if_splits)

lemma reachable_registry_ok:
  "reachable_registry lib net js reg \<Longrightarrow> good_sort lib \<Longrightarrow> registry_ok reg"
proof (induction rule: reachable_registry.induct)
  case (start reg)
  then show ?case by (simp add: registry_ok_def)
qed (blast intro: registry_step_ok)

subsection \<open>Selection in a reachable registry\<close>

lemma select_one_frame:
  "DevMode (select_one lib i reg) = DevMode reg" "UsePreReleases (select_one lib i reg) = UsePreReleases reg"
  "regOnline (select_one lib i reg) = regOnline reg" "indexStore (select_one lib i reg) = indexStore reg"
  "j \<noteq> i \<Longrightarrow> resources (select_one lib i reg) j = resources reg j"
  by (auto simp: select_one_def selectVersion_def markAsUpgradeable_def upd_resource_def Let_def
      split: option.split prod.split)

lemma select_fold_frame:
  "i \<notin> set order \<Longrightarrow> resources (fold (select_one lib) order reg) i = resources reg i"
  by (induction order arbitrary: reg) (auto simp: select_one_frame)

text \<open>The rules depend on the registry through its settings only.\<close>

lemma selection_rules_settings:
  assumes "DevMode reg' = DevMode reg" "UsePreReleases reg' = UsePreReleases reg" "regOnline reg' = regOnline reg"
    "indexStore reg' = indexStore reg"
  shows "selection_rules lib reg' res s = selection_rules lib reg res s"
proof -
  have "isSelectable reg' = isSelectable reg" by (intro ext) (simp only: isSelectable_def assms)
  then show ?thesis by (simp add: selection_rules_def release_rules_def dev_version_def assms)
qed

lemma select_fold_selects:
  assumes "good_sort lib" "registry_ok reg" "distinct order" "i \<in> set order" "resources reg i = Some res" "Versions res \<noteq> []"
  shows "\<exists>res' s. resources (fold (select_one lib) order reg) i = Some res' \<and> SelectedVersion res' = Some s \<and>
    s \<in> set (Versions res) \<and> verStore res' = verStore res \<and> selection_rules lib reg res s"
  using assms
proof (induction order arbitrary: reg)
  case (Cons j order)
  show ?case
  proof (cases "j = i")
    case True
    obtain reg1 res1 where s: "selectVersion lib reg res = (reg1, res1)" by fastforce
    have "resources (select_one lib i reg) i = Some res1" using s Cons.prems(5) by (simp add: select_one_def upd_resource_def)
    then have "resources (fold (select_one lib) (j # order) reg) i = Some res1"
      using Cons.prems(3) True by (simp add: select_fold_frame)
    moreover have "sorts lib res" using assms(1) by (simp add: good_sort_def)
    ultimately show ?thesis
      using selectVersion_selects[OF registry_okD[OF Cons.prems(2,5)] _ Cons.prems(6) s] selectVersion_frame(3)[OF s] by auto
  next
    case False
    have "selection_rules lib (select_one lib j reg) res = selection_rules lib reg res"
      by (rule ext, rule selection_rules_settings) (rule select_one_frame)+
    then show ?thesis
      using Cons.IH[of "select_one lib j reg"] Cons.prems select_one_ok[OF assms(1) Cons.prems(2)] False
      by (auto simp: select_one_frame)
  qed
qed simp

text \<open>C25. In every registry that the operations of the updater reach, with a \<open>sort.Sort\<close> that sorts, \<open>SelectVersions\<close>
  gives every resource that has a version a selected version, one of its versions. It follows the rules:
  in development mode the available development version, when it is the oldest one; else the current release if it
  can be selected; else the newest version that can be selected, a pre-release only if these are enabled; and the
  newest version of all when none can be selected. The order of the iteration over the resources does not matter.\<close>

theorem selection_follows_rules:
  assumes "good_sort lib" "reachable_registry lib net js reg" "distinct order" "set order = dom (resources reg)"
    "resources reg i = Some res" "Versions res \<noteq> []"
  shows "\<exists>res' s. resources (SelectVersions lib order reg) i = Some res' \<and> SelectedVersion res' = Some s \<and>
    s \<in> set (Versions res) \<and> verStore res' = verStore res \<and> selection_rules lib reg res s"
  using select_fold_selects[OF assms(1) reachable_registry_ok[OF assms(2,1)] assms(3) _ assms(5,6)] assms(4,5)
  by (auto simp: SelectVersions_def)

subsection \<open>Purging\<close>

lemma in_take_not_drop: "distinct xs \<Longrightarrow> x \<in> set (take m xs) \<Longrightarrow> m \<le> n \<Longrightarrow> x \<notin> set (drop n xs)"
  using set_take_disj_set_drop_if_distinct[of xs m n] by blast

lemma purge_drops_required:
  assumes "resource_ok res" "Resource_Purge lib keep reg res = (reg', res')" "Versions res' \<noteq> Versions res"
  shows "\<exists>b. Versions res' = drop b (Versions res) \<and> 2 < b \<and> b < length (Versions res) \<and>
    files reg' = fold (purge_version lib reg res) (Versions res') (files reg) \<and>
    (\<forall>r. ActiveVersion res = Some r \<or> SelectedVersion res = Some r \<longrightarrow> r \<notin> set (Versions res'))"
proof -
  let ?keep = "max 2 keep"
  define b where "b = boundary_search res ?keep (Versions res) 0 False False False"
  have b: "b > ?keep" "b < int (length (Versions res))"
    and res': "Versions res' = drop (nat b) (Versions res)"
      "files reg' = fold (purge_version lib reg res) (drop (nat b) (Versions res)) (files reg)"
    using assms(2,3) by (auto simp: Resource_Purge_def b_def Let_def split: if_splits)
  note req = boundary_before[OF b_def[symmetric]]
  have take: "nat (b - ?keep - 0) \<le> nat b" by simp
  have "r \<notin> set (Versions res')" if "ActiveVersion res = Some r \<or> SelectedVersion res = Some r" for r
  proof -
    have "r \<in> set (take (nat (b - ?keep - 0)) (Versions res))" using req b that by auto
    moreover have "distinct (Versions res)" using assms(1) by (simp add: resource_ok_def)
    ultimately show ?thesis unfolding res'(1) by (intro in_take_not_drop[OF _ _ take])
  qed
  moreover have "2 < nat b" "nat b < length (Versions res)" using b by linarith+
  ultimately show ?thesis using res' by metis
qed

lemma purge_subset:
  assumes "distinct vs" "ws = drop b vs" "2 < b" "b < length vs"
  shows "set ws \<subset> set vs"
proof -
  have "hd vs \<in> set vs" "hd vs \<in> set (take 1 vs)" using assms(4) by (cases vs; simp)+
  then have "hd vs \<notin> set ws" using in_take_not_drop[OF assms(1), of "hd vs" 1 b] assms by simp
  then show ?thesis using \<open>hd vs \<in> set vs\<close> assms(2) by (auto dest: in_set_dropD)
qed

lemma GetSelectedVersions_panics: "order \<noteq> [] \<Longrightarrow> \<exists>msg. GetSelectedVersions order reg = Inl (GoPanic msg)"
  by (cases order) (auto simp: GetSelectedVersions_def nil_panic_def split: option.split)

lemma fetch_after_done: "ctx_Done net (requestNo reg) \<Longrightarrow> fetchFile lib net res r (Suc tries) reg = (reg, None)"
  by (simp add: fetchFile_def)

lemma each_version_panics:
  assumes "\<And>rv reg e. snd (f rv reg) = Some e \<Longrightarrow> panics e" "each_version f report rvs i reg = (reg', Some e)"
  shows "panics e"
  using assms(2)
proof (induction rvs arbitrary: i reg)
  case (Cons rv rvs)
  then show ?case using assms(1)[of rv reg] by (auto split: prod.splits option.splits)
qed simp

lemma one_panics:
  "snd (download_one lib net rv reg) = Some e \<Longrightarrow> panics e" "snd (sig_one lib net rv reg) = Some e \<Longrightarrow> panics e"
  by (auto simp: download_one_def sig_one_def Let_def simp del: fetch_tries.simps split: prod.splits option.splits if_splits)

lemma loops_panic:
  "each_version (download_one lib net) report rvs i reg = (reg', Some e) \<Longrightarrow> panics e"
  "each_version (sig_one lib net) report rvs i reg = (reg', Some e) \<Longrightarrow> panics e"
  by (erule each_version_panics[rotated]; erule one_panics)+

lemma DownloadUpdates_silent:
  assumes "DownloadUpdates lib net t order manual reg = (reg2, err)"
  shows "case err of
      Some e \<Rightarrow> panics e \<or> ensure_fails net (tmpDir reg)
    | None \<Rightarrow> \<forall>s. regState reg2 = Some s \<longrightarrow>
        LastDownloadError (Updates s) \<in> {None, LastDownloadError (Updates (the (regState reg)))}"
proof (cases err)
  case None
  have d: "LastDownloadError (Updates s) = None"
    if "regState (EndOperation (ReportDownloads t info None r)) = Some s" for s info and r :: "'a ResourceRegistry"
    using that by (auto simp: EndOperation_def ReportDownloads_def upd_state_def notify_state_def)
  have n: "LastDownloadError (Updates s) = LastDownloadError (Updates (the (regState r)))"
    if "regState (EndOperation (UpdateOperationDetails x (StartOperation y r))) = Some s" for s x y and r :: "'a ResourceRegistry"
    using that by (auto simp: EndOperation_def UpdateOperationDetails_def StartOperation_def upd_state_def notify_state_def)
  show ?thesis using assms None unfolding DownloadUpdates_def Let_def
    by (auto dest!: d n split: prod.splits if_splits option.splits)
next
  case (Some e)
  have "tmpDir (UpdateOperationDetails x (StartOperation y r)) = tmpDir r" for x y and r :: "'a ResourceRegistry"
    by (simp add: UpdateOperationDetails_def StartOperation_def upd_state_def notify_state_def)
  then show ?thesis using assms Some unfolding DownloadUpdates_def Let_def
    by (auto dest: loops_panic split: prod.splits if_splits option.splits)
qed

text \<open>C33. Where the updater does not do what it means to. When \<open>Purge\<close> purges anything and no removal fails, the versions
  that the resource keeps are those whose files it has deleted, some of them flagged as available, and the active and the
  selected version are not among them. \<open>GetSelectedVersions\<close> panics if there is any resource. \<open>DownloadUpdates\<close> reports
  no error, neither to its caller nor to the state, whichever downloads failed; a fetch that is retried after the context is done
  counts as a success, though nothing was written.\<close>

theorem updater_departures:
  assumes "\<And>path. \<not> remove_fails lib path" "resource_ok res" "Resource_Purge lib keep reg res = (reg', res')"
    "Versions res' \<noteq> Versions res"
  shows "set (Versions res') \<subset> set (Versions res) \<and>
    (\<forall>r \<in> set (Versions res'). Available (verStore res' r) \<longrightarrow> files reg' (storagePath reg res' r) = None) \<and>
    (\<forall>r. ActiveVersion res' = Some r \<or> SelectedVersion res' = Some r \<longrightarrow> r \<notin> set (Versions res')) \<and>
    (order \<noteq> [] \<longrightarrow> (\<exists>msg. GetSelectedVersions order reg = Inl (GoPanic msg))) \<and>
    (DownloadUpdates lib net t order manual reg = (reg2, err) \<longrightarrow>
       (case err of
          Some e \<Rightarrow> panics e \<or> ensure_fails net (tmpDir reg)
        | None \<Rightarrow> \<forall>s. regState reg2 = Some s \<longrightarrow>
            LastDownloadError (Updates s) \<in> {None, LastDownloadError (Updates (the (regState reg)))})) \<and>
    (ctx_Done net (requestNo reg) \<longrightarrow> fetchFile lib net res r (Suc tries) reg = (reg, None))"
proof -
  obtain b where b: "Versions res' = drop b (Versions res)" "2 < b" "b < length (Versions res)"
    "files reg' = fold (purge_version lib reg res) (Versions res') (files reg)"
    "\<forall>r. ActiveVersion res = Some r \<or> SelectedVersion res = Some r \<longrightarrow> r \<notin> set (Versions res')"
    using purge_drops_required[OF assms(2-4)] by blast
  have same: "verStore res' = verStore res" "ActiveVersion res' = ActiveVersion res" "SelectedVersion res' = SelectedVersion res"
    "storagePath reg res' = storagePath reg res"
    using assms(3) by (auto simp: Resource_Purge_def storagePath_def versionedPath_def fun_eq_iff Let_def split: if_splits)
  have "files reg' (storagePath reg res' r) = None" if "r \<in> set (Versions res')" "Available (verStore res' r)" for r
    using purge_all(2)[OF assms(1), of r "Versions res'"] that same b(4) by simp
  then show ?thesis
    using purge_subset[OF _ b(1-3)] assms(2) b(5) same GetSelectedVersions_panics[of order reg]
      DownloadUpdates_silent[of lib net t order manual reg reg2 err] fetch_after_done[of net reg lib res r tries]
    by (simp add: resource_ok_def)
qed

subsection \<open>Only verified data\<close>


subsection \<open>A sample registry\<close>

text \<open>Versions are numbers in unary notation, sorted by insertion; signatures are the signed bytes.\<close>

fun sample_insert :: "(vref \<Rightarrow> vref \<Rightarrow> bool) \<Rightarrow> vref \<Rightarrow> vref list \<Rightarrow> vref list" where
  "sample_insert lt x [] = [x]"
| "sample_insert lt x (y # ys) = (if lt y x then y # sample_insert lt x ys else x # y # ys)"

definition sample_upd_lib :: "nat upd_lib" where
  "sample_upd_lib = \<lparr>NewVersion = (\<lambda>s. Inr (if s = ''0'' then 0 else length s)), sv_String = (\<lambda>n. replicate n CHR ''1''),
     sv_Prerelease = (\<lambda>_. []), sv_GreaterThan = (>), sv_Equal = (=),
     sort_Sort = (\<lambda>lt vs. foldr (sample_insert lt) vs []), sigExtension = ''.sig'', remove_fails = (\<lambda>_. False)\<rparr>"

lemma sample_insert_set: "mset (sample_insert lt x ys) = add_mset x (mset ys)"
  by (induction ys) auto

lemma sample_insert_sorted:
  assumes "sorted_wrt (\<lambda>a b. f b \<le> (f a :: nat)) ys" "\<And>a b. lt a b = (f b < f a)"
  shows "sorted_wrt (\<lambda>a b. f b \<le> f a) (sample_insert lt x ys)"
  using assms
proof (induction ys)
  case (Cons y ys)
  have "set (sample_insert g x ys) = insert x (set ys)" for g
    using sample_insert_set[of g x ys] by (metis set_mset_mset set_mset_add_mset_insert)
  then show ?case using Cons by auto
qed simp

lemma sample_good_sort: "good_sort sample_upd_lib"
proof -
  have "sorts sample_upd_lib res" for res
  proof -
    let ?lt = "version_less sample_upd_lib res" and ?f = "\<lambda>r. semVer (verStore res r)"
    have lt: "?lt a b = (?f b < ?f a)" for a b by (simp add: version_less_def sample_upd_lib_def)
    have "mset (foldr (sample_insert ?lt) vs []) = mset vs \<and> sorted_wrt (\<lambda>a b. ?f b \<le> ?f a) (foldr (sample_insert ?lt) vs [])" for vs
      by (induction vs) (auto simp: sample_insert_set intro: sample_insert_sorted[OF _ lt])
    moreover have "sort_Sort sample_upd_lib lt = (\<lambda>vs. foldr (sample_insert lt) vs [])" for lt by (simp add: sample_upd_lib_def)
    ultimately show ?thesis by (simp add: sorts_def Let_def lt not_less)
  qed
  then show ?thesis by (simp add: good_sort_def)
qed

definition sample_net :: "(bytes, bytes) upd_net" where
  "sample_net = \<lparr>url_join = (\<lambda>a b. Inr (a @ b)), http_Do = (\<lambda>_ _. Inr \<lparr>StatusCode = 200, ContentLength = 1, respBody = [7], respErr = None\<rparr>),
     ctx_Done = (\<lambda>_. True), ensure_fails = (\<lambda>_. False), temp_err = (\<lambda>_. None), file_write_err = (\<lambda>_. None),
     ParseSigFile = (\<lambda>b. ([b], None)), VerifyFileData = (\<lambda>s _ _. Inr s), hash_Equal = (=), hash_Matches = (=),
     VerifyFile = (\<lambda>_ _ _ _. None)\<rparr>"

definition sample_index_json :: index_json where
  "sample_index_json = \<lparr>json_index = (\<lambda>_. Inr \<lparr>ifChannel = ''stable'', Published = 1, Releases = [(''tool'', ''11'')]\<rparr>),
     json_releases = (\<lambda>_. Inr [])\<rparr>"

definition sample_options :: VerificationOptions where
  "sample_options = \<lparr>TrustStore = Some 0, DownloadPolicy = SignaturePolicyRequire, DiskLoadPolicy = SignaturePolicyRequire\<rparr>"

definition empty_registry :: "nat ResourceRegistry" where
  "empty_registry = \<lparr>regName = ''updater'', storageDir = ''/data'', tmpDir = ''/data/tmp'', indexes = [0],
     indexStore = (\<lambda>_. \<lparr>iPath = ''stable.json'', Channel = ''stable'', iPreRelease = False, AutoDownload = True, LastRelease = 0\<rparr>),
     nextIndex = 1, regState = Some \<lparr>stateID = StateReady, Details = None, Updates = empty_updates\<rparr>, resources = Map.empty,
     UpdateURLs = [''https://a/''], UserAgent = [], MandatoryUpdates = [], AutoUnpack = [],
     Verification = Some [([], Some sample_options)], UsePreReleases = False, DevMode = False, regOnline = True,
     files = Map.empty, notifiers = (\<lambda>_. False), nextNotifier = 0, stateNotifications = [], requestNo = 0\<rparr>"

text \<open>Two versions are found on disk; the newer one is selected.\<close>

definition sample_upd_registry :: "nat ResourceRegistry" where
  "sample_upd_registry = fst (AddResources sample_upd_lib [(''tool'', ''1''), (''tool'', ''11'')] None True False False empty_registry)"

definition sample_tool :: "nat Resource" where
  "sample_tool = the (resources sample_upd_registry ''tool'')"

lemma sample_upd_reachable: "reachable_registry sample_upd_lib sample_net sample_index_json sample_upd_registry"
  unfolding sample_upd_registry_def
  by (rule reachable_registry.step[OF _ registry_step.add], rule reachable_registry.start) (simp add: empty_registry_def)

lemma sample_tool_resource: "resources sample_upd_registry ''tool'' = Some sample_tool" "dom (resources sample_upd_registry) = {''tool''}"
  by (simp_all add: sample_tool_def sample_upd_registry_def AddResources_def addResource_def upd_resource_def Let_def
      case_prod_unfold empty_registry_def)

lemma sample_tool_versions: "Versions sample_tool = [0, 1]"
  by code_simp

theorem selection_follows_rules_witness:
  "\<exists>res' s. resources (SelectVersions sample_upd_lib [''tool''] sample_upd_registry) ''tool'' = Some res' \<and>
    SelectedVersion res' = Some s \<and> s \<in> {0, 1} \<and> verStore res' = verStore sample_tool \<and>
    selection_rules sample_upd_lib sample_upd_registry sample_tool s"
  using selection_follows_rules[OF sample_good_sort sample_upd_reachable _ _ sample_tool_resource(1), of "[''tool'']"]
    sample_tool_resource(2) by (simp add: sample_tool_versions)

text \<open>Six available releases, of which the newest is active and selected.\<close>

definition sample_purge :: "nat Resource" where
  "sample_purge = \<lparr>Identifier = ''tool'', Versions = [0, 1, 2, 3, 4, 5],
     verStore = (\<lambda>n. \<lparr>VersionNumber = replicate (9 - n) CHR ''1'', semVer = 9 - n, Available = True, SigAvailable = False,
                      CurrentRelease = (n = 0), PreRelease = False, Blacklisted = False\<rparr>),
     nextVer = 6, ActiveVersion = Some 0, SelectedVersion = Some 0, resVerification = Some sample_options,
     resIndex = Some 0, resNotifier = None\<rparr>"

lemma sample_purge_ok: "resource_ok sample_purge"
  by (simp add: sample_purge_def resource_ok_def current_unique_def)

lemma sample_purge_versions: "Versions (snd (Resource_Purge sample_upd_lib 0 empty_registry sample_purge)) = [3, 4, 5]"
  by code_simp

theorem updater_departures_witness:
  "(let (reg', res') = Resource_Purge sample_upd_lib 0 empty_registry sample_purge in
    Versions res' = [3, 4, 5] \<and> ActiveVersion res' = Some 0 \<and> Available (verStore res' 3) \<and>
    files reg' (storagePath empty_registry res' 3) = None) \<and>
   (\<exists>msg. GetSelectedVersions [''tool''] empty_registry = Inl (GoPanic msg)) \<and>
   (case snd (DownloadUpdates sample_upd_lib sample_net 0 [''tool''] True empty_registry) of Some e \<Rightarrow> panics e | None \<Rightarrow> True) \<and>
   fetchFile sample_upd_lib sample_net sample_purge 0 1 empty_registry = (empty_registry, None)"
proof -
  obtain reg' res' where p: "Resource_Purge sample_upd_lib 0 empty_registry sample_purge = (reg', res')" by fastforce
  obtain reg2 err where d: "DownloadUpdates sample_upd_lib sample_net 0 [''tool''] True empty_registry = (reg2, err)" by fastforce
  have vs: "Versions res' = [3, 4, 5]" using sample_purge_versions p by simp
  have sample: "\<not> remove_fails sample_upd_lib path" "ctx_Done sample_net n" "\<not> ensure_fails sample_net path" for path n
    by (simp_all add: sample_upd_lib_def sample_net_def)
  have res': "ActiveVersion res' = Some 0" "verStore res' = verStore sample_purge"
    using p by (auto simp: Resource_Purge_def sample_purge_def Let_def split: if_splits)
  have "Versions res' \<noteq> Versions sample_purge" using vs by (simp add: sample_purge_def)
  from updater_departures[OF sample(1) sample_purge_ok p this, of "[''tool'']" sample_net 0 True reg2 err 0 0] d vs res' sample
  show ?thesis unfolding p d by (auto simp: sample_purge_def split: option.splits)
qed

text \<open>A file that is downloaded and an index, both signed.\<close>

lemma sample_fetch: "snd (fetchFile sample_upd_lib sample_net sample_purge 0 0 empty_registry) = None"
  by code_simp

lemma sample_download: "snd (downloadIndex sample_upd_lib sample_net sample_index_json 2 0 empty_registry) = None"
  by code_simp


end
