(* ===== verification/Api_Auth.thy ===== *)
theory Api_Auth
  imports Go_Paths
begin

section \<open>API: authentication\<close>

text \<open>
  Permissions, API keys, sessions and the authentication of a request, \<^verbatim>\<open>api/authentication.go\<close> and
  \<^verbatim>\<open>api/auth_wrapper.go\<close>. A permission is an \<open>int8\<close> that is only compared, here an \<open>int\<close>. The state of the
  package is a record; what \<open>net/url\<close>, \<open>time.Parse\<close>, \<open>encoding/base64\<close> and the random number
  generator return are parameters, collected in \<open>api_lib\<close>. Bodies and headers are
  strings, which in Go are bytes. The current time is an argument.
\<close>

subsection \<open>Permissions\<close>

type_synonym permission = int
type_synonym instant = int

definition PermNotFound :: permission where "PermNotFound = - 2"
definition Dynamic :: permission where "Dynamic = - 1"
definition NotSupported :: permission where "NotSupported = 0"
definition PermitAnyone :: permission where "PermitAnyone = 1"
definition PermitUser :: permission where "PermitUser = 2"
definition PermitAdmin :: permission where "PermitAdmin = 3"
definition PermitSelf :: permission where "PermitSelf = 4"

lemmas permission_defs = PermNotFound_def Dynamic_def NotSupported_def PermitAnyone_def PermitUser_def PermitAdmin_def
  PermitSelf_def

definition permission_String :: "permission \<Rightarrow> string" where
  "permission_String p =
     (if p = NotSupported then ''NotSupported'' else if p = Dynamic then ''Dynamic''
      else if p = PermitAnyone then ''PermitAnyone'' else if p = PermitUser then ''PermitUser''
      else if p = PermitAdmin then ''PermitAdmin'' else if p = PermitSelf then ''PermitSelf''
      else if p = PermNotFound then ''NotFound'' else ''Unknown'')"

definition Role :: "permission \<Rightarrow> string" where
  "Role p =
     (if p = PermitAnyone then ''Anyone'' else if p = PermitUser then ''User''
      else if p = PermitAdmin then ''Admin'' else if p = PermitSelf then ''Self'' else ''Invalid'')"

definition parseAPIPermission :: "string \<Rightarrow> permission res" where
  "parseAPIPermission s =
     (let l = ToLower s in
      if l = [] \<or> l = ''anyone'' then Inr PermitAnyone
      else if l = ''user'' then Inr PermitUser
      else if l = ''admin'' then Inr PermitAdmin
      else Inl (ErrNew (''invalid permission: '' @ s)))"

subsection \<open>Requests, responses and the state\<close>

record request =
  Method :: string
  RemoteAddr :: string
  Host :: string
  URLPath :: string
  Header :: "string \<Rightarrow> string"
  Cookie :: "string \<Rightarrow> string option"
  ReqLength :: int
  ReqBody :: "string res"

record response =
  wHeader :: "string \<rightharpoonup> string"
  wStatus :: int
  wBody :: string

definition new_response :: response where
  "new_response = \<lparr>wHeader = Map.empty, wStatus = 0, wBody = []\<rparr>"

text \<open>\<open>w.WriteHeader\<close> has an effect once; \<open>http.Error\<close> writes a text with a status.\<close>

definition set_header :: "string \<Rightarrow> string \<Rightarrow> response \<Rightarrow> response" where
  "set_header k v w = w\<lparr>wHeader := (wHeader w)(k \<mapsto> v)\<rparr>"

definition WriteHeader :: "int \<Rightarrow> response \<Rightarrow> response" where
  "WriteHeader code w = (if wStatus w = 0 then w\<lparr>wStatus := code\<rparr> else w)"

definition w_Write :: "string \<Rightarrow> response \<Rightarrow> response" where
  "w_Write data w = (WriteHeader 200 w)\<lparr>wBody := wBody w @ data\<rparr>"

definition http_Error :: "string \<Rightarrow> int \<Rightarrow> response \<Rightarrow> response" where
  "http_Error msg code w =
     w_Write (msg @ [CHR 0x0A]) (WriteHeader code
       (set_header ''X-Content-Type-Options'' ''nosniff'' (set_header ''Content-Type'' ''text/plain; charset=utf-8'' w)))"

record AuthToken =
  tRead :: permission
  tWrite :: permission
  ValidUntil :: "instant option"

record session =
  sToken :: AuthToken
  sValidUntil :: instant

record url =
  uScheme :: string
  uHost :: string
  uHostname :: string
  uPath :: string
  uQuery :: "string \<Rightarrow> string"

record api_lib =
  url_Parse :: "string \<Rightarrow> url res"
  time_Parse :: "string \<Rightarrow> instant res"
  base64_Decode :: "string \<Rightarrow> string res"
  session_secret :: "nat \<Rightarrow> string res"

type_synonym authenticator = "request \<Rightarrow> AuthToken option res"

record api_state =
  apiKeys :: "string \<rightharpoonup> AuthToken"
  authFnSet :: bool
  authFn :: "authenticator option"
  sessions :: "string \<rightharpoonup> session"
  nextSecret :: nat
  apiOnline :: bool
  devMode :: bool
  configuredAPIKeys :: "string list"
  keyCleanup :: "string list option"

definition sessionCookieName :: string where "sessionCookieName = ''Portmaster-API-Token''"
definition sessionCookieTTL :: instant where "sessionCookieTTL = 5 * 60 * 1000000000"
definition endpointBridgeRemoteAddress :: string where "endpointBridgeRemoteAddress = ''websocket-bridge''"
definition dbCompatibilityPermission :: permission where "dbCompatibilityPermission = PermitAdmin"

definition ErrAPIAccessDeniedMessage :: goerr where "ErrAPIAccessDeniedMessage = ErrNew []"

definition ErrAuthenticationAlreadySet :: goerr where
  "ErrAuthenticationAlreadySet = ErrNew ''the authentication function has already been set''"

definition ErrAuthenticationImmutable :: goerr where
  "ErrAuthenticationImmutable = ErrNew ''the authentication function can only be set before the api has started''"

definition SetAuthenticator :: "authenticator option \<Rightarrow> api_state \<Rightarrow> api_state \<times> goerr option" where
  "SetAuthenticator fn a =
     (if apiOnline a then (a, Some ErrAuthenticationImmutable)
      else if authFnSet a then (a, Some ErrAuthenticationAlreadySet)
      else (a\<lparr>authFnSet := True, authFn := fn\<rparr>, None))"

subsection \<open>Sessions\<close>

definition Expired :: "instant \<Rightarrow> session \<Rightarrow> bool" where
  "Expired now_time sess \<longleftrightarrow> now_time > sValidUntil sess"

definition session_Refresh :: "instant \<Rightarrow> instant \<Rightarrow> session \<Rightarrow> session" where
  "session_Refresh now_time ttl sess = sess\<lparr>sValidUntil := now_time + ttl\<rparr>"

definition checkSessionCookie :: "instant \<Rightarrow> request \<Rightarrow> api_state \<Rightarrow> api_state \<times> AuthToken option" where
  "checkSessionCookie now_time r a =
     (case Cookie r sessionCookieName of
        None \<Rightarrow> (a, None)
      | Some c \<Rightarrow>
          (case sessions a c of
             None \<Rightarrow> (a, None)
           | Some sess \<Rightarrow>
               if Expired now_time sess then (a, None)
               else (a\<lparr>sessions := (sessions a)(c \<mapsto> session_Refresh now_time sessionCookieTTL sess)\<rparr>, Some (sToken sess))))"

text \<open>\<open>createSession\<close>: the secrets that the generator returns are numbered.\<close>

definition createSession ::
  "api_lib \<Rightarrow> instant \<Rightarrow> AuthToken \<Rightarrow> response \<Rightarrow> api_state \<Rightarrow> (api_state \<times> response) \<times> goerr option" where
  "createSession lib now_time token w a =
     (case session_secret lib (nextSecret a) of
        Inl err \<Rightarrow> ((a\<lparr>nextSecret := Suc (nextSecret a)\<rparr>, w), Some err)
      | Inr sessionKey \<Rightarrow>
          ((a\<lparr>nextSecret := Suc (nextSecret a),
              sessions := (sessions a)(sessionKey \<mapsto> session_Refresh now_time sessionCookieTTL \<lparr>sToken = token, sValidUntil = 0\<rparr>)\<rparr>,
            set_header ''Set-Cookie''
              (sessionCookieName @ ''='' @ sessionKey @ ''; Path=/; HttpOnly; SameSite=Strict'') w), None))"

definition cleanSessions :: "instant \<Rightarrow> api_state \<Rightarrow> api_state" where
  "cleanSessions now_time a =
     a\<lparr>sessions := (\<lambda>k. case sessions a k of Some s \<Rightarrow> if Expired now_time s then None else Some s | None \<Rightarrow> None)\<rparr>"

definition deleteSession :: "string \<Rightarrow> api_state \<Rightarrow> api_state" where
  "deleteSession sessionKey a = a\<lparr>sessions := (sessions a)(sessionKey := None)\<rparr>"

subsection \<open>API keys\<close>

text \<open>\<open>r.BasicAuth()\<close>; the header is known to start with \<open>Basic\<close> and a space.\<close>

definition BasicAuth :: "api_lib \<Rightarrow> string \<Rightarrow> string \<times> string" where
  "BasicAuth lib auth =
     (case base64_Decode lib (drop 6 auth) of
        Inl _ \<Rightarrow> ([], [])
      | Inr cs \<Rightarrow> (case Cut (CHR '':'') cs of (user, pass, ok) \<Rightarrow> if ok then (user, pass) else ([], [])))"

text \<open>The argument \<open>key[:4]\<close> of the log call is evaluated for every unknown key.\<close>

definition checkAPIKey :: "api_lib \<Rightarrow> instant \<Rightarrow> request \<Rightarrow> api_state \<Rightarrow> AuthToken option res" where
  "checkAPIKey lib now_time r a =
     (let key = Header r ''Authorization'';
          parsed = (if HasPrefix key ''Bearer '' then Some (TrimPrefix key ''Bearer '')
                    else if HasPrefix key ''Basic '' then (case BasicAuth lib key of (user, pass) \<Rightarrow> Some (user @ pass))
                    else None) in
      if key = [] then Inr None
      else case parsed of
             None \<Rightarrow> Inr None
           | Some k \<Rightarrow>
               (case apiKeys a k of
                  None \<Rightarrow> if length k < 4 then Inl slice_panic else Inr None
                | Some token \<Rightarrow>
                    (case ValidUntil token of
                       Some t \<Rightarrow> if now_time > t then Inr None else Inr (Some token)
                     | None \<Rightarrow> Inr (Some token))))"

text \<open>One configured key: a token to be stored under a path, or what becomes of the key otherwise.\<close>

datatype key_result = KeyInvalid | KeyExpired | KeyToken string AuthToken

definition parse_key :: "api_lib \<Rightarrow> instant \<Rightarrow> string \<Rightarrow> key_result" where
  "parse_key lib now_time key =
     (case url_Parse lib key of
        Inl _ \<Rightarrow> KeyInvalid
      | Inr u \<Rightarrow>
          if uPath u = [] then KeyInvalid
          else case (parseAPIPermission (uQuery u ''read''), parseAPIPermission (uQuery u ''write'')) of
                 (Inr readPermission, Inr writePermission) \<Rightarrow>
                   (let token = \<lparr>tRead = readPermission, tWrite = writePermission, ValidUntil = None\<rparr>;
                        expireStr = uQuery u ''expires'' in
                    if expireStr = [] then KeyToken (uPath u) token
                    else case time_Parse lib expireStr of
                           Inl _ \<Rightarrow> KeyInvalid
                         | Inr t \<Rightarrow> if now_time > t then KeyExpired
                                    else KeyToken (uPath u) (token\<lparr>ValidUntil := Some t\<rparr>))
               | _ \<Rightarrow> KeyInvalid)"

text \<open>The loop over the configured keys: the map, whether a key has expired, and the valid keys.\<close>

fun load_keys ::
  "api_lib \<Rightarrow> instant \<Rightarrow> string list \<Rightarrow> (string \<rightharpoonup> AuthToken) \<Rightarrow> bool \<Rightarrow> string list \<Rightarrow>
   (string \<rightharpoonup> AuthToken) \<times> bool \<times> string list" where
  "load_keys lib now_time [] ks hasExpiredKeys validAPIKeys = (ks, hasExpiredKeys, validAPIKeys)"
| "load_keys lib now_time (key # keys) ks hasExpiredKeys validAPIKeys =
     (case parse_key lib now_time key of
        KeyInvalid \<Rightarrow> load_keys lib now_time keys ks hasExpiredKeys validAPIKeys
      | KeyExpired \<Rightarrow> load_keys lib now_time keys ks True validAPIKeys
      | KeyToken path token \<Rightarrow> load_keys lib now_time keys (ks(path \<mapsto> token)) hasExpiredKeys (validAPIKeys @ [key]))"

text \<open>\<open>updateAPIKeys\<close>; the micro task that removes expired keys from the setting is scheduled in \<open>keyCleanup\<close>.\<close>

definition updateAPIKeys :: "api_lib \<Rightarrow> instant \<Rightarrow> api_state \<Rightarrow> api_state" where
  "updateAPIKeys lib now_time a =
     (case load_keys lib now_time (configuredAPIKeys a) Map.empty False [] of
        (ks, hasExpiredKeys, validAPIKeys) \<Rightarrow>
          a\<lparr>apiKeys := ks, keyCleanup := (if hasExpiredKeys then Some validAPIKeys else keyCleanup a)\<rparr>)"

subsection \<open>Authenticating a request\<close>

definition token_of :: "permission \<Rightarrow> AuthToken" where
  "token_of p = \<lparr>tRead = p, tWrite = p, ValidUntil = None\<rparr>"

text \<open>\<open>checkAuth\<close> returns the token, if any, and whether the request was handled; a panic is an error.\<close>

definition checkAuth ::
  "api_lib \<Rightarrow> instant \<Rightarrow> request \<Rightarrow> bool \<Rightarrow> response \<Rightarrow> api_state \<Rightarrow> (api_state \<times> response) \<times> (AuthToken option \<times> bool) res" where
  "checkAuth lib now_time r authRequired w a =
     (if devMode a then ((a, w), Inr (Some (token_of PermitSelf), False))
      else if RemoteAddr r = endpointBridgeRemoteAddress
      then ((a, w), Inr (Some (token_of dbCompatibilityPermission), False))
      else case checkAPIKey lib now_time r a of
        Inl panic \<Rightarrow> ((a, w), Inl panic)
      | Inr (Some token) \<Rightarrow> ((a, w), Inr (Some token, False))
      | Inr None \<Rightarrow>
          (case checkSessionCookie now_time r a of
             (a1, Some token) \<Rightarrow> ((a1, w), Inr (Some token, False))
           | (a1, None) \<Rightarrow>
               if \<not> authFnSet a1 then ((a1, w), Inr (None, False))
               else case authFn a1 of
                 None \<Rightarrow> ((a1, w), Inl (GoPanic ''invalid memory address or nil pointer dereference''))
               | Some fn \<Rightarrow>
                   (case fn r of
                      Inl err \<Rightarrow>
                        if \<not> errors_is err ErrAPIAccessDeniedMessage
                        then ((a1, http_Error ''Internal server error during authentication.'' 500 w), Inr (None, True))
                        else if authRequired then ((a1, http_Error (err_text err) 403 w), Inr (None, True))
                        else ((a1, w), Inr (None, False))
                    | Inr None \<Rightarrow> ((a1, w), Inr (None, False))
                    | Inr (Some token) \<Rightarrow> (fst (createSession lib now_time token w a1), Inr (Some token, False)))))"

text \<open>\<open>authenticateRequest\<close>, for the permission the target handler requires. None means that the request was
  answered.\<close>

definition authenticateRequest ::
  "api_lib \<Rightarrow> instant \<Rightarrow> request \<Rightarrow> permission \<Rightarrow> bool \<Rightarrow> response \<Rightarrow> api_state \<Rightarrow> (api_state \<times> response) \<times> AuthToken option res" where
  "authenticateRequest lib now_time r required readMethod w a =
     (if required = PermNotFound then ((a, http_Error ''Not found.'' 404 w), Inr None)
      else if required = NotSupported then ((a, http_Error ''Method not allowed.'' 405 w), Inr None)
      else if required = PermitAnyone then ((a, w), Inr (Some (token_of PermitAnyone)))
      else
        (let requiredPermission = (if required = Dynamic then PermitAnyone else required) in
         if requiredPermission < PermitAnyone \<or> requiredPermission > PermitSelf
         then ((a, http_Error ''Internal server error during authentication.'' 500 w), Inr None)
         else case checkAuth lib now_time r (requiredPermission > PermitAnyone) w a of
           (st, Inl panic) \<Rightarrow> (st, Inl panic)
         | (st, Inr (_, True)) \<Rightarrow> (st, Inr None)
         | ((a1, w1), Inr (found, False)) \<Rightarrow>
             (let token = (case found of None \<Rightarrow> token_of PermitAnyone | Some t \<Rightarrow> t);
                  requestPermission = (if readMethod then tRead token else tWrite token) in
              if requestPermission < PermitAnyone \<or> requestPermission > PermitSelf
              then ((a1, http_Error ''Internal server error during authentication.'' 500 w1), Inr None)
              else if requestPermission < requiredPermission
              then if tRead token = PermitAnyone \<and> tWrite token = PermitAnyone
                   then ((a1, http_Error ''Authorization required.'' 401
                           (set_header ''WWW-Authenticate'' ''Bearer realm=\"Portmaster API\" domain=\"/\"'' w1)), Inr None)
                   else ((a1, http_Error ''Insufficient permissions.'' 403 w1), Inr None)
              else ((a1, w1), Inr (Some \<lparr>tRead = tRead token, tWrite = tWrite token, ValidUntil = None\<rparr>)))))"

definition getEffectiveMethod :: "request \<Rightarrow> (string \<times> bool) option" where
  "getEffectiveMethod r =
     (let method = (if Method r = ''OPTIONS'' then Header r ''Access-Control-Request-Method'' else Method r) in
      if Method r = ''OPTIONS'' \<and> method = [] then None
      else if method = ''GET'' \<or> method = ''HEAD'' then Some (''GET'', True)
      else if method \<in> {''POST'', ''PUT'', ''DELETE''} then Some (method, False)
      else None)"

end
