(* ===== verification/Api_Router.thy ===== *)
theory Api_Router
  imports Api_Auth Dsd "HOL-Library.List_Lexorder" "HOL-Library.Char_ord"
begin

section \<open>API: endpoints, router and bridge\<close>

text \<open>
  The endpoints of \<^verbatim>\<open>api/endpoints.go\<close>, the main handler of \<^verbatim>\<open>api/router.go\<close>, the request struct of \<^verbatim>\<open>api/request.go\<close>,
  waiting for modules (\<^verbatim>\<open>api/modules.go\<close>), the endpoints of \<^verbatim>\<open>api/endpoints_meta.go\<close> and the bridge from the database
  to the API, \<^verbatim>\<open>api/api_bridge.go\<close>. Functions of endpoints and handlers act on the state of the package
  and on the rest of the program, a type variable. The router of the package \<open>gorilla/mux\<close> is a parameter: it
  gets the registered routes and the request. An error of an endpoint function comes with the status
  of the first \<open>HTTPStatusProvider\<close> in its chain.
\<close>

subsection \<open>Requests and endpoints\<close>

record Request =
  arRequest :: request
  InputData :: string
  URLVars :: "string \<rightharpoonup> string"
  arAuthToken :: "AuthToken option"
  HandlerCache :: "string option"

record http_err =
  heErr :: goerr
  heStatus :: "int option"

text \<open>\<open>ErrorWithStatus\<close>.\<close>

definition ErrorWithStatus :: "goerr \<Rightarrow> int \<Rightarrow> http_err" where
  "ErrorWithStatus err code = \<lparr>heErr = err, heStatus = Some code\<rparr>"

type_synonym 'x world = "api_state \<times> 'x"
type_synonym ('x, 'a) endpoint_fn = "Request \<Rightarrow> 'x world \<Rightarrow> 'x world \<times> (http_err + 'a)"
type_synonym 'x serve = "Request \<Rightarrow> response \<Rightarrow> 'x world \<Rightarrow> ('x world \<times> response) \<times> goerr option"

record Parameter =
  pMethod :: string
  pField :: string
  pValue :: string
  pDescription :: string

record ('x, 'v, 'r) Endpoint =
  eName :: string
  eDescription :: string
  eParameters :: "Parameter list"
  ePath :: string
  eMimeType :: string
  eRead :: permission
  eReadMethod :: string
  eWrite :: permission
  eWriteMethod :: string
  eBelongsTo :: "nat option"
  ActionFunc :: "('x, string) endpoint_fn option"
  DataFunc :: "('x, string) endpoint_fn option"
  StructFunc :: "('x, 'v option) endpoint_fn option"
  RecordFunc :: "('x, 'r option) endpoint_fn option"
  HandlerFunc :: "'x serve option"

definition MimeTypeJSON :: string where "MimeTypeJSON = ''application/json''"
definition MimeTypeText :: string where "MimeTypeText = ''text/plain''"
definition apiV1Path :: string where "apiV1Path = ''/api/v1/''"

definition ErrInvalidEndpoint :: goerr where "ErrInvalidEndpoint = ErrNew ''endpoint is invalid''"

definition ErrAlreadyRegistered :: goerr where
  "ErrAlreadyRegistered = ErrNew ''an endpoint for this path is already registered''"

text \<open>A handler of the main router: the endpoint handler, a function wrapped with permissions, or any other,
  with the module it belongs to if it implements \<open>ModuleHandler\<close>.\<close>

datatype 'x http_handler =
    EndpointHandler
  | WrappedHandler "'x serve" permission permission
  | PlainHandler "'x serve" "nat option option"

definition WrapInAuthHandler :: "'x serve \<Rightarrow> permission \<Rightarrow> permission \<Rightarrow> 'x http_handler" where
  "WrapInAuthHandler fn rd wr = WrappedHandler fn rd wr"

record ('x, 'v, 'r) api =
  auth :: api_state
  endpoints :: "string \<rightharpoonup> ('x, 'v, 'r) Endpoint"
  endpointRoutes :: "string list"
  mainRoutes :: "(string \<times> 'x http_handler) list"
  EnableServer :: bool
  serverHandler :: bool
  rest :: 'x

text \<open>What matching a request gives: a route by its number with the variables, a wrong method, or nothing.\<close>

datatype mux_match = MuxMatch nat "string \<rightharpoonup> string" | MuxMethodMismatch | MuxNotFound

record ('v, 'r) router_lib =
  main_Match :: "string list \<Rightarrow> request \<Rightarrow> mux_match"
  endpoint_Match :: "string list \<Rightarrow> request \<Rightarrow> mux_match"
  dsd_of :: "'v dsd_lib"
  rec_Marshal :: "'r \<Rightarrow> string res"
  set_meta_json :: "'r \<Rightarrow> string \<Rightarrow> string res"
  set_key_json :: "'r \<Rightarrow> string \<Rightarrow> string res"
  module_Online :: "nat \<Rightarrow> nat \<Rightarrow> bool"
  module_OnlineSoon :: "nat \<Rightarrow> bool"
  url_with_path :: "request \<Rightarrow> string \<Rightarrow> string"

subsection \<open>Registering\<close>

definition check_methods :: "permission \<Rightarrow> string \<Rightarrow> string list \<Rightarrow> string \<Rightarrow> string \<Rightarrow> string res" where
  "check_methods p method allowed def_method msg =
     (if p = NotSupported then Inr []
      else if method \<in> set allowed then Inr method
      else if method = [] then Inr def_method
      else Inl (ErrNew msg))"

text \<open>\<open>Endpoint.check\<close> checks the endpoint and fills in defaults. The default type is that of the last function set.\<close>

definition endpoint_check :: "('x, 'v, 'r) Endpoint \<Rightarrow> ('x, 'v, 'r) Endpoint res" where
  "endpoint_check e =
     (if TrimSpace (ePath e) = [] then Inl (ErrNew ''path is missing'')
      else if eRead e < Dynamic \<or> eRead e > PermitSelf then Inl (ErrNew ''invalid read permission'')
      else if eWrite e < Dynamic \<or> eWrite e > PermitSelf then Inl (ErrNew ''invalid write permission'')
      else case check_methods (eRead e) (eReadMethod e) [''GET''] ''GET'' ''invalid read method'' of
        Inl err \<Rightarrow> Inl err
      | Inr rm \<Rightarrow>
          (case check_methods (eWrite e) (eWriteMethod e) [''POST'', ''PUT'', ''DELETE''] ''POST'' ''invalid write method'' of
             Inl err \<Rightarrow> Inl err
           | Inr wm \<Rightarrow>
               (let fns = (if ActionFunc e \<noteq> None then [MimeTypeText] else []) @
                          (if DataFunc e \<noteq> None then [MimeTypeText] else []) @
                          (if StructFunc e \<noteq> None then [MimeTypeJSON] else []) @
                          (if RecordFunc e \<noteq> None then [MimeTypeJSON] else []) @
                          (if HandlerFunc e \<noteq> None then [MimeTypeText] else []) in
                if length fns \<noteq> 1 then Inl (ErrNew ''only one function may be set'')
                else Inr (e\<lparr>eReadMethod := rm, eWriteMethod := wm,
                            eMimeType := (if eMimeType e = [] then last fns else eMimeType e)\<rparr>))))"

definition RegisterEndpoint :: "('x, 'v, 'r) Endpoint \<Rightarrow> ('x, 'v, 'r) api \<Rightarrow> ('x, 'v, 'r) api \<times> goerr option" where
  "RegisterEndpoint e a =
     (case endpoint_check e of
        Inl err \<Rightarrow> (a, Some (ErrWrap (err_text ErrInvalidEndpoint) err))
      | Inr e1 \<Rightarrow>
          if endpoints a (ePath e1) \<noteq> None then (a, Some ErrAlreadyRegistered)
          else (a\<lparr>endpoints := (endpoints a)(ePath e1 \<mapsto> e1), endpointRoutes := endpointRoutes a @ [ePath e1]\<rparr>, None))"

definition GetEndpointByPath :: "string \<Rightarrow> ('x, 'v, 'r) api \<Rightarrow> ('x, 'v, 'r) Endpoint res" where
  "GetEndpointByPath path a =
     (case endpoints a path of
        None \<Rightarrow> Inl (ErrNew (''no registered endpoint on path: '' @ path))
      | Some e \<Rightarrow> Inr e)"

definition ExportEndpoints :: "('x, 'v, 'r) api \<Rightarrow> ('x, 'v, 'r) Endpoint list" where
  "ExportEndpoints a = map (\<lambda>p. the (endpoints a p)) (sort (endpointRoutes a))"

definition RegisterHandler :: "string \<Rightarrow> 'x http_handler \<Rightarrow> ('x, 'v, 'r) api \<Rightarrow> ('x, 'v, 'r) api" where
  "RegisterHandler path handler a = a\<lparr>mainRoutes := mainRoutes a @ [(path, handler)]\<rparr>"

definition RegisterHandleFunc :: "string \<Rightarrow> 'x serve \<Rightarrow> ('x, 'v, 'r) api \<Rightarrow> ('x, 'v, 'r) api" where
  "RegisterHandleFunc path handleFunc a = RegisterHandler path (PlainHandler handleFunc None) a"

subsection \<open>Serving an endpoint\<close>

text \<open>\<open>getAPIContext\<close>: the endpoint of a request, from the cache of the request or by matching. A cached endpoint
  is one that was registered before, and endpoints are never removed.\<close>

definition getAPIContext ::
  "('v, 'r) router_lib \<Rightarrow> ('x, 'v, 'r) api \<Rightarrow> Request \<Rightarrow> ('x, 'v, 'r) Endpoint option \<times> Request" where
  "getAPIContext rl a ar =
     (case HandlerCache ar of
        Some p \<Rightarrow> (endpoints a p, ar)
      | None \<Rightarrow>
          (case endpoint_Match rl (map (\<lambda>p. apiV1Path @ p) (endpointRoutes a)) (arRequest ar) of
             MuxMatch n vars \<Rightarrow>
               (endpoints a (endpointRoutes a ! n),
                ar\<lparr>URLVars := URLVars ar ++ vars, HandlerCache := Some (endpointRoutes a ! n)\<rparr>)
           | _ \<Rightarrow> (None, ar)))"

definition required_permission ::
  "('v, 'r) router_lib \<Rightarrow> ('x, 'v, 'r) api \<Rightarrow> 'x http_handler \<Rightarrow> bool \<Rightarrow> Request \<Rightarrow> permission \<times> Request" where
  "required_permission rl a handler readMethod ar =
     (case handler of
        EndpointHandler \<Rightarrow>
          (case getAPIContext rl a ar of
             (Some e, ar1) \<Rightarrow> (if readMethod then eRead e else eWrite e, ar1)
           | (None, ar1) \<Rightarrow> (PermNotFound, ar1))
      | WrappedHandler _ rd wr \<Rightarrow> (if readMethod then rd else wr, ar)
      | PlainHandler _ _ \<Rightarrow> (PermitSelf, ar))"

text \<open>\<open>moduleIsReady\<close> polls 20 times, every half second.\<close>

definition moduleIsReady :: "('v, 'r) router_lib \<Rightarrow> nat option \<Rightarrow> bool" where
  "moduleIsReady rl m =
     (case m of
        None \<Rightarrow> True
      | Some i \<Rightarrow> module_Online rl i 0 \<or> (module_OnlineSoon rl i \<and> (\<exists>k \<in> {1..20}. module_Online rl i k)))"

definition readBody :: "request \<Rightarrow> response \<Rightarrow> response + string" where
  "readBody r w =
     (if ReqLength r > 20000000 then Inl (http_Error ''too much input data'' 413 w)
      else case ReqBody r of
             Inl err \<Rightarrow> Inl (http_Error (''failed to read body'' @ err_text err) 500 w)
           | Inr data \<Rightarrow> Inr data)"

text \<open>\<open>MarshalRecord\<close> of \<^verbatim>\<open>api/database.go\<close>: \<open>r.Marshal\<close> and the functions of \<open>sjson\<close> are parameters; the identifier of
  JSON is the byte 74.\<close>

definition MarshalRecord :: "('v, 'r) router_lib \<Rightarrow> 'r \<Rightarrow> bool \<Rightarrow> string res" where
  "MarshalRecord rl r withDSDIdentifier =
     (case rec_Marshal rl r of
        Inl err \<Rightarrow> Inl err
      | Inr jsonData \<Rightarrow>
          (case set_meta_json rl r (TrimPrefix jsonData ''J'') of
             Inl err \<Rightarrow> Inl err
           | Inr jsonData2 \<Rightarrow>
               (case set_key_json rl r jsonData2 of
                  Inl err \<Rightarrow> Inl err
                | Inr jsonData3 \<Rightarrow> Inr (if withDSDIdentifier then ''J'' @ jsonData3 else jsonData3))))"

definition text_of :: "bytes \<Rightarrow> string" where
  "text_of bs = map (\<lambda>b. char_of (unat b)) bs"

text \<open>The result of the function of an endpoint: the rest, and either an error or the data with the content type to
  set. In the case of a record function the request, not the record, is compared to nil; marshalling no record
  panics.\<close>

definition call_endpoint ::
  "('v, 'r) router_lib \<Rightarrow> ('x, 'v, 'r) Endpoint \<Rightarrow> Request \<Rightarrow> 'x world \<Rightarrow>
   'x world \<times> (http_err + string \<times> string option)" where
  "call_endpoint rl e ar x =
     (case (ActionFunc e, DataFunc e, StructFunc e, RecordFunc e) of
        (Some f, _) \<Rightarrow>
          (case f ar x of
             (x1, Inl err) \<Rightarrow> (x1, Inl err)
           | (x1, Inr msg) \<Rightarrow> (x1, Inr (if HasSuffix msg [CHR 0x0A] then msg else msg @ [CHR 0x0A], None)))
      | (None, Some f, _) \<Rightarrow>
          (case f ar x of (x1, Inl err) \<Rightarrow> (x1, Inl err) | (x1, Inr data) \<Rightarrow> (x1, Inr (data, None)))
      | (None, None, Some f, _) \<Rightarrow>
          (case f ar x of
             (x1, Inl err) \<Rightarrow> (x1, Inl err)
           | (x1, Inr None) \<Rightarrow> (x1, Inr ([], None))
           | (x1, Inr (Some v)) \<Rightarrow>
               (case MimeDump (dsd_of rl) v (Header (arRequest ar) ''Accept'') of
                  (Inl err, _, _) \<Rightarrow> (x1, Inl \<lparr>heErr = err, heStatus = None\<rparr>)
                | (Inr data, mimeType, _) \<Rightarrow> (x1, Inr (text_of data, Some mimeType))))
      | (None, None, None, Some f) \<Rightarrow>
          (case f ar x of
             (x1, Inl err) \<Rightarrow> (x1, Inl err)
           | (x1, Inr None) \<Rightarrow> (x1, Inl \<lparr>heErr = GoPanic ''invalid memory address or nil pointer dereference'', heStatus = None\<rparr>)
           | (x1, Inr (Some r)) \<Rightarrow>
               (case MarshalRecord rl r False of
                  Inl err \<Rightarrow> (x1, Inl \<lparr>heErr = err, heStatus = None\<rparr>)
                | Inr data \<Rightarrow> (x1, Inr (data, None))))
      | (None, None, None, None) \<Rightarrow> (x, Inl \<lparr>heErr = ErrNew ''missing handler'', heStatus = Some 500\<rparr>))"

text \<open>The end of \<open>Endpoint.ServeHTTP\<close>, after the function has returned.\<close>

definition write_result :: "string \<Rightarrow> string \<Rightarrow> http_err + string \<times> string option \<Rightarrow> response \<Rightarrow> response \<times> goerr option" where
  "write_result method mimeType result w =
     (case result of
        Inl err \<Rightarrow>
          (case heErr err of
             GoPanic m \<Rightarrow> (w, Some (GoPanic m))
           | _ \<Rightarrow> (http_Error (err_text (heErr err)) (case heStatus err of Some c \<Rightarrow> c | None \<Rightarrow> 500) w, None))
      | Inr (data, ctype) \<Rightarrow>
          (let w1 = (case ctype of Some t \<Rightarrow> set_header ''Content-Type'' t w | None \<Rightarrow> w) in
           if data = [] \<or> method = ''HEAD'' then (WriteHeader 204 w1, None)
           else
             (let w2 = (if wHeader w1 ''Content-Type'' \<in> {None, Some []}
                        then set_header ''Content-Type'' (mimeType @ ''; charset=utf-8'') w1 else w1);
                  w3 = set_header ''Content-Length'' (print_nat (length data)) w2 in
              (w_Write data (WriteHeader 200 w3), None))))"

definition endpoint_ServeHTTP ::
  "('v, 'r) router_lib \<Rightarrow> ('x, 'v, 'r) Endpoint \<Rightarrow> Request \<Rightarrow> response \<Rightarrow> 'x world \<Rightarrow> ('x world \<times> response) \<times> goerr option" where
  "endpoint_ServeHTTP rl e ar w x =
     (let r = arRequest ar in
      if \<not> moduleIsReady rl (eBelongsTo e)
      then ((x, http_Error ''The API endpoint is not ready yet or the its module is not enabled. Reload (F5) to try again.'' 503 w), None)
      else if Method r = ''OPTIONS'' then ((x, WriteHeader 204 w), None)
      else case getEffectiveMethod r of
        None \<Rightarrow> ((x, http_Error ''unsupported method for the actions API'' 405 w), None)
      | Some (eMethod, readMethod) \<Rightarrow>
          (case (if eMethod \<in> {''POST'', ''PUT''} then readBody r w else Inr (InputData ar)) of
             Inl w1 \<Rightarrow> ((x, w1), None)
           | Inr inputData \<Rightarrow>
               (let ar1 = ar\<lparr>InputData := inputData\<rparr> in
                if ActionFunc e = None \<and> DataFunc e = None \<and> StructFunc e = None \<and> RecordFunc e = None \<and> HandlerFunc e \<noteq> None
                then the (HandlerFunc e) ar1 w x
                else case call_endpoint rl e ar1 x of
                       (x1, result) \<Rightarrow> (case write_result (Method r) (eMimeType e) result w of (w1, p) \<Rightarrow> ((x1, w1), p)))))"

subsection \<open>The main handler\<close>

definition cleanRequestPath :: "string \<Rightarrow> string" where
  "cleanRequestPath requestPath =
     (if requestPath = [] \<or> requestPath = ''/'' then ''/''
      else
        (let p = (if HasPrefix requestPath ''/'' then requestPath else ''/'' @ requestPath) in
         if HasSuffix p ''/'' then Clean p @ ''/'' else Clean p))"

text \<open>The check of the origin of a request: None if it is denied, else whether this is a preflight check.\<close>

definition allowedDevCORSOrigins :: "string list" where
  "allowedDevCORSOrigins = [''127.0.0.1'', ''localhost'']"

definition origin_allowed :: "bool \<Rightarrow> request \<Rightarrow> url \<Rightarrow> bool" where
  "origin_allowed dev r u \<longleftrightarrow>
     uHost u = Host r \<or> uHostname u = Host r \<or> uScheme u = ''chrome-extension'' \<or>
     (dev \<and> uHostname u \<in> set allowedDevCORSOrigins)"

definition security_headers :: "bool \<Rightarrow> response \<Rightarrow> response" where
  "security_headers dev w =
     (let w1 = set_header ''X-DNS-Prefetch-Control'' ''off'' (set_header ''X-XSS-Protection'' ''1; mode=block''
                 (set_header ''X-Frame-Options'' ''deny'' (set_header ''X-Content-Type-Options'' ''nosniff''
                   (set_header ''Referrer-Policy'' ''same-origin'' w)))) in
      if dev then w1
      else set_header ''Content-Security-Policy''
             (''default-src 'self'; connect-src https://*.safing.io 'self'; '' @
              ''style-src 'self' 'unsafe-inline'; img-src 'self' data: blob:'') w1)"

definition cors_headers :: "string \<Rightarrow> response \<Rightarrow> response" where
  "cors_headers origin w =
     set_header ''Vary'' ''Origin'' (set_header ''Access-Control-Max-Age'' ''60''
       (set_header ''Access-Control-Expose-Headers'' ''*'' (set_header ''Access-Control-Allow-Credentials'' ''true''
         (set_header ''Access-Control-Allow-Headers'' ''*'' (set_header ''Access-Control-Allow-Methods'' ''*''
           (set_header ''Access-Control-Allow-Origin'' origin w))))))"

definition check_origin :: "api_lib \<Rightarrow> bool \<Rightarrow> request \<Rightarrow> response \<Rightarrow> response + response \<times> bool" where
  "check_origin lib dev r w =
     (let origin = Header r ''Origin'' in
      if origin = [] then Inr (w, False)
      else case url_Parse lib origin of
             Inl _ \<Rightarrow> Inl (http_Error ''Invalid Origin.'' 403 w)
           | Inr u \<Rightarrow>
               if \<not> origin_allowed dev r u then Inl (http_Error ''Cross-Origin Request Denied.'' 403 w)
               else Inr (cors_headers origin w,
                         Method r = ''OPTIONS'' \<and> Header r ''Access-Control-Request-Method'' \<noteq> []))"

text \<open>Calling the handler. A panic in it is reported and answered by a server error.\<close>

definition serve_handler ::
  "('v, 'r) router_lib \<Rightarrow> ('x, 'v, 'r) api \<Rightarrow> 'x http_handler \<Rightarrow> Request \<Rightarrow> response \<Rightarrow> api_state \<Rightarrow> ('x world \<times> response) \<times> goerr option" where
  "serve_handler rl a handler ar w s =
     (case handler of
        EndpointHandler \<Rightarrow>
          (case getAPIContext rl a ar of
             (None, _) \<Rightarrow> (((s, rest a), http_Error ''404 page not found'' 404 w), None)
           | (Some e, ar1) \<Rightarrow> endpoint_ServeHTTP rl e ar1 w (s, rest a))
      | WrappedHandler fn _ _ \<Rightarrow> fn ar w (s, rest a)
      | PlainHandler fn _ \<Rightarrow> fn ar w (s, rest a))"

definition recover_panic ::
  "string \<Rightarrow> ('x, 'v, 'r) api \<Rightarrow> ('x world \<times> response) \<times> goerr option \<Rightarrow> ('x, 'v, 'r) api \<times> response" where
  "recover_panic stack a result =
     (case result of
        (((s, x), w), p) \<Rightarrow>
          (a\<lparr>auth := s, rest := x\<rparr>,
           case p of
             None \<Rightarrow> w
           | Some err \<Rightarrow>
               if devMode s then http_Error (''Internal Server Error: '' @ err_text err @ [CHR 0x0A, CHR 0x0A] @ stack) 500 w
               else http_Error ''Internal Server Error.'' 500 w))"

text \<open>\<open>mainHandler.handle\<close>. The flag tells whether the handler was called; the worker that runs the request
  catches a panic during the authentication, and the server then answers without content. The text that
  \<open>http.Redirect\<close> writes for the user is left out.\<close>

definition handle ::
  "api_lib \<Rightarrow> ('v, 'r) router_lib \<Rightarrow> instant \<Rightarrow> string \<Rightarrow> request \<Rightarrow> ('x, 'v, 'r) api \<Rightarrow> (('x, 'v, 'r) api \<times> response) \<times> bool" where
  "handle lib rl now_time stack r a =
     (let w0 = security_headers (devMode (auth a)) new_response in
      case check_origin lib (devMode (auth a)) r w0 of
        Inl w1 \<Rightarrow> ((a, w1), False)
      | Inr (w1, isPreflighCheck) \<Rightarrow>
          if URLPath r \<noteq> cleanRequestPath (URLPath r)
          then ((a, WriteHeader 301 (set_header ''Location'' (url_with_path rl r (cleanRequestPath (URLPath r))) w1)), False)
          else case main_Match rl (map fst (mainRoutes a)) r of
            MuxMethodMismatch \<Rightarrow> ((a, http_Error ''Method not allowed.'' 405 w1), False)
          | MuxNotFound \<Rightarrow> ((a, http_Error ''Not found.'' 404 w1), False)
          | MuxMatch n vars \<Rightarrow>
              (let handler = snd (mainRoutes a ! n);
                   ar = \<lparr>arRequest = r, InputData = [], URLVars = vars, arAuthToken = None, HandlerCache = None\<rparr> in
               case getEffectiveMethod r of
                 None \<Rightarrow> ((a, http_Error ''Method not allowed.'' 405 w1), False)
               | Some (_, readMethod) \<Rightarrow>
                   if isPreflighCheck then ((a, WriteHeader 200 w1), False)
                   else case required_permission rl a handler readMethod ar of
                     (required, ar1) \<Rightarrow>
                       (case authenticateRequest lib now_time r required readMethod w1 (auth a) of
                          ((s, w2), Inl panic) \<Rightarrow> ((a\<lparr>auth := s\<rparr>, WriteHeader 200 w2), False)
                        | ((s, w2), Inr None) \<Rightarrow> ((a\<lparr>auth := s\<rparr>, w2), False)
                        | ((s, w2), Inr (Some token)) \<Rightarrow>
                            (case handler of
                               PlainHandler _ (Some m) \<Rightarrow>
                                 if \<not> moduleIsReady rl m
                                 then ((a\<lparr>auth := s\<rparr>, http_Error ''The API endpoint is not ready yet. Reload (F5) to try again.'' 503 w2), False)
                                 else (recover_panic stack a (serve_handler rl a handler (ar1\<lparr>arAuthToken := Some token\<rparr>) w2 s), True)
                             | _ \<Rightarrow> (recover_panic stack a (serve_handler rl a handler (ar1\<lparr>arAuthToken := Some token\<rparr>) w2 s), True)))))"

definition startServer :: "('x, 'v, 'r) api \<Rightarrow> ('x, 'v, 'r) api" where
  "startServer a = (if \<not> EnableServer a then a else a\<lparr>serverHandler := True\<rparr>)"

subsection \<open>Endpoints for the authentication\<close>

definition TextResponse :: "string \<Rightarrow> response \<Rightarrow> response" where
  "TextResponse txt w =
     w_Write (txt @ [CHR 0x0A]) (WriteHeader 200
       (set_header ''X-Content-Type-Options'' ''nosniff'' (set_header ''Content-Type'' ''text/plain; charset=utf-8'' w)))"

definition auth_request :: "string \<Rightarrow> 'x serve" where
  "auth_request scheme ar w x =
     (case arAuthToken ar of
        None \<Rightarrow> ((x, w), Some (GoPanic ''invalid memory address or nil pointer dereference''))
      | Some token \<Rightarrow>
          if tRead token \<noteq> PermitAnyone then ((x, TextResponse ''Authenticated.'' w), None)
          else ((x, http_Error ''Authorization required.'' 401
                   (set_header ''WWW-Authenticate'' (scheme @ '' realm=\"Portmaster API\" domain=\"/\"'') w)), None))"

definition authBearer :: "'x serve" where
  "authBearer = auth_request ''Bearer''"

definition authBasic :: "'x serve" where
  "authBasic = auth_request ''Basic''"

definition authReset :: "'x serve" where
  "authReset ar w x =
     (let s = (case Cookie (arRequest ar) sessionCookieName of None \<Rightarrow> fst x | Some c \<Rightarrow> deleteSession c (fst x));
          w1 = set_header ''WWW-Authenticate'' ''None realm=\"Portmaster API\"''
                 (set_header ''Clear-Site-Data'' ''*'' (set_header ''Set-Cookie'' (sessionCookieName @ ''=; Max-Age=0'') w)) in
      (((s, snd x), http_Error ''Session deleted.'' 401 w1), None))"

text \<open>\<open>permissions\<close> returns the permissions of the request with their names; \<open>mk\<close> builds the struct.\<close>

definition permissions :: "(permission \<Rightarrow> permission \<Rightarrow> string \<Rightarrow> string \<Rightarrow> 'v) \<Rightarrow> ('x, 'v option) endpoint_fn" where
  "permissions mk ar x =
     (x, case arAuthToken ar of
           None \<Rightarrow> Inl \<lparr>heErr = ErrNew ''authentication token missing'', heStatus = None\<rparr>
         | Some t \<Rightarrow> Inr (Some (mk (tRead t) (tWrite t) (Role (tRead t)) (Role (tWrite t)))))"

definition empty_endpoint :: "('x, 'v, 'r) Endpoint" where
  "empty_endpoint = \<lparr>eName = [], eDescription = [], eParameters = [], ePath = [], eMimeType = [], eRead = NotSupported,
     eReadMethod = [], eWrite = NotSupported, eWriteMethod = [], eBelongsTo = None, ActionFunc = None, DataFunc = None,
     StructFunc = None, RecordFunc = None, HandlerFunc = None\<rparr>"

definition register_all :: "('x, 'v, 'r) Endpoint list \<Rightarrow> ('x, 'v, 'r) api \<Rightarrow> ('x, 'v, 'r) api \<times> goerr option" where
  "register_all es a =
     fold (\<lambda>e (b, err). if err \<noteq> None then (b, err) else RegisterEndpoint e b) es (a, None)"

definition meta_endpoints ::
  "('x, string) endpoint_fn \<Rightarrow> (permission \<Rightarrow> permission \<Rightarrow> string \<Rightarrow> string \<Rightarrow> 'v) \<Rightarrow> ('x, 'v, 'r) Endpoint list" where
  "meta_endpoints listEndpoints mk =
     [empty_endpoint\<lparr>ePath := ''endpoints'', eRead := PermitAnyone, eMimeType := MimeTypeJSON, DataFunc := Some listEndpoints,
        eName := ''Export API Endpoints'',
        eDescription := ''Returns a list of all registered endpoints and their metadata.''\<rparr>,
      empty_endpoint\<lparr>ePath := ''auth/permissions'', eRead := Dynamic, StructFunc := Some (permissions mk),
        eName := ''View Current Permissions'',
        eDescription := ''Returns the current permissions assigned to the request.''\<rparr>,
      empty_endpoint\<lparr>ePath := ''auth/bearer'', eRead := Dynamic, HandlerFunc := Some authBearer,
        eName := ''Request HTTP Bearer Auth'',
        eDescription := ''Returns an HTTP Bearer Auth request, if not authenticated.''\<rparr>,
      empty_endpoint\<lparr>ePath := ''auth/basic'', eRead := Dynamic, HandlerFunc := Some authBasic,
        eName := ''Request HTTP Basic Auth'',
        eDescription := ''Returns an HTTP Basic Auth request, if not authenticated.''\<rparr>,
      empty_endpoint\<lparr>ePath := ''auth/reset'', eRead := PermitAnyone, HandlerFunc := Some authReset,
        eName := ''Reset Authenticated Session'',
        eDescription := ''Resets authentication status internally and in the browser.''\<rparr>]"

definition registerMetaEndpoints ::
  "('x, string) endpoint_fn \<Rightarrow> (permission \<Rightarrow> permission \<Rightarrow> string \<Rightarrow> string \<Rightarrow> 'v) \<Rightarrow> ('x, 'v, 'r) api \<Rightarrow> ('x, 'v, 'r) api \<times> goerr option" where
  "registerMetaEndpoints listEndpoints mk = register_all (meta_endpoints listEndpoints mk)"

subsection \<open>The bridge from the database\<close>

text \<open>\<open>httptest.NewRequest\<close> panics on a method or a path that cannot be parsed.\<close>

record EndpointBridgeRequest =
  brMethod :: string
  brPath :: string
  brQuery :: "(string \<times> string) list"
  brData :: string
  brMimeType :: string

record EndpointBridgeResponse =
  bsKey :: string
  bsMimeType :: string
  bsBody :: string

record bridge_lib =
  ParseRequestURI :: "string \<Rightarrow> string res"
  with_query :: "string \<Rightarrow> (string \<times> string) list \<Rightarrow> string"
  NewRequest :: "string \<Rightarrow> string \<Rightarrow> string \<Rightarrow> request res"

definition apiDatabaseName :: string where "apiDatabaseName = ''api''"

definition bridge_request :: "bridge_lib \<Rightarrow> EndpointBridgeRequest \<Rightarrow> string \<Rightarrow> request res" where
  "bridge_request bl ebr u =
     (let method = (if brMethod ebr \<noteq> [] then brMethod ebr else if brData ebr \<noteq> [] then ''POST'' else ''GET'') in
      case NewRequest bl method (if brQuery ebr \<noteq> [] then with_query bl u (brQuery ebr) else u) (brData ebr) of
        Inl err \<Rightarrow> Inl err
      | Inr r \<Rightarrow>
          (let r1 = r\<lparr>RemoteAddr := endpointBridgeRemoteAddress\<rparr> in
           Inr (if brMimeType ebr \<noteq> [] then r1\<lparr>Header := (Header r1)(''Content-Type'' := brMimeType ebr)\<rparr> else r1)))"

definition bridge_response :: "string \<Rightarrow> response \<Rightarrow> EndpointBridgeResponse res" where
  "bridge_response path w =
     (if wStatus w = 0 \<or> wStatus w = 200
      then Inr \<lparr>bsKey = apiDatabaseName @ '':'' @ path,
                bsMimeType = (case wHeader w ''Content-Type'' of None \<Rightarrow> [] | Some t \<Rightarrow> t), bsBody = wBody w\<rparr>
      else if wStatus w = 500 then Inl (ErrNew (''bridged api call failed: '' @ wBody w))
      else Inl (ErrNew (''bridged api call returned unexpected error code '' @ print_int (wStatus w))))"

definition callAPI ::
  "bridge_lib \<Rightarrow> api_lib \<Rightarrow> ('v, 'r) router_lib \<Rightarrow> instant \<Rightarrow> string \<Rightarrow> EndpointBridgeRequest \<Rightarrow> ('x, 'v, 'r) api \<Rightarrow>
   ('x, 'v, 'r) api \<times> EndpointBridgeResponse res" where
  "callAPI bl lib rl now_time stack ebr a =
     (let requestURL = path_Join apiV1Path (brPath ebr) in
      if \<not> HasPrefix requestURL apiV1Path
      then (a, Inl (ErrNew (''bridged request for '' @ brPath ebr @ '' violates scope'')))
      else case ParseRequestURI bl requestURL of
        Inl err \<Rightarrow> (a, Inl (ErrWrap ''failed to build bridged request url'' err))
      | Inr u \<Rightarrow>
          (case bridge_request bl ebr u of
             Inl panic \<Rightarrow> (a, Inl panic)
           | Inr r \<Rightarrow>
               if \<not> serverHandler a then (a, Inl (GoPanic ''invalid memory address or nil pointer dereference''))
               else case handle lib rl now_time stack r a of
                 ((a1, w), _) \<Rightarrow> (a1, bridge_response (brPath ebr) w)))"

definition bridge_Get ::
  "bridge_lib \<Rightarrow> api_lib \<Rightarrow> ('v, 'r) router_lib \<Rightarrow> instant \<Rightarrow> string \<Rightarrow> string \<Rightarrow> ('x, 'v, 'r) api \<Rightarrow>
   ('x, 'v, 'r) api \<times> EndpointBridgeResponse res" where
  "bridge_Get bl lib rl now_time stack key a =
     (if key = [] then (a, Inl (ErrNew ''database entry not found''))
      else callAPI bl lib rl now_time stack
             \<lparr>brMethod = ''GET'', brPath = key, brQuery = [], brData = [], brMimeType = []\<rparr> a)"

text \<open>\<open>Put\<close>; the record is unwrapped into a bridge request, or is one.\<close>

definition bridge_Put ::
  "bridge_lib \<Rightarrow> api_lib \<Rightarrow> ('v, 'r) router_lib \<Rightarrow> instant \<Rightarrow> string \<Rightarrow> string \<Rightarrow> EndpointBridgeRequest res \<Rightarrow> ('x, 'v, 'r) api \<Rightarrow>
   ('x, 'v, 'r) api \<times> EndpointBridgeResponse res" where
  "bridge_Put bl lib rl now_time stack key unwrapped a =
     (if key = [] then (a, Inl (ErrNew ''database entry not found''))
      else case unwrapped of
             Inl err \<Rightarrow> (a, Inl err)
           | Inr ebr \<Rightarrow> callAPI bl lib rl now_time stack (ebr\<lparr>brPath := key\<rparr>) a)"

end
