(* ===== verification/Api_Guarantees.thy ===== *)
theory Api_Guarantees
  imports Api_Router
begin

section \<open>API: guarantees\<close>

text \<open>
  Which requests reach a handler. The state of the authentication is well formed in every state the package reaches: API
  keys grant at most administrator rights, and sessions carry tokens that the authenticator gave out. A handler
  is called only for requests that passed the check of their origin and present a credential for the
  permission it requires.
\<close>

subsection \<open>Reachable states of the authentication\<close>

definition key_token_ok :: "AuthToken \<Rightarrow> bool" where
  "key_token_ok t \<longleftrightarrow> PermitAnyone \<le> tRead t \<and> tRead t \<le> PermitAdmin \<and> PermitAnyone \<le> tWrite t \<and> tWrite t \<le> PermitAdmin"

definition keys_ok :: "(string \<rightharpoonup> AuthToken) \<Rightarrow> bool" where
  "keys_ok ks \<longleftrightarrow> ks [] = None \<and> (\<forall>t \<in> ran ks. key_token_ok t)"

text \<open>The authenticator has granted the token to some request.\<close>

definition issued :: "api_state \<Rightarrow> AuthToken \<Rightarrow> bool" where
  "issued a tok \<longleftrightarrow> authFnSet a \<and> (\<exists>fn r. authFn a = Some fn \<and> fn r = Inr (Some tok))"

definition auth_ok :: "api_state \<Rightarrow> bool" where
  "auth_ok a \<longleftrightarrow> keys_ok (apiKeys a) \<and> (\<forall>s \<in> ran (sessions a). issued a (sToken s))"

inductive auth_step :: "api_lib \<Rightarrow> api_state \<Rightarrow> api_state \<Rightarrow> bool" for lib where
  set_authenticator: "auth_step lib a (fst (SetAuthenticator fn a))"
| start: "auth_step lib a (a\<lparr>apiOnline := True\<rparr>)"
| config: "auth_step lib a (a\<lparr>devMode := dev, configuredAPIKeys := ks\<rparr>)"
| update_keys: "auth_step lib a (updateAPIKeys lib t a)"
| clean: "auth_step lib a (cleanSessions t a)"
| delete: "auth_step lib a (deleteSession c a)"
| request: "auth_step lib a (fst (fst (authenticateRequest lib t r required readMethod w a)))"

inductive reachable_auth :: "api_lib \<Rightarrow> api_state \<Rightarrow> bool" for lib where
  init: "apiKeys a = Map.empty \<Longrightarrow> sessions a = Map.empty \<Longrightarrow> reachable_auth lib a"
| step: "reachable_auth lib a \<Longrightarrow> auth_step lib a b \<Longrightarrow> reachable_auth lib b"

lemma parseAPIPermission_range: "parseAPIPermission s = Inr p \<Longrightarrow> PermitAnyone \<le> p \<and> p \<le> PermitAdmin"
  by (auto simp: parseAPIPermission_def permission_defs Let_def split: if_splits)

lemma parse_key_ok: "parse_key lib t key = KeyToken path token \<Longrightarrow> path \<noteq> [] \<and> key_token_ok token"
  by (auto simp: parse_key_def key_token_ok_def Let_def dest!: parseAPIPermission_range split: sum.splits if_splits)

lemma keys_ok_upd: "keys_ok ks \<Longrightarrow> path \<noteq> [] \<Longrightarrow> key_token_ok token \<Longrightarrow> keys_ok (ks(path \<mapsto> token))"
  by (auto simp: keys_ok_def ran_def)

lemma load_keys_ok: "keys_ok ks \<Longrightarrow> keys_ok (fst (load_keys lib now_time keys ks ex val))"
proof (induction keys arbitrary: ks ex val)
  case (Cons key keys)
  then show ?case
  proof (cases "parse_key lib now_time key")
    case (KeyToken path token)
    have "keys_ok (ks(path \<mapsto> token))" using keys_ok_upd[OF Cons.prems] parse_key_ok[OF KeyToken] by simp
    then show ?thesis using KeyToken Cons.IH by simp
  qed auto
qed simp

lemma updateAPIKeys_ok: "auth_ok a \<Longrightarrow> auth_ok (updateAPIKeys lib t a)"
  using load_keys_ok[of Map.empty lib t "configuredAPIKeys a" False "[]"]
  by (auto simp: auth_ok_def updateAPIKeys_def issued_def keys_ok_def[of Map.empty] split: prod.splits)

lemma auth_ok_sessions:
  assumes "auth_ok a" "apiKeys b = apiKeys a" "authFnSet b = authFnSet a" "authFn b = authFn a"
    "\<And>c s. sessions b c = Some s \<Longrightarrow> issued a (sToken s) \<or> (\<exists>s'. sessions a c = Some s' \<and> sToken s = sToken s')"
  shows "auth_ok b"
proof -
  have "issued b = issued a" by (intro ext) (simp add: issued_def assms)
  then show ?thesis using assms(1,2,5) by (fastforce simp: auth_ok_def ran_def)
qed

lemma checkSessionCookie_ok:
  assumes "auth_ok a" "checkSessionCookie t r a = (a1, token)"
  shows "auth_ok a1" "authFn a1 = authFn a" "authFnSet a1 = authFnSet a" "devMode a1 = devMode a"
proof -
  show "auth_ok a1" using assms
    by (intro auth_ok_sessions[OF assms(1)])
      (auto simp: checkSessionCookie_def session_Refresh_def split: option.splits if_splits)
qed (use assms in \<open>auto simp: checkSessionCookie_def split: option.splits if_splits\<close>)

lemma createSession_ok:
  assumes "auth_ok a" "issued a token"
  shows "auth_ok (fst (fst (createSession lib t token w a)))"
  using assms(2)
  by (intro auth_ok_sessions[OF assms(1)]) (auto simp: createSession_def session_Refresh_def split: sum.splits if_splits)

lemma checkAuth_ok:
  assumes "auth_ok a"
  shows "auth_ok (fst (fst (checkAuth lib t r req w a)))"
proof -
  obtain a1 tok where s: "checkSessionCookie t r a = (a1, tok)" by fastforce
  note ok = checkSessionCookie_ok[OF assms s]
  have c: "auth_ok (fst (fst (createSession lib t token w a1)))" if "authFn a1 = Some fn" "fn r = Inr (Some token)" "authFnSet a1" for fn token
    using that by (intro createSession_ok[OF ok(1)]) (auto simp: issued_def)
  show ?thesis using assms s ok c
    by (auto simp: checkAuth_def split: sum.splits option.splits)
qed

lemma authenticateRequest_ok:
  assumes "auth_ok a"
  shows "auth_ok (fst (fst (authenticateRequest lib t r required rd w a)))"
proof -
  obtain a1 w1 res where c: "checkAuth lib t r ((if required = Dynamic then PermitAnyone else required) > PermitAnyone) w a = ((a1, w1), res)"
    by (metis prod.collapse)
  then have "auth_ok a1" using checkAuth_ok[OF assms] by (metis fst_conv)
  then show ?thesis using assms c
    by (auto simp: authenticateRequest_def Let_def split: sum.splits bool.splits)
qed

lemma auth_step_ok: "auth_step lib a b \<Longrightarrow> auth_ok a \<Longrightarrow> auth_ok b"
proof (induction rule: auth_step.induct)
  case (set_authenticator a fn)
  then show ?case by (auto simp: auth_ok_def SetAuthenticator_def issued_def)
next
  case (clean a t)
  then show ?case by (elim auth_ok_sessions) (auto simp: cleanSessions_def split: option.splits if_splits)
next
  case (delete a c)
  then show ?case by (elim auth_ok_sessions) (auto simp: deleteSession_def split: if_splits)
qed (auto simp: updateAPIKeys_ok authenticateRequest_ok, auto elim: auth_ok_sessions)

lemma reachable_auth_ok: "reachable_auth lib a \<Longrightarrow> auth_ok a"
proof (induction rule: reachable_auth.induct)
  case (init a)
  then show ?case by (simp add: auth_ok_def keys_ok_def)
qed (rule auth_step_ok)

subsection \<open>Credentials\<close>

definition perm :: "bool \<Rightarrow> AuthToken \<Rightarrow> permission" where
  "perm rd t = (if rd then tRead t else tWrite t)"

text \<open>The key that the header of a request presents.\<close>

definition presented_key :: "api_lib \<Rightarrow> request \<Rightarrow> string option" where
  "presented_key lib r =
     (let h = Header r ''Authorization'' in
      if HasPrefix h ''Bearer '' then Some (TrimPrefix h ''Bearer '')
      else if HasPrefix h ''Basic '' then Some (fst (BasicAuth lib h) @ snd (BasicAuth lib h))
      else None)"

text \<open>The tokens a request is entitled to: that of the bridge, of the key it presents unless the key has
  expired, of a session that has not expired, or what the authenticator grants it.\<close>

inductive entitled :: "api_lib \<Rightarrow> instant \<Rightarrow> api_state \<Rightarrow> request \<Rightarrow> AuthToken \<Rightarrow> bool" for lib t a r where
  bridge: "RemoteAddr r = endpointBridgeRemoteAddress \<Longrightarrow> entitled lib t a r (token_of PermitAdmin)"
| key: "presented_key lib r = Some k \<Longrightarrow> apiKeys a k = Some tok \<Longrightarrow> pred_option (\<lambda>e. t \<le> e) (ValidUntil tok) \<Longrightarrow>
    entitled lib t a r tok"
| session: "Cookie r sessionCookieName = Some c \<Longrightarrow> sessions a c = Some s \<Longrightarrow> t \<le> sValidUntil s \<Longrightarrow>
    entitled lib t a r (sToken s)"
| authenticator: "authFnSet a \<Longrightarrow> authFn a = Some fn \<Longrightarrow> fn r = Inr (Some tok) \<Longrightarrow> entitled lib t a r tok"

lemma checkAPIKey_entitled: "checkAPIKey lib t r a = Inr (Some tok) \<Longrightarrow> entitled lib t a r tok"
proof -
  assume c: "checkAPIKey lib t r a = Inr (Some tok)"
  then obtain k where k: "presented_key lib r = Some k" "apiKeys a k = Some tok"
    by (auto simp: checkAPIKey_def presented_key_def Let_def split: if_splits option.splits prod.splits)
  then show ?thesis using c
    by (intro entitled.key[OF k])
      (auto simp: checkAPIKey_def presented_key_def Let_def split: if_splits option.splits prod.splits)
qed

lemma checkAuth_entitled:
  assumes "checkAuth lib t r req w a = (st, Inr (Some tok, handled))" "\<not> devMode a" "auth_ok a"
  shows "entitled lib t a r tok"
proof -
  obtain a1 stok where s: "checkSessionCookie t r a = (a1, stok)" by fastforce
  note frame = checkSessionCookie_ok[OF assms(3) s]
  have sess: "entitled lib t a r tok'" if "stok = Some tok'" for tok'
    using s that by (auto simp: checkSessionCookie_def Expired_def split: option.splits if_splits intro: entitled.session)
  show ?thesis using assms(1,2) s sess frame checkAPIKey_entitled[of lib t r a tok]
    by (auto simp: checkAuth_def dbCompatibilityPermission_def split: if_splits sum.splits option.splits
        intro: entitled.bridge entitled.authenticator)
qed

text \<open>What a granted access means.\<close>

lemma authenticateRequest_granted:
  assumes "authenticateRequest lib t r required rd w a = (st, Inr (Some tok))" "\<not> devMode a" "auth_ok a"
  shows "PermitAnyone \<le> perm rd tok \<and> (required = PermitAnyone \<or> required = Dynamic \<or>
    (required \<le> perm rd tok \<and> perm rd tok \<le> PermitSelf \<and> (\<exists>u. entitled lib t a r u \<and> tRead tok = tRead u \<and> tWrite tok = tWrite u)))"
proof -
  let ?req = "if required = Dynamic then PermitAnyone else required"
  obtain st1 res where c: "checkAuth lib t r (?req > PermitAnyone) w a = (st1, res)" by fastforce
  show ?thesis
  proof (cases "required = PermitAnyone")
    case True
    then show ?thesis using assms(1) by (auto simp: authenticateRequest_def permission_defs perm_def token_of_def)
  next
    case False
    then obtain found where f: "res = Inr (found, False)"
      using assms(1) c by (auto simp: authenticateRequest_def Let_def split: if_splits sum.splits prod.splits bool.splits)
    define token where "token = (case found of None \<Rightarrow> token_of PermitAnyone | Some u \<Rightarrow> u)"
    have g: "required \<noteq> NotSupported" "required \<noteq> PermNotFound" "PermitAnyone \<le> ?req" "?req \<le> perm rd token"
      "PermitAnyone \<le> perm rd token" "perm rd token \<le> PermitSelf" "tRead tok = tRead token" "tWrite tok = tWrite token"
      using assms(1) c f False
      by (auto simp: authenticateRequest_def perm_def token_def Let_def split: if_splits prod.splits)
    then have p: "perm rd tok = perm rd token" by (simp add: perm_def)
    show ?thesis
    proof (cases found)
      case None
      then show ?thesis using g p False by (auto simp: token_def perm_def token_of_def permission_defs split: if_splits)
    next
      case (Some u)
      have "entitled lib t a r u" using checkAuth_entitled[OF _ assms(2,3)] c f Some by auto
      then show ?thesis using g p Some by (auto simp: token_def)
    qed
  qed
qed

lemma entitled_self:
  assumes "entitled lib t a r u" "auth_ok a" "PermitAdmin < perm rd u"
  shows "issued a u"
  using assms
proof cases
  case bridge
  then show ?thesis using assms(3) by (simp add: perm_def token_of_def split: if_splits)
next
  case (key k)
  then have "key_token_ok u" using assms(2) by (auto simp: auth_ok_def keys_ok_def ran_def)
  then show ?thesis using assms(3) by (auto simp: key_token_ok_def perm_def split: if_splits)
next
  case (session c s)
  then show ?thesis using assms(2) by (auto simp: auth_ok_def ran_def)
qed (auto simp: issued_def)

text \<open>The permission that is required of a request, when the router has a handler for it.\<close>

definition target ::
  "('v, 'r) router_lib \<Rightarrow> ('x, 'v, 'r) api \<Rightarrow> request \<Rightarrow> ('x http_handler \<times> bool \<times> permission) option" where
  "target rl a r =
     (case (main_Match rl (map fst (mainRoutes a)) r, getEffectiveMethod r) of
        (MuxMatch n vars, Some (_, rd)) \<Rightarrow>
          (let h = snd (mainRoutes a ! n) in
           Some (h, rd, fst (required_permission rl a h rd
             \<lparr>arRequest = r, InputData = [], URLVars = vars, arAuthToken = None, HandlerCache = None\<rparr>)))
      | _ \<Rightarrow> None)"

definition origin_ok :: "api_lib \<Rightarrow> bool \<Rightarrow> request \<Rightarrow> bool" where
  "origin_ok lib dev r \<longleftrightarrow>
     Header r ''Origin'' = [] \<or> (\<exists>u. url_Parse lib (Header r ''Origin'') = Inr u \<and> origin_allowed dev r u)"

lemma check_origin_Inr: "check_origin lib dev r w = Inr x \<Longrightarrow> origin_ok lib dev r"
  by (auto simp: check_origin_def origin_ok_def Let_def split: if_splits sum.splits)

lemma handle_called:
  assumes "handle lib rl t stack r a = ((a', w), True)"
  shows "origin_ok lib (devMode (auth a)) r \<and> URLPath r = cleanRequestPath (URLPath r) \<and>
    (\<exists>h rd required tok w1 st. target rl a r = Some (h, rd, required) \<and>
       authenticateRequest lib t r required rd w1 (auth a) = (st, Inr (Some tok)))"
proof -
  obtain w1 pre where o: "check_origin lib (devMode (auth a)) r (security_headers (devMode (auth a)) new_response) = Inr (w1, pre)"
    using assms by (auto simp: handle_def Let_def split: sum.splits)
  note def = assms[unfolded handle_def Let_def o sum.case prod.case]
  have p: "URLPath r = cleanRequestPath (URLPath r)" using def by (auto split: if_splits)
  then obtain n vars where m: "main_Match rl (map fst (mainRoutes a)) r = MuxMatch n vars"
    using def by (auto split: mux_match.splits)
  obtain em rd where e: "getEffectiveMethod r = Some (em, rd)"
    using def p m by (auto split: option.splits)
  obtain required ar1 where q: "required_permission rl a (snd (mainRoutes a ! n)) rd
      \<lparr>arRequest = r, InputData = [], URLVars = vars, arAuthToken = None, HandlerCache = None\<rparr> = (required, ar1)" by fastforce
  obtain st tok where g: "authenticateRequest lib t r required rd w1 (auth a) = (st, Inr (Some tok))"
    using def p m e q by (auto split: if_splits prod.splits sum.splits option.splits)
  have "target rl a r = Some (snd (mainRoutes a ! n), rd, required)" using m e q by (simp add: target_def Let_def)
  then show ?thesis using check_origin_Inr[OF o] p g by blast
qed


subsection \<open>Valid keys are served\<close>

lemma checkAPIKey_valid:
  assumes "Header r ''Authorization'' = ''Bearer '' @ k" "apiKeys a k = Some tok" "pred_option (\<lambda>e. t \<le> e) (ValidUntil tok)"
  shows "checkAPIKey lib t r a = Inr (Some tok)"
proof -
  have "HasPrefix (''Bearer '' @ k) ''Bearer ''" "TrimPrefix (''Bearer '' @ k) ''Bearer '' = k"
    by (simp_all add: HasPrefix_def TrimPrefix_def)
  then show ?thesis using assms by (cases "ValidUntil tok") (simp_all add: checkAPIKey_def Let_def)
qed

lemma authenticateRequest_valid:
  assumes "\<not> devMode a" "RemoteAddr r \<noteq> endpointBridgeRemoteAddress" "checkAPIKey lib t r a = Inr (Some tok)"
    "auth_ok a" "required \<in> {PermitAnyone, Dynamic} \<or> (PermitUser \<le> required \<and> required \<le> perm rd tok)" "tok \<in> ran (apiKeys a)"
  shows "\<exists>tok'. authenticateRequest lib t r required rd w a = ((a, w), Inr (Some tok'))"
proof -
  have c: "checkAuth lib t r req w a = ((a, w), Inr (Some tok, False))" for req
    using assms(1-3) by (simp add: checkAuth_def)
  have "key_token_ok tok" using assms(4,6) by (auto simp: auth_ok_def keys_ok_def)
  then show ?thesis using assms(5)
    by (auto simp: authenticateRequest_def c perm_def key_token_ok_def permission_defs)
qed

definition ready :: "('v, 'r) router_lib \<Rightarrow> 'x http_handler \<Rightarrow> bool" where
  "ready rl h \<longleftrightarrow> (case h of PlainHandler _ (Some m) \<Rightarrow> moduleIsReady rl m | _ \<Rightarrow> True)"


subsection \<open>Clean paths and the bridge\<close>

definition proper_segment :: "string \<Rightarrow> bool" where
  "proper_segment s \<longleftrightarrow> s \<notin> {[], ''.'', ''..''} \<and> CHR ''/'' \<notin> set s"

lemma Split_no_sep_in: "s \<in> set (Split c p) \<Longrightarrow> c \<notin> set s"
  by (induction p arbitrary: s) (auto split: list.splits if_splits)

lemma clean_segments_proper:
  assumes "\<forall>s \<in> set acc. proper_segment s" "\<forall>s \<in> set segs. CHR ''/'' \<notin> set s"
  shows "\<forall>s \<in> set (fold (clean_segment True) segs acc). proper_segment s"
  using assms
proof (induction segs arbitrary: acc)
  case (Cons s segs)
  have "\<forall>x \<in> set (clean_segment True s acc). proper_segment x"
    using Cons.prems by (auto simp: clean_segment_def proper_segment_def dest: in_set_butlastD)
  then show ?case using Cons by simp
qed simp

lemma Clean_rooted:
  "\<exists>segs. Clean (CHR ''/'' # p) = CHR ''/'' # Join ''/'' segs \<and> (\<forall>s \<in> set segs. proper_segment s)"
proof -
  let ?segs = "fold (clean_segment True) (Split (CHR ''/'') (CHR ''/'' # p)) []"
  have "\<forall>s \<in> set ?segs. proper_segment s"
    by (rule clean_segments_proper) (auto dest: Split_no_sep_in split: if_splits)
  then show ?thesis by (intro exI[of _ ?segs]) (simp add: Clean_def Let_def)
qed

lemma Split_rooted:
  assumes "\<forall>s \<in> set segs. proper_segment s"
  shows "set (Split (CHR ''/'') (CHR ''/'' # Join ''/'' segs)) \<subseteq> insert [] (set segs)"
  using assms by (cases "segs = []") (auto simp: Split_Join proper_segment_def)

lemma path_Join_api:
  "\<forall>s \<in> set (Split (CHR ''/'') (path_Join apiV1Path p)). s \<noteq> ''..'' \<and> s \<noteq> ''.''"
proof -
  obtain q where q: "path_Join apiV1Path p = Clean (CHR ''/'' # q)"
    by (cases "p = []") (simp_all add: path_Join_def apiV1Path_def)
  obtain segs where s: "Clean (CHR ''/'' # q) = CHR ''/'' # Join ''/'' segs" "\<forall>s \<in> set segs. proper_segment s"
    using Clean_rooted by blast
  then show ?thesis unfolding q s(1) using Split_rooted[OF s(2)] by (fastforce simp: proper_segment_def)
qed

lemma bridge_granted:
  assumes "authenticateRequest lib t r required rd w a = (st, Inr (Some tok))" "\<not> devMode a"
    "RemoteAddr r = endpointBridgeRemoteAddress"
  shows "required \<le> PermitAdmin"
proof -
  have "checkAuth lib t r req w a = ((a, w), Inr (Some (token_of PermitAdmin), False))" for req
    using assms(2,3) by (simp add: checkAuth_def dbCompatibilityPermission_def)
  then show ?thesis using assms(1)
    by (auto simp: authenticateRequest_def token_of_def permission_defs Let_def split: if_splits)
qed


subsection \<open>A sample API\<close>

text \<open>One endpoint for administrators, one configured key, and requests that present it or come over the bridge.\<close>

definition sample_api_lib :: api_lib where
  "sample_api_lib = \<lparr>url_Parse = (\<lambda>s. Inr \<lparr>uScheme = [], uHost = [], uHostname = [], uPath = s,
       uQuery = (\<lambda>q. if q = ''write'' then ''admin'' else [])\<rparr>),
     time_Parse = (\<lambda>_. Inr 0), base64_Decode = (\<lambda>s. Inr s), session_secret = (\<lambda>_. Inr ''s'')\<rparr>"

definition sample_auth :: api_state where
  "sample_auth = \<lparr>apiKeys = Map.empty, authFnSet = False, authFn = None, sessions = Map.empty, nextSecret = 0, apiOnline = True,
     devMode = False, configuredAPIKeys = [''secret''], keyCleanup = None\<rparr>"

definition sample_router :: "(unit, unit) router_lib" where
  "sample_router = \<lparr>main_Match = (\<lambda>_ _. MuxMatch 0 Map.empty), endpoint_Match = (\<lambda>_ _. MuxMatch 0 Map.empty),
     dsd_of = undefined, rec_Marshal = (\<lambda>_. Inr []), set_meta_json = (\<lambda>_ s. Inr s), set_key_json = (\<lambda>_ s. Inr s),
     module_Online = (\<lambda>_ _. True), module_OnlineSoon = (\<lambda>_. True), url_with_path = (\<lambda>_ p. p)\<rparr>"

definition sample_api :: "(nat, unit, unit) api" where
  "sample_api = \<lparr>auth = updateAPIKeys sample_api_lib 0 sample_auth,
     endpoints = [''do'' \<mapsto> empty_endpoint\<lparr>ePath := ''do'', eWrite := PermitAdmin, eWriteMethod := ''POST'',
                    ActionFunc := Some (\<lambda>ar (s, n). ((s, Suc n), Inr ''done''))\<rparr>],
     endpointRoutes = [''do''], mainRoutes = [(apiV1Path, EndpointHandler)], EnableServer = True, serverHandler = True, rest = 0\<rparr>"

definition sample_request :: request where
  "sample_request = \<lparr>Method = ''POST'', RemoteAddr = ''127.0.0.1'', Host = ''127.0.0.1'', URLPath = ''/api/v1/do'',
     Header = (\<lambda>h. if h = ''Authorization'' then ''Bearer secret'' else []), Cookie = (\<lambda>_. None), ReqLength = 0, ReqBody = Inr []\<rparr>"

definition sample_bridge :: bridge_lib where
  "sample_bridge = \<lparr>ParseRequestURI = (\<lambda>s. Inr s), with_query = (\<lambda>s _. s),
     NewRequest = (\<lambda>m u d. Inr (sample_request\<lparr>Method := m, URLPath := u\<rparr>))\<rparr>"

lemma sample_api_reachable: "reachable_auth sample_api_lib (auth sample_api)"
proof -
  have "reachable_auth sample_api_lib sample_auth" by (rule reachable_auth.init) (simp_all add: sample_auth_def)
  from reachable_auth.step[OF this auth_step.update_keys] show ?thesis by (simp add: sample_api_def)
qed

lemma sample_api_dev: "\<not> devMode (auth sample_api)"
  by (simp add: sample_api_def updateAPIKeys_def sample_auth_def split: prod.splits)

lemma sample_target: "target sample_router sample_api sample_request = Some (EndpointHandler, False, PermitAdmin)"
  by (simp add: target_def sample_router_def sample_api_def sample_request_def getEffectiveMethod_def required_permission_def
      getAPIContext_def empty_endpoint_def apiV1Path_def)

lemma sample_api_key: "apiKeys (auth sample_api) ''secret'' = Some \<lparr>tRead = PermitAnyone, tWrite = PermitAdmin, ValidUntil = None\<rparr>"
  by code_simp

lemma sample_served: "snd (handle sample_api_lib sample_router 1 [] sample_request sample_api)"
  by code_simp

lemma sample_bridged:
  "snd (handle sample_api_lib sample_router 1 [] (sample_request\<lparr>RemoteAddr := endpointBridgeRemoteAddress\<rparr>) sample_api)"
  by code_simp




end
