(* ===== verification/Api_Database.thy ===== *)
theory Api_Database
  imports Api_Router Query_Guarantees
begin

section \<open>API: database access over a message channel\<close>

text \<open>
  The database API of \<^verbatim>\<open>api/database.go\<close> and the iterators of \<^verbatim>\<open>database/iterator\<close>. A client sends
  messages such as \<open>123|get|core:a\<close>; every message starts a goroutine, here a job that runs at any later time.
  A job that finishes at once is one step; a query or a subscription is a task that sends one message
  per step, while the storage fills the buffer of its iterator in steps of its own. What is sent
  is kept in order. A panic in a job ends the program, since nothing recovers it; the flag \<open>crashed\<close> records it.
  Messages are bytes; \<open>gjson\<close>, the accessors and the serialisation of records are parameters.
\<close>

subsection \<open>Iterators\<close>

record Iterator =
  Next :: "ref list"
  nextClosed :: bool
  doneClosed :: bool
  itErr :: "goerr option"

definition iterator_New :: Iterator where
  "iterator_New = \<lparr>Next = [], nextClosed = False, doneClosed = False, itErr = None\<rparr>"

text \<open>\<open>Finish\<close> closes the channels and then stores the error, in two steps.\<close>

definition Finish_close :: "Iterator \<Rightarrow> Iterator" where
  "Finish_close it = it\<lparr>nextClosed := True, doneClosed := True\<rparr>"

definition Finish_err :: "goerr option \<Rightarrow> Iterator \<Rightarrow> Iterator" where
  "Finish_err err it = it\<lparr>itErr := err\<rparr>"

definition iterator_Cancel :: "Iterator \<Rightarrow> Iterator" where
  "iterator_Cancel it = it\<lparr>doneClosed := True\<rparr>"

subsection \<open>State\<close>

definition bytes_of :: "string \<Rightarrow> bytes" where
  "bytes_of s = map of_char s"

record gjson_entry =
  geKeyExists :: bool
  geKeyIsString :: bool
  geKey :: string
  geExists :: bool
  geValue :: string

datatype job =
    JobCancel bytes
  | JobGet bytes string
  | JobQuery bytes string
  | JobSub bytes string
  | JobQsub bytes string
  | JobPut bytes string bytes bool
  | JobInsert bytes string bytes
  | JobDelete bytes string

text \<open>A query in progress: its iterator, what the storage has still to deliver and with which error it
  will end, and the subscription that follows in a \<open>qsub\<close>.\<close>

record qtask =
  qtOp :: bytes
  qtIt :: Iterator
  qtRest :: "ref list"
  qtFinish :: "goerr option option"
  qtThen :: "nat option"

text \<open>A subscription: the database it belongs to, whether \<open>processSub\<close> runs, and what was left in its feed when it
  was closed.\<close>

record 'd stask =
  stOp :: bytes
  stQuery :: "'d query_api"
  stRunning :: bool
  stLeft :: "ref list option"

record ('d, 's, 'c) dbapi =
  adb :: "('d, 's, 'c) db"
  nextRef :: ref
  nextPtr :: nat
  jobs :: "job list"
  queries :: "bytes \<rightharpoonup> nat"
  subs :: "bytes \<rightharpoonup> nat"
  qtasks :: "nat \<rightharpoonup> qtask"
  stasks :: "nat \<rightharpoonup> 'd stask"
  closing :: bool
  sent :: "bytes list"
  crashed :: "goerr option"

record ('d, 'c, 'f) dbapi_env =
  dEnv :: "('d, 'c) env"
  dRouter :: "(unit, 'd dbrec) router_lib"
  dQueries :: "'f query_lib"
  dAccessor :: "'d dbrec \<Rightarrow> 'f accessor option"
  dWrap :: "uint8 \<Rightarrow> bytes \<Rightarrow> 'd"
  gjson_ForEach :: "bytes \<Rightarrow> gjson_entry list"

definition CreateDatabaseAPI :: "('d, 'c, 'f) dbapi_env \<Rightarrow> ref \<Rightarrow> ('d, 's, 'c) db \<Rightarrow> ('d, 's, 'c) dbapi" where
  "CreateDatabaseAPI E fresh w =
     \<lparr>adb = NewInterface (dEnv E) None w, nextRef = fresh, nextPtr = 0, jobs = [], queries = Map.empty, subs = Map.empty,
      qtasks = Map.empty, stasks = Map.empty, closing = False, sent = [], crashed = None\<rparr>"

subsection \<open>Messages\<close>

definition message :: "bytes \<Rightarrow> string \<Rightarrow> string \<Rightarrow> bytes \<Rightarrow> container" where
  "message opID msgType msgOrKey data =
     (let c = Append (Append (Container.New [opID]) (bytes_of ''|'')) (bytes_of msgType);
          c1 = (if msgOrKey \<noteq> [] then Append (Append c (bytes_of ''|'')) (bytes_of msgOrKey) else c) in
      if data \<noteq> [] then Append (Append c1 (bytes_of ''|'')) data else c1)"

definition send :: "bytes \<Rightarrow> string \<Rightarrow> string \<Rightarrow> bytes \<Rightarrow> ('d, 's, 'c) dbapi \<Rightarrow> ('d, 's, 'c) dbapi" where
  "send opID msgType msgOrKey data s =
     (case CompileData (message opID msgType msgOrKey data) of
        Inr (m, _) \<Rightarrow> s\<lparr>sent := sent s @ [m]\<rparr>
      | Inl panic \<Rightarrow> s\<lparr>crashed := Some panic\<rparr>)"

definition send_error :: "bytes \<Rightarrow> goerr \<Rightarrow> ('d, 's, 'c) dbapi \<Rightarrow> ('d, 's, 'c) dbapi" where
  "send_error opID err s =
     (case err of GoPanic _ \<Rightarrow> s\<lparr>crashed := Some err\<rparr> | _ \<Rightarrow> send opID ''error'' (err_text err) [] s)"

text \<open>\<open>bytes.SplitN(msg, "|", n)\<close> for \<open>n > 0\<close>.\<close>

fun SplitN :: "nat \<Rightarrow> byte \<Rightarrow> bytes \<Rightarrow> bytes list" where
  "SplitN (Suc (Suc n)) sep s =
     (let a = takeWhile (\<lambda>c. c \<noteq> sep) s; b = dropWhile (\<lambda>c. c \<noteq> sep) s in
      if b = [] then [a] else a # SplitN (Suc n) sep (tl b))"
| "SplitN n sep s = [s]"

definition spawn :: "job \<Rightarrow> ('d, 's, 'c) dbapi \<Rightarrow> ('d, 's, 'c) dbapi" where
  "spawn j s = s\<lparr>jobs := jobs s @ [j]\<rparr>"

definition malformed :: "('d, 's, 'c) dbapi \<Rightarrow> ('d, 's, 'c) dbapi" where
  "malformed s = send [] ''error'' ''bad request: malformed message'' [] s"

definition Handle :: "bytes \<Rightarrow> ('d, 's, 'c) dbapi \<Rightarrow> ('d, 's, 'c) dbapi" where
  "Handle msg s =
     (case SplitN 3 124 msg of
        [opID, m] \<Rightarrow> if text_of m = ''cancel'' then spawn (JobCancel opID) s else malformed s
      | [opID, m, arg] \<Rightarrow>
          (let method = text_of m in
           if method = ''get'' then spawn (JobGet opID (text_of arg)) s
           else if method = ''query'' then spawn (JobQuery opID (text_of arg)) s
           else if method = ''sub'' then spawn (JobSub opID (text_of arg)) s
           else if method = ''qsub'' then spawn (JobQsub opID (text_of arg)) s
           else if method \<in> {''create'', ''update'', ''insert''}
           then (case SplitN 2 124 arg of
                   [key, data] \<Rightarrow>
                     if method = ''create'' then spawn (JobPut opID (text_of key) data True) s
                     else if method = ''update'' then spawn (JobPut opID (text_of key) data False) s
                     else spawn (JobInsert opID (text_of key) data) s
                 | _ \<Rightarrow> malformed s)
           else if method = ''delete'' then spawn (JobDelete opID (text_of arg)) s
           else send opID ''error'' ''bad request: unknown method'' [] s)
      | _ \<Rightarrow> malformed s)"

subsection \<open>Reading and writing\<close>

definition marshal :: "('d, 'c, 'f) dbapi_env \<Rightarrow> ref \<Rightarrow> ('d, 's, 'c) dbapi \<Rightarrow> bytes res" where
  "marshal E r s = (case MarshalRecord (dRouter E) (heap (adb s) r) True of Inl err \<Rightarrow> Inl err | Inr d \<Rightarrow> Inr (bytes_of d))"

definition handleGet :: "('d, 'c, 'f) dbapi_env \<Rightarrow> bytes \<Rightarrow> string \<Rightarrow> ('d, 's, 'c) dbapi \<Rightarrow> ('d, 's, 'c) dbapi" where
  "handleGet E opID key s =
     (case Get (dEnv E) key (adb s) of
        (w, Inl err) \<Rightarrow> send_error opID err (s\<lparr>adb := w\<rparr>)
      | (w, Inr r) \<Rightarrow>
          (let s1 = s\<lparr>adb := w\<rparr> in
           case marshal E r s1 of
             Inl err \<Rightarrow> send_error opID err s1
           | Inr data \<Rightarrow> send opID ''ok'' (rKey (heap w) r) data s1))"

definition new_record :: "('d, 'c, 'f) dbapi_env \<Rightarrow> string \<Rightarrow> bytes \<Rightarrow> 'd dbrec" where
  "new_record E key data =
     \<lparr>rbase = \<lparr>dbName = fst (ParseKey key), dbKey = snd (ParseKey key), bmeta = None\<rparr>, rdata = dWrap E (hd data) (tl data)\<rparr>"

definition handlePut ::
  "('d, 'c, 'f) dbapi_env \<Rightarrow> bytes \<Rightarrow> string \<Rightarrow> bytes \<Rightarrow> bool \<Rightarrow> ('d, 's, 'c) dbapi \<Rightarrow> ('d, 's, 'c) dbapi" where
  "handlePut E opID key data create s =
     (if length data < 2 then send opID ''error'' ''bad request: malformed message'' [] s
      else
        (let r = nextRef s; w = adb s; w1 = w\<lparr>heap := (heap w)(r := new_record E key data)\<rparr>;
             s1 = s\<lparr>nextRef := Suc r\<rparr> in
         case (if create then PutNew (dEnv E) r w1 else Put (dEnv E) r w1) of
           (w2, Some err) \<Rightarrow> send_error opID err (s1\<lparr>adb := w2\<rparr>)
         | (w2, None) \<Rightarrow> send opID ''success'' [] [] (s1\<lparr>adb := w2\<rparr>)))"

text \<open>The iteration over the values of an \<open>insert\<close>: each one is set on the record at once.\<close>

fun insert_loop ::
  "('d, 'c, 'f) dbapi_env \<Rightarrow> ref \<Rightarrow> gjson_entry list \<Rightarrow> ('d, 's, 'c) db \<Rightarrow> ('d, 's, 'c) db \<times> goerr option" where
  "insert_loop E r [] w = (w, None)"
| "insert_loop E r (e # es) w =
     (if \<not> geKeyExists e then (w, Some (ErrNew ''values must be in a map''))
      else if \<not> geKeyIsString e then (w, Some (ErrNew ''keys must be strings''))
      else if \<not> geExists e then (w, Some (ErrNew ''non-existent value''))
      else case accSet (dEnv E) (geKey e) (geValue e) (rdata (heap w r)) of
             Inl err \<Rightarrow> (w, Some err)
           | Inr d \<Rightarrow> insert_loop E r es (w\<lparr>heap := (heap w)(r := (heap w r)\<lparr>rdata := d\<rparr>)\<rparr>))"

definition handleInsert :: "('d, 'c, 'f) dbapi_env \<Rightarrow> bytes \<Rightarrow> string \<Rightarrow> bytes \<Rightarrow> ('d, 's, 'c) dbapi \<Rightarrow> ('d, 's, 'c) dbapi" where
  "handleInsert E opID key data s =
     (case Get (dEnv E) key (adb s) of
        (w, Inl err) \<Rightarrow> send_error opID err (s\<lparr>adb := w\<rparr>)
      | (w, Inr r) \<Rightarrow>
          (case insert_loop E r (gjson_ForEach E data) w of
             (w1, Some err) \<Rightarrow> send_error opID err (s\<lparr>adb := w1\<rparr>)
           | (w1, None) \<Rightarrow>
               if gjson_ForEach E data = [] then send opID ''error'' ''could not find any valid values'' [] (s\<lparr>adb := w1\<rparr>)
               else case Put (dEnv E) r w1 of
                      (w2, Some err) \<Rightarrow> send_error opID err (s\<lparr>adb := w2\<rparr>)
                    | (w2, None) \<Rightarrow> send opID ''success'' [] [] (s\<lparr>adb := w2\<rparr>)))"

definition handleDelete :: "('d, 'c, 'f) dbapi_env \<Rightarrow> bytes \<Rightarrow> string \<Rightarrow> ('d, 's, 'c) dbapi \<Rightarrow> ('d, 's, 'c) dbapi" where
  "handleDelete E opID key s =
     (case Interface_Delete (dEnv E) key (adb s) of
        (w, Some err) \<Rightarrow> send_error opID err (s\<lparr>adb := w\<rparr>)
      | (w, None) \<Rightarrow> send opID ''success'' [] [] (s\<lparr>adb := w\<rparr>))"

subsection \<open>Queries and subscriptions\<close>

definition parse_query :: "('d, 'c, 'f) dbapi_env \<Rightarrow> string \<Rightarrow> 'd query_api res" where
  "parse_query E txt =
     (case the (ParseQuery (dQueries E) txt) of
        Inl err \<Rightarrow> Inl err
      | Inr q \<Rightarrow> Inr (query_api_of (dQueries E) (dAccessor E) q))"

text \<open>The start of \<open>processQuery\<close>: the query is started and its iterator saved.\<close>

definition processQuery ::
  "('d, 'c, 'f) dbapi_env \<Rightarrow> bytes \<Rightarrow> 'd query_api \<Rightarrow> nat option \<Rightarrow> ('d, 's, 'c) dbapi \<Rightarrow> ('d, 's, 'c) dbapi" where
  "processQuery E opID q next_sub s =
     (case Query (dEnv E) q (adb s) of
        (w, Inl err) \<Rightarrow> send_error opID err (s\<lparr>adb := w\<rparr>)
      | (w, Inr rs) \<Rightarrow>
          (let i = nextPtr s in
           s\<lparr>adb := w, nextPtr := Suc i, queries := (queries s)(opID \<mapsto> i),
             qtasks := (qtasks s)(i \<mapsto> \<lparr>qtOp = opID, qtIt = iterator_New, qtRest = rs, qtFinish = None, qtThen = next_sub\<rparr>)\<rparr>))"

definition handleQuery :: "('d, 'c, 'f) dbapi_env \<Rightarrow> bytes \<Rightarrow> string \<Rightarrow> ('d, 's, 'c) dbapi \<Rightarrow> ('d, 's, 'c) dbapi" where
  "handleQuery E opID queryText s =
     (case parse_query E queryText of
        Inl err \<Rightarrow> send_error opID err s
      | Inr q \<Rightarrow> processQuery E opID q None s)"

text \<open>\<open>registerSub\<close>; the number is the address of the subscription and of its query.\<close>

definition registerSub ::
  "('d, 'c, 'f) dbapi_env \<Rightarrow> bytes \<Rightarrow> 'd query_api \<Rightarrow> ('d, 's, 'c) dbapi \<Rightarrow> ('d, 's, 'c) dbapi \<times> nat option" where
  "registerSub E opID q s =
     (let p = nextPtr s in
      case Subscribe (dEnv E) p p q (adb s) of
        (w, Some err) \<Rightarrow> (send_error opID err (s\<lparr>adb := w\<rparr>), None)
      | (w, None) \<Rightarrow>
          (s\<lparr>adb := w, nextPtr := Suc p,
             stasks := (stasks s)(p \<mapsto> \<lparr>stOp = opID, stQuery = q, stRunning = False, stLeft = None\<rparr>)\<rparr>, Some p))"

definition processSub :: "nat \<Rightarrow> ('d, 's, 'c) dbapi \<Rightarrow> ('d, 's, 'c) dbapi" where
  "processSub p s =
     (case stasks s p of
        None \<Rightarrow> s
      | Some st \<Rightarrow> s\<lparr>subs := (subs s)(stOp st \<mapsto> p), stasks := (stasks s)(p \<mapsto> st\<lparr>stRunning := True\<rparr>)\<rparr>)"

definition handleSub :: "('d, 'c, 'f) dbapi_env \<Rightarrow> bytes \<Rightarrow> string \<Rightarrow> ('d, 's, 'c) dbapi \<Rightarrow> ('d, 's, 'c) dbapi" where
  "handleSub E opID queryText s =
     (case parse_query E queryText of
        Inl err \<Rightarrow> send_error opID err s
      | Inr q \<Rightarrow> (case registerSub E opID q s of (s1, None) \<Rightarrow> s1 | (s1, Some p) \<Rightarrow> processSub p s1))"

definition handleQsub :: "('d, 'c, 'f) dbapi_env \<Rightarrow> bytes \<Rightarrow> string \<Rightarrow> ('d, 's, 'c) dbapi \<Rightarrow> ('d, 's, 'c) dbapi" where
  "handleQsub E opID queryText s =
     (case parse_query E queryText of
        Inl err \<Rightarrow> send_error opID err s
      | Inr q \<Rightarrow> (case registerSub E opID q s of (s1, None) \<Rightarrow> s1 | (s1, Some p) \<Rightarrow> processQuery E opID q (Some p) s1))"

text \<open>The record of a query that the task receives, and the end of the feed. After a \<open>qsub\<close> the subscription is
  processed; on shutdown or an error it is not, and stays with its controller.\<close>

definition query_next :: "('d, 'c, 'f) dbapi_env \<Rightarrow> nat \<Rightarrow> ('d, 's, 'c) dbapi \<Rightarrow> ('d, 's, 'c) dbapi" where
  "query_next E i s =
     (case qtasks s i of
        None \<Rightarrow> s
      | Some qt \<Rightarrow>
          (case Next (qtIt qt) of
             r # rs \<Rightarrow>
               (let s1 = s\<lparr>qtasks := (qtasks s)(i \<mapsto> qt\<lparr>qtIt := (qtIt qt)\<lparr>Next := rs\<rparr>\<rparr>)\<rparr> in
                case marshal E r s1 of
                  Inl err \<Rightarrow> (case err of GoPanic _ \<Rightarrow> s1\<lparr>crashed := Some err\<rparr>
                                       | _ \<Rightarrow> send (qtOp qt) ''warning'' (err_text err) [] s1)
                | Inr data \<Rightarrow> send (qtOp qt) ''ok'' (rKey (heap (adb s)) r) data s1)
           | [] \<Rightarrow>
               if \<not> nextClosed (qtIt qt) then s
               else
                 (let s1 = s\<lparr>qtasks := (qtasks s)(i := None), queries := (queries s)(qtOp qt := None)\<rparr> in
                  case itErr (qtIt qt) of
                    Some err \<Rightarrow> send_error (qtOp qt) err s1
                  | None \<Rightarrow>
                      (let s2 = send (qtOp qt) ''done'' [] [] s1 in
                       case qtThen qt of None \<Rightarrow> s2 | Some p \<Rightarrow> processSub p s2))))"

definition query_shutdown :: "nat \<Rightarrow> ('d, 's, 'c) dbapi \<Rightarrow> ('d, 's, 'c) dbapi" where
  "query_shutdown i s =
     (case qtasks s i of
        None \<Rightarrow> s
      | Some qt \<Rightarrow> s\<lparr>qtasks := (qtasks s)(i := None), queries := (queries s)(qtOp qt := None)\<rparr>)"

text \<open>\<open>sub.Cancel()\<close>: what is in the feed when it is closed can still be read.\<close>

definition sub_of :: "nat \<Rightarrow> 'd query_api \<Rightarrow> ('d, 's, 'c) db \<Rightarrow> 'd subscription option" where
  "sub_of p q w = (case controllers w (qDatabaseName q) of None \<Rightarrow> None | Some c \<Rightarrow> find (\<lambda>x. subPtr x = p) (subscriptions c))"

definition sub_Cancel :: "('d, 'c, 'f) dbapi_env \<Rightarrow> nat \<Rightarrow> 'd stask \<Rightarrow> ('d, 's, 'c) dbapi \<Rightarrow> ('d, 's, 'c) dbapi \<times> goerr option" where
  "sub_Cancel E p st s =
     (case get_controller (dEnv E) (qDatabaseName (stQuery st)) (adb s) of
        (w, Inl err) \<Rightarrow> (s\<lparr>adb := w\<rparr>, Some err)
      | (w, Inr c) \<Rightarrow>
          (case sub_of p (stQuery st) w of
             None \<Rightarrow> (s\<lparr>adb := w\<rparr>, None)
           | Some x \<Rightarrow>
               (case Subscription_Cancel x c of
                  (c1, e) \<Rightarrow>
                    (s\<lparr>adb := w\<lparr>controllers := (controllers w)(qDatabaseName (stQuery st) \<mapsto> c1)\<rparr>,
                       stasks := (stasks s)(p \<mapsto> st\<lparr>stLeft := Some (Feed x)\<rparr>)\<rparr>, e))))"

definition set_feed :: "nat \<Rightarrow> 'd query_api \<Rightarrow> ref list \<Rightarrow> ('d, 's, 'c) db \<Rightarrow> ('d, 's, 'c) db" where
  "set_feed p q fs w =
     w\<lparr>controllers := (controllers w)(qDatabaseName q := map_option (\<lambda>c. c\<lparr>subscriptions :=
        map (\<lambda>x. if subPtr x = p then x\<lparr>Feed := fs\<rparr> else x) (subscriptions c)\<rparr>) (controllers w (qDatabaseName q)))\<rparr>"

definition send_update :: "('d, 'c, 'f) dbapi_env \<Rightarrow> bytes \<Rightarrow> ref \<Rightarrow> ('d, 's, 'c) dbapi \<Rightarrow> ('d, 's, 'c) dbapi" where
  "send_update E opID r s =
     (case marshal E r s of
        Inl err \<Rightarrow> (case err of GoPanic _ \<Rightarrow> s\<lparr>crashed := Some err\<rparr> | _ \<Rightarrow> send opID ''warning'' (err_text err) [] s)
      | Inr data \<Rightarrow>
          (case rMeta (heap (adb s)) r of
             None \<Rightarrow> s\<lparr>crashed := Some (GoPanic ''invalid memory address or nil pointer dereference'')\<rparr>
           | Some m \<Rightarrow>
               if IsDeleted m then send opID ''del'' (rKey (heap (adb s)) r) [] s
               else if Created m = Modified m then send opID ''new'' (rKey (heap (adb s)) r) data s
               else send opID ''upd'' (rKey (heap (adb s)) r) data s))"

definition sub_next :: "('d, 'c, 'f) dbapi_env \<Rightarrow> nat \<Rightarrow> ('d, 's, 'c) dbapi \<Rightarrow> ('d, 's, 'c) dbapi" where
  "sub_next E p s =
     (case stasks s p of
        None \<Rightarrow> s
      | Some st \<Rightarrow>
          if \<not> stRunning st then s
          else case stLeft st of
            Some (r # rs) \<Rightarrow> send_update E (stOp st) r (s\<lparr>stasks := (stasks s)(p \<mapsto> st\<lparr>stLeft := Some rs\<rparr>)\<rparr>)
          | Some [] \<Rightarrow>
              send (stOp st) ''done'' [] [] (s\<lparr>stasks := (stasks s)(p := None), subs := (subs s)(stOp st := None)\<rparr>)
          | None \<Rightarrow>
              (case sub_of p (stQuery st) (adb s) of
                 None \<Rightarrow> s
               | Some x \<Rightarrow>
                   (case Feed x of
                      [] \<Rightarrow> s
                    | r # rs \<Rightarrow> send_update E (stOp st) r (s\<lparr>adb := set_feed p (stQuery st) rs (adb s)\<rparr>))))"

definition sub_shutdown :: "('d, 'c, 'f) dbapi_env \<Rightarrow> nat \<Rightarrow> ('d, 's, 'c) dbapi \<Rightarrow> ('d, 's, 'c) dbapi" where
  "sub_shutdown E p s =
     (case stasks s p of
        None \<Rightarrow> s
      | Some st \<Rightarrow>
          if \<not> stRunning st then s
          else
            (let s1 = fst (sub_Cancel E p st s) in
             s1\<lparr>stasks := (stasks s1)(p := None), subs := (subs s1)(stOp st := None)\<rparr>))"

definition cancelQuery :: "bytes \<Rightarrow> ('d, 's, 'c) dbapi \<Rightarrow> ('d, 's, 'c) dbapi" where
  "cancelQuery opID s =
     (case queries s opID of
        None \<Rightarrow> s
      | Some i \<Rightarrow> s\<lparr>qtasks := (qtasks s)(i := map_option (\<lambda>qt. qt\<lparr>qtIt := iterator_Cancel (qtIt qt)\<rparr>) (qtasks s i))\<rparr>)"

definition cancelSub :: "('d, 'c, 'f) dbapi_env \<Rightarrow> bytes \<Rightarrow> ('d, 's, 'c) dbapi \<Rightarrow> ('d, 's, 'c) dbapi" where
  "cancelSub E opID s =
     (case subs s opID of
        None \<Rightarrow> send opID ''error'' ''could not find subscription'' [] s
      | Some p \<Rightarrow>
          (case stasks s p of
             None \<Rightarrow> s
           | Some st \<Rightarrow>
               (case sub_Cancel E p st s of
                  (s1, None) \<Rightarrow> s1
                | (s1, Some err) \<Rightarrow>
                    (case err of
                       GoPanic _ \<Rightarrow> s1\<lparr>crashed := Some err\<rparr>
                     | _ \<Rightarrow> send opID ''error'' (''failed to cancel subscription: '' @ err_text err) [] s1))))"

definition handleCancel :: "('d, 'c, 'f) dbapi_env \<Rightarrow> bytes \<Rightarrow> ('d, 's, 'c) dbapi \<Rightarrow> ('d, 's, 'c) dbapi" where
  "handleCancel E opID s = cancelSub E opID (cancelQuery opID s)"

fun run_job :: "('d, 'c, 'f) dbapi_env \<Rightarrow> job \<Rightarrow> ('d, 's, 'c) dbapi \<Rightarrow> ('d, 's, 'c) dbapi" where
  "run_job E (JobCancel opID) s = handleCancel E opID s"
| "run_job E (JobGet opID key) s = handleGet E opID key s"
| "run_job E (JobQuery opID txt) s = handleQuery E opID txt s"
| "run_job E (JobSub opID txt) s = handleSub E opID txt s"
| "run_job E (JobQsub opID txt) s = handleQsub E opID txt s"
| "run_job E (JobPut opID key data create) s = handlePut E opID key data create s"
| "run_job E (JobInsert opID key data) s = handleInsert E opID key data s"
| "run_job E (JobDelete opID key) s = handleDelete E opID key s"

end
