(* ===== verification/Api_Channel.thy ===== *)
theory Api_Channel
  imports Api_Database
begin

section \<open>API: guarantees of the database API\<close>

text \<open>
  The steps of the database API as a relation, and what a client can rely on: it receives messages of
  the documented kinds and only for operations it has started, and it reads back what it has written. Where
  cancelling and inserting differ from what the protocol says is shown at the end.
\<close>

subsection \<open>Messages\<close>

lemma message_data:
  "cinv (message opn ty mk d)"
  "cdata (message opn ty mk d) = opn @ bytes_of ''|'' @ bytes_of ty @ (if mk = [] then [] else bytes_of ''|'' @ bytes_of mk) @
     (if d = [] then [] else bytes_of ''|'' @ d)"
  by (simp_all add: message_def Let_def cinv_Append cdata_Append)

definition frame :: "bytes \<Rightarrow> string \<Rightarrow> string \<Rightarrow> bytes \<Rightarrow> bytes" where
  "frame opn ty mk d = opn @ bytes_of ''|'' @ bytes_of ty @ (if mk = [] then [] else bytes_of ''|'' @ bytes_of mk) @
     (if d = [] then [] else bytes_of ''|'' @ d)"

lemma send_eq: "send opn ty mk d s = s\<lparr>sent := sent s @ [frame opn ty mk d]\<rparr>"
  using CompileData_total[OF message_data(1)[of opn ty mk d]] by (auto simp: send_def message_data(2) frame_def)

definition msg_types :: "string set" where
  "msg_types = {''ok'', ''error'', ''done'', ''success'', ''upd'', ''new'', ''del'', ''warning''}"

text \<open>The message is one of the operation.\<close>

definition reply_to :: "bytes \<Rightarrow> bytes \<Rightarrow> bool" where
  "reply_to opn m \<longleftrightarrow> (\<exists>ty \<in> msg_types. \<exists>mk d. m = frame opn ty mk d)"

subsection \<open>Steps\<close>

text \<open>The goroutine of the storage that fills the buffer of ten records. It ends when all is delivered, when the iterator
  is cancelled, or when the buffer has been full for too long.\<close>

inductive executor :: "qtask \<Rightarrow> qtask \<Rightarrow> bool" where
  push: "qtFinish qt = None \<Longrightarrow> qtRest qt = r # rs \<Longrightarrow> length (Next (qtIt qt)) < 10 \<Longrightarrow>
    executor qt (qt\<lparr>qtRest := rs, qtIt := (qtIt qt)\<lparr>Next := Next (qtIt qt) @ [r]\<rparr>\<rparr>)"
| stop: "qtFinish qt = None \<Longrightarrow> qtRest qt = [] \<or> doneClosed (qtIt qt) \<Longrightarrow>
    executor qt (qt\<lparr>qtFinish := Some None, qtIt := Finish_close (qtIt qt)\<rparr>)"
| timeout: "qtFinish qt = None \<Longrightarrow> qtRest qt \<noteq> [] \<Longrightarrow> length (Next (qtIt qt)) = 10 \<Longrightarrow>
    executor qt (qt\<lparr>qtFinish := Some (Some (ErrNew ''query timeout'')), qtIt := Finish_close (qtIt qt)\<rparr>)"
| set_err: "qtFinish qt = Some e \<Longrightarrow> executor qt (qt\<lparr>qtIt := Finish_err e (qtIt qt)\<rparr>)"

definition op_of :: "bytes \<Rightarrow> bytes" where
  "op_of m = takeWhile (\<lambda>c. c \<noteq> 124) m"

text \<open>The states that are reached, with the operations that the client has named so far. The rest of the program may
  change the database at any time.\<close>

inductive reached :: "('d, 'c, 'f) dbapi_env \<Rightarrow> bytes set \<Rightarrow> ('d, 's, 'c) dbapi \<Rightarrow> bool" for E where
  create: "reached E {} (CreateDatabaseAPI E fresh w)"
| receive: "reached E ops s \<Longrightarrow> \<not> closing s \<Longrightarrow> reached E (insert (op_of m) ops) (Handle m s)"
| job: "reached E ops s \<Longrightarrow> jobs s = js @ j # ks \<Longrightarrow> reached E ops (run_job E j (s\<lparr>jobs := js @ ks\<rparr>))"
| query: "reached E ops s \<Longrightarrow> reached E ops (query_next E i s)"
| storage: "reached E ops s \<Longrightarrow> qtasks s i = Some qt \<Longrightarrow> executor qt qt' \<Longrightarrow>
    reached E ops (s\<lparr>qtasks := (qtasks s)(i \<mapsto> qt')\<rparr>)"
| sub: "reached E ops s \<Longrightarrow> reached E ops (sub_next E p s)"
| close: "reached E ops s \<Longrightarrow> reached E ops (s\<lparr>closing := True\<rparr>)"
| query_close: "reached E ops s \<Longrightarrow> closing s \<Longrightarrow> reached E ops (query_shutdown i s)"
| sub_close: "reached E ops s \<Longrightarrow> closing s \<Longrightarrow> reached E ops (sub_shutdown E p s)"
| database: "reached E ops s \<Longrightarrow> reached E ops (s\<lparr>adb := w\<rparr>)"

subsection \<open>Replies belong to requests\<close>

fun job_op :: "job \<Rightarrow> bytes" where
  "job_op (JobCancel opn) = opn"
| "job_op (JobGet opn _) = opn"
| "job_op (JobQuery opn _) = opn"
| "job_op (JobSub opn _) = opn"
| "job_op (JobQsub opn _) = opn"
| "job_op (JobPut opn _ _ _) = opn"
| "job_op (JobInsert opn _ _) = opn"
| "job_op (JobDelete opn _) = opn"

definition tasks_ok :: "bytes set \<Rightarrow> ('d, 's, 'c) dbapi \<Rightarrow> bool" where
  "tasks_ok ops s \<longleftrightarrow> (\<forall>j \<in> set (jobs s). job_op j \<in> ops) \<and> (\<forall>i qt. qtasks s i = Some qt \<longrightarrow> qtOp qt \<in> ops) \<and>
     (\<forall>p st. stasks s p = Some st \<longrightarrow> stOp st \<in> ops)"

definition replies_ok :: "bytes set \<Rightarrow> ('d, 's, 'c) dbapi \<Rightarrow> bool" where
  "replies_ok ops s \<longleftrightarrow> tasks_ok ops s \<and> (\<forall>m \<in> set (sent s). \<exists>opn \<in> insert [] ops. reply_to opn m)"

lemma reply_frame: "ty \<in> msg_types \<Longrightarrow> reply_to opn (frame opn ty mk d)"
  by (auto simp: reply_to_def)

lemma replies_send:
  "opn \<in> insert [] ops \<Longrightarrow> ty \<in> msg_types \<Longrightarrow> replies_ok ops (send opn ty mk d s) = replies_ok ops s"
  unfolding replies_ok_def tasks_ok_def send_eq using reply_frame[of ty opn mk d] by auto

lemma replies_crashed [simp]: "replies_ok ops (s\<lparr>crashed := e\<rparr>) = replies_ok ops s"
  "replies_ok ops (s\<lparr>adb := w\<rparr>) = replies_ok ops s" "replies_ok ops (s\<lparr>nextRef := r\<rparr>) = replies_ok ops s"
  "replies_ok ops (s\<lparr>closing := b\<rparr>) = replies_ok ops s"
  by (simp_all add: replies_ok_def tasks_ok_def)

lemma msg_types_in [simp]:
  "''ok'' \<in> msg_types" "''error'' \<in> msg_types" "''done'' \<in> msg_types" "''success'' \<in> msg_types" "''upd'' \<in> msg_types"
  "''new'' \<in> msg_types" "''del'' \<in> msg_types" "''warning'' \<in> msg_types"
  by (simp_all add: msg_types_def)

lemma replies_send_error: "opn \<in> ops \<Longrightarrow> replies_ok ops (send_error opn err s) = replies_ok ops s"
  by (simp add: send_error_def replies_send split: goerr.split)

lemmas replies_simps = replies_send replies_send_error

lemma replies_keep:
  assumes "replies_ok ops s" "sent s' = sent s" "jobs s' = jobs s"
    "\<And>i qt. qtasks s' i = Some qt \<Longrightarrow> qtasks s i = Some qt \<or> qtOp qt \<in> ops"
    "\<And>p st. stasks s' p = Some st \<Longrightarrow> stasks s p = Some st \<or> stOp st \<in> ops"
  shows "replies_ok ops s'"
  using assms unfolding replies_ok_def tasks_ok_def by metis

lemma replies_spawn: "replies_ok ops s \<Longrightarrow> job_op j \<in> ops \<Longrightarrow> replies_ok ops (spawn j s)"
  by (auto simp: spawn_def replies_ok_def tasks_ok_def)

lemma replies_mono: "replies_ok ops s \<Longrightarrow> ops \<subseteq> ops' \<Longrightarrow> replies_ok ops' s"
  by (fastforce simp: replies_ok_def tasks_ok_def)

lemma SplitN_hd: "SplitN (Suc (Suc n)) sep m = x # xs \<Longrightarrow> x = takeWhile (\<lambda>c. c \<noteq> sep) m"
  by (auto simp: Let_def split: if_splits)

lemma Handle_replies:
  assumes "replies_ok ops s"
  shows "replies_ok (insert (op_of m) ops) (Handle m s)"
proof -
  let ?ops = "insert (op_of m) ops"
  have s: "replies_ok ?ops s" using replies_mono[OF assms] by blast
  have opn: "opn = op_of m" if "SplitN 3 124 m = opn # xs" for opn xs
    using that SplitN_hd[of "Suc 0" 124 m opn xs] by (simp add: op_of_def numeral_3_eq_3)
  show ?thesis unfolding Handle_def Let_def malformed_def
    by (auto simp: s replies_simps dest!: opn intro!: replies_spawn split: list.split)
qed

lemma processQuery_replies:
  assumes "opn \<in> ops" "replies_ok ops s"
  shows "replies_ok ops (processQuery E opn q nx s)"
proof -
  obtain w res where q: "Query (dEnv E) q (adb s) = (w, res)" by fastforce
  show ?thesis
  proof (cases res)
    case (Inr rs)
    show ?thesis by (rule replies_keep[OF assms(2)])
        (use assms q Inr in \<open>auto simp: processQuery_def Let_def split: if_splits\<close>)
  qed (use assms q in \<open>simp add: processQuery_def replies_simps\<close>)
qed

lemma processSub_replies: "replies_ok ops s \<Longrightarrow> replies_ok ops (processSub p s)"
  by (cases "stasks s p") (auto simp: processSub_def replies_ok_def tasks_ok_def split: if_splits)

lemma registerSub_replies:
  assumes "opn \<in> ops" "replies_ok ops s" "registerSub E opn q s = (s', x)"
  shows "replies_ok ops s'"
proof -
  obtain w e where w: "Subscribe (dEnv E) (nextPtr s) (nextPtr s) q (adb s) = (w, e)" by fastforce
  show ?thesis
  proof (cases e)
    case None
    show ?thesis by (rule replies_keep[OF assms(2)])
        (use assms w None in \<open>auto simp: registerSub_def Let_def split: if_splits\<close>)
  qed (use assms w in \<open>auto simp: registerSub_def Let_def replies_simps\<close>)
qed

lemma sub_Cancel_replies:
  assumes "replies_ok ops s" "stasks s p = Some st" "sub_Cancel E p st s = (s', e)"
  shows "replies_ok ops s'"
proof (rule replies_keep[OF assms(1)])
  have "stOp st \<in> ops" using assms(1,2) by (auto simp: replies_ok_def tasks_ok_def)
  then show "stasks s p' = Some st' \<or> stOp st' \<in> ops" if "stasks s' p' = Some st'" for p' st'
    using assms(3) that by (auto simp: sub_Cancel_def split: prod.splits sum.splits option.splits if_splits)
qed (use assms(3) in \<open>auto simp: sub_Cancel_def split: prod.splits sum.splits option.splits\<close>)

lemma run_job_replies:
  assumes "job_op j \<in> ops" "replies_ok ops s"
  shows "replies_ok ops (run_job E j s)"
proof (cases j)
  case (JobCancel opn)
  define s1 where "s1 = cancelQuery opn s"
  have "replies_ok ops s1"
    using assms(2) by (auto simp: s1_def cancelQuery_def replies_ok_def tasks_ok_def split: option.split)
  then show ?thesis using JobCancel assms(1) sub_Cancel_replies[of ops s1]
    by (auto simp: handleCancel_def s1_def[symmetric] cancelSub_def replies_simps split: option.split prod.split goerr.split)
next
  case (JobSub opn tx)
  then show ?thesis using assms
    by (auto simp: handleSub_def replies_simps intro!: processSub_replies dest: registerSub_replies
        split: sum.split prod.split option.split)
next
  case (JobQsub opn tx)
  then show ?thesis using assms
    by (auto simp: handleQsub_def replies_simps intro!: processQuery_replies dest: registerSub_replies
        split: sum.split prod.split option.split)
qed (use assms processQuery_replies in \<open>auto simp: handleGet_def handleQuery_def handlePut_def handleInsert_def handleDelete_def
    replies_simps Let_def split: prod.split sum.split option.split\<close>)

lemma query_next_replies:
  assumes "replies_ok ops s"
  shows "replies_ok ops (query_next E i s)"
proof (cases "qtasks s i")
  case (Some qt)
  then have opn: "qtOp qt \<in> ops" using assms by (auto simp: replies_ok_def tasks_ok_def)
  show ?thesis
  proof (cases "Next (qtIt qt)")
    case Nil
    let ?s = "s\<lparr>qtasks := (qtasks s)(i := None), queries := (queries s)(qtOp qt := None)\<rparr>"
    have "replies_ok ops ?s" by (rule replies_keep[OF assms]) (auto split: if_splits)
    then show ?thesis using Some Nil opn assms
      by (auto simp: query_next_def Let_def replies_simps intro!: processSub_replies split: option.split)
  next
    case (Cons r rs)
    let ?s = "s\<lparr>qtasks := (qtasks s)(i \<mapsto> qt\<lparr>qtIt := (qtIt qt)\<lparr>Next := rs\<rparr>\<rparr>)\<rparr>"
    have "replies_ok ops ?s" by (rule replies_keep[OF assms]) (use opn in \<open>auto split: if_splits\<close>)
    then show ?thesis using Some Cons opn
      by (auto simp: query_next_def Let_def replies_simps split: sum.split goerr.split)
  qed
qed (use assms in \<open>simp add: query_next_def\<close>)

lemma send_update_replies: "opn \<in> ops \<Longrightarrow> replies_ok ops s \<Longrightarrow> replies_ok ops (send_update E opn r s)"
  by (auto simp: send_update_def replies_simps split: sum.split option.split goerr.split)

lemma sub_next_replies:
  assumes "replies_ok ops s"
  shows "replies_ok ops (sub_next E p s)"
proof (cases "stasks s p")
  case (Some st)
  then have opn: "stOp st \<in> ops" using assms by (auto simp: replies_ok_def tasks_ok_def)
  have "replies_ok ops (s\<lparr>stasks := (stasks s)(p := x), subs := y\<rparr>)" if "\<And>st'. x = Some st' \<Longrightarrow> stOp st' \<in> ops" for x y
    by (rule replies_keep[OF assms]) (use that in \<open>auto split: if_splits\<close>)
  moreover have "replies_ok ops (s\<lparr>stasks := (stasks s)(p \<mapsto> st\<lparr>stLeft := x\<rparr>)\<rparr>)" for x
    by (rule replies_keep[OF assms]) (use opn in \<open>auto split: if_splits\<close>)
  ultimately show ?thesis using Some opn assms
    by (auto simp: sub_next_def replies_simps intro!: send_update_replies split: option.split list.split)
qed (use assms in \<open>simp add: sub_next_def\<close>)

lemma shutdown_replies:
  assumes "replies_ok ops s"
  shows "replies_ok ops (query_shutdown i s)" "replies_ok ops (sub_shutdown E p s)"
proof -
  show "replies_ok ops (query_shutdown i s)"
    by (rule replies_keep[OF assms]) (auto simp: query_shutdown_def split: option.splits if_splits)
  show "replies_ok ops (sub_shutdown E p s)"
  proof (cases "stasks s p")
    case (Some st)
    obtain s1 e where c: "sub_Cancel E p st s = (s1, e)" by fastforce
    have "replies_ok ops (s1\<lparr>stasks := (stasks s1)(p := None), subs := (subs s1)(stOp st := None)\<rparr>)"
      by (rule replies_keep[OF sub_Cancel_replies[OF assms Some c]]) (auto split: if_splits)
    then show ?thesis using Some c assms by (simp add: sub_shutdown_def Let_def)
  qed (use assms in \<open>simp add: sub_shutdown_def\<close>)
qed

lemma reached_replies: "reached E ops s \<Longrightarrow> replies_ok ops s"
proof (induction rule: reached.induct)
  case (job ops s js j ks)
  then have "replies_ok ops (s\<lparr>jobs := js @ ks\<rparr>)" "job_op j \<in> ops" by (auto simp: replies_ok_def tasks_ok_def)
  then show ?case by (simp add: run_job_replies)
next
  case (storage ops s i qt qt')
  have "qtOp qt' = qtOp qt" using storage(3) by cases simp_all
  then have "qtOp qt' \<in> ops" using storage by (auto simp: replies_ok_def tasks_ok_def)
  then show ?case by (intro replies_keep[OF storage.IH]) (auto split: if_splits)
qed (auto simp: Handle_replies query_next_replies sub_next_replies shutdown_replies,
    auto simp: CreateDatabaseAPI_def replies_ok_def tasks_ok_def)


subsection \<open>Writing and reading\<close>

context retaining_storage
begin

lemma put_controller_permitted:
  assumes s: "serves api w name c" and r: "rDatabaseName (heap w) r = name" "rDatabaseKey (heap w) r = key" "name \<noteq> ''''"
    and p: "\<And>old. view (cStorage c) key = Some old \<Longrightarrow> hasAccessPermission (options w) (rMeta (heap w) old)"
  shows "put_controller env r w = (w, Inr c)"
proof (cases "HasAllPermissions (options w)")
  case True
  then show ?thesis using serves_get[OF s] r by (simp add: put_controller_def)
next
  case False
  have c: "\<not> ReadOnly c" "hooks c = []" "cApi c = api" "\<not> shuttingDown w" "controllers w name = Some c" "cache w = None"
    using s writable by (auto simp: serves_def hosts_def ReadOnly_def)
  have g: "\<exists>e. Controller_GetMeta False (now w) key c (heap w) = (heap w, e) \<and>
      (case e of Inl x \<Rightarrow> x = ErrNotFound | Inr m \<Rightarrow> CheckPermission (Local (options w)) (Internal (options w)) m)"
  proof (cases "view (cStorage c) key")
    case None
    have "sGet api key (heap w) (cStorage c) = Inl storage_ErrNotFound" using get_missing[OF None] writable by simp
    moreover have "replace_not_found storage_ErrNotFound = ErrNotFound" by (simp add: replace_not_found_def storage_ErrNotFound_def)
    moreover have "gm key (heap w) (cStorage c) = Inl storage_ErrNotFound" if "sGetMeta api = Some gm" for gm
      using meta_missing[OF that None] .
    ultimately have "Controller_GetMeta False (now w) key c (heap w) = (heap w, Inl ErrNotFound)"
      using c(3) by (cases "sGetMeta api") (simp_all add: Controller_GetMeta_def)
    then show ?thesis by simp
  next
    case (Some old)
    then show ?thesis using Controller_GetMeta_eq[OF c(2,3) Some] p[OF Some] False by (auto simp: hasAccessPermission_def)
  qed
  then obtain e where e: "Controller_GetMeta False (now w) key c (heap w) = (heap w, e)"
    "case e of Inl x \<Rightarrow> x = ErrNotFound | Inr m \<Rightarrow> CheckPermission (Local (options w)) (Internal (options w)) m" by blast
  have "\<exists>x. getMeta env name key True w = (w, Some c, x) \<and> (x = None \<or> x = Some ErrNotFound)"
    using e c serves_get[OF s, of env] r(3) by (cases e) (auto simp: getMeta_def db_name_key_def checkCache_def)
  then show ?thesis using False r by (auto simp: put_controller_def errors_is.simps ErrNotFound_def)
qed

lemma put_prepared_permitted:
  assumes s: "serves api w name c" and r: "rDatabaseName (heap w) r = name" "rDatabaseKey (heap w) r = key" "name \<noteq> ''''"
    and p: "\<And>old. view (cStorage c) key = Some old \<Longrightarrow> hasAccessPermission (options w) (rMeta (heap w) old)"
    and fresh: "rMeta (heap w) r = None"
  obtains c' w' where "put_prepared env reset r w = (w', None)" "heap w' = heap (apply_options r w)"
    "options w' = options w" "now w' = now w" "serves api w' name c'"
    "view (cStorage c') = put_view (shadowDelete c) (heap w') r (view (cStorage c))"
proof -
  have same: "set_meta (map_option Reset) r (heap w) = heap w"
    using fresh by (simp add: set_meta_def rMeta_def fun_eq_iff)
  let ?w = "apply_options r w"
  have sv: "hosts api ?w name c" using s by (simp add: serves_def hosts_def)
  obtain m where m: "rMeta (heap ?w) r = Some m" using apply_options_meta by blast
  obtain c' w' where w': "db_put name r c ?w = (w', None)" "w' = ?w\<lparr>controllers := (controllers ?w)(name \<mapsto> c')\<rparr>"
    "hosts api w' name c'" "view (cStorage c') = put_view (shadowDelete c) (heap ?w) r (view (cStorage c))"
    using db_put_eq[OF sv m] by blast
  have "\<not> ReadOnly c" "cache w = None" "controllers w name = Some c"
    using writable s by (auto simp: ReadOnly_def serves_def hosts_def)
  then have "put_prepared env reset r w = (w', None)"
    using put_controller_permitted[OF s r p, of env] same m w'(1) r(1)
    by (simp add: put_prepared_def updateCache_def Let_def)
  moreover have "serves api w' name c'" using w'(2,3) s by (simp add: serves_def)
  ultimately show thesis using that[of w' c'] w' by simp
qed

end

lemma fresh_meta:
  assumes "bmeta b = None"
  shows "\<exists>m. bmeta (Options_Apply \<lparr>Local = False, Internal = False, AlwaysMakeSecret = False, AlwaysMakeCrownjewel = False,
      AlwaysSetRelativateExpiry = 0, AlwaysSetAbsoluteExpiry = 0, CacheSize = 0, DelayCachedWrites = ''''\<rparr> t b) = Some m \<and>
    CheckValidity t (Some m) \<and> CheckPermission False False (Some m) \<and> \<not> IsDeleted m"
  using assms
  by (simp add: Options_Apply_def UpdateMeta_def CreateMeta_def zero_meta_def Update_def CheckValidity_def CheckPermission_def
      IsDeleted_def Let_def)

definition api_options :: Options where
  "api_options = \<lparr>Local = False, Internal = False, AlwaysMakeSecret = False, AlwaysMakeCrownjewel = False,
     AlwaysSetRelativateExpiry = 0, AlwaysSetAbsoluteExpiry = 0, CacheSize = 0, DelayCachedWrites = ''''\<rparr>"

lemma handlePut_stores:
  assumes s: "serves hashmap_api (adb s) name c" and opts: "options (adb s) = api_options"
    and k: "ParseKey k = (name, key)" "name \<noteq> ''''" and data: "length data \<ge> 2"
    and fresh: "nextRef s \<notin> ran (map_of (cStorage c))"
    and p: "\<And>old. map_of (cStorage c) key = Some old \<Longrightarrow> CheckPermission False False (rMeta (heap (adb s)) old)"
  obtains c' w' m where "handlePut E opn k data create s = s\<lparr>nextRef := Suc (nextRef s), adb := w', sent := sent s @ [frame opn ''success'' [] []]\<rparr>"
    "serves hashmap_api w' name c'" "options w' = api_options" "now w' = now (adb s)"
    "map_of (cStorage c') = (map_of (cStorage c))(key \<mapsto> nextRef s)"
    "rbase (heap w' (nextRef s)) = \<lparr>dbName = name, dbKey = key, bmeta = Some m\<rparr>" "rdata (heap w' (nextRef s)) = dWrap E (hd data) (tl data)"
    "CheckValidity (now w') (Some m)" "CheckPermission False False (Some m)" "\<forall>x. x \<noteq> nextRef s \<longrightarrow> heap w' x = heap (adb s) x"
proof -
  let ?r = "nextRef s" and ?rec = "new_record E k data"
  let ?w = "(adb s)\<lparr>heap := (heap (adb s))(?r := ?rec)\<rparr>"
  have rec: "rbase ?rec = \<lparr>dbName = name, dbKey = key, bmeta = None\<rparr>" "rdata ?rec = dWrap E (hd data) (tl data)"
    using k by (simp_all add: new_record_def)
  have sv: "serves hashmap_api ?w name c" using s by (simp add: serves_def hosts_def)
  have r: "rDatabaseName (heap ?w) ?r = name" "rDatabaseKey (heap ?w) ?r = key" "rMeta (heap ?w) ?r = None"
    using rec by (simp_all add: rDatabaseName_def rDatabaseKey_def rMeta_def)
  have perm: "hasAccessPermission (options ?w) (rMeta (heap ?w) old)" if "map_of (cStorage c) key = Some old" for old
  proof -
    have "old \<noteq> ?r" using that fresh by (auto simp: ran_def)
    then show ?thesis using p[OF that] opts
      by (simp add: hasAccessPermission_def HasAllPermissions_def api_options_def rMeta_def)
  qed
  obtain c' w' where w': "put_prepared (dEnv E) create ?r ?w = (w', None)" "heap w' = heap (apply_options ?r ?w)"
    "options w' = options ?w" "now w' = now ?w" "serves hashmap_api w' name c'"
    "map_of (cStorage c') = put_view (shadowDelete c) (heap w') ?r (map_of (cStorage c))"
    using hashmap.put_prepared_permitted[OF sv r(1,2) k(2) perm r(3)] by blast
  obtain m where m: "bmeta (Options_Apply api_options (now (adb s)) (rbase ?rec)) = Some m" "CheckValidity (now (adb s)) (Some m)"
    "CheckPermission False False (Some m)" "\<not> IsDeleted m"
    using fresh_meta[of "rbase ?rec" "now (adb s)"] rec unfolding api_options_def by auto
  have b: "rbase (heap w' ?r) = \<lparr>dbName = name, dbKey = key, bmeta = Some m\<rparr>"
    using w'(2) opts m(1) rec by (intro base.equality) (simp_all add: apply_options_def)
  have d: "rdata (heap w' ?r) = dWrap E (hd data) (tl data)" "\<forall>x. x \<noteq> ?r \<longrightarrow> heap w' x = heap (adb s) x"
    using w'(2) rec by (simp_all add: apply_options_def)
  have v: "map_of (cStorage c') = (map_of (cStorage c))(key \<mapsto> ?r)"
    using w'(6) b m(4) by (simp add: put_view_def rDatabaseKey_def rMeta_def)
  have "handlePut E opn k data create s = s\<lparr>nextRef := Suc ?r, adb := w', sent := sent s @ [frame opn ''success'' [] []]\<rparr>"
    using data w'(1) by (cases create) (simp_all add: handlePut_def PutNew_def Put_def send_eq Let_def)
  then show thesis using that[of w' c' m] w' v b d m opts by simp
qed


subsection \<open>Departures\<close>

definition settable :: "gjson_entry \<Rightarrow> bool" where
  "settable e \<longleftrightarrow> geKeyExists e \<and> geKeyIsString e \<and> geExists e"

lemma insert_partial:
  assumes "Get (dEnv E) k (adb s) = (w, Inr r)" "gjson_ForEach E data = e1 # e2 # es" "settable e1" "settable e2"
    "accSet (dEnv E) (geKey e1) (geValue e1) (rdata (heap w r)) = Inr d" "accSet (dEnv E) (geKey e2) (geValue e2) d = Inl (ErrNew msg)"
  shows "sent (handleInsert E opn k data s) = sent s @ [frame opn ''error'' msg []] \<and>
    rdata (heap (adb (handleInsert E opn k data s)) r) = d"
  using assms by (simp add: handleInsert_def settable_def send_error_def send_eq)

lemma cancel_qsub:
  assumes "queries s opn = Some i" "subs s opn = None"
  shows "sent (handleCancel E opn s) = sent s @ [frame opn ''error'' ''could not find subscription'' []] \<and>
    stasks (handleCancel E opn s) = stasks s \<and> adb (handleCancel E opn s) = adb s"
  using assms by (simp add: handleCancel_def cancelQuery_def cancelSub_def send_eq)

lemma query_end_subscribes:
  assumes "qtasks s i = Some qt" "Next (qtIt qt) = []" "nextClosed (qtIt qt)" "itErr (qtIt qt) = None" "qtThen qt = Some p"
    "stasks s p = Some st" "stOp st = qtOp qt"
  shows "subs (query_next E i s) (qtOp qt) = Some p \<and> sent (query_next E i s) = sent s @ [frame (qtOp qt) ''done'' [] []]"
  using assms by (simp add: query_next_def processSub_def send_eq Let_def)

text \<open>Where the database API differs from its protocol. An \<open>insert\<close> that fails at a later value has set the earlier
  ones on the record in the storage, though the client receives an error. A \<open>qsub\<close> that is cancelled during its query
  is answered by an error and keeps its subscription; when the query ends, the subscription is processed. A
  \<open>qsub\<close> whose query is ended by the shutdown of the connection leaves its subscription in the
  database, and nothing will cancel it. The error of a query is lost if the reader is faster than \<open>Finish\<close>.\<close>

theorem database_api_departures:
  "(Get (dEnv E) k (adb s) = (w, Inr r) \<and> gjson_ForEach E data = e1 # e2 # es \<and> settable e1 \<and> settable e2 \<and>
      accSet (dEnv E) (geKey e1) (geValue e1) (rdata (heap w r)) = Inr d \<and>
      accSet (dEnv E) (geKey e2) (geValue e2) d = Inl (ErrNew msg) \<longrightarrow>
    sent (run_job E (JobInsert opn k data) s) = sent s @ [frame opn ''error'' msg []] \<and>
    rdata (heap (adb (run_job E (JobInsert opn k data) s)) r) = d) \<and>
   (qtasks s i = Some qt \<and> qtThen qt = Some p \<and> queries s (qtOp qt) = Some i \<and> subs s (qtOp qt) = None \<longrightarrow>
    sent (run_job E (JobCancel (qtOp qt)) s) = sent s @ [frame (qtOp qt) ''error'' ''could not find subscription'' []] \<and>
    stasks (run_job E (JobCancel (qtOp qt)) s) = stasks s \<and> adb (run_job E (JobCancel (qtOp qt)) s) = adb s) \<and>
   (qtasks s i = Some qt \<and> qtThen qt = Some p \<and> stasks s p = Some st \<and> stOp st = qtOp qt \<and> Next (qtIt qt) = [] \<and>
      nextClosed (qtIt qt) \<and> itErr (qtIt qt) = None \<longrightarrow>
    subs (query_next E i s) (qtOp qt) = Some p \<and> sent (query_next E i s) = sent s @ [frame (qtOp qt) ''done'' [] []]) \<and>
   (stasks s p = Some st \<and> \<not> stRunning st \<longrightarrow> adb (query_shutdown i s) = adb s \<and> sub_shutdown E p (query_shutdown i s) = query_shutdown i s) \<and>
   (qtFinish qt = None \<and> qtRest qt \<noteq> [] \<and> length (Next (qtIt qt)) = 10 \<longrightarrow>
    (\<exists>qt'. executor qt qt' \<and> qtFinish qt' \<noteq> Some None \<and> nextClosed (qtIt qt') \<and> itErr (qtIt qt') = itErr (qtIt qt)))"
proof (intro conjI impI)
  assume "stasks s p = Some st \<and> \<not> stRunning st"
  then show "adb (query_shutdown i s) = adb s" "sub_shutdown E p (query_shutdown i s) = query_shutdown i s"
    by (auto simp: query_shutdown_def sub_shutdown_def split: option.split)
next
  assume "qtFinish qt = None \<and> qtRest qt \<noteq> [] \<and> length (Next (qtIt qt)) = 10"
  then show "\<exists>qt'. executor qt qt' \<and> qtFinish qt' \<noteq> Some None \<and> nextClosed (qtIt qt') \<and> itErr (qtIt qt') = itErr (qtIt qt)"
    by (intro exI[of _ "qt\<lparr>qtFinish := Some (Some (ErrNew ''query timeout'')), qtIt := Finish_close (qtIt qt)\<rparr>"] conjI executor.timeout)
      (auto simp: Finish_close_def)
qed (use insert_partial[of E k s w r data e1 e2 es d msg opn] cancel_qsub[of s "qtOp qt" i E]
      query_end_subscribes[of s i qt p st E] in auto)

subsection \<open>A sample connection\<close>

definition sample_routes :: "(unit, nat dbrec) router_lib" where
  "sample_routes = \<lparr>main_Match = (\<lambda>_ _. MuxNotFound), endpoint_Match = (\<lambda>_ _. MuxNotFound), dsd_of = undefined,
     rec_Marshal = (\<lambda>r. Inr (''J'' @ replicate (rdata r) (CHR ''1''))), set_meta_json = (\<lambda>_ t. Inr t), set_key_json = (\<lambda>_ t. Inr t),
     module_Online = (\<lambda>_ _. True), module_OnlineSoon = (\<lambda>_. True), url_with_path = (\<lambda>_ p. p)\<rparr>"

definition sample_entry :: "string \<Rightarrow> gjson_entry" where
  "sample_entry k = \<lparr>geKeyExists = True, geKeyIsString = True, geKey = k, geExists = True, geValue = ''''\<rparr>"

definition sample_channel :: "(nat, unit, int) dbapi_env" where
  "sample_channel = \<lparr>dEnv = sample_dbenv\<lparr>accSet := (\<lambda>k _ d. if k = ''bad'' then Inl (ErrNew ''no such field'') else Inr (Suc d))\<rparr>,
     dRouter = sample_routes, dQueries = sample_lib, dAccessor = any_accessor, dWrap = (\<lambda>_ d. length d),
     gjson_ForEach = (\<lambda>_. [sample_entry ''good'', sample_entry ''bad''])\<rparr>"

definition sample_conn :: "(nat, hashmap, unit) dbapi" where
  "sample_conn = CreateDatabaseAPI sample_channel 7 (sample_db True)"

lemma sample_conn_db: "adb sample_conn = sample_db False" "nextRef sample_conn = 7" "sent sample_conn = []" "jobs sample_conn = []"
  by (simp_all add: sample_conn_def CreateDatabaseAPI_def NewInterface_def sample_db_def sample_opts_def)

lemma text_of_samples: "text_of [103, 101, 116] = ''get''" "text_of [99, 111, 114, 101, 58, 97] = ''core:a''"
  by (simp_all add: text_of_def char_of_eq_iff take_bit_eq_mod)

lemma Handle_sample: "Handle (bytes_of ''1|get|core:a'') sample_conn = sample_conn\<lparr>jobs := [JobGet [49] ''core:a'']\<rparr>"
proof -
  have "SplitN 3 124 (bytes_of ''1|get|core:a'') = [[49], [103, 101, 116], [99, 111, 114, 101, 58, 97]]"
    by (simp add: bytes_of_def numeral_3_eq_3)
  then show ?thesis using sample_conn_db(4) by (simp add: Handle_def text_of_samples spawn_def)
qed

lemma sample_denied: "sent (run_job sample_channel (JobGet [49] ''core:a'') sample_conn) = [frame [49] ''error'' (err_text ErrPermissionDenied) []]"
proof -
  have "Get (dEnv sample_channel) ''core:a'' (sample_db False) = (sample_db False, Inl ErrPermissionDenied)"
    using hashmap.Get_eq[OF sample_serves[of False] sample_key(1), of "dEnv sample_channel"]
    by (simp add: sample_core_def newController_def sample_db_def sample_rec_def rMeta_def
        CheckValidity_def hasAccessPermission_def HasAllPermissions_def sample_opts_def CheckPermission_def)
  then show ?thesis using sample_conn_db by (simp add: handleGet_def send_error_def send_eq ErrPermissionDenied_def)
qed

lemma sample_reached: "reached sample_channel {[49]} (run_job sample_channel (JobGet [49] ''core:a'') sample_conn)"
proof -
  have "reached sample_channel {} sample_conn" unfolding sample_conn_def by (rule reached.create)
  moreover have "\<not> closing sample_conn" by (simp add: sample_conn_def CreateDatabaseAPI_def)
  moreover have "op_of (bytes_of ''1|get|core:a'') = [49]" by (simp add: op_of_def bytes_of_def)
  ultimately have "reached sample_channel {[49]} (sample_conn\<lparr>jobs := [JobGet [49] ''core:a'']\<rparr>)"
    using reached.receive[of sample_channel "{}" sample_conn "bytes_of ''1|get|core:a''"] by (simp only: Handle_sample simp_thms)
  from reached.job[OF this, of "[]" "JobGet [49] ''core:a''" "[]"]
  have "reached sample_channel {[49]} (run_job sample_channel (JobGet [49] ''core:a'') (sample_conn\<lparr>jobs := []\<rparr>))"
    by (simp del: run_job.simps)
  moreover have "sample_conn\<lparr>jobs := []\<rparr> = sample_conn" by (simp add: sample_conn_def CreateDatabaseAPI_def)
  ultimately show ?thesis by (simp only:)
qed



definition sample_qtask :: "ref list \<Rightarrow> ref list \<Rightarrow> qtask" where
  "sample_qtask buf todo = \<lparr>qtOp = [49], qtIt = iterator_New\<lparr>Next := buf, nextClosed := (buf = [])\<rparr>, qtRest = todo,
     qtFinish = None, qtThen = Some 0\<rparr>"

definition sample_qsub :: "ref list \<Rightarrow> ref list \<Rightarrow> (nat, hashmap, unit) dbapi" where
  "sample_qsub buf todo = sample_conn\<lparr>adb := sample_db True, qtasks := [1 \<mapsto> sample_qtask buf todo], queries := [[49] \<mapsto> 1],
     stasks := [0 \<mapsto> \<lparr>stOp = [49], stQuery = \<lparr>qCheck = None, qDatabaseName = ''core'', qMatchesKey = (\<lambda>_. True), qMatchesRecord = (\<lambda>_. True)\<rparr>, stRunning = False, stLeft = None\<rparr>]\<rparr>"

theorem database_api_departures_witness:
  "sent (run_job sample_channel (JobInsert [50] ''core:a'' []) (sample_qsub [] [])) = [frame [50] ''error'' ''no such field'' []] \<and>
   rdata (heap (adb (run_job sample_channel (JobInsert [50] ''core:a'' []) (sample_qsub [] []))) 0) = 2 \<and>
   sent (run_job sample_channel (JobCancel [49]) (sample_qsub [] [])) = [frame [49] ''error'' ''could not find subscription'' []] \<and>
   subs (query_next sample_channel 1 (sample_qsub [] [])) [49] = Some 0 \<and>
   sub_shutdown sample_channel 0 (query_shutdown 1 (sample_qsub [] [])) = query_shutdown 1 (sample_qsub [] []) \<and>
   (\<exists>qt'. executor (sample_qtask (replicate 10 0) [0]) qt' \<and> qtFinish qt' \<noteq> Some None \<and> nextClosed (qtIt qt') \<and> itErr (qtIt qt') = None)"
proof -
  have g: "Get (dEnv sample_channel) ''core:a'' (sample_db True) = (sample_db True, Inr 0)"
    using hashmap.Get_eq[OF sample_serves[of True] sample_key(1), of "dEnv sample_channel"]
    by (simp add: sample_core_def newController_def sample_db_def sample_rec_def rMeta_def
        CheckValidity_def hasAccessPermission_def HasAllPermissions_def sample_opts_def)
  note D = database_api_departures[of sample_channel "''core:a''" "sample_qsub [] []" "sample_db True" 0 "[]" "sample_entry ''good''"
      "sample_entry ''bad''" "[]" 2 "''no such field''" "[50]" 1 "sample_qtask [] []" 0 "the (stasks (sample_qsub [] []) 0)"]
  have c: "subs sample_conn = Map.empty" by (simp add: sample_conn_def CreateDatabaseAPI_def)
  have "rdata (heap (sample_db True) 0) = 1" by (simp add: sample_db_def sample_rec_def)
  then have "Get (dEnv sample_channel) ''core:a'' (adb (sample_qsub [] [])) = (sample_db True, Inr 0) \<and>
      gjson_ForEach sample_channel [] = [sample_entry ''good'', sample_entry ''bad''] \<and>
      settable (sample_entry ''good'') \<and> settable (sample_entry ''bad'') \<and>
      accSet (dEnv sample_channel) (geKey (sample_entry ''good'')) (geValue (sample_entry ''good'')) (rdata (heap (sample_db True) 0)) = Inr 2 \<and>
      accSet (dEnv sample_channel) (geKey (sample_entry ''bad'')) (geValue (sample_entry ''bad'')) 2 = Inl (ErrNew ''no such field'')"
    using g by (simp add: sample_qsub_def sample_channel_def sample_entry_def settable_def)
  moreover have "sent (sample_qsub [] []) = []" by (simp add: sample_qsub_def sample_conn_db)
  moreover have "qtasks (sample_qsub [] []) 1 = Some (sample_qtask [] [])" "qtThen (sample_qtask [] []) = Some 0" "qtOp (sample_qtask [] []) = [49]"
    "queries (sample_qsub [] []) [49] = Some 1" "subs (sample_qsub [] []) [49] = None" "Next (qtIt (sample_qtask [] [])) = []"
    "nextClosed (qtIt (sample_qtask [] []))" "itErr (qtIt (sample_qtask [] [])) = None"
    "stasks (sample_qsub [] []) 0 = Some (the (stasks (sample_qsub [] []) 0))" "stOp (the (stasks (sample_qsub [] []) 0)) = [49]"
    "\<not> stRunning (the (stasks (sample_qsub [] []) 0))"
    using c by (simp_all add: sample_qsub_def sample_qtask_def iterator_New_def)
  moreover have "qtFinish (sample_qtask (replicate 10 0) [0]) = None \<and> qtRest (sample_qtask (replicate 10 0) [0]) \<noteq> [] \<and>
      length (Next (qtIt (sample_qtask (replicate 10 0) [0]))) = 10" "itErr (qtIt (sample_qtask (replicate 10 0) [0])) = None"
    by (simp_all add: sample_qtask_def iterator_New_def)
  ultimately show ?thesis
    using D database_api_departures[of sample_channel _ _ _ _ _ _ _ _ _ _ _ _ "sample_qtask (replicate 10 0) [0]"] by (simp, blast)
qed

end
