(* ===== verification/Module_Microtasks.thy ===== *)
theory Module_Microtasks
  imports Module_Manager
begin

section \<open>Modules: microtasks\<close>

text \<open>
  The microtasks of \<^verbatim>\<open>modules/microtasks.go\<close>. A microtask of medium or low priority submits a signal to the scheduler and starts when the
  scheduler closes it, or when it has waited for too long. The scheduler is a goroutine with a step for each of its nested
  \<open>select\<close> statements; every microtask is one of its own. A signal is named by the number of its microtask. How long a microtask waits is
  not modelled: it may give up at any time.
\<close>

subsection \<open>State\<close>

datatype mpriority = HighPriority | MediumPriority | LowPriority

datatype mphase = MSubmit | MWait | MStarted | MRunning | MEnding | MDone

record microtask =
  mtModule :: string
  mtPriority :: mpriority
  mtPhase :: mphase

text \<open>The scheduler before its loop, at the head of the loop, at one of the three \<open>select\<close> statements, between closing a signal and counting
  the microtask, waiting for one to finish; the same for the scheduler that runs during a shutdown.\<close>

datatype mscheduler = MSLoop | MSMedium | MSMediumLow | MSAny | MSCount | MSFull | MSShutdown | MSShutdownCount

record mtstate =
  mtSys :: sys
  mts :: "nat \<Rightarrow> microtask option"
  nextMt :: nat
  microTasks :: int
  microTasksThreshhold :: int
  mediumPriorityClearance :: "nat list"
  lowPriorityClearance :: "nat list"
  clearanceQueueSize :: nat
  cleared :: "nat set"
  microTaskFinished :: bool
  mtScheduler :: mscheduler

text \<open>The conversion to a 32-bit integer is that of Go.\<close>

definition SetMaxConcurrentMicroTasks :: "int \<Rightarrow> mtstate \<Rightarrow> mtstate" where
  "SetMaxConcurrentMicroTasks n s =
     (if n < 2 then s\<lparr>microTasksThreshhold := 2\<rparr> else s\<lparr>microTasksThreshhold := sint (word_of_int n :: 32 word)\<rparr>)"

definition mt_init :: "sys \<Rightarrow> int \<Rightarrow> mtstate" where
  "mt_init m procs = \<lparr>mtSys = m, mts = Map.empty, nextMt = 0, microTasks = 0, microTasksThreshhold = procs * 2,
     mediumPriorityClearance = [], lowPriorityClearance = [], clearanceQueueSize = nat procs * 100, cleared = {},
     microTaskFinished = False, mtScheduler = MSLoop\<rparr>"

subsection \<open>Microtasks\<close>

definition set_phase :: "nat \<Rightarrow> mphase \<Rightarrow> mtstate \<Rightarrow> mtstate" where
  "set_phase i ph s = s\<lparr>mts := (mts s)(i := map_option (\<lambda>t. t\<lparr>mtPhase := ph\<rparr>) (mts s i))\<rparr>"

definition add_microtask :: "string \<Rightarrow> mpriority \<Rightarrow> mphase \<Rightarrow> mtstate \<Rightarrow> mtstate" where
  "add_microtask m p ph s =
     s\<lparr>mts := (mts s)(nextMt s \<mapsto> \<lparr>mtModule = m, mtPriority = p, mtPhase = ph\<rparr>), nextMt := Suc (nextMt s)\<rparr>"

text \<open>The calls that run or signal a microtask, up to the first wait; they do nothing for a module that is \<open>nil\<close>.\<close>

definition RunHighPriorityMicroTask :: "string option \<Rightarrow> mtstate \<Rightarrow> mtstate" where
  "RunHighPriorityMicroTask mo s =
     (case mo of None \<Rightarrow> s | Some m \<Rightarrow> add_microtask m HighPriority MStarted (s\<lparr>microTasks := microTasks s + 1\<rparr>))"

definition RunMicroTask :: "string option \<Rightarrow> mtstate \<Rightarrow> mtstate" where
  "RunMicroTask mo s = (case mo of None \<Rightarrow> s | Some m \<Rightarrow> add_microtask m MediumPriority MSubmit s)"

definition RunLowPriorityMicroTask :: "string option \<Rightarrow> mtstate \<Rightarrow> mtstate" where
  "RunLowPriorityMicroTask mo s = (case mo of None \<Rightarrow> s | Some m \<Rightarrow> add_microtask m LowPriority MSubmit s)"

text \<open>\<open>getMediumPriorityClearance\<close> and \<open>getLowPriorityClearance\<close>: submitting the signal, giving up on that, the signal, and giving up on
  waiting for it.\<close>

definition clearance_queue :: "mpriority \<Rightarrow> mtstate \<Rightarrow> nat list" where
  "clearance_queue p s = (if p = MediumPriority then mediumPriorityClearance s else lowPriorityClearance s)"

definition submit_signal :: "nat \<Rightarrow> mpriority \<Rightarrow> mtstate \<Rightarrow> mtstate" where
  "submit_signal i p s =
     set_phase i MWait
       (if p = MediumPriority then s\<lparr>mediumPriorityClearance := mediumPriorityClearance s @ [i]\<rparr>
        else s\<lparr>lowPriorityClearance := lowPriorityClearance s @ [i]\<rparr>)"

definition submit_timeout :: "nat \<Rightarrow> mtstate \<Rightarrow> mtstate" where
  "submit_timeout i s = set_phase i MStarted (s\<lparr>microTasks := microTasks s + 1\<rparr>)"

text \<open>\<open>runMicroTask\<close> and \<open>signalMicroTask\<close> up to the function, and \<open>concludeMicroTask\<close> in two steps.\<close>

definition mt_begin :: "nat \<Rightarrow> microtask \<Rightarrow> mtstate \<Rightarrow> mtstate" where
  "mt_begin i t s = set_phase i MRunning (s\<lparr>mtSys := upd (mtModule t) (\<lambda>m. m\<lparr>microTaskCnt := microTaskCnt m + 1\<rparr>) (mtSys s)\<rparr>)"

definition concludeMicroTask_module :: "nat \<Rightarrow> microtask \<Rightarrow> mtstate \<Rightarrow> mtstate" where
  "concludeMicroTask_module i t s =
     set_phase i MEnding (s\<lparr>mtSys := checkIfStopComplete (mtModule t)
       (upd (mtModule t) (\<lambda>m. m\<lparr>microTaskCnt := microTaskCnt m - 1\<rparr>) (mtSys s))\<rparr>)"

definition concludeMicroTask_count :: "nat \<Rightarrow> mtstate \<Rightarrow> mtstate" where
  "concludeMicroTask_count i s = set_phase i MDone (s\<lparr>microTasks := microTasks s - 1, microTaskFinished := True\<rparr>)"

text \<open>The function that \<open>signalMicroTask\<close> returns: it concludes the microtask when it is called for the first time.\<close>

definition signal_done :: "nat \<Rightarrow> mtstate \<Rightarrow> mtstate" where
  "signal_done i s =
     (case mts s i of Some t \<Rightarrow> if mtPhase t = MRunning then concludeMicroTask_module i t s else s | None \<Rightarrow> s)"

subsection \<open>Steps\<close>

definition clear_signal :: "mscheduler \<Rightarrow> nat \<Rightarrow> mtstate \<Rightarrow> mtstate" where
  "clear_signal nxt i s = s\<lparr>cleared := insert i (cleared s), mtScheduler := nxt\<rparr>"

inductive sched_step :: "mtstate \<Rightarrow> mtstate \<Rightarrow> bool" where
  to_shutdown: "mtScheduler s = MSLoop \<Longrightarrow> shutdownFlag (mtSys s) \<Longrightarrow> sched_step s (s\<lparr>mtScheduler := MSShutdown\<rparr>)"
| space: "mtScheduler s = MSLoop \<Longrightarrow> \<not> shutdownFlag (mtSys s) \<Longrightarrow> microTasks s < microTasksThreshhold s \<Longrightarrow>
    sched_step s (s\<lparr>mtScheduler := MSMedium\<rparr>)"
| full: "mtScheduler s = MSLoop \<Longrightarrow> \<not> shutdownFlag (mtSys s) \<Longrightarrow> \<not> microTasks s < microTasksThreshhold s \<Longrightarrow>
    sched_step s (s\<lparr>mtScheduler := MSFull\<rparr>)"
| finished: "mtScheduler s = MSFull \<Longrightarrow> microTaskFinished s \<Longrightarrow> sched_step s (s\<lparr>mtScheduler := MSLoop, microTaskFinished := False\<rparr>)"
| recheck: "mtScheduler s = MSFull \<Longrightarrow> sched_step s (s\<lparr>mtScheduler := MSLoop\<rparr>)"
| no_medium: "mtScheduler s = MSMedium \<Longrightarrow> mediumPriorityClearance s = [] \<Longrightarrow> sched_step s (s\<lparr>mtScheduler := MSMediumLow\<rparr>)"
| no_low: "mtScheduler s = MSMediumLow \<Longrightarrow> mediumPriorityClearance s = [] \<Longrightarrow> lowPriorityClearance s = [] \<Longrightarrow>
    sched_step s (s\<lparr>mtScheduler := MSAny\<rparr>)"
| take_medium: "mtScheduler s \<in> {MSMedium, MSMediumLow, MSAny} \<Longrightarrow> mediumPriorityClearance s = i # is \<Longrightarrow>
    sched_step s (clear_signal MSCount i (s\<lparr>mediumPriorityClearance := is\<rparr>))"
| take_low: "mtScheduler s \<in> {MSMediumLow, MSAny} \<Longrightarrow> lowPriorityClearance s = i # is \<Longrightarrow>
    sched_step s (clear_signal MSCount i (s\<lparr>lowPriorityClearance := is\<rparr>))"
| other: "mtScheduler s = MSAny \<Longrightarrow> sched_step s (s\<lparr>mtScheduler := MSLoop\<rparr>)"
| count: "mtScheduler s = MSCount \<Longrightarrow> sched_step s (s\<lparr>mtScheduler := MSLoop, microTasks := microTasks s + 1\<rparr>)"
| shutdown_medium: "mtScheduler s = MSShutdown \<Longrightarrow> mediumPriorityClearance s = i # is \<Longrightarrow>
    sched_step s (clear_signal MSShutdownCount i (s\<lparr>mediumPriorityClearance := is\<rparr>))"
| shutdown_low: "mtScheduler s = MSShutdown \<Longrightarrow> lowPriorityClearance s = i # is \<Longrightarrow>
    sched_step s (clear_signal MSShutdownCount i (s\<lparr>lowPriorityClearance := is\<rparr>))"
| shutdown_count: "mtScheduler s = MSShutdownCount \<Longrightarrow>
    sched_step s (s\<lparr>mtScheduler := MSShutdown, microTasks := microTasks s + 1\<rparr>)"

text \<open>Steps in which nobody loses patience and nothing has high priority, with \<open>urgent = False\<close>, or all steps.\<close>

inductive mt_step :: "bool \<Rightarrow> mtstate \<Rightarrow> mtstate \<Rightarrow> bool" for urgent where
  scheduler: "sched_step s s' \<Longrightarrow> urgent \<or> mtScheduler s' \<noteq> MSShutdown \<Longrightarrow> mt_step urgent s s'"
| high: "urgent \<Longrightarrow> mt_step urgent s (RunHighPriorityMicroTask mo s)"
| medium: "mt_step urgent s (RunMicroTask mo s)"
| low: "mt_step urgent s (RunLowPriorityMicroTask mo s)"
| submit: "mts s i = Some t \<Longrightarrow> mtPhase t = MSubmit \<Longrightarrow> length (clearance_queue (mtPriority t) s) < clearanceQueueSize s \<Longrightarrow>
    mt_step urgent s (submit_signal i (mtPriority t) s)"
| submit_late: "urgent \<Longrightarrow> mts s i = Some t \<Longrightarrow> mtPhase t = MSubmit \<Longrightarrow> mt_step urgent s (submit_timeout i s)"
| clear: "mts s i = Some t \<Longrightarrow> mtPhase t = MWait \<Longrightarrow> i \<in> cleared s \<Longrightarrow> mt_step urgent s (set_phase i MStarted s)"
| wait_late: "urgent \<Longrightarrow> mts s i = Some t \<Longrightarrow> mtPhase t = MWait \<Longrightarrow> mt_step urgent s (set_phase i MStarted s)"
| run: "mts s i = Some t \<Longrightarrow> mtPhase t = MStarted \<Longrightarrow> mt_step urgent s (mt_begin i t s)"
| conclude: "mts s i = Some t \<Longrightarrow> mtPhase t = MRunning \<Longrightarrow> mt_step urgent s (concludeMicroTask_module i t s)"
| signal: "mt_step urgent s (signal_done i s)"
| conclude_count: "mts s i = Some t \<Longrightarrow> mtPhase t = MEnding \<Longrightarrow> mt_step urgent s (concludeMicroTask_count i s)"
| modules: "mt_step urgent s (s\<lparr>mtSys := m\<rparr>)"
| threshold: "urgent \<Longrightarrow> mt_step urgent s (SetMaxConcurrentMicroTasks n s)"

subsection \<open>The counter\<close>

text \<open>The microtasks in the given phases.\<close>

definition in_phase :: "mphase set \<Rightarrow> mtstate \<Rightarrow> nat set" where
  "in_phase P s = {i. \<exists>t. mts s i = Some t \<and> mtPhase t \<in> P}"

definition mt_known :: "mtstate \<Rightarrow> bool" where
  "mt_known s \<longleftrightarrow> dom (mts s) \<subseteq> {..<nextMt s}"

definition uncounted :: "mtstate \<Rightarrow> int" where
  "uncounted s = of_bool (mtScheduler s = MSCount \<or> mtScheduler s = MSShutdownCount)"

definition counted :: "mtstate \<Rightarrow> bool" where
  "counted s \<longleftrightarrow> microTasks s + uncounted s + int (length (mediumPriorityClearance s) + length (lowPriorityClearance s)) =
     int (card (in_phase {MWait, MStarted, MRunning, MEnding} s))"

lemma in_phase_finite: "mt_known s \<Longrightarrow> finite (in_phase P s)"
  by (rule finite_subset[of _ "{..<nextMt s}"]) (auto simp: in_phase_def mt_known_def)

lemma in_phase_set_phase:
  "mts s i = Some t \<Longrightarrow> in_phase P (set_phase i ph s) = (if ph \<in> P then insert i (in_phase P s) else in_phase P s - {i})"
  by (auto simp: in_phase_def set_phase_def split: if_splits)

lemma in_phase_mem: "mts s i = Some t \<Longrightarrow> i \<in> in_phase P s \<longleftrightarrow> mtPhase t \<in> P"
  by (simp add: in_phase_def)

lemma in_phase_add:
  "mt_known s \<Longrightarrow> in_phase P (add_microtask m p ph s) = (if ph \<in> P then insert (nextMt s) (in_phase P s) else in_phase P s)"
  by (auto simp: in_phase_def add_microtask_def mt_known_def split: if_splits)

lemma in_phase_same: "mts s' = mts s \<Longrightarrow> in_phase P s' = in_phase P s"
  by (simp add: in_phase_def)

lemma card_in_phase:
  assumes "mt_known s" "mts s i = Some t"
  shows "card (in_phase P (set_phase i ph s)) + of_bool (mtPhase t \<in> P) = card (in_phase P s) + of_bool (ph \<in> P)"
proof -
  have f: "finite (in_phase P s)" using in_phase_finite[OF assms(1)] .
  have m: "i \<in> in_phase P s \<longleftrightarrow> mtPhase t \<in> P" using in_phase_mem[OF assms(2)] .
  have p: "mtPhase t \<in> P \<Longrightarrow> 0 < card (in_phase P s)" using m f card_gt_0_iff by blast
  show ?thesis using in_phase_set_phase[OF assms(2), of P ph] f m p
    by (cases "ph \<in> P"; cases "mtPhase t \<in> P") (simp_all add: insert_absorb card_Diff_singleton)
qed

lemma set_phase_simps [simp]:
  "microTasks (set_phase i ph s) = microTasks s" "mtScheduler (set_phase i ph s) = mtScheduler s" "nextMt (set_phase i ph s) = nextMt s"
  "mediumPriorityClearance (set_phase i ph s) = mediumPriorityClearance s" "lowPriorityClearance (set_phase i ph s) = lowPriorityClearance s"
  "cleared (set_phase i ph s) = cleared s" "microTasksThreshhold (set_phase i ph s) = microTasksThreshhold s" "mtSys (set_phase i ph s) = mtSys s"
  "dom (mts (set_phase i ph s)) = dom (mts s)" "uncounted (set_phase i ph s) = uncounted s"
  by (auto simp: set_phase_def uncounted_def dom_def)

lemma add_microtask_simps [simp]:
  "microTasks (add_microtask m p ph s) = microTasks s" "mtScheduler (add_microtask m p ph s) = mtScheduler s"
  "mediumPriorityClearance (add_microtask m p ph s) = mediumPriorityClearance s" "lowPriorityClearance (add_microtask m p ph s) = lowPriorityClearance s"
  "cleared (add_microtask m p ph s) = cleared s" "microTasksThreshhold (add_microtask m p ph s) = microTasksThreshhold s"
  "nextMt (add_microtask m p ph s) = Suc (nextMt s)" "uncounted (add_microtask m p ph s) = uncounted s"
  by (simp_all add: add_microtask_def uncounted_def)

lemma phase_updates:
  "set_phase i ph (s\<lparr>microTasks := c\<rparr>) = (set_phase i ph s)\<lparr>microTasks := c\<rparr>" "set_phase i ph (s\<lparr>mtSys := m\<rparr>) = (set_phase i ph s)\<lparr>mtSys := m\<rparr>"
  "set_phase i ph (s\<lparr>mediumPriorityClearance := q\<rparr>) = (set_phase i ph s)\<lparr>mediumPriorityClearance := q\<rparr>"
  "set_phase i ph (s\<lparr>lowPriorityClearance := q\<rparr>) = (set_phase i ph s)\<lparr>lowPriorityClearance := q\<rparr>"
  "set_phase i ph (s\<lparr>microTaskFinished := b\<rparr>) = (set_phase i ph s)\<lparr>microTaskFinished := b\<rparr>"
  by (simp_all add: set_phase_def)

lemma in_phase_updates [simp]:
  "in_phase P (s\<lparr>microTasks := c\<rparr>) = in_phase P s" "in_phase P (s\<lparr>mtSys := m\<rparr>) = in_phase P s"
  "in_phase P (s\<lparr>mediumPriorityClearance := q\<rparr>) = in_phase P s" "in_phase P (s\<lparr>lowPriorityClearance := q\<rparr>) = in_phase P s"
  "in_phase P (s\<lparr>microTaskFinished := b\<rparr>) = in_phase P s" "in_phase P (s\<lparr>mtScheduler := x\<rparr>) = in_phase P s"
  "in_phase P (s\<lparr>cleared := x2\<rparr>) = in_phase P s" "in_phase P (s\<lparr>microTasksThreshhold := n\<rparr>) = in_phase P s"
  by (simp_all add: in_phase_def)

lemma add_known: "mt_known s \<Longrightarrow> mt_known (add_microtask m p ph s)"
  by (auto simp: mt_known_def add_microtask_def less_Suc_eq)

lemma mt_known_step: "mt_step u s s' \<Longrightarrow> mt_known s \<Longrightarrow> mt_known s'"
proof (induction rule: mt_step.induct)
  case (scheduler s s')
  then show ?case by cases (auto simp: mt_known_def clear_signal_def)
qed (auto simp: RunHighPriorityMicroTask_def RunMicroTask_def RunLowPriorityMicroTask_def submit_signal_def submit_timeout_def
    mt_begin_def concludeMicroTask_module_def concludeMicroTask_count_def signal_done_def SetMaxConcurrentMicroTasks_def
    phase_updates intro!: add_known split: option.splits, auto simp: mt_known_def)

lemma counted_sched: "sched_step s s' \<Longrightarrow> counted s \<Longrightarrow> counted s'"
  by (induction rule: sched_step.induct) (auto simp: counted_def uncounted_def clear_signal_def)

lemma counted_step:
  assumes "mt_step u s s'" "mt_known s" "counted s"
  shows "counted s'"
  using assms(1)
proof cases
  case scheduler
  then show ?thesis using counted_sched assms(3) by blast
next
  case (high mo)
  have "nextMt s \<notin> in_phase P s" for P using assms(2) by (auto simp: mt_known_def in_phase_def)
  then show ?thesis using high assms(2,3) in_phase_finite[OF assms(2)] in_phase_add[of "s\<lparr>microTasks := microTasks s + 1\<rparr>"]
    by (auto simp: RunHighPriorityMicroTask_def counted_def uncounted_def mt_known_def split: option.split)
next
  case (submit i t)
  then show ?thesis using assms(3) card_in_phase[OF assms(2) submit(2), of "{MWait, MStarted, MRunning, MEnding}" MWait]
    by (auto simp: submit_signal_def phase_updates counted_def uncounted_def)
next
  case (submit_late i t)
  then show ?thesis using assms(3) card_in_phase[OF assms(2) submit_late(3), of "{MWait, MStarted, MRunning, MEnding}" MStarted]
    by (auto simp: submit_timeout_def phase_updates counted_def uncounted_def)
next
  case (clear i t)
  then show ?thesis using assms(3) card_in_phase[OF assms(2) clear(2), of "{MWait, MStarted, MRunning, MEnding}" MStarted]
    by (auto simp: counted_def uncounted_def)
next
  case (wait_late i t)
  then show ?thesis using assms(3) card_in_phase[OF assms(2) wait_late(3), of "{MWait, MStarted, MRunning, MEnding}" MStarted]
    by (auto simp: counted_def uncounted_def)
next
  case (run i t)
  then show ?thesis using assms(3) card_in_phase[OF assms(2) run(2), of "{MWait, MStarted, MRunning, MEnding}" MRunning]
    by (auto simp: mt_begin_def phase_updates counted_def uncounted_def)
next
  case (conclude i t)
  then show ?thesis using assms(3) card_in_phase[OF assms(2) conclude(2), of "{MWait, MStarted, MRunning, MEnding}" MEnding]
    by (auto simp: concludeMicroTask_module_def phase_updates counted_def uncounted_def)
next
  case (signal i)
  then show ?thesis using assms(3) card_in_phase[OF assms(2), of i _ "{MWait, MStarted, MRunning, MEnding}" MEnding]
    by (auto simp: signal_done_def concludeMicroTask_module_def phase_updates counted_def uncounted_def split: option.split)
next
  case (conclude_count i t)
  then show ?thesis using assms(3) card_in_phase[OF assms(2) conclude_count(2), of "{MWait, MStarted, MRunning, MEnding}" MDone]
    by (auto simp: concludeMicroTask_count_def phase_updates counted_def uncounted_def)
qed (use assms in \<open>auto simp: RunMicroTask_def RunLowPriorityMicroTask_def in_phase_add SetMaxConcurrentMicroTasks_def counted_def uncounted_def
    split: option.split\<close>)

subsection \<open>The limit\<close>

text \<open>Without high priorities, impatience and a shutdown: the queues have exactly the microtasks that wait without clearance, and those with
  clearance are counted and within the limit.\<close>

definition waiting :: "mtstate \<Rightarrow> nat set" where
  "waiting s = in_phase {MWait} s - cleared s"

definition granted :: "mtstate \<Rightarrow> nat set" where
  "granted s = in_phase {MWait, MStarted, MRunning, MEnding} s - waiting s"

definition limited :: "mtstate \<Rightarrow> bool" where
  "limited s \<longleftrightarrow> mt_known s \<and> counted s \<and> distinct (mediumPriorityClearance s @ lowPriorityClearance s) \<and>
     set (mediumPriorityClearance s @ lowPriorityClearance s) = waiting s \<and> cleared s \<subseteq> {..<nextMt s} - in_phase {MSubmit} s \<and>
     microTasks s + uncounted s \<le> max 0 (microTasksThreshhold s) \<and> mtScheduler s \<notin> {MSShutdown, MSShutdownCount} \<and>
     (mtScheduler s \<in> {MSMedium, MSMediumLow, MSAny} \<longrightarrow> microTasks s < microTasksThreshhold s)"

lemma granted_card:
  assumes "limited s"
  shows "int (card (granted s)) = microTasks s + uncounted s"
proof -
  let ?q = "mediumPriorityClearance s @ lowPriorityClearance s"
  have k: "mt_known s" and c: "counted s" and d: "distinct ?q" and w: "set ?q = waiting s" using assms by (simp_all add: limited_def)
  have f: "finite (in_phase {MWait, MStarted, MRunning, MEnding} s)" using in_phase_finite[OF k] .
  have sub: "waiting s \<subseteq> in_phase {MWait, MStarted, MRunning, MEnding} s" by (auto simp: waiting_def in_phase_def)
  have "card (waiting s) = length ?q" using distinct_card[OF d] w by simp
  then have "card (granted s) = card (in_phase {MWait, MStarted, MRunning, MEnding} s) - length ?q"
    unfolding granted_def using card_Diff_subset[OF finite_subset[OF sub f] sub] by simp
  moreover have "length ?q \<le> card (in_phase {MWait, MStarted, MRunning, MEnding} s)"
    using card_mono[OF f sub] \<open>card (waiting s) = length ?q\<close> by simp
  ultimately show ?thesis using c by (simp add: counted_def)
qed

lemma in_phase_set_phase_single:
  "mts s i = Some t \<Longrightarrow> in_phase {p} (set_phase i ph s) = (if ph = p then insert i (in_phase {p} s) else in_phase {p} s - {i})"
  using in_phase_set_phase[of s i t "{p}" ph] by simp

lemma limited_sched:
  assumes "sched_step s s'" "limited s" "mtScheduler s' \<noteq> MSShutdown"
  shows "limited s'"
proof -
  have "mt_known s'" using mt_known_step[of True s s'] mt_step.scheduler[OF assms(1), of True] assms(2) by (simp add: limited_def)
  moreover have "counted s'" using counted_sched[OF assms(1)] assms(2) by (simp add: limited_def)
  moreover have "i < nextMt s \<and> i \<notin> in_phase {MSubmit} s" if "i \<in> waiting s" for i
    using that assms(2) by (auto simp: waiting_def in_phase_def limited_def mt_known_def)
  ultimately have k: "mt_known s'" "counted s'" "\<And>i. i \<in> waiting s \<Longrightarrow> i < nextMt s \<and> i \<notin> in_phase {MSubmit} s" by blast+
  have l: "distinct (mediumPriorityClearance s @ lowPriorityClearance s)" "set (mediumPriorityClearance s @ lowPriorityClearance s) = waiting s"
    "cleared s \<subseteq> {..<nextMt s} - in_phase {MSubmit} s" "microTasks s + uncounted s \<le> max 0 (microTasksThreshhold s)"
    "mtScheduler s \<notin> {MSShutdown, MSShutdownCount}" "mtScheduler s \<in> {MSMedium, MSMediumLow, MSAny} \<longrightarrow> microTasks s < microTasksThreshhold s"
    using assms(2) by (simp_all add: limited_def)
  have clear: "limited (clear_signal MSCount i s1)"
    if s1: "s1 = s\<lparr>mediumPriorityClearance := a\<rparr> \<or> s1 = s\<lparr>lowPriorityClearance := a\<rparr>" and i: "i \<in> waiting s"
      and q: "distinct (mediumPriorityClearance s1 @ lowPriorityClearance s1)" "set (mediumPriorityClearance s1 @ lowPriorityClearance s1) = waiting s - {i}"
      and n: "microTasks s < microTasksThreshhold s" and inv: "mt_known (clear_signal MSCount i s1)" "counted (clear_signal MSCount i s1)" for s1 i a
  proof -
    have f: "in_phase P (clear_signal MSCount i s1) = in_phase P s" "cleared (clear_signal MSCount i s1) = insert i (cleared s)"
      "nextMt (clear_signal MSCount i s1) = nextMt s" "microTasks (clear_signal MSCount i s1) = microTasks s"
      "microTasksThreshhold (clear_signal MSCount i s1) = microTasksThreshhold s" "mtScheduler (clear_signal MSCount i s1) = MSCount"
      "mediumPriorityClearance (clear_signal MSCount i s1) = mediumPriorityClearance s1"
      "lowPriorityClearance (clear_signal MSCount i s1) = lowPriorityClearance s1" for P
      using s1 by (auto simp: clear_signal_def in_phase_def)
    have "waiting (clear_signal MSCount i s1) = waiting s - {i}" unfolding waiting_def f by auto
    then show ?thesis unfolding limited_def uncounted_def f using q n inv k(3)[OF i] l(3) by simp
  qed
  from assms(1) show ?thesis
  proof cases
    case (take_medium i js)
    then have "i \<in> waiting s" "set js \<union> set (lowPriorityClearance s) = waiting s - {i}" "distinct (js @ lowPriorityClearance s)"
      using l(1,2) by auto
    then show ?thesis using clear[of "s\<lparr>mediumPriorityClearance := js\<rparr>" js i] take_medium k(1,2) l(6) by simp
  next
    case (take_low i js)
    then have "i \<in> waiting s" "set (mediumPriorityClearance s) \<union> set js = waiting s - {i}" "distinct (mediumPriorityClearance s @ js)"
      using l(1,2) by auto
    then show ?thesis using clear[of "s\<lparr>lowPriorityClearance := js\<rparr>" js i] take_low k(1,2) l(6) by auto
  qed (use assms(3) k(1,2) l in \<open>simp_all add: limited_def uncounted_def waiting_def\<close>)
qed

lemma waiting_updates [simp]:
  "waiting (s\<lparr>microTasks := c\<rparr>) = waiting s" "waiting (s\<lparr>mtSys := m\<rparr>) = waiting s" "waiting (s\<lparr>microTaskFinished := b\<rparr>) = waiting s"
  "waiting (s\<lparr>mediumPriorityClearance := q\<rparr>) = waiting s" "waiting (s\<lparr>lowPriorityClearance := q\<rparr>) = waiting s"
  by (simp_all add: waiting_def)

lemma waiting_set_phase:
  assumes "mts s i = Some t" "ph \<notin> {MSubmit, MWait}" "mtPhase t \<noteq> MWait \<or> i \<in> cleared s"
  shows "waiting (set_phase i ph s) = waiting s" "in_phase {MSubmit} (set_phase i ph s) \<subseteq> in_phase {MSubmit} s"
  using assms in_phase_mem[OF assms(1), of "{MWait}"] by (auto simp: waiting_def in_phase_set_phase_single[OF assms(1)])

lemma limited_later:
  assumes "limited s" "mts s i = Some t" "ph \<notin> {MSubmit, MWait}" "mtPhase t \<noteq> MWait \<or> i \<in> cleared s"
    "mt_known s'" "counted s'" "s' = (set_phase i ph s)\<lparr>microTasks := c, mtSys := m, microTaskFinished := b\<rparr>" "c \<le> microTasks s"
  shows "limited s'"
  using assms(1,5,6,8) waiting_set_phase[OF assms(2-4)] unfolding limited_def assms(7) by (auto simp: uncounted_def)

lemma limited_add:
  assumes "limited s" "mt_known (add_microtask m p MSubmit s)" "counted (add_microtask m p MSubmit s)"
  shows "limited (add_microtask m p MSubmit s)"
proof -
  have k: "mt_known s" using assms(1) by (simp add: limited_def)
  have "waiting (add_microtask m p MSubmit s) = waiting s" by (simp add: waiting_def in_phase_add[OF k])
  then show ?thesis using assms in_phase_add[OF k, of "{MSubmit}" m p MSubmit] by (auto simp: limited_def)
qed

lemma limited_submit:
  assumes "limited s" "mts s i = Some t" "mtPhase t = MSubmit" "mt_known (submit_signal i p s)" "counted (submit_signal i p s)"
  shows "limited (submit_signal i p s)"
proof -
  have i: "i \<notin> cleared s" "i \<notin> waiting s" using assms(1-3) in_phase_mem[OF assms(2)] by (auto simp: limited_def waiting_def)
  have w: "waiting (set_phase i MWait s) = insert i (waiting s)" "in_phase {MSubmit} (set_phase i MWait s) \<subseteq> in_phase {MSubmit} s"
    using i(1) by (auto simp: waiting_def in_phase_set_phase_single[OF assms(2)])
  then show ?thesis using assms(1,4,5) i by (auto simp: limited_def submit_signal_def phase_updates uncounted_def)
qed

lemma limited_step:
  assumes "mt_step False s s'" "limited s"
  shows "limited s'"
proof -
  have inv: "mt_known s'" "counted s'"
    using mt_known_step[OF assms(1)] counted_step[OF assms(1)] assms(2) by (auto simp: limited_def)
  have later: "limited s'" if "mts s i = Some t" "ph \<notin> {MSubmit, MWait}" "mtPhase t \<noteq> MWait \<or> i \<in> cleared s"
    "s' = (set_phase i ph s)\<lparr>microTasks := c, mtSys := m, microTaskFinished := b\<rparr>" "c \<le> microTasks s" for i t ph b m c
    using limited_later[OF assms(2) that(1-3) inv that(4,5)] .
  from assms(1) show ?thesis
  proof cases
    case scheduler
    then show ?thesis using limited_sched[OF _ assms(2)] by blast
  next
    case (clear i t)
    then show ?thesis by (intro later[of i t MStarted "microTaskFinished s" "mtSys s" "microTasks s"]) (simp_all add: set_phase_def)
  next
    case (run i t)
    then show ?thesis by (intro later[of i t MRunning "microTaskFinished s" "mtSys s'" "microTasks s"]) (simp_all add: mt_begin_def set_phase_def)
  next
    case (conclude i t)
    then show ?thesis
      by (intro later[of i t MEnding "microTaskFinished s" "mtSys s'" "microTasks s"]) (simp_all add: concludeMicroTask_module_def set_phase_def)
  next
    case (signal i)
    show ?thesis
    proof (cases "\<exists>t. mts s i = Some t \<and> mtPhase t = MRunning")
      case True
      then obtain t where "mts s i = Some t" "mtPhase t = MRunning" by blast
      then show ?thesis using signal
        by (intro later[of i t MEnding "microTaskFinished s" "mtSys s'" "microTasks s"])
          (simp_all add: signal_done_def concludeMicroTask_module_def set_phase_def)
    qed (use signal assms(2) in \<open>auto simp: signal_done_def split: option.splits\<close>)
  next
    case (conclude_count i t)
    then show ?thesis by (intro later[of i t MDone True "mtSys s" "microTasks s - 1"]) (simp_all add: concludeMicroTask_count_def set_phase_def)
  next
    case (medium mo)
    then show ?thesis using assms(2) inv by (cases mo) (simp_all add: RunMicroTask_def limited_add)
  next
    case (low mo)
    then show ?thesis using assms(2) inv by (cases mo) (simp_all add: RunLowPriorityMicroTask_def limited_add)
  next
    case (submit i t)
    then show ?thesis using limited_submit[OF assms(2) submit(2,3)] inv by simp
  next
    case (modules m)
    have "uncounted (s\<lparr>mtSys := m\<rparr>) = uncounted s" by (simp add: uncounted_def)
    then show ?thesis using modules assms(2) inv by (simp add: limited_def)
  qed simp_all
qed

lemma mt_init_inv: "mt_known (mt_init m n)" "counted (mt_init m n)" "limited (mt_init m n)"
  by (simp_all add: mt_init_def mt_known_def counted_def limited_def uncounted_def waiting_def in_phase_def)

lemma mt_reach_counted: "(mt_step u)\<^sup>*\<^sup>* (mt_init m n) s \<Longrightarrow> mt_known s \<and> counted s"
  by (induction rule: rtranclp_induct) (auto intro: mt_init_inv mt_known_step counted_step)

lemma mt_reach_limited: "(mt_step False)\<^sup>*\<^sup>* (mt_init m n) s \<Longrightarrow> limited s"
  by (induction rule: rtranclp_induct) (auto intro: mt_init_inv limited_step)

text \<open>C12. The counter of microtasks is exact: in every reachable state it is the number of microtasks that have asked for clearance or
  started and have not ended, less the signals the scheduler has not handled yet; so when all have ended and their signals are
  handled, it is zero again. While nothing has high priority, nobody gives up waiting, the limit is not changed and there is no
  shutdown, no more microtasks run at the same time than the limit says.\<close>

theorem microtasks_accounted:
  "((mt_step u)\<^sup>*\<^sup>* (mt_init m n) s \<longrightarrow>
      microTasks s + (if mtScheduler s \<in> {MSCount, MSShutdownCount} then 1 else 0) +
        int (length (mediumPriorityClearance s) + length (lowPriorityClearance s)) =
      int (card {i. \<exists>t. mts s i = Some t \<and> mtPhase t \<in> {MWait, MStarted, MRunning, MEnding}})) \<and>
   ((mt_step u)\<^sup>*\<^sup>* (mt_init m n) s \<and> (\<forall>i t. mts s i = Some t \<longrightarrow> mtPhase t \<in> {MSubmit, MDone}) \<and>
      mediumPriorityClearance s = [] \<and> lowPriorityClearance s = [] \<and> mtScheduler s \<notin> {MSCount, MSShutdownCount} \<longrightarrow> microTasks s = 0) \<and>
   ((mt_step False)\<^sup>*\<^sup>* (mt_init m n) s \<longrightarrow>
      int (card {i. \<exists>t. mts s i = Some t \<and> mtPhase t \<in> {MStarted, MRunning, MEnding}}) \<le> max 0 (microTasksThreshhold s))"
proof (intro conjI impI)
  assume "(mt_step u)\<^sup>*\<^sup>* (mt_init m n) s"
  then have "counted s" using mt_reach_counted by blast
  then show c: "microTasks s + (if mtScheduler s \<in> {MSCount, MSShutdownCount} then 1 else 0) +
        int (length (mediumPriorityClearance s) + length (lowPriorityClearance s)) =
      int (card {i. \<exists>t. mts s i = Some t \<and> mtPhase t \<in> {MWait, MStarted, MRunning, MEnding}})"
    by (auto simp: counted_def uncounted_def in_phase_def)
next
  assume a: "(mt_step u)\<^sup>*\<^sup>* (mt_init m n) s \<and> (\<forall>i t. mts s i = Some t \<longrightarrow> mtPhase t \<in> {MSubmit, MDone}) \<and>
      mediumPriorityClearance s = [] \<and> lowPriorityClearance s = [] \<and> mtScheduler s \<notin> {MSCount, MSShutdownCount}"
  then have "in_phase {MWait, MStarted, MRunning, MEnding} s = {}" by (fastforce simp: in_phase_def)
  then show "microTasks s = 0" using a mt_reach_counted[of u m n s] by (auto simp: counted_def uncounted_def)
next
  assume "(mt_step False)\<^sup>*\<^sup>* (mt_init m n) s"
  then have l: "limited s" by (rule mt_reach_limited)
  have "in_phase {MStarted, MRunning, MEnding} s \<subseteq> granted s" by (auto simp: granted_def waiting_def in_phase_def)
  moreover have "finite (granted s)" using in_phase_finite[of s] l by (auto simp: granted_def limited_def)
  ultimately have "card (in_phase {MStarted, MRunning, MEnding} s) \<le> card (granted s)" by (rule card_mono[rotated])
  then show "int (card {i. \<exists>t. mts s i = Some t \<and> mtPhase t \<in> {MStarted, MRunning, MEnding}}) \<le> max 0 (microTasksThreshhold s)"
    using granted_card[OF l] l by (simp add: limited_def in_phase_def)
qed

text \<open>A limit of \<open>2\<^sup>3\<^sup>1\<close> becomes negative, and the scheduler gives no clearance any more.\<close>

lemma threshold_wraps:
  assumes "s' = SetMaxConcurrentMicroTasks (2 ^ 31) s" "mtScheduler s' = MSLoop" "0 \<le> microTasks s'" "sched_step s' s''"
  shows "microTasksThreshhold s' = - (2 ^ 31) \<and> mtScheduler s'' \<in> {MSFull, MSShutdown}"
proof -
  have "sint (word_of_int (2 ^ 31) :: 32 word) = - (2 ^ 31)" by simp
  then have t: "microTasksThreshhold s' = - (2 ^ 31)" using assms(1) by (simp add: SetMaxConcurrentMicroTasks_def)
  from assms(4) have "mtScheduler s'' \<in> {MSFull, MSShutdown}" using assms(2,3) t by cases auto
  with t show ?thesis by simp
qed

subsection \<open>A sample run\<close>

definition sample_mt :: "mphase \<Rightarrow> int \<Rightarrow> nat set \<Rightarrow> sys \<Rightarrow> mtstate" where
  "sample_mt ph c cl m = (mt_init m 1)\<lparr>mts := [0 \<mapsto> \<lparr>mtModule = ''m'', mtPriority = MediumPriority, mtPhase = ph\<rparr>], nextMt := 1,
     microTasks := c, cleared := cl\<rparr>"

lemma sample_mt_reach:
  assumes "\<not> shutdownFlag m"
  shows "(mt_step False)\<^sup>*\<^sup>* (mt_init m 1) (sample_mt MStarted 1 {0} m)"
proof -
  let ?w = "(sample_mt MWait 0 {} m)\<lparr>mediumPriorityClearance := [0]\<rparr>"
  have "RunMicroTask (Some ''m'') (mt_init m 1) = sample_mt MSubmit 0 {} m"
    by (simp add: RunMicroTask_def add_microtask_def sample_mt_def mt_init_def)
  then have 1: "mt_step False (mt_init m 1) (sample_mt MSubmit 0 {} m)" by (metis mt_step.medium)
  have "submit_signal 0 MediumPriority (sample_mt MSubmit 0 {} m) = ?w"
    by (simp add: submit_signal_def set_phase_def sample_mt_def mt_init_def)
  then have 2: "mt_step False (sample_mt MSubmit 0 {} m) ?w"
    using mt_step.submit[of "sample_mt MSubmit 0 {} m" 0 _ False] by (auto simp: sample_mt_def mt_init_def clearance_queue_def)
  have "sched_step ?w (?w\<lparr>mtScheduler := MSMedium\<rparr>)"
    using assms by (intro sched_step.space) (simp_all add: sample_mt_def mt_init_def)
  then have 3: "mt_step False ?w (?w\<lparr>mtScheduler := MSMedium\<rparr>)" by (rule mt_step.scheduler) simp
  have "sched_step (?w\<lparr>mtScheduler := MSMedium\<rparr>) (clear_signal MSCount 0 (?w\<lparr>mtScheduler := MSMedium, mediumPriorityClearance := []\<rparr>))"
    by (rule sched_step.take_medium) (simp_all add: sample_mt_def mt_init_def)
  moreover have "clear_signal MSCount 0 (?w\<lparr>mtScheduler := MSMedium, mediumPriorityClearance := []\<rparr>) = (sample_mt MWait 0 {0} m)\<lparr>mtScheduler := MSCount\<rparr>"
    by (simp add: clear_signal_def sample_mt_def mt_init_def)
  ultimately have "sched_step (?w\<lparr>mtScheduler := MSMedium\<rparr>) ((sample_mt MWait 0 {0} m)\<lparr>mtScheduler := MSCount\<rparr>)" by (simp only:)
  then have 4: "mt_step False (?w\<lparr>mtScheduler := MSMedium\<rparr>) ((sample_mt MWait 0 {0} m)\<lparr>mtScheduler := MSCount\<rparr>)"
    by (rule mt_step.scheduler) simp
  have "sched_step ((sample_mt MWait 0 {0} m)\<lparr>mtScheduler := MSCount\<rparr>) (sample_mt MWait 1 {0} m)"
    using sched_step.count[of "(sample_mt MWait 0 {0} m)\<lparr>mtScheduler := MSCount\<rparr>"] by (simp add: sample_mt_def mt_init_def)
  then have 5: "mt_step False ((sample_mt MWait 0 {0} m)\<lparr>mtScheduler := MSCount\<rparr>) (sample_mt MWait 1 {0} m)"
    by (rule mt_step.scheduler) (simp add: sample_mt_def mt_init_def)
  have "set_phase 0 MStarted (sample_mt MWait 1 {0} m) = sample_mt MStarted 1 {0} m" by (simp add: set_phase_def sample_mt_def)
  then have 6: "mt_step False (sample_mt MWait 1 {0} m) (sample_mt MStarted 1 {0} m)"
    using mt_step.clear[of "sample_mt MWait 1 {0} m" 0 _ False] by (auto simp: sample_mt_def)
  show ?thesis using 1 2 3 4 5 6 by (meson rtranclp.rtrancl_into_rtrancl rtranclp.rtrancl_refl)
qed

definition no_modules :: sys where
  "no_modules = \<lparr>modules = [], store = (\<lambda>n. initNewModule n None None None []), modulesLocked = True, moduleMgmtEnabled = False,
     changeNotifyFn = False, failureUpdateReady = False, shutdownFlag = False, initialStartCompleted = True, changeLog = [],
     failureLog = [], goPanic = None\<rparr>"

theorem microtasks_accounted_witness:
  "microTasks (sample_mt MStarted 1 {0} no_modules) = 1 \<and> microTasks (mt_init no_modules 1) = 0 \<and>
   int (card {i. \<exists>t. mts (sample_mt MStarted 1 {0} no_modules) i = Some t \<and> mtPhase t \<in> {MStarted, MRunning, MEnding}}) \<le> 2"
proof (intro conjI)
  let ?s = "sample_mt MStarted 1 {0} no_modules"
  have r: "(mt_step False)\<^sup>*\<^sup>* (mt_init no_modules 1) ?s" by (rule sample_mt_reach) (simp add: no_modules_def)
  note A = microtasks_accounted[of False no_modules 1 ?s]
  have "{i. \<exists>t. mts ?s i = Some t \<and> mtPhase t \<in> {MWait, MStarted, MRunning, MEnding}} = {0}"
    by (auto simp: sample_mt_def split: if_splits)
  then show "microTasks ?s = 1" using A r by (simp add: sample_mt_def mt_init_def)
  show "microTasks (mt_init no_modules 1) = 0"
    using microtasks_accounted[of False no_modules 1 "mt_init no_modules 1"] by (auto simp: mt_init_def)
  show "int (card {i. \<exists>t. mts ?s i = Some t \<and> mtPhase t \<in> {MStarted, MRunning, MEnding}}) \<le> 2"
    using A r by (simp add: sample_mt_def mt_init_def)
qed

end
