(* ===== verification/Module_Tasks.thy ===== *)
theory Module_Tasks
  imports Module_Manager
begin

section \<open>Modules: tasks\<close>

text \<open>
  The tasks of \<^verbatim>\<open>modules/tasks.go\<close>: three lists of tasks (the queue, the prioritised queue and the schedule), the two goroutines
  that take tasks from them, and a goroutine for each execution. A task is known by its number. What a call does under the
  lock of its task is one step; a call that ends with \<open>notifyQueue\<close> leaves the notification as a step of its own. A list element that the task
  remembers is a flag: the queue handler takes the element off the list before the task forgets it, and moving or
  removing such an element has no effect. The zero time is \<open>None\<close>; durations are counted in nanoseconds. The function of a task is
  code of the client: it may run for any time, call any operation, fail or panic.
\<close>

subsection \<open>Tasks\<close>

record task =
  taskName :: string
  taskModule :: "string option"
  canceled :: bool
  executing :: bool
  overtime :: bool
  taskCtxDone :: "bool option"
  executeAt :: "int option"
  repeat :: int
  maxDelay :: int
  queueElement :: bool
  prioritizedQueueElement :: bool
  scheduleListElement :: bool

datatype handler =
    HStart
  | HIdle
  | HLoop
  | HWait "int option"
  | HStartASAP nat
  | HRun nat
  | HSlot nat
  | HStartup nat
  | HStopped

datatype exec_phase = ExecBegin | ExecRun | ExecEnd

record tstate =
  tsys :: sys
  ntasks :: nat
  tsk :: "nat \<Rightarrow> task"
  taskQueue :: "nat list"
  prioritizedTaskQueue :: "nat list"
  taskSchedule :: "nat list"
  queueWg :: "nat list"
  queueIsFilled :: bool
  notifiers :: nat
  notifyTaskScheduler :: bool
  systemSleep :: bool
  taskClock :: int
  queueHandler :: handler
  scheduleHandler :: handler
  execs :: "(nat \<times> exec_phase) list"
  taskPanics :: "nat list"

definition minRepeatDuration :: int where "minRepeatDuration = 60 * 1000000000"
definition defaultMaxDelay :: int where "defaultMaxDelay = 60 * 1000000000"

definition updT :: "nat \<Rightarrow> (task \<Rightarrow> task) \<Rightarrow> tstate \<Rightarrow> tstate" where
  "updT i f s = s\<lparr>tsk := (tsk s)(i := f (tsk s i))\<rparr>"

definition canceled_task :: "string \<Rightarrow> string option \<Rightarrow> task" where
  "canceled_task name mo = \<lparr>taskName = name, taskModule = mo, canceled = True, executing = False, overtime = False,
     taskCtxDone = None, executeAt = None, repeat = 0, maxDelay = 0, queueElement = False,
     prioritizedQueueElement = False, scheduleListElement = False\<rparr>"

definition newTask :: "string \<Rightarrow> string \<Rightarrow> tstate \<Rightarrow> task" where
  "newTask name m s =
     (if \<not> OnlineSoon m (tsys s) then canceled_task name (Some m)
      else (canceled_task name (Some m))\<lparr>canceled := False, maxDelay := defaultMaxDelay,
             taskCtxDone := Some (ctxDone (store (tsys s) m))\<rparr>)"

definition NewTask :: "string option \<Rightarrow> string \<Rightarrow> tstate \<Rightarrow> tstate" where
  "NewTask mo name s =
     s\<lparr>ntasks := Suc (ntasks s),
       tsk := (tsk s)(ntasks s := (case mo of None \<Rightarrow> canceled_task name None | Some m \<Rightarrow> newTask name m s))\<rparr>"

definition isActive :: "nat \<Rightarrow> tstate \<Rightarrow> bool" where
  "isActive i s \<longleftrightarrow> \<not> canceled (tsk s i) \<and> (case taskModule (tsk s i) of None \<Rightarrow> False | Some m \<Rightarrow> OnlineSoon m (tsys s))"

subsection \<open>The schedule\<close>

fun time_Before :: "int option \<Rightarrow> int option \<Rightarrow> bool" where
  "time_Before (Some a) (Some b) \<longleftrightarrow> a < b"
| "time_Before None (Some _) \<longleftrightarrow> True"
| "time_Before _ None \<longleftrightarrow> False"

text \<open>The loop of \<open>addToSchedule\<close> over the list without the task itself.\<close>

fun sched_place :: "(nat \<Rightarrow> int option) \<Rightarrow> nat \<Rightarrow> nat list \<Rightarrow> nat list" where
  "sched_place at i [] = [i]"
| "sched_place at i (x # xs) = (if time_Before (at i) (at x) then i # x # xs else x # sched_place at i xs)"

definition addToSchedule :: "bool \<Rightarrow> nat \<Rightarrow> tstate \<Rightarrow> tstate" where
  "addToSchedule over i s =
     (if \<not> isActive i s then s
      else
        (let s1 = (if over then updT i (\<lambda>t. t\<lparr>overtime := True\<rparr>) s else s);
             s2 = (if scheduleListElement (tsk s i) \<and> i \<notin> set (taskSchedule s) then s1
                   else s1\<lparr>taskSchedule := sched_place (\<lambda>j. executeAt (tsk s j)) i (remove1 i (taskSchedule s))\<rparr>) in
         updT i (\<lambda>t. t\<lparr>scheduleListElement := True\<rparr>) (s2\<lparr>notifyTaskScheduler := True\<rparr>)))"

subsection \<open>Operations of a task\<close>

definition prepForQueueing :: "nat \<Rightarrow> tstate \<Rightarrow> tstate option" where
  "prepForQueueing i s =
     (if \<not> isActive i s then None
      else if maxDelay (tsk s i) \<noteq> 0
      then Some (addToSchedule True i (updT i (\<lambda>t. t\<lparr>executeAt := Some (taskClock s + maxDelay t)\<rparr>) s))
      else Some s)"

definition Queue :: "nat \<Rightarrow> tstate \<Rightarrow> tstate" where
  "Queue i s =
     (case prepForQueueing i s of
        None \<Rightarrow> s
      | Some s1 \<Rightarrow>
          (let s2 = (if queueElement (tsk s1 i) then s1
                     else updT i (\<lambda>t. t\<lparr>queueElement := True\<rparr>) (s1\<lparr>taskQueue := taskQueue s1 @ [i]\<rparr>)) in
           s2\<lparr>notifiers := Suc (notifiers s2)\<rparr>))"

definition QueuePrioritized :: "nat \<Rightarrow> tstate \<Rightarrow> tstate" where
  "QueuePrioritized i s =
     (case prepForQueueing i s of
        None \<Rightarrow> s
      | Some s1 \<Rightarrow>
          (let s2 = (if prioritizedQueueElement (tsk s1 i) then s1
                     else updT i (\<lambda>t. t\<lparr>prioritizedQueueElement := True\<rparr>)
                            (s1\<lparr>prioritizedTaskQueue := prioritizedTaskQueue s1 @ [i]\<rparr>)) in
           s2\<lparr>notifiers := Suc (notifiers s2)\<rparr>))"

definition move_to_front :: "nat \<Rightarrow> nat list \<Rightarrow> nat list" where
  "move_to_front i xs = (if i \<in> set xs then i # remove1 i xs else xs)"

definition StartASAP :: "nat \<Rightarrow> tstate \<Rightarrow> tstate" where
  "StartASAP i s =
     (case prepForQueueing i s of
        None \<Rightarrow> s
      | Some s1 \<Rightarrow>
          (let s2 = (if \<not> prioritizedQueueElement (tsk s1 i)
                     then updT i (\<lambda>t. t\<lparr>prioritizedQueueElement := True\<rparr>)
                            (s1\<lparr>prioritizedTaskQueue := i # prioritizedTaskQueue s1\<rparr>)
                     else s1\<lparr>prioritizedTaskQueue := move_to_front i (prioritizedTaskQueue s1)\<rparr>) in
           s2\<lparr>notifiers := Suc (notifiers s2)\<rparr>))"

definition MaxDelay :: "int \<Rightarrow> nat \<Rightarrow> tstate \<Rightarrow> tstate" where
  "MaxDelay d i s = updT i (\<lambda>t. t\<lparr>maxDelay := d\<rparr>) s"

definition removeFromQueues :: "nat \<Rightarrow> tstate \<Rightarrow> tstate" where
  "removeFromQueues i s =
     (let t = tsk s i;
          s1 = (if queueElement t then s\<lparr>taskQueue := remove1 i (taskQueue s)\<rparr> else s);
          s2 = (if prioritizedQueueElement t then s1\<lparr>prioritizedTaskQueue := remove1 i (prioritizedTaskQueue s1)\<rparr> else s1);
          s3 = (if scheduleListElement t then s2\<lparr>taskSchedule := remove1 i (taskSchedule s2)\<rparr> else s2) in
      updT i (\<lambda>t. t\<lparr>queueElement := False, prioritizedQueueElement := False, scheduleListElement := False,
                     overtime := (overtime t \<and> \<not> scheduleListElement t)\<rparr>) s3)"

definition Schedule :: "int option \<Rightarrow> nat \<Rightarrow> tstate \<Rightarrow> tstate" where
  "Schedule at i s =
     (let s1 = updT i (\<lambda>t. t\<lparr>executeAt := at\<rparr>) s in
      if at = None then removeFromQueues i s1 else addToSchedule False i s1)"

definition Repeat :: "int \<Rightarrow> nat \<Rightarrow> tstate \<Rightarrow> tstate" where
  "Repeat interval i s =
     (let d = (if interval \<noteq> 0 \<and> interval < minRepeatDuration then minRepeatDuration else interval) in
      if d = 0 then updT i (\<lambda>t. t\<lparr>repeat := 0\<rparr>) s
      else addToSchedule False i (updT i (\<lambda>t. t\<lparr>repeat := d, executeAt := Some (taskClock s + d)\<rparr>) s))"

definition task_Cancel :: "nat \<Rightarrow> tstate \<Rightarrow> tstate" where
  "task_Cancel i s = updT i (\<lambda>t. t\<lparr>canceled := True, taskCtxDone := map_option (\<lambda>_. True) (taskCtxDone t)\<rparr>) s"

subsection \<open>Running a task\<close>

text \<open>\<open>runWithLocking\<close>: the part under the lock, which tells whether the task goes on; the part after the wait for a
  timeslot; and the start of the goroutines.\<close>

definition run_enter :: "nat \<Rightarrow> tstate \<Rightarrow> tstate \<times> bool" where
  "run_enter i s =
     (let s1 = removeFromQueues i s in
      if executing (tsk s1 i) then (s1, False)
      else if \<not> isActive i s1 then (s1, False)
      else if taskCtxDone (tsk s1 i) = Some True then (s1, False)
      else (updT i (\<lambda>t. t\<lparr>executing := True\<rparr>) s1, True))"

definition task_module :: "nat \<Rightarrow> tstate \<Rightarrow> string" where
  "task_module i s = the (taskModule (tsk s i))"

definition run_start :: "nat \<Rightarrow> tstate \<Rightarrow> tstate" where
  "run_start i s = s\<lparr>queueWg := i # queueWg s, execs := (i, ExecBegin) # execs s\<rparr>"

datatype slot_result = SlotStart | SlotStartup | SlotAbort

definition run_slot :: "nat \<Rightarrow> tstate \<Rightarrow> tstate \<times> slot_result" where
  "run_slot i s =
     (if Online (store (tsys s) (task_module i s)) then (run_start i s, SlotStart)
      else if OnlineSoon (task_module i s) (tsys s) then (s, SlotStartup)
      else (updT i (\<lambda>t. t\<lparr>executing := False\<rparr>) s, SlotAbort))"

text \<open>\<open>executeWithLocking\<close>: up to the call of the task function, after it, and the part under the lock.\<close>

definition exec_begin :: "nat \<Rightarrow> tstate \<Rightarrow> tstate" where
  "exec_begin i s =
     updT i (\<lambda>t. t\<lparr>executeAt := None\<rparr>) (s\<lparr>tsys := upd (task_module i s) (\<lambda>m. m\<lparr>taskCnt := taskCnt m + 1\<rparr>) (tsys s)\<rparr>)"

definition exec_end :: "bool \<Rightarrow> nat \<Rightarrow> tstate \<Rightarrow> tstate" where
  "exec_end panicked i s =
     s\<lparr>taskPanics := (if panicked then taskPanics s @ [i] else taskPanics s),
       tsys := checkIfStopComplete (task_module i s) (upd (task_module i s) (\<lambda>m. m\<lparr>taskCnt := taskCnt m - 1\<rparr>) (tsys s))\<rparr>"

definition exec_reset :: "nat \<Rightarrow> tstate \<Rightarrow> tstate" where
  "exec_reset i s =
     (let s1 = updT i (\<lambda>t. t\<lparr>executing := False\<rparr>) s;
          t = tsk s1 i;
          s2 = (if isActive i s1 \<and> repeat t \<noteq> 0 \<and> executeAt t = None
                then addToSchedule False i (updT i (\<lambda>t. t\<lparr>executeAt := Some (taskClock s + repeat t)\<rparr>) s1) else s1) in
      updT i (\<lambda>t. t\<lparr>taskCtxDone := Some (ctxDone (store (tsys s) (task_module i s)))\<rparr>) s2)"

subsection \<open>Steps\<close>

text \<open>The next task of the queue handler.\<close>

definition take_next :: "tstate \<Rightarrow> tstate \<times> nat option" where
  "take_next s =
     (case prioritizedTaskQueue s of
        i # is \<Rightarrow> (s\<lparr>prioritizedTaskQueue := is\<rparr>, Some i)
      | [] \<Rightarrow> (case taskQueue s of i # is \<Rightarrow> (s\<lparr>taskQueue := is\<rparr>, Some i) | [] \<Rightarrow> (s, None)))"

text \<open>What a client can call.\<close>

inductive task_op :: "tstate \<Rightarrow> tstate \<Rightarrow> bool" where
  "task_op s (NewTask mo name s)"
| "i < ntasks s \<Longrightarrow> task_op s (Queue i s)"
| "i < ntasks s \<Longrightarrow> task_op s (QueuePrioritized i s)"
| "i < ntasks s \<Longrightarrow> task_op s (StartASAP i s)"
| "i < ntasks s \<Longrightarrow> task_op s (MaxDelay d i s)"
| "i < ntasks s \<Longrightarrow> task_op s (Schedule at i s)"
| "i < ntasks s \<Longrightarrow> task_op s (Repeat d i s)"
| "i < ntasks s \<Longrightarrow> task_op s (task_Cancel i s)"

text \<open>\<open>runWithLocking\<close> as steps of the goroutine that calls it: the handler before and after, where \<open>ret\<close> is where it goes on
  after the call.\<close>

inductive run_step :: "handler \<Rightarrow> handler \<times> tstate \<Rightarrow> handler \<times> tstate \<Rightarrow> bool" for ret where
  enter: "run_enter i s = (s', True) \<Longrightarrow> run_step ret (HRun i, s) (HSlot i, s')"
| refuse: "run_enter i s = (s', False) \<Longrightarrow> run_step ret (HRun i, s) (ret, s')"
| slot: "run_slot i s = (s', SlotStart) \<Longrightarrow> run_step ret (HSlot i, s) (ret, s')"
| startup: "run_slot i s = (s', SlotStartup) \<Longrightarrow> run_step ret (HSlot i, s) (HStartup i, s')"
| abort: "run_slot i s = (s', SlotAbort) \<Longrightarrow> run_step ret (HSlot i, s) (ret, s')"
| started: "startComplete (store (tsys s) (task_module i s)) = ChanClosed \<Longrightarrow>
    run_step ret (HStartup i, s) (ret, run_start i s)"

text \<open>The context of a module is cancelled when it stops, and when it starts, before it gets a new one; with it, the contexts
  of its tasks.\<close>

definition cancel_contexts :: "string \<Rightarrow> tstate \<Rightarrow> tstate" where
  "cancel_contexts m s =
     s\<lparr>tsk := (\<lambda>i. if taskModule (tsk s i) = Some m \<and> taskCtxDone (tsk s i) \<noteq> None
                   then (tsk s i)\<lparr>taskCtxDone := Some True\<rparr> else tsk s i)\<rparr>"

inductive env_step :: "tstate \<Rightarrow> tstate \<Rightarrow> bool" where
  mod_start: "start m (tsys s) = (s', None) \<Longrightarrow> env_step s ((cancel_contexts m s)\<lparr>tsys := s'\<rparr>)"
| mod_stop: "env_step s ((cancel_contexts m s)\<lparr>tsys := stop_run m (tsys s)\<rparr>)"
| mod_other: "(\<And>m. ctxDone (store s' m) = ctxDone (store (tsys s) m)) \<Longrightarrow> env_step s (s\<lparr>tsys := s'\<rparr>)"
| sleep: "systemSleep s \<noteq> b \<Longrightarrow> env_step s (s\<lparr>systemSleep := b, notifyTaskScheduler := True\<rparr>)"
| tick: "taskClock s \<le> t \<Longrightarrow> env_step s (s\<lparr>taskClock := t\<rparr>)"
| notify: "notifiers s = Suc n \<Longrightarrow> env_step s (s\<lparr>notifiers := n, queueIsFilled := True\<rparr>)"
| release: "queueWg s = xs @ i # ys \<Longrightarrow> env_step s (s\<lparr>queueWg := xs @ ys\<rparr>)"

inductive queue_step :: "tstate \<Rightarrow> tstate \<Rightarrow> bool" where
  q_begin: "queueHandler s = HStart \<Longrightarrow> queue_step s (s\<lparr>queueHandler := HIdle\<rparr>)"
| q_wake: "queueHandler s = HIdle \<Longrightarrow> queueIsFilled s \<Longrightarrow>
    queue_step s (s\<lparr>queueHandler := HLoop, queueIsFilled := False\<rparr>)"
| q_stop: "queueHandler s = HIdle \<or> queueHandler s = HLoop \<and> queueWg s = [] \<Longrightarrow> shutdownFlag (tsys s) \<Longrightarrow>
    queue_step s (s\<lparr>queueHandler := HStopped\<rparr>)"
| q_take: "queueHandler s = HLoop \<Longrightarrow> queueWg s = [] \<Longrightarrow> \<not> shutdownFlag (tsys s) \<Longrightarrow> take_next s = (s', Some i) \<Longrightarrow>
    queue_step s (s'\<lparr>queueHandler := HRun i\<rparr>)"
| q_empty: "queueHandler s = HLoop \<Longrightarrow> queueWg s = [] \<Longrightarrow> \<not> shutdownFlag (tsys s) \<Longrightarrow> take_next s = (s', None) \<Longrightarrow>
    queue_step s (s'\<lparr>queueHandler := HIdle\<rparr>)"
| q_run: "run_step HLoop (queueHandler s, s) (h, s') \<Longrightarrow> queue_step s (s'\<lparr>queueHandler := h\<rparr>)"

text \<open>The schedule handler computes for how long it has to wait; when this time is over, it takes what is the first task
  then.\<close>

definition schedule_due :: "tstate \<Rightarrow> tstate" where
  "schedule_due s =
     (case taskSchedule s of
        [] \<Rightarrow> s\<lparr>scheduleHandler := HIdle\<rparr>
      | i # _ \<Rightarrow>
          if overtime (tsk s i) then (updT i (\<lambda>t. t\<lparr>overtime := False\<rparr>) s)\<lparr>scheduleHandler := HRun i\<rparr>
          else (updT i (\<lambda>t. t\<lparr>overtime := True\<rparr>) s)\<lparr>scheduleHandler := HStartASAP i\<rparr>)"

inductive schedule_step :: "tstate \<Rightarrow> tstate \<Rightarrow> bool" where
  s_begin: "scheduleHandler s = HStart \<Longrightarrow> schedule_step s (s\<lparr>scheduleHandler := HIdle\<rparr>)"
| s_stop: "scheduleHandler s = HIdle \<or> (\<exists>d. scheduleHandler s = HWait d) \<Longrightarrow> shutdownFlag (tsys s) \<Longrightarrow>
    schedule_step s (s\<lparr>scheduleHandler := HStopped\<rparr>)"
| s_notified: "scheduleHandler s = HIdle \<or> (\<exists>d. scheduleHandler s = HWait d) \<Longrightarrow> notifyTaskScheduler s \<Longrightarrow>
    schedule_step s (s\<lparr>scheduleHandler := HIdle, notifyTaskScheduler := False\<rparr>)"
| s_wait: "scheduleHandler s = HIdle \<Longrightarrow> \<not> systemSleep s \<Longrightarrow> taskSchedule s = i # is \<Longrightarrow>
    schedule_step s (s\<lparr>scheduleHandler := HWait (Some (case executeAt (tsk s i) of None \<Rightarrow> taskClock s | Some t \<Rightarrow> t))\<rparr>)"
| s_wait_forever: "scheduleHandler s = HIdle \<Longrightarrow> \<not> systemSleep s \<Longrightarrow> taskSchedule s = [] \<Longrightarrow>
    schedule_step s (s\<lparr>scheduleHandler := HWait None\<rparr>)"
| s_due: "scheduleHandler s = HWait (Some t) \<Longrightarrow> t \<le> taskClock s \<Longrightarrow> schedule_step s (schedule_due s)"
| s_asap: "scheduleHandler s = HStartASAP i \<Longrightarrow> schedule_step s ((StartASAP i s)\<lparr>scheduleHandler := HIdle\<rparr>)"
| s_run: "run_step HIdle (scheduleHandler s, s) (h, s') \<Longrightarrow> schedule_step s (s'\<lparr>scheduleHandler := h\<rparr>)"

inductive exec_step :: "tstate \<Rightarrow> tstate \<Rightarrow> bool" where
  e_begin: "execs s = xs @ (i, ExecBegin) # ys \<Longrightarrow> exec_step s ((exec_begin i s)\<lparr>execs := xs @ (i, ExecRun) # ys\<rparr>)"
| e_end: "execs s = xs @ (i, ExecRun) # ys \<Longrightarrow> exec_step s ((exec_end p i s)\<lparr>execs := xs @ (i, ExecEnd) # ys\<rparr>)"
| e_reset: "execs s = xs @ (i, ExecEnd) # ys \<Longrightarrow> exec_step s ((exec_reset i s)\<lparr>execs := xs @ ys\<rparr>)"

inductive task_step :: "tstate \<Rightarrow> tstate \<Rightarrow> bool" where
  "task_op s s' \<Longrightarrow> task_step s s'"
| "env_step s s' \<Longrightarrow> task_step s s'"
| "queue_step s s' \<Longrightarrow> task_step s s'"
| "schedule_step s s' \<Longrightarrow> task_step s s'"
| "exec_step s s' \<Longrightarrow> task_step s s'"

definition task_init :: "sys \<Rightarrow> int \<Rightarrow> tstate" where
  "task_init s t = \<lparr>tsys = s, ntasks = 0, tsk = (\<lambda>_. canceled_task '''' None), taskQueue = [], prioritizedTaskQueue = [],
     taskSchedule = [], queueWg = [], queueIsFilled = False, notifiers = 0, notifyTaskScheduler = False, systemSleep = False,
     taskClock = t, queueHandler = HStart, scheduleHandler = HStart, execs = [], taskPanics = []\<rparr>"

end
