(* ===== verification/Module_Scheduling.thy ===== *)
theory Module_Scheduling
  imports Module_Tasks
begin

section \<open>Modules: guarantees of the task queues\<close>

text \<open>
  Invariants of the task steps by rule induction: a task is not executed twice at the same time, a queued task is
  not lost, the schedule is kept in order. The last part has the cases in which a task is not executed, or executed though it was
  cancelled.
\<close>

subsection \<open>What operations leave alone\<close>

text \<open>The handlers and executions, with the flags of the tasks that belong to them.\<close>

definition run_part :: "tstate \<Rightarrow> handler \<times> handler \<times> (nat \<times> exec_phase) list \<times> (nat \<Rightarrow> bool)" where
  "run_part s = (queueHandler s, scheduleHandler s, execs s, \<lambda>i. executing (tsk s i))"

lemma updT_simps [simp]:
  "tsk (updT i f s) = (tsk s)(i := f (tsk s i))" "tsys (updT i f s) = tsys s" "ntasks (updT i f s) = ntasks s"
  "taskQueue (updT i f s) = taskQueue s" "prioritizedTaskQueue (updT i f s) = prioritizedTaskQueue s"
  "taskSchedule (updT i f s) = taskSchedule s" "queueWg (updT i f s) = queueWg s" "queueIsFilled (updT i f s) = queueIsFilled s"
  "notifiers (updT i f s) = notifiers s" "notifyTaskScheduler (updT i f s) = notifyTaskScheduler s"
  "taskClock (updT i f s) = taskClock s" "queueHandler (updT i f s) = queueHandler s"
  "scheduleHandler (updT i f s) = scheduleHandler s" "execs (updT i f s) = execs s"
  by (simp_all add: updT_def)

lemma run_part_updT: "(\<And>t. executing (f t) = executing t) \<Longrightarrow> run_part (updT i f s) = run_part s"
  by (auto simp: run_part_def)

lemma run_part_lists [simp]:
  "run_part (s\<lparr>taskQueue := q\<rparr>) = run_part s" "run_part (s\<lparr>prioritizedTaskQueue := q\<rparr>) = run_part s"
  "run_part (s\<lparr>taskSchedule := q\<rparr>) = run_part s" "run_part (s\<lparr>notifiers := n\<rparr>) = run_part s"
  "run_part (s\<lparr>notifyTaskScheduler := b\<rparr>) = run_part s" "run_part (s\<lparr>tsys := m\<rparr>) = run_part s"
  by (simp_all add: run_part_def)

lemma run_part_addToSchedule [simp]: "run_part (addToSchedule over i s) = run_part s"
  by (simp add: addToSchedule_def Let_def run_part_updT)

lemma run_part_prep: "prepForQueueing i s = Some s' \<Longrightarrow> run_part s' = run_part s"
  by (auto simp: prepForQueueing_def run_part_updT split: if_splits)

lemma run_part_removeFromQueues [simp]: "run_part (removeFromQueues i s) = run_part s"
  by (simp add: removeFromQueues_def Let_def run_part_updT)

lemma run_part_queue [simp]:
  "run_part (Queue i s) = run_part s" "run_part (QueuePrioritized i s) = run_part s" "run_part (StartASAP i s) = run_part s"
  by (auto simp: Queue_def QueuePrioritized_def StartASAP_def Let_def run_part_updT run_part_prep split: option.split)

lemma run_part_op:
  assumes "task_op s s'" "\<And>i. ntasks s \<le> i \<Longrightarrow> \<not> executing (tsk s i)"
  shows "run_part s' = run_part s"
  using assms
proof cases
  case (1 mo name)
  then show ?thesis using assms(2)[of "ntasks s"]
    by (auto simp: NewTask_def run_part_def newTask_def canceled_task_def fun_eq_iff split: option.split)
qed (auto simp: MaxDelay_def Schedule_def Repeat_def task_Cancel_def Let_def run_part_updT)

subsection \<open>No task is executed twice at the same time\<close>

definition busy :: "handler \<Rightarrow> nat \<Rightarrow> nat" where
  "busy h i = of_bool (h = HSlot i \<or> h = HStartup i)"

definition exec_count :: "(nat \<times> exec_phase) list \<Rightarrow> nat \<Rightarrow> nat" where
  "exec_count es i = length (filter (\<lambda>e. fst e = i) es)"

text \<open>For every task the goroutines between the check and the end of an execution, which are as many as the flag says.\<close>

definition exclusive :: "tstate \<Rightarrow> bool" where
  "exclusive s \<longleftrightarrow> (\<forall>i. busy (queueHandler s) i + busy (scheduleHandler s) i + exec_count (execs s) i =
     of_bool (executing (tsk s i)))"

lemma exec_count_simps [simp]:
  "exec_count [] i = 0" "exec_count (e # es) i = of_bool (fst e = i) + exec_count es i"
  "exec_count (xs @ ys) i = exec_count xs i + exec_count ys i"
  by (simp_all add: exec_count_def)

lemma busy_simps [simp]:
  "busy HStart i = 0" "busy HIdle i = 0" "busy HLoop i = 0" "busy (HWait d) i = 0" "busy (HStartASAP j) i = 0" "busy (HRun j) i = 0"
  "busy HStopped i = 0" "busy (HSlot j) i = of_bool (j = i)" "busy (HStartup j) i = of_bool (j = i)"
  by (auto simp: busy_def)

lemma run_part_eqD:
  assumes "run_part s = run_part s'"
  shows "queueHandler s = queueHandler s'" "scheduleHandler s = scheduleHandler s'" "execs s = execs s'"
    "executing (tsk s i) = executing (tsk s' i)"
  using assms by (auto simp: run_part_def fun_eq_iff)

text \<open>A change after which as many goroutines are busy with each task as its flag says.\<close>

lemma exclusive_same:
  assumes "exclusive s" "\<And>i. busy (queueHandler s') i = busy (queueHandler s) i"
    "\<And>i. busy (scheduleHandler s') i = busy (scheduleHandler s) i" "\<And>i. exec_count (execs s') i = exec_count (execs s) i"
    "\<And>i. executing (tsk s' i) = executing (tsk s i)"
  shows "exclusive s'"
  using assms(1) unfolding exclusive_def assms(2-5) .

lemma exclusive_run_part: "run_part s' = run_part s \<Longrightarrow> exclusive s \<Longrightarrow> exclusive s'"
  by (rule exclusive_same, assumption) (simp_all add: run_part_eqD[of s' s])

lemmas removeFromQueues_run [simp] = run_part_eqD[OF run_part_removeFromQueues]

lemma run_enter_effect:
  assumes "run_enter j s = (s', b)"
  shows "execs s' = execs s" "executing (tsk s' i) \<longleftrightarrow> b \<and> i = j \<or> executing (tsk s i)" "b \<Longrightarrow> \<not> executing (tsk s j)"
    "queueHandler s' = queueHandler s" "scheduleHandler s' = scheduleHandler s"
  using assms by (auto simp: run_enter_def Let_def split: if_splits)

lemma run_slot_effect:
  assumes "run_slot j s = (s', r)"
  shows "execs s' = (if r = SlotStart then (j, ExecBegin) # execs s else execs s)"
    "executing (tsk s' i) \<longleftrightarrow> \<not> (r = SlotAbort \<and> i = j) \<and> executing (tsk s i)"
    "queueHandler s' = queueHandler s" "scheduleHandler s' = scheduleHandler s"
  using assms by (auto simp: run_slot_def run_start_def split: if_splits)

text \<open>A step of \<open>runWithLocking\<close> keeps the sum of its own handler and the executions in line with the flag.\<close>

lemma run_step_exclusive:
  assumes "run_step ret (h, s) (h', s')" "ret \<in> {HIdle, HLoop}"
    and ex: "\<And>i. busy h i + k i + exec_count (execs s) i = of_bool (executing (tsk s i))"
  shows "busy h' i + k i + exec_count (execs s') i = of_bool (executing (tsk s' i))"
  using assms(1)
proof cases
  case (enter j)
  then show ?thesis using ex[of i] run_enter_effect(1)[OF enter(3)] run_enter_effect(2)[OF enter(3), of i] run_enter_effect(3)[OF enter(3)]
    by (cases "i = j") simp_all
next
  case (refuse j)
  then show ?thesis using ex[of i] run_enter_effect(1)[OF refuse(3)] run_enter_effect(2)[OF refuse(3), of i] assms(2) by auto
next
  case (slot j)
  then show ?thesis using ex[of i] run_slot_effect(1)[OF slot(3)] run_slot_effect(2)[OF slot(3), of i] assms(2) by auto
next
  case (startup j)
  then show ?thesis using ex[of i] run_slot_effect(1)[OF startup(3)] run_slot_effect(2)[OF startup(3), of i] by simp
next
  case (abort j)
  then show ?thesis using ex[of i] run_slot_effect(1)[OF abort(3)] run_slot_effect(2)[OF abort(3), of i] assms(2) by (cases "i = j"; cases "executing (tsk s j)") auto
next
  case (started j)
  then show ?thesis using ex[of i] assms(2) by (cases "executing (tsk s i)") (auto simp: run_start_def)
qed

lemma run_step_handlers:
  assumes "run_step ret (h, s) (h', s')"
  shows "queueHandler s' = queueHandler s" "scheduleHandler s' = scheduleHandler s"
  using assms by (cases; simp add: run_enter_effect run_slot_effect run_start_def)+

lemma exclusive_queue: "queue_step s s' \<Longrightarrow> exclusive s \<Longrightarrow> exclusive s'"
proof (induction rule: queue_step.induct)
  case (q_run s h s')
  note r = run_step_exclusive[OF q_run(1), where k = "busy (scheduleHandler s)"]
  show ?case unfolding exclusive_def using r q_run(2) run_step_handlers[OF q_run(1)] by (simp add: exclusive_def)
qed (erule exclusive_same; auto simp: take_next_def split: list.splits)+

lemma exclusive_schedule: "schedule_step s s' \<Longrightarrow> exclusive s \<Longrightarrow> exclusive s'"
proof (induction rule: schedule_step.induct)
  case (s_run s h s')
  note r = run_step_exclusive[OF s_run(1), where k = "busy (queueHandler s)"]
  show ?case unfolding exclusive_def using r s_run(2) run_step_handlers[OF s_run(1)]
    by (simp add: exclusive_def add.commute[of "busy (queueHandler s) _"])
next
  case (s_asap s i)
  then show ?case using run_part_eqD[OF run_part_queue(3)[of i s]] by (intro exclusive_same[OF s_asap(2)]) auto
qed (erule exclusive_same; auto simp: schedule_due_def split: list.splits)+

lemma exclusive_exec: "exec_step s s' \<Longrightarrow> exclusive s \<Longrightarrow> exclusive s'"
proof (induction rule: exec_step.induct)
  case (e_reset s xs i ys)
  have r: "run_part (exec_reset i s) = run_part (updT i (\<lambda>t. t\<lparr>executing := False\<rparr>) s)"
    by (simp add: exec_reset_def Let_def run_part_updT)
  have "busy (queueHandler s) j + busy (scheduleHandler s) j + exec_count (xs @ ys) j =
      of_bool (executing (((tsk s)(i := tsk s i\<lparr>executing := False\<rparr>)) j))" for j
    using spec[OF e_reset(2)[unfolded exclusive_def], of j] e_reset(1) by (cases "i = j"; cases "executing (tsk s j)") auto
  then show ?case unfolding exclusive_def using run_part_eqD[OF r] by simp
qed (erule exclusive_same; auto simp: exec_begin_def exec_end_def)+

lemma exclusive_env: "env_step s s' \<Longrightarrow> exclusive s \<Longrightarrow> exclusive s'"
  by (induction rule: env_step.induct) (erule exclusive_same; auto simp: cancel_contexts_def)+

subsection \<open>The lists\<close>

definition handler_tasks :: "handler \<Rightarrow> nat set" where
  "handler_tasks h = (case h of HStartASAP i \<Rightarrow> {i} | HRun i \<Rightarrow> {i} | HSlot i \<Rightarrow> {i} | HStartup i \<Rightarrow> {i} | _ \<Rightarrow> {})"

text \<open>Numbers that have not been given out are not in use.\<close>

definition known :: "tstate \<Rightarrow> bool" where
  "known s \<longleftrightarrow> (\<forall>i. ntasks s \<le> i \<longrightarrow> tsk s i = canceled_task '''' None) \<and>
     handler_tasks (queueHandler s) \<union> handler_tasks (scheduleHandler s) \<union> fst ` set (execs s) \<subseteq> {..<ntasks s}"

text \<open>A task is at most once in a queue, and if it remembers an element, it is in the queue or the handler has just taken
  it.\<close>

definition queue_ok :: "nat list \<Rightarrow> (nat \<Rightarrow> bool) \<Rightarrow> handler \<Rightarrow> bool" where
  "queue_ok q el h \<longleftrightarrow> distinct q \<and> (\<forall>i \<in> set q. el i) \<and> (\<forall>i. el i \<longrightarrow> i \<in> set q \<or> h = HRun i)"

definition sched_ok :: "nat list \<Rightarrow> (nat \<Rightarrow> bool) \<Rightarrow> bool" where
  "sched_ok q el \<longleftrightarrow> distinct q \<and> (\<forall>i. i \<in> set q \<longleftrightarrow> el i)"

definition lists_ok :: "tstate \<Rightarrow> bool" where
  "lists_ok s \<longleftrightarrow> queue_ok (taskQueue s) (queueElement \<circ> tsk s) (queueHandler s) \<and>
     queue_ok (prioritizedTaskQueue s) (prioritizedQueueElement \<circ> tsk s) (queueHandler s) \<and>
     sched_ok (taskSchedule s) (scheduleListElement \<circ> tsk s)"

text \<open>A handler that sleeps will be woken up when there is something to do.\<close>

definition wake_ok :: "tstate \<Rightarrow> bool" where
  "wake_ok s \<longleftrightarrow> (queueHandler s \<in> {HStart, HIdle} \<and> (taskQueue s \<noteq> [] \<or> prioritizedTaskQueue s \<noteq> []) \<longrightarrow>
     queueIsFilled s \<or> 0 < notifiers s)"

lemma queue_ok_simps:
  "queue_ok q el h \<Longrightarrow> \<not> el i \<Longrightarrow> queue_ok (q @ [i]) (el(i := True)) h"
  "queue_ok q el h \<Longrightarrow> \<not> el i \<Longrightarrow> queue_ok (i # q) (el(i := True)) h"
  "queue_ok q el h \<Longrightarrow> queue_ok (move_to_front i q) el h"
  "queue_ok q el h \<Longrightarrow> queue_ok (remove1 i q) (el(i := False)) h"
  "queue_ok q el h \<Longrightarrow> \<not> el i \<Longrightarrow> queue_ok q (el(i := False)) h"
  by (auto simp: queue_ok_def move_to_front_def)

lemma sched_place_set [simp]: "set (sched_place at i xs) = insert i (set xs)"
  by (induction xs) auto

lemma sched_place_distinct: "distinct xs \<Longrightarrow> i \<notin> set xs \<Longrightarrow> distinct (sched_place at i xs)"
  by (induction xs) auto

lemma sched_ok_simps:
  "sched_ok q el \<Longrightarrow> sched_ok (sched_place at i (remove1 i q)) (el(i := True))"
  "sched_ok q el \<Longrightarrow> el i \<Longrightarrow> sched_ok q (el(i := True))"
  "sched_ok q el \<Longrightarrow> sched_ok (remove1 i q) (el(i := False))"
  "sched_ok q el \<Longrightarrow> \<not> el i \<Longrightarrow> sched_ok q (el(i := False))"
  by (auto simp: sched_ok_def sched_place_distinct fun_upd_def)

lemmas flags_simps = fun_upd_comp fun_upd_idem

lemma lists_ok_updT:
  assumes "queueElement (f (tsk s i)) = queueElement (tsk s i)" "prioritizedQueueElement (f (tsk s i)) = prioritizedQueueElement (tsk s i)"
    "scheduleListElement (f (tsk s i)) = scheduleListElement (tsk s i)"
  shows "lists_ok (updT i f s) = lists_ok s"
  using assms by (simp add: lists_ok_def flags_simps)

lemma addToSchedule_eq:
  "addToSchedule over i s =
     (if \<not> isActive i s then s
      else s\<lparr>tsk := (tsk s)(i := (tsk s i)\<lparr>overtime := (over \<or> overtime (tsk s i)), scheduleListElement := True\<rparr>),
             taskSchedule := (if scheduleListElement (tsk s i) \<and> i \<notin> set (taskSchedule s) then taskSchedule s
               else sched_place (\<lambda>j. executeAt (tsk s j)) i (remove1 i (taskSchedule s))),
             notifyTaskScheduler := True\<rparr>)"
  by (simp add: addToSchedule_def updT_def Let_def)

lemma lists_ok_addToSchedule:
  assumes "lists_ok s"
  shows "lists_ok (addToSchedule over i s)"
proof -
  have s: "sched_ok (taskSchedule s) (scheduleListElement \<circ> tsk s)" using assms by (simp add: lists_ok_def)
  then have "scheduleListElement (tsk s i) \<longrightarrow> i \<in> set (taskSchedule s)" by (simp add: sched_ok_def)
  then show ?thesis using assms sched_ok_simps(1)[OF s, of "\<lambda>j. executeAt (tsk s j)" i]
    by (simp add: lists_ok_def addToSchedule_eq flags_simps)
qed

lemma lists_ok_prep: "prepForQueueing i s = Some s' \<Longrightarrow> lists_ok s \<Longrightarrow> lists_ok s'"
  by (auto simp: prepForQueueing_def lists_ok_updT intro!: lists_ok_addToSchedule split: if_splits)

lemma removeFromQueues_eq:
  "removeFromQueues i s = s\<lparr>
     taskQueue := (if queueElement (tsk s i) then remove1 i (taskQueue s) else taskQueue s),
     prioritizedTaskQueue := (if prioritizedQueueElement (tsk s i) then remove1 i (prioritizedTaskQueue s) else prioritizedTaskQueue s),
     taskSchedule := (if scheduleListElement (tsk s i) then remove1 i (taskSchedule s) else taskSchedule s),
     tsk := (tsk s)(i := (tsk s i)\<lparr>queueElement := False, prioritizedQueueElement := False, scheduleListElement := False,
       overtime := (overtime (tsk s i) \<and> \<not> scheduleListElement (tsk s i))\<rparr>)\<rparr>"
  by (simp add: removeFromQueues_def updT_def Let_def)

lemma lists_ok_removeFromQueues:
  assumes "lists_ok s"
  shows "lists_ok (removeFromQueues i s)"
  using assms by (auto simp: lists_ok_def removeFromQueues_eq fun_upd_comp intro: queue_ok_simps sched_ok_simps)

lemma lists_ok_queue:
  assumes "lists_ok s"
  shows "lists_ok (Queue i s)" "lists_ok (QueuePrioritized i s)" "lists_ok (StartASAP i s)"
proof -
  have p: "lists_ok s1" if "prepForQueueing i s = Some s1" for s1 using lists_ok_prep[OF that assms] .
  show "lists_ok (Queue i s)"
  proof (cases "prepForQueueing i s")
    case (Some s1)
    then show ?thesis using p[OF Some] by (auto simp: Queue_def Let_def lists_ok_def flags_simps intro: queue_ok_simps)
  qed (simp add: Queue_def assms)
  show "lists_ok (QueuePrioritized i s)"
  proof (cases "prepForQueueing i s")
    case (Some s1)
    then show ?thesis using p[OF Some] by (auto simp: QueuePrioritized_def Let_def lists_ok_def flags_simps intro: queue_ok_simps)
  qed (simp add: QueuePrioritized_def assms)
  show "lists_ok (StartASAP i s)"
  proof (cases "prepForQueueing i s")
    case (Some s1)
    then show ?thesis using p[OF Some] by (auto simp: StartASAP_def Let_def lists_ok_def flags_simps intro: queue_ok_simps)
  qed (simp add: StartASAP_def assms)
qed

text \<open>A change to one task and its places in the lists, as every operation makes it.\<close>

definition task_change :: "nat \<Rightarrow> tstate \<Rightarrow> tstate \<Rightarrow> bool" where
  "task_change i s s' \<longleftrightarrow> ntasks s' = ntasks s \<and> queueHandler s' = queueHandler s \<and> scheduleHandler s' = scheduleHandler s \<and>
     execs s' = execs s \<and> tsys s' = tsys s \<and> taskClock s' = taskClock s \<and> queueIsFilled s' = queueIsFilled s \<and>
     notifiers s \<le> notifiers s' \<and> (\<forall>j. j \<noteq> i \<longrightarrow> tsk s' j = tsk s j) \<and>
     (taskQueue s' \<noteq> [] \<or> prioritizedTaskQueue s' \<noteq> [] \<longrightarrow>
        taskQueue s \<noteq> [] \<or> prioritizedTaskQueue s \<noteq> [] \<or> 0 < notifiers s')"

lemma task_change_trans: "task_change i s s1 \<Longrightarrow> task_change i s1 s2 \<Longrightarrow> task_change i s s2"
  by (auto simp: task_change_def)

lemma task_change_refl [simp]: "task_change i s s"
  by (auto simp: task_change_def)

lemma task_change_updT [simp]: "task_change i s (updT i f s)"
  by (auto simp: task_change_def)

lemma task_change_addToSchedule [simp]: "task_change i s (addToSchedule over i s)"
  by (auto simp: task_change_def addToSchedule_eq)

lemma task_change_set_schedule:
  "task_change i s (addToSchedule over i (updT i f s))" "task_change i s (removeFromQueues i (updT i f s))"
  by (auto simp: task_change_def addToSchedule_eq removeFromQueues_eq)

lemma task_change_removeFromQueues [simp]: "task_change i s (removeFromQueues i s)"
  by (auto simp: task_change_def removeFromQueues_eq)

lemma task_change_prep: "prepForQueueing i s = Some s' \<Longrightarrow> task_change i s s'"
  by (auto simp: prepForQueueing_def intro: task_change_trans[OF task_change_updT task_change_addToSchedule] split: if_splits)

lemma task_change_queue: "task_change i s (Queue i s)" "task_change i s (QueuePrioritized i s)" "task_change i s (StartASAP i s)"
proof -
  have p: "task_change i s s1" if "prepForQueueing i s = Some s1" for s1 using task_change_prep[OF that] .
  have notify: "task_change i s1 s2 \<Longrightarrow> task_change i s1 (s2\<lparr>notifiers := Suc (notifiers s2)\<rparr>)" for s1 s2
    by (auto simp: task_change_def)
  have push: "task_change i s1 ((updT i f (s1\<lparr>taskQueue := q\<rparr>))\<lparr>notifiers := Suc (notifiers s1)\<rparr>)"
    "task_change i s1 ((updT i f (s1\<lparr>prioritizedTaskQueue := q\<rparr>))\<lparr>notifiers := Suc (notifiers s1)\<rparr>)"
    "task_change i s1 (s1\<lparr>prioritizedTaskQueue := q, notifiers := Suc (notifiers s1)\<rparr>)" for s1 f q
    by (auto simp: task_change_def)
  show "task_change i s (Queue i s)" "task_change i s (QueuePrioritized i s)" "task_change i s (StartASAP i s)"
    by (auto simp: Queue_def QueuePrioritized_def StartASAP_def Let_def push notify intro: task_change_trans[OF p] split: option.split)
qed

lemma task_change_op: "task_op s s' \<Longrightarrow> (\<exists>mo name. s' = NewTask mo name s) \<or> (\<exists>i < ntasks s. task_change i s s')"
  by (induction rule: task_op.induct)
    (auto simp: task_change_queue task_change_set_schedule MaxDelay_def Schedule_def Repeat_def task_Cancel_def Let_def)

definition tinv :: "tstate \<Rightarrow> bool" where
  "tinv s \<longleftrightarrow> exclusive s \<and> known s \<and> lists_ok s \<and> wake_ok s"

lemma known_change: "known s \<Longrightarrow> i < ntasks s \<Longrightarrow> task_change i s s' \<Longrightarrow> known s'"
  by (auto simp: known_def task_change_def)

lemma wake_change: "wake_ok s \<Longrightarrow> task_change i s s' \<Longrightarrow> wake_ok s'"
  by (auto simp: wake_ok_def task_change_def)

lemma known_blank: "known s \<Longrightarrow> ntasks s \<le> i \<Longrightarrow> tsk s i = canceled_task '''' None"
  by (simp add: known_def)

lemma blank_flags [simp]:
  "\<not> executing (canceled_task n m)" "\<not> queueElement (canceled_task n m)" "\<not> prioritizedQueueElement (canceled_task n m)"
  "\<not> scheduleListElement (canceled_task n m)"
  by (simp_all add: canceled_task_def)

lemma newTask_flags [simp]:
  "\<not> queueElement (newTask n m s)" "\<not> prioritizedQueueElement (newTask n m s)" "\<not> scheduleListElement (newTask n m s)"
  by (simp_all add: newTask_def)

lemma tinv_op:
  assumes "task_op s s'" "tinv s"
  shows "tinv s'"
proof -
  have b: "tsk s i = canceled_task '''' None" if "ntasks s \<le> i" for i
    using assms(2) that by (simp add: tinv_def known_def)
  have e: "exclusive s'"
    using exclusive_run_part[OF run_part_op[OF assms(1)]] b assms(2) by (simp add: tinv_def)
  have l: "lists_ok s'" using assms(1)
  proof cases
    case (1 mo name)
    have "lists_ok s" using assms(2) by (simp add: tinv_def)
    then show ?thesis using b[of "ntasks s"] 1
      by (simp add: NewTask_def lists_ok_def flags_simps split: option.split)
  qed (use assms(2) in \<open>auto simp: tinv_def MaxDelay_def Schedule_def Repeat_def task_Cancel_def Let_def lists_ok_updT
      intro!: lists_ok_queue lists_ok_addToSchedule lists_ok_removeFromQueues\<close>)
  from task_change_op[OF assms(1)] show ?thesis
  proof (elim disjE exE conjE)
    fix mo name assume "s' = NewTask mo name s"
    then have "known s'" "wake_ok s'" using assms(2)
      by (auto simp: tinv_def NewTask_def known_def wake_ok_def)
    then show ?thesis using e l by (simp add: tinv_def)
  next
    fix i assume "i < ntasks s" "task_change i s s'"
    then show ?thesis using e l assms(2) known_change[of s i s'] wake_change[of s i s'] by (simp add: tinv_def)
  qed
qed

lemma run_enter_lists:
  assumes "run_enter i s = (s', b)"
  shows "lists_ok s \<Longrightarrow> lists_ok s'" "\<not> queueElement (tsk s' i)" "\<not> prioritizedQueueElement (tsk s' i)" "task_change i s s'"
proof -
  have r: "s' = removeFromQueues i s \<or> s' = updT i (\<lambda>t. t\<lparr>executing := True\<rparr>) (removeFromQueues i s)"
    using assms by (auto simp: run_enter_def Let_def split: if_splits)
  then show "lists_ok s'" if "lists_ok s" using lists_ok_removeFromQueues[OF that, of i] by (auto simp: lists_ok_updT)
  show "\<not> queueElement (tsk s' i)" "\<not> prioritizedQueueElement (tsk s' i)" using r by (auto simp: removeFromQueues_eq)
  show "task_change i s s'" using r task_change_trans[OF task_change_removeFromQueues task_change_updT] by auto
qed

lemma run_slot_change:
  assumes "run_slot i s = (s', r)"
  shows "lists_ok s' = lists_ok s" "queueHandler s' = queueHandler s" "ntasks s' = ntasks s"
    "r \<noteq> SlotStart \<Longrightarrow> task_change i s s'" "r = SlotStart \<Longrightarrow> s' = run_start i s"
  using assms by (auto simp: run_slot_def lists_ok_updT split: if_splits) (auto simp: run_start_def lists_ok_def)

lemma queue_ok_leave: "queue_ok q el h \<Longrightarrow> (\<And>i. h = HRun i \<Longrightarrow> \<not> el i) \<Longrightarrow> queue_ok q el h'"
  by (auto simp: queue_ok_def)

lemma lists_ok_leave:
  assumes "lists_ok s" "\<And>i. queueHandler s = HRun i \<Longrightarrow> \<not> queueElement (tsk s i) \<and> \<not> prioritizedQueueElement (tsk s i)"
  shows "lists_ok (s\<lparr>queueHandler := h\<rparr>)"
  using assms by (auto simp: lists_ok_def intro: queue_ok_leave)

lemma lists_ok_same:
  "lists_ok s \<Longrightarrow> taskQueue s' = taskQueue s \<Longrightarrow> prioritizedTaskQueue s' = prioritizedTaskQueue s \<Longrightarrow> taskSchedule s' = taskSchedule s \<Longrightarrow>
   tsk s' = tsk s \<Longrightarrow> queueHandler s' = queueHandler s \<Longrightarrow> lists_ok s'"
  by (simp add: lists_ok_def)

lemma run_start_simps [simp]:
  "lists_ok (run_start i s) = lists_ok s" "queueHandler (run_start i s) = queueHandler s" "scheduleHandler (run_start i s) = scheduleHandler s"
  "ntasks (run_start i s) = ntasks s" "tsk (run_start i s) = tsk s" "execs (run_start i s) = (i, ExecBegin) # execs s"
  "wake_ok (run_start i s) = wake_ok s"
  by (simp_all add: run_start_def lists_ok_def wake_ok_def)

lemma handler_tasks_simps [simp]:
  "handler_tasks HStart = {}" "handler_tasks HIdle = {}" "handler_tasks HLoop = {}" "handler_tasks (HWait d) = {}" "handler_tasks HStopped = {}"
  "handler_tasks (HStartASAP i) = {i}" "handler_tasks (HRun i) = {i}" "handler_tasks (HSlot i) = {i}" "handler_tasks (HStartup i) = {i}"
  by (simp_all add: handler_tasks_def)

lemma known_handlers:
  "known (s\<lparr>queueHandler := h\<rparr>) \<longleftrightarrow> known (s\<lparr>queueHandler := HIdle\<rparr>) \<and> handler_tasks h \<subseteq> {..<ntasks s}"
  "known (s\<lparr>scheduleHandler := h\<rparr>) \<longleftrightarrow> known (s\<lparr>scheduleHandler := HIdle\<rparr>) \<and> handler_tasks h \<subseteq> {..<ntasks s}"
  by (auto simp: known_def)

text \<open>A step of \<open>runWithLocking\<close>, apart from the handler that makes it.\<close>

lemma run_step_change:
  assumes "run_step ret (h, s) (h', s')" "ret \<in> {HIdle, HLoop}" "known s" "lists_ok s" "wake_ok s" "handler_tasks h \<subseteq> {..<ntasks s}"
  shows "known s'" "lists_ok s'" "wake_ok s'" "ntasks s' = ntasks s" "handler_tasks h' \<subseteq> {..<ntasks s'}"
    "h = HRun i \<Longrightarrow> \<not> queueElement (tsk s' i) \<and> \<not> prioritizedQueueElement (tsk s' i)"
proof -
  have "known s' \<and> lists_ok s' \<and> wake_ok s' \<and> ntasks s' = ntasks s \<and> handler_tasks h' \<subseteq> {..<ntasks s'} \<and>
    (h = HRun i \<longrightarrow> \<not> queueElement (tsk s' i) \<and> \<not> prioritizedQueueElement (tsk s' i))"
    using assms(1)
  proof cases
    case (enter j)
    note e = run_enter_lists[OF enter(3)]
    show ?thesis using e assms enter known_change[OF assms(3) _ e(4)] wake_change[OF assms(5) e(4)] by (auto simp: task_change_def)
  next
    case (refuse j)
    note e = run_enter_lists[OF refuse(3)]
    show ?thesis using e assms refuse known_change[OF assms(3) _ e(4)] wake_change[OF assms(5) e(4)] by (auto simp: task_change_def)
  next
    case (slot j)
    note e = run_slot_change[OF slot(3)]
    show ?thesis using e assms slot by (auto simp: known_def)
  next
    case (startup j)
    note e = run_slot_change[OF startup(3)]
    show ?thesis using e assms startup known_change[OF assms(3) _ e(4)] wake_change[OF assms(5) e(4)] by auto
  next
    case (abort j)
    note e = run_slot_change[OF abort(3)]
    show ?thesis using e assms abort known_change[OF assms(3) _ e(4)] wake_change[OF assms(5) e(4)] by auto
  next
    case (started j)
    then show ?thesis using assms by (auto simp: known_def)
  qed
  then show "known s'" "lists_ok s'" "wake_ok s'" "ntasks s' = ntasks s" "handler_tasks h' \<subseteq> {..<ntasks s'}"
    "h = HRun i \<Longrightarrow> \<not> queueElement (tsk s' i) \<and> \<not> prioritizedQueueElement (tsk s' i)" by blast+
qed

lemma tinv_queue:
  assumes "queue_step s s'" "tinv s"
  shows "tinv s'"
proof -
  have inv: "exclusive s" "known s" "lists_ok s" "wake_ok s" using assms(2) by (simp_all add: tinv_def)
  have "known s' \<and> lists_ok s' \<and> wake_ok s'" using assms(1)
  proof cases
    case q_begin
    then show ?thesis using inv by (auto simp: known_def wake_ok_def intro!: lists_ok_leave)
  next
    case q_wake
    then show ?thesis using inv lists_ok_leave[OF inv(3), of HLoop] by (auto simp: known_def wake_ok_def lists_ok_def)
  next
    case q_stop
    then show ?thesis using inv by (auto simp: known_def wake_ok_def intro!: lists_ok_leave)
  next
    case (q_take s1 i)
    have el: "queueElement (tsk s j) \<Longrightarrow> j < ntasks s" "prioritizedQueueElement (tsk s j) \<Longrightarrow> j < ntasks s" for j
      using known_blank[OF inv(2), of j] by (cases "j < ntasks s"; simp)+
    have q: "queue_ok (i # js) f HLoop \<Longrightarrow> queue_ok js f (HRun i) \<and> f i" "queue_ok js f HLoop \<Longrightarrow> queue_ok js f (HRun i)" for f js
      by (auto simp: queue_ok_def)
    have l: "queue_ok (taskQueue s) (queueElement \<circ> tsk s) HLoop" "queue_ok (prioritizedTaskQueue s) (prioritizedQueueElement \<circ> tsk s) HLoop"
      "sched_ok (taskSchedule s) (scheduleListElement \<circ> tsk s)" using inv(3) q_take(2) by (simp_all add: lists_ok_def)
    have k: "known (s\<lparr>queueHandler := HIdle\<rparr>)" using inv(2) by (simp add: known_def)
    show ?thesis
    proof (cases "prioritizedTaskQueue s")
      case Nil
      then obtain js where js: "taskQueue s = i # js" "s1 = s\<lparr>taskQueue := js\<rparr>" using q_take(5) by (auto simp: take_next_def split: list.splits)
      then have "lists_ok s'" "i < ntasks s" using q_take(1) q(1)[of js "queueElement \<circ> tsk s"] q(2)[OF l(2)] l el(1)[of i] by (simp_all add: lists_ok_def)
      then show ?thesis using q_take(1) js k by (simp add: known_def wake_ok_def)
    next
      case (Cons j js)
      then have js: "j = i" "s1 = s\<lparr>prioritizedTaskQueue := js\<rparr>" using q_take(5) by (auto simp: take_next_def)
      then have "lists_ok s'" "i < ntasks s"
        using q_take(1) q(1)[of js "prioritizedQueueElement \<circ> tsk s"] q(2)[OF l(1)] l el(2)[of i] Cons by (simp_all add: lists_ok_def)
      then show ?thesis using q_take(1) js k by (simp add: known_def wake_ok_def)
    qed
  next
    case (q_empty s1)
    then show ?thesis using inv lists_ok_leave[OF inv(3), of HIdle]
      by (auto simp: take_next_def known_def wake_ok_def split: list.splits)
  next
    case (q_run h s1)
    have h: "handler_tasks (queueHandler s) \<subseteq> {..<ntasks s}" using inv(2) by (simp add: known_def)
    note r = run_step_change[OF q_run(2) _ inv(2-4) h]
    have "wake_ok (s1\<lparr>queueHandler := h\<rparr>)" using q_run(2) by cases (auto simp: wake_ok_def)
    moreover have "lists_ok (s1\<lparr>queueHandler := h\<rparr>)"
      by (rule lists_ok_leave) (use r run_step_handlers[OF q_run(2)] in auto)
    moreover have "known (s1\<lparr>queueHandler := h\<rparr>)" using r(1,4,5) by (auto simp: known_def)
    ultimately show ?thesis using q_run(1) by simp
  qed
  then show ?thesis using exclusive_queue[OF assms(1) inv(1)] by (simp add: tinv_def)
qed

lemma tinv_schedule:
  assumes "schedule_step s s'" "tinv s"
  shows "tinv s'"
proof -
  have inv: "exclusive s" "known s" "lists_ok s" "wake_ok s" using assms(2) by (simp_all add: tinv_def)
  have el: "scheduleListElement (tsk s j) \<Longrightarrow> j < ntasks s" for j
    using known_blank[OF inv(2), of j] by (cases "j < ntasks s"; simp)
  have "known s' \<and> lists_ok s' \<and> wake_ok s'" using assms(1)
  proof cases
    case (s_due t)
    show ?thesis
    proof (cases "taskSchedule s")
      case (Cons i js)
      let ?s = "\<lambda>b. updT i (\<lambda>t. t\<lparr>overtime := b\<rparr>) s"
      have "scheduleListElement (tsk s i)" using inv(3) Cons by (auto simp: lists_ok_def sched_ok_def)
      then have i: "i < ntasks s" by (rule el)
      have "known (?s b)" "lists_ok (?s b)" "wake_ok (?s b)" for b
        using known_change[OF inv(2) i] wake_change[OF inv(4), of i] inv(3) by (auto simp: lists_ok_updT)
      then show ?thesis using s_due Cons i by (auto simp: schedule_due_def known_def lists_ok_def wake_ok_def)
    qed (use s_due inv in \<open>auto simp: schedule_due_def known_def lists_ok_def wake_ok_def\<close>)
  next
    case (s_asap i)
    then have i: "i < ntasks s" using inv(2) by (simp add: known_def)
    note c = task_change_queue(3)[of i s]
    show ?thesis using s_asap known_change[OF inv(2) i c] wake_change[OF inv(4) c] lists_ok_queue(3)[OF inv(3), of i]
      by (auto simp: known_def lists_ok_def wake_ok_def)
  next
    case (s_run h s1)
    have h: "handler_tasks (scheduleHandler s) \<subseteq> {..<ntasks s}" using inv(2) by (simp add: known_def)
    note r = run_step_change[OF s_run(2) _ inv(2-4) h]
    then show ?thesis using s_run(1) by (auto simp: known_def lists_ok_def wake_ok_def)
  qed (use inv in \<open>auto simp: known_def lists_ok_def wake_ok_def\<close>)
  then show ?thesis using exclusive_schedule[OF assms(1) inv(1)] by (simp add: tinv_def)
qed

lemma tinv_exec:
  assumes "exec_step s s'" "tinv s"
  shows "tinv s'"
proof -
  have inv: "exclusive s" "known s" "lists_ok s" "wake_ok s" using assms(2) by (simp_all add: tinv_def)
  have "known s' \<and> lists_ok s' \<and> wake_ok s'" using assms(1)
  proof cases
    case (e_begin xs i ys)
    then have "i < ntasks s" using inv(2) by (simp add: known_def)
    then show ?thesis using e_begin inv by (auto simp: exec_begin_def known_def lists_ok_def wake_ok_def flags_simps)
  next
    case (e_end xs i ys)
    then show ?thesis using inv by (auto simp: exec_end_def known_def lists_ok_def wake_ok_def)
  next
    case (e_reset xs i ys)
    then have i: "i < ntasks s" using inv(2) by (simp add: known_def)
    have c: "task_change i s (exec_reset i s)"
      by (auto simp: exec_reset_def Let_def task_change_def addToSchedule_eq)
    have "lists_ok (exec_reset i s)" using inv(3)
      by (auto simp: exec_reset_def Let_def lists_ok_updT intro!: lists_ok_addToSchedule)
    moreover have "execs (exec_reset i s) = xs @ (i, ExecEnd) # ys" using c e_reset(2) by (simp add: task_change_def)
    ultimately show ?thesis using e_reset(1) known_change[OF inv(2) i c] wake_change[OF inv(4) c]
      by (simp add: known_def lists_ok_def wake_ok_def)
  qed
  then show ?thesis using exclusive_exec[OF assms(1) inv(1)] by (simp add: tinv_def)
qed

lemma tinv_env:
  assumes "env_step s s'" "tinv s"
  shows "tinv s'"
proof -
  have inv: "exclusive s" "known s" "lists_ok s" "wake_ok s" using assms(2) by (simp_all add: tinv_def)
  have c: "tsk (cancel_contexts m s) j = (if taskModule (tsk s j) = Some m \<and> taskCtxDone (tsk s j) \<noteq> None
      then (tsk s j)\<lparr>taskCtxDone := Some True\<rparr> else tsk s j)" for m j by (simp add: cancel_contexts_def)
  have f: "queueElement \<circ> tsk (cancel_contexts m s) = queueElement \<circ> tsk s"
    "prioritizedQueueElement \<circ> tsk (cancel_contexts m s) = prioritizedQueueElement \<circ> tsk s"
    "scheduleListElement \<circ> tsk (cancel_contexts m s) = scheduleListElement \<circ> tsk s" for m
    by (auto simp: fun_eq_iff c)
  have "taskCtxDone (canceled_task n m) = None" for n m by (simp add: canceled_task_def)
  then have k: "known ((cancel_contexts m s)\<lparr>tsys := s1\<rparr>)" for m s1 using inv(2) by (auto simp: known_def cancel_contexts_def)
  have l: "lists_ok ((cancel_contexts m s)\<lparr>tsys := s1\<rparr>)" for m s1
    using inv(3) f[of m] unfolding lists_ok_def by (simp add: cancel_contexts_def)
  have w: "wake_ok ((cancel_contexts m s)\<lparr>tsys := s1\<rparr>)" for m s1
    using inv(4) by (simp add: wake_ok_def cancel_contexts_def)
  have "known s' \<and> lists_ok s' \<and> wake_ok s'" using assms(1)
    by cases (use k l w inv in \<open>simp_all add: known_def lists_ok_def wake_ok_def\<close>)
  then show ?thesis using exclusive_env[OF assms(1) inv(1)] by (simp add: tinv_def)
qed

lemma tinv_step: "task_step s s' \<Longrightarrow> tinv s \<Longrightarrow> tinv s'"
  by (induction rule: task_step.induct) (simp_all add: tinv_op tinv_env tinv_queue tinv_schedule tinv_exec)

lemma tinv_init: "tinv (task_init m t)"
  by (simp add: tinv_def task_init_def exclusive_def known_def lists_ok_def queue_ok_def sched_ok_def wake_ok_def)

lemma tinv_reach: "task_step\<^sup>*\<^sup>* (task_init m t) s \<Longrightarrow> tinv s"
  by (induction rule: rtranclp_induct) (simp_all add: tinv_init tinv_step)

subsection \<open>Exclusion and progress\<close>

text \<open>C10. In every state that clients, the two handlers, the executions and the modules reach together, no task is executed by two
  goroutines at the same time: of all goroutines that wait to execute a task or execute it there is at most one, and there is one exactly if the task is
  marked as executing.\<close>

theorem tasks_never_overlap:
  assumes "task_step\<^sup>*\<^sup>* (task_init m t) s"
  shows "length (filter (\<lambda>e. fst e = i) (execs s)) \<le> 1 \<and>
    (executing (tsk s i) \<longleftrightarrow> queueHandler s \<in> {HSlot i, HStartup i} \<or> scheduleHandler s \<in> {HSlot i, HStartup i} \<or> i \<in> fst ` set (execs s))"
proof -
  have "busy (queueHandler s) i + busy (scheduleHandler s) i + exec_count (execs s) i = of_bool (executing (tsk s i))"
    using tinv_reach[OF assms] by (simp add: tinv_def exclusive_def)
  moreover have "exec_count (execs s) i = 0 \<longleftrightarrow> i \<notin> fst ` set (execs s)"
    by (auto simp: exec_count_def filter_empty_conv)
  ultimately show ?thesis by (cases "executing (tsk s i)") (auto simp: busy_def exec_count_def split: if_splits)
qed

lemma queue_handler_kind:
  assumes "task_step\<^sup>*\<^sup>* (task_init m t) s"
  shows "queueHandler s \<noteq> HWait d \<and> queueHandler s \<noteq> HStartASAP i"
  using assms
proof (induction rule: rtranclp_induct)
  case (step s s')
  have e: "queueHandler (exec_reset i s) = queueHandler s" for i
    by (simp add: exec_reset_def Let_def addToSchedule_eq)
  from step(2) show ?case
  proof cases
    case 1
    then have "queueHandler s' = queueHandler s" using task_change_op[OF 1] by (auto simp: task_change_def NewTask_def)
    then show ?thesis using step.IH by simp
  next
    case 2
    then show ?thesis using step.IH by cases (auto simp: cancel_contexts_def)
  next
    case 3
    then show ?thesis using step.IH
    proof cases
      case (q_run h s1)
      from q_run(2) show ?thesis using q_run(1) by cases auto
    qed auto
  next
    case 4
    then have "queueHandler s' = queueHandler s" using task_change_queue(3)[of _ s] run_step_handlers(1)[of _ _ s]
      by cases (auto simp: schedule_due_def task_change_def split: list.splits)
    then show ?thesis using step.IH by simp
  next
    case 5
    then show ?thesis using step.IH by cases (auto simp: exec_begin_def exec_end_def e)
  qed
qed (simp add: task_init_def)

lemma queue_progress:
  assumes "tinv s" "taskQueue s \<noteq> [] \<or> prioritizedTaskQueue s \<noteq> []" "\<not> shutdownFlag (tsys s)" "queueHandler s \<noteq> HStopped"
    "\<And>d i. queueHandler s \<noteq> HWait d \<and> queueHandler s \<noteq> HStartASAP i"
  shows "(\<exists>s'. queue_step s s') \<or> 0 < notifiers s \<or> queueWg s \<noteq> [] \<or> (\<exists>i. queueHandler s = HStartup i)"
proof (cases "queueHandler s")
  case HLoop
  obtain s1 i where "take_next s = (s1, Some i)"
    using assms(2) by (cases "prioritizedTaskQueue s"; cases "taskQueue s") (auto simp: take_next_def)
  then show ?thesis using HLoop assms(3) queue_step.q_take by blast
next
  case (HRun i)
  obtain s1 b where "run_enter i s = (s1, b)" by fastforce
  then have "\<exists>h s'. run_step HLoop (queueHandler s, s) (h, s')" using HRun by (cases b) (auto intro: run_step.intros)
  then show ?thesis using queue_step.q_run by blast
next
  case (HSlot i)
  obtain s1 r where "run_slot i s = (s1, r)" by fastforce
  then have "\<exists>h s'. run_step HLoop (queueHandler s, s) (h, s')" using HSlot by (cases r) (auto intro: run_step.intros)
  then show ?thesis using queue_step.q_run by blast
qed (use assms in \<open>auto simp: tinv_def wake_ok_def intro: queue_step.intros\<close>)

text \<open>C11. No queued task is lost. In every reachable state a task that counts as queued is in its queue, or the handler has taken
  it and is about to run it; no task is twice in a list, and the schedule has exactly the tasks that count as
  scheduled. Queueing an active task marks it and leaves a notification. While a queue is not empty and there is no shutdown, the queue handler can go on or
  will be notified, unless it waits for an execution slot or for the start of the module of a task.\<close>

theorem queued_tasks_not_lost:
  assumes "task_step\<^sup>*\<^sup>* (task_init m t) s"
  shows "distinct (taskQueue s) \<and> distinct (prioritizedTaskQueue s) \<and> distinct (taskSchedule s) \<and>
    (\<forall>i. queueElement (tsk s i) \<longrightarrow> i \<in> set (taskQueue s) \<or> queueHandler s = HRun i) \<and>
    (\<forall>i. prioritizedQueueElement (tsk s i) \<longrightarrow> i \<in> set (prioritizedTaskQueue s) \<or> queueHandler s = HRun i) \<and>
    (\<forall>i. i \<in> set (taskSchedule s) \<longleftrightarrow> scheduleListElement (tsk s i)) \<and>
    (\<forall>i. isActive i s \<longrightarrow> queueElement (tsk (Queue i s) i) \<and> prioritizedQueueElement (tsk (QueuePrioritized i s) i) \<and>
       prioritizedQueueElement (tsk (StartASAP i s) i) \<and> 0 < notifiers (Queue i s) \<and> 0 < notifiers (QueuePrioritized i s) \<and>
       0 < notifiers (StartASAP i s)) \<and>
    ((taskQueue s \<noteq> [] \<or> prioritizedTaskQueue s \<noteq> []) \<and> \<not> shutdownFlag (tsys s) \<and> queueHandler s \<noteq> HStopped \<longrightarrow>
       (\<exists>s'. queue_step s s') \<or> 0 < notifiers s \<or> queueWg s \<noteq> [] \<or> (\<exists>i. queueHandler s = HStartup i))"
proof -
  have inv: "tinv s" using tinv_reach[OF assms] .
  then have "lists_ok s" by (simp add: tinv_def)
  then have l: "distinct (taskQueue s) \<and> distinct (prioritizedTaskQueue s) \<and> distinct (taskSchedule s)"
    "\<forall>i. queueElement (tsk s i) \<longrightarrow> i \<in> set (taskQueue s) \<or> queueHandler s = HRun i"
    "\<forall>i. prioritizedQueueElement (tsk s i) \<longrightarrow> i \<in> set (prioritizedTaskQueue s) \<or> queueHandler s = HRun i"
    "\<forall>i. i \<in> set (taskSchedule s) \<longleftrightarrow> scheduleListElement (tsk s i)"
    by (simp_all add: lists_ok_def queue_ok_def sched_ok_def)
  have p: "\<exists>s1. prepForQueueing i s = Some s1" if "isActive i s" for i using that by (simp add: prepForQueueing_def)
  have q: "queueElement (tsk (Queue i s) i) \<and> prioritizedQueueElement (tsk (QueuePrioritized i s) i) \<and>
       prioritizedQueueElement (tsk (StartASAP i s) i) \<and> 0 < notifiers (Queue i s) \<and> 0 < notifiers (QueuePrioritized i s) \<and>
       0 < notifiers (StartASAP i s)" if "isActive i s" for i
    using p[OF that] by (auto simp: Queue_def QueuePrioritized_def StartASAP_def Let_def)
  show ?thesis using l q queue_progress[OF inv] queue_handler_kind[OF assms] by blast
qed

subsection \<open>The order of the schedule\<close>

definition not_later :: "(nat \<Rightarrow> int option) \<Rightarrow> nat \<Rightarrow> nat \<Rightarrow> bool" where
  "not_later at i j \<longleftrightarrow> \<not> time_Before (at j) (at i)"

definition in_order :: "tstate \<Rightarrow> bool" where
  "in_order s \<longleftrightarrow> sorted_wrt (not_later (\<lambda>j. executeAt (tsk s j))) (taskSchedule s)"

lemma not_later_trans: "not_later at i j \<Longrightarrow> not_later at j k \<Longrightarrow> not_later at i k"
  by (cases "at i"; cases "at j"; cases "at k") (auto simp: not_later_def)

lemma time_Before_not_later: "time_Before (at i) (at j) \<Longrightarrow> not_later at i j"
  by (cases "at i"; cases "at j") (auto simp: not_later_def)

lemma sched_place_sorted: "sorted_wrt (not_later at) xs \<Longrightarrow> sorted_wrt (not_later at) (sched_place at i xs)"
  by (induction xs) (auto simp: not_later_def[of at _ i] dest: time_Before_not_later intro: not_later_trans)

lemma sorted_wrt_others:
  "(\<And>j. j \<in> set xs \<Longrightarrow> at' j = at j) \<Longrightarrow> sorted_wrt (not_later at') xs = sorted_wrt (not_later at) xs"
  by (intro iffI) (erule sorted_wrt_mono_rel[rotated], simp add: not_later_def)+

lemma addToSchedule_order:
  assumes "in_order s" "distinct (taskSchedule s)" "scheduleListElement (tsk s i) \<longrightarrow> i \<in> set (taskSchedule s)" "isActive i s"
    "\<And>t. scheduleListElement (f t) = scheduleListElement t" "isActive i (updT i f s)"
  shows "in_order (addToSchedule over i (updT i f s))" "set (taskSchedule (addToSchedule over i (updT i f s))) = insert i (set (taskSchedule s))"
proof -
  let ?at = "\<lambda>j. executeAt (tsk (updT i f s) j)"
  have "sorted_wrt (not_later ?at) (remove1 i (taskSchedule s)) =
      sorted_wrt (not_later (\<lambda>j. executeAt (tsk s j))) (remove1 i (taskSchedule s))"
    using assms(2) by (intro sorted_wrt_others) auto
  then have s: "sorted_wrt (not_later ?at) (sched_place ?at i (remove1 i (taskSchedule s)))"
    using assms(1,2) by (intro sched_place_sorted) (auto simp: in_order_def distinct_remove1_removeAll removeAll_filter_not_eq intro: sorted_wrt_filter)
  have el: "\<not> (scheduleListElement (tsk (updT i f s) i) \<and> i \<notin> set (taskSchedule (updT i f s)))" using assms(3,5) by auto
  have at: "(\<lambda>j. executeAt (tsk (addToSchedule over i (updT i f s)) j)) = ?at"
    using assms(6) by (auto simp: addToSchedule_eq)
  show "in_order (addToSchedule over i (updT i f s))"
    using s el assms(6) unfolding in_order_def at by (auto simp: addToSchedule_eq)
  show "set (taskSchedule (addToSchedule over i (updT i f s))) = insert i (set (taskSchedule s))"
    using el assms(2,6) by (auto simp: addToSchedule_eq)
qed

lemma isActive_updT: "(\<And>t. canceled (f t) = canceled t \<and> taskModule (f t) = taskModule t) \<Longrightarrow> isActive j (updT i f s) = isActive j s"
  by (cases "j = i") (simp_all add: isActive_def split: option.split)

text \<open>The schedule stays in the order of the times of execution when an active task is scheduled, repeated or queued, in every reachable state in which
  it is in order; the task is then in it, with all tasks that were in it. (An interval of zero does not schedule.)\<close>

theorem schedule_keeps_order:
  assumes "task_step\<^sup>*\<^sup>* (task_init m t) s" "in_order s" "isActive i s"
  shows "in_order (Schedule (Some at) i s) \<and> set (taskSchedule (Schedule (Some at) i s)) = insert i (set (taskSchedule s)) \<and>
    (d \<noteq> 0 \<longrightarrow> in_order (Repeat d i s) \<and> set (taskSchedule (Repeat d i s)) = insert i (set (taskSchedule s)) \<and>
       (\<exists>r \<ge> 60 * 1000000000. executeAt (tsk (Repeat d i s) i) = Some (taskClock s + r) \<and> repeat (tsk (Repeat d i s) i) = r)) \<and>
    (maxDelay (tsk s i) \<noteq> 0 \<longrightarrow> (\<forall>op \<in> {Queue i, QueuePrioritized i, StartASAP i}.
       in_order (op s) \<and> set (taskSchedule (op s)) = insert i (set (taskSchedule s)) \<and>
       executeAt (tsk (op s) i) = Some (taskClock s + maxDelay (tsk s i))))"
proof -
  have l: "distinct (taskSchedule s)" "scheduleListElement (tsk s i) \<longrightarrow> i \<in> set (taskSchedule s)"
    using tinv_reach[OF assms(1)] by (simp_all add: tinv_def lists_ok_def sched_ok_def)
  note a = addToSchedule_order[OF assms(2) l assms(3)]
  have at: "executeAt (tsk (addToSchedule over i (updT i f s)) i) = executeAt (f (tsk s i))"
    "repeat (tsk (addToSchedule over i (updT i f s)) i) = repeat (f (tsk s i))" for over f by (simp_all add: addToSchedule_eq)
  let ?d = "if d \<noteq> 0 \<and> d < minRepeatDuration then minRepeatDuration else d"
  have "?d \<ge> 60 * 1000000000" if "d \<noteq> 0" using that by (simp add: minRepeatDuration_def)
  then have r: "d \<noteq> 0 \<Longrightarrow> Repeat d i s = addToSchedule False i (updT i (\<lambda>t. t\<lparr>repeat := ?d, executeAt := Some (taskClock s + ?d)\<rparr>) s) \<and> 60 * 1000000000 \<le> ?d"
    by (auto simp: Repeat_def Let_def)
  let ?s1 = "addToSchedule True i (updT i (\<lambda>t. t\<lparr>executeAt := Some (taskClock s + maxDelay t)\<rparr>) s)"
  have q: "taskSchedule (op s) = taskSchedule ?s1 \<and> (\<lambda>j. executeAt (tsk (op s) j)) = (\<lambda>j. executeAt (tsk ?s1 j))"
    if "maxDelay (tsk s i) \<noteq> 0" "op \<in> {Queue i, QueuePrioritized i, StartASAP i}" for op
    using that assms(3) by (auto simp: Queue_def QueuePrioritized_def StartASAP_def prepForQueueing_def Let_def fun_eq_iff)
  have "in_order ?s1" "set (taskSchedule ?s1) = insert i (set (taskSchedule s))" using a assms(3) by (simp_all add: isActive_updT)
  then have "in_order (op s) \<and> set (taskSchedule (op s)) = insert i (set (taskSchedule s)) \<and>
       executeAt (tsk (op s) i) = Some (taskClock s + maxDelay (tsk s i))"
    if "maxDelay (tsk s i) \<noteq> 0" "op \<in> {Queue i, QueuePrioritized i, StartASAP i}" for op
    using q[OF that] fun_cong[OF conjunct2[OF q[OF that]], of i] at by (simp add: in_order_def)
  moreover have "in_order (Schedule (Some at) i s) \<and> set (taskSchedule (Schedule (Some at) i s)) = insert i (set (taskSchedule s))"
    using a assms(3) by (simp add: Schedule_def isActive_updT)
  moreover have "in_order (Repeat d i s) \<and> set (taskSchedule (Repeat d i s)) = insert i (set (taskSchedule s)) \<and>
       (\<exists>r \<ge> 60 * 1000000000. executeAt (tsk (Repeat d i s) i) = Some (taskClock s + r) \<and> repeat (tsk (Repeat d i s) i) = r)" if "d \<noteq> 0"
    using r[OF that] a assms(3) at by (auto simp: isActive_updT)
  ultimately show ?thesis by blast
qed

subsection \<open>Departures\<close>

text \<open>A task whose context has been cancelled while it was not executed.\<close>

definition dead :: "nat \<Rightarrow> tstate \<Rightarrow> bool" where
  "dead i s \<longleftrightarrow> i < ntasks s \<and> taskCtxDone (tsk s i) = Some True \<and> \<not> executing (tsk s i)"

lemma ctx_addToSchedule [simp]: "taskCtxDone (tsk (addToSchedule over i s) j) = taskCtxDone (tsk s j)"
  by (simp add: addToSchedule_eq)

lemma ctx_removeFromQueues [simp]: "taskCtxDone (tsk (removeFromQueues i s) j) = taskCtxDone (tsk s j)"
  by (simp add: removeFromQueues_eq)

lemma ctx_prep: "prepForQueueing i s = Some s' \<Longrightarrow> taskCtxDone (tsk s' j) = taskCtxDone (tsk s j)"
  by (auto simp: prepForQueueing_def split: if_splits)

lemma ctx_queue [simp]:
  "taskCtxDone (tsk (Queue i s) j) = taskCtxDone (tsk s j)" "taskCtxDone (tsk (QueuePrioritized i s) j) = taskCtxDone (tsk s j)"
  "taskCtxDone (tsk (StartASAP i s) j) = taskCtxDone (tsk s j)"
  by (auto simp: Queue_def QueuePrioritized_def StartASAP_def Let_def dest!: ctx_prep[of i s _ j] split: option.split)

lemma dead_not_executed:
  assumes "tinv s" "dead i s"
  shows "i \<notin> fst ` set (execs s)"
proof
  assume "i \<in> fst ` set (execs s)"
  then have "0 < exec_count (execs s) i" by (auto simp: exec_count_def filter_empty_conv)
  moreover have "exec_count (execs s) i = 0" using assms by (auto simp: tinv_def exclusive_def dead_def dest!: spec[of _ i])
  ultimately show False by simp
qed

lemma dead_run:
  assumes "run_step ret (h, s) (h', s')" "dead i s"
  shows "dead i s'"
  using assms(1)
proof cases
  case (enter j)
  then have "j \<noteq> i" using assms(2) by (auto simp: run_enter_def dead_def Let_def split: if_splits)
  then show ?thesis using enter assms(2) run_enter_lists(4)[OF enter(3)] by (auto simp: dead_def task_change_def)
next
  case (refuse j)
  then show ?thesis using assms(2) run_enter_lists(4)[OF refuse(3)]
    by (auto simp: dead_def run_enter_def Let_def task_change_def split: if_splits)
next
  case (slot j)
  then show ?thesis using assms(2) by (auto simp: dead_def run_slot_def split: if_splits)
next
  case (startup j)
  then show ?thesis using assms(2) by (auto simp: dead_def run_slot_def split: if_splits)
next
  case (abort j)
  then show ?thesis using assms(2) by (auto simp: dead_def run_slot_def split: if_splits)
qed (use assms(2) in \<open>auto simp: dead_def\<close>)

lemma dead_step:
  assumes "task_step s s'" "tinv s" "dead i s"
  shows "dead i s'"
  using assms(1)
proof cases
  case 1
  have "run_part s' = run_part s" using run_part_op[OF 1] assms(2) known_blank[of s] by (simp add: tinv_def)
  then have e: "\<not> executing (tsk s' i)" using assms(3) run_part_eqD(4)[of s' s i] by (simp add: dead_def)
  have n: "ntasks s \<le> ntasks s'" using task_change_op[OF 1] by (auto simp: task_change_def NewTask_def)
  have "taskCtxDone (tsk s' i) = Some True" using 1 assms(3)
    by cases (auto simp: dead_def NewTask_def MaxDelay_def Schedule_def Repeat_def task_Cancel_def Let_def)
  then show ?thesis using e n assms(3) by (simp add: dead_def)
next
  case 2
  then show ?thesis using assms(3) by cases (auto simp: dead_def cancel_contexts_def)
next
  case 3
  then show ?thesis using assms(3)
  proof cases
    case (q_run h s1)
    then show ?thesis using dead_run[OF q_run(2) assms(3)] by (simp add: dead_def)
  qed (auto simp: dead_def take_next_def split: list.splits)
next
  case 4
  then show ?thesis using assms(3)
  proof cases
    case (s_run h s1)
    then show ?thesis using dead_run[OF s_run(2) assms(3)] by (simp add: dead_def)
  next
    case (s_asap j)
    then show ?thesis using assms(3) task_change_queue(3)[of j s] run_part_eqD(4)[OF run_part_queue(3), of j s i]
      by (simp add: dead_def task_change_def)
  qed (auto simp: dead_def schedule_due_def split: list.splits)
next
  case 5
  have no: "i \<notin> fst ` set (execs s)" using dead_not_executed[OF assms(2,3)] .
  have "task_change j s (exec_reset j s)" for j by (auto simp: exec_reset_def Let_def task_change_def addToSchedule_eq)
  then have "tsk (exec_reset j s) i = tsk s i \<and> ntasks (exec_reset j s) = ntasks s" if "j \<noteq> i" for j using that by (simp add: task_change_def)
  with 5 no show ?thesis using assms(3) by cases (auto simp: dead_def exec_begin_def exec_end_def)
qed

lemma dead_forever: "task_step\<^sup>*\<^sup>* s s' \<Longrightarrow> tinv s \<Longrightarrow> dead i s \<Longrightarrow> tinv s' \<and> dead i s'"
  by (induction rule: rtranclp_induct) (auto intro: tinv_step dead_step)


subsection \<open>A sample run\<close>

definition sample_mods :: "mstatus \<Rightarrow> sys" where
  "sample_mods st = \<lparr>modules = [''m''], store = (\<lambda>n. (initNewModule n None None None [])\<lparr>status := st\<rparr>), modulesLocked = True,
     moduleMgmtEnabled = False, changeNotifyFn = False, failureUpdateReady = False, shutdownFlag = False, initialStartCompleted = True,
     changeLog = [], failureLog = [], goPanic = None\<rparr>"

definition sample_new :: "mstatus \<Rightarrow> tstate" where
  "sample_new st = NewTask (Some ''m'') ''t'' (task_init (sample_mods st) 0)"

definition sample_queued :: "mstatus \<Rightarrow> tstate" where
  "sample_queued st = Queue 0 (sample_new st)"

definition sample_taken :: "mstatus \<Rightarrow> tstate" where
  "sample_taken st = (sample_queued st)\<lparr>notifiers := 0, taskQueue := [], queueHandler := HRun 0\<rparr>"

definition sample_slot :: "mstatus \<Rightarrow> tstate" where
  "sample_slot st = (fst (run_enter 0 (sample_taken st)))\<lparr>queueHandler := HSlot 0\<rparr>"

lemma sample_simps:
  "store (sample_mods st) n = (initNewModule n None None None [])\<lparr>status := st\<rparr>" "shutdownFlag (sample_mods st) = False"
  "OnlineSoon n (sample_mods st)" "ctxDone (initNewModule n None None None []) = False" "taskModule (canceled_task a b) = b"
  by (simp_all add: sample_mods_def OnlineSoon_def initNewModule_def Sleep_def close_chan_def canceled_task_def)

lemma sample_task:
  "tsk (sample_new st) 0 = (canceled_task ''t'' (Some ''m''))\<lparr>canceled := False, maxDelay := defaultMaxDelay, taskCtxDone := Some False\<rparr>"
  "ntasks (sample_new st) = 1" "tsys (sample_new st) = sample_mods st" "isActive 0 (sample_new st)" "taskSchedule (sample_new st) = []"
  "queueHandler (sample_new st) = HStart"
  by (simp_all add: sample_new_def NewTask_def newTask_def task_init_def sample_simps isActive_def split: option.split)

lemma sample_queue_state:
  "tsk (sample_queued st) 0 = (tsk (sample_new st) 0)\<lparr>overtime := True, executeAt := Some defaultMaxDelay,
     scheduleListElement := True, queueElement := True\<rparr>"
  "taskQueue (sample_queued st) = [0]" "prioritizedTaskQueue (sample_queued st) = []" "notifiers (sample_queued st) = 1" "queueHandler (sample_queued st) = HStart"
  "tsys (sample_queued st) = sample_mods st" "queueWg (sample_queued st) = []" "taskSchedule (sample_queued st) = [0]" "ntasks (sample_queued st) = 1"
  "queueIsFilled (sample_queued st) = False"
  unfolding sample_queued_def Queue_def prepForQueueing_def sample_task(4)
  by (simp_all add: sample_new_def NewTask_def newTask_def task_init_def sample_simps isActive_def updT_def addToSchedule_eq canceled_task_def
      defaultMaxDelay_def Let_def)

lemma sample_reach:
  "task_step\<^sup>*\<^sup>* (task_init (sample_mods st) 0) (sample_new st)"
  "task_step\<^sup>*\<^sup>* (task_init (sample_mods st) 0) (sample_queued st)"
  "task_step\<^sup>*\<^sup>* (task_init (sample_mods st) 0) (sample_slot st)"
proof -
  note q = sample_queue_state
  show n: "task_step\<^sup>*\<^sup>* (task_init (sample_mods st) 0) (sample_new st)"
    unfolding sample_new_def by (intro r_into_rtranclp task_step.intros(1) task_op.intros(1))
  show s: "task_step\<^sup>*\<^sup>* (task_init (sample_mods st) 0) (sample_queued st)"
    using rtranclp.rtrancl_into_rtrancl[OF n task_step.intros(1)[OF task_op.intros(2)[of 0]]] sample_task(2)
    by (simp add: sample_queued_def)
  let ?a = "(sample_queued st)\<lparr>notifiers := 0, queueIsFilled := True\<rparr>" and ?b = "(sample_queued st)\<lparr>notifiers := 0, queueIsFilled := True, queueHandler := HIdle\<rparr>"
  let ?c = "?b\<lparr>queueHandler := HLoop, queueIsFilled := False\<rparr>"
  have "task_step (sample_queued st) ?a" by (intro task_step.intros(2) env_step.notify) (simp add: q)
  moreover have "queue_step ?a (?a\<lparr>queueHandler := HIdle\<rparr>)" by (rule queue_step.q_begin) (simp add: q)
  then have "task_step ?a ?b" by (intro task_step.intros(3)) simp
  moreover have "queue_step ?b (?b\<lparr>queueHandler := HLoop, queueIsFilled := False\<rparr>)" by (rule queue_step.q_wake) simp_all
  then have "task_step ?b ?c" by (rule task_step.intros(3))
  ultimately have c: "task_step\<^sup>*\<^sup>* (task_init (sample_mods st) 0) ?c"
    using s by (meson rtranclp.rtrancl_into_rtrancl)
  have "queue_step ?c ((?c\<lparr>taskQueue := []\<rparr>)\<lparr>queueHandler := HRun 0\<rparr>)"
    by (rule queue_step.q_take) (simp_all add: q sample_simps take_next_def)
  moreover have "(?c\<lparr>taskQueue := []\<rparr>)\<lparr>queueHandler := HRun 0\<rparr> = sample_taken st"
    by (rule tstate.equality) (simp_all add: sample_taken_def q)
  ultimately have "task_step ?c (sample_taken st)" by (metis task_step.intros(3))
  then have t: "task_step\<^sup>*\<^sup>* (task_init (sample_mods st) 0) (sample_taken st)"
    using c by (meson rtranclp.rtrancl_into_rtrancl)
  have "run_enter 0 (sample_taken st) = (fst (run_enter 0 (sample_taken st)), True)"
    by (simp add: run_enter_def Let_def removeFromQueues_eq sample_taken_def q sample_task isActive_def sample_simps canceled_task_def)
  then have "run_step HLoop (queueHandler (sample_taken st), sample_taken st) (HSlot 0, fst (run_enter 0 (sample_taken st)))"
    using run_step.enter by (simp add: sample_taken_def)
  then have "task_step (sample_taken st) (sample_slot st)"
    unfolding sample_slot_def by (intro task_step.intros(3) queue_step.q_run)
  then show "task_step\<^sup>*\<^sup>* (task_init (sample_mods st) 0) (sample_slot st)"
    using t by (meson rtranclp.rtrancl_into_rtrancl)
qed

lemma sample_slot_state:
  "executing (tsk (sample_slot st) 0)" "queueHandler (sample_slot st) = HSlot 0" "tsys (sample_slot st) = sample_mods st"
  "taskModule (tsk (sample_slot st) 0) = Some ''m''"
  by (simp_all add: sample_slot_def run_enter_def Let_def removeFromQueues_eq sample_taken_def sample_queue_state sample_task isActive_def
      sample_simps canceled_task_def updT_def)

theorem tasks_never_overlap_witness:
  "task_step\<^sup>*\<^sup>* (task_init (sample_mods StatusOnline) 0) (sample_slot StatusOnline) \<and> executing (tsk (sample_slot StatusOnline) 0) \<and>
   length (filter (\<lambda>e. fst e = 0) (execs (sample_slot StatusOnline))) \<le> 1"
  using tasks_never_overlap[OF sample_reach(3)[of StatusOnline], of 0] sample_reach(3)[of StatusOnline] sample_slot_state(1) by blast

theorem queued_tasks_not_lost_witness:
  "task_step\<^sup>*\<^sup>* (task_init (sample_mods StatusOnline) 0) (sample_queued StatusOnline) \<and> queueElement (tsk (sample_queued StatusOnline) 0) \<and>
   0 \<in> set (taskQueue (sample_queued StatusOnline)) \<and>
   ((\<exists>s'. queue_step (sample_queued StatusOnline) s') \<or> 0 < notifiers (sample_queued StatusOnline))"
proof -
  let ?s = "sample_queued StatusOnline"
  have "queueElement (tsk ?s 0)" "queueHandler ?s = HStart" "queueWg ?s = []" "\<not> shutdownFlag (tsys ?s)" "taskQueue ?s \<noteq> []"
    by (simp_all add: sample_queue_state sample_simps)
  with queued_tasks_not_lost[OF sample_reach(2)[of StatusOnline]] show ?thesis using sample_reach(2)[of StatusOnline] by auto
qed

theorem schedule_keeps_order_witness:
  "in_order (Schedule (Some 5) 0 (sample_new StatusOnline)) \<and> set (taskSchedule (Schedule (Some 5) 0 (sample_new StatusOnline))) = {0} \<and>
   in_order (Repeat 1 0 (sample_new StatusOnline)) \<and> in_order (StartASAP 0 (sample_new StatusOnline))"
proof -
  have "in_order (sample_new StatusOnline)" "maxDelay (tsk (sample_new StatusOnline) 0) \<noteq> 0"
    by (simp_all add: in_order_def sample_task defaultMaxDelay_def)
  with schedule_keeps_order[OF sample_reach(1)[of StatusOnline], of 0 5 1] show ?thesis using sample_task[of StatusOnline] by simp
qed


end
