(* ===== verification/Module_Events.thy ===== *)
theory Module_Events
  imports Module_Scheduling
begin

section \<open>Modules: events\<close>

text \<open>
  The events of \<^verbatim>\<open>modules/events.go\<close>. Triggering an event starts a goroutine that starts another one for every hook; those wait until both modules have
  started and then run the hook function as a worker of the module of the hook. Goroutines are entries of the state; what has been called is
  recorded, with the number of the trigger. A hook is known by its place in the list of its event.
\<close>

record eventHook =
  description :: string
  hookingModule :: string
  hookFn :: nat

record eventHooks =
  hooks :: "eventHook list"
  internal :: bool

datatype hook_stage = HookSource | HookTarget | HookRun | HookDone | HookGone

record 'd hook_run =
  hrTrigger :: nat
  hrModule :: string
  hrEvent :: string
  hrIndex :: nat
  hrHook :: eventHook
  hrData :: 'd
  hrStage :: hook_stage

record 'd evstate =
  evSys :: sys
  moduleHooks :: "string \<Rightarrow> string \<rightharpoonup> eventHooks"
  nextTrigger :: nat
  triggers :: "(nat \<times> string \<times> string \<times> 'd) list"
  hookRuns :: "'d hook_run list"
  subscriptionFunc :: "nat option"
  subscriptionCalls :: "(nat \<times> string \<times> string \<times> bool \<times> 'd) list"

subsection \<open>Registering\<close>

definition RegisterEvent :: "string \<Rightarrow> string \<Rightarrow> bool \<Rightarrow> 'd evstate \<Rightarrow> 'd evstate" where
  "RegisterEvent m event expose s =
     (case moduleHooks s m event of
        Some _ \<Rightarrow> s
      | None \<Rightarrow> s\<lparr>moduleHooks := (moduleHooks s)(m := (moduleHooks s m)(event \<mapsto> \<lparr>hooks = [], internal = \<not> expose\<rparr>))\<rparr>)"

definition RegisterEventHook ::
  "string \<Rightarrow> string \<Rightarrow> string \<Rightarrow> string \<Rightarrow> nat \<Rightarrow> 'd evstate \<Rightarrow> 'd evstate \<times> goerr option" where
  "RegisterEventHook m modul event descr fn s =
     (if modul \<noteq> m \<and> modul \<notin> set (modules (evSys s))
      then (s, Some (ErrNew (''module '' @ modul @ '' does not exist'')))
      else case moduleHooks s modul event of
             None \<Rightarrow> (s, Some (ErrNew (''event '' @ modul @ ''/'' @ event @ '' does not exist'')))
           | Some eh \<Rightarrow>
               (s\<lparr>moduleHooks := (moduleHooks s)(modul := (moduleHooks s modul)
                    (event \<mapsto> eh\<lparr>hooks := hooks eh @ [\<lparr>description = descr, hookingModule = m, hookFn = fn\<rparr>]\<rparr>))\<rparr>, None))"

definition SetEventSubscriptionFunc :: "nat \<Rightarrow> 'd evstate \<Rightarrow> 'd evstate \<times> bool" where
  "SetEventSubscriptionFunc fn s =
     (case subscriptionFunc s of None \<Rightarrow> (s\<lparr>subscriptionFunc := Some fn\<rparr>, True) | Some _ \<Rightarrow> (s, False))"

subsection \<open>Triggering\<close>

text \<open>The loop over the hooks: one goroutine for every hook of a module that is or will be online.\<close>

definition start_hooks :: "nat \<Rightarrow> string \<Rightarrow> string \<Rightarrow> 'd \<Rightarrow> eventHooks \<Rightarrow> 'd evstate \<Rightarrow> 'd evstate" where
  "start_hooks n m event data eh s =
     s\<lparr>hookRuns := hookRuns s @
         map (\<lambda>(i, h). \<lparr>hrTrigger = n, hrModule = m, hrEvent = event, hrIndex = i, hrHook = h, hrData = data, hrStage = HookSource\<rparr>)
           (filter (\<lambda>(i, h). OnlineSoon (hookingModule h) (evSys s)) (enumerate 0 (hooks eh)))\<rparr>"

definition call_subscription :: "string \<Rightarrow> string \<Rightarrow> eventHooks \<Rightarrow> 'd \<Rightarrow> 'd evstate \<Rightarrow> 'd evstate" where
  "call_subscription m event eh data s =
     (case subscriptionFunc s of
        None \<Rightarrow> s
      | Some f \<Rightarrow> s\<lparr>subscriptionCalls := subscriptionCalls s @ [(f, m, event, internal eh, data)]\<rparr>)"

definition TriggerEvent :: "string \<Rightarrow> string \<Rightarrow> 'd \<Rightarrow> 'd evstate \<Rightarrow> 'd evstate" where
  "TriggerEvent m event data s =
     (if OnlineSoon m (evSys s) then s\<lparr>triggers := triggers s @ [(nextTrigger s, m, event, data)], nextTrigger := Suc (nextTrigger s)\<rparr> else s)"

definition processEventTrigger :: "nat \<Rightarrow> string \<Rightarrow> string \<Rightarrow> 'd \<Rightarrow> 'd evstate \<Rightarrow> 'd evstate" where
  "processEventTrigger n m event data s =
     (case moduleHooks s m event of
        None \<Rightarrow> s
      | Some eh \<Rightarrow> call_subscription m event eh data (start_hooks n m event data eh s))"

text \<open>The hooks of another module; they are run as if the event were one of the calling module.\<close>

definition InjectEvent :: "string \<Rightarrow> string \<Rightarrow> string \<Rightarrow> string \<Rightarrow> 'd \<Rightarrow> 'd evstate \<Rightarrow> 'd evstate \<times> goerr option" where
  "InjectEvent m sourceEvent targetModule targetEvent data s =
     (if \<not> OnlineSoon m (evSys s) then (s, Some (ErrNew ''module not yet started''))
      else if \<not> modulesLocked (evSys s) then (s, Some (ErrNew ''module system not yet started''))
      else if targetModule \<notin> set (modules (evSys s)) then (s, Some (ErrNew (''module '' @ targetModule @ '' does not exist'')))
      else case moduleHooks s targetModule targetEvent of
             None \<Rightarrow> (s, Some (ErrNew (''module '' @ targetModule @ '' has no event named '' @ targetEvent)))
           | Some eh \<Rightarrow>
               (call_subscription targetModule targetEvent eh data
                  (start_hooks (nextTrigger s) m sourceEvent data eh (s\<lparr>nextTrigger := Suc (nextTrigger s)\<rparr>)), None))"

subsection \<open>Running hooks\<close>

text \<open>\<open>runEventHook\<close>: the stage that follows, if it can go on. A module that is waited for may have started, or one of the two may be
  stopping.\<close>

definition hook_wait :: "string \<Rightarrow> 'd hook_run \<Rightarrow> hook_stage \<Rightarrow> sys \<Rightarrow> hook_stage set" where
  "hook_wait m r nxt s =
     (if status (store s m) = StatusOnline then {nxt}
      else (if startComplete (store s m) = ChanClosed then {nxt} else {}) \<union>
           (if ctxDone (store s (hookingModule (hrHook r))) \<or> ctxDone (store s (hrModule r)) then {HookGone} else {}))"

definition hook_next :: "'d hook_run \<Rightarrow> sys \<Rightarrow> hook_stage set" where
  "hook_next r s =
     (case hrStage r of
        HookSource \<Rightarrow> hook_wait (hrModule r) r HookTarget s
      | HookTarget \<Rightarrow> hook_wait (hookingModule (hrHook r)) r HookRun s
      | HookRun \<Rightarrow> {HookDone}
      | _ \<Rightarrow> {})"

text \<open>\<open>RunWorker\<close> counts the worker while the hook function runs.\<close>

definition hook_effect :: "'d hook_run \<Rightarrow> hook_stage \<Rightarrow> sys \<Rightarrow> sys" where
  "hook_effect r st s =
     (let m = hookingModule (hrHook r) in
      if st = HookRun then upd m (\<lambda>x. x\<lparr>workerCnt := workerCnt x + 1\<rparr>) s
      else if st = HookDone then checkIfStopComplete m (upd m (\<lambda>x. x\<lparr>workerCnt := workerCnt x - 1\<rparr>) s)
      else s)"

inductive ev_step :: "'d evstate \<Rightarrow> 'd evstate \<Rightarrow> bool" where
  register: "ev_step s (RegisterEvent m event expose s)"
| hook: "ev_step s (fst (RegisterEventHook m modul event descr fn s))"
| subscribe: "ev_step s (fst (SetEventSubscriptionFunc fn s))"
| trigger: "ev_step s (TriggerEvent m event data s)"
| process: "triggers s = xs @ (n, m, event, data) # ys \<Longrightarrow> ev_step s (processEventTrigger n m event data (s\<lparr>triggers := xs @ ys\<rparr>))"
| inject: "ev_step s (fst (InjectEvent m sourceEvent targetModule targetEvent data s))"
| run: "hookRuns s = xs @ r # ys \<Longrightarrow> st \<in> hook_next r (evSys s) \<Longrightarrow>
    ev_step s (s\<lparr>hookRuns := xs @ r\<lparr>hrStage := st\<rparr> # ys, evSys := hook_effect r st (evSys s)\<rparr>)"
| modules: "ev_step s (s\<lparr>evSys := m\<rparr>)"

definition ev_init :: "sys \<Rightarrow> 'd evstate" where
  "ev_init m = \<lparr>evSys = m, moduleHooks = (\<lambda>_. Map.empty), nextTrigger = 0, triggers = [], hookRuns = [], subscriptionFunc = None,
     subscriptionCalls = []\<rparr>"

subsection \<open>Every hook once\<close>

definition run_id :: "'d hook_run \<Rightarrow> nat \<times> nat" where
  "run_id r = (hrTrigger r, hrIndex r)"

definition ev_inv :: "'d evstate \<Rightarrow> bool" where
  "ev_inv s \<longleftrightarrow> distinct (map run_id (hookRuns s)) \<and> distinct (map fst (triggers s)) \<and>
     fst ` set (triggers s) \<union> hrTrigger ` set (hookRuns s) \<subseteq> {..<nextTrigger s} \<and>
     fst ` set (triggers s) \<inter> hrTrigger ` set (hookRuns s) = {}"

lemma hookRuns_simps [simp]:
  "hookRuns (call_subscription m e eh d s) = hookRuns s" "triggers (call_subscription m e eh d s) = triggers s"
  "nextTrigger (call_subscription m e eh d s) = nextTrigger s" "triggers (start_hooks n m e d eh s) = triggers s"
  "nextTrigger (start_hooks n m e d eh s) = nextTrigger s"
  by (simp_all add: call_subscription_def start_hooks_def split: option.split)

lemma start_hooks_ids:
  "map run_id (hookRuns (start_hooks n m e d eh s)) =
     map run_id (hookRuns s) @ map (\<lambda>(i, h). (n, i)) (filter (\<lambda>(i, h). OnlineSoon (hookingModule h) (evSys s)) (enumerate 0 (hooks eh)))"
  by (simp add: start_hooks_def run_id_def split_def comp_def)

lemma start_hooks_inv:
  assumes "distinct (map run_id (hookRuns s))" "n \<notin> hrTrigger ` set (hookRuns s)"
  shows "distinct (map run_id (hookRuns (start_hooks n m e d eh s)))"
    "hrTrigger ` set (hookRuns (start_hooks n m e d eh s)) \<subseteq> insert n (hrTrigger ` set (hookRuns s))"
proof -
  have "map (\<lambda>(i, h). (n, i)) (enumerate 0 (hooks eh)) = map (Pair n) [0..<length (hooks eh)]"
    using map_fst_enumerate[of 0 "hooks eh"] by (simp add: split_def comp_def flip: map_map[of "Pair n" fst, unfolded comp_def])
  then have "distinct (map (\<lambda>(i, h). (n, i)) (enumerate 0 (hooks eh)))" by (simp add: distinct_map inj_on_def)
  then have d: "distinct (map (\<lambda>(i, h). (n, i)) (filter P (enumerate 0 (hooks eh))))" for P by (rule distinct_map_filter)
  have "(n, i) \<notin> set (map run_id (hookRuns s))" for i using assms(2) by (auto simp: run_id_def)
  then show "distinct (map run_id (hookRuns (start_hooks n m e d eh s)))"
    unfolding start_hooks_ids using assms(1) d by auto
  show "hrTrigger ` set (hookRuns (start_hooks n m e d eh s)) \<subseteq> insert n (hrTrigger ` set (hookRuns s))"
    by (auto simp: start_hooks_def)
qed

lemma start_hooks_ev_inv:
  assumes "ev_inv s" "n < nextTrigger s" "n \<notin> fst ` set (triggers s)" "n \<notin> hrTrigger ` set (hookRuns s)"
  shows "ev_inv (call_subscription m' e' eh d' (start_hooks n m e d eh s))"
proof -
  have d: "distinct (map run_id (hookRuns s))" using assms(1) by (simp add: ev_inv_def)
  have "hrTrigger ` set (hookRuns (start_hooks n m e d eh s)) \<subseteq> insert n (hrTrigger ` set (hookRuns s))" by (rule start_hooks_inv(2)[OF d assms(4)])
  then show ?thesis using assms start_hooks_inv(1)[OF d assms(4), of m e d eh]
    unfolding ev_inv_def hookRuns_simps by (auto 4 3 dest: subsetD)
qed

lemma ev_inv_step: "ev_step s s' \<Longrightarrow> ev_inv s \<Longrightarrow> ev_inv s'"
proof (induction rule: ev_step.induct)
  case (process s xs n m event data ys)
  let ?s = "s\<lparr>triggers := xs @ ys\<rparr>"
  have "ev_inv ?s" "n < nextTrigger ?s" "n \<notin> fst ` set (triggers ?s)" "n \<notin> hrTrigger ` set (hookRuns ?s)"
    using process by (auto simp: ev_inv_def)
  then show ?case using start_hooks_ev_inv[of ?s n] by (simp add: processEventTrigger_def split: option.split)
next
  case (inject s m sourceEvent targetModule targetEvent data)
  let ?s = "s\<lparr>nextTrigger := Suc (nextTrigger s)\<rparr>"
  have "ev_inv ?s" "nextTrigger s < nextTrigger ?s" "nextTrigger s \<notin> fst ` set (triggers ?s)" "nextTrigger s \<notin> hrTrigger ` set (hookRuns ?s)"
    using inject by (auto simp: ev_inv_def less_Suc_eq)
  then show ?case using inject start_hooks_ev_inv[of ?s "nextTrigger s"] by (simp add: InjectEvent_def split: option.split)
next
  case (trigger s m event data)
  then show ?case by (auto simp: ev_inv_def TriggerEvent_def less_Suc_eq)
next
  case (run s xs r ys st)
  then show ?case by (auto simp: ev_inv_def run_id_def)
qed (auto simp: ev_inv_def RegisterEvent_def RegisterEventHook_def SetEventSubscriptionFunc_def split: option.split)

text \<open>A run that has reached its function has seen both modules started.\<close>

definition started_module :: "string \<Rightarrow> sys \<Rightarrow> bool" where
  "started_module m s \<longleftrightarrow> status (store s m) = StatusOnline \<or> startComplete (store s m) = ChanClosed"

lemma hook_next_run:
  "st \<in> hook_next r s \<Longrightarrow> st = HookTarget \<Longrightarrow> started_module (hrModule r) s"
  "st \<in> hook_next r s \<Longrightarrow> st = HookRun \<Longrightarrow> hrStage r = HookTarget \<and> started_module (hookingModule (hrHook r)) s"
  by (auto simp: hook_next_def hook_wait_def started_module_def split: hook_stage.splits if_splits)


definition sample_hook :: eventHook where
  "sample_hook = \<lparr>description = ''d'', hookingModule = ''m'', hookFn = 7\<rparr>"

definition sample_events :: "(nat \<times> string \<times> string \<times> nat) list \<Rightarrow> hook_stage list \<Rightarrow> nat evstate" where
  "sample_events ts stages = (ev_init (sample_mods StatusOnline))\<lparr>
     moduleHooks := (\<lambda>_. Map.empty)(''m'' := [''e'' \<mapsto> \<lparr>hooks = [sample_hook], internal = True\<rparr>]), nextTrigger := (if ts = [] \<and> stages = [] then 0 else 1),
     triggers := ts, hookRuns := map (\<lambda>st. \<lparr>hrTrigger = 0, hrModule = ''m'', hrEvent = ''e'', hrIndex = 0, hrHook = sample_hook,
       hrData = 5, hrStage = st\<rparr>) stages\<rparr>"

lemma sample_events_reach:
  "ev_step\<^sup>*\<^sup>* (ev_init (sample_mods StatusOnline)) (sample_events [] [HookSource])"
  "ev_step\<^sup>*\<^sup>* (ev_init (sample_mods StatusOnline)) (sample_events [] [HookTarget])"
proof -
  let ?i = "ev_init (sample_mods StatusOnline) :: nat evstate" and ?s = sample_events
  let ?e = "RegisterEvent ''m'' ''e'' False ?i"
  have "?s [] [] = fst (RegisterEventHook ''m'' ''m'' ''e'' ''d'' 7 ?e)"
    by (simp add: sample_events_def RegisterEvent_def RegisterEventHook_def ev_init_def sample_hook_def)
  then have a: "ev_step\<^sup>*\<^sup>* ?i (?s [] [])"
    by (metis ev_step.register ev_step.hook converse_rtranclp_into_rtranclp rtranclp.rtrancl_refl)
  have "TriggerEvent ''m'' ''e'' 5 (?s [] []) = ?s [(0, ''m'', ''e'', 5)] []"
    by (simp add: TriggerEvent_def sample_events_def ev_init_def sample_simps)
  then have b: "ev_step (?s [] []) (?s [(0, ''m'', ''e'', 5)] [])" by (metis ev_step.trigger)
  have "processEventTrigger 0 ''m'' ''e'' 5 ((?s [(0, ''m'', ''e'', 5)] [])\<lparr>triggers := [] @ []\<rparr>) = ?s [] [HookSource]"
    by (simp add: processEventTrigger_def sample_events_def ev_init_def sample_simps start_hooks_def call_subscription_def sample_hook_def)
  then have c: "ev_step (?s [(0, ''m'', ''e'', 5)] []) (?s [] [HookSource])"
    using ev_step.process[of "?s [(0, ''m'', ''e'', 5)] []" "[]" 0 "''m''" "''e''" 5 "[]"] by (simp add: sample_events_def)
  show d: "ev_step\<^sup>*\<^sup>* ?i (?s [] [HookSource])" using a b c by (meson rtranclp.rtrancl_into_rtrancl)
  let ?r = "\<lparr>hrTrigger = 0, hrModule = ''m'', hrEvent = ''e'', hrIndex = 0, hrHook = sample_hook, hrData = 5 :: nat, hrStage = HookSource\<rparr>"
  have "ev_step (?s [] [HookSource]) ((?s [] [HookSource])\<lparr>hookRuns := [] @ ?r\<lparr>hrStage := HookTarget\<rparr> # [],
      evSys := hook_effect ?r HookTarget (evSys (?s [] [HookSource]))\<rparr>)"
    by (rule ev_step.run) (simp_all add: sample_events_def ev_init_def hook_next_def hook_wait_def sample_simps)
  then have "ev_step (?s [] [HookSource]) (?s [] [HookTarget])"
    by (simp add: sample_events_def hook_effect_def ev_init_def)
  then show "ev_step\<^sup>*\<^sup>* ?i (?s [] [HookTarget])" using d by (meson rtranclp.rtrancl_into_rtrancl)
qed


end
