(* ===== verification/Utils_Pool.thy ===== *)
theory Utils_Pool
  imports Go_Prelude "HOL-Library.Multiset"
begin

section \<open>Utilities: slices and the stable pool\<close>

text \<open>
  The functions on slices of \<^verbatim>\<open>utils/slices.go\<close> and the \<open>StablePool\<close> of \<^verbatim>\<open>utils/stablepool.go\<close>. An item that is \<open>nil\<close> is \<open>None\<close>. The search of the pool
  goes round until it reaches the index before its start; from index zero there is no such index, and it would never end without
  a hit, so it is a partial function. Shown is that the calls return, what they do with the items, and in which states an item is dropped or
  overlooked.
\<close>

subsection \<open>Slices\<close>

fun index_from :: "int \<Rightarrow> string list \<Rightarrow> string \<Rightarrow> int" where
  "index_from i [] s = - 1"
| "index_from i (x # xs) s = (if x = s then i else index_from (i + 1) xs s)"

definition IndexOfString :: "string list \<Rightarrow> string \<Rightarrow> int" where
  "IndexOfString a s = index_from 0 a s"

definition StringInSlice :: "string list \<Rightarrow> string \<Rightarrow> bool" where
  "StringInSlice a s \<longleftrightarrow> IndexOfString a s \<ge> 0"

definition RemoveFromStringSlice :: "string list \<Rightarrow> string \<Rightarrow> string list" where
  "RemoveFromStringSlice a s =
     (let i = IndexOfString a s in if i > 0 then take (nat i) a @ drop (Suc (nat i)) a else a)"

definition DuplicateStrings :: "string list \<Rightarrow> string list" where
  "DuplicateStrings a = gocopy (replicate (length a) []) a"

fun equal_from :: "nat \<Rightarrow> string list \<Rightarrow> string list \<Rightarrow> bool" where
  "equal_from i [] b = True"
| "equal_from i (v # vs) b = (if v \<noteq> b ! i then False else equal_from (Suc i) vs b)"

definition StringSliceEqual :: "string list \<Rightarrow> string list \<Rightarrow> bool" where
  "StringSliceEqual a b = (if length a \<noteq> length b then False else equal_from 0 a b)"

lemma index_from_cases:
  "s \<notin> set a \<Longrightarrow> index_from i a s = - 1"
  "s \<in> set a \<Longrightarrow> 0 \<le> i \<Longrightarrow> \<exists>xs ys. a = xs @ s # ys \<and> s \<notin> set xs \<and> index_from i a s = i + int (length xs)"
proof (induction a arbitrary: i)
  case (Cons x a)
  { case 1 then show ?case using Cons.IH(1) by auto }
  { case 2
    show ?case
    proof (cases "x = s")
      case True
      then show ?thesis by (intro exI[of _ "[]"] exI[of _ a]) simp
    next
      case False
      then obtain xs ys where "a = xs @ s # ys" "s \<notin> set xs" "index_from (i + 1) a s = i + 1 + int (length xs)"
        using Cons.IH(2)[of "i + 1"] 2 by auto
      then show ?thesis using False by (intro exI[of _ "x # xs"] exI[of _ ys]) simp
    qed }
qed simp_all

lemma StringInSlice_iff: "StringInSlice a s \<longleftrightarrow> s \<in> set a"
  using index_from_cases[of s a 0] by (cases "s \<in> set a") (auto simp: StringInSlice_def IndexOfString_def)

lemma equal_from_iff: "i + length a = length b \<Longrightarrow> equal_from i a b \<longleftrightarrow> a = drop i b"
proof (induction a arbitrary: i)
  case (Cons v vs)
  then have "i < length b" "drop i b = b ! i # drop (Suc i) b" by (simp_all add: Cons_nth_drop_Suc)
  then show ?case using Cons.IH[of "Suc i"] Cons.prems by auto
qed simp

lemma StringSliceEqual_iff: "StringSliceEqual a b \<longleftrightarrow> a = b"
  by (auto simp: StringSliceEqual_def equal_from_iff)

text \<open>Everything is kept when the string is the first one.\<close>

lemma RemoveFromStringSlice_eq:
  "RemoveFromStringSlice a s = (if a \<noteq> [] \<and> hd a = s then a else remove1 s a)"
proof (cases "s \<in> set a")
  case True
  then obtain xs ys where a: "a = xs @ s # ys" "s \<notin> set xs" "IndexOfString a s = int (length xs)"
    using index_from_cases(2)[of s a 0] by (auto simp: IndexOfString_def)
  then show ?thesis by (cases xs) (auto simp: RemoveFromStringSlice_def remove1_append Let_def nat_add_distrib)
next
  case False
  then show ?thesis using index_from_cases(1)[of s a 0] by (simp add: RemoveFromStringSlice_def IndexOfString_def remove1_idem)
qed

subsection \<open>The pool\<close>

record 'a StablePool =
  pool :: "'a option list"
  cnt :: nat
  getIndex :: nat
  putIndex :: nat

definition empty_pool :: "'a StablePool" where
  "empty_pool = \<lparr>pool = [], cnt = 0, getIndex = 0, putIndex = 0\<rparr>"

text \<open>The loop of \<open>Put\<close> and \<open>Get\<close>: the index of the first hit, or none; the outer \<open>None\<close> is a loop that does not end.\<close>

partial_function (option) pool_scan :: "('a option \<Rightarrow> bool) \<Rightarrow> 'a option list \<Rightarrow> nat \<Rightarrow> int \<Rightarrow> nat option option" where
  "pool_scan hit xs i stopAt =
     (if int i = stopAt then Some None
      else if hit (xs ! i) then Some (Some i)
      else pool_scan hit xs (Suc i mod length xs) stopAt)"

definition pool_Put :: "'a option \<Rightarrow> 'a StablePool \<Rightarrow> 'a StablePool option" where
  "pool_Put x p =
     (case x of
        None \<Rightarrow> Some p
      | Some _ \<Rightarrow>
          if cnt p = length (pool p) then Some (p\<lparr>pool := pool p @ [x], cnt := Suc (cnt p), putIndex := Suc (cnt p)\<rparr>)
          else
            (let i0 = putIndex p mod length (pool p) in
             case pool_scan (\<lambda>y. y = None) (pool p) i0 (int i0 - 1) of
               None \<Rightarrow> None
             | Some None \<Rightarrow> Some (p\<lparr>putIndex := i0\<rparr>)
             | Some (Some i) \<Rightarrow> Some (p\<lparr>pool := (pool p)[i := x], cnt := Suc (cnt p), putIndex := Suc i\<rparr>)))"

text \<open>\<open>new\<close> is what \<open>p.New()\<close> returns, \<open>None\<close> without such a function.\<close>

definition pool_Get :: "'a option \<Rightarrow> 'a StablePool \<Rightarrow> ('a StablePool \<times> 'a option) option" where
  "pool_Get new p =
     (if cnt p = 0 then Some (p, new)
      else
        (let i0 = getIndex p mod length (pool p) in
         case pool_scan (\<lambda>y. y \<noteq> None) (pool p) i0 (int i0 - 1) of
           None \<Rightarrow> None
         | Some None \<Rightarrow> Some (p\<lparr>getIndex := i0\<rparr>, new)
         | Some (Some i) \<Rightarrow> Some (p\<lparr>pool := (pool p)[i := None], cnt := cnt p - 1, getIndex := Suc i\<rparr>, pool p ! i)))"

definition Size :: "'a StablePool \<Rightarrow> nat" where "Size p = cnt p"
definition Max_size :: "'a StablePool \<Rightarrow> nat" where "Max_size p = length (pool p)"

subsection \<open>What the search finds\<close>


lemma pool_scan_upto:
  assumes "j < length xs" "i \<le> j" "hit (xs ! j)" "\<And>k. i \<le> k \<Longrightarrow> k < j \<Longrightarrow> \<not> hit (xs ! k)" "stopAt < int i \<or> int j < stopAt"
  shows "pool_scan hit xs i stopAt = Some (Some j)"
  using assms(2,4,5)
proof (induction "j - i" arbitrary: i)
  case 0
  then show ?case using assms(1,3) by (subst pool_scan.simps) auto
next
  case (Suc d)
  then have "Suc i mod length xs = Suc i" "\<not> hit (xs ! i)" "int i \<noteq> stopAt" using assms(1) by auto
  then show ?case using Suc by (subst pool_scan.simps) auto
qed

lemma pool_scan_stop:
  assumes "i \<le> j" "j < length xs" "stopAt = int j" "\<And>k. i \<le> k \<Longrightarrow> k < j \<Longrightarrow> \<not> hit (xs ! k)"
  shows "pool_scan hit xs i stopAt = Some None"
  using assms(1,4)
proof (induction "j - i" arbitrary: i)
  case 0
  then show ?case using assms(3) by (subst pool_scan.simps) auto
next
  case (Suc d)
  then have "Suc i mod length xs = Suc i" "\<not> hit (xs ! i)" "int i \<noteq> stopAt" using assms(2,3) by auto
  then show ?case using Suc by (subst pool_scan.simps) auto
qed

lemma pool_scan_wrap:
  assumes "i < length xs" "\<And>k. i \<le> k \<Longrightarrow> k < length xs \<Longrightarrow> \<not> hit (xs ! k)" "stopAt < int i"
  shows "pool_scan hit xs i stopAt = pool_scan hit xs 0 stopAt"
  using assms
proof (induction "length xs - i" arbitrary: i)
  case (Suc d)
  have s: "pool_scan hit xs i stopAt = pool_scan hit xs (Suc i mod length xs) stopAt"
    using Suc(3-5) by (subst pool_scan.simps) auto
  show ?case
  proof (cases "Suc i = length xs")
    case True
    then show ?thesis using s by simp
  next
    case False
    then have "Suc i < length xs" using Suc(3) by simp
    then show ?thesis using s Suc(1)[of "Suc i"] Suc(2-5) by simp
  qed
qed simp

lemma first_hit:
  assumes "a \<le> j" "P (j :: nat)"
  obtains k where "a \<le> k" "k \<le> j" "P k" "\<And>l. a \<le> l \<Longrightarrow> l < k \<Longrightarrow> \<not> P l"
  using assms LeastI[of "\<lambda>x. a \<le> x \<and> P x" j] Least_le[of "\<lambda>x. a \<le> x \<and> P x" j] not_less_Least[of _ "\<lambda>x. a \<le> x \<and> P x"]
  by blast

text \<open>If there is a hit at all, the search returns one, unless the only one is the index before its start.\<close>

lemma pool_scan_result:
  assumes "i < length xs" "j < length xs" "hit (xs ! j)"
  shows "(\<exists>k < length xs. pool_scan hit xs i (int i - 1) = Some (Some k) \<and> hit (xs ! k)) \<or>
    pool_scan hit xs i (int i - 1) = Some None \<and> 0 < i \<and> hit (xs ! (i - 1)) \<and> (\<forall>k < length xs. k \<noteq> i - 1 \<longrightarrow> \<not> hit (xs ! k))"
proof (cases "\<exists>k < length xs. i \<le> k \<and> hit (xs ! k)")
  case True
  then obtain j' where "i \<le> j'" "j' < length xs \<and> hit (xs ! j')" by blast
  then obtain k where "i \<le> k" "k < length xs" "hit (xs ! k)" "\<And>l. i \<le> l \<Longrightarrow> l < k \<Longrightarrow> \<not> hit (xs ! l)"
    by (rule first_hit[of i j' "\<lambda>x. x < length xs \<and> hit (xs ! x)"]) (auto dest: less_trans)
  then show ?thesis using pool_scan_upto[of k xs i hit "int i - 1"] by auto
next
  case False
  have w: "pool_scan hit xs i (int i - 1) = pool_scan hit xs 0 (int i - 1)" using False assms(1) by (intro pool_scan_wrap) auto
  have j: "j < i" using False assms(2,3) not_le by blast
  show ?thesis
  proof (cases "\<exists>k < i - 1. hit (xs ! k)")
    case True
    then obtain j' where "0 \<le> j'" "j' < i - 1 \<and> hit (xs ! j')" by blast
    then obtain k where "k < i - 1" "hit (xs ! k)" "\<And>l. l < k \<Longrightarrow> \<not> hit (xs ! l)"
      by (rule first_hit[of 0 j' "\<lambda>x. x < i - 1 \<and> hit (xs ! x)"]) force
    moreover from this have "k < length xs" "int k < int i - 1" using assms(1) by auto
    ultimately have "pool_scan hit xs 0 (int i - 1) = Some (Some k)" by (intro pool_scan_upto) auto
    then show ?thesis using w \<open>k < length xs\<close> \<open>hit (xs ! k)\<close> by auto
  next
    case no: False
    then have "pool_scan hit xs 0 (int i - 1) = Some None" using j assms(1) by (intro pool_scan_stop[of 0 "i - 1"]) auto
    moreover have "\<not> j < i - 1" using no assms(3) by blast
    then have "j = i - 1" using j by simp
    then have "hit (xs ! (i - 1))" using assms(3) by simp
    moreover have "\<not> hit (xs ! k)" if "k < length xs" "k \<noteq> i - 1" for k
    proof (cases "k < i - 1")
      case True
      then show ?thesis using no by blast
    next
      case ge: False
      then have "i \<le> k" using that by simp
      then show ?thesis using False that by blast
    qed
    ultimately show ?thesis using w j by auto
  qed
qed

subsection \<open>Items\<close>

definition items :: "'a StablePool \<Rightarrow> 'a multiset" where
  "items p = mset (map the (filter (\<lambda>x. x \<noteq> None) (pool p)))"

definition pool_ok :: "'a StablePool \<Rightarrow> bool" where
  "pool_ok p \<longleftrightarrow> cnt p = length (filter (\<lambda>x. x \<noteq> None) (pool p))"

lemma filter_update_Some:
  "i < length xs \<Longrightarrow> xs ! i = None \<Longrightarrow>
   length (filter (\<lambda>x. x \<noteq> None) (xs[i := Some v])) = Suc (length (filter (\<lambda>x. x \<noteq> None) xs)) \<and>
   mset (map the (filter (\<lambda>x. x \<noteq> None) (xs[i := Some v]))) = add_mset v (mset (map the (filter (\<lambda>x. x \<noteq> None) xs)))"
  by (induction xs arbitrary: i) (auto split: nat.splits)

lemma filter_update_None:
  "i < length xs \<Longrightarrow> xs ! i = Some v \<Longrightarrow>
   Suc (length (filter (\<lambda>x. x \<noteq> None) (xs[i := None]))) = length (filter (\<lambda>x. x \<noteq> None) xs) \<and>
   add_mset v (mset (map the (filter (\<lambda>x. x \<noteq> None) (xs[i := None])))) = mset (map the (filter (\<lambda>x. x \<noteq> None) xs))"
  by (induction xs arbitrary: i) (auto split: nat.splits)

text \<open>The states in which the search overlooks the free place, or the item.\<close>

definition put_blind :: "'a StablePool \<Rightarrow> bool" where
  "put_blind p \<longleftrightarrow> cnt p < length (pool p) \<and> (let i = putIndex p mod length (pool p) in
     0 < i \<and> (\<forall>k < length (pool p). k \<noteq> i - 1 \<longrightarrow> pool p ! k \<noteq> None))"

definition get_blind :: "'a StablePool \<Rightarrow> bool" where
  "get_blind p \<longleftrightarrow> 0 < cnt p \<and> (let i = getIndex p mod length (pool p) in
     0 < i \<and> (\<forall>k < length (pool p). k \<noteq> i - 1 \<longrightarrow> pool p ! k = None))"

lemma pool_Put_effect:
  assumes "pool_ok p"
  shows "\<exists>p'. pool_Put (Some x) p = Some p' \<and> pool_ok p' \<and> items p' = (if put_blind p then items p else add_mset x (items p))"
proof (cases "cnt p = length (pool p)")
  case True
  then show ?thesis using assms by (simp add: pool_Put_def pool_ok_def items_def put_blind_def)
next
  case False
  let ?i = "putIndex p mod length (pool p)"
  have "cnt p < length (pool p)"
    using False assms length_filter_le[of "\<lambda>x. x \<noteq> None" "pool p"] unfolding pool_ok_def by linarith
  then have n: "?i < length (pool p)" "cnt p < length (pool p)" by (auto intro: mod_less_divisor)
  have "\<exists>j < length (pool p). pool p ! j = None"
  proof (rule ccontr)
    assume "\<not> ?thesis"
    then have "filter (\<lambda>x. x \<noteq> None) (pool p) = pool p" by (auto simp: filter_id_conv in_set_conv_nth)
    then show False using n assms by (simp add: pool_ok_def)
  qed
  then obtain j where j: "j < length (pool p)" "pool p ! j = None" by blast
  consider (found) k where "k < length (pool p)" "pool_scan (\<lambda>y. y = None) (pool p) ?i (int ?i - 1) = Some (Some k)" "pool p ! k = None"
    | (missed) "pool_scan (\<lambda>y. y = None) (pool p) ?i (int ?i - 1) = Some None" "put_blind p"
    using pool_scan_result[of ?i "pool p" j "\<lambda>y. y = None"] n j by (auto simp: put_blind_def Let_def)
  then show ?thesis
  proof cases
    case (found k)
    have "\<not> put_blind p"
    proof
      assume b: "put_blind p"
      then have "0 < ?i" "\<And>k. k < length (pool p) \<Longrightarrow> k \<noteq> ?i - 1 \<Longrightarrow> pool p ! k \<noteq> None" by (auto simp: put_blind_def Let_def)
      moreover from this have "pool_scan (\<lambda>y. y = None) (pool p) ?i (int ?i - 1) = Some None"
        using n by (subst pool_scan_wrap) (auto intro!: pool_scan_stop[of 0 "?i - 1"])
      ultimately show False using found by simp
    qed
    then show ?thesis using found False filter_update_Some[OF found(1,3), of x] assms
      by (simp add: pool_Put_def Let_def pool_ok_def items_def)
  qed (use False assms in \<open>simp add: pool_Put_def Let_def pool_ok_def items_def\<close>)
qed

lemma pool_Get_effect:
  assumes "pool_ok p" "0 < cnt p"
  shows "\<exists>p' y. pool_Get new p = Some (p', y) \<and> pool_ok p' \<and>
    (if get_blind p then y = new \<and> items p' = items p else \<exists>v. y = Some v \<and> items p = add_mset v (items p'))"
proof -
  let ?i = "getIndex p mod length (pool p)"
  have "filter (\<lambda>x. x \<noteq> None) (pool p) \<noteq> []" using assms by (auto simp: pool_ok_def)
  then have "\<exists>y \<in> set (pool p). y \<noteq> None" by (auto simp: filter_empty_conv)
  then have "\<exists>j < length (pool p). pool p ! j \<noteq> None" by (metis in_set_conv_nth)
  then obtain j where j: "j < length (pool p)" "pool p ! j \<noteq> None" by blast
  then have n: "?i < length (pool p)" by (auto intro: mod_less_divisor)
  consider (found) k v where "k < length (pool p)" "pool_scan (\<lambda>y. y \<noteq> None) (pool p) ?i (int ?i - 1) = Some (Some k)" "pool p ! k = Some v"
    | (missed) "pool_scan (\<lambda>y. y \<noteq> None) (pool p) ?i (int ?i - 1) = Some None" "get_blind p"
    using pool_scan_result[of ?i "pool p" j "\<lambda>y. y \<noteq> None"] n j assms(2) by (auto simp: get_blind_def Let_def)
  then show ?thesis
  proof cases
    case (found k v)
    have "\<not> get_blind p"
    proof
      assume b: "get_blind p"
      then have "0 < ?i" "\<And>k. k < length (pool p) \<Longrightarrow> k \<noteq> ?i - 1 \<Longrightarrow> pool p ! k = None" by (auto simp: get_blind_def Let_def)
      moreover from this have "pool_scan (\<lambda>y. y \<noteq> None) (pool p) ?i (int ?i - 1) = Some None"
        using n by (subst pool_scan_wrap) (auto intro!: pool_scan_stop[of 0 "?i - 1"])
      ultimately show False using found by simp
    qed
    then show ?thesis using found filter_update_None[OF found(1,3)] assms
      by (auto simp: pool_Get_def Let_def pool_ok_def items_def)
  qed (use assms in \<open>simp add: pool_Get_def Let_def pool_ok_def items_def\<close>)
qed

lemma pool_Get_empty: "cnt p = 0 \<Longrightarrow> pool_Get new p = Some (p, new)"
  by (simp add: pool_Get_def)

subsection \<open>Pools in use\<close>

datatype 'a pool_call = PPut "'a option" | PGet "'a option"

text \<open>A run of calls, with the values that the \<open>Get\<close> calls returned and the items that \<open>Put\<close> dropped.\<close>

fun pool_run :: "'a pool_call list \<Rightarrow> 'a StablePool \<Rightarrow> ('a StablePool \<times> 'a option list) option" where
  "pool_run [] p = Some (p, [])"
| "pool_run (PPut x # cs) p = (case pool_Put x p of None \<Rightarrow> None | Some p' \<Rightarrow> pool_run cs p')"
| "pool_run (PGet new # cs) p =
     (case pool_Get new p of None \<Rightarrow> None | Some (p', y) \<Rightarrow> map_option (\<lambda>(q, ys). (q, y # ys)) (pool_run cs p'))"

lemma pool_Put_returns: "pool_ok p \<Longrightarrow> \<exists>p'. pool_Put x p = Some p' \<and> pool_ok p'"
proof (cases x)
  case (Some v)
  then show "pool_ok p \<Longrightarrow> ?thesis" using pool_Put_effect[of p v] by auto
qed (simp add: pool_Put_def)

lemma pool_Get_returns: "pool_ok p \<Longrightarrow> \<exists>p' y. pool_Get new p = Some (p', y) \<and> pool_ok p'"
  using pool_Get_effect[of p new] by (cases "cnt p = 0") (auto simp: pool_Get_empty)

lemma pool_run_returns: "pool_ok p \<Longrightarrow> \<exists>q ys. pool_run cs p = Some (q, ys) \<and> pool_ok q"
proof (induction cs arbitrary: p)
  case (Cons c cs)
  then show ?case
  proof (cases c)
    case (PPut x)
    then show ?thesis using pool_Put_returns[of p x] Cons by auto
  next
    case (PGet new)
    then obtain p' y where "pool_Get new p = Some (p', y)" "pool_ok p'" using pool_Get_returns[of p new] Cons by auto
    then show ?thesis using PGet Cons.IH[of p'] by auto
  qed
qed simp

lemma pool_ok_empty: "pool_ok empty_pool"
  by (simp add: pool_ok_def empty_pool_def)

lemma pool_scan_code:
  "pool_scan hit xs i stopAt =
     (if int i = stopAt then Some None else if hit (xs ! i) then Some (Some i) else pool_scan hit xs (Suc i mod length xs) stopAt)"
  by (rule pool_scan.simps)

text \<open>Two runs of putting and getting: in the first the last \<open>Get\<close> overlooks the item of the pool, in the second the last \<open>Put\<close> drops its item.\<close>

definition pool_calls :: "bool list \<Rightarrow> unit pool_call list" where
  "pool_calls = map (\<lambda>b. if b then PPut (Some ()) else PGet None)"

lemma blind_examples:
  "pool_run (pool_calls [True, False, True, True, False, False, True, False]) empty_pool =
     Some (\<lparr>pool = [Some (), None], cnt = 1, getIndex = 1, putIndex = 1\<rparr>, [Some (), Some (), Some (), None])"
  "\<exists>p q ys. pool_run (pool_calls [True, True, False, True, True, False, False, False, True, True, False, False, True, True, True, False]) empty_pool =
     Some (p, ys) \<and> pool_Put (Some ()) p = Some q \<and> cnt q = cnt p \<and> cnt p < length (pool p)"
  by (simp_all add: pool_calls_def empty_pool_def pool_Put_def pool_Get_def pool_scan_code)

text \<open>C39. The stable pool on every run of calls from the empty pool: all calls return, the pool counts its items, \<open>Put\<close> adds the item and nothing else, \<open>Get\<close> removes the
  item it returns and nothing else; the only exceptions are the states in which the single free place, or the single item, is just before the place
  where the search starts: there the item is dropped, or overlooked, and both can happen.\<close>

theorem stable_pool_items:
  assumes "pool_run cs empty_pool = Some (p, ys)"
  shows "Size p = size (items p) \<and>
    (\<exists>q zs. pool_run cs' empty_pool = Some (q, zs)) \<and>
    (\<exists>p'. pool_Put (Some x) p = Some p' \<and> items p' = (if put_blind p then items p else add_mset x (items p))) \<and>
    (\<exists>p' y. pool_Get new p = Some (p', y) \<and>
       (if cnt p = 0 \<or> get_blind p then y = new \<and> items p' = items p else \<exists>v. y = Some v \<and> items p = add_mset v (items p'))) \<and>
    (\<exists>cs r zs. pool_run cs empty_pool = Some (r :: unit StablePool, zs) \<and> put_blind r) \<and>
    (\<exists>cs r zs. pool_run cs empty_pool = Some (r :: unit StablePool, zs) \<and> get_blind r)"
proof (intro conjI)
  have ok: "pool_ok p" using pool_run_returns[OF pool_ok_empty, of cs] assms by auto
  then show "Size p = size (items p)" unfolding Size_def items_def pool_ok_def by (simp only: size_mset length_map)
  show "\<exists>q zs. pool_run cs' empty_pool = Some (q, zs)" using pool_run_returns[OF pool_ok_empty, of cs'] by blast
  show "\<exists>p'. pool_Put (Some x) p = Some p' \<and> items p' = (if put_blind p then items p else add_mset x (items p))"
    using pool_Put_effect[OF ok, of x] by blast
  show "\<exists>p' y. pool_Get new p = Some (p', y) \<and>
       (if cnt p = 0 \<or> get_blind p then y = new \<and> items p' = items p else \<exists>v. y = Some v \<and> items p = add_mset v (items p'))"
  proof (cases "cnt p = 0")
    case False
    then show ?thesis using pool_Get_effect[OF ok, of new] by (cases "get_blind p") auto
  qed (simp add: pool_Get_empty)
  obtain r q zs where r: "pool_run (pool_calls [True, True, False, True, True, False, False, False, True, True, False, False, True, True, True, False])
      empty_pool = Some (r, zs)" "pool_Put (Some ()) r = Some q" "cnt q = cnt r"
    using blind_examples(2) by blast
  then have "pool_ok r" using pool_run_returns[OF pool_ok_empty] by (metis option.inject prod.inject)
  moreover from this have "pool_ok q" using pool_Put_effect[of r "()"] r(2) by auto
  ultimately have "size (items q) = size (items r)" using r(3) unfolding items_def pool_ok_def by (simp only: size_mset length_map)
  then have "put_blind r" using pool_Put_effect[OF \<open>pool_ok r\<close>, of "()"] r(2) by (auto split: if_splits)
  then show "\<exists>cs r zs. pool_run cs empty_pool = Some (r :: unit StablePool, zs) \<and> put_blind r" using r(1) by blast
  have "get_blind \<lparr>pool = [Some (), None], cnt = 1, getIndex = 1, putIndex = 1\<rparr>"
    by (auto simp: get_blind_def less_Suc_eq)
  then show "\<exists>cs r zs. pool_run cs empty_pool = Some (r :: unit StablePool, zs) \<and> get_blind r" using blind_examples(1) by blast
qed

theorem stable_pool_items_witness:
  "Size (\<lparr>pool = [Some (5 :: nat)], cnt = 1, getIndex = 0, putIndex = 1\<rparr>) = 1 \<and>
   (\<exists>p'. pool_Put (Some 6) \<lparr>pool = [Some (5 :: nat)], cnt = 1, getIndex = 0, putIndex = 1\<rparr> = Some p' \<and> items p' = {#5, 6#}) \<and>
   (\<exists>p'. pool_Get None \<lparr>pool = [Some (5 :: nat)], cnt = 1, getIndex = 0, putIndex = 1\<rparr> = Some (p', Some 5) \<and> items p' = {#})"
proof -
  let ?p = "\<lparr>pool = [Some (5 :: nat)], cnt = 1, getIndex = 0, putIndex = 1\<rparr>"
  have r: "pool_run [PPut (Some 5)] empty_pool = Some (?p, [])" by (simp add: empty_pool_def pool_Put_def)
  have "items ?p = {#5#}" "\<not> put_blind ?p" "\<not> get_blind ?p" by (simp_all add: items_def put_blind_def get_blind_def)
  then show ?thesis using stable_pool_items[OF r, of "[]" 6 None] by (auto simp: Size_def add_mset_commute)
qed

end
