(* ===== verification/Notifications.thy ===== *)
theory Notifications
  imports Module_Manager Storage
begin

section \<open>Notifications\<close>

text \<open>
  The package \<^verbatim>\<open>notifications\<close>: notifications with their states and actions, the map they are kept in, the storage interface through which users answer
  them, the cleaner, and the mirroring of failure states of modules. A \<open>*Notification\<close> is a reference into a heap. Channels are numbers; what was sent
  on them, which are closed, which action functions were called and which updates were pushed is recorded. The UUIDs are a parameter.
\<close>

subsection \<open>State\<close>

datatype ntype = NInfo | NWarning | NPrompt | NError

definition Active :: string where "Active = ''active''"
definition Responded :: string where "Responded = ''responded''"
definition Executed :: string where "Executed = ''executed''"

record action =
  actID :: string
  actText :: string
  actType :: string

record 'e notif =
  EventID :: string
  GUID :: string
  nType :: ntype
  Title :: string
  Category :: string
  Message :: string
  ShowOnSystem :: bool
  EventData :: 'e
  nExpires :: int64
  State :: string
  AvailableActions :: "action list"
  SelectedActionID :: string
  belongsTo :: "string option"
  actionFunction :: "nat option"
  actionTrigger :: "nat option"
  expiredTrigger :: "nat option"

record uuid_lib =
  DerivedInstanceUUID :: "string \<Rightarrow> string"
  RandomUUID :: "string \<Rightarrow> nat \<Rightarrow> string"

record 'e nstate =
  nheap :: "'e notif heap"
  nextNot :: ref
  nots :: "string \<rightharpoonup> ref"
  nsys :: sys
  mirrors :: "(mfailure \<times> string \<times> string \<times> string) list"
  nnow :: int64
  useSystemNotifications :: bool
  dbController :: bool
  uuidCnt :: nat
  pushLog :: "ref list"
  actionCalls :: "(ref \<times> nat \<times> string) list"
  sent :: "(nat \<times> string) list"
  nextChan :: nat
  closedChans :: "nat set"
  npanic :: "goerr option"

abbreviation ndat :: "'e nstate \<Rightarrow> ref \<Rightarrow> 'e notif" where
  "ndat s n \<equiv> rdata (nheap s n)"

definition updN :: "('e notif \<Rightarrow> 'e notif) \<Rightarrow> ref \<Rightarrow> 'e nstate \<Rightarrow> 'e nstate" where
  "updN f n s = s\<lparr>nheap := (nheap s)(n := (nheap s n)\<lparr>rdata := f (rdata (nheap s n))\<rparr>)\<rparr>"

definition updB :: "(base \<Rightarrow> base) \<Rightarrow> ref \<Rightarrow> 'e nstate \<Rightarrow> 'e nstate" where
  "updB f n s = s\<lparr>nheap := (nheap s)(n := (nheap s n)\<lparr>rbase := f (rbase (nheap s n))\<rparr>)\<rparr>"

definition alloc :: "base \<Rightarrow> 'e notif \<Rightarrow> 'e nstate \<Rightarrow> 'e nstate \<times> ref" where
  "alloc b d s = (s\<lparr>nheap := (nheap s)(nextNot s := \<lparr>rbase = b, rdata = d\<rparr>), nextNot := Suc (nextNot s)\<rparr>, nextNot s)"

definition zero_base :: base where
  "zero_base = \<lparr>dbName = [], dbKey = [], bmeta = None\<rparr>"

definition zero_notif :: "'e \<Rightarrow> 'e notif" where
  "zero_notif e = \<lparr>EventID = [], GUID = [], nType = NInfo, Title = [], Category = [], Message = [], ShowOnSystem = False, EventData = e,
     nExpires = 0, State = [], AvailableActions = [], SelectedActionID = [], belongsTo = None, actionFunction = None,
     actionTrigger = None, expiredTrigger = None\<rparr>"

subsection \<open>Saving\<close>

text \<open>\<open>dbController.PushUpdate\<close>, which does nothing before the database is registered.\<close>

definition push :: "bool \<Rightarrow> ref \<Rightarrow> 'e nstate \<Rightarrow> 'e nstate" where
  "push wanted n s = (if wanted \<and> dbController s then s\<lparr>pushLog := pushLog s @ [n]\<rparr> else s)"

text \<open>\<open>save\<close> has two critical sections: that of the notification, which yields the ID to store it under, and that of the map.\<close>

definition save_locked :: "uuid_lib \<Rightarrow> bool \<Rightarrow> ref \<Rightarrow> 'e nstate \<Rightarrow> 'e nstate \<times> string" where
  "save_locked lib pushUpdate n s =
     (let d = ndat s n in
      if Title d = [] \<and> Message d = [] then (s, [])
      else let ev = (if EventID d = [] then ''unknown:'' @ DerivedInstanceUUID lib (Message d) else EventID d);
               first = (\<not> KeyIsSet (rbase (nheap s n)));
               d1 = d\<lparr>EventID := ev,
                      GUID := (if GUID d = [] then RandomUUID lib ev (uuidCnt s) else GUID d),
                      State := (if State d = [] then Active else State d),
                      ShowOnSystem := (if first \<and> \<not> useSystemNotifications s then False else ShowOnSystem d)\<rparr>
           in (push pushUpdate n (updB (\<lambda>b. UpdateMeta (nnow s) (SetKey (''notifications:all/'' @ ev) b)) n
                 ((updN (\<lambda>_. d1) n s)\<lparr>uuidCnt := uuidCnt s + (if GUID d = [] then 1 else 0)\<rparr>)), ev))"

definition store_id :: "string \<Rightarrow> ref \<Rightarrow> 'e nstate \<Rightarrow> 'e nstate" where
  "store_id i n s = (if i = [] then s else s\<lparr>nots := (nots s)(i \<mapsto> n)\<rparr>)"

definition save :: "uuid_lib \<Rightarrow> bool \<Rightarrow> ref \<Rightarrow> 'e nstate \<Rightarrow> 'e nstate" where
  "save lib pushUpdate n s = (case save_locked lib pushUpdate n s of (s1, i) \<Rightarrow> store_id i n s1)"

definition Save :: "uuid_lib \<Rightarrow> ref \<Rightarrow> 'e nstate \<Rightarrow> 'e nstate" where
  "Save lib n s = save lib True n s"

definition Notify :: "uuid_lib \<Rightarrow> ref \<Rightarrow> 'e nstate \<Rightarrow> 'e nstate" where
  "Notify lib n s = save lib True n s"

definition notify ::
  "uuid_lib \<Rightarrow> 'e \<Rightarrow> ntype \<Rightarrow> string \<Rightarrow> string \<Rightarrow> string \<Rightarrow> bool \<Rightarrow> action list \<Rightarrow> 'e nstate \<Rightarrow> 'e nstate \<times> ref" where
  "notify lib e t i title msg showOnSystem actions s =
     (let acts = (if actions = [] then [\<lparr>actID = ''ack'', actText = ''OK'', actType = []\<rparr>] else actions);
          (s1, n) = alloc zero_base ((zero_notif e)\<lparr>EventID := i, nType := t, Title := title, Message := msg,
                                 ShowOnSystem := showOnSystem, AvailableActions := acts\<rparr>) s
      in (Notify lib n s1, n))"

definition NotifyInfo where "NotifyInfo lib e i title msg actions = notify lib e NInfo i title msg False actions"
definition NotifyWarn where "NotifyWarn lib e i title msg actions = notify lib e NWarning i title msg True actions"
definition NotifyError where "NotifyError lib e i title msg actions = notify lib e NError i title msg True actions"
definition NotifyPrompt where "NotifyPrompt lib e i title msg actions = notify lib e NPrompt i title msg False actions"

definition Notif_Get :: "string \<Rightarrow> 'e nstate \<Rightarrow> ref option" where
  "Notif_Get i s = nots s i"

definition SetActionFunction :: "nat option \<Rightarrow> ref \<Rightarrow> 'e nstate \<Rightarrow> 'e nstate" where
  "SetActionFunction f n s = updN (\<lambda>d. d\<lparr>actionFunction := f\<rparr>) n s"

definition Response :: "ref \<Rightarrow> 'e nstate \<Rightarrow> 'e nstate \<times> nat" where
  "Response n s =
     (case actionTrigger (ndat s n) of
        Some c \<Rightarrow> (s, c)
      | None \<Rightarrow> ((updN (\<lambda>d. d\<lparr>actionTrigger := Some (nextChan s)\<rparr>) n s)\<lparr>nextChan := Suc (nextChan s)\<rparr>, nextChan s))"

definition Expired_ch :: "ref \<Rightarrow> 'e nstate \<Rightarrow> 'e nstate \<times> nat" where
  "Expired_ch n s =
     (case expiredTrigger (ndat s n) of
        Some c \<Rightarrow> (s, c)
      | None \<Rightarrow> ((updN (\<lambda>d. d\<lparr>expiredTrigger := Some (nextChan s)\<rparr>) n s)\<lparr>nextChan := Suc (nextChan s)\<rparr>, nextChan s))"

definition close_ch :: "nat \<Rightarrow> 'e nstate \<Rightarrow> 'e nstate" where
  "close_ch c s =
     (if c \<in> closedChans s then s\<lparr>npanic := Some (GoPanic ''close of closed channel'')\<rparr>
      else s\<lparr>closedChans := insert c (closedChans s)\<rparr>)"

definition Notif_Update :: "uuid_lib \<Rightarrow> int64 \<Rightarrow> ref \<Rightarrow> 'e nstate \<Rightarrow> 'e nstate" where
  "Notif_Update lib expires n s =
     (if State (ndat s n) \<noteq> Active then s
      else case rMeta (nheap s) n of
             None \<Rightarrow> s\<lparr>npanic := Some nil_panic\<rparr>
           | Some m \<Rightarrow> if sint (Modified m) > sint (nnow s - 10) then s
                       else save lib True n (updN (\<lambda>d. d\<lparr>nExpires := expires\<rparr>) n s))"

subsection \<open>Deleting, and the failure states of modules\<close>

text \<open>\<open>Module.Resolve\<close> starts a worker for each call of \<open>mirrorModuleStatus\<close>; \<open>Module.setFailure\<close> runs its worker and waits for it.
  The calls that the module system makes are what it adds to its empty \<open>failureLog\<close>.\<close>

definition take_calls :: "(sys \<Rightarrow> sys) \<Rightarrow> sys \<Rightarrow> sys \<times> (mfailure \<times> string \<times> string \<times> string) list" where
  "take_calls f m = (let m1 = f (m\<lparr>failureLog := []\<rparr>) in (m1\<lparr>failureLog := failureLog m\<rparr>, failureLog m1))"

definition module_Resolve :: "string \<Rightarrow> string \<Rightarrow> 'e nstate \<Rightarrow> 'e nstate" where
  "module_Resolve i m s = (case take_calls (Resolve i m) (nsys s) of (sys1, calls) \<Rightarrow> s\<lparr>nsys := sys1, mirrors := mirrors s @ calls\<rparr>)"

definition resolveModuleFailure :: "ref \<Rightarrow> 'e nstate \<Rightarrow> 'e nstate" where
  "resolveModuleFailure n s =
     (case belongsTo (ndat s n) of
        None \<Rightarrow> s
      | Some m \<Rightarrow> updN (\<lambda>d. d\<lparr>belongsTo := None\<rparr>) n (module_Resolve (EventID (ndat s n)) m s))"

text \<open>\<open>delete\<close> has two critical sections, too. A panic in the first one does not keep the second from being run.\<close>

definition close_expired :: "ref \<Rightarrow> 'e nstate \<Rightarrow> 'e nstate" where
  "close_expired n s =
     (case expiredTrigger (ndat s n) of
        None \<Rightarrow> s
      | Some c \<Rightarrow> updN (\<lambda>d. d\<lparr>expiredTrigger := None\<rparr>) n (close_ch c s))"

definition delete_locked :: "bool \<Rightarrow> ref \<Rightarrow> 'e nstate \<Rightarrow> 'e nstate" where
  "delete_locked pushUpdate n s =
     (case rMeta (nheap s) n of
        None \<Rightarrow> s\<lparr>npanic := Some nil_panic\<rparr>
      | Some m \<Rightarrow> resolveModuleFailure n (push pushUpdate n (close_expired n
                    (updB (\<lambda>b. b\<lparr>bmeta := Some (Delete_meta (nnow s) m)\<rparr>) n s))))"

definition remove_id :: "string \<Rightarrow> 'e nstate \<Rightarrow> 'e nstate" where
  "remove_id i s = s\<lparr>nots := (nots s)(i := None)\<rparr>"

definition delete :: "bool \<Rightarrow> ref \<Rightarrow> 'e nstate \<Rightarrow> 'e nstate" where
  "delete pushUpdate n s = remove_id (EventID (ndat s n)) (delete_locked pushUpdate n s)"

definition close_action :: "ref \<Rightarrow> 'e nstate \<Rightarrow> 'e nstate" where
  "close_action n s =
     (case actionTrigger (ndat s n) of
        None \<Rightarrow> s
      | Some c \<Rightarrow> updN (\<lambda>d. d\<lparr>actionTrigger := None\<rparr>) n (close_ch c s))"

definition Notif_Delete :: "ref \<Rightarrow> 'e nstate \<Rightarrow> 'e nstate" where
  "Notif_Delete n s = delete True n (close_action n s)"

definition Delete_by_id :: "string \<Rightarrow> 'e nstate \<Rightarrow> 'e nstate" where
  "Delete_by_id i s = (case nots s i of Some n \<Rightarrow> Notif_Delete n s | None \<Rightarrow> s)"

definition meta_deleted :: "ref \<Rightarrow> 'e nstate \<Rightarrow> bool" where
  "meta_deleted n s = (case rMeta (nheap s) n of Some m \<Rightarrow> IsDeleted m | None \<Rightarrow> False)"

text \<open>Nothing is mirrored for the empty ID. A nil pointer of metadata is not reached: what is in the map has been saved.\<close>

definition mirrored_type :: "mfailure \<Rightarrow> 'e notif \<Rightarrow> 'e notif" where
  "mirrored_type f d =
     (case f of
        FailureHint \<Rightarrow> d\<lparr>nType := NInfo, AvailableActions := []\<rparr>
      | FailureWarning \<Rightarrow> d\<lparr>nType := NWarning, ShowOnSystem := True\<rparr>
      | FailureError \<Rightarrow> d\<lparr>nType := NError, ShowOnSystem := True\<rparr>
      | FailureNone \<Rightarrow> d)"

definition mirrorModuleStatus :: "uuid_lib \<Rightarrow> 'e \<Rightarrow> mfailure \<times> string \<times> string \<times> string \<Rightarrow> 'e nstate \<Rightarrow> 'e nstate" where
  "mirrorModuleStatus lib e call s =
     (case call of (moduleFailure, i, title, msg) \<Rightarrow>
        if i = [] then s
        else case nots s i of
               Some n \<Rightarrow>
                 if moduleFailure = FailureNone \<and> \<not> meta_deleted n s
                 then Notif_Delete n (updN (\<lambda>d. d\<lparr>belongsTo := None\<rparr>) n s)
                 else s
             | None \<Rightarrow>
                 if moduleFailure = FailureNone then s
                 else case alloc zero_base (mirrored_type moduleFailure ((zero_notif e)\<lparr>EventID := i, Title := title, Message := msg,
                         AvailableActions := [\<lparr>actID = [], actText = ''Get Help'', actType = ''open-url''\<rparr>]\<rparr>)) s of
                        (s1, n) \<Rightarrow> Notify lib n s1)"

definition module_setFailure ::
  "uuid_lib \<Rightarrow> 'e \<Rightarrow> mfailure \<Rightarrow> string \<Rightarrow> string \<Rightarrow> string \<Rightarrow> string \<Rightarrow> 'e nstate \<Rightarrow> 'e nstate" where
  "module_setFailure lib e st i title msg m s =
     (case take_calls (setFailure st i title msg m) (nsys s) of
        (sys1, calls) \<Rightarrow> fold (mirrorModuleStatus lib e) calls (s\<lparr>nsys := sys1\<rparr>))"

definition attach_failure :: "ntype \<Rightarrow> mfailure" where
  "attach_failure t = (case t of NInfo \<Rightarrow> FailureHint | NWarning \<Rightarrow> FailureWarning | _ \<Rightarrow> FailureError)"

definition AttachToModule :: "uuid_lib \<Rightarrow> 'e \<Rightarrow> string option \<Rightarrow> ref \<Rightarrow> 'e nstate \<Rightarrow> 'e nstate" where
  "AttachToModule lib e mo n s =
     (case mo of
        None \<Rightarrow> s
      | Some m \<Rightarrow>
          let d = ndat s n in
          if State d \<noteq> Active then s
          else if belongsTo d \<noteq> None then s
          else module_setFailure lib e (attach_failure (nType d)) (EventID d) (Title d)
                 (if nType d = NPrompt then Message d @ '' [incompatible notification type]'' else Message d) m
                 (updN (\<lambda>d. d\<lparr>belongsTo := Some m\<rparr>) n s))"

subsection \<open>Actions and the storage interface\<close>

text \<open>\<open>heard\<close> listeners receive the selected action before the sending times out.\<close>

definition selectAndExecuteAction :: "nat \<Rightarrow> string \<Rightarrow> ref \<Rightarrow> 'e nstate \<Rightarrow> 'e nstate" where
  "selectAndExecuteAction heard i n s =
     (if State (ndat s n) \<noteq> Active then s
      else let s1 = updN (\<lambda>d. d\<lparr>State := Responded, SelectedActionID := i\<rparr>) n s;
               (s2, x2) = (case actionFunction (ndat s n) of
                             Some f \<Rightarrow> (s1\<lparr>actionCalls := actionCalls s1 @ [(n, f, i)]\<rparr>, True)
                           | None \<Rightarrow> (s1, False));
               (s3, x3) = (case actionTrigger (ndat s n) of
                             Some c \<Rightarrow> (s2\<lparr>sent := sent s2 @ replicate heard (c, i)\<rparr>, x2 \<or> heard > 0)
                           | None \<Rightarrow> (s2, x2))
           in if x3 then resolveModuleFailure n (updN (\<lambda>d. d\<lparr>State := Executed\<rparr>) n s3) else s3)"

definition ErrInvalidData :: goerr where "ErrInvalidData = ErrNew ''invalid data, must be a notification object''"
definition ErrInvalidPath :: goerr where "ErrInvalidPath = ErrNew ''invalid path''"

definition id_of_key :: "string \<Rightarrow> string option" where
  "id_of_key key = (if take 4 key = ''all/'' then Some (drop 4 key) else None)"

definition StorageInterface_Get :: "string \<Rightarrow> 'e nstate \<Rightarrow> ref res" where
  "StorageInterface_Get key s =
     (case id_of_key key of
        None \<Rightarrow> Inl storage_ErrNotFound
      | Some i \<Rightarrow> (case nots s i of None \<Rightarrow> Inl storage_ErrNotFound | Some n \<Rightarrow> Inr n))"

text \<open>A map is copied in an arbitrary order of its keys.\<close>

definition getNotsCopy :: "string list \<Rightarrow> 'e nstate \<Rightarrow> ref list" where
  "getNotsCopy order s = map (\<lambda>i. the (nots s i)) (filter (\<lambda>i. nots s i \<noteq> None) order)"

definition inQuery :: "'e notif query_api \<Rightarrow> 'e nstate \<Rightarrow> ref \<Rightarrow> bool" where
  "inQuery q s n \<longleftrightarrow> \<not> meta_deleted n s \<and> qMatchesKey q (rDatabaseKey (nheap s) n) \<and> qMatchesRecord q (nheap s n)"

definition processQuery :: "string list \<Rightarrow> 'e notif query_api \<Rightarrow> 'e nstate \<Rightarrow> ref list" where
  "processQuery order q s = filter (inQuery q s) (getNotsCopy order s)"

text \<open>A serialiser does not see the fields that are not exported.\<close>

datatype nrecord = NWrapped wrapper | NObject ref | NOther base

definition EnsureNotification :: "'e notif dsd_lib \<Rightarrow> 'e \<Rightarrow> nrecord \<Rightarrow> 'e nstate \<Rightarrow> ('e nstate \<times> ref) res" where
  "EnsureNotification dsd e r s =
     (case r of
        NWrapped w \<Rightarrow> (case Unwrap dsd w (zero_base, zero_notif e) of
                          Inl err \<Rightarrow> Inl err
                        | Inr (b, d) \<Rightarrow> Inr (alloc b (d\<lparr>belongsTo := None, actionFunction := None, actionTrigger := None, expiredTrigger := None\<rparr>) s))
      | NObject n \<Rightarrow> Inr (s, n)
      | NOther b \<Rightarrow> Inl (ErrNew ''record not of type *Notification''))"

text \<open>The record of a \<open>Put\<close> is locked by its caller: \<open>held\<close> is the notification if the record is one. Locking it again waits for ever, which is \<open>None\<close>.\<close>

definition answer :: "uuid_lib \<Rightarrow> nat \<Rightarrow> ref \<Rightarrow> ref \<Rightarrow> 'e nstate \<Rightarrow> 'e nstate" where
  "answer lib heard n ex s =
     (let d = ndat s n;
          external = (State d = Executed);
          s1 = (if external then updN (\<lambda>x. x\<lparr>State := Executed,
                      SelectedActionID := (if SelectedActionID d \<noteq> [] then SelectedActionID d else SelectedActionID x)\<rparr>) ex s
                else s);
          sel = (SelectedActionID d \<noteq> [] \<and> State (ndat s1 ex) = Active);
          s2 = (if sel then selectAndExecuteAction heard (SelectedActionID d) ex s1 else s1)
      in if external \<or> sel then save lib False ex s2 else s2)"

definition applyUpdate :: "uuid_lib \<Rightarrow> nat \<Rightarrow> ref option \<Rightarrow> ref \<Rightarrow> string \<Rightarrow> 'e nstate \<Rightarrow> ('e nstate \<times> ref res) option" where
  "applyUpdate lib heard held n key s =
     (case nots s key of
        Some ex \<Rightarrow>
          if meta_deleted ex s then (if held = Some n then None else Some (save lib False n s, Inr n))
          else if held = Some ex then None
          else if State (ndat s ex) = Executed then Some (s, Inl (ErrNew ''action already executed''))
          else Some (answer lib heard n ex s, Inr ex)
      | None \<Rightarrow> if held = Some n then None else Some (save lib False n s, Inr n))"

definition record_key :: "nrecord \<Rightarrow> 'e nstate \<Rightarrow> string" where
  "record_key r s = (case r of NWrapped w \<Rightarrow> dbKey (wbase w) | NObject n \<Rightarrow> rDatabaseKey (nheap s) n | NOther b \<Rightarrow> dbKey b)"

definition StorageInterface_Put ::
  "uuid_lib \<Rightarrow> 'e notif dsd_lib \<Rightarrow> 'e \<Rightarrow> nat \<Rightarrow> nrecord \<Rightarrow> 'e nstate \<Rightarrow> ('e nstate \<times> ref res) option" where
  "StorageInterface_Put lib dsd e heard r s =
     (case EnsureNotification dsd e r s of
        Inl err \<Rightarrow> Some (s, Inl ErrInvalidData)
      | Inr (s1, n) \<Rightarrow>
          (case id_of_key (record_key r s) of
             None \<Rightarrow> Some (s1, Inl ErrInvalidPath)
           | Some i \<Rightarrow> applyUpdate lib heard (case r of NObject m \<Rightarrow> Some m | _ \<Rightarrow> None) n i s1))"

definition StorageInterface_Delete :: "string \<Rightarrow> 'e nstate \<Rightarrow> 'e nstate \<times> goerr option" where
  "StorageInterface_Delete key s =
     (case id_of_key key of
        None \<Rightarrow> (s, Some storage_ErrNotFound)
      | Some i \<Rightarrow> (case nots s i of None \<Rightarrow> (s, Some storage_ErrNotFound) | Some n \<Rightarrow> (delete True n s, None)))"

subsection \<open>The cleaner\<close>

definition isExpired :: "ref \<Rightarrow> 'e nstate \<Rightarrow> bool" where
  "isExpired n s \<longleftrightarrow> sint (nExpires (ndat s n)) > 0 \<and> sint (nExpires (ndat s n)) < sint (nnow s)"

definition deleteExpiredNotifs :: "string list \<Rightarrow> 'e nstate \<Rightarrow> 'e nstate" where
  "deleteExpiredNotifs order s = fold (\<lambda>n s. if isExpired n s then delete True n s else s) (getNotsCopy order s) s"

subsection \<open>What every operation keeps\<close>

definition state_le :: "string \<Rightarrow> string \<Rightarrow> bool" where
  "state_le a b \<longleftrightarrow> a = b \<or> a = [] \<or> b = Executed \<or> a = Active \<and> b = Responded"

definition stored :: "string \<Rightarrow> ref \<Rightarrow> 'e nstate \<Rightarrow> bool" where
  "stored i n s \<longleftrightarrow> n < nextNot s \<and> EventID (ndat s n) = i \<and> i \<noteq> [] \<and> rMeta (nheap s) n \<noteq> None \<and> State (ndat s n) \<noteq> []"

definition trig :: "bool \<Rightarrow> ref \<Rightarrow> 'e nstate \<Rightarrow> nat option" where
  "trig b n s = (if b then actionTrigger (ndat s n) else expiredTrigger (ndat s n))"

definition chans_ok :: "'e nstate \<Rightarrow> bool" where
  "chans_ok s \<longleftrightarrow> (\<forall>c \<in> closedChans s. c < nextChan s) \<and>
     (\<forall>n < nextNot s. \<forall>b c. trig b n s = Some c \<longrightarrow> c < nextChan s \<and> c \<notin> closedChans s \<and>
        (\<forall>n' < nextNot s. \<forall>b'. trig b' n' s = Some c \<longrightarrow> n' = n \<and> b' = b))"

definition calls_ok :: "'e nstate \<Rightarrow> bool" where
  "calls_ok s \<longleftrightarrow> distinct (map fst (actionCalls s)) \<and>
     (\<forall>n \<in> fst ` set (actionCalls s). n < nextNot s \<and> State (ndat s n) = Executed)"

definition ninv :: "'e nstate \<Rightarrow> bool" where
  "ninv s \<longleftrightarrow> 0 < sint (nnow s) \<and> (\<forall>i n. nots s i = Some n \<longrightarrow> stored i n s) \<and> chans_ok s \<and> calls_ok s \<and> npanic s \<in> {None, Some nil_panic}"

definition evolves :: "'e nstate \<Rightarrow> 'e nstate \<Rightarrow> bool" where
  "evolves s s' \<longleftrightarrow> nextNot s \<le> nextNot s' \<and> (\<forall>n < nextNot s.
     (EventID (ndat s n) \<noteq> [] \<longrightarrow> EventID (ndat s' n) = EventID (ndat s n)) \<and> state_le (State (ndat s n)) (State (ndat s' n)) \<and>
     (rMeta (nheap s) n \<noteq> None \<longrightarrow> rMeta (nheap s') n \<noteq> None) \<and> (meta_deleted n s \<longrightarrow> meta_deleted n s'))"

definition good :: "'e nstate \<Rightarrow> 'e nstate \<Rightarrow> bool" where
  "good s s' \<longleftrightarrow> (ninv s \<longrightarrow> ninv s' \<and> evolves s s')"

lemmas state_names = Active_def Responded_def Executed_def

lemma state_le_trans: "state_le a b \<Longrightarrow> state_le b c \<Longrightarrow> state_le a c"
  by (auto simp: state_le_def state_names)

lemma state_le_nonempty: "state_le a b \<Longrightarrow> a \<noteq> [] \<Longrightarrow> b \<noteq> []"
  by (auto simp: state_le_def state_names)

lemma state_le_Executed: "state_le Executed b \<Longrightarrow> b = Executed"
  by (auto simp: state_le_def state_names)

lemma evolves_refl [simp]: "evolves s s"
  by (simp add: evolves_def state_le_def)

lemma evolves_trans: "evolves s t \<Longrightarrow> evolves t u \<Longrightarrow> evolves s u"
  unfolding evolves_def by (intro conjI allI impI) (auto intro: state_le_trans)

lemma good_refl [simp]: "good s s"
  by (simp add: good_def)

lemma good_trans [trans]: "good s t \<Longrightarrow> good t u \<Longrightarrow> good s u"
  unfolding good_def using evolves_trans by blast

lemma stored_evolves: "evolves s s' \<Longrightarrow> stored i n s \<Longrightarrow> stored i n s'"
  unfolding evolves_def stored_def using state_le_nonempty by fastforce

text \<open>A change of the notifications, of the metadata, and of what the invariant does not mention.\<close>

lemma updN_simps [simp]:
  "ndat (updN f n s) m = (if m = n then f (ndat s n) else ndat s m)" "rMeta (nheap (updN f n s)) m = rMeta (nheap s) m"
  "nextNot (updN f n s) = nextNot s" "nots (updN f n s) = nots s" "nnow (updN f n s) = nnow s" "actionCalls (updN f n s) = actionCalls s"
  "nextChan (updN f n s) = nextChan s" "closedChans (updN f n s) = closedChans s" "npanic (updN f n s) = npanic s"
  "meta_deleted m (updN f n s) = meta_deleted m s" "rbase (nheap (updN f n s) m) = rbase (nheap s m)"
  "nsys (updN f n s) = nsys s" "mirrors (updN f n s) = mirrors s" "dbController (updN f n s) = dbController s" "pushLog (updN f n s) = pushLog s"
  "useSystemNotifications (updN f n s) = useSystemNotifications s" "sent (updN f n s) = sent s"
  by (simp_all add: updN_def rMeta_def meta_deleted_def)

lemma updB_simps [simp]:
  "ndat (updB f n s) m = ndat s m" "rbase (nheap (updB f n s) m) = (if m = n then f (rbase (nheap s n)) else rbase (nheap s m))"
  "rMeta (nheap (updB f n s)) m = (if m = n then bmeta (f (rbase (nheap s n))) else rMeta (nheap s) m)"
  "nextNot (updB f n s) = nextNot s" "nots (updB f n s) = nots s" "nnow (updB f n s) = nnow s" "actionCalls (updB f n s) = actionCalls s"
  "nextChan (updB f n s) = nextChan s" "closedChans (updB f n s) = closedChans s" "npanic (updB f n s) = npanic s"
  "nsys (updB f n s) = nsys s" "mirrors (updB f n s) = mirrors s" "dbController (updB f n s) = dbController s" "pushLog (updB f n s) = pushLog s"
  "useSystemNotifications (updB f n s) = useSystemNotifications s" "sent (updB f n s) = sent s"
  by (simp_all add: updB_def rMeta_def)

lemma good_updN:
  assumes "n < nextNot s" "EventID (ndat s n) \<noteq> [] \<Longrightarrow> EventID (f (ndat s n)) = EventID (ndat s n)"
    "state_le (State (ndat s n)) (State (f (ndat s n)))" "actionTrigger (f (ndat s n)) = actionTrigger (ndat s n)"
    "expiredTrigger (f (ndat s n)) = expiredTrigger (ndat s n)"
  shows "good s (updN f n s)"
proof -
  have e: "evolves s (updN f n s)" using assms by (auto simp: evolves_def state_le_def)
  have "trig b m (updN f n s) = trig b m s" for b m using assms by (simp add: trig_def)
  then have "ninv s \<Longrightarrow> ninv (updN f n s)"
    using stored_evolves[OF e] assms(3) state_le_Executed by (auto simp: ninv_def chans_ok_def calls_ok_def)
  then show ?thesis using e by (simp add: good_def)
qed

lemma good_updB:
  assumes "\<And>m. bmeta (rbase (nheap s n)) = Some m \<Longrightarrow> \<exists>m'. bmeta (f (rbase (nheap s n))) = Some m' \<and> (IsDeleted m \<longrightarrow> IsDeleted m')"
  shows "good s (updB f n s)"
proof -
  have e: "evolves s (updB f n s)" using assms by (auto simp: evolves_def state_le_def meta_deleted_def rMeta_def split: option.splits)
  have "trig b m (updB f n s) = trig b m s" for b m by (simp add: trig_def)
  then have "ninv s \<Longrightarrow> ninv (updB f n s)" using stored_evolves[OF e] by (auto simp: ninv_def chans_ok_def calls_ok_def)
  then show ?thesis using e by (simp add: good_def)
qed

lemma good_same:
  assumes "nheap s' = nheap s" "nextNot s' = nextNot s" "nots s' = nots s" "nnow s' = nnow s" "actionCalls s' = actionCalls s"
    "nextChan s' = nextChan s" "closedChans s' = closedChans s" "npanic s' \<in> {npanic s, Some nil_panic}"
  shows "good s s'"
proof -
  have "evolves s s'" using assms by (simp add: evolves_def state_le_def meta_deleted_def)
  moreover have "stored i n s' = stored i n s" "trig b n s' = trig b n s" for i b n using assms by (simp_all add: stored_def trig_def)
  ultimately show ?thesis using assms by (auto simp: good_def ninv_def chans_ok_def calls_ok_def)
qed

lemma good_push: "good s (push w n s)"
  by (rule good_same) (simp_all add: push_def)

lemma good_alloc:
  assumes "actionTrigger d = None" "expiredTrigger d = None"
  shows "good s (fst (alloc b d s))"
proof -
  let ?s = "fst (alloc b d s)"
  have a: "\<And>m. m < nextNot s \<Longrightarrow> nheap ?s m = nheap s m" "nextNot ?s = Suc (nextNot s)" "ndat ?s (nextNot s) = d" by (simp_all add: alloc_def)
  then have e: "evolves s ?s" by (auto simp: evolves_def state_le_def meta_deleted_def rMeta_def)
  have t: "trig x m ?s = (if m = nextNot s then None else trig x m s)" if "m < nextNot ?s" for x m
    using that a assms by (auto simp: trig_def less_Suc_eq)
  have "ninv ?s" if i: "ninv s"
  proof -
    have "chans_ok ?s" using i t unfolding ninv_def chans_ok_def
      by (auto simp: alloc_def less_Suc_eq split: if_splits)
    moreover have "calls_ok ?s" using i a unfolding ninv_def calls_ok_def by (auto simp: alloc_def)
    moreover have "nots ?s = nots s" "nnow ?s = nnow s" "npanic ?s = npanic s" by (simp_all add: alloc_def)
    ultimately show ?thesis using i stored_evolves[OF e] by (auto simp: ninv_def)
  qed
  then show ?thesis using e by (simp add: good_def)
qed

lemma good_nots:
  assumes "ninv s \<Longrightarrow> \<forall>j m. f j = Some m \<longrightarrow> stored j m s"
  shows "good s (s\<lparr>nots := f\<rparr>)"
proof -
  let ?s = "s\<lparr>nots := f\<rparr>"
  have "evolves s ?s" by (simp add: evolves_def state_le_def meta_deleted_def)
  moreover have "chans_ok ?s = chans_ok s" "calls_ok ?s = calls_ok s" "stored j m ?s = stored j m s" for j m
    by (simp_all add: chans_ok_def calls_ok_def stored_def trig_def)
  ultimately show ?thesis using assms by (simp add: good_def ninv_def)
qed

lemma good_store_id: "i = [] \<or> stored i n s \<Longrightarrow> good s (store_id i n s)"
  by (cases "i = []") (auto simp: store_id_def ninv_def intro!: good_nots split: if_splits)

lemma good_remove_id: "good s (remove_id i s)"
  by (auto simp: remove_id_def ninv_def intro!: good_nots split: if_splits)

text \<open>Saving.\<close>

lemma good_save_locked:
  assumes "n < nextNot s" "save_locked lib w n s = (s', i)"
  shows "good s s' \<and> (i = [] \<or> stored i n s')"
proof (cases "Title (ndat s n) = [] \<and> Message (ndat s n) = []")
  case False
  define d where "d = ndat s n"
  define ev where "ev = (if EventID d = [] then ''unknown:'' @ DerivedInstanceUUID lib (Message d) else EventID d)"
  define d1 where "d1 = d\<lparr>EventID := ev, GUID := (if GUID d = [] then RandomUUID lib ev (uuidCnt s) else GUID d),
    State := (if State d = [] then Active else State d),
    ShowOnSystem := (if \<not> KeyIsSet (rbase (nheap s n)) \<and> \<not> useSystemNotifications s then False else ShowOnSystem d)\<rparr>"
  define f where "f = (\<lambda>b. UpdateMeta (nnow s) (SetKey (''notifications:all/'' @ ev) b))"
  define s1 where "s1 = (updN (\<lambda>_. d1) n s)\<lparr>uuidCnt := uuidCnt s + (if GUID d = [] then 1 else 0)\<rparr>"
  have eq: "s' = push w n (updB f n s1)" "i = ev"
    using assms(2) False by (auto simp: save_locked_def Let_def d_def d1_def ev_def f_def s1_def)
  have "good s (updN (\<lambda>_. d1) n s)" using assms(1) by (intro good_updN) (auto simp: d1_def ev_def d_def state_le_def)
  also have "good (updN (\<lambda>_. d1) n s) s1" by (rule good_same) (simp_all add: s1_def)
  also have "good s1 (updB f n s1)"
    by (rule good_updB) (auto simp: f_def UpdateMeta_def SetKey_def CreateMeta_def Update_def IsDeleted_def Let_def)
  also have "good (updB f n s1) s'" unfolding eq by (rule good_push)
  finally have "good s s'" .
  moreover have "stored ev n (updB f n s1)"
    using assms(1) by (auto simp: stored_def s1_def d1_def ev_def f_def UpdateMeta_def SetKey_def CreateMeta_def state_names Let_def)
  then have "stored ev n s'" by (simp add: eq stored_def push_def)
  ultimately show ?thesis using eq by simp
qed (use assms in \<open>auto simp: save_locked_def Let_def\<close>)

lemma good_save: "n < nextNot s \<Longrightarrow> good s (save lib w n s)"
  using good_save_locked[of n s lib w] good_store_id good_trans by (fastforce simp: save_def split: prod.splits)

text \<open>Channels: a trigger is closed together with being reset, and a new one gets a number of its own.\<close>

lemma good_chans:
  assumes "\<And>m. m \<noteq> n \<Longrightarrow> nheap s' m = nheap s m" "rbase (nheap s' n) = rbase (nheap s n)" "State (ndat s' n) = State (ndat s n)"
    "EventID (ndat s' n) = EventID (ndat s n)" "nextNot s' = nextNot s" "nots s' = nots s" "nnow s' = nnow s"
    "actionCalls s' = actionCalls s" "ninv s \<Longrightarrow> npanic s' = npanic s" "chans_ok s \<Longrightarrow> chans_ok s'"
  shows "good s s'"
proof -
  have a: "rMeta (nheap s') m = rMeta (nheap s) m" "State (ndat s' m) = State (ndat s m)" "EventID (ndat s' m) = EventID (ndat s m)" for m
    using assms(1-4) by (cases "m = n"; simp add: rMeta_def)+
  then have e: "evolves s s'" using assms(5) by (simp add: evolves_def state_le_def meta_deleted_def)
  have "stored i m s' = stored i m s" "calls_ok s' = calls_ok s" for i m using a assms by (simp_all add: stored_def calls_ok_def)
  then show ?thesis using e assms by (auto simp: good_def ninv_def)
qed

lemma chans_ok_trig:
  "chans_ok s \<Longrightarrow> n < nextNot s \<Longrightarrow> trig b n s = Some c \<Longrightarrow> c \<notin> closedChans s \<and> c < nextChan s"
  by (auto simp: chans_ok_def)

lemma good_close:
  assumes "n < nextNot s" "trig b n s = Some c"
  shows "good s (updN (\<lambda>d. if b then d\<lparr>actionTrigger := None\<rparr> else d\<lparr>expiredTrigger := None\<rparr>) n (close_ch c s))" (is "good s ?s")
proof (rule good_chans[where n = n])
  have t: "trig x m ?s = (if m = n \<and> x = b then None else trig x m s)" for x m by (auto simp: trig_def close_ch_def)
  show "ninv s \<Longrightarrow> npanic ?s = npanic s" using assms chans_ok_trig[of s n b c] by (auto simp: close_ch_def ninv_def)
  show "chans_ok ?s" if o: "chans_ok s"
  proof -
    have c: "c \<notin> closedChans s" "c < nextChan s" using chans_ok_trig[OF o assms] by auto
    have u: "m = n \<and> x = b" if "m < nextNot s" "trig x m s = Some c" for m x using o assms that unfolding chans_ok_def by blast
    have f: "nextNot ?s = nextNot s" "nextChan ?s = nextChan s" "closedChans ?s = insert c (closedChans s)" using c by (simp_all add: close_ch_def)
    show ?thesis unfolding chans_ok_def f
    proof (intro conjI allI impI)
      show "\<forall>d \<in> insert c (closedChans s). d < nextChan s" using o c by (auto simp: chans_ok_def)
      fix m x d assume m: "m < nextNot s" "trig x m ?s = Some d"
      then have m': "trig x m s = Some d" "\<not> (m = n \<and> x = b)" using t by (auto split: if_splits)
      show "d < nextChan s" using o m m' unfolding chans_ok_def by blast
      have "d \<noteq> c" using u m m' by blast
      then show "d \<notin> insert c (closedChans s)" using o m m' unfolding chans_ok_def by blast
      fix m2 x2 assume "m2 < nextNot s" "trig x2 m2 ?s = Some d"
      then have "trig x2 m2 s = Some d" using t by (auto split: if_splits)
      then show "m2 = m" "x2 = x" using o m m' \<open>m2 < nextNot s\<close> unfolding chans_ok_def by blast+
    qed
  qed
qed (auto simp: close_ch_def updN_def)

lemma good_open:
  assumes "n < nextNot s"
  shows "good s ((updN (\<lambda>d. if b then d\<lparr>actionTrigger := Some (nextChan s)\<rparr> else d\<lparr>expiredTrigger := Some (nextChan s)\<rparr>) n s)
    \<lparr>nextChan := Suc (nextChan s)\<rparr>)" (is "good s ?s")
proof (rule good_chans[where n = n])
  have t: "trig x m ?s = (if m = n \<and> x = b then Some (nextChan s) else trig x m s)" for x m by (auto simp: trig_def)
  show "chans_ok ?s" if o: "chans_ok s"
  proof -
    have f: "nextNot ?s = nextNot s" "nextChan ?s = Suc (nextChan s)" "closedChans ?s = closedChans s" by simp_all
    have old: "d < nextChan s \<and> d \<notin> closedChans s" if "m < nextNot s" "trig x m s = Some d" for m x d
      using o that unfolding chans_ok_def by blast
    show ?thesis unfolding chans_ok_def f
    proof (intro conjI allI impI)
      show "\<forall>d \<in> closedChans s. d < Suc (nextChan s)" using o by (auto simp: chans_ok_def)
      fix m x d assume m: "m < nextNot s" "trig x m ?s = Some d"
      show "d < Suc (nextChan s)" using m t[of x m] old[of m x d] by (auto split: if_splits)
      show "d \<notin> closedChans s" using m t[of x m] old[of m x d] o by (auto simp: chans_ok_def split: if_splits)
      fix m2 x2 assume m2: "m2 < nextNot s" "trig x2 m2 ?s = Some d"
      show "m2 = m" "x2 = x"
        using m m2 t[of x m] t[of x2 m2] old[of m x d] old[of m2 x2 d] o unfolding chans_ok_def by (auto split: if_splits)
    qed
  qed
qed (auto simp: updN_def)

lemma good_Response: "n < nextNot s \<Longrightarrow> good s (fst (Response n s))"
  using good_open[of n s True] by (auto simp: Response_def split: option.splits)

lemma good_Expired_ch: "n < nextNot s \<Longrightarrow> good s (fst (Expired_ch n s))"
  using good_open[of n s False] by (auto simp: Expired_ch_def split: option.splits)

lemma good_close_action: "n < nextNot s \<Longrightarrow> good s (close_action n s)"
  using good_close[of n s True] by (auto simp: close_action_def trig_def split: option.splits)

lemma good_close_expired: "n < nextNot s \<Longrightarrow> good s (close_expired n s)"
  using good_close[of n s False] by (auto simp: close_expired_def trig_def split: option.splits)

lemma module_Resolve_frame:
  "nheap (module_Resolve i m s) = nheap s" "nextNot (module_Resolve i m s) = nextNot s" "nots (module_Resolve i m s) = nots s"
  "nnow (module_Resolve i m s) = nnow s" "actionCalls (module_Resolve i m s) = actionCalls s" "nextChan (module_Resolve i m s) = nextChan s"
  "closedChans (module_Resolve i m s) = closedChans s" "npanic (module_Resolve i m s) = npanic s" "pushLog (module_Resolve i m s) = pushLog s"
  by (simp_all add: module_Resolve_def split: prod.splits)

lemma good_module_Resolve: "good s (module_Resolve i m s)"
  by (rule good_same) (simp_all add: module_Resolve_frame)

lemma good_resolveModuleFailure: "n < nextNot s \<Longrightarrow> good s (resolveModuleFailure n s)"
  by (auto simp: resolveModuleFailure_def module_Resolve_frame state_le_def split: option.splits
      intro!: good_trans[OF good_module_Resolve good_updN])

text \<open>Sizes and maps that the parts of \<open>delete\<close> do not change.\<close>

lemma delete_frame:
  "nextNot (close_expired n s) = nextNot s" "nextNot (close_action n s) = nextNot s" "nextNot (push w n s) = nextNot s"
  "nextNot (resolveModuleFailure n s) = nextNot s" "nextNot (delete_locked w n s) = nextNot s" "nextNot (remove_id i s) = nextNot s"
  "nextNot (delete w n s) = nextNot s" "nextNot (Notif_Delete n s) = nextNot s" "nextNot (store_id i n s) = nextNot s"
  "nextNot (save lib w n s) = nextNot s"
  by (auto simp: close_expired_def close_action_def push_def resolveModuleFailure_def delete_locked_def remove_id_def delete_def
      Notif_Delete_def close_ch_def module_Resolve_frame store_id_def save_def save_locked_def Let_def split: option.splits prod.splits if_splits)

lemma good_delete_locked: "n < nextNot s \<Longrightarrow> good s (delete_locked w n s)"
proof (cases "rMeta (nheap s) n")
  case None
  then show "n < nextNot s \<Longrightarrow> ?thesis" by (auto simp: delete_locked_def intro: good_same)
next
  case (Some m)
  assume n: "n < nextNot s"
  let ?s1 = "updB (\<lambda>b. b\<lparr>bmeta := Some (Delete_meta (nnow s) m)\<rparr>) n s"
  show ?thesis
  proof (cases "0 < sint (nnow s)")
    case True
    have "good s ?s1" using True by (intro good_updB) (auto simp: Delete_meta_def IsDeleted_def)
    also have "good ?s1 (close_expired n ?s1)" using n by (intro good_close_expired) simp
    also have "good (close_expired n ?s1) (push w n (close_expired n ?s1))" by (rule good_push)
    also have "good (push w n (close_expired n ?s1)) (resolveModuleFailure n (push w n (close_expired n ?s1)))"
      using n by (intro good_resolveModuleFailure) (simp add: delete_frame)
    finally show ?thesis using Some by (simp add: delete_locked_def)
  qed (simp add: good_def ninv_def)
qed

lemma good_delete: "n < nextNot s \<Longrightarrow> good s (delete w n s)"
  unfolding delete_def by (rule good_trans[OF good_delete_locked good_remove_id])

lemma good_Notif_Delete: "n < nextNot s \<Longrightarrow> good s (Notif_Delete n s)"
  unfolding Notif_Delete_def by (rule good_trans[OF good_close_action good_delete]) (simp_all add: delete_frame)

lemma good_Notif_Update: "n < nextNot s \<Longrightarrow> good s (Notif_Update lib x n s)"
  by (auto simp: Notif_Update_def state_le_def split: option.splits intro: good_same intro!: good_trans[OF good_updN good_save])

lemma ninv_stored: "ninv s \<Longrightarrow> nots s i = Some n \<Longrightarrow> stored i n s"
  by (simp add: ninv_def)

lemma stored_ref: "stored i n s \<Longrightarrow> n < nextNot s"
  by (simp add: stored_def)

lemma good_mirror: "good s (mirrorModuleStatus lib e c s)"
proof -
  obtain f i t msg where c: "c = (f, i, t, msg)" by (cases c)
  have d: "good s (Notif_Delete n (updN (\<lambda>d. d\<lparr>belongsTo := None\<rparr>) n s))" if "nots s i = Some n" for n
  proof (cases "ninv s")
    case True
    then have n: "n < nextNot s" using that ninv_stored stored_ref by blast
    then show ?thesis by (intro good_trans[OF good_updN good_Notif_Delete]) (auto simp: state_le_def)
  qed (simp add: good_def)
  have a: "good s (Notify lib (nextNot s) (fst (alloc zero_base d s)))" if "actionTrigger d = None" "expiredTrigger d = None" for d
    unfolding Notify_def using that by (intro good_trans[OF good_alloc good_save]) (auto simp: alloc_def)
  let ?d = "mirrored_type f ((zero_notif e)\<lparr>EventID := i, Title := t, Message := msg,
        AvailableActions := [\<lparr>actID = [], actText = ''Get Help'', actType = ''open-url''\<rparr>]\<rparr>)"
  have "actionTrigger ?d = None" "expiredTrigger ?d = None" by (simp_all add: mirrored_type_def zero_notif_def split: mfailure.splits)
  then have n: "good s (Notify lib (snd (alloc zero_base ?d s)) (fst (alloc zero_base ?d s)))" using a[of ?d] by (simp add: alloc_def)
  show ?thesis
  proof (cases "i = []")
    case False
    show ?thesis
    proof (cases "nots s i")
      case None
      then show ?thesis using n False by (cases "f = FailureNone") (simp_all add: mirrorModuleStatus_def c split_def)
    next
      case (Some k)
      then show ?thesis using d[OF Some] False by (simp add: mirrorModuleStatus_def c)
    qed
  qed (simp add: mirrorModuleStatus_def c)
qed

lemma good_fold: "(\<And>x s. good s (f x s)) \<Longrightarrow> good s (fold f xs s)"
  by (induction xs arbitrary: s) (auto intro: good_trans)

lemma good_module_setFailure: "good s (module_setFailure lib e st i t msg m s)"
proof -
  obtain y calls where y: "take_calls (setFailure st i t msg m) (nsys s) = (y, calls)" by force
  have "good s (s\<lparr>nsys := y\<rparr>)" by (rule good_same) simp_all
  also have "good (s\<lparr>nsys := y\<rparr>) (fold (mirrorModuleStatus lib e) calls (s\<lparr>nsys := y\<rparr>))" by (intro good_fold good_mirror)
  finally show ?thesis using y by (simp add: module_setFailure_def)
qed

lemma good_AttachToModule: "n < nextNot s \<Longrightarrow> good s (AttachToModule lib e mo n s)"
  by (auto simp: AttachToModule_def Let_def state_le_def split: option.splits
      intro!: good_trans[OF good_updN good_module_setFailure])

text \<open>Selecting an action: it is called at most once, because the notification is executed afterwards.\<close>

lemma good_call:
  assumes "n < nextNot s" "State (ndat s n) = Executed" "n \<notin> fst ` set (actionCalls s)"
  shows "good s (s\<lparr>actionCalls := actionCalls s @ [(n, f, i)]\<rparr>)" (is "good s ?s")
proof -
  have "evolves s ?s" by (simp add: evolves_def state_le_def meta_deleted_def)
  moreover have "stored j m ?s = stored j m s" "chans_ok ?s = chans_ok s" for j m by (simp_all add: stored_def chans_ok_def trig_def)
  moreover have "calls_ok s \<Longrightarrow> calls_ok ?s" using assms by (auto simp: calls_ok_def)
  ultimately show ?thesis by (simp add: good_def ninv_def)
qed

lemma good_select:
  assumes n: "n < nextNot s"
  shows "good s (selectAndExecuteAction heard i n s)"
proof (cases "ninv s \<and> State (ndat s n) = Active")
  case True
  then have new: "n \<notin> fst ` set (actionCalls s)" by (auto simp: ninv_def calls_ok_def state_names)
  define sends where "sends = (case actionTrigger (ndat s n) of Some c \<Rightarrow> replicate heard (c, i) | None \<Rightarrow> [])"
  have exec: "good s (updN (\<lambda>d. d\<lparr>SelectedActionID := i, State := Executed\<rparr>) n s)"
    using n by (intro good_updN) (auto simp: state_le_def)
  let ?x = "updN (\<lambda>d. d\<lparr>SelectedActionID := i, State := Executed\<rparr>) n s"
  have snd_ok: "good t (t\<lparr>sent := sent t @ sends\<rparr>)" for t :: "'a nstate" by (rule good_same) simp_all
  have call: "good s (?x\<lparr>actionCalls := actionCalls s @ [(n, f, i)]\<rparr>)" for f
    using good_trans[OF exec good_call[of n ?x f i]] n new by simp
  show ?thesis
  proof (cases "actionFunction (ndat s n)")
    case (Some f)
    let ?t = "?x\<lparr>actionCalls := actionCalls s @ [(n, f, i)]\<rparr>"
    have "good s ?t" by (rule call)
    also have "good ?t (?t\<lparr>sent := sent ?t @ sends\<rparr>)" by (rule snd_ok)
    also have "good (?t\<lparr>sent := sent ?t @ sends\<rparr>) (resolveModuleFailure n (?t\<lparr>sent := sent ?t @ sends\<rparr>))"
      using n by (intro good_resolveModuleFailure) simp
    finally have "good s (resolveModuleFailure n (?t\<lparr>sent := sent ?t @ sends\<rparr>))" .
    moreover have "selectAndExecuteAction heard i n s = resolveModuleFailure n (?t\<lparr>sent := sent ?t @ sends\<rparr>)"
      using True Some by (cases "actionTrigger (ndat s n)")
        (auto simp: selectAndExecuteAction_def Let_def sends_def updN_def intro!: arg_cong[where f = "resolveModuleFailure n", OF nstate.equality])
    ultimately show ?thesis by simp
  next
    case None
    show ?thesis
    proof (cases "actionTrigger (ndat s n) \<noteq> None \<and> 0 < heard")
      case heard: True
      have "good s ?x" by (rule exec)
      also have "good ?x (?x\<lparr>sent := sent ?x @ sends\<rparr>)" by (rule snd_ok)
      also have "good (?x\<lparr>sent := sent ?x @ sends\<rparr>) (resolveModuleFailure n (?x\<lparr>sent := sent ?x @ sends\<rparr>))"
        using n by (intro good_resolveModuleFailure) simp
      finally have "good s (resolveModuleFailure n (?x\<lparr>sent := sent ?x @ sends\<rparr>))" .
      moreover have "selectAndExecuteAction heard i n s = resolveModuleFailure n (?x\<lparr>sent := sent ?x @ sends\<rparr>)"
        using True None heard
        by (auto simp: selectAndExecuteAction_def Let_def sends_def updN_def intro!: arg_cong[where f = "resolveModuleFailure n", OF nstate.equality])
      ultimately show ?thesis by simp
    next
      case False
      then have "selectAndExecuteAction heard i n s = updN (\<lambda>d. d\<lparr>State := Responded, SelectedActionID := i\<rparr>) n s"
        using True None by (auto simp: selectAndExecuteAction_def Let_def updN_def split: option.splits)
      moreover have "good s (updN (\<lambda>d. d\<lparr>State := Responded, SelectedActionID := i\<rparr>) n s)"
        using n True by (intro good_updN) (auto simp: state_le_def)
      ultimately show ?thesis by simp
    qed
  qed
qed (auto simp: good_def selectAndExecuteAction_def)

lemma select_nextNot: "nextNot (selectAndExecuteAction heard i n s) = nextNot s"
  by (simp add: selectAndExecuteAction_def Let_def resolveModuleFailure_def module_Resolve_frame split: option.splits)

lemma good_answer: "ex < nextNot s \<Longrightarrow> good s (answer lib heard n ex s)"
proof -
  assume e: "ex < nextNot s"
  let ?f = "\<lambda>x. x\<lparr>State := Executed, SelectedActionID := (if SelectedActionID (ndat s n) \<noteq> [] then SelectedActionID (ndat s n) else SelectedActionID x)\<rparr>"
  define s1 where "s1 = (if State (ndat s n) = Executed then updN ?f ex s else s)"
  have 1: "good s s1" "nextNot s1 = nextNot s" using e by (auto simp: s1_def state_le_def intro: good_updN)
  have 2: "good s1 (selectAndExecuteAction heard i ex s1)" for i by (rule good_select) (use e 1 in simp)
  have 3: "good s1 (save lib False ex s1)" "good (selectAndExecuteAction heard i ex s1) (save lib False ex (selectAndExecuteAction heard i ex s1))" for i
    by (rule good_save, use e 1 in \<open>simp add: select_nextNot\<close>)+
  show ?thesis using good_trans[OF 1(1) 3(1)] good_trans[OF good_trans[OF 1(1) 2] 3(2)] 1(1)
    unfolding answer_def Let_def s1_def[symmetric] by simp
qed

lemma good_Put:
  assumes "StorageInterface_Put lib dsd e heard r s = Some (s', x)" "\<And>m. r = NObject m \<Longrightarrow> m < nextNot s"
  shows "good s s'"
proof (cases "ninv s")
  case True
  show ?thesis
  proof (cases "EnsureNotification dsd e r s")
    case (Inr p)
    obtain s1 n where p: "p = (s1, n)" by (cases p)
    have g: "good s s1 \<and> n < nextNot s1"
      using Inr p assms(2) by (auto simp: EnsureNotification_def alloc_def good_alloc[unfolded alloc_def fst_conv] split: nrecord.splits sum.splits)
    then have "ninv s1" using True by (simp add: good_def)
    then have ref: "\<And>i m. nots s1 i = Some m \<Longrightarrow> m < nextNot s1" using ninv_stored stored_ref by blast
    have "good s1 s' \<or> s' = s1"
      using assms(1) Inr p good_save[of n s1] g ref good_answer[of _ s1 lib heard n]
      by (auto simp: StorageInterface_Put_def applyUpdate_def split: option.splits if_splits)
    then show ?thesis using g good_trans by blast
  qed (use assms(1) in \<open>auto simp: StorageInterface_Put_def\<close>)
qed (simp add: good_def)

lemma good_StorageInterface_Delete: "good s (fst (StorageInterface_Delete key s))"
proof (cases "ninv s")
  case True
  then show ?thesis using good_delete[of _ s True] ninv_stored stored_ref
    by (fastforce simp: StorageInterface_Delete_def split: option.splits)
qed (simp add: good_def)

lemma good_deleteExpired: "good s (deleteExpiredNotifs order s)"
proof (cases "ninv s")
  case True
  have "good t (fold (\<lambda>n s. if isExpired n s then delete True n s else s) ns t)" if "\<forall>n \<in> set ns. n < nextNot t" for ns and t :: "'a nstate"
    using that
  proof (induction ns arbitrary: t)
    case (Cons n ns)
    have g: "good t (if isExpired n t then delete True n t else t)" using Cons.prems good_delete by auto
    then show ?case using good_trans[OF g Cons.IH] Cons.prems by (simp add: delete_frame)
  qed simp
  moreover have "m < nextNot s" if "nots s i = Some m" for i m using ninv_stored[OF True that] by (rule stored_ref)
  then have "\<forall>n \<in> set (getNotsCopy order s). n < nextNot s" by (auto simp: getNotsCopy_def)
  ultimately show ?thesis by (simp add: deleteExpiredNotifs_def)
qed (simp add: good_def)

subsection \<open>Runs\<close>

inductive n_op :: "uuid_lib \<Rightarrow> 'e notif dsd_lib \<Rightarrow> 'e \<Rightarrow> 'e nstate \<Rightarrow> 'e nstate \<Rightarrow> bool" for lib dsd e where
  create: "belongsTo d = None \<Longrightarrow> actionFunction d = None \<Longrightarrow> actionTrigger d = None \<Longrightarrow> expiredTrigger d = None \<Longrightarrow>
    n_op lib dsd e s (fst (alloc zero_base d s))"
| response: "n < nextNot s \<Longrightarrow> n_op lib dsd e s (fst (Response n s))"
| expired: "n < nextNot s \<Longrightarrow> n_op lib dsd e s (fst (Expired_ch n s))"
| action_function: "n < nextNot s \<Longrightarrow> n_op lib dsd e s (SetActionFunction f n s)"
| update: "n < nextNot s \<Longrightarrow> n_op lib dsd e s (Notif_Update lib x n s)"
| attach: "n < nextNot s \<Longrightarrow> n_op lib dsd e s (AttachToModule lib e mo n s)"
| failure: "n_op lib dsd e s (module_setFailure lib e st i t msg m s)"
| resolve: "n_op lib dsd e s (module_Resolve i m s)"
| mirror: "mirrors s = xs @ c # ys \<Longrightarrow> n_op lib dsd e s (mirrorModuleStatus lib e c (s\<lparr>mirrors := xs @ ys\<rparr>))"
| put: "StorageInterface_Put lib dsd e heard r s = Some (s', x) \<Longrightarrow> (\<And>m. r = NObject m \<Longrightarrow> m < nextNot s) \<Longrightarrow> n_op lib dsd e s s'"
| storage_delete: "n_op lib dsd e s (fst (StorageInterface_Delete key s))"
| clean: "n_op lib dsd e s (deleteExpiredNotifs order s)"
| time: "0 < sint t \<Longrightarrow> n_op lib dsd e s (s\<lparr>nnow := t\<rparr>)"
| settings: "n_op lib dsd e s (s\<lparr>useSystemNotifications := u, dbController := d\<rparr>)"

text \<open>Saving and deleting by a client are two steps, between which others may run.\<close>

record 'e nrun =
  nst :: "'e nstate"
  pending :: "(string \<times> ref option) list"

definition commit :: "string \<times> ref option \<Rightarrow> 'e nstate \<Rightarrow> 'e nstate" where
  "commit p s = (case p of (i, Some n) \<Rightarrow> store_id i n s | (i, None) \<Rightarrow> remove_id i s)"

inductive n_step :: "uuid_lib \<Rightarrow> 'e notif dsd_lib \<Rightarrow> 'e \<Rightarrow> 'e nrun \<Rightarrow> 'e nrun \<Rightarrow> bool" for lib dsd e where
  op: "n_op lib dsd e (nst r) s' \<Longrightarrow> n_step lib dsd e r (r\<lparr>nst := s'\<rparr>)"
| save_first: "n < nextNot (nst r) \<Longrightarrow> save_locked lib True n (nst r) = (s', i) \<Longrightarrow>
    n_step lib dsd e r (r\<lparr>nst := s', pending := pending r @ [(i, Some n)]\<rparr>)"
| delete_first: "n < nextNot (nst r) \<Longrightarrow>
    n_step lib dsd e r (r\<lparr>nst := delete_locked True n (close_action n (nst r)), pending := pending r @ [(EventID (ndat (nst r) n), None)]\<rparr>)"
| second: "pending r = xs @ p # ys \<Longrightarrow> n_step lib dsd e r (r\<lparr>nst := commit p (nst r), pending := xs @ ys\<rparr>)"

definition n_init :: "sys \<Rightarrow> int64 \<Rightarrow> 'e notif heap \<Rightarrow> 'e nrun" where
  "n_init m t h = \<lparr>nst = \<lparr>nheap = h, nextNot = 0, nots = Map.empty, nsys = m, mirrors = [], nnow = t, useSystemNotifications = True,
     dbController = False, uuidCnt = 0, pushLog = [], actionCalls = [], sent = [], nextChan = 0, closedChans = {}, npanic = None\<rparr>, pending = []\<rparr>"

definition rinv :: "'e nrun \<Rightarrow> bool" where
  "rinv r \<longleftrightarrow> ninv (nst r) \<and> (\<forall>(i, x) \<in> set (pending r). \<forall>n. x = Some n \<longrightarrow> i = [] \<or> stored i n (nst r))"

lemma good_op: "n_op lib dsd e s s' \<Longrightarrow> good s s'"
proof (induction rule: n_op.induct)
  case (mirror s xs c ys)
  have "good s (s\<lparr>mirrors := xs @ ys\<rparr>)" by (rule good_same) simp_all
  then show ?case by (rule good_trans) (rule good_mirror)
next
  case (time t s)
  have "stored i n (s\<lparr>nnow := t\<rparr>) = stored i n s" "chans_ok (s\<lparr>nnow := t\<rparr>) = chans_ok s" "calls_ok (s\<lparr>nnow := t\<rparr>) = calls_ok s"
    "evolves s (s\<lparr>nnow := t\<rparr>)" for i n
    by (simp_all add: stored_def chans_ok_def calls_ok_def trig_def evolves_def state_le_def meta_deleted_def)
  then show ?case using time by (simp add: good_def ninv_def)
next
  case (settings s u d)
  show ?case by (rule good_same) simp_all
next
  case (action_function n s f)
  then show ?case by (auto simp: SetActionFunction_def state_le_def intro!: good_updN)
qed (auto intro: good_alloc good_Response good_Expired_ch good_Notif_Update good_AttachToModule good_module_setFailure
    good_module_Resolve good_Put good_StorageInterface_Delete good_deleteExpired)

lemma rinv_good:
  assumes "rinv r" "good (nst r) s'" "\<forall>(i, x) \<in> set p. \<forall>n. x = Some n \<longrightarrow> i = [] \<or> stored i n s' \<or> (i, x) \<in> set (pending r)"
  shows "rinv (r\<lparr>nst := s', pending := p\<rparr>) \<and> evolves (nst r) s'"
proof -
  have e: "ninv s'" "evolves (nst r) s'" using assms by (auto simp: rinv_def good_def)
  have "i = [] \<or> stored i n s'" if "(i, Some n) \<in> set p" for i n
    using assms(1,3) that stored_evolves[OF e(2)] unfolding rinv_def by fastforce
  then show ?thesis using e by (auto simp: rinv_def)
qed

lemma rinv_step: "n_step lib dsd e r r' \<Longrightarrow> rinv r \<Longrightarrow> rinv r' \<and> evolves (nst r) (nst r')"
proof (induction rule: n_step.induct)
  case (op r s')
  have "good (nst r) s'" by (rule good_op[OF op(1)])
  then show ?case using rinv_good[of r s' "pending r"] op by force
next
  case (save_first n r s' i)
  then show ?case using rinv_good[of r s' "pending r @ [(i, Some n)]"] good_save_locked by force
next
  case (delete_first n r)
  have "good (nst r) (delete_locked True n (close_action n (nst r)))"
    using delete_first by (intro good_trans[OF good_close_action good_delete_locked]) (auto simp: delete_frame)
  then show ?case using rinv_good[of r "delete_locked True n (close_action n (nst r))" "pending r @ [(EventID (ndat (nst r) n), None)]"] delete_first by force
next
  case (second r xs p ys)
  have "good (nst r) (commit p (nst r))"
    using second by (cases p; cases "snd p") (auto simp: commit_def rinv_def intro: good_remove_id good_store_id)
  then show ?case using rinv_good[of r "commit p (nst r)" "xs @ ys"] second by fastforce
qed

lemma rinv_run: "(n_step lib dsd e)\<^sup>*\<^sup>* r r' \<Longrightarrow> rinv r \<Longrightarrow> rinv r' \<and> evolves (nst r) (nst r')"
  by (induction rule: rtranclp_induct) (auto dest: rinv_step intro: evolves_trans)

lemma rinv_init: "0 < sint t \<Longrightarrow> rinv (n_init m t h)"
  by (simp add: rinv_def n_init_def ninv_def chans_ok_def calls_ok_def)

text \<open>C31. In every interleaving of clients, answers over the database, the cleaner and the mirroring of module failures: the state of a notification only
  moves from active over responded to executed, its event ID does not change once it is set, a deleted notification stays deleted, its action function is called at
  most once, and then it is executed; no channel is closed twice; and what the map holds under an ID is a saved notification with this event ID.\<close>

theorem notifications_move_forward:
  assumes "(n_step lib dsd e)\<^sup>*\<^sup>* (n_init m t h) r" "(n_step lib dsd e)\<^sup>*\<^sup>* r r'" "0 < sint t"
  shows "(n < nextNot (nst r) \<longrightarrow>
      state_le (State (ndat (nst r) n)) (State (ndat (nst r') n)) \<and>
      (EventID (ndat (nst r) n) \<noteq> [] \<longrightarrow> EventID (ndat (nst r') n) = EventID (ndat (nst r) n)) \<and>
      (meta_deleted n (nst r) \<longrightarrow> meta_deleted n (nst r'))) \<and>
    length (filter (\<lambda>c. fst c = n) (actionCalls (nst r'))) \<le> 1 \<and>
    (n \<in> fst ` set (actionCalls (nst r')) \<longrightarrow> State (ndat (nst r') n) = Executed) \<and>
    npanic (nst r') \<noteq> Some (GoPanic ''close of closed channel'') \<and>
    (nots (nst r') i = Some k \<longrightarrow> EventID (ndat (nst r') k) = i \<and> State (ndat (nst r') k) \<noteq> [] \<and> rMeta (nheap (nst r')) k \<noteq> None)"
proof -
  have 1: "rinv r" using rinv_run[OF assms(1)] rinv_init[OF assms(3)] by blast
  have 2: "rinv r'" "evolves (nst r) (nst r')" using rinv_run[OF assms(2) 1] by auto
  have "length (filter (\<lambda>c. fst c = n) xs) \<le> 1" if "distinct (map fst xs)" for xs :: "(ref \<times> nat \<times> string) list"
    using that by (induction xs) (auto simp: filter_empty_conv image_iff)
  moreover have "nil_panic \<noteq> GoPanic ''close of closed channel''" by (simp add: nil_panic_def)
  ultimately show ?thesis using 2 ninv_stored[of "nst r'" i k]
    by (auto simp: rinv_def evolves_def ninv_def calls_ok_def stored_def)
qed

subsection \<open>Answers\<close>

lemma save_effects:
  "State (ndat s n) \<noteq> [] \<Longrightarrow> State (ndat (save lib w n s) n) = State (ndat s n)"
  "SelectedActionID (ndat (save lib w n s) n) = SelectedActionID (ndat s n)" "belongsTo (ndat (save lib w n s) n) = belongsTo (ndat s n)"
  "actionCalls (save lib w n s) = actionCalls s" "sent (save lib w n s) = sent s" "nsys (save lib w n s) = nsys s"
  "EventID (ndat s n) \<noteq> [] \<Longrightarrow> nots s (EventID (ndat s n)) = Some n \<Longrightarrow> nots (save lib w n s) = nots s"
  by (auto simp: save_def save_locked_def store_id_def push_def Let_def split: prod.splits)

definition executes :: "nat \<Rightarrow> 'e notif \<Rightarrow> bool" where
  "executes heard d \<longleftrightarrow> actionFunction d \<noteq> None \<or> actionTrigger d \<noteq> None \<and> 0 < heard"

lemma resolve_effects:
  "State (ndat (resolveModuleFailure n s) m) = State (ndat s m)" "SelectedActionID (ndat (resolveModuleFailure n s) m) = SelectedActionID (ndat s m)"
  "EventID (ndat (resolveModuleFailure n s) m) = EventID (ndat s m)" "belongsTo (ndat (resolveModuleFailure n s) n) = None"
  "actionCalls (resolveModuleFailure n s) = actionCalls s" "sent (resolveModuleFailure n s) = sent s" "nots (resolveModuleFailure n s) = nots s"
  by (auto simp: resolveModuleFailure_def module_Resolve_def split: option.splits prod.splits)

lemma select_effects:
  assumes "State (ndat s n) = Active"
  shows "SelectedActionID (ndat (selectAndExecuteAction heard i n s) n) = i"
    "State (ndat (selectAndExecuteAction heard i n s) n) = (if executes heard (ndat s n) then Executed else Responded)"
    "actionCalls (selectAndExecuteAction heard i n s) = actionCalls s @ (case actionFunction (ndat s n) of Some f \<Rightarrow> [(n, f, i)] | None \<Rightarrow> [])"
    "sent (selectAndExecuteAction heard i n s) = sent s @ (case actionTrigger (ndat s n) of Some c \<Rightarrow> replicate heard (c, i) | None \<Rightarrow> [])"
    "executes heard (ndat s n) \<Longrightarrow> belongsTo (ndat (selectAndExecuteAction heard i n s) n) = None"
    "EventID (ndat (selectAndExecuteAction heard i n s) n) = EventID (ndat s n)" "nots (selectAndExecuteAction heard i n s) = nots s"
  using assms by (auto simp: selectAndExecuteAction_def Let_def executes_def resolve_effects split: option.splits)

lemma applyUpdate_answer:
  assumes "nots s i = Some ex" "\<not> meta_deleted ex s" "State (ndat s ex) = Active" "EventID (ndat s ex) = i" "i \<noteq> []"
    "SelectedActionID (ndat s n) \<noteq> []" "State (ndat s n) \<noteq> Executed" "held \<noteq> Some ex"
  shows "applyUpdate lib heard held n i s = Some (save lib False ex (selectAndExecuteAction heard (SelectedActionID (ndat s n)) ex s), Inr ex)"
  using assms by (simp add: applyUpdate_def answer_def Let_def state_names)


lemma fresh_frame:
  "n < nextNot s \<Longrightarrow> ndat (fst (alloc b d s)) n = ndat s n" "n < nextNot s \<Longrightarrow> meta_deleted n (fst (alloc b d s)) = meta_deleted n s"
  "nots (fst (alloc b d s)) = nots s" "actionCalls (fst (alloc b d s)) = actionCalls s" "sent (fst (alloc b d s)) = sent s"
  "ndat (fst (alloc b d s)) (nextNot s) = d" "snd (alloc b d s) = nextNot s"
  by (auto simp: alloc_def meta_deleted_def rMeta_def)

text \<open>C32. An answer to an active notification that a user writes over the database selects the action, calls the action function, is sent to everybody who
  listens, and leaves the notification executed, with its module failure resolved, if somebody acted on it, and responded otherwise; once it is executed, all further answers are
  refused and change no notification.\<close>

theorem answers_reach_actions:
  assumes "ninv s" "nots s i = Some ex" "dbKey (wbase w) = ''all/'' @ i" "Unwrap dsd w (zero_base, zero_notif e) = Inr (b, d)" "\<not> meta_deleted ex s"
  shows "(State (ndat s ex) = Active \<and> SelectedActionID d \<noteq> [] \<and> State d \<noteq> Executed \<longrightarrow>
      (\<exists>s'. StorageInterface_Put lib dsd e heard (NWrapped w) s = Some (s', Inr ex) \<and> nots s' = nots s \<and>
         SelectedActionID (ndat s' ex) = SelectedActionID d \<and> State (ndat s' ex) = (if executes heard (ndat s ex) then Executed else Responded) \<and>
         actionCalls s' = actionCalls s @ (case actionFunction (ndat s ex) of Some f \<Rightarrow> [(ex, f, SelectedActionID d)] | None \<Rightarrow> []) \<and>
         sent s' = sent s @ (case actionTrigger (ndat s ex) of Some c \<Rightarrow> replicate heard (c, SelectedActionID d) | None \<Rightarrow> []) \<and>
         (executes heard (ndat s ex) \<longrightarrow> belongsTo (ndat s' ex) = None))) \<and>
    (State (ndat s ex) = Executed \<longrightarrow>
      (\<exists>s'. StorageInterface_Put lib dsd e heard (NWrapped w) s = Some (s', Inl (ErrNew ''action already executed'')) \<and>
         nots s' = nots s \<and> (\<forall>n < nextNot s. nheap s' n = nheap s n) \<and> actionCalls s' = actionCalls s \<and> sent s' = sent s))"
proof -
  define d1 where "d1 = d\<lparr>belongsTo := None, actionFunction := None, actionTrigger := None, expiredTrigger := None\<rparr>"
  define s1 where "s1 = fst (alloc b d1 s)"
  have x: "ex < nextNot s" "EventID (ndat s ex) = i" "i \<noteq> []" using ninv_stored[OF assms(1,2)] by (auto simp: stored_def)
  have s1: "ndat s1 ex = ndat s ex" "meta_deleted ex s1 = meta_deleted ex s" "nots s1 = nots s" "actionCalls s1 = actionCalls s" "sent s1 = sent s"
    "ndat s1 (nextNot s) = d1" using x by (simp_all add: s1_def fresh_frame)
  have put: "StorageInterface_Put lib dsd e heard (NWrapped w) s = applyUpdate lib heard None (nextNot s) i s1"
    using assms(3,4) by (simp add: StorageInterface_Put_def EnsureNotification_def record_key_def alloc_def s1_def d1_def id_of_key_def)
  have "\<exists>s'. StorageInterface_Put lib dsd e heard (NWrapped w) s = Some (s', Inr ex) \<and> nots s' = nots s \<and>
         SelectedActionID (ndat s' ex) = SelectedActionID d \<and> State (ndat s' ex) = (if executes heard (ndat s ex) then Executed else Responded) \<and>
         actionCalls s' = actionCalls s @ (case actionFunction (ndat s ex) of Some f \<Rightarrow> [(ex, f, SelectedActionID d)] | None \<Rightarrow> []) \<and>
         sent s' = sent s @ (case actionTrigger (ndat s ex) of Some c \<Rightarrow> replicate heard (c, SelectedActionID d) | None \<Rightarrow> []) \<and>
         (executes heard (ndat s ex) \<longrightarrow> belongsTo (ndat s' ex) = None)"
    if a: "State (ndat s ex) = Active" "SelectedActionID d \<noteq> []" "State d \<noteq> Executed"
  proof -
    let ?t = "selectAndExecuteAction heard (SelectedActionID d) ex s1"
    have act: "State (ndat s1 ex) = Active" using a s1 by simp
    have "applyUpdate lib heard None (nextNot s) i s1 = Some (save lib False ex ?t, Inr ex)"
      using applyUpdate_answer[of s1 i ex "nextNot s" None lib heard] a s1 x assms by (simp add: d1_def)
    moreover have "State (ndat ?t ex) \<noteq> []" "nots ?t (EventID (ndat ?t ex)) = Some ex" "EventID (ndat ?t ex) \<noteq> []"
      using select_effects[OF act] s1 x assms(2) by (auto simp: state_names)
    ultimately show ?thesis using put select_effects[OF act, of heard "SelectedActionID d"] s1 by (simp add: save_effects)
  qed
  moreover have "nheap s1 n = nheap s n" if "n < nextNot s" for n using that by (simp add: s1_def alloc_def)
  then have "State (ndat s ex) = Executed \<longrightarrow>
      (\<exists>s'. StorageInterface_Put lib dsd e heard (NWrapped w) s = Some (s', Inl (ErrNew ''action already executed'')) \<and>
         nots s' = nots s \<and> (\<forall>n < nextNot s. nheap s' n = nheap s n) \<and> actionCalls s' = actionCalls s \<and> sent s' = sent s)"
    using put s1 assms by (simp add: applyUpdate_def)
  ultimately show ?thesis by blast
qed

subsection \<open>The cleaner and departures\<close>

lemma delete_other:
  "m \<noteq> n \<Longrightarrow> nheap (delete w n s) m = nheap s m" "nots (delete w n s) = (nots s)(EventID (ndat s n) := None)" "nnow (delete w n s) = nnow s"
  by (auto simp: delete_def delete_locked_def remove_id_def resolveModuleFailure_def module_Resolve_frame push_def close_expired_def close_ch_def
      updN_def updB_def split: option.splits)

lemma delete_marks: "rMeta (nheap s) n \<noteq> None \<Longrightarrow> 0 < sint (nnow s) \<Longrightarrow> meta_deleted n (delete w n s)"
  by (auto simp: delete_def delete_locked_def remove_id_def resolveModuleFailure_def module_Resolve_frame push_def close_expired_def close_ch_def
      updN_def updB_def meta_deleted_def rMeta_def Delete_meta_def IsDeleted_def split: option.splits)

lemma clean_fold:
  assumes "distinct ns" "0 < sint (nnow s)" "\<forall>n \<in> set ns. rMeta (nheap s) n \<noteq> None" "inj_on (\<lambda>n. EventID (ndat s n)) (set ns)"
  shows "nots (fold (\<lambda>n s. if isExpired n s then delete True n s else s) ns s) i =
      (if \<exists>n \<in> set ns. isExpired n s \<and> EventID (ndat s n) = i then None else nots s i) \<and>
    (\<forall>n. n \<notin> set ns \<or> \<not> isExpired n s \<longrightarrow> nheap (fold (\<lambda>n s. if isExpired n s then delete True n s else s) ns s) n = nheap s n) \<and>
    (\<forall>n \<in> set ns. isExpired n s \<longrightarrow> meta_deleted n (fold (\<lambda>n s. if isExpired n s then delete True n s else s) ns s))"
  using assms
proof (induction ns arbitrary: s)
  case (Cons k ns)
  let ?f = "\<lambda>n s. if isExpired n s then delete True n s else s"
  let ?t = "?f k s"
  have other: "nheap ?t m = nheap s m" if "m \<noteq> k" for m using that by (simp add: delete_other)
  have now: "nnow ?t = nnow s" by (simp add: delete_other)
  have exp: "isExpired m ?t = isExpired m s" if "m \<noteq> k" for m using other[OF that] now by (simp add: isExpired_def)
  have k: "k \<notin> set ns" using Cons.prems(1) by simp
  then have ne: "m \<noteq> k" if "m \<in> set ns" for m using that by blast
  have IH: "nots (fold ?f ns ?t) i = (if \<exists>n \<in> set ns. isExpired n ?t \<and> EventID (ndat ?t n) = i then None else nots ?t i) \<and>
    (\<forall>n. n \<notin> set ns \<or> \<not> isExpired n ?t \<longrightarrow> nheap (fold ?f ns ?t) n = nheap ?t n) \<and>
    (\<forall>n \<in> set ns. isExpired n ?t \<longrightarrow> meta_deleted n (fold ?f ns ?t))"
  proof (rule Cons.IH)
    show "\<forall>n \<in> set ns. rMeta (nheap ?t) n \<noteq> None" using Cons.prems(3) other ne by (simp add: rMeta_def)
    show "inj_on (\<lambda>n. EventID (ndat ?t n)) (set ns)" using Cons.prems(4) other ne by (auto simp: inj_on_def)
  qed (use Cons.prems now in simp_all)
  have e: "(\<exists>n \<in> set ns. isExpired n ?t \<and> EventID (ndat ?t n) = i) \<longleftrightarrow> (\<exists>n \<in> set ns. isExpired n s \<and> EventID (ndat s n) = i)"
    using exp other ne by (metis (no_types, lifting))
  have kt: "nheap (fold ?f ns ?t) k = nheap ?t k" using IH k by blast
  have 1: "nots (fold ?f ns ?t) i = (if \<exists>n \<in> set (k # ns). isExpired n s \<and> EventID (ndat s n) = i then None else nots s i)"
    using IH e by (auto simp: delete_other)
  have 2: "nheap (fold ?f ns ?t) n = nheap s n" if "n \<notin> set (k # ns) \<or> \<not> isExpired n s" for n
  proof (cases "n = k")
    case True
    then show ?thesis using kt that by simp
  next
    case False
    then show ?thesis using IH that other[OF False] exp[OF False] by auto
  qed
  have 3: "meta_deleted n (fold ?f ns ?t)" if "n \<in> set (k # ns)" "isExpired n s" for n
  proof (cases "n = k")
    case True
    then have "meta_deleted k ?t" using that Cons.prems(2,3) delete_marks[of s k True] by simp
    then show ?thesis using kt True by (simp add: meta_deleted_def rMeta_def)
  next
    case False
    then show ?thesis using IH that exp[OF False] by auto
  qed
  show ?case using 1 2 3 by simp
qed simp

text \<open>One pass of the cleaner.\<close>

lemma deleteExpiredNotifs_effect:
  assumes "ninv s" "distinct order" "dom (nots s) \<subseteq> set order"
  shows "nots (deleteExpiredNotifs order s) i = (case nots s i of Some n \<Rightarrow> if isExpired n s then None else Some n | None \<Rightarrow> None)"
    "nots s i = Some n \<Longrightarrow> if isExpired n s then meta_deleted n (deleteExpiredNotifs order s) else nheap (deleteExpiredNotifs order s) n = nheap s n"
proof -
  let ?ns = "getNotsCopy order s"
  have st: "nots s j = Some n \<Longrightarrow> EventID (ndat s n) = j \<and> rMeta (nheap s) n \<noteq> None" for j n using ninv_stored[OF assms(1), of j n] by (simp add: stored_def)
  have mem: "n \<in> set ?ns \<longleftrightarrow> (\<exists>j. nots s j = Some n)" for n using assms(3)
    by (auto simp: getNotsCopy_def image_iff) (metis domI option.sel subsetD)
  have "distinct ?ns" using assms(2) st by (auto simp: getNotsCopy_def distinct_map inj_on_def) (metis)
  moreover have "inj_on (\<lambda>n. EventID (ndat s n)) (set ?ns)" unfolding inj_on_def using mem st by (metis option.inject)
  moreover have "\<forall>n \<in> set ?ns. rMeta (nheap s) n \<noteq> None" using mem st by blast
  moreover have "0 < sint (nnow s)" using assms(1) by (simp add: ninv_def)
  ultimately have c: "nots (deleteExpiredNotifs order s) i = (if \<exists>n \<in> set ?ns. isExpired n s \<and> EventID (ndat s n) = i then None else nots s i) \<and>
    (\<forall>n. n \<notin> set ?ns \<or> \<not> isExpired n s \<longrightarrow> nheap (deleteExpiredNotifs order s) n = nheap s n) \<and>
    (\<forall>n \<in> set ?ns. isExpired n s \<longrightarrow> meta_deleted n (deleteExpiredNotifs order s))"
    unfolding deleteExpiredNotifs_def by (intro clean_fold)
  then show "nots (deleteExpiredNotifs order s) i = (case nots s i of Some n \<Rightarrow> if isExpired n s then None else Some n | None \<Rightarrow> None)"
    using mem st by (auto split: option.splits)
  show "nots s i = Some n \<Longrightarrow> if isExpired n s then meta_deleted n (deleteExpiredNotifs order s) else nheap (deleteExpiredNotifs order s) n = nheap s n"
    using c mem by auto
qed

lemma Notif_Delete_other:
  "m \<noteq> n \<Longrightarrow> nheap (Notif_Delete n s) m = nheap s m" "nots (Notif_Delete n s) = (nots s)(EventID (ndat s n) := None)"
  by (auto simp: Notif_Delete_def delete_other close_action_def close_ch_def updN_def split: option.splits)

lemma Resolve_set_again:
  assumes "failureID (store m mo) = i" "i \<noteq> []" "failureUpdateReady m"
  shows "take_calls (Resolve i mo) m = (m1, calls) \<Longrightarrow> calls = [(FailureNone, i, [], [])] \<and> failureID (store m1 mo) = [] \<and> failureUpdateReady m1"
  using assms by (auto simp: take_calls_def Resolve_def Let_def notifyOfChange_def upd_def)

lemma save_other: "m \<noteq> n \<Longrightarrow> nheap (save lib w n s) m = nheap s m"
  by (auto simp: save_def save_locked_def store_id_def push_def Let_def updN_def updB_def split: prod.splits)

lemma mirror_new:
  assumes "nots s i = None" "i \<noteq> []" "f \<noteq> FailureNone" "n < nextNot s"
  shows "nheap (mirrorModuleStatus lib e (f, i, t, x) s) n = nheap s n" "nsys (mirrorModuleStatus lib e (f, i, t, x) s) = nsys s"
proof -
  define d where "d = mirrored_type f ((zero_notif e)\<lparr>EventID := i, Title := t, Message := x,
        AvailableActions := [\<lparr>actID = [], actText = ''Get Help'', actType = ''open-url''\<rparr>]\<rparr>)"
  have "mirrorModuleStatus lib e (f, i, t, x) s = save lib True (nextNot s) (fst (alloc zero_base d s))"
    using assms by (simp add: mirrorModuleStatus_def alloc_def Notify_def d_def)
  then show "nheap (mirrorModuleStatus lib e (f, i, t, x) s) n = nheap s n" "nsys (mirrorModuleStatus lib e (f, i, t, x) s) = nsys s"
    using assms(4) by (simp_all add: save_other save_effects alloc_def)
qed

lemma module_setFailure_new:
  assumes "failureUpdateReady (nsys s)" "failureID (store (nsys s) m) = []" "i \<noteq> []" "nots s i = None" "n < nextNot s" "st \<noteq> FailureNone"
  shows "ndat (module_setFailure lib e st i t x m s) n = ndat s n \<and> failureID (store (nsys (module_setFailure lib e st i t x m s)) m) = i"
proof -
  obtain m1 calls where t1: "take_calls (setFailure st i t x m) (nsys s) = (m1, calls)" by force
  then have "calls = [(st, i, t, x)]" "failureID (store m1 m) = i"
    using assms by (auto simp: take_calls_def setFailure_def Let_def notifyOfChange_def upd_def)
  then show ?thesis using t1 mirror_new[of "s\<lparr>nsys := m1\<rparr>" i st n lib e t x] assms by (simp add: module_setFailure_def)
qed

text \<open>Where notifications depart from what their comments say. Deleting a notification also takes another one with the same event ID out of the map, without marking it as
  deleted. A module failure that is resolved and set again loses its notification when the resolving is mirrored late. A notification that was deleted
  can still be attached to a module and then sets its failure. Writing a notification without title and message is acknowledged but does not store it,
  and a notification is stored under its event ID, whatever key it was written to. Writing a notification object that is not wrapped never returns.\<close>

theorem notification_departures:
  "(rMeta (nheap s) n1 \<noteq> None \<and> n1 \<noteq> n2 \<and> nots s i = Some n2 \<and> EventID (ndat s n1) = i \<longrightarrow>
      nots (Notif_Delete n1 s) i = None \<and> meta_deleted n2 (Notif_Delete n1 s) = meta_deleted n2 s) \<and>
   (nots s i = Some n1 \<and> \<not> meta_deleted n1 s \<and> i \<noteq> [] \<and> EventID (ndat s n1) = i \<and> failureID (store (nsys s) m) = i \<and> failureUpdateReady (nsys s) \<longrightarrow>
      (let s2 = module_setFailure lib e FailureError i title msg m (module_Resolve i m s); c = (FailureNone, i, [], []) in
       failureID (store (nsys s2) m) = i \<and> mirrors s2 = mirrors s @ [c] \<and> nots s2 i = Some n1 \<and> nots (mirrorModuleStatus lib e c s2) i = None)) \<and>
   (State (ndat s n1) = Active \<and> belongsTo (ndat s n1) = None \<and> failureUpdateReady (nsys s) \<and> meta_deleted n1 s \<and> n1 < nextNot s \<and>
      EventID (ndat s n1) \<noteq> [] \<and> nots s (EventID (ndat s n1)) = None \<and> failureID (store (nsys s) m) = [] \<longrightarrow>
      belongsTo (ndat (AttachToModule lib e (Some m) n1 s) n1) = Some m \<and>
      failureID (store (nsys (AttachToModule lib e (Some m) n1 s)) m) = EventID (ndat s n1)) \<and>
   (nots s i = None \<and> dbKey (wbase w) = ''all/'' @ i \<and> Unwrap dsd w (zero_base, zero_notif e) = Inr (b, d) \<longrightarrow>
      (Title d = [] \<and> Message d = [] \<longrightarrow> (\<exists>s'. StorageInterface_Put lib dsd e heard (NWrapped w) s = Some (s', Inr (nextNot s)) \<and> nots s' = nots s)) \<and>
      (Title d \<noteq> [] \<and> EventID d \<noteq> [] \<and> EventID d \<noteq> i \<longrightarrow>
         (\<exists>s'. StorageInterface_Put lib dsd e heard (NWrapped w) s = Some (s', Inr (nextNot s)) \<and>
            StorageInterface_Get (dbKey (wbase w)) s' = Inl storage_ErrNotFound \<and> nots s' (EventID d) = Some (nextNot s)))) \<and>
   (rDatabaseKey (nheap s) n1 = ''all/'' @ i \<and> nots s i = None \<longrightarrow> StorageInterface_Put lib dsd e heard (NObject n1) s = None)"
proof (intro conjI impI)
  assume a: "rMeta (nheap s) n1 \<noteq> None \<and> n1 \<noteq> n2 \<and> nots s i = Some n2 \<and> EventID (ndat s n1) = i"
  show "nots (Notif_Delete n1 s) i = None" using a by (simp add: Notif_Delete_other)
  show "meta_deleted n2 (Notif_Delete n1 s) = meta_deleted n2 s" using a by (simp add: Notif_Delete_other meta_deleted_def rMeta_def)
next
  assume a: "nots s i = Some n1 \<and> \<not> meta_deleted n1 s \<and> i \<noteq> [] \<and> EventID (ndat s n1) = i \<and> failureID (store (nsys s) m) = i \<and> failureUpdateReady (nsys s)"
  obtain m1 calls where t: "take_calls (Resolve i m) (nsys s) = (m1, calls)" by force
  then have r: "calls = [(FailureNone, i, [], [])]" "failureID (store m1 m) = []" "failureUpdateReady m1" using Resolve_set_again[OF _ _ _ t] a by auto
  define s1 where "s1 = module_Resolve i m s"
  have s1: "nsys s1 = m1" "mirrors s1 = mirrors s @ calls" "nots s1 = nots s" "nheap s1 = nheap s"
    using t by (auto simp: s1_def module_Resolve_def)
  obtain m2 calls2 where t2: "take_calls (setFailure FailureError i title msg m) m1 = (m2, calls2)" by force
  then have c2: "calls2 = [(FailureError, i, title, msg)]" "failureID (store m2 m) = i"
    using r a by (auto simp: take_calls_def setFailure_def Let_def notifyOfChange_def upd_def)
  let ?s2 = "module_setFailure lib e FailureError i title msg m s1"
  have s2: "?s2 = s1\<lparr>nsys := m2\<rparr>" using t2 c2 s1 a by (simp add: module_setFailure_def mirrorModuleStatus_def)
  have "nots (mirrorModuleStatus lib e (FailureNone, i, [], []) ?s2) i = None"
    using a s1 s2 by (simp add: mirrorModuleStatus_def Notif_Delete_other meta_deleted_def)
  then show "let s2 = module_setFailure lib e FailureError i title msg m (module_Resolve i m s); c = (FailureNone, i, [], []) in
       failureID (store (nsys s2) m) = i \<and> mirrors s2 = mirrors s @ [c] \<and> nots s2 i = Some n1 \<and> nots (mirrorModuleStatus lib e c s2) i = None"
    unfolding s1_def[symmetric] Let_def using s2 s1 c2 r a by simp
next
  assume a: "State (ndat s n1) = Active \<and> belongsTo (ndat s n1) = None \<and> failureUpdateReady (nsys s) \<and> meta_deleted n1 s \<and> n1 < nextNot s \<and>
      EventID (ndat s n1) \<noteq> [] \<and> nots s (EventID (ndat s n1)) = None \<and> failureID (store (nsys s) m) = []"
  define s1 where "s1 = updN (\<lambda>d. d\<lparr>belongsTo := Some m\<rparr>) n1 s"
  have "belongsTo (ndat (module_setFailure lib e st (EventID (ndat s n1)) t x m s1) n1) = Some m \<and>
      failureID (store (nsys (module_setFailure lib e st (EventID (ndat s n1)) t x m s1)) m) = EventID (ndat s n1)" if "st \<noteq> FailureNone" for st t x
    using module_setFailure_new[of s1 m "EventID (ndat s n1)" n1 st lib e t x] a that by (simp add: s1_def)
  then show "belongsTo (ndat (AttachToModule lib e (Some m) n1 s) n1) = Some m"
    "failureID (store (nsys (AttachToModule lib e (Some m) n1 s)) m) = EventID (ndat s n1)"
    using a by (simp_all add: AttachToModule_def Let_def attach_failure_def s1_def split: ntype.splits)
next
  assume a: "nots s i = None \<and> dbKey (wbase w) = ''all/'' @ i \<and> Unwrap dsd w (zero_base, zero_notif e) = Inr (b, d)"
  define s1 where "s1 = fst (alloc b (d\<lparr>belongsTo := None, actionFunction := None, actionTrigger := None, expiredTrigger := None\<rparr>) s)"
  have put: "StorageInterface_Put lib dsd e heard (NWrapped w) s = Some (save lib False (nextNot s) s1, Inr (nextNot s))"
    using a by (simp add: StorageInterface_Put_def EnsureNotification_def record_key_def alloc_def s1_def id_of_key_def applyUpdate_def)
  have s1: "ndat s1 (nextNot s) = d\<lparr>belongsTo := None, actionFunction := None, actionTrigger := None, expiredTrigger := None\<rparr>" "nots s1 = nots s"
    by (simp_all add: s1_def alloc_def)
  show "\<exists>s'. StorageInterface_Put lib dsd e heard (NWrapped w) s = Some (s', Inr (nextNot s)) \<and> nots s' = nots s"
    if "Title d = [] \<and> Message d = []"
    using that put s1 by (simp add: save_def save_locked_def store_id_def)
  show "\<exists>s'. StorageInterface_Put lib dsd e heard (NWrapped w) s = Some (s', Inr (nextNot s)) \<and>
            StorageInterface_Get (dbKey (wbase w)) s' = Inl storage_ErrNotFound \<and> nots s' (EventID d) = Some (nextNot s)"
    if t: "Title d \<noteq> [] \<and> EventID d \<noteq> [] \<and> EventID d \<noteq> i"
  proof -
    have "nots (save lib False (nextNot s) s1) = (nots s)(EventID d \<mapsto> nextNot s)"
      using t s1 by (simp add: save_def save_locked_def store_id_def Let_def push_def)
    then show ?thesis using put t a by (intro exI[of _ "save lib False (nextNot s) s1"]) (auto simp: StorageInterface_Get_def id_of_key_def)
  qed
next
  assume "rDatabaseKey (nheap s) n1 = ''all/'' @ i \<and> nots s i = None"
  then show "StorageInterface_Put lib dsd e heard (NObject n1) s = None"
    by (simp add: StorageInterface_Put_def EnsureNotification_def record_key_def id_of_key_def applyUpdate_def)
qed

subsection \<open>Examples\<close>

definition sample_uuid :: uuid_lib where
  "sample_uuid = \<lparr>DerivedInstanceUUID = (\<lambda>m. ''derived''), RandomUUID = (\<lambda>ns k. ''random'')\<rparr>"

definition sample_modsys :: "string \<Rightarrow> sys" where
  "sample_modsys fid = \<lparr>modules = [''m''], store = (\<lambda>n. (initNewModule n None None None [])\<lparr>failureID := fid\<rparr>), modulesLocked = True,
     moduleMgmtEnabled = False, changeNotifyFn = False, failureUpdateReady = True, shutdownFlag = False, initialStartCompleted = True,
     changeLog = [], failureLog = [], goPanic = None\<rparr>"

definition sample_n :: "unit notif" where
  "sample_n = (zero_notif ())\<lparr>EventID := ''x'', Title := ''t'', Message := ''msg''\<rparr>"

definition sample_nstate :: "unit notif dbrec \<Rightarrow> (string \<rightharpoonup> ref) \<Rightarrow> string \<Rightarrow> unit nstate" where
  "sample_nstate n0 mp fid = \<lparr>nheap = (\<lambda>_. n0), nextNot = 2, nots = mp, nsys = sample_modsys fid, mirrors = [], nnow = 7,
     useSystemNotifications = True, dbController = False, uuidCnt = 0, pushLog = [], actionCalls = [], sent = [], nextChan = 0, closedChans = {},
     npanic = None\<rparr>"

definition sample_saved :: "string \<Rightarrow> int64 \<Rightarrow> unit notif dbrec" where
  "sample_saved st del = \<lparr>rbase = \<lparr>dbName = ''notifications'', dbKey = ''all/x'', bmeta = Some (zero_meta\<lparr>Deleted := del\<rparr>)\<rparr>,
     rdata = sample_n\<lparr>State := st\<rparr>\<rparr>"

text \<open>A serialiser that always loads the same notification.\<close>

definition sample_ndsd :: "unit notif \<Rightarrow> unit notif dsd_lib" where
  "sample_ndsd d =
     (let fail = (\<lambda>_. Inl ErrIncompatibleFormat) in
      \<lparr>json_Marshal = fail, json_MarshalIndent = (\<lambda>_ _. Inl ErrIncompatibleFormat), json_Unmarshal = (\<lambda>_ _. Inr d),
       yaml_Marshal = fail, yaml_Unmarshal = (\<lambda>_ _. Inl ErrIncompatibleFormat), cbor_Marshal = fail, cbor_Unmarshal = (\<lambda>_ _. Inl ErrIncompatibleFormat),
       msgpack_Marshal = fail, msgpack_Unmarshal = (\<lambda>_ _. Inl ErrIncompatibleFormat), as_bytes = (\<lambda>_. None), as_gencode_Marshal = (\<lambda>_. None),
       as_gencode_Unmarshal = (\<lambda>_. None), gzip_compress = (\<lambda>_. Inl ErrIncompatibleFormat), gzip_decompress = (\<lambda>_. Inl ErrIncompatibleFormat)\<rparr>)"

definition sample_nwrapper :: wrapper where
  "sample_nwrapper = \<lparr>wbase = \<lparr>dbName = ''notifications'', dbKey = ''all/x'', bmeta = None\<rparr>, Format = JSON, Data = []\<rparr>"

lemma sample_unwrap:
  "Unwrap (sample_ndsd d) sample_nwrapper (zero_base, zero_notif ()) = Inr (\<lparr>dbName = ''notifications'', dbKey = ''all/x'', bmeta = None\<rparr>, d)"
  by (simp add: Unwrap_def sample_nwrapper_def LoadAsFormat_def sample_ndsd_def unpack_with_def SetMeta_def SetKey_def KeyIsSet_def
      zero_base_def Key_def ParseKey_def SplitN2_def Let_def)

lemma sample_ninv: "ninv (sample_nstate (sample_saved Active del) [''x'' \<mapsto> 0] fid)"
  by (auto simp: ninv_def sample_nstate_def stored_def sample_saved_def sample_n_def zero_notif_def chans_ok_def trig_def calls_ok_def rMeta_def state_names
      split: if_splits)

definition sample_created :: "unit nrun" where
  "sample_created = (n_init (sample_modsys []) 7 (\<lambda>_. sample_saved [] 0))\<lparr>nst := fst (alloc zero_base sample_n (nst (n_init (sample_modsys []) 7 (\<lambda>_. sample_saved [] 0))))\<rparr>"

definition sample_done :: "unit nrun" where
  "sample_done = sample_created\<lparr>nst := store_id ''x'' 0 (fst (save_locked sample_uuid True 0 (nst sample_created))), pending := []\<rparr>"

lemma sample_nruns:
  "n_step sample_uuid (sample_ndsd sample_n) () (n_init (sample_modsys []) 7 (\<lambda>_. sample_saved [] 0)) sample_created"
  "(n_step sample_uuid (sample_ndsd sample_n) ())\<^sup>*\<^sup>* sample_created sample_done"
proof -
  show "n_step sample_uuid (sample_ndsd sample_n) () (n_init (sample_modsys []) 7 (\<lambda>_. sample_saved [] 0)) sample_created"
    unfolding sample_created_def by (rule n_step.op, rule n_op.create) (simp_all add: sample_n_def zero_notif_def)
  have c: "nextNot (nst sample_created) = 1" "pending sample_created = []" "ndat (nst sample_created) 0 = sample_n"
    by (simp_all add: sample_created_def n_init_def alloc_def)
  obtain s' where s': "save_locked sample_uuid True 0 (nst sample_created) = (s', ''x'')"
    using c by (simp add: save_locked_def Let_def sample_n_def zero_notif_def)
  have 1: "n_step sample_uuid (sample_ndsd sample_n) () sample_created (sample_created\<lparr>nst := s', pending := [(''x'', Some 0)]\<rparr>)"
    using n_step.save_first[OF _ s'] c by simp
  have 2: "n_step sample_uuid (sample_ndsd sample_n) () (sample_created\<lparr>nst := s', pending := [(''x'', Some 0)]\<rparr>) sample_done"
    using n_step.second[of "sample_created\<lparr>nst := s', pending := [(''x'', Some 0)]\<rparr>" "[]" "(''x'', Some 0)" "[]"] c s'
    by (simp add: sample_done_def commit_def)
  show "(n_step sample_uuid (sample_ndsd sample_n) ())\<^sup>*\<^sup>* sample_created sample_done" using 1 2 by (meson converse_rtranclp_into_rtranclp r_into_rtranclp)
qed

theorem notifications_move_forward_witness:
  "state_le (State (ndat (nst sample_created) 0)) (State (ndat (nst sample_done) 0)) \<and> State (ndat (nst sample_created) 0) \<noteq> State (ndat (nst sample_done) 0) \<and>
   nots (nst sample_done) ''x'' = Some 0 \<and> EventID (ndat (nst sample_done) 0) = ''x''"
proof -
  have first: "(n_step sample_uuid (sample_ndsd sample_n) ())\<^sup>*\<^sup>* (n_init (sample_modsys []) 7 (\<lambda>_. sample_saved [] 0)) sample_created"
    using sample_nruns(1) by (rule r_into_rtranclp)
  have n: "0 < nextNot (nst sample_created)" "State (ndat (nst sample_created) 0) = []" "nots (nst sample_done) ''x'' = Some 0"
    by (simp_all add: sample_created_def sample_done_def n_init_def alloc_def store_id_def sample_n_def zero_notif_def)
  show ?thesis using notifications_move_forward[OF first sample_nruns(2), of 0 "''x''" 0] n by auto
qed

theorem answers_reach_actions_witness:
  "\<exists>s'. StorageInterface_Put sample_uuid (sample_ndsd (sample_n\<lparr>SelectedActionID := ''ack''\<rparr>)) () 0 (NWrapped sample_nwrapper)
       (sample_nstate (sample_saved Active 0) [''x'' \<mapsto> 0] []) = Some (s', Inr 0) \<and>
     SelectedActionID (ndat s' 0) = ''ack'' \<and> State (ndat s' 0) = Responded"
proof -
  let ?s = "sample_nstate (sample_saved Active 0) [''x'' \<mapsto> 0] []"
  have "\<not> meta_deleted 0 ?s" "nots ?s ''x'' = Some 0" "dbKey (wbase sample_nwrapper) = ''all/'' @ ''x''" "State (ndat ?s 0) = Active" "\<not> executes 0 (ndat ?s 0)"
    by (simp_all add: meta_deleted_def rMeta_def sample_nstate_def sample_saved_def zero_meta_def IsDeleted_def sample_nwrapper_def executes_def sample_n_def zero_notif_def)
  then show ?thesis using answers_reach_actions[OF sample_ninv, of 0 "[]" "''x''" 0 sample_nwrapper "sample_ndsd (sample_n\<lparr>SelectedActionID := ''ack''\<rparr>)" "()", OF _ _ sample_unwrap, of sample_uuid 0]
    by (auto simp: sample_n_def zero_notif_def state_names)
qed

theorem notification_departures_witness:
  "nots (Notif_Delete 1 (sample_nstate (sample_saved Active 0) [''x'' \<mapsto> 0] [])) ''x'' = None \<and>
   (\<exists>c s2. nots s2 ''x'' = Some 0 \<and> failureID (store (nsys s2) ''m'') = ''x'' \<and> nots (mirrorModuleStatus sample_uuid () c s2) ''x'' = None) \<and>
   belongsTo (ndat (AttachToModule sample_uuid () (Some ''m'') 0 (sample_nstate (sample_saved Active 5) Map.empty [])) 0) = Some ''m'' \<and>
   (\<exists>s'. StorageInterface_Put sample_uuid (sample_ndsd (zero_notif ())) () 0 (NWrapped sample_nwrapper)
       (sample_nstate (sample_saved Active 5) Map.empty []) = Some (s', Inr 2) \<and> nots s' = Map.empty) \<and>
   (\<exists>s'. StorageInterface_Put sample_uuid (sample_ndsd (sample_n\<lparr>EventID := ''y''\<rparr>)) () 0 (NWrapped sample_nwrapper)
       (sample_nstate (sample_saved Active 5) Map.empty []) = Some (s', Inr 2) \<and> nots s' ''y'' = Some 2) \<and>
   StorageInterface_Put sample_uuid (sample_ndsd sample_n) () 0 (NObject 0) (sample_nstate (sample_saved Active 5) Map.empty []) = None"
proof (intro conjI)
  note samples = sample_nstate_def sample_saved_def sample_n_def zero_notif_def rMeta_def meta_deleted_def IsDeleted_def zero_meta_def sample_modsys_def
    rDatabaseKey_def sample_nwrapper_def
  note D = notification_departures[where lib = sample_uuid and e = "()"]
  let ?s = "sample_nstate (sample_saved Active 5) Map.empty []"
  have k: "dbKey (wbase sample_nwrapper) = ''all/'' @ ''x''" "nots ?s = Map.empty" "nextNot ?s = 2" by (simp_all add: samples)
  show "nots (Notif_Delete 1 (sample_nstate (sample_saved Active 0) [''x'' \<mapsto> 0] [])) ''x'' = None"
    using D[of "sample_nstate (sample_saved Active 0) [''x'' \<mapsto> 0] []" 1 0 "''x''"] by (simp add: samples)
  show "\<exists>c s2. nots s2 ''x'' = Some 0 \<and> failureID (store (nsys s2) ''m'') = ''x'' \<and> nots (mirrorModuleStatus sample_uuid () c s2) ''x'' = None"
    using D[of "sample_nstate (sample_saved Active 0) [''x'' \<mapsto> 0] ''x''" 0 0 "''x''" "''m''"] unfolding Let_def by (force simp: samples)
  show "belongsTo (ndat (AttachToModule sample_uuid () (Some ''m'') 0 (sample_nstate (sample_saved Active 5) Map.empty [])) 0) = Some ''m''"
  proof -
    have "State (ndat ?s 0) = Active" "belongsTo (ndat ?s 0) = None" "failureUpdateReady (nsys ?s)" "meta_deleted 0 ?s" "0 < nextNot ?s"
      "EventID (ndat ?s 0) = ''x''" "nots ?s ''x'' = None" "failureID (store (nsys ?s) ''m'') = []"
      by (simp_all add: samples)
    then show ?thesis using D[of ?s 0 0 "''x''" "''m''"] by simp
  qed
  show "\<exists>s'. StorageInterface_Put sample_uuid (sample_ndsd (zero_notif ())) () 0 (NWrapped sample_nwrapper)
       (sample_nstate (sample_saved Active 5) Map.empty []) = Some (s', Inr 2) \<and> nots s' = Map.empty"
    using D[of ?s 0 0 "''x''" "''m''" "[]" "[]" sample_nwrapper "sample_ndsd (zero_notif ())"
        "\<lparr>dbName = ''notifications'', dbKey = ''all/x'', bmeta = None\<rparr>" "zero_notif ()" 0] sample_unwrap[of "zero_notif ()"] k
    by (simp add: zero_notif_def)
  show "\<exists>s'. StorageInterface_Put sample_uuid (sample_ndsd (sample_n\<lparr>EventID := ''y''\<rparr>)) () 0 (NWrapped sample_nwrapper)
       (sample_nstate (sample_saved Active 5) Map.empty []) = Some (s', Inr 2) \<and> nots s' ''y'' = Some 2"
    using D[of ?s 0 0 "''x''" "''m''" "[]" "[]" sample_nwrapper "sample_ndsd (sample_n\<lparr>EventID := ''y''\<rparr>)"
        "\<lparr>dbName = ''notifications'', dbKey = ''all/x'', bmeta = None\<rparr>" "sample_n\<lparr>EventID := ''y''\<rparr>" 0]
      sample_unwrap[of "sample_n\<lparr>EventID := ''y''\<rparr>"] k by (auto simp: sample_n_def)
  show "StorageInterface_Put sample_uuid (sample_ndsd sample_n) () 0 (NObject 0) (sample_nstate (sample_saved Active 5) Map.empty []) = None"
    using D[of "sample_nstate (sample_saved Active 5) Map.empty []" 0 0 "''x''"] by (simp add: samples)
qed

end
