(* ===== verification/Spec2Isabelle.thy ===== *)
theory Spec2Isabelle
  imports Db_Delayed Module_Channels Query_Guarantees Config_Roundtrip Updater_Properties Api_Guarantees Api_Channel Module_Microtasks Module_Events Utils_Pool Notifications
begin

text \<open>
  \<^bold>\<open>A verification development for portbase\<close>

  Portbase is the Go base library of a desktop firewall: modules with dependencies that are
  started and stopped together, a key-value database with interchangeable storages, metadata
  and access control, and the serialisation formats both are stored in. This development
  translates that code into HOL functions, one definition per function or method, and proves
  the properties the rest of the program relies on.

  \<^bold>\<open>Serialisation.\<close> \<open>Codec\<close> states the interface of a self-delimiting encoding as a locale.
  \<open>Varint\<close> models \<^verbatim>\<open>formats/varint\<close> with \<open>encoding/binary\<close>'s loops on machine words, and interprets
  the locale on it. \<open>Container\<close> models \<^verbatim>\<open>container\<close>: a record of compartments and offset, with an
  abstraction function to the bytes it holds; writing and reading operations refine list
  operations. \<open>Dsd\<close> models \<^verbatim>\<open>formats/dsd\<close>: the serialisers (JSON, CBOR, MsgPack, GenCode) and gzip
  are parameters, collected in a record, whose laws are the round trips their documentation
  promises. \<open>Go_Strings\<close> has the functions of Go's \<open>strings\<close> and \<open>strconv\<close> packages in use.

  \<^bold>\<open>Database.\<close> \<open>Db_Record\<close> models \<^verbatim>\<open>database/record\<close>: metadata with relative and absolute expiry, the
  GenCode encoding of the metadata, keys, and both ways a record is packed. \<open>Storage\<close> models the
  storage interface as a record of operations on a heap of records, with the hash map, the
  sinkhole and the default methods of \<open>InjectBase\<close> as instances; locales state what a storage
  promises. \<open>Database\<close> models controllers, hooks, subscriptions and the registry of databases,
  \<open>Db_Interface\<close> the operations an application calls, with the cache of the interface (the
  package gcache) as a parameter. \<open>Db_Guarantees\<close> shows that permissions are enforced, that
  what was put is read back, and what deletion does with and without a cache; \<open>Db_Delayed\<close> that
  delayed writes are not lost, and what cancelling a subscription does.

  \<^bold>\<open>Queries.\<close> \<open>Db_Query\<close> models \<^verbatim>\<open>database/query\<close>: conditions as a tree with one constructor per Go type,
  what they select, how they are checked and printed. \<open>Query_Parser\<close> has the tokeniser and the
  recursive parser, with its index as state; \<open>Query_Roundtrip\<close> shows that parsing ends and that
  printed queries are read back, and where they are not; \<open>Query_Guarantees\<close> composes the parser
  with the in-memory database.

  \<^bold>\<open>Configuration.\<close> \<open>Config_Values\<close> has the values of options and the hierarchical form of a
  configuration, \<open>Config_Options\<close> options and the validation of values, \<open>Config_System\<close> the state of the
  package \<^verbatim>\<open>config\<close> with the operations that register, set, get, save and load.
  \<open>Config_Guarantees\<close> shows with a locale over the two settable fields of an option
  that every operation keeps the configuration well formed and getters up to date;
  \<open>Config_Roundtrip\<close> follows a configuration through its file and has the properties.

  \<^bold>\<open>Updater.\<close> \<open>Updater_Files\<close> models the file names of \<^verbatim>\<open>updater\<close>, \<open>Updater_Resources\<close> a resource with its versions,
  \<open>Updater_Registry\<close> the registry with its state and the index files, \<open>Updater_Fetch\<close> downloads,
  signatures and the scan of the storage directory, over a file system that is a map from paths to
  contents. The network, the signatures (jess) and semantic versions are parameters, as is the order \<open>sort.Sort\<close>
  leaves equal versions in. \<open>Updater_Guarantees\<close> and \<open>Updater_Properties\<close> show that the registries which the operations
  reach are well formed, which version is selected, that only verified data is installed, and
  what goes wrong in purging and in reporting errors. \<open>Go_Paths\<close> has the functions on paths.

  \<^bold>\<open>API.\<close> \<open>Api_Auth\<close> models the authentication of \<^verbatim>\<open>api\<close> with permissions, keys and sessions, \<open>Api_Router\<close> the main handler,
  endpoints with their registration and the bridge from the database to the API; requests and responses
  are records, the matching of routes and the parsing of URLs and times are parameters.
  \<open>Api_Guarantees\<close> shows who reaches a handler. \<open>Api_Database\<close> models the database API, its
  messages and goroutines and the iterators of \<^verbatim>\<open>database/iterator\<close>; \<open>Api_Channel\<close> has its steps as a relation and
  shows what a client receives, in every interleaving.

  \<^bold>\<open>Modules.\<close> \<open>Module_Manager\<close> models \<^verbatim>\<open>modules/modules.go\<close>, \<^verbatim>\<open>mgmt.go\<close>, \<^verbatim>\<open>status.go\<close>, \<^verbatim>\<open>start.go\<close>,
  \<^verbatim>\<open>stop.go\<close>: a store of module records, and the prepare, start and stop loops as one step relation
  in which the steps of the loop interleave with those of the goroutines that run the control
  functions, in every order; the iteration order of Go maps is arbitrary. \<open>Module_Loops\<close> proves
  once, in a locale over the contract of a phase, the invariants and the end of these loops,
  and interprets it for the three phases. \<open>Module_Lifecycle\<close> has \<open>Start\<close>, \<open>ManageModules\<close> and
  \<open>Shutdown\<close> with their properties, \<open>Module_Channels\<close> the use of signal channels, failure states
  and the marking of dependencies.
  \<open>Module_Tasks\<close> models \<^verbatim>\<open>modules/tasks.go\<close>: tasks, the two queues, the schedule, the handlers and the
  goroutines that execute tasks, each with its own place in its code; \<open>Module_Scheduling\<close> proves that
  in every interleaving no task overlaps with itself and no queued task is lost, and where the code
  departs from what it says. \<open>Module_Microtasks\<close> (\<^verbatim>\<open>modules/microtasks.go\<close>) has the clearance queues and
  the scheduler with its counter, \<open>Module_Events\<close> (\<^verbatim>\<open>modules/events.go\<close>) events and their hooks.

  \<^bold>\<open>Notifications.\<close> \<open>Notifications\<close> models \<^verbatim>\<open>notifications/notification.go\<close>, \<^verbatim>\<open>database.go\<close>, \<^verbatim>\<open>cleaner.go\<close> and
  \<^verbatim>\<open>module-mirror.go\<close> on top of the failure states of the module manager: a heap of notifications
  and the map of stored ones. Every operation is shown to keep one invariant and to move
  notifications forward only; further lemmas say what an answer, the cleaner and the mirroring of
  module failures do, and where the code departs from its comments.

  \<^bold>\<open>Utilities.\<close> \<open>Utils_Pool\<close> has the string slices of \<^verbatim>\<open>utils/slices.go\<close> and the pool of
  \<^verbatim>\<open>utils/stablepool.go\<close>, with the multiset of its items and the states in which the search of
  the pool overlooks a place.

  \<^bold>\<open>Bounds.\<close> No function has fuel. Loops are recursive functions with a termination proof, or
  partial functions into option whose totality is proved. For N modules a manager loop takes at
  most N(N + 6) + 1 steps.

  \<^bold>\<open>Not modelled.\<close> Everything that is input and output only: the HTTP server and websockets, files,
  logging output, metrics, process signals; adapters to third-party databases (badger, bbolt)
  and to gjson and reflection (\<^verbatim>\<open>database/accessor\<close>), which are parameters where modelled code
  calls them. Locks are modelled by the atomicity of the steps they protect.
\<close>

end
